(* ===== verification/Prelude.thy ===== *)
theory Prelude
  imports Complex_Main "HOL-Library.Word" "HOL-Library.AList" "HOL-Library.List_Lexorder"
    "HOL-Library.Char_ord" "HOL-Library.Multiset"
begin

text \<open>
  Shared vocabulary of the development.
  \<^item> \<open>float64\<close>: Go's \<open>float64\<close> as an exact rational or one of the three special values.
    Comparisons and the treatment of infinities, NaN and division by zero follow IEEE 754;
    rounding of finite results, overflow to infinity and the sign of zero are not modelled.
  \<^item> \<open>gomap\<close>: a Go map as the association list of its entries, in the order in which a
    \<^verbatim>\<open>range\<close> loop visits them. Go leaves that order open, so a theorem about a loop over a map
    holds for every such list.
  \<^item> strings: Go strings are byte sequences, \<open>string\<close> here; case mapping and folding are
    those of the ASCII letters.
  \<^item> \<open>stable_sort\<close>: \<^verbatim>\<open>sort.SliceStable\<close> for a comparison that is a strict weak order.
\<close>

named_theorems go_defs \<open>definitions of small accessors, unfolded by the component proofs\<close>

section \<open>Floating point numbers\<close>

datatype float64 = Fin rat | PosInf | NegInf | NaN

instantiation float64 :: "{zero, one, plus, uminus, minus, times, inverse, ord}"
begin
definition zero_float64 :: float64 where "0 = Fin 0"
definition one_float64 :: float64 where "1 = Fin 1"
fun plus_float64 :: "float64 \<Rightarrow> float64 \<Rightarrow> float64" where
  "Fin a + Fin b = Fin (a + b)"
| "NaN + y = NaN"
| "x + NaN = NaN"
| "PosInf + NegInf = NaN"
| "NegInf + PosInf = NaN"
| "PosInf + y = PosInf"
| "NegInf + y = NegInf"
| "x + PosInf = PosInf"
| "x + NegInf = NegInf"
fun uminus_float64 :: "float64 \<Rightarrow> float64" where
  "- Fin a = Fin (- a)"
| "- PosInf = NegInf"
| "- NegInf = PosInf"
| "- NaN = NaN"
definition minus_float64 :: "float64 \<Rightarrow> float64 \<Rightarrow> float64" where
  "minus_float64 x y = x + (- y)"
fun signed_inf :: "rat \<Rightarrow> float64" where
  "signed_inf s = (if s > 0 then PosInf else if s < 0 then NegInf else NaN)"
fun times_float64 :: "float64 \<Rightarrow> float64 \<Rightarrow> float64" where
  "Fin a * Fin b = Fin (a * b)"
| "NaN * y = NaN"
| "x * NaN = NaN"
| "PosInf * Fin b = signed_inf b"
| "NegInf * Fin b = signed_inf (- b)"
| "Fin a * PosInf = signed_inf a"
| "Fin a * NegInf = signed_inf (- a)"
| "PosInf * PosInf = PosInf"
| "NegInf * NegInf = PosInf"
| "PosInf * NegInf = NegInf"
| "NegInf * PosInf = NegInf"
fun divide_float64 :: "float64 \<Rightarrow> float64 \<Rightarrow> float64" where
  "Fin a div Fin b = (if b = 0 then signed_inf a else Fin (a / b))"
| "NaN div y = NaN"
| "x div NaN = NaN"
| "Fin a div PosInf = Fin 0"
| "Fin a div NegInf = Fin 0"
| "PosInf div Fin b = (if b < 0 then NegInf else PosInf)"
| "NegInf div Fin b = (if b < 0 then PosInf else NegInf)"
| "PosInf div PosInf = NaN"
| "PosInf div NegInf = NaN"
| "NegInf div PosInf = NaN"
| "NegInf div NegInf = NaN"
definition inverse_float64 :: "float64 \<Rightarrow> float64" where
  "inverse_float64 x = Fin 1 div x"
fun less_float64 :: "float64 \<Rightarrow> float64 \<Rightarrow> bool" where
  "Fin a < Fin b \<longleftrightarrow> a < b"
| "NaN < y \<longleftrightarrow> False"
| "x < NaN \<longleftrightarrow> False"
| "NegInf < NegInf \<longleftrightarrow> False"
| "NegInf < y \<longleftrightarrow> True"
| "PosInf < y \<longleftrightarrow> False"
| "x < PosInf \<longleftrightarrow> True"
| "x < NegInf \<longleftrightarrow> False"
fun less_eq_float64 :: "float64 \<Rightarrow> float64 \<Rightarrow> bool" where
  "Fin a \<le> Fin b \<longleftrightarrow> a \<le> b"
| "NaN \<le> y \<longleftrightarrow> False"
| "x \<le> NaN \<longleftrightarrow> False"
| "NegInf \<le> y \<longleftrightarrow> True"
| "x \<le> PosInf \<longleftrightarrow> True"
| "PosInf \<le> y \<longleftrightarrow> False"
| "x \<le> NegInf \<longleftrightarrow> False"
instance ..
end

text \<open>Go's \<^verbatim>\<open>==\<close> and \<^verbatim>\<open>!=\<close> on floats: NaN is equal to nothing.\<close>

definition feq :: "float64 \<Rightarrow> float64 \<Rightarrow> bool" where
  "feq x y \<longleftrightarrow> x \<le> y \<and> y \<le> x"

fun is_finite :: "float64 \<Rightarrow> bool" where
  "is_finite (Fin _) \<longleftrightarrow> True"
| "is_finite _ \<longleftrightarrow> False"

lemma Fin_minus_Fin [simp]: "Fin a - Fin b = Fin (a - b)"
  by (simp add: minus_float64_def)

lemma feq_Fin [simp]: "feq (Fin a) (Fin b) \<longleftrightarrow> a = b"
  by (auto simp: feq_def)

lemma is_finiteE:
  assumes "is_finite x"
  obtains q where "x = Fin q"
  using assms by (cases x) auto

lemma float64_less_irrefl [simp]: "\<not> (x::float64) < x"
  by (cases x) auto

lemma float64_less_trans:
  fixes x y z :: float64
  shows "x < y \<Longrightarrow> y < z \<Longrightarrow> x < z"
  by (cases x; cases y; cases z) auto

lemma float64_less_asym:
  fixes x y :: float64
  shows "x < y \<Longrightarrow> \<not> y < x"
  by (cases x; cases y) auto

text \<open>\<^verbatim>\<open>math.Floor\<close>, \<^verbatim>\<open>math.Ceil\<close> and \<^verbatim>\<open>math.Round\<close> (half away from zero).\<close>

definition rat_round :: "rat \<Rightarrow> int" where
  "rat_round q = (if q \<ge> 0 then \<lfloor>q + 1 / 2\<rfloor> else \<lceil>q - 1 / 2\<rceil>)"

fun math_floor :: "float64 \<Rightarrow> float64" where
  "math_floor (Fin q) = Fin (of_int \<lfloor>q\<rfloor>)"
| "math_floor x = x"

fun math_ceil :: "float64 \<Rightarrow> float64" where
  "math_ceil (Fin q) = Fin (of_int \<lceil>q\<rceil>)"
| "math_ceil x = x"

fun math_round :: "float64 \<Rightarrow> float64" where
  "math_round (Fin q) = Fin (of_int (rat_round q))"
| "math_round x = x"

lemma rat_round_of_int [simp]: "rat_round (of_int n) = n"
proof (cases "(of_int n :: rat) \<ge> 0")
  case True
  then show ?thesis by (simp add: rat_round_def floor_unique)
next
  case False
  then show ?thesis by (simp add: rat_round_def ceiling_unique)
qed

lemma rat_round_bounds: "\<bar>of_int (rat_round q) - q\<bar> \<le> 1 / 2"
proof (cases "q \<ge> 0")
  case True
  have "of_int \<lfloor>q + 1 / 2\<rfloor> \<le> q + 1 / 2 \<and> q + 1 / 2 < of_int \<lfloor>q + 1 / 2\<rfloor> + 1"
    using floor_correct [of "q + 1 / 2"] by simp
  with True show ?thesis unfolding rat_round_def by (simp only: if_True) linarith
next
  case False
  have "of_int \<lceil>q - 1 / 2\<rceil> - 1 < q - 1 / 2 \<and> q - 1 / 2 \<le> of_int \<lceil>q - 1 / 2\<rceil>"
    by (rule ceiling_correct)
  with False show ?thesis unfolding rat_round_def by (simp only: if_False) linarith
qed

lemma rat_round_mono: "p \<le> q \<Longrightarrow> rat_round p \<le> rat_round q"
proof -
  assume le: "p \<le> q"
  consider "p \<ge> 0" | "q < 0" | "p < 0" "q \<ge> 0" by linarith
  then show ?thesis
  proof cases
    case 1
    with le show ?thesis by (auto simp: rat_round_def intro: floor_mono)
  next
    case 2
    with le show ?thesis by (auto simp: rat_round_def intro: ceiling_mono)
  next
    case 3
    have "\<lceil>p - 1 / 2\<rceil> \<le> 0" using 3 by (simp add: ceiling_le_iff)
    also have "0 \<le> \<lfloor>q + 1 / 2\<rfloor>" using 3 by (simp add: le_floor_iff)
    finally show ?thesis using 3 by (simp add: rat_round_def)
  qed
qed

lemma rat_round_0 [simp]: "rat_round 0 = 0"
  using rat_round_of_int [of 0] by simp

lemma rat_round_nonneg: "0 \<le> q \<Longrightarrow> 0 \<le> rat_round q"
  using rat_round_mono [of 0 q] by simp

section \<open>Go maps\<close>

type_synonym ('k, 'v) gomap = "('k \<times> 'v) list"

text \<open>A value of a Go map: no key occurs twice.\<close>

definition wf_map :: "('k, 'v) gomap \<Rightarrow> bool" where
  "wf_map m \<longleftrightarrow> distinct (map fst m)"

abbreviation map_put :: "'k \<Rightarrow> 'v \<Rightarrow> ('k, 'v) gomap \<Rightarrow> ('k, 'v) gomap" where
  "map_put \<equiv> AList.update"

abbreviation map_del :: "'k \<Rightarrow> ('k, 'v) gomap \<Rightarrow> ('k, 'v) gomap" where
  "map_del \<equiv> AList.delete"

abbreviation map_has :: "('k, 'v) gomap \<Rightarrow> 'k \<Rightarrow> bool" where
  "map_has m k \<equiv> map_of m k \<noteq> None"

text \<open>Reading a missing key gives the zero value of the element type.\<close>

definition map_get :: "'v \<Rightarrow> ('k, 'v) gomap \<Rightarrow> 'k \<Rightarrow> 'v" where
  "map_get z m k = (case map_of m k of None \<Rightarrow> z | Some v \<Rightarrow> v)"

lemma wf_map_empty [simp]: "wf_map []"
  by (simp add: wf_map_def)

lemma wf_map_put [simp]: "wf_map m \<Longrightarrow> wf_map (map_put k v m)"
  by (simp add: wf_map_def distinct_update)

lemma wf_map_del [simp]: "wf_map m \<Longrightarrow> wf_map (map_del k m)"
  by (simp add: wf_map_def distinct_delete)

lemma map_of_put [simp]: "map_of (map_put k v m) = (map_of m)(k \<mapsto> v)"
  by (rule update_conv')

lemma map_of_del [simp]: "map_of (map_del k m) = (map_of m)(k := None)"
  by (rule delete_conv')

lemma map_of_perm: "wf_map m \<Longrightarrow> mset m = mset m' \<Longrightarrow> map_of m = map_of m'"
  by (metis wf_map_def map_of_inject_set mset_eq_setD mset_map distinct_count_atmost_1 set_mset_mset)

lemma map_get_absent [simp]: "k \<notin> fst ` set m \<Longrightarrow> map_get z m k = z"
  using map_of_eq_None_iff [of m k] by (simp add: map_get_def)

lemma map_get_Nil [simp]: "map_get z [] k = z"
  by (simp add: map_get_def)

lemma map_get_Cons: "map_get z ((k, v) # m) t = (if t = k then v else map_get z m t)"
  by (simp add: map_get_def)

lemma length_map_del_less: "map_has m k \<Longrightarrow> length (map_del k m) < length m"
proof (induction m)
  case Nil
  then show ?case by simp
next
  case (Cons p m)
  have "length (map_del k m) \<le> length m" by (simp add: AList.delete_eq)
  with Cons show ?case by (auto split: if_splits)
qed

lemma map_del_absent: "\<not> map_has m k \<Longrightarrow> map_del k m = m"
  by (simp add: map_of_eq_None_iff)

section \<open>Strings\<close>

definition to_lower :: "char \<Rightarrow> char" where
  "to_lower c = (if 65 \<le> (of_char c :: nat) \<and> (of_char c :: nat) \<le> 90 then char_of (of_char c + 32 :: nat) else c)"

definition to_upper :: "char \<Rightarrow> char" where
  "to_upper c = (if 97 \<le> (of_char c :: nat) \<and> (of_char c :: nat) \<le> 122 then char_of (of_char c - 32 :: nat) else c)"

definition ToLower :: "string \<Rightarrow> string" where
  "ToLower = map to_lower"

definition ToUpper :: "string \<Rightarrow> string" where
  "ToUpper = map to_upper"

definition EqualFold :: "string \<Rightarrow> string \<Rightarrow> bool" where
  "EqualFold s t \<longleftrightarrow> ToLower s = ToLower t"

lemma to_lower_idem [simp]: "to_lower (to_lower c) = to_lower c"
  by (simp add: to_lower_def)

lemma ToLower_idem [simp]: "ToLower (ToLower s) = ToLower s"
  by (simp add: ToLower_def)

lemma ToLower_Nil [simp]: "ToLower [] = []"
  by (simp add: ToLower_def)

lemma length_ToLower [simp]: "length (ToLower s) = length s"
  by (simp add: ToLower_def)

lemma ToLower_append [simp]: "ToLower (s @ t) = ToLower s @ ToLower t"
  by (simp add: ToLower_def)

section \<open>Sorting by a comparison\<close>

fun insert_by :: "('a \<Rightarrow> 'a \<Rightarrow> bool) \<Rightarrow> 'a \<Rightarrow> 'a list \<Rightarrow> 'a list" where
  "insert_by lt x [] = [x]"
| "insert_by lt x (y # ys) = (if lt y x then y # insert_by lt x ys else x # y # ys)"

definition stable_sort :: "('a \<Rightarrow> 'a \<Rightarrow> bool) \<Rightarrow> 'a list \<Rightarrow> 'a list" where
  "stable_sort lt xs = foldr (insert_by lt) xs []"

lemma mset_insert_by [simp]: "mset (insert_by lt x xs) = add_mset x (mset xs)"
  by (induction xs) auto

lemma mset_stable_sort [simp]: "mset (stable_sort lt xs) = mset xs"
  by (induction xs) (simp_all add: stable_sort_def)

lemma set_stable_sort [simp]: "set (stable_sort lt xs) = set xs"
  by (metis mset_stable_sort set_mset_mset)

lemma length_stable_sort [simp]: "length (stable_sort lt xs) = length xs"
  by (metis mset_stable_sort size_mset)

lemma set_insert_by: "set (insert_by lt x xs) = insert x (set xs)"
  by (metis mset_insert_by set_mset_add_mset_insert set_mset_mset)

text \<open>
  For a comparison that is a strict weak order on the elements, no later element of the sorted list is
  less than an earlier one.
\<close>

definition strict_weak_on :: "'a set \<Rightarrow> ('a \<Rightarrow> 'a \<Rightarrow> bool) \<Rightarrow> bool" where
  "strict_weak_on S lt \<longleftrightarrow>
     (\<forall>x \<in> S. \<forall>y \<in> S. lt x y \<longrightarrow> \<not> lt y x) \<and>
     (\<forall>x \<in> S. \<forall>y \<in> S. \<forall>z \<in> S. \<not> lt x y \<longrightarrow> \<not> lt y z \<longrightarrow> \<not> lt x z)"

lemma strict_weak_on_subset: "strict_weak_on S lt \<Longrightarrow> T \<subseteq> S \<Longrightarrow> strict_weak_on T lt"
  unfolding strict_weak_on_def by (meson subsetD)

lemma strict_weak_onD:
  "strict_weak_on S lt \<Longrightarrow> \<not> lt x y \<Longrightarrow> \<not> lt y z \<Longrightarrow> x \<in> S \<Longrightarrow> y \<in> S \<Longrightarrow> z \<in> S \<Longrightarrow> \<not> lt x z"
  unfolding strict_weak_on_def by meson

lemma sorted_insert_by:
  assumes "strict_weak_on (insert x (set xs)) lt" and "sorted_wrt (\<lambda>x y. \<not> lt y x) xs"
  shows "sorted_wrt (\<lambda>x y. \<not> lt y x) (insert_by lt x xs)"
  using assms
proof (induction xs)
  case Nil
  then show ?case by simp
next
  case (Cons y ys)
  show ?case
  proof (cases "lt y x")
    case True
    with Cons.prems(1) have "\<not> lt x y" by (simp add: strict_weak_on_def)
    moreover have sw: "strict_weak_on (insert x (set ys)) lt"
      by (rule strict_weak_on_subset [OF Cons.prems(1)]) auto
    moreover have "sorted_wrt (\<lambda>x y. \<not> lt y x) ys" using Cons.prems(2) by simp
    ultimately show ?thesis using True Cons.IH [OF sw] Cons.prems(2) by (simp add: set_insert_by)
  next
    case False
    have "\<not> lt z x" if "z \<in> set ys" for z
    proof -
      have zy: "\<not> lt z y" using that Cons.prems(2) by simp
      show ?thesis
        by (rule strict_weak_onD [OF Cons.prems(1) zy False]) (simp_all add: that)
    qed
    with False Cons.prems(2) show ?thesis by simp
  qed
qed

lemma sorted_stable_sort:
  "strict_weak_on (set xs) lt \<Longrightarrow> sorted_wrt (\<lambda>x y. \<not> lt y x) (stable_sort lt xs)"
proof (induction xs)
  case Nil
  show ?case by (simp add: stable_sort_def)
next
  case (Cons x xs)
  have "strict_weak_on (set xs) lt"
    by (rule strict_weak_on_subset [OF Cons.prems]) auto
  with Cons.IH have "sorted_wrt (\<lambda>x y. \<not> lt y x) (stable_sort lt xs)" by blast
  moreover have "strict_weak_on (insert x (set (stable_sort lt xs))) lt" using Cons.prems by simp
  ultimately show ?case unfolding stable_sort_def by (simp add: sorted_insert_by)
qed

lemma insert_by_cong:
  "(\<And>y. y \<in> set xs \<Longrightarrow> lt y x = lt' y x) \<Longrightarrow> insert_by lt x xs = insert_by lt' x xs"
  by (induction xs) auto

lemma stable_sort_cong:
  "(\<And>x y. x \<in> set xs \<Longrightarrow> y \<in> set xs \<Longrightarrow> lt x y = lt' x y) \<Longrightarrow> stable_sort lt xs = stable_sort lt' xs"
proof (induction xs)
  case (Cons x xs)
  have "stable_sort lt xs = stable_sort lt' xs" using Cons by simp
  moreover have "insert_by lt x (stable_sort lt xs) = insert_by lt' x (stable_sort lt xs)"
    by (rule insert_by_cong) (simp add: Cons.prems)
  ultimately show ?case by (simp add: stable_sort_def)
qed (simp add: stable_sort_def)

text \<open>
  What Go promises of \<^verbatim>\<open>sort.Slice\<close>: a permutation, sorted where the comparison is a strict weak
  order, that depends on the comparisons of the elements only. \<^verbatim>\<open>sort.SliceStable\<close> is an instance.
\<close>

locale slice_sort =
  fixes srt :: "('a \<Rightarrow> 'a \<Rightarrow> bool) \<Rightarrow> 'a list \<Rightarrow> 'a list"
  assumes mset_srt: "mset (srt lt xs) = mset xs"
    and sorted_srt: "strict_weak_on (set xs) lt \<Longrightarrow> sorted_wrt (\<lambda>x y. \<not> lt y x) (srt lt xs)"
    and srt_cong: "(\<And>x y. x \<in> set xs \<Longrightarrow> y \<in> set xs \<Longrightarrow> lt x y = lt' x y) \<Longrightarrow> srt lt xs = srt lt' xs"
begin

lemma set_srt: "set (srt lt xs) = set xs"
  by (metis mset_srt set_mset_mset)

lemma length_srt: "length (srt lt xs) = length xs"
  by (metis mset_srt size_mset)

text \<open>The elements kept by a cut of the sorted list are not worse than the ones dropped.\<close>

lemma take_drop_srt:
  assumes "strict_weak_on (set xs) lt" and "x \<in> set (take k (srt lt xs))" and "y \<in> set (drop k (srt lt xs))"
  shows "\<not> lt y x"
proof -
  have "sorted_wrt (\<lambda>x y. \<not> lt y x) (take k (srt lt xs) @ drop k (srt lt xs))"
    using sorted_srt [OF assms(1)] by simp
  then show ?thesis using assms(2,3) unfolding sorted_wrt_append by blast
qed

end

interpretation stable: slice_sort stable_sort
  by unfold_locales (auto intro: sorted_stable_sort stable_sort_cong)

section \<open>Lists and options\<close>

definition opt_or :: "'a option \<Rightarrow> 'a \<Rightarrow> 'a" where
  "opt_or p d = (case p of None \<Rightarrow> d | Some v \<Rightarrow> v)"

lemma opt_or_simps [simp]: "opt_or None d = d" "opt_or (Some v) d = v"
  by (simp_all add: opt_or_def)

end
