(* ===== verification/Strconv.thy ===== *)
theory Strconv
  imports Prelude
begin

text \<open>
  The parts of Go's \<^verbatim>\<open>strconv\<close> that the program uses: decimal output of integers (\<^verbatim>\<open>FormatInt\<close>) and
  fixed-point output of floats (\<^verbatim>\<open>FormatFloat\<close> with format \<^verbatim>\<open>'f'\<close>), which rounds the exact
  value half to even. \<open>decimal_value\<close> reads such a string back; the round-trip lemmas say which number a
  formatted string denotes.
\<close>

section \<open>Integers\<close>

definition digit_char :: "nat \<Rightarrow> char" where
  "digit_char d = char_of (48 + d)"

definition digit_val :: "char \<Rightarrow> nat" where
  "digit_val c = of_char c - 48"

fun nat_digits :: "nat \<Rightarrow> string" where
  "nat_digits n = (if n < 10 then [digit_char n] else nat_digits (n div 10) @ [digit_char (n mod 10)])"

declare nat_digits.simps [simp del]

definition FormatInt :: "int \<Rightarrow> string" where
  "FormatInt i = (if i < 0 then ''-'' @ nat_digits (nat (- i)) else nat_digits (nat i))"

fun digits_val :: "nat \<Rightarrow> string \<Rightarrow> nat" where
  "digits_val acc [] = acc"
| "digits_val acc (c # cs) = digits_val (acc * 10 + digit_val c) cs"

lemma digit_val_char [simp]: "d < 10 \<Longrightarrow> digit_val (digit_char d) = d"
  by (simp add: digit_val_def digit_char_def)

lemma digit_char_not_point: "d < 10 \<Longrightarrow> digit_char d \<noteq> CHR ''.'' \<and> digit_char d \<noteq> CHR ''-''"
proof -
  assume "d < 10"
  then have "(of_char (digit_char d) :: nat) = 48 + d" by (simp add: digit_char_def)
  then have "(of_char (digit_char d) :: nat) \<noteq> of_char (CHR ''.'')" "(of_char (digit_char d) :: nat) \<noteq> of_char (CHR ''-'')"
    by simp_all
  then show ?thesis by metis
qed

lemma digits_val_append: "digits_val a (s @ t) = digits_val (digits_val a s) t"
  by (induction a s rule: digits_val.induct) auto

lemma digits_val_nat_digits [simp]: "digits_val 0 (nat_digits n) = n"
proof (induction n rule: nat_digits.induct)
  case (1 n)
  show ?case
  proof (cases "n < 10")
    case True
    then show ?thesis by (simp add: nat_digits.simps [of n])
  next
    case False
    with 1 show ?thesis by (simp add: nat_digits.simps [of n] digits_val_append)
  qed
qed

lemma nat_digits_chars: "c \<in> set (nat_digits n) \<Longrightarrow> c \<noteq> CHR ''.'' \<and> c \<noteq> CHR ''-''"
proof (induction n rule: nat_digits.induct)
  case (1 n)
  show ?case
  proof (cases "n < 10")
    case True
    with 1 show ?thesis by (simp add: nat_digits.simps [of n] digit_char_not_point)
  next
    case False
    with 1 show ?thesis by (auto simp: nat_digits.simps [of n] digit_char_not_point)
  qed
qed

lemma nat_digits_not_Nil [simp]: "nat_digits n \<noteq> []"
  by (subst nat_digits.simps) simp

lemma nat_digits_inj [simp]: "nat_digits m = nat_digits n \<longleftrightarrow> m = n"
  by (metis digits_val_nat_digits)

lemma FormatInt_inj: "FormatInt i = FormatInt j \<longleftrightarrow> i = j"
proof
  have minus: "nat_digits m \<noteq> CHR ''-'' # s" for m s
    using nat_digits_chars [of "CHR ''-''" m] by auto
  assume "FormatInt i = FormatInt j"
  then show "i = j" using minus minus [THEN not_sym] by (auto simp: FormatInt_def split: if_splits)
qed simp

section \<open>Fixed-point output of floats\<close>

definition round_half_even :: "rat \<Rightarrow> int" where
  "round_half_even q =
     (let f = \<lfloor>q\<rfloor>; r = q - of_int f in
      if r < 1 / 2 then f else if r > 1 / 2 then f + 1 else if even f then f else f + 1)"

primrec last_digits :: "nat \<Rightarrow> nat \<Rightarrow> string" where
  "last_digits 0 n = []"
| "last_digits (Suc p) n = last_digits p (n div 10) @ [digit_char (n mod 10)]"

definition format_scaled :: "nat \<Rightarrow> nat \<Rightarrow> string" where
  "format_scaled p n =
     (if p = 0 then nat_digits n else nat_digits (n div 10 ^ p) @ ''.'' @ last_digits p (n mod 10 ^ p))"

text \<open>
  A negative precision asks for the fewest digits that identify the number; the 17 decimal digits that are
  enough for every \<^verbatim>\<open>float64\<close> bound the search.
\<close>

definition shortest_precision :: "rat \<Rightarrow> nat" where
  "shortest_precision q =
     (case List.find (\<lambda>p. of_int \<lfloor>q * 10 ^ p\<rfloor> = q * 10 ^ p) [0..<17] of Some p \<Rightarrow> p | None \<Rightarrow> 17)"

fun FormatFloat :: "float64 \<Rightarrow> int \<Rightarrow> string" where
  "FormatFloat (Fin q) prec =
     (let p = (if prec < 0 then shortest_precision q else nat prec) in
      (if q < 0 then ''-'' else '''') @ format_scaled p (nat (round_half_even (\<bar>q\<bar> * 10 ^ p))))"
| "FormatFloat PosInf prec = ''+Inf''"
| "FormatFloat NegInf prec = ''-Inf''"
| "FormatFloat NaN prec = ''NaN''"

definition unsigned_decimal :: "string \<Rightarrow> rat" where
  "unsigned_decimal s =
     (let i = takeWhile (\<lambda>c. c \<noteq> CHR ''.'') s; f = tl (dropWhile (\<lambda>c. c \<noteq> CHR ''.'') s) in
      of_nat (digits_val 0 (i @ f)) / 10 ^ length f)"

definition decimal_value :: "string \<Rightarrow> rat" where
  "decimal_value s = (case s of c # cs \<Rightarrow> if c = CHR ''-'' then - unsigned_decimal cs else unsigned_decimal s
                      | [] \<Rightarrow> 0)"

lemma length_last_digits [simp]: "length (last_digits p n) = p"
  by (induction p arbitrary: n) auto

lemma digits_val_last_digits: "n < 10 ^ p \<Longrightarrow> digits_val a (last_digits p n) = a * 10 ^ p + n"
proof (induction p arbitrary: n)
  case (Suc p)
  then have "n div 10 < 10 ^ p" by (simp add: less_mult_imp_div_less)
  with Suc.IH show ?case by (simp add: digits_val_append algebra_simps)
qed simp

lemma unsigned_decimal_scaled [simp]: "unsigned_decimal (format_scaled p n) = of_nat n / 10 ^ p"
proof -
  have no: "\<forall>c \<in> set (nat_digits m). c \<noteq> CHR ''.''" for m using nat_digits_chars by blast
  then have tw: "takeWhile (\<lambda>c. c \<noteq> CHR ''.'') (nat_digits m) = nat_digits m"
    and dw: "dropWhile (\<lambda>c. c \<noteq> CHR ''.'') (nat_digits m) = []" for m
    by (simp_all add: takeWhile_eq_all_conv dropWhile_eq_Nil_conv)
  show ?thesis
  proof (cases "p = 0")
    case True
    then show ?thesis by (simp add: format_scaled_def unsigned_decimal_def tw dw)
  next
    case False
    have "takeWhile (\<lambda>c. c \<noteq> CHR ''.'') (format_scaled p n) = nat_digits (n div 10 ^ p)"
      and "tl (dropWhile (\<lambda>c. c \<noteq> CHR ''.'') (format_scaled p n)) = last_digits p (n mod 10 ^ p)"
      using False no by (simp_all add: format_scaled_def takeWhile_append2 dropWhile_append2)
    moreover have "digits_val 0 (nat_digits (n div 10 ^ p) @ last_digits p (n mod 10 ^ p)) = n"
      by (simp add: digits_val_append digits_val_last_digits div_mult_mod_eq)
    ultimately show ?thesis by (simp add: unsigned_decimal_def)
  qed
qed

lemma decimal_value_format_scaled [simp]: "decimal_value (format_scaled p n) = of_nat n / 10 ^ p"
proof -
  obtain c cs where s: "format_scaled p n = c # cs"
    by (cases "format_scaled p n") (auto simp: format_scaled_def split: if_splits)
  have "c \<in> set (nat_digits n) \<union> set (nat_digits (n div 10 ^ p))"
    using s by (cases "nat_digits (n div 10 ^ p)") (auto simp: format_scaled_def split: if_splits)
  then have "c \<noteq> CHR ''-''" using nat_digits_chars by blast
  then have "decimal_value (format_scaled p n) = unsigned_decimal (format_scaled p n)"
    unfolding s by (simp add: decimal_value_def)
  then show ?thesis by simp
qed

lemma round_half_even_near: "\<bar>of_int (round_half_even q) - q\<bar> \<le> 1 / 2"
proof -
  have "of_int \<lfloor>q\<rfloor> \<le> q \<and> q < of_int \<lfloor>q\<rfloor> + 1" using floor_correct [of q] by simp
  then show ?thesis unfolding round_half_even_def Let_def by (simp split: if_splits)
qed

lemma round_half_even_of_int [simp]: "round_half_even (of_int n) = n"
  by (simp add: round_half_even_def)

lemma round_half_even_mono: "p \<le> q \<Longrightarrow> round_half_even p \<le> round_half_even q"
proof -
  assume le: "p \<le> q"
  then have fl: "\<lfloor>p\<rfloor> \<le> \<lfloor>q\<rfloor>" by (rule floor_mono)
  show ?thesis
  proof (cases "\<lfloor>p\<rfloor> = \<lfloor>q\<rfloor>")
    case True
    with le show ?thesis by (auto simp: round_half_even_def Let_def)
  next
    case False
    with fl have "\<lfloor>p\<rfloor> + 1 \<le> \<lfloor>q\<rfloor>" by simp
    moreover have "round_half_even p \<le> \<lfloor>p\<rfloor> + 1" "\<lfloor>q\<rfloor> \<le> round_half_even q"
      by (auto simp: round_half_even_def Let_def)
    ultimately show ?thesis by simp
  qed
qed

lemma round_half_even_nonneg: "0 \<le> q \<Longrightarrow> 0 \<le> round_half_even q"
  using round_half_even_mono [of 0 q] round_half_even_of_int [of 0] by simp

text \<open>The number a formatted price denotes: the value rounded to the precision.\<close>

lemma decimal_value_FormatFloat:
  assumes "0 \<le> q" and "0 \<le> prec"
  shows "decimal_value (FormatFloat (Fin q) prec) = of_int (round_half_even (q * 10 ^ nat prec)) / 10 ^ nat prec"
proof -
  have "0 \<le> round_half_even (q * 10 ^ nat prec)" using assms by (intro round_half_even_nonneg) simp
  with assms show ?thesis by (simp add: Let_def)
qed

lemma decimal_value_FormatFloat_mono:
  assumes "0 \<le> p" and "p \<le> q" and "0 \<le> prec"
  shows "decimal_value (FormatFloat (Fin p) prec) \<le> decimal_value (FormatFloat (Fin q) prec)"
proof -
  have "round_half_even (p * 10 ^ nat prec) \<le> round_half_even (q * 10 ^ nat prec)"
    using assms by (intro round_half_even_mono mult_right_mono) simp_all
  then show ?thesis using assms
    by (simp add: decimal_value_FormatFloat divide_right_mono del: FormatFloat.simps)
qed

end
