(* ===== verification/Gostrings.thy ===== *)
theory Gostrings
  imports Strconv "HOL-Library.Sublist"
begin

text \<open>
  The functions of Go's \<^verbatim>\<open>strings\<close>, \<^verbatim>\<open>utf8\<close> and \<^verbatim>\<open>net/url\<close> packages the modelled code calls: searching, slicing, splitting, runes, and
  the escaping of URL query components. A string is the list of its bytes. A slice expression that is out of range panics: \<open>None\<close>.
\<close>

section \<open>Searching and slicing\<close>

fun find_sub :: "string \<Rightarrow> string \<Rightarrow> nat option" where
  "find_sub sub [] = (if sub = [] then Some 0 else None)"
| "find_sub sub (c # cs) = (if prefix sub (c # cs) then Some 0 else map_option Suc (find_sub sub cs))"

definition Index :: "string \<Rightarrow> string \<Rightarrow> int" where
  "Index s sub = (case find_sub sub s of None \<Rightarrow> -1 | Some n \<Rightarrow> int n)"

definition Contains :: "string \<Rightarrow> string \<Rightarrow> bool" where
  "Contains s sub \<longleftrightarrow> Index s sub \<ge> 0"

definition slice :: "'a list \<Rightarrow> int \<Rightarrow> int \<Rightarrow> 'a list option" where
  "slice s a b = (if 0 \<le> a \<and> a \<le> b \<and> b \<le> int (length s) then Some (take (nat (b - a)) (drop (nat a) s)) else None)"

abbreviation slice_from :: "'a list \<Rightarrow> int \<Rightarrow> 'a list option" where
  "slice_from s a \<equiv> slice s a (int (length s))"

text \<open>\<^verbatim>\<open>strings.Replace\<close> with a count of one.\<close>

definition ReplaceOne :: "string \<Rightarrow> string \<Rightarrow> string \<Rightarrow> string" where
  "ReplaceOne s old new = (case find_sub old s of None \<Rightarrow> s | Some n \<Rightarrow> take n s @ new @ drop (n + length old) s)"

lemma find_sub_Some: "find_sub sub s = Some n \<Longrightarrow> n + length sub \<le> length s \<and> take (length sub) (drop n s) = sub"
proof (induction s arbitrary: n)
  case (Cons c cs)
  show ?case
  proof (cases "prefix sub (c # cs)")
    case True
    with Cons.prems prefix_length_le [OF True] show ?thesis by (auto simp: prefix_def)
  next
    case False
    with Cons.prems obtain m where "find_sub sub cs = Some m" "n = Suc m" by auto
    with Cons.IH show ?thesis by simp
  qed
qed (simp split: if_splits)

lemma find_sub_least: "find_sub sub s = Some n \<Longrightarrow> m < n \<Longrightarrow> \<not> prefix sub (drop m s)"
proof (induction s arbitrary: n m)
  case (Cons c cs)
  then show ?case by (cases m) (auto split: if_splits)
qed (simp split: if_splits)

lemma find_sub_None: "find_sub sub s = None \<Longrightarrow> \<not> prefix sub (drop m s)"
proof (induction s arbitrary: m)
  case (Cons c cs)
  then show ?case by (cases m) (auto split: if_splits)
qed (simp split: if_splits)

lemma find_sub_split: "find_sub sub s = Some n \<Longrightarrow> s = take n s @ sub @ drop (n + length sub) s"
  using find_sub_Some [of sub s n] append_take_drop_id [of n s] append_take_drop_id [of "length sub" "drop n s"]
  by (metis add.commute drop_drop)

lemma Index_ge: "Index s sub \<ge> -1"
  by (simp add: Index_def split: option.split)

lemma Index_bound: "Index s sub = -1 \<or> 0 \<le> Index s sub \<and> Index s sub + int (length sub) \<le> int (length s)"
proof (cases "find_sub sub s")
  case (Some n)
  then show ?thesis using find_sub_Some [OF Some] by (simp add: Index_def)
qed (simp add: Index_def)

lemma Index_eq_minus1: "Index s sub = -1 \<longleftrightarrow> find_sub sub s = None"
  by (simp add: Index_def split: option.split)

lemma slice_from_Some [simp]: "n \<le> length s \<Longrightarrow> slice_from s (int n) = Some (drop n s)"
  by (simp add: slice_def nat_diff_distrib)

lemma slice_Some: "a \<le> b \<Longrightarrow> b \<le> length s \<Longrightarrow> slice s (int a) (int b) = Some (take (b - a) (drop a s))"
  by (simp add: slice_def nat_diff_distrib)

text \<open>\<^verbatim>\<open>strings.Split\<close> at one byte, and \<^verbatim>\<open>strings.Join\<close>.\<close>

fun split_at :: "char \<Rightarrow> string \<Rightarrow> string list" where
  "split_at d [] = [[]]"
| "split_at d (c # cs) = (if c = d then [] # split_at d cs else (case split_at d cs of [] \<Rightarrow> [[c]] | s # ss \<Rightarrow> (c # s) # ss))"

fun join_with :: "string \<Rightarrow> string list \<Rightarrow> string" where
  "join_with d [] = []"
| "join_with d [s] = s"
| "join_with d (s # t # ts) = s @ d @ join_with d (t # ts)"

lemma split_at_not_Nil [simp]: "split_at d s \<noteq> []"
  by (cases s) (auto split: list.split)

lemma split_at_absent: "d \<notin> set s \<Longrightarrow> split_at d s = [s]"
  by (induction s) auto

lemma split_at_append: "d \<notin> set s \<Longrightarrow> split_at d (s @ d # t) = s # split_at d t"
  by (induction s) auto

lemma split_at_join:
  assumes "ss \<noteq> []" "\<And>s. s \<in> set ss \<Longrightarrow> d \<notin> set s"
  shows "split_at d (join_with [d] ss) = ss"
  using assms by (induction "[d]" ss rule: join_with.induct) (auto simp: split_at_absent split_at_append)

section \<open>Runes\<close>

text \<open>
  A rune is kept as its UTF-8 encoding, which is unique. \<open>rune_width\<close> is the number of bytes of the first rune of a string, \<open>None\<close> where
  the bytes are no valid encoding (overlong forms, surrogates and values above U+10FFFF are not); such a byte becomes U+FFFD.
\<close>

definition byte_val :: "char \<Rightarrow> nat" where
  "byte_val c = of_char c"

definition cont_byte :: "char \<Rightarrow> bool" where
  "cont_byte c \<longleftrightarrow> 128 \<le> byte_val c \<and> byte_val c < 192"

fun rune_width :: "string \<Rightarrow> nat option" where
  "rune_width [] = None"
| "rune_width (a # r) =
    (let x = byte_val a in
     if x < 128 then Some 1
     else if 194 \<le> x \<and> x < 224 then (case r of b # _ \<Rightarrow> if cont_byte b then Some 2 else None | _ \<Rightarrow> None)
     else if 224 \<le> x \<and> x < 240 then
       (case r of
          b # c # _ \<Rightarrow>
            if cont_byte b \<and> cont_byte c \<and> (x = 224 \<longrightarrow> 160 \<le> byte_val b) \<and> (x = 237 \<longrightarrow> byte_val b < 160) then Some 3 else None
        | _ \<Rightarrow> None)
     else if 240 \<le> x \<and> x < 245 then
       (case r of
          b # c # d # _ \<Rightarrow>
            if cont_byte b \<and> cont_byte c \<and> cont_byte d \<and> (x = 240 \<longrightarrow> 144 \<le> byte_val b) \<and> (x = 244 \<longrightarrow> byte_val b < 144) then Some 4 else None
        | _ \<Rightarrow> None)
     else None)"

definition RuneError :: string where
  "RuneError = [CHR 0xEF, CHR 0xBF, CHR 0xBD]"

function runes :: "string \<Rightarrow> string list" where
  "runes [] = []"
| "runes (a # r) = (case rune_width (a # r) of None \<Rightarrow> RuneError # runes r | Some n \<Rightarrow> take n (a # r) # runes (drop (n - 1) r))"
  by pat_completeness auto
termination
  by (relation "measure length") (auto split: if_splits)

fun valid_utf8_from :: "nat \<Rightarrow> string \<Rightarrow> bool" where
  "valid_utf8_from 0 s = (s = [])"
| "valid_utf8_from (Suc n) s = (s = [] \<or> (case rune_width s of None \<Rightarrow> False | Some k \<Rightarrow> valid_utf8_from n (drop k s)))"

definition ValidString :: "string \<Rightarrow> bool" where
  "ValidString s = valid_utf8_from (length s) s"

lemma rune_width_pos: "rune_width s = Some n \<Longrightarrow> 0 < n"
  by (cases s) (auto simp: Let_def split: if_splits list.splits)

lemma runes_Nil_iff [simp]: "runes s = [] \<longleftrightarrow> s = []"
  by (cases s) (auto split: option.split)

lemma concat_runes: "valid_utf8_from n s \<Longrightarrow> concat (runes s) = s"
proof (induction n s rule: valid_utf8_from.induct)
  case (2 n s)
  show ?case
  proof (cases s)
    case (Cons a r)
    with "2.prems" obtain k where k: "rune_width s = Some k" "valid_utf8_from n (drop k s)"
      by (auto split: option.splits)
    then have "drop (k - 1) r = drop k s"
      using rune_width_pos [OF k(1)] Cons by (cases k) auto
    then show ?thesis
      using "2.IH" [of k] k Cons by simp
  qed simp
qed simp

lemma length_runes_le: "length (runes s) \<le> length s"
proof (induction s rule: runes.induct)
  case (2 a r)
  then show ?case
    by (auto split: option.split)
qed simp

section \<open>Query components\<close>

definition hex_digit :: "nat \<Rightarrow> char" where
  "hex_digit n = char_of (if n < 10 then n + 48 else n + 55)"

definition hex_val :: "char \<Rightarrow> nat option" where
  "hex_val c = (let x = byte_val c in
     if 48 \<le> x \<and> x \<le> 57 then Some (x - 48) else if 97 \<le> x \<and> x \<le> 102 then Some (x - 87) else if 65 \<le> x \<and> x \<le> 70 then Some (x - 55) else None)"

definition unreserved :: "char \<Rightarrow> bool" where
  "unreserved c \<longleftrightarrow> (let x = byte_val c in
     48 \<le> x \<and> x \<le> 57 \<or> 65 \<le> x \<and> x \<le> 90 \<or> 97 \<le> x \<and> x \<le> 122 \<or> x = 45 \<or> x = 46 \<or> x = 95 \<or> x = 126)"

definition escape_byte :: "char \<Rightarrow> string" where
  "escape_byte c =
     (if c = CHR '' '' then ''+'' else if unreserved c then [c] else [CHR ''%'', hex_digit (byte_val c div 16), hex_digit (byte_val c mod 16)])"

definition QueryEscape :: "string \<Rightarrow> string" where
  "QueryEscape s = concat (map escape_byte s)"

fun QueryUnescape :: "string \<Rightarrow> string option" where
  "QueryUnescape [] = Some []"
| "QueryUnescape (c # cs) =
    (if c = CHR ''%'' then
       (case cs of
          a # b # r \<Rightarrow> (case (hex_val a, hex_val b) of (Some h, Some l) \<Rightarrow> map_option ((#) (char_of (16 * h + l))) (QueryUnescape r) | _ \<Rightarrow> None)
        | _ \<Rightarrow> None)
     else map_option ((#) (if c = CHR ''+'' then CHR '' '' else c)) (QueryUnescape cs))"

lemma byte_val_less: "byte_val c < 256"
  by (simp add: byte_val_def)

lemma byte_val_char_of [simp]: "n < 256 \<Longrightarrow> byte_val (char_of n) = n"
  by (simp add: byte_val_def)

lemma char_of_byte_val [simp]: "char_of (byte_val c) = c"
  by (simp add: byte_val_def)

lemma hex_val_digit [simp]: "n < 16 \<Longrightarrow> hex_val (hex_digit n) = Some n"
  by (auto simp: hex_val_def hex_digit_def Let_def)

lemma not_unreserved [simp]: "\<not> unreserved CHR ''%''" "\<not> unreserved CHR ''+''" "\<not> unreserved CHR ''&''" "\<not> unreserved CHR ''=''"
  "\<not> unreserved CHR '';''"
  by (simp_all add: unreserved_def byte_val_def)

lemma QueryUnescape_escape_byte: "QueryUnescape (escape_byte c @ s) = map_option ((#) c) (QueryUnescape s)"
proof -
  have "16 * (byte_val c div 16) + byte_val c mod 16 = byte_val c" by simp
  moreover have "byte_val c div 16 < 16" using byte_val_less [of c] by simp
  moreover have "unreserved c \<Longrightarrow> c \<noteq> CHR ''%'' \<and> c \<noteq> CHR ''+''" by auto
  ultimately show ?thesis
    by (auto simp: escape_byte_def option.map_comp comp_def)
qed

lemma QueryUnescape_QueryEscape [simp]: "QueryUnescape (QueryEscape s) = Some s"
  by (induction s) (simp_all add: QueryEscape_def QueryUnescape_escape_byte)

lemma hex_digit_unreserved: "n < 16 \<Longrightarrow> unreserved (hex_digit n)"
  by (auto simp: hex_digit_def unreserved_def Let_def)

lemma set_escape_byte: "d \<in> set (escape_byte c) \<Longrightarrow> unreserved d \<or> d = CHR ''+'' \<or> d = CHR ''%''"
  using byte_val_less [of c] by (auto simp: escape_byte_def hex_digit_unreserved split: if_splits)

lemma set_QueryEscape: "d \<in> set (QueryEscape s) \<Longrightarrow> unreserved d \<or> d = CHR ''+'' \<or> d = CHR ''%''"
  by (auto simp: QueryEscape_def dest: set_escape_byte)

lemma QueryEscape_Nil_iff [simp]: "QueryEscape s = [] \<longleftrightarrow> s = []"
  by (cases s) (auto simp: QueryEscape_def escape_byte_def)

lemma QueryEscape_append [simp]: "QueryEscape (s @ t) = QueryEscape s @ QueryEscape t"
  by (simp add: QueryEscape_def)

section \<open>White space\<close>

text \<open>The white space of ASCII; \<^verbatim>\<open>strings.TrimSpace\<close> and \<^verbatim>\<open>strings.Fields\<close>.\<close>

definition is_space :: "char \<Rightarrow> bool" where
  "is_space c \<longleftrightarrow> byte_val c = 32 \<or> 9 \<le> byte_val c \<and> byte_val c \<le> 13"

definition TrimSpace :: "string \<Rightarrow> string" where
  "TrimSpace s = rev (dropWhile is_space (rev (dropWhile is_space s)))"

fun fields_from :: "string \<Rightarrow> string \<Rightarrow> string list" where
  "fields_from cur [] = (if cur = [] then [] else [cur])"
| "fields_from cur (c # cs) = (if is_space c then (if cur = [] then fields_from [] cs else cur # fields_from [] cs) else fields_from (cur @ [c]) cs)"

definition Fields :: "string \<Rightarrow> string list" where
  "Fields s = fields_from [] s"

end
