(* ===== verification/VideoStores.thy ===== *)
theory VideoStores
  imports Gostrings "HOL-Library.Word" "HOL-Library.Multiset"
begin

text \<open>
  The stores of the video pipeline (\<^verbatim>\<open>endpoints/video_pipeline.go\<close>): ad server configurations, the ring buffer of tracking events, the counters per publisher, advertiser and
  dimension, and the sharded set that removes duplicate impressions. Each operation runs under the mutex of its store, so it is one step; persistence
  to disk or a database is left out. Counters and sequence numbers are 64-bit in the code and are unbounded here; times are seconds or nanoseconds.
\<close>

unbundle bit_operations_syntax

section \<open>Placements\<close>

record ExtraDemandCfg =
  ed_VASTTagURL :: string
  ed_OrtbURL :: string
  ed_FloorCPM :: float64
  ed_BCat :: "string list"
  ed_BAdv :: "string list"

text \<open>The settings of a placement the pipeline reads.\<close>

record AdServerConfig =
  as_PlacementID :: string
  as_PublisherID :: string
  as_MinDuration :: int
  as_MaxDuration :: int
  as_FloorCPM :: float64
  as_DemandFloorCPM :: float64
  as_DemandVASTURL :: string
  as_DemandOrtbURL :: string
  as_BAdv :: "string list"
  as_BCat :: "string list"
  as_ExtraDemand :: "ExtraDemandCfg list"
  as_SeatWeights :: "(string, float64) gomap"
  as_Active :: bool
  as_TimeoutMS :: int
  as_RequestBaseURL :: string
  as_VideoPlacementType :: string
  as_CampaignID :: string
  as_AdvertiserID :: string

text \<open>The floor asked from demand and the floor of a winner are the same formula.\<close>

definition outboundBidFloorCPM :: "AdServerConfig \<Rightarrow> float64" where
  "outboundBidFloorCPM cfg = (if 0 < as_DemandFloorCPM cfg \<and> (as_DemandOrtbURL cfg \<noteq> [] \<or> as_DemandVASTURL cfg \<noteq> []) then as_DemandFloorCPM cfg else as_FloorCPM cfg)"

definition winnerMinPriceCPM :: "AdServerConfig \<Rightarrow> float64" where
  "winnerMinPriceCPM cfg = (if 0 < as_DemandFloorCPM cfg \<and> (as_DemandOrtbURL cfg \<noteq> [] \<or> as_DemandVASTURL cfg \<noteq> []) then as_DemandFloorCPM cfg else as_FloorCPM cfg)"

type_synonym adServerConfigStore = "(string, AdServerConfig) gomap"

definition configStore_set :: "AdServerConfig \<Rightarrow> adServerConfigStore \<Rightarrow> adServerConfigStore" where
  "configStore_set c s = map_put (as_PlacementID c) c s"

definition configStore_get :: "string \<Rightarrow> adServerConfigStore \<Rightarrow> AdServerConfig option" where
  "configStore_get placementID s = map_of s placementID"

definition configStore_remove :: "string \<Rightarrow> adServerConfigStore \<Rightarrow> adServerConfigStore" where
  "configStore_remove placementID s = map_del placementID s"

lemma configStore_laws:
  "configStore_get p (configStore_set c s) = (if p = as_PlacementID c then Some c else configStore_get p s)"
  "configStore_get p (configStore_remove q s) = (if p = q then None else configStore_get p s)"
  by (simp_all add: configStore_get_def configStore_set_def configStore_remove_def)

section \<open>Tracking events\<close>

record TrackingEvent =
  te_AuctionID :: string
  te_BidID :: string
  te_Bidder :: string
  te_PlacementID :: string
  te_Event :: string
  te_CrID :: string
  te_Price :: float64
  te_ADomain :: string
  te_ReceivedAt :: int

datatype trackingEventCode = trackingEventCustom | trackingEventImpression | trackingEventStart | trackingEventFirstQuartile | trackingEventMidpoint
  | trackingEventThirdQuartile | trackingEventComplete | trackingEventClick

record trackingEventRecord =
  tr_seq :: int
  tr_AuctionID :: string
  tr_BidID :: string
  tr_Bidder :: string
  tr_PlacementID :: string
  tr_Event :: trackingEventCode
  tr_Price :: float64
  tr_ReceivedAtUnixNs :: int

record trackingEventExtras =
  tx_CrID :: string
  tx_ADomain :: string
  tx_CustomEvent :: string

text \<open>\<open>None\<close> for the ring and the extras is the nil slice and the nil map.\<close>

record trackingStore =
  ts_ring :: "trackingEventRecord list option"
  ts_extras :: "(int, trackingEventExtras) gomap option"
  ts_pos :: nat
  ts_full :: bool
  ts_count :: int

definition trackingStoreMaxEvents :: nat where
  "trackingStoreMaxEvents = 100000"

definition trackingEventCodeFromEventType :: "string \<Rightarrow> trackingEventCode \<times> string" where
  "trackingEventCodeFromEventType event =
     (if event = ''impression'' then (trackingEventImpression, [])
      else if event = ''start'' then (trackingEventStart, [])
      else if event = ''firstQuartile'' then (trackingEventFirstQuartile, [])
      else if event = ''midpoint'' then (trackingEventMidpoint, [])
      else if event = ''thirdQuartile'' then (trackingEventThirdQuartile, [])
      else if event = ''complete'' then (trackingEventComplete, [])
      else if event = ''click'' then (trackingEventClick, [])
      else (trackingEventCustom, event))"

fun trackingEventType :: "trackingEventCode \<Rightarrow> string" where
  "trackingEventType trackingEventImpression = ''impression''"
| "trackingEventType trackingEventStart = ''start''"
| "trackingEventType trackingEventFirstQuartile = ''firstQuartile''"
| "trackingEventType trackingEventMidpoint = ''midpoint''"
| "trackingEventType trackingEventThirdQuartile = ''thirdQuartile''"
| "trackingEventType trackingEventComplete = ''complete''"
| "trackingEventType trackingEventClick = ''click''"
| "trackingEventType trackingEventCustom = []"

definition empty_record :: trackingEventRecord where
  "empty_record = \<lparr>tr_seq = 0, tr_AuctionID = [], tr_BidID = [], tr_Bidder = [], tr_PlacementID = [], tr_Event = trackingEventCustom, tr_Price = 0, tr_ReceivedAtUnixNs = 0\<rparr>"

definition new_trackingStore :: trackingStore where
  "new_trackingStore = \<lparr>ts_ring = None, ts_extras = None, ts_pos = 0, ts_full = False, ts_count = 0\<rparr>"

definition compact :: "int \<Rightarrow> TrackingEvent \<Rightarrow> trackingEventRecord" where
  "compact seq ev = \<lparr>tr_seq = seq, tr_AuctionID = te_AuctionID ev, tr_BidID = te_BidID ev, tr_Bidder = te_Bidder ev, tr_PlacementID = te_PlacementID ev,
     tr_Event = fst (trackingEventCodeFromEventType (te_Event ev)), tr_Price = te_Price ev, tr_ReceivedAtUnixNs = te_ReceivedAt ev\<rparr>"

definition extras_of :: "TrackingEvent \<Rightarrow> trackingEventExtras option" where
  "extras_of ev =
     (let custom = snd (trackingEventCodeFromEventType (te_Event ev))
      in if te_CrID ev \<noteq> [] \<or> te_ADomain ev \<noteq> [] \<or> custom \<noteq> [] then Some \<lparr>tx_CrID = te_CrID ev, tx_ADomain = te_ADomain ev, tx_CustomEvent = custom\<rparr> else None)"

text \<open>The capacity \<open>cap\<close> is \<^term>\<open>trackingStoreMaxEvents\<close> in the code.\<close>

definition tracking_record :: "nat \<Rightarrow> TrackingEvent \<Rightarrow> trackingStore \<Rightarrow> trackingStore" where
  "tracking_record cap ev t =
     (let ring = (case ts_ring t of Some r \<Rightarrow> r | None \<Rightarrow> replicate cap empty_record);
          seq = ts_count t + 1;
          oldSeq = tr_seq (ring ! ts_pos t);
          extras = (if oldSeq \<noteq> 0 then map_option (map_del oldSeq) (ts_extras t) else ts_extras t);
          extras = (case extras_of ev of None \<Rightarrow> extras | Some x \<Rightarrow> Some (map_put seq x (case extras of Some m \<Rightarrow> m | None \<Rightarrow> [])));
          pos = ts_pos t + 1
      in \<lparr>ts_ring = Some (ring[ts_pos t := compact seq ev]), ts_extras = extras, ts_pos = (if cap \<le> pos then 0 else pos), ts_full = (cap \<le> pos \<or> ts_full t), ts_count = seq\<rparr>)"

definition expand :: "trackingStore \<Rightarrow> trackingEventRecord \<Rightarrow> TrackingEvent" where
  "expand t rec =
     (let ev = \<lparr>te_AuctionID = tr_AuctionID rec, te_BidID = tr_BidID rec, te_Bidder = tr_Bidder rec, te_PlacementID = tr_PlacementID rec,
                te_Event = trackingEventType (tr_Event rec), te_CrID = [], te_Price = tr_Price rec, te_ADomain = [], te_ReceivedAt = tr_ReceivedAtUnixNs rec\<rparr>
      in case ts_extras t of
           None \<Rightarrow> ev
         | Some m \<Rightarrow>
             if tr_seq rec = 0 then ev
             else (case map_of m (tr_seq rec) of
                     None \<Rightarrow> ev
                   | Some x \<Rightarrow> ev\<lparr>te_CrID := tx_CrID x, te_ADomain := tx_ADomain x, te_Event := (if tx_CustomEvent x \<noteq> [] then tx_CustomEvent x else te_Event ev)\<rparr>))"

definition tracking_all :: "nat \<Rightarrow> trackingStore \<Rightarrow> TrackingEvent list" where
  "tracking_all cap t =
     (case ts_ring t of
        None \<Rightarrow> []
      | Some r \<Rightarrow>
          if ts_full t
          then map (\<lambda>i. expand t (r ! (ts_pos t + i))) [0..<cap - ts_pos t] @ map (\<lambda>i. expand t (r ! i)) [0..<ts_pos t]
          else map (\<lambda>i. expand t (r ! i)) [0..<ts_pos t])"

subsection \<open>The ring buffer keeps the last events\<close>

definition window :: "nat \<Rightarrow> trackingStore \<Rightarrow> trackingEventRecord list" where
  "window cap t =
     (let r = (case ts_ring t of Some r \<Rightarrow> r | None \<Rightarrow> replicate cap empty_record)
      in if ts_full t then drop (ts_pos t) r @ take (ts_pos t) r else take (ts_pos t) r)"

definition last_events :: "nat \<Rightarrow> 'a list \<Rightarrow> 'a list" where
  "last_events cap evs = drop (length evs - cap) evs"

fun log_numbered :: "int \<Rightarrow> TrackingEvent list \<Rightarrow> trackingEventRecord list" where
  "log_numbered k [] = []"
| "log_numbered k (e # es) = compact k e # log_numbered (k + 1) es"

definition extra_at :: "trackingStore \<Rightarrow> int \<Rightarrow> trackingEventExtras option" where
  "extra_at t k = (case ts_extras t of Some m \<Rightarrow> map_of m k | None \<Rightarrow> None)"

definition tracking_inv :: "nat \<Rightarrow> TrackingEvent list \<Rightarrow> trackingStore \<Rightarrow> bool" where
  "tracking_inv cap es t \<longleftrightarrow>
     0 < cap \<and> ts_pos t < cap \<and> pred_option (\<lambda>r. length r = cap) (ts_ring t) \<and> (ts_ring t = None \<longrightarrow> \<not> ts_full t \<and> ts_pos t = 0)
     \<and> (if ts_full t then length es = cap else length es = ts_pos t \<and> pred_option (\<lambda>r. list_all (\<lambda>x. tr_seq x = 0) (drop (ts_pos t) r)) (ts_ring t))
     \<and> int (length es) \<le> ts_count t \<and> window cap t = log_numbered (ts_count t - int (length es) + 1) es
     \<and> (\<forall>i < length es. extra_at t (ts_count t - int (length es) + 1 + int i) = extras_of (es ! i))
     \<and> (\<forall>k > ts_count t. extra_at t k = None)"

lemma length_numbered [simp]: "length (log_numbered k es) = length es"
  by (induction k es rule: log_numbered.induct) auto

lemma numbered_append: "log_numbered k (es @ fs) = log_numbered k es @ log_numbered (k + int (length es)) fs"
  by (induction k es rule: log_numbered.induct) (auto simp: algebra_simps)

lemma numbered_tl: "tl (log_numbered k es) = log_numbered (k + 1) (tl es)"
  by (cases es) auto

lemma nth_numbered: "i < length es \<Longrightarrow> log_numbered k es ! i = compact (k + int i) (es ! i)"
  by (induction k es arbitrary: i rule: log_numbered.induct) (auto simp: nth_Cons algebra_simps split: nat.split)

lemma event_code_roundtrip:
  "trackingEventType (fst (trackingEventCodeFromEventType e)) = (if snd (trackingEventCodeFromEventType e) = [] then e else [])"
  by (auto simp: trackingEventCodeFromEventType_def)

lemma event_code_custom: "snd (trackingEventCodeFromEventType e) = [] \<or> snd (trackingEventCodeFromEventType e) = e"
  by (auto simp: trackingEventCodeFromEventType_def)

lemma expand_compact: "k \<noteq> 0 \<Longrightarrow> extra_at t k = extras_of ev \<Longrightarrow> expand t (compact k ev) = ev"
  using event_code_roundtrip [of "te_Event ev"] event_code_custom [of "te_Event ev"]
  by (cases ev) (auto simp: expand_def compact_def extra_at_def extras_of_def Let_def split: option.splits if_splits)

lemma tracking_all_window:
  assumes "tracking_inv cap es t"
  shows "tracking_all cap t = map (expand t) (window cap t)"
proof (cases "ts_ring t")
  case None
  then show ?thesis using assms by (simp add: tracking_all_def window_def tracking_inv_def)
next
  case (Some r)
  then have len: "length r = cap" "ts_pos t < cap" using assms by (auto simp: tracking_inv_def)
  have "map (\<lambda>i. expand t (r ! i)) [0..<ts_pos t] = map (expand t) (take (ts_pos t) r)"
    using len by (intro nth_equalityI) auto
  moreover have "map (\<lambda>i. expand t (r ! (ts_pos t + i))) [0..<cap - ts_pos t] = map (expand t) (drop (ts_pos t) r)"
    using len by (intro nth_equalityI) (auto simp: add.commute)
  ultimately show ?thesis using Some by (simp add: tracking_all_def window_def)
qed

lemma tracking_inv_all:
  assumes "tracking_inv cap es t"
  shows "tracking_all cap t = es"
  unfolding tracking_all_window [OF assms]
proof (rule nth_equalityI)
  show len: "length (map (expand t) (window cap t)) = length es" using assms by (simp add: tracking_inv_def)
  fix i assume "i < length (map (expand t) (window cap t))"
  then have i: "i < length es" using len by simp
  have "window cap t ! i = compact (ts_count t - int (length es) + 1 + int i) (es ! i)"
    using assms i by (simp add: tracking_inv_def nth_numbered)
  then show "map (expand t) (window cap t) ! i = es ! i"
    using assms i len by (auto simp: tracking_inv_def intro!: expand_compact)
qed

definition ring_of :: "nat \<Rightarrow> trackingStore \<Rightarrow> trackingEventRecord list" where
  "ring_of cap t = (case ts_ring t of Some r \<Rightarrow> r | None \<Rightarrow> replicate cap empty_record)"

lemma window_record:
  assumes "length (ring_of cap t) = cap" "ts_pos t < cap"
  shows "window cap (tracking_record cap ev t) = (if ts_full t then tl (window cap t) else window cap t) @ [compact (ts_count t + 1) ev]"
proof -
  define r where "r = ring_of cap t"
  define x where "x = compact (ts_count t + 1) ev"
  have len: "length r = cap" "ts_pos t < length r" using assms by (simp_all add: r_def)
  have split: "drop (ts_pos t) r \<noteq> []" "tl (drop (ts_pos t) r) = drop (Suc (ts_pos t)) r" "length r \<le> Suc (ts_pos t) \<Longrightarrow> drop (Suc (ts_pos t)) r = []"
    using len by (simp_all add: drop_Suc tl_drop)
  have upd: "take (Suc (ts_pos t)) (r[ts_pos t := x]) = take (ts_pos t) r @ [x]" "drop (Suc (ts_pos t)) (r[ts_pos t := x]) = drop (Suc (ts_pos t)) r"
    using len by (simp_all add: take_Suc_conv_app_nth)
  have all: "Suc (ts_pos t) = length r \<Longrightarrow> r[ts_pos t := x] = take (ts_pos t) r @ [x]"
    using upd(1) len by simp
  have w: "window cap t = (if ts_full t then drop (ts_pos t) r @ take (ts_pos t) r else take (ts_pos t) r)"
    by (simp add: window_def ring_of_def r_def Let_def)
  have w': "window cap (tracking_record cap ev t) =
      (let p = (if cap \<le> Suc (ts_pos t) then 0 else Suc (ts_pos t)); q = r[ts_pos t := x]
       in if cap \<le> Suc (ts_pos t) \<or> ts_full t then drop p q @ take p q else take p q)"
    by (simp add: window_def tracking_record_def ring_of_def r_def x_def Let_def)
  show ?thesis
  proof (cases "cap \<le> Suc (ts_pos t)")
    case True
    then have "Suc (ts_pos t) = length r" using len by simp
    then show ?thesis using True all split(2,3) w w' split(1) by (simp add: x_def)
  next
    case False
    then show ?thesis using upd split(1,2) w w' by (simp add: x_def Let_def)
  qed
qed

lemma extra_record:
  assumes "k \<le> ts_count t + 1"
  shows "extra_at (tracking_record cap ev t) k =
    (if k = ts_count t + 1 then (case extras_of ev of Some x \<Rightarrow> Some x | None \<Rightarrow> if tr_seq (ring_of cap t ! ts_pos t) = k \<and> k \<noteq> 0 then None else extra_at t k)
     else if tr_seq (ring_of cap t ! ts_pos t) = k \<and> k \<noteq> 0 then None else extra_at t k)"
  by (auto simp: extra_at_def tracking_record_def ring_of_def Let_def split: option.splits)

lemma extra_record_above: "ts_count t + 1 < k \<Longrightarrow> extra_at t k = None \<Longrightarrow> extra_at (tracking_record cap ev t) k = None"
  by (auto simp: extra_at_def tracking_record_def Let_def split: option.splits)

text \<open>The slot to be written holds the oldest event, or none yet.\<close>

lemma old_slot:
  assumes "tracking_inv cap es t"
  shows "tr_seq (ring_of cap t ! ts_pos t) = (if ts_full t then ts_count t - int (length es) + 1 else 0)"
proof (cases "ts_ring t")
  case None
  then show ?thesis using assms by (simp add: tracking_inv_def ring_of_def empty_record_def)
next
  case (Some r)
  have len: "length r = cap" "ts_pos t < cap" using Some assms by (auto simp: tracking_inv_def)
  have hd: "r ! ts_pos t = hd (drop (ts_pos t) r)" "drop (ts_pos t) r \<noteq> []" using len by (simp_all add: hd_drop_conv_nth)
  show ?thesis
  proof (cases "ts_full t")
    case True
    then have w: "window cap t = drop (ts_pos t) r @ take (ts_pos t) r" "window cap t = log_numbered (ts_count t - int (length es) + 1) es" "es \<noteq> []"
      using Some assms by (auto simp: window_def tracking_inv_def)
    then have "r ! ts_pos t = hd (log_numbered (ts_count t - int (length es) + 1) es)" using hd by (metis hd_append2)
    then show ?thesis using w(3) True Some by (cases es) (auto simp: ring_of_def compact_def)
  next
    case False
    then have "list_all (\<lambda>x. tr_seq x = 0) (drop (ts_pos t) r)" using Some assms by (auto simp: tracking_inv_def)
    then have "tr_seq (hd (drop (ts_pos t) r)) = 0" using hd(2) by (simp add: list_all_iff)
    then show ?thesis using hd(1) False Some by (simp add: ring_of_def)
  qed
qed

lemma tracking_inv_record:
  assumes inv: "tracking_inv cap es t"
  shows "tracking_inv cap ((if ts_full t then tl es else es) @ [ev]) (tracking_record cap ev t)"
proof -
  define es' where "es' = (if ts_full t then tl es else es)"
  define t' where "t' = tracking_record cap ev t"
  have len: "length (ring_of cap t) = cap" "ts_pos t < cap" "0 < cap"
    using inv by (auto simp: tracking_inv_def ring_of_def split: option.splits)
  have full: "ts_full t \<Longrightarrow> length es = cap" and part: "\<not> ts_full t \<Longrightarrow> length es = ts_pos t" using inv by (auto simp: tracking_inv_def)
  have le: "int (length es) \<le> ts_count t" using inv by (simp add: tracking_inv_def)
  have es': "length es' = (if ts_full t then cap - 1 else ts_pos t)" using full part by (simp add: es'_def)
  have t': "ts_count t' = ts_count t + 1" "ts_pos t' = (if cap \<le> Suc (ts_pos t) then 0 else Suc (ts_pos t))" "ts_full t' = (cap \<le> Suc (ts_pos t) \<or> ts_full t)"
    "ts_ring t' = Some ((ring_of cap t)[ts_pos t := compact (ts_count t + 1) ev])"
    by (simp_all add: t'_def tracking_record_def ring_of_def Let_def)
  have base: "ts_count t' - int (length (es' @ [ev])) + 1 = (if ts_full t then ts_count t - int (length es) + 2 else ts_count t - int (length es) + 1)"
    using es' full part len by (auto simp: t'(1))
  have win: "window cap t' = log_numbered (ts_count t' - int (length (es' @ [ev])) + 1) (es' @ [ev])"
  proof -
    have "window cap t = log_numbered (ts_count t - int (length es) + 1) es" using inv by (simp add: tracking_inv_def)
    then have "(if ts_full t then tl (window cap t) else window cap t) = log_numbered (ts_count t' - int (length (es' @ [ev])) + 1) es'"
      unfolding base by (auto simp: es'_def numbered_tl add.commute)
    then show ?thesis
      unfolding window_record [OF len(1,2), of ev, folded t'_def] numbered_append using es' by (simp add: t'(1))
  qed
  have ext: "extra_at t' (ts_count t' - int (length (es' @ [ev])) + 1 + int i) = extras_of ((es' @ [ev]) ! i)" if i: "i < length (es' @ [ev])" for i
  proof (cases "i = length es'")
    case True
    have "extra_at t (ts_count t + 1) = None" using inv by (simp add: tracking_inv_def)
    then have "extra_at t' (ts_count t + 1) = extras_of ev" by (auto simp: t'_def extra_record split: option.split)
    then show ?thesis using True by (simp add: t'(1))
  next
    case False
    define k where "k = ts_count t - int (length es) + 1 + int (if ts_full t then Suc i else i)"
    have j: "(if ts_full t then Suc i else i) < length es" using False i by (auto simp: es'_def split: if_splits)
    have k: "ts_count t' - int (length (es' @ [ev])) + 1 + int i = k" unfolding base k_def by simp
    have "extra_at t k = extras_of (es ! (if ts_full t then Suc i else i))" using inv j unfolding tracking_inv_def k_def by blast
    moreover have "(es' @ [ev]) ! i = es ! (if ts_full t then Suc i else i)" using False i by (auto simp: es'_def nth_append nth_tl)
    moreover have "k \<le> ts_count t" "0 < k" using j le by (auto simp: k_def split: if_splits)
    moreover have "tr_seq (ring_of cap t ! ts_pos t) \<noteq> k" using old_slot [OF inv] \<open>0 < k\<close> by (auto simp: k_def)
    ultimately show ?thesis unfolding k by (simp add: t'_def extra_record)
  qed
  have above: "extra_at t' k = None" if "ts_count t' < k" for k
  proof -
    have k: "ts_count t + 1 < k" using that by (simp add: t'(1))
    moreover have "extra_at t k = None" using inv k by (simp add: tracking_inv_def)
    ultimately show ?thesis unfolding t'_def by (rule extra_record_above)
  qed
  have rest: "\<not> ts_full t' \<Longrightarrow> list_all (\<lambda>x. tr_seq x = 0) (drop (ts_pos t') ((ring_of cap t)[ts_pos t := compact (ts_count t + 1) ev]))"
  proof -
    assume nf: "\<not> ts_full t'"
    have "list_all (\<lambda>x. tr_seq x = 0) (drop (ts_pos t) (ring_of cap t))"
      using inv nf unfolding t'(3) by (auto simp: tracking_inv_def ring_of_def list_all_iff empty_record_def split: option.splits)
    then show ?thesis using nf unfolding t'(2,3) by (auto simp: list_all_iff dest: in_set_dropD [of _ 1 "drop (ts_pos t) (ring_of cap t)", simplified])
  qed
  show ?thesis
    unfolding es'_def [symmetric] t'_def [symmetric] tracking_inv_def
    using len es' win ext above rest le part full t' by (auto simp: algebra_simps)
qed

text \<open>
  C22. The tracking log is the list of the last events: after any sequence of recorded events, \<^verbatim>\<open>all\<close> returns the most recent ones, at most as many as the ring holds,
  oldest first, and each exactly as it was recorded, with the creative, domain and custom event name that are stored apart from it.
\<close>
theorem tracking_log_refines:
  assumes "0 < cap"
  shows "tracking_all cap (fold (tracking_record cap) evs new_trackingStore) = last_events cap evs"
proof -
  have "tracking_inv cap (last_events cap evs) (fold (tracking_record cap) evs new_trackingStore) \<and> (ts_full (fold (tracking_record cap) evs new_trackingStore) \<longleftrightarrow> cap \<le> length evs)"
  proof (induction evs rule: rev_induct)
    case Nil
    show ?case using assms by (simp add: tracking_inv_def new_trackingStore_def last_events_def window_def extra_at_def)
  next
    case (snoc ev evs)
    define t where "t = fold (tracking_record cap) evs new_trackingStore"
    have inv: "tracking_inv cap (last_events cap evs) t" and full: "ts_full t \<longleftrightarrow> cap \<le> length evs" using snoc by (simp_all add: t_def)
    have "last_events cap (evs @ [ev]) = (if ts_full t then tl (last_events cap evs) else last_events cap evs) @ [ev]"
      using assms unfolding full last_events_def by (auto simp: Suc_diff_le drop_Suc tl_drop not_le)
    moreover have "ts_full (tracking_record cap ev t) \<longleftrightarrow> cap \<le> length (evs @ [ev])"
    proof (cases "ts_full t")
      case False
      then have "ts_pos t = length evs" using inv full by (auto simp: tracking_inv_def last_events_def)
      then show ?thesis using False by (simp add: tracking_record_def Let_def)
    qed (use full in \<open>simp add: tracking_record_def Let_def\<close>)
    ultimately show ?case using tracking_inv_record [OF inv, of ev] by (simp add: t_def)
  qed
  then show ?thesis using tracking_inv_all by blast
qed

definition sample_tracking_event :: "string \<Rightarrow> TrackingEvent" where
  "sample_tracking_event e = \<lparr>te_AuctionID = ''a'', te_BidID = ''b'', te_Bidder = ''x'', te_PlacementID = ''p'', te_Event = e, te_CrID = ''c'', te_Price = Fin 1, te_ADomain = [], te_ReceivedAt = 7\<rparr>"

theorem tracking_log_refines_witness:
  "tracking_all 2 (fold (tracking_record 2) (map sample_tracking_event [''start'', ''custom'', ''complete'']) new_trackingStore) = map sample_tracking_event [''custom'', ''complete'']"
  using tracking_log_refines [of 2 "map sample_tracking_event [''start'', ''custom'', ''complete'']"] by (simp add: last_events_def)

section \<open>Duplicate impressions\<close>

type_synonym impressionKey = "string \<times> string"
type_synonym impressionDeduper = "(impressionKey, int) gomap list"

definition impressionDeduperShardCount :: nat where
  "impressionDeduperShardCount = 64"

definition hash_byte :: "char \<Rightarrow> 64 word \<Rightarrow> 64 word" where
  "hash_byte c h = (h XOR of_char c) * 1099511628211"

definition hashImpressionKey :: "impressionKey \<Rightarrow> 64 word" where
  "hashImpressionKey key = fold hash_byte (snd key) (hash_byte CHR '':'' (fold hash_byte (fst key) 1469598103934665603))"

definition shard_index :: "impressionKey \<Rightarrow> nat" where
  "shard_index key = unat (hashImpressionKey key AND 63)"

definition newImpressionDeduper :: impressionDeduper where
  "newImpressionDeduper = replicate impressionDeduperShardCount []"

definition SeenOrAdd :: "impressionKey \<Rightarrow> int \<Rightarrow> impressionDeduper \<Rightarrow> bool \<times> impressionDeduper" where
  "SeenOrAdd key seenAtUnix d =
     (let shard = d ! shard_index key
      in if map_has shard key then (True, d) else (False, d[shard_index key := map_put key seenAtUnix shard]))"

definition CleanupBefore :: "int \<Rightarrow> impressionDeduper \<Rightarrow> impressionDeduper" where
  "CleanupBefore cutoffUnix d = map (filter (\<lambda>(key, seenAt). \<not> seenAt < cutoffUnix)) d"

subsection \<open>The shards implement one set of keys\<close>

lemma shard_index_less: "shard_index key < impressionDeduperShardCount"
proof -
  have "hashImpressionKey key AND 63 = take_bit 6 (hashImpressionKey key)" by (simp add: take_bit_eq_mask mask_numeral)
  then have "shard_index key = take_bit 6 (unat (hashImpressionKey key))" by (simp add: shard_index_def unsigned_take_bit_eq)
  then show ?thesis by (simp add: impressionDeduperShardCount_def take_bit_eq_mod)
qed

definition dedup_inv :: "impressionDeduper \<Rightarrow> bool" where
  "dedup_inv d \<longleftrightarrow> length d = impressionDeduperShardCount \<and> list_all wf_map d"

definition seen_at :: "impressionDeduper \<Rightarrow> impressionKey \<Rightarrow> int option" where
  "seen_at d key = map_of (d ! shard_index key) key"

lemma map_of_filter_wf: "wf_map m \<Longrightarrow> map_of (filter (\<lambda>(k, v). P v) m) k = (case map_of m k of Some v \<Rightarrow> if P v then Some v else None | None \<Rightarrow> None)"
proof (induction m)
  case (Cons e m)
  obtain k' v where e: "e = (k', v)" by (cases e)
  have "k' \<notin> fst ` set m" "wf_map m" using Cons.prems by (auto simp: e wf_map_def)
  moreover from this have "map_of m k' = None" by (simp add: map_of_eq_None_iff)
  ultimately show ?case using Cons.IH by (auto simp: e split: option.splits)
qed simp

lemma wf_map_filter: "wf_map m \<Longrightarrow> wf_map (filter P m)"
  by (simp add: wf_map_def distinct_map_filter)

lemma dedup_new: "dedup_inv newImpressionDeduper" "seen_at newImpressionDeduper key = None"
  by (simp_all add: dedup_inv_def newImpressionDeduper_def seen_at_def shard_index_less list_all_iff)

lemma dedup_add:
  assumes "dedup_inv d"
  shows "dedup_inv (snd (SeenOrAdd key now d))" "fst (SeenOrAdd key now d) \<longleftrightarrow> seen_at d key \<noteq> None"
    "seen_at (snd (SeenOrAdd key now d)) k = (if k = key \<and> seen_at d key = None then Some now else seen_at d k)"
proof -
  have len: "shard_index key < length d" for key using assms shard_index_less by (simp add: dedup_inv_def)
  have wf: "wf_map (d ! shard_index key)" using assms len by (simp add: dedup_inv_def list_all_length)
  show "dedup_inv (snd (SeenOrAdd key now d))"
    using assms wf_map_put [OF wf, of key now] by (auto simp: SeenOrAdd_def dedup_inv_def Let_def list_all_iff simp del: wf_map_put dest!: set_update_subset_insert [THEN subsetD])
  show "fst (SeenOrAdd key now d) \<longleftrightarrow> seen_at d key \<noteq> None" by (auto simp: SeenOrAdd_def seen_at_def Let_def)
  show "seen_at (snd (SeenOrAdd key now d)) k = (if k = key \<and> seen_at d key = None then Some now else seen_at d k)"
    using len [of key] by (auto simp: SeenOrAdd_def seen_at_def Let_def nth_list_update)
qed

lemma dedup_cleanup:
  assumes "dedup_inv d"
  shows "dedup_inv (CleanupBefore cutoff d)"
    "seen_at (CleanupBefore cutoff d) k = (case seen_at d k of Some t \<Rightarrow> if t < cutoff then None else Some t | None \<Rightarrow> None)"
proof -
  have len: "shard_index k < length d" and wf: "wf_map (d ! shard_index k)"
    using assms shard_index_less [of k] by (simp_all add: dedup_inv_def list_all_length)
  show "dedup_inv (CleanupBefore cutoff d)" using assms by (simp add: dedup_inv_def CleanupBefore_def list_all_iff wf_map_filter)
  show "seen_at (CleanupBefore cutoff d) k = (case seen_at d k of Some t \<Rightarrow> if t < cutoff then None else Some t | None \<Rightarrow> None)"
    using len map_of_filter_wf [OF wf, of "\<lambda>t. \<not> t < cutoff" k] by (simp add: seen_at_def CleanupBefore_def split: option.split)
qed

section \<open>Counters\<close>

record VideoStats =
  vs_AdRequests :: int
  vs_Opportunities :: int
  vs_Impressions :: int
  vs_Completes :: int
  vs_VCR :: float64
  vs_Revenue :: float64
  vs_PublisherRevenue :: float64

definition empty_stats :: VideoStats where
  "empty_stats = \<lparr>vs_AdRequests = 0, vs_Opportunities = 0, vs_Impressions = 0, vs_Completes = 0, vs_VCR = 0, vs_Revenue = 0, vs_PublisherRevenue = 0\<rparr>"

record auctionDimKey =
  dk_Bidder :: string
  dk_App :: string
  dk_Placement :: string
  dk_Country :: string
  dk_Device :: string
  dk_Format :: string
  dk_DemandCh :: string
  dk_PriceCPM :: float64
  dk_PublisherPriceCPM :: float64
  dk_PublisherID :: string
  dk_AdvertiserID :: string
  dk_born :: int

type_synonym stats_map = "(string, VideoStats) gomap"

record videoStatsStore =
  st_byPub :: stats_map
  st_byAdvertiser :: stats_map
  st_byBidder :: stats_map
  st_byApp :: stats_map
  st_byPlacement :: stats_map
  st_byCountry :: stats_map
  st_byDevice :: stats_map
  st_byFormat :: stats_map
  st_byDemandChannel :: stats_map
  st_auctionDims :: "(string, auctionDimKey) gomap"
  st_startedAt :: int

definition newVideoStatsStore :: "int \<Rightarrow> videoStatsStore" where
  "newVideoStatsStore now = \<lparr>st_byPub = [], st_byAdvertiser = [], st_byBidder = [], st_byApp = [], st_byPlacement = [], st_byCountry = [], st_byDevice = [],
     st_byFormat = [], st_byDemandChannel = [], st_auctionDims = [], st_startedAt = now\<rparr>"

text \<open>\<^verbatim>\<open>getOrCreate\<close> with an update of the entry, and an update of an entry only if it exists.\<close>

definition bump :: "(VideoStats \<Rightarrow> VideoStats) \<Rightarrow> string \<Rightarrow> stats_map \<Rightarrow> stats_map" where
  "bump f key m = map_put key (f (map_get empty_stats m key)) m"

definition bump_if :: "(VideoStats \<Rightarrow> VideoStats) \<Rightarrow> string \<Rightarrow> stats_map \<Rightarrow> stats_map" where
  "bump_if f key m = (case map_of m key of None \<Rightarrow> m | Some v \<Rightarrow> map_put key (f v) m)"

definition or_unknown :: "string \<Rightarrow> string \<Rightarrow> string" where
  "or_unknown other s = (if s = [] then other else s)"

definition deviceTypeLabel :: "int \<Rightarrow> string" where
  "deviceTypeLabel dt =
     (if dt = 1 then ''Mobile/Tablet'' else if dt = 2 then ''Desktop'' else if dt = 3 then ''CTV'' else if dt = 4 then ''Phone'' else if dt = 5 then ''Tablet''
      else if dt = 6 then ''Connected Device'' else if dt = 7 then ''Set-Top Box'' else ''Unknown'')"

datatype DemandType = DemandTypePrebid | DemandTypeVAST | DemandTypeORTB

fun demandChannelLabel :: "DemandType \<Rightarrow> string" where
  "demandChannelLabel DemandTypeVAST = ''VAST Tag''"
| "demandChannelLabel DemandTypeORTB = ''OpenRTB''"
| "demandChannelLabel DemandTypePrebid = ''Prebid''"

text \<open>What the stores read of a player request and of a demand response.\<close>

record fill =
  fl_AuctionID :: string
  fl_Bidder :: string
  fl_WinPrice :: float64
  fl_AppBundle :: string
  fl_Domain :: string
  fl_CountryCode :: string
  fl_DeviceType :: int

definition dim_key :: "AdServerConfig \<Rightarrow> fill \<Rightarrow> DemandType \<Rightarrow> int \<Rightarrow> auctionDimKey" where
  "dim_key cfg f demandType now =
     \<lparr>dk_Bidder = or_unknown ''Unknown'' (fl_Bidder f), dk_App = or_unknown ''(unknown)'' (or_unknown (fl_Domain f) (fl_AppBundle f)),
      dk_Placement = or_unknown ''(unknown)'' (as_PlacementID cfg), dk_Country = or_unknown ''(unknown)'' (fl_CountryCode f), dk_Device = deviceTypeLabel (fl_DeviceType f),
      dk_Format = or_unknown ''(unknown)'' (as_VideoPlacementType cfg), dk_DemandCh = demandChannelLabel demandType, dk_PriceCPM = fl_WinPrice f,
      dk_PublisherPriceCPM = as_FloorCPM cfg, dk_PublisherID = as_PublisherID cfg, dk_AdvertiserID = as_AdvertiserID cfg, dk_born = now\<rparr>"

text \<open>An update of the entries of the seven dimensions of an auction.\<close>

definition each_dim :: "(string \<Rightarrow> stats_map \<Rightarrow> stats_map) \<Rightarrow> auctionDimKey \<Rightarrow> videoStatsStore \<Rightarrow> videoStatsStore" where
  "each_dim g dk s = s\<lparr>st_byBidder := g (dk_Bidder dk) (st_byBidder s), st_byApp := g (dk_App dk) (st_byApp s), st_byPlacement := g (dk_Placement dk) (st_byPlacement s),
     st_byCountry := g (dk_Country dk) (st_byCountry s), st_byDevice := g (dk_Device dk) (st_byDevice s), st_byFormat := g (dk_Format dk) (st_byFormat s),
     st_byDemandChannel := g (dk_DemandCh dk) (st_byDemandChannel s)\<rparr>"

definition add_request :: "VideoStats \<Rightarrow> VideoStats" where "add_request v = v\<lparr>vs_AdRequests := vs_AdRequests v + 1\<rparr>"
definition add_opportunity :: "VideoStats \<Rightarrow> VideoStats" where "add_opportunity v = v\<lparr>vs_Opportunities := vs_Opportunities v + 1\<rparr>"
definition add_complete :: "VideoStats \<Rightarrow> VideoStats" where "add_complete v = v\<lparr>vs_Completes := vs_Completes v + 1\<rparr>"

definition add_impression :: "float64 \<Rightarrow> float64 \<Rightarrow> VideoStats \<Rightarrow> VideoStats" where
  "add_impression revenue publisherRevenue v =
     v\<lparr>vs_Impressions := vs_Impressions v + 1, vs_Revenue := vs_Revenue v + revenue, vs_PublisherRevenue := vs_PublisherRevenue v + publisherRevenue\<rparr>"

definition incDimFill :: "AdServerConfig \<Rightarrow> fill \<Rightarrow> DemandType \<Rightarrow> int \<Rightarrow> videoStatsStore \<Rightarrow> videoStatsStore" where
  "incDimFill cfg f demandType now s =
     (if fl_AuctionID f = [] then s
      else let dk = dim_key cfg f demandType now in each_dim (bump add_opportunity) dk s\<lparr>st_auctionDims := map_put (fl_AuctionID f) dk (st_auctionDims s)\<rparr>)"

definition incDimImpression :: "string \<Rightarrow> videoStatsStore \<Rightarrow> auctionDimKey option \<times> videoStatsStore" where
  "incDimImpression auctionID s =
     (if auctionID = [] then (None, s)
      else (case map_of (st_auctionDims s) auctionID of
              None \<Rightarrow> (None, s)
            | Some dk \<Rightarrow> (Some dk, each_dim (bump_if (add_impression (dk_PriceCPM dk / Fin 1000) (dk_PublisherPriceCPM dk / Fin 1000))) dk s)))"

definition incDimComplete :: "string \<Rightarrow> videoStatsStore \<Rightarrow> videoStatsStore" where
  "incDimComplete auctionID s =
     (if auctionID = [] then s else (case map_of (st_auctionDims s) auctionID of None \<Rightarrow> s | Some dk \<Rightarrow> each_dim (bump_if add_complete) dk s))"

text \<open>An update of the entry of the publisher, and of the advertiser if there is one.\<close>

definition inc_batch :: "(VideoStats \<Rightarrow> VideoStats) \<Rightarrow> string \<Rightarrow> string \<Rightarrow> videoStatsStore \<Rightarrow> videoStatsStore" where
  "inc_batch f pubID advID s =
     s\<lparr>st_byPub := bump f (or_unknown ''unknown'' pubID) (st_byPub s), st_byAdvertiser := (if advID = [] then st_byAdvertiser s else bump f advID (st_byAdvertiser s))\<rparr>"

definition incRequestBatch :: "string \<Rightarrow> string \<Rightarrow> videoStatsStore \<Rightarrow> videoStatsStore" where
  "incRequestBatch pubID advID s = inc_batch add_request pubID advID s"

definition incFillBatch :: "string \<Rightarrow> string \<Rightarrow> videoStatsStore \<Rightarrow> videoStatsStore" where
  "incFillBatch pubID advID s = inc_batch add_opportunity pubID advID s"

definition incImpressionBatch :: "string \<Rightarrow> string \<Rightarrow> float64 \<Rightarrow> float64 \<Rightarrow> videoStatsStore \<Rightarrow> videoStatsStore" where
  "incImpressionBatch pubID advID advertiserPriceCPM publisherPriceCPM s =
     inc_batch (add_impression (advertiserPriceCPM / Fin 1000) (publisherPriceCPM / Fin 1000)) pubID advID s"

definition incComplete :: "string \<Rightarrow> videoStatsStore \<Rightarrow> videoStatsStore" where
  "incComplete pubID s = s\<lparr>st_byPub := bump add_complete (or_unknown ''unknown'' pubID) (st_byPub s)\<rparr>"

definition incAdvertiserComplete :: "string \<Rightarrow> videoStatsStore \<Rightarrow> videoStatsStore" where
  "incAdvertiserComplete advID s = (if advID = [] then s else s\<lparr>st_byAdvertiser := bump add_complete advID (st_byAdvertiser s)\<rparr>)"

text \<open>\<^verbatim>\<open>save\<close> evicts auctions older than 30 minutes.\<close>

definition evict_dims :: "int \<Rightarrow> videoStatsStore \<Rightarrow> videoStatsStore" where
  "evict_dims now s = s\<lparr>st_auctionDims := filter (\<lambda>(k, v). \<not> dk_born v < now - 30 * 60) (st_auctionDims s)\<rparr>"

definition stats_reset :: "videoStatsStore \<Rightarrow> videoStatsStore" where
  "stats_reset s = newVideoStatsStore (st_startedAt s)"

definition with_vcr :: "VideoStats \<Rightarrow> VideoStats" where
  "with_vcr v = (if 0 < vs_Impressions v then v\<lparr>vs_VCR := Fin (of_int (vs_Completes v)) / Fin (of_int (vs_Impressions v)) * Fin 100\<rparr> else v)"

record VideoStatsPayload =
  py_ByPublisher :: stats_map
  py_ByAdvertiser :: stats_map
  py_Dimensions :: "stats_map list"
  py_Total :: VideoStats
  py_StartedAt :: int

definition add_to_total :: "VideoStats \<Rightarrow> VideoStats \<Rightarrow> VideoStats" where
  "add_to_total v acc = acc\<lparr>vs_AdRequests := vs_AdRequests acc + vs_AdRequests v, vs_Opportunities := vs_Opportunities acc + vs_Opportunities v,
     vs_Impressions := vs_Impressions acc + vs_Impressions v, vs_Completes := vs_Completes acc + vs_Completes v, vs_Revenue := vs_Revenue acc + vs_Revenue v\<rparr>"

definition dim_maps :: "videoStatsStore \<Rightarrow> stats_map list" where
  "dim_maps s = [st_byBidder s, st_byApp s, st_byPlacement s, st_byCountry s, st_byDevice s, st_byFormat s, st_byDemandChannel s]"

definition snapshot :: "videoStatsStore \<Rightarrow> VideoStatsPayload" where
  "snapshot s =
     (let snap = map (\<lambda>(k, v). (k, with_vcr v)) in
      \<lparr>py_ByPublisher = snap (st_byPub s), py_ByAdvertiser = snap (st_byAdvertiser s), py_Dimensions = map snap (dim_maps s),
       py_Total = with_vcr (fold (\<lambda>(k, v). add_to_total (with_vcr v)) (st_byPub s) empty_stats), py_StartedAt = st_startedAt s\<rparr>)"

subsection \<open>The dimensions agree\<close>

text \<open>The operations of the store, as the endpoints and the periodic task call them.\<close>

datatype stats_op = DimFill AdServerConfig fill DemandType int | DimImpression string | DimComplete string | RequestBatch string string | FillBatch string string
  | ImpressionBatch string string float64 float64 | CompleteOf string string | Evict int | Reset

fun stats_apply :: "stats_op \<Rightarrow> videoStatsStore \<Rightarrow> videoStatsStore" where
  "stats_apply (DimFill cfg f d now) s = incDimFill cfg f d now s"
| "stats_apply (DimImpression a) s = snd (incDimImpression a s)"
| "stats_apply (DimComplete a) s = incDimComplete a s"
| "stats_apply (RequestBatch p a) s = incRequestBatch p a s"
| "stats_apply (FillBatch p a) s = incFillBatch p a s"
| "stats_apply (ImpressionBatch p a x y) s = incImpressionBatch p a x y s"
| "stats_apply (CompleteOf p a) s = incAdvertiserComplete a (incComplete p s)"
| "stats_apply (Evict now) s = evict_dims now s"
| "stats_apply Reset s = stats_reset s"

definition stats_total :: "(VideoStats \<Rightarrow> int) \<Rightarrow> stats_map \<Rightarrow> int" where
  "stats_total sel m = sum_list (map (\<lambda>(k, v). sel v) m)"

lemma stats_total_put: "wf_map m \<Longrightarrow> stats_total sel (map_put k v m) = stats_total sel m + sel v - (case map_of m k of Some u \<Rightarrow> sel u | None \<Rightarrow> 0)"
proof (induction m)
  case (Cons e m)
  obtain k' u where e: "e = (k', u)" by (cases e)
  have "wf_map m" "k' = k \<Longrightarrow> map_of m k = None" using Cons.prems by (auto simp: e wf_map_def map_of_eq_None_iff)
  with Cons.IH show ?case by (auto simp: e stats_total_def split: option.splits)
qed (simp add: stats_total_def)

lemma bump_total:
  assumes "wf_map m" "\<And>v. sel (f v) = sel v + d" "sel empty_stats = 0"
  shows "stats_total sel (bump f k m) = stats_total sel m + d"
  using assms by (auto simp: bump_def stats_total_put map_get_def split: option.split)

lemma bump_if_total:
  assumes "wf_map m" "\<And>v. sel (f v) = sel v + d" "map_has m k"
  shows "stats_total sel (bump_if f k m) = stats_total sel m + d"
  using assms by (auto simp: bump_if_def stats_total_put split: option.split)

lemma bump_frame: "wf_map m \<Longrightarrow> wf_map (bump f k m)" "map_has (bump f k m) k' \<longleftrightarrow> k' = k \<or> map_has m k'"
  "wf_map m \<Longrightarrow> wf_map (bump_if f k m)" "map_has (bump_if f k m) k' \<longleftrightarrow> map_has m k'"
  by (auto simp: bump_def bump_if_def split: option.split)

text \<open>Every auction that is kept has its entries in all dimensions, and the dimensions have the same sums.\<close>

definition dims_present :: "videoStatsStore \<Rightarrow> auctionDimKey \<Rightarrow> bool" where
  "dims_present s dk \<longleftrightarrow> map_has (st_byBidder s) (dk_Bidder dk) \<and> map_has (st_byApp s) (dk_App dk) \<and> map_has (st_byPlacement s) (dk_Placement dk)
     \<and> map_has (st_byCountry s) (dk_Country dk) \<and> map_has (st_byDevice s) (dk_Device dk) \<and> map_has (st_byFormat s) (dk_Format dk) \<and> map_has (st_byDemandChannel s) (dk_DemandCh dk)"

definition counts :: "(VideoStats \<Rightarrow> int) list" where
  "counts = [vs_Opportunities, vs_Impressions, vs_Completes]"

definition stats_inv :: "videoStatsStore \<Rightarrow> bool" where
  "stats_inv s \<longleftrightarrow> list_all wf_map (dim_maps s) \<and> (\<forall>dk\<in>ran (map_of (st_auctionDims s)). dims_present s dk)
     \<and> list_all (\<lambda>sel. list_all (\<lambda>m. stats_total sel m = stats_total sel (st_byBidder s)) (dim_maps s)) counts"

lemma each_dim_frame [simp]:
  "st_auctionDims (each_dim g dk s) = st_auctionDims s" "st_byPub (each_dim g dk s) = st_byPub s" "st_byAdvertiser (each_dim g dk s) = st_byAdvertiser s"
  by (simp_all add: each_dim_def)

lemma dims_present_bump:
  "dims_present s d \<Longrightarrow> dims_present (each_dim (bump f) dk s) d" "dims_present (each_dim (bump f) dk s) dk"
  "dims_present s d \<Longrightarrow> dims_present (each_dim (bump_if f) dk s) d"
  by (simp_all add: dims_present_def each_dim_def bump_frame del: not_None_eq)

lemma stats_inv_bump:
  assumes "stats_inv s"
  shows "stats_inv (each_dim (bump add_opportunity) dk s)"
proof -
  have wf: "list_all wf_map (dim_maps s)" using assms by (simp add: stats_inv_def)
  have add: "vs_Opportunities (add_opportunity v) = vs_Opportunities v + 1" "vs_Impressions (add_opportunity v) = vs_Impressions v + 0"
    "vs_Completes (add_opportunity v) = vs_Completes v + 0" for v
    by (simp_all add: add_opportunity_def)
  have zero: "vs_Opportunities empty_stats = 0" "vs_Impressions empty_stats = 0" "vs_Completes empty_stats = 0" by (simp_all add: empty_stats_def)
  note tot = bump_total [where sel = vs_Opportunities, OF _ add(1) zero(1)] bump_total [where sel = vs_Impressions, OF _ add(2) zero(2)] bump_total [where sel = vs_Completes, OF _ add(3) zero(3)]
  have "\<forall>d\<in>ran (map_of (st_auctionDims s)). dims_present (each_dim (bump add_opportunity) dk s) d"
    using assms dims_present_bump(1) by (auto simp: stats_inv_def)
  then show ?thesis
    using assms wf unfolding stats_inv_def each_dim_frame by (simp add: each_dim_def dim_maps_def counts_def tot bump_frame(1))
qed

lemma stats_inv_bump_if:
  assumes "stats_inv s" "dims_present s dk" "\<And>v. vs_Opportunities (f v) = vs_Opportunities v + a" "\<And>v. vs_Impressions (f v) = vs_Impressions v + b" "\<And>v. vs_Completes (f v) = vs_Completes v + c"
  shows "stats_inv (each_dim (bump_if f) dk s)"
proof -
  have wf: "list_all wf_map (dim_maps s)" using assms by (simp add: stats_inv_def)
  note tot = bump_if_total [where sel = vs_Opportunities, OF _ assms(3)] bump_if_total [where sel = vs_Impressions, OF _ assms(4)] bump_if_total [where sel = vs_Completes, OF _ assms(5)]
  have "\<forall>d\<in>ran (map_of (st_auctionDims s)). dims_present (each_dim (bump_if f) dk s) d"
    using assms dims_present_bump(3) by (auto simp: stats_inv_def)
  then show ?thesis
    using assms(1) wf assms(2) [unfolded dims_present_def] unfolding stats_inv_def each_dim_frame by (simp add: each_dim_def dim_maps_def counts_def tot bump_frame(3))
qed

lemma stats_inv_frame:
  "dim_maps s' = dim_maps s \<Longrightarrow> ran (map_of (st_auctionDims s')) \<subseteq> ran (map_of (st_auctionDims s)) \<Longrightarrow> stats_inv s \<Longrightarrow> stats_inv s'"
  by (auto simp: stats_inv_def dim_maps_def dims_present_def)

lemma ran_map_of_filter: "wf_map m \<Longrightarrow> ran (map_of (filter (\<lambda>(k, v). P v) m)) \<subseteq> ran (map_of m)"
  by (auto simp: ran_def map_of_filter_wf split: option.splits if_splits)

definition dims_inv :: "videoStatsStore \<Rightarrow> bool" where
  "dims_inv s \<longleftrightarrow> stats_inv s \<and> wf_map (st_auctionDims s)"

lemma dims_inv_apply:
  assumes "dims_inv s"
  shows "dims_inv (stats_apply op s)"
proof (cases op)
  case (DimFill cfg f d now)
  define dk where "dk = dim_key cfg f d now"
  define s' where "s' = each_dim (bump add_opportunity) dk s"
  have s': "stats_inv s'" "dims_present s' dk" using assms stats_inv_bump dims_present_bump(2) by (auto simp: s'_def dims_inv_def)
  have "stats_inv (s'\<lparr>st_auctionDims := map_put (fl_AuctionID f) dk (st_auctionDims s)\<rparr>)"
    using s' by (auto simp: stats_inv_def dim_maps_def dims_present_def ran_def s'_def split: if_splits)
  moreover have "incDimFill cfg f d now s = (if fl_AuctionID f = [] then s else s'\<lparr>st_auctionDims := map_put (fl_AuctionID f) dk (st_auctionDims s)\<rparr>)"
    by (simp add: incDimFill_def s'_def dk_def Let_def each_dim_def)
  ultimately show ?thesis using DimFill assms by (simp add: dims_inv_def s'_def)
next
  case (DimImpression a)
  have "stats_inv (each_dim (bump_if (add_impression x y)) dk s)" if "map_of (st_auctionDims s) a = Some dk" for dk x y
    using assms that by (intro stats_inv_bump_if [where a = 0 and b = 1 and c = 0]) (auto simp: dims_inv_def stats_inv_def ran_def add_impression_def)
  then show ?thesis using DimImpression assms by (auto simp: incDimImpression_def dims_inv_def split: option.split)
next
  case (DimComplete a)
  have "stats_inv (each_dim (bump_if add_complete) dk s)" if "map_of (st_auctionDims s) a = Some dk" for dk
    using assms that by (intro stats_inv_bump_if [where a = 0 and b = 0 and c = 1]) (auto simp: dims_inv_def stats_inv_def ran_def add_complete_def)
  then show ?thesis using DimComplete assms by (auto simp: incDimComplete_def dims_inv_def split: option.split)
next
  case (Evict now)
  then show ?thesis
    using assms ran_map_of_filter [of "st_auctionDims s" "\<lambda>v. \<not> dk_born v < now - 30 * 60"]
    by (auto simp: dims_inv_def evict_dims_def wf_map_filter dim_maps_def intro!: stats_inv_frame [of _ s])
next
  case Reset
  then show ?thesis by (simp add: dims_inv_def stats_reset_def newVideoStatsStore_def stats_inv_def dim_maps_def counts_def)
qed (use assms in \<open>auto simp: dims_inv_def incRequestBatch_def incFillBatch_def incImpressionBatch_def inc_batch_def incComplete_def incAdvertiserComplete_def
    intro!: stats_inv_frame [of _ s] simp: dim_maps_def\<close>)

text \<open>
  C36. The seven breakdowns of the statistics agree: after any sequence of fills, impressions, completes, resets and evictions of the cache of auctions, the sums
  of the opportunities, of the impressions and of the completes over bidders, apps, placements, countries, devices, formats and demand channels are the same.
\<close>
theorem dimension_totals_agree:
  "\<exists>opportunities impressions completes.
     map (stats_total vs_Opportunities) (dim_maps (fold stats_apply ops (newVideoStatsStore now))) = replicate 7 opportunities
   \<and> map (stats_total vs_Impressions) (dim_maps (fold stats_apply ops (newVideoStatsStore now))) = replicate 7 impressions
   \<and> map (stats_total vs_Completes) (dim_maps (fold stats_apply ops (newVideoStatsStore now))) = replicate 7 completes"
proof -
  have start: "dims_inv (newVideoStatsStore now)" by (simp add: dims_inv_def newVideoStatsStore_def stats_inv_def dim_maps_def counts_def)
  have "dims_inv s \<Longrightarrow> dims_inv (fold stats_apply ops s)" for s by (induction ops arbitrary: s) (auto intro: dims_inv_apply)
  with start have "dims_inv (fold stats_apply ops (newVideoStatsStore now))" by blast
  then show ?thesis by (simp add: dims_inv_def stats_inv_def dim_maps_def counts_def numeral_eq_Suc)
qed

text \<open>The totals of a snapshot are the sums over the publishers, except for the revenue of publishers, which is never summed.\<close>

lemma with_vcr_counts [simp]:
  "vs_AdRequests (with_vcr v) = vs_AdRequests v" "vs_Opportunities (with_vcr v) = vs_Opportunities v" "vs_Impressions (with_vcr v) = vs_Impressions v"
  "vs_Completes (with_vcr v) = vs_Completes v" "vs_PublisherRevenue (with_vcr v) = vs_PublisherRevenue v"
  by (simp_all add: with_vcr_def)

lemma fold_totals:
  "vs_AdRequests (fold (\<lambda>(k, v). add_to_total (with_vcr v)) m acc) = vs_AdRequests acc + stats_total vs_AdRequests m"
  "vs_Opportunities (fold (\<lambda>(k, v). add_to_total (with_vcr v)) m acc) = vs_Opportunities acc + stats_total vs_Opportunities m"
  "vs_Impressions (fold (\<lambda>(k, v). add_to_total (with_vcr v)) m acc) = vs_Impressions acc + stats_total vs_Impressions m"
  "vs_Completes (fold (\<lambda>(k, v). add_to_total (with_vcr v)) m acc) = vs_Completes acc + stats_total vs_Completes m"
  "vs_PublisherRevenue (fold (\<lambda>(k, v). add_to_total (with_vcr v)) m acc) = vs_PublisherRevenue acc"
  by (induction m arbitrary: acc) (auto simp: add_to_total_def stats_total_def)

lemma snapshot_totals:
  "vs_AdRequests (py_Total (snapshot s)) = stats_total vs_AdRequests (st_byPub s)"
  "vs_Opportunities (py_Total (snapshot s)) = stats_total vs_Opportunities (st_byPub s)"
  "vs_Impressions (py_Total (snapshot s)) = stats_total vs_Impressions (st_byPub s)"
  "vs_Completes (py_Total (snapshot s)) = stats_total vs_Completes (st_byPub s)"
  by (simp_all add: snapshot_def Let_def fold_totals empty_stats_def)

lemma snapshot_publisher_revenue: "vs_PublisherRevenue (py_Total (snapshot s)) = 0"
  by (simp add: snapshot_def Let_def fold_totals empty_stats_def)

end
