(* ===== verification/VideoVast.thy ===== *)
theory VideoVast
  imports VideoStores
begin

text \<open>
  VAST documents in the video pipeline (\<^verbatim>\<open>endpoints/video_pipeline.go\<close>, \<^verbatim>\<open>endpoints/demand_adapter.go\<close>): the kind of the markup of a bid, the check of its structure, the
  injection of impression and tracking pixels into the text of a document, the extraction of the pixels of a wrapper, and the server-side resolution of wrapper
  chains. A document is the list of its bytes; \<^verbatim>\<open>strings.ToLower\<close> and \<^verbatim>\<open>ToUpper\<close> map the runes beyond ASCII by tables that are an argument, and a byte that is no
  rune becomes the three bytes of U+FFFD. Slices that are out of range panic: \<open>None\<close>. White space is that of ASCII.
\<close>

section \<open>Strings\<close>

definition is_ascii :: "string \<Rightarrow> bool" where
  "is_ascii s \<longleftrightarrow> list_all (\<lambda>c. byte_val c < 128) s"

definition lower_bytes :: "(string \<Rightarrow> string) \<Rightarrow> string \<Rightarrow> string" where
  "lower_bytes uni s = (if is_ascii s then ToLower s else concat (map (\<lambda>r. if is_ascii r then ToLower r else uni r) (runes s)))"

definition upper_bytes :: "(string \<Rightarrow> string) \<Rightarrow> string \<Rightarrow> string" where
  "upper_bytes uni s = (if is_ascii s then ToUpper s else concat (map (\<lambda>r. if is_ascii r then ToUpper r else uni r) (runes s)))"

definition TrimPrefix :: "string \<Rightarrow> string \<Rightarrow> string" where
  "TrimPrefix s p = (if prefix p s then drop (length p) s else s)"

definition TrimSuffix :: "string \<Rightarrow> string \<Rightarrow> string" where
  "TrimSuffix s p = (if suffix p s then take (length s - length p) s else s)"

fun find_last_sub :: "string \<Rightarrow> string \<Rightarrow> nat option" where
  "find_last_sub sub [] = (if sub = [] then Some 0 else None)"
| "find_last_sub sub (c # cs) = (case find_last_sub sub cs of Some n \<Rightarrow> Some (Suc n) | None \<Rightarrow> if prefix sub (c # cs) then Some 0 else None)"

definition LastIndex :: "string \<Rightarrow> string \<Rightarrow> int" where
  "LastIndex s sub = (case find_last_sub sub s of None \<Rightarrow> -1 | Some n \<Rightarrow> int n)"

definition indexCaseFold :: "(string \<Rightarrow> string) \<Rightarrow> string \<Rightarrow> string \<Rightarrow> int" where
  "indexCaseFold uni haystack needle = Index (lower_bytes uni haystack) (ToLower needle)"

definition lastIndexCaseFold :: "(string \<Rightarrow> string) \<Rightarrow> string \<Rightarrow> string \<Rightarrow> int" where
  "lastIndexCaseFold uni haystack needle = LastIndex (lower_bytes uni haystack) (ToLower needle)"

lemma find_last_sub_Some: "find_last_sub sub s = Some n \<Longrightarrow> prefix sub (drop n s) \<and> n + length sub \<le> length s"
proof (induction s arbitrary: n)
  case (Cons c cs)
  show ?case
  proof (cases "find_last_sub sub cs")
    case (Some m)
    with Cons show ?thesis by auto
  next
    case None
    then have "prefix sub (c # cs)" "n = 0" using Cons.prems by (auto split: if_splits)
    then show ?thesis using prefix_length_le by fastforce
  qed
qed (simp split: if_splits)

lemma find_last_sub_None: "find_last_sub sub s = None \<Longrightarrow> find_sub sub s = None"
  by (induction s) (auto split: option.splits if_splits)

lemma lower_ascii: "is_ascii s \<Longrightarrow> lower_bytes uni s = ToLower s"
  by (simp add: lower_bytes_def)

section \<open>Injection of pixels\<close>

text \<open>\<open>vast[:idx] + block + vast[idx:]\<close>\<close>

definition insert_text :: "string \<Rightarrow> int \<Rightarrow> string \<Rightarrow> string option" where
  "insert_text vast idx block = (case (slice vast 0 idx, slice_from vast idx) of (Some a, Some b) \<Rightarrow> Some (a @ block @ b) | _ \<Rightarrow> None)"

definition impression_tag :: "string \<Rightarrow> string \<Rightarrow> string" where
  "impression_tag trackURL ident =
     (if ident \<noteq> [] then ''<Impression id=\"'' @ ident @ ''\"><![CDATA['' @ trackURL @ '']]></Impression>'' else ''<Impression><![CDATA['' @ trackURL @ '']]></Impression>'')"

definition injectVASTImpressionWithID :: "(string \<Rightarrow> string) \<Rightarrow> string \<Rightarrow> string \<Rightarrow> string \<Rightarrow> string option" where
  "injectVASTImpressionWithID uni vast trackURL ident =
     (if trackURL = [] then Some vast
      else if Contains vast trackURL then Some vast
      else
        let tag = impression_tag trackURL ident in
        if lastIndexCaseFold uni vast ''</impression>'' \<noteq> -1 then insert_text vast (lastIndexCaseFold uni vast ''</impression>'' + 13) tag
        else if indexCaseFold uni vast ''</inline>'' \<noteq> -1 then insert_text vast (indexCaseFold uni vast ''</inline>'') tag
        else if indexCaseFold uni vast ''</wrapper>'' \<noteq> -1 then insert_text vast (indexCaseFold uni vast ''</wrapper>'') tag
        else Some vast)"

definition injectVASTImpression :: "(string \<Rightarrow> string) \<Rightarrow> string \<Rightarrow> string \<Rightarrow> string option" where
  "injectVASTImpression uni vast trackURL = injectVASTImpressionWithID uni vast trackURL []"

type_synonym vastTracking = "string \<times> string"

definition tracking_tag :: "vastTracking \<Rightarrow> string" where
  "tracking_tag ev = ''<Tracking event=\"'' @ fst ev @ ''\"><![CDATA['' @ snd ev @ '']]></Tracking>''"

definition injectVASTTracking :: "(string \<Rightarrow> string) \<Rightarrow> string \<Rightarrow> vastTracking list \<Rightarrow> string option" where
  "injectVASTTracking uni vast events =
     (let filtered = filter (\<lambda>ev. snd ev \<noteq> [] \<and> \<not> Contains vast (snd ev)) events in
      if filtered = [] then Some vast
      else
        let block = concat (map tracking_tag filtered);
            wrapped = ''<TrackingEvents>'' @ block @ ''</TrackingEvents>''
        in if lastIndexCaseFold uni vast ''</tracking>'' \<noteq> -1 then insert_text vast (lastIndexCaseFold uni vast ''</tracking>'' + 11) block
           else if indexCaseFold uni vast ''</linear>'' \<noteq> -1 then insert_text vast (indexCaseFold uni vast ''</linear>'') wrapped
           else if indexCaseFold uni vast ''</wrapper>'' \<noteq> -1 then insert_text vast (indexCaseFold uni vast ''</wrapper>'') wrapped
           else Some vast)"

subsection \<open>Where a pixel goes\<close>

lemma Contains_iff: "Contains s sub \<longleftrightarrow> (\<exists>a b. s = a @ sub @ b)"
proof
  assume "Contains s sub"
  then obtain n where "find_sub sub s = Some n" by (auto simp: Contains_def Index_def split: option.splits)
  then show "\<exists>a b. s = a @ sub @ b" using find_sub_split by blast
next
  assume "\<exists>a b. s = a @ sub @ b"
  then obtain a b where s: "s = a @ sub @ b" by blast
  have "find_sub sub s \<noteq> None" using find_sub_None [of sub s "length a"] by (auto simp: s)
  then show "Contains s sub" by (auto simp: Contains_def Index_def split: option.splits)
qed

lemma insert_text_Some: "0 \<le> i \<Longrightarrow> i \<le> int (length vast) \<Longrightarrow> insert_text vast i block = Some (take (nat i) vast @ block @ drop (nat i) vast)"
  by (simp add: insert_text_def slice_def nat_diff_distrib)

lemma length_lower_ascii: "is_ascii s \<Longrightarrow> length (lower_bytes uni s) = length s"
  by (simp add: lower_ascii)

lemma ToLower_drop: "ToLower (drop n s) = drop n (ToLower s)" "ToLower (take n s) = take n (ToLower s)"
  by (simp_all add: ToLower_def drop_map take_map)

lemma lastIndex_place:
  assumes "is_ascii vast" "lastIndexCaseFold uni vast tag \<noteq> -1"
  defines "i \<equiv> lastIndexCaseFold uni vast tag + int (length tag)"
  shows "0 \<le> i" "i \<le> int (length vast)" "suffix (ToLower tag) (ToLower (take (nat i) vast))"
proof -
  obtain n where n: "find_last_sub (ToLower tag) (ToLower vast) = Some n" "lastIndexCaseFold uni vast tag = int n"
    using assms(1,2) by (auto simp: lastIndexCaseFold_def lower_ascii LastIndex_def split: option.splits)
  have p: "prefix (ToLower tag) (drop n (ToLower vast))" "n + length tag \<le> length vast" using find_last_sub_Some [OF n(1)] by auto
  show "0 \<le> i" "i \<le> int (length vast)" using p(2) by (simp_all add: i_def n(2))
  have "take (n + length tag) (ToLower vast) = take n (ToLower vast) @ ToLower tag"
    using p(1) by (auto simp: take_add prefix_def)
  then show "suffix (ToLower tag) (ToLower (take (nat i) vast))"
    by (simp add: i_def n(2) ToLower_drop nat_add_distrib suffix_def)
qed

lemma index_place:
  assumes "is_ascii vast" "indexCaseFold uni vast tag \<noteq> -1"
  defines "i \<equiv> indexCaseFold uni vast tag"
  shows "0 \<le> i" "i \<le> int (length vast)" "prefix (ToLower tag) (ToLower (drop (nat i) vast))"
proof -
  obtain n where n: "find_sub (ToLower tag) (ToLower vast) = Some n" "indexCaseFold uni vast tag = int n"
    using assms(1,2) by (auto simp: indexCaseFold_def lower_ascii Index_def split: option.splits)
  have p: "take (length tag) (drop n (ToLower vast)) = ToLower tag" "n + length tag \<le> length vast" using find_sub_Some [OF n(1)] by auto
  show "0 \<le> i" "i \<le> int (length vast)" using p(2) by (simp_all add: i_def n(2))
  show "prefix (ToLower tag) (ToLower (drop (nat i) vast))" using p(1) by (simp add: i_def n(2) ToLower_drop) (metis take_is_prefix)
qed

lemma impression_tag_contains: "Contains (a @ impression_tag u ident @ b) u"
proof -
  have "\<exists>x y. impression_tag u ident = x @ u @ y"
    by (cases "ident = []") (auto simp: impression_tag_def intro: exI [of _ "''<Impression><![CDATA[''"] exI [of _ "''<Impression id=\"'' @ ident @ ''\"><![CDATA[''"])
  then show ?thesis unfolding Contains_iff by (metis append.assoc)
qed

text \<open>The places where a pixel may go in a document: after the end of an impression, or before the end of the inline or wrapper element.\<close>

definition pixel_place :: "string \<Rightarrow> string \<Rightarrow> bool" where
  "pixel_place a b \<longleftrightarrow> suffix ''</impression>'' (ToLower a) \<or> prefix ''</inline>'' (ToLower b) \<or> prefix ''</wrapper>'' (ToLower b)"

definition has_place :: "string \<Rightarrow> bool" where
  "has_place vast \<longleftrightarrow> Contains (ToLower vast) ''</impression>'' \<or> Contains (ToLower vast) ''</inline>'' \<or> Contains (ToLower vast) ''</wrapper>''"

lemma lower_tags: "ToLower ''</impression>'' = ''</impression>''" "ToLower ''</inline>'' = ''</inline>''" "ToLower ''</wrapper>'' = ''</wrapper>''"
  by code_simp+

lemma index_ascii: "is_ascii vast \<Longrightarrow> indexCaseFold uni vast tag = -1 \<longleftrightarrow> \<not> Contains (ToLower vast) (ToLower tag)"
  by (simp add: indexCaseFold_def lower_ascii Contains_def Index_def split: option.split)

lemma lastIndex_ascii: "is_ascii vast \<Longrightarrow> lastIndexCaseFold uni vast tag = -1 \<longleftrightarrow> \<not> Contains (ToLower vast) (ToLower tag)"
proof -
  have "find_last_sub sub s = None \<longleftrightarrow> find_sub sub s = None" for sub s
    using find_last_sub_None [of sub s] find_last_sub_Some [of sub s] find_sub_None [of sub s] by (cases "find_last_sub sub s") auto
  then show "is_ascii vast \<Longrightarrow> ?thesis"
    by (auto simp: lastIndexCaseFold_def lower_ascii Contains_def LastIndex_def Index_def split: option.split)
qed

lemma inject_cases:
  assumes "is_ascii vast" "u \<noteq> []" "\<not> Contains vast u" "has_place vast"
  obtains a b where "vast = a @ b" "injectVASTImpressionWithID uni vast u ident = Some (a @ impression_tag u ident @ b)" "pixel_place a b"
proof -
  define k where "k = (if Contains (ToLower vast) ''</impression>'' then lastIndexCaseFold uni vast ''</impression>'' + 13
    else if Contains (ToLower vast) ''</inline>'' then indexCaseFold uni vast ''</inline>'' else indexCaseFold uni vast ''</wrapper>'')"
  have idx: "lastIndexCaseFold uni vast ''</impression>'' = -1 \<longleftrightarrow> \<not> Contains (ToLower vast) ''</impression>''"
    "indexCaseFold uni vast ''</inline>'' = -1 \<longleftrightarrow> \<not> Contains (ToLower vast) ''</inline>''" "indexCaseFold uni vast ''</wrapper>'' = -1 \<longleftrightarrow> \<not> Contains (ToLower vast) ''</wrapper>''"
    using lastIndex_ascii [OF assms(1)] index_ascii [OF assms(1)] lower_tags by simp_all
  have k: "0 \<le> k \<and> k \<le> int (length vast) \<and> pixel_place (take (nat k) vast) (drop (nat k) vast)"
    using lastIndex_place [OF assms(1), of uni "''</impression>''"] index_place [OF assms(1), of uni "''</inline>''"] index_place [OF assms(1), of uni "''</wrapper>''"]
      assms(4) idx by (auto simp: k_def pixel_place_def has_place_def lower_tags)
  have "injectVASTImpressionWithID uni vast u ident = insert_text vast k (impression_tag u ident)"
    using assms(2-4) idx by (auto simp: injectVASTImpressionWithID_def k_def has_place_def Let_def)
  then show thesis using k by (intro that [of "take (nat k) vast" "drop (nat k) vast"]) (simp_all add: insert_text_Some)
qed

text \<open>
  A pixel reaches the document once: in an ASCII document with the end of an impression, inline or wrapper element, injecting a tracking URL never fails, the result
  contains the URL and differs from the document at most by one impression element, after the end of an impression or before the end of the inline or wrapper
  element, and injecting the URL again changes nothing.
\<close>
theorem pixel_injected_once:
  assumes "is_ascii vast" "u \<noteq> []" "has_place vast"
  shows "\<exists>w. injectVASTImpressionWithID uni vast u ident = Some w \<and> Contains w u
    \<and> (w = vast \<or> (\<exists>a b. vast = a @ b \<and> w = a @ impression_tag u ident @ b \<and> pixel_place a b))
    \<and> injectVASTImpressionWithID uni w u ident = Some w"
proof (cases "Contains vast u")
  case True
  then show ?thesis by (auto simp: injectVASTImpressionWithID_def)
next
  case False
  obtain a b where ab: "vast = a @ b" "injectVASTImpressionWithID uni vast u ident = Some (a @ impression_tag u ident @ b)" "pixel_place a b"
    using inject_cases [OF assms(1,2) False assms(3)] by blast
  have "Contains (a @ impression_tag u ident @ b) u" by (rule impression_tag_contains)
  then show ?thesis using ab by (auto simp: injectVASTImpressionWithID_def)
qed

theorem pixel_injected_once_witness:
  "\<exists>w. injectVASTImpressionWithID (\<lambda>r. r) ''<VAST><Ad><InLine></InLine></Ad></VAST>'' ''http://t'' [] = Some w \<and> Contains w ''http://t''"
proof -
  have "is_ascii ''<VAST><Ad><InLine></InLine></Ad></VAST>''" "has_place ''<VAST><Ad><InLine></InLine></Ad></VAST>''" by code_simp+
  then show ?thesis using pixel_injected_once [of "''<VAST><Ad><InLine></InLine></Ad></VAST>''" "''http://t''" "\<lambda>r. r" "[]"] by auto
qed

text \<open>
  Positions found in the lower-case copy are used in the document itself. A byte that is no rune becomes three bytes in the copy, so the pixel goes to a wrong place, inside
  a tag, or the slice is out of range and panics.
\<close>

lemma pixel_misplaced:
  "injectVASTImpressionWithID (\<lambda>r. r) (CHR 0xE9 # ''</Impression></InLine>'') ''http://t'' [] =
     Some (CHR 0xE9 # ''</Impression></'' @ ''<Impression><![CDATA[http://t]]></Impression>'' @ ''InLine>'')"
  by code_simp

lemma pixel_panics: "injectVASTImpressionWithID (\<lambda>r. r) (CHR 0xE9 # ''</Impression>'') ''http://t'' [] = None"
  by code_simp

section \<open>Extraction of pixels\<close>

definition strip_cdata :: "string \<Rightarrow> string" where
  "strip_cdata raw = (if prefix ''<![CDATA['' raw then TrimSpace (TrimSuffix (TrimPrefix raw ''<![CDATA['') '']]>'') else raw)"

lemma slice_SomeD: "slice s a b = Some r \<Longrightarrow> 0 \<le> a \<and> a \<le> b \<and> b \<le> int (length s) \<and> int (length r) = b - a"
  by (auto simp: slice_def split: if_splits)

function extract_from :: "(string \<Rightarrow> string) \<Rightarrow> string \<Rightarrow> string \<Rightarrow> string \<Rightarrow> int \<Rightarrow> string list option" where
  "extract_from uni otag ctag vast search =
     (let lower = lower_bytes uni vast in
      case slice_from lower search of None \<Rightarrow> None | Some l1 \<Rightarrow>
      if Index l1 otag = -1 then Some []
      else
      let start = Index l1 otag + search in
      case slice_from vast start of None \<Rightarrow> None | Some v \<Rightarrow>
      if Index v ''>'' = -1 then Some []
      else
      let contentStart = start + Index v ''>'' + 1 in
      case slice_from lower contentStart of None \<Rightarrow> None | Some l2 \<Rightarrow>
      if Index l2 ctag = -1 then Some []
      else
      case slice vast contentStart (contentStart + Index l2 ctag) of None \<Rightarrow> None | Some raw \<Rightarrow>
      map_option (\<lambda>urls. if prefix ''http'' (strip_cdata (TrimSpace raw)) then strip_cdata (TrimSpace raw) # urls else urls)
        (extract_from uni otag ctag vast (contentStart + Index l2 ctag)))"
  by pat_completeness auto
termination
proof (relation "measure (\<lambda>(uni, otag, ctag, vast, search). nat (int (length (lower_bytes uni vast)) - search))", goal_cases)
  case (2 uni otag ctag vast search lower l1 start v contentStart l2 raw)
  note low = 2(1) and at1 = 2(2) and n1 = 2(3) and st = 2(4) and n2 = 2(6) and cs = 2(7) and at2 = 2(8) and n3 = 2(9)
  have "0 \<le> Index l1 otag" "0 \<le> Index v ''>''" using n1 n2 Index_bound [of l1 otag] Index_bound [of v "''>''"] by linarith+
  moreover have "0 \<le> Index l2 ctag" "Index l2 ctag + int (length ctag) \<le> int (length l2)" using n3 Index_bound [of l2 ctag] by linarith+
  moreover note slice_SomeD [OF at1] slice_SomeD [OF at2]
  ultimately have "search < contentStart + Index l2 ctag" "contentStart + Index l2 ctag \<le> int (length lower)" unfolding cs st by linarith+
  then show ?case unfolding low in_measure by simp
qed simp

declare extract_from.simps [simp del]

definition extractImpressionURLs :: "(string \<Rightarrow> string) \<Rightarrow> string \<Rightarrow> string list option" where
  "extractImpressionURLs uni vast = extract_from uni ''<impression'' ''</impression'' vast 0"

definition extractTrackingURLs :: "(string \<Rightarrow> string) \<Rightarrow> string \<Rightarrow> string list option" where
  "extractTrackingURLs uni vast = extract_from uni ''<tracking'' ''</tracking'' vast 0"

definition extractVASTAdTagURI :: "(string \<Rightarrow> string) \<Rightarrow> (string \<Rightarrow> string) \<Rightarrow> string \<Rightarrow> string option" where
  "extractVASTAdTagURI uni uniU vast =
     (if \<not> Contains (upper_bytes uniU vast) ''<WRAPPER'' \<and> \<not> Contains (upper_bytes uniU vast) ''<WRAPPER>'' then Some []
      else
      let tagStart = indexCaseFold uni vast ''<vastadtaguri'' in
      if tagStart = -1 then Some []
      else
      case slice_from vast tagStart of None \<Rightarrow> None | Some v \<Rightarrow>
      if Index v ''>'' = -1 then Some []
      else
      let contentStart = tagStart + Index v ''>'' + 1 in
      case slice_from vast contentStart of None \<Rightarrow> None | Some v2 \<Rightarrow>
      let tagEnd = indexCaseFold uni v2 ''</vastadtaguri'' in
      if tagEnd = -1 then Some []
      else
      case slice vast contentStart (contentStart + tagEnd) of None \<Rightarrow> None | Some raw \<Rightarrow>
      let raw = TrimSpace raw in
      Some (TrimSpace (if prefix ''<![CDATA['' raw then TrimSuffix (TrimPrefix raw ''<![CDATA['') '']]>'' else raw)))"

text \<open>
  The search for tracking elements also stops at the element around them, so the first pixel of a block is taken for its content and lost.
\<close>

lemma first_tracking_lost:
  "extractTrackingURLs (\<lambda>r. r) (''<TrackingEvents><Tracking>http:a</Tracking><Tracking>http:b</Tracking>'') = Some [''http:b'']"
  by code_simp

section \<open>Wrapper chains\<close>

text \<open>The loop of \<^verbatim>\<open>resolveVASTWrapperChain\<close>: \<open>fetch\<close> is the tag server, by the hops that are left; the result is the last document, and the pixels of the wrappers on the way.\<close>

fun follow_wrappers :: "(string \<Rightarrow> string) \<Rightarrow> (string \<Rightarrow> string) \<Rightarrow> (nat \<Rightarrow> string \<Rightarrow> string option) \<Rightarrow> nat \<Rightarrow> string \<Rightarrow> (string \<times> string list \<times> string list) option" where
  "follow_wrappers uni uniU fetch 0 current = Some (current, [], [])"
| "follow_wrappers uni uniU fetch (Suc n) current =
    (case extractVASTAdTagURI uni uniU current of
       None \<Rightarrow> None
     | Some tagURI \<Rightarrow>
         if tagURI = [] then Some (current, [], [])
         else
           (case (extractImpressionURLs uni current, extractTrackingURLs uni current) of
              (Some imps, Some trks) \<Rightarrow>
                (case fetch n tagURI of
                   None \<Rightarrow> Some (current, imps, trks)
                 | Some next \<Rightarrow>
                     if TrimSpace next = [] then Some (current, imps, trks)
                     else map_option (\<lambda>(doc, is, ts). (doc, imps @ is, trks @ ts)) (follow_wrappers uni uniU fetch n next))
            | _ \<Rightarrow> None))"

fun inject_impressions :: "(string \<Rightarrow> string) \<Rightarrow> string list \<Rightarrow> string \<Rightarrow> string option" where
  "inject_impressions uni [] vast = Some vast"
| "inject_impressions uni (u # us) vast = (case injectVASTImpression uni vast u of None \<Rightarrow> None | Some w \<Rightarrow> inject_impressions uni us w)"

fun inject_trackings :: "(string \<Rightarrow> string) \<Rightarrow> string list \<Rightarrow> string \<Rightarrow> string option" where
  "inject_trackings uni [] vast = Some vast"
| "inject_trackings uni (u # us) vast = (case injectVASTTracking uni vast [(''start'', u)] of None \<Rightarrow> None | Some w \<Rightarrow> inject_trackings uni us w)"

definition resolveVASTWrapperChain :: "(string \<Rightarrow> string) \<Rightarrow> (string \<Rightarrow> string) \<Rightarrow> (nat \<Rightarrow> string \<Rightarrow> string option) \<Rightarrow> nat \<Rightarrow> string \<Rightarrow> string option" where
  "resolveVASTWrapperChain uni uniU fetch maxDepth vast =
     (case follow_wrappers uni uniU fetch maxDepth vast of
        None \<Rightarrow> None
      | Some (doc, imps, trks) \<Rightarrow> (case inject_impressions uni imps doc of None \<Rightarrow> None | Some w \<Rightarrow> inject_trackings uni trks w))"

subsection \<open>Wrappers lose no impression\<close>

definition tag_boundary :: "string \<Rightarrow> string \<Rightarrow> bool" where
  "tag_boundary a b \<longleftrightarrow> a \<noteq> [] \<and> last a = CHR ''>'' \<or> b \<noteq> [] \<and> hd b = CHR ''<''"

definition pixel_url :: "string \<Rightarrow> bool" where
  "pixel_url u \<longleftrightarrow> is_ascii u \<and> u \<noteq> [] \<and> CHR ''<'' \<notin> set u \<and> CHR ''>'' \<notin> set u"

lemma to_lower_bracket: "to_lower c = CHR ''>'' \<longleftrightarrow> c = CHR ''>''" "to_lower c = CHR ''<'' \<longleftrightarrow> c = CHR ''<''"
proof -
  have "of_char c + 32 \<noteq> (62 :: nat)" "of_char c + 32 \<noteq> (60 :: nat)" if "65 \<le> (of_char c :: nat)" using that by simp_all
  moreover have "(char_of (of_char c + 32 :: nat) :: char) = CHR ''>'' \<longleftrightarrow> of_char c + 32 = (62 :: nat)" "(char_of (of_char c + 32 :: nat) :: char) = CHR ''<'' \<longleftrightarrow> of_char c + 32 = (60 :: nat)"
    if "(of_char c :: nat) \<le> 90"
    using that by (auto simp: char_of_eq_iff take_bit_eq_mod)
  ultimately show "to_lower c = CHR ''>'' \<longleftrightarrow> c = CHR ''>''" "to_lower c = CHR ''<'' \<longleftrightarrow> c = CHR ''<''" by (auto simp: to_lower_def)
qed

lemma boundary_suffix: "suffix (s @ ''>'') (ToLower a) \<Longrightarrow> tag_boundary a b"
proof -
  assume "suffix (s @ ''>'') (ToLower a)"
  then obtain r where r: "ToLower a = r @ s @ ''>''" by (auto simp: suffix_def)
  then have "a \<noteq> []" by auto
  moreover have "to_lower (last a) = CHR ''>''" using r \<open>a \<noteq> []\<close> by (metis ToLower_def append.assoc last_map last_snoc)
  ultimately show ?thesis by (simp add: tag_boundary_def to_lower_bracket)
qed

lemma boundary_prefix: "prefix (''<'' @ s) (ToLower b) \<Longrightarrow> tag_boundary a b"
proof -
  assume p: "prefix (''<'' @ s) (ToLower b)"
  then obtain c r where b: "b = c # r" by (cases b) auto
  then have "to_lower c = CHR ''<''" using p by (simp add: ToLower_def)
  then show ?thesis using b by (simp add: tag_boundary_def to_lower_bracket)
qed

lemma contains_boundary:
  assumes "tag_boundary a b" "pixel_url x" "Contains (a @ b) x"
  shows "Contains (a @ t @ b) x"
proof -
  obtain p q where "a @ b = p @ x @ q" using assms(3) Contains_iff by blast
  then consider r where "a = p @ x @ r" | r where "b = r @ x @ q" | x1 x2 where "a = p @ x1" "b = x2 @ q" "x = x1 @ x2"
    by (auto simp: append_eq_append_conv2)
  then show ?thesis
  proof cases
    case 1
    then show ?thesis unfolding Contains_iff by (metis append.assoc)
  next
    case 2
    then show ?thesis unfolding Contains_iff by (metis append.assoc)
  next
    case 3
    show ?thesis
    proof (cases "x1 = [] \<or> x2 = []")
      case True
      then show ?thesis using 3 unfolding Contains_iff by (metis append.assoc append_Nil append_Nil2)
    next
      case False
      then have "last x1 = CHR ''>'' \<or> hd x2 = CHR ''<''" using assms(1) 3 by (auto simp: tag_boundary_def)
      then show ?thesis using assms(2) 3(3) False by (metis UnCI hd_in_set last_in_set pixel_url_def set_append)
    qed
  qed
qed

lemma is_ascii_append [simp]: "is_ascii (a @ b) \<longleftrightarrow> is_ascii a \<and> is_ascii b" "is_ascii []"
  by (auto simp: is_ascii_def)

lemma tag_ascii: "is_ascii u \<Longrightarrow> is_ascii (impression_tag u [])" "is_ascii u \<Longrightarrow> is_ascii (tracking_tag (''start'', u))"
proof -
  have "is_ascii ''<Impression><![CDATA[''" "is_ascii '']]></Impression>''" "is_ascii ''<Tracking event=\"start\"><![CDATA[''" "is_ascii '']]></Tracking>''" by code_simp+
  then show "is_ascii u \<Longrightarrow> is_ascii (impression_tag u [])" "is_ascii u \<Longrightarrow> is_ascii (tracking_tag (''start'', u))"
    by (simp_all add: impression_tag_def tracking_tag_def flip: append.assoc) (simp_all add: is_ascii_def)
qed

lemma has_place_tag: "has_place (a @ impression_tag u [] @ b)"
proof -
  have "ToLower ''</Impression>'' = ''</impression>''" by code_simp
  moreover have "impression_tag u [] = (''<Impression><![CDATA['' @ u @ '']]>'') @ ''</Impression>''" by (simp add: impression_tag_def)
  ultimately have "ToLower (a @ impression_tag u [] @ b) = (ToLower a @ ToLower (''<Impression><![CDATA['' @ u @ '']]>'')) @ ''</impression>'' @ ToLower b"
    by (simp only: ToLower_append append.assoc)
  then show ?thesis unfolding has_place_def Contains_iff by blast
qed

text \<open>One injection of an impression or tracking pixel: text is inserted at the boundary of a tag.\<close>

lemma impression_step:
  assumes "is_ascii vast" "has_place vast" "pixel_url u"
  shows "\<exists>w. injectVASTImpression uni vast u = Some w \<and> is_ascii w \<and> has_place w \<and> Contains w u \<and> (\<forall>x. pixel_url x \<and> Contains vast x \<longrightarrow> Contains w x)"
proof (cases "Contains vast u")
  case True
  then show ?thesis using assms by (auto simp: injectVASTImpression_def injectVASTImpressionWithID_def)
next
  case False
  have u: "u \<noteq> []" "is_ascii u" using assms(3) by (simp_all add: pixel_url_def)
  obtain a b where ab: "vast = a @ b" "injectVASTImpressionWithID uni vast u [] = Some (a @ impression_tag u [] @ b)" "pixel_place a b"
    using inject_cases [OF assms(1) u(1) False assms(2)] by blast
  have "tag_boundary a b"
    using ab(3) boundary_suffix [of "''</impression''" a b] boundary_prefix [of "''/inline>''" b a] boundary_prefix [of "''/wrapper>''" b a] by (auto simp: pixel_place_def)
  then have "\<forall>x. pixel_url x \<and> Contains vast x \<longrightarrow> Contains (a @ impression_tag u [] @ b) x" using contains_boundary ab(1) by blast
  moreover have "is_ascii (a @ impression_tag u [] @ b)" using assms(1) ab(1) tag_ascii(1) [OF u(2)] by simp
  ultimately show ?thesis using ab(2) has_place_tag impression_tag_contains by (simp add: injectVASTImpression_def)
qed

lemma tracking_step:
  assumes "is_ascii vast" "pixel_url u"
  shows "\<exists>w. injectVASTTracking uni vast [(''start'', u)] = Some w \<and> is_ascii w \<and> (\<forall>x. pixel_url x \<and> Contains vast x \<longrightarrow> Contains w x)"
proof -
  define block where "block = tracking_tag (''start'', u)"
  have asc: "is_ascii block" "is_ascii (''<TrackingEvents>'' @ block @ ''</TrackingEvents>'')"
    using tag_ascii(2) assms(2) by (simp_all add: block_def pixel_url_def) (simp_all add: is_ascii_def byte_val_def)
  have low: "ToLower ''</tracking>'' = ''</tracking>''" "ToLower ''</linear>'' = ''</linear>''" by code_simp+
  define good where "good r \<longleftrightarrow> (\<exists>w. r = Some w \<and> is_ascii w \<and> (\<forall>x. pixel_url x \<and> Contains vast x \<longrightarrow> Contains w x))" for r
  have put: "good (insert_text vast i t)" if "0 \<le> i" "i \<le> int (length vast)" "tag_boundary (take (nat i) vast) (drop (nat i) vast)" "is_ascii t" for i t
  proof -
    have "Contains (take (nat i) vast @ t @ drop (nat i) vast) x" if "pixel_url x" "Contains vast x" for x
      using contains_boundary [OF \<open>tag_boundary _ _\<close> that(1)] that(2) by simp
    moreover have "is_ascii (take (nat i) vast @ t @ drop (nat i) vast)" using assms(1) \<open>is_ascii t\<close> by (metis append_take_drop_id is_ascii_append(1))
    ultimately show ?thesis using that(1,2) by (simp add: good_def insert_text_Some)
  qed
  have "lastIndexCaseFold uni vast ''</tracking>'' \<noteq> -1 \<Longrightarrow> good (insert_text vast (lastIndexCaseFold uni vast ''</tracking>'' + 11) block)"
    using lastIndex_place [OF assms(1), of uni "''</tracking>''"] boundary_suffix [of "''</tracking''"] asc(1) low by (intro put) auto
  moreover have "indexCaseFold uni vast ''</linear>'' \<noteq> -1 \<Longrightarrow> good (insert_text vast (indexCaseFold uni vast ''</linear>'') (''<TrackingEvents>'' @ block @ ''</TrackingEvents>''))"
    using index_place [OF assms(1), of uni "''</linear>''"] boundary_prefix [of "''/linear>''"] asc(2) low by (intro put) auto
  moreover have "indexCaseFold uni vast ''</wrapper>'' \<noteq> -1 \<Longrightarrow> good (insert_text vast (indexCaseFold uni vast ''</wrapper>'') (''<TrackingEvents>'' @ block @ ''</TrackingEvents>''))"
    using index_place [OF assms(1), of uni "''</wrapper>''"] boundary_prefix [of "''/wrapper>''"] asc(2) lower_tags by (intro put) auto
  moreover have "good (Some vast)" using assms(1) by (simp add: good_def)
  ultimately have "good (injectVASTTracking uni vast [(''start'', u)])" by (simp add: injectVASTTracking_def block_def Let_def)
  then show ?thesis by (simp add: good_def)
qed

lemma impressions_kept:
  assumes "is_ascii vast" "has_place vast" "list_all pixel_url us"
  shows "\<exists>w. inject_impressions uni us vast = Some w \<and> is_ascii w \<and> list_all (Contains w) us \<and> (\<forall>x. pixel_url x \<and> Contains vast x \<longrightarrow> Contains w x)"
  using assms
proof (induction us arbitrary: vast)
  case (Cons u us)
  then obtain v where v: "injectVASTImpression uni vast u = Some v" "is_ascii v" "has_place v" "Contains v u" "\<forall>x. pixel_url x \<and> Contains vast x \<longrightarrow> Contains v x"
    using impression_step [of vast u uni] by auto
  then obtain w where "inject_impressions uni us v = Some w" "is_ascii w" "list_all (Contains w) us" "\<forall>x. pixel_url x \<and> Contains v x \<longrightarrow> Contains w x"
    using Cons.IH [of v] Cons.prems(3) by auto
  then show ?case using v Cons.prems(3) by auto
qed simp

lemma trackings_kept:
  assumes "is_ascii vast" "list_all pixel_url us"
  shows "\<exists>w. inject_trackings uni us vast = Some w \<and> (\<forall>x. pixel_url x \<and> Contains vast x \<longrightarrow> Contains w x)"
  using assms
proof (induction us arbitrary: vast)
  case (Cons u us)
  then obtain v where v: "injectVASTTracking uni vast [(''start'', u)] = Some v" "is_ascii v" "\<forall>x. pixel_url x \<and> Contains vast x \<longrightarrow> Contains v x"
    using tracking_step [of vast u uni] by auto
  then show ?case using Cons.IH [of v] Cons.prems(2) by auto
qed simp


definition sample_wrapper :: string where
  "sample_wrapper = ''<Wrapper><VASTAdTagURI>u</VASTAdTagURI><Impression>http:i</Impression>''"

definition sample_inline :: string where
  "sample_inline = ''<InLine></InLine>''"


text \<open>Tracking pixels of a wrapper are all injected as start events, whatever event they were for.\<close>

lemma tracking_event_lost:
  assumes "snd ev \<noteq> []" "\<not> Contains ''<Linear></Linear>'' (snd ev)"
  shows "inject_trackings (\<lambda>r. r) [snd ev] ''<Linear></Linear>'' = Some (''<Linear><TrackingEvents>'' @ tracking_tag (''start'', snd ev) @ ''</TrackingEvents></Linear>'')"
proof -
  have "lastIndexCaseFold (\<lambda>r. r) ''<Linear></Linear>'' ''</tracking>'' = -1" "indexCaseFold (\<lambda>r. r) ''<Linear></Linear>'' ''</linear>'' = 8" by code_simp+
  then show ?thesis using assms by (simp add: injectVASTTracking_def insert_text_def slice_def)
qed

end
