(* ===== verification/Entities.thy ===== *)
theory Entities
  imports Prelude
begin

text \<open>
  The bids the exchange works on: \<^verbatim>\<open>openrtb2.Bid\<close> with the fields the exchange reads,
  \<^verbatim>\<open>entities.PbsOrtbBid\<close> and \<^verbatim>\<open>entities.PbsOrtbSeatBid\<close>. The exchange shares pointers to
  \<^verbatim>\<open>PbsOrtbBid\<close> between the seats and the auction and writes through them, so bids live in an explicit
  store and seats hold addresses. The list of bids a seat refers to, seat after seat, is
  \<open>all_bids\<close>. The builder of the non-bids of a response closes the theory.
\<close>

section \<open>Bids and seats\<close>

record Bid =
  Bid_ID :: string
  Bid_ImpID :: string
  Bid_Price :: float64
  Bid_DealID :: string
  Bid_CrID :: string
  Bid_AdM :: string
  Bid_NURL :: string
  Bid_Exp :: "64 word"
  Bid_W :: int
  Bid_H :: int
  Bid_ADomain :: "string list"
  Bid_Cat :: "string list"
  Bid_CatTax :: int
  Bid_Dur :: int
  Bid_MType :: int
  Bid_Ext :: "string option"  \<comment> \<open>the raw JSON; \<open>None\<close>: absent\<close>

record ExtBidPrebidFloors =
  bf_FloorRule :: string
  bf_FloorRuleValue :: float64
  bf_FloorValue :: float64
  bf_FloorCurrency :: string

record PbsOrtbBid =
  pb_Bid :: "Bid option"  \<comment> \<open>\<open>None\<close>: the nil pointer\<close>
  pb_BidType :: string
  pb_BidTargets :: "(string, string) gomap"
  pb_BidFloors :: "ExtBidPrebidFloors option"
  pb_DealPriority :: int
  pb_DealTierSatisfied :: bool
  pb_GeneratedBidID :: string
  pb_OriginalBidCPM :: float64
  pb_OriginalBidCur :: string
  pb_TargetBidderCode :: string
  pb_AdapterCode :: string

type_synonym bidptr = nat
type_synonym store = "bidptr \<Rightarrow> PbsOrtbBid"

record PbsOrtbSeatBid =
  sb_Bids :: "bidptr list"
  sb_Currency :: string
  sb_Seat :: string

type_synonym seat_bids = "(string, PbsOrtbSeatBid option) gomap"

definition seat_bid_list :: "string \<times> PbsOrtbSeatBid option \<Rightarrow> (string \<times> bidptr) list" where
  "seat_bid_list e = (case snd e of None \<Rightarrow> [] | Some s \<Rightarrow> map (Pair (fst e)) (sb_Bids s))"

definition all_bids :: "seat_bids \<Rightarrow> (string \<times> bidptr) list" where
  "all_bids sbs = concat (map seat_bid_list sbs)"

lemma all_bids_simps [simp]:
  "all_bids [] = []"
  "all_bids (e # sbs) = seat_bid_list e @ all_bids sbs"
  by (simp_all add: all_bids_def)

lemma seat_bid_list_simps [simp]:
  "seat_bid_list (n, None) = []"
  "seat_bid_list (n, Some s) = map (Pair n) (sb_Bids s)"
  by (simp_all add: seat_bid_list_def)

lemma set_all_bids_perm: "mset sbs = mset sbs' \<Longrightarrow> set (all_bids sbs) = set (all_bids sbs')"
  by (auto simp: all_bids_def dest: mset_eq_setD)

text \<open>The bids of one seat of a well-formed map, in any visiting order: the seat's own list.\<close>

lemma filter_seat_bid_list:
  "filter (\<lambda>(m, p). m = n \<and> P p) (seat_bid_list e) =
     (if fst e = n then filter (\<lambda>(m, p). P p) (seat_bid_list e) else [])"
  by (cases "snd e") (auto simp: seat_bid_list_def filter_map comp_def)

lemma bids_of_bidder:
  assumes "wf_map sbs"
  shows "map snd (filter (\<lambda>(m, p). m = n \<and> P p) (all_bids sbs)) =
     (case map_of sbs n of Some (Some s) \<Rightarrow> filter P (sb_Bids s) | _ \<Rightarrow> [])"
  using assms
proof (induction sbs)
  case (Cons e sbs)
  obtain m sb where e: "e = (m, sb)" by (cases e)
  from Cons.prems e have wf: "wf_map sbs" and m: "m \<notin> fst ` set sbs"
    by (simp_all add: wf_map_def)
  show ?case
  proof (cases "m = n")
    case True
    with m have "map_of sbs n = None" by (simp add: map_of_eq_None_iff)
    with Cons.IH [OF wf] have "map snd (filter (\<lambda>(m, p). m = n \<and> P p) (all_bids sbs)) = []"
      by (simp only: option.case)
    with True e show ?thesis
      by (cases sb) (auto simp: filter_seat_bid_list filter_map comp_def split_def)
  next
    case False
    with e Cons.IH [OF wf] show ?thesis by (simp add: filter_seat_bid_list)
  qed
qed simp

text \<open>The zero values of the two structures, and a store that holds a finite list of bids from address 0 on.\<close>

definition zero_Bid :: Bid where
  "zero_Bid = \<lparr>Bid_ID = [], Bid_ImpID = [], Bid_Price = 0, Bid_DealID = [], Bid_CrID = [], Bid_AdM = [],
     Bid_NURL = [], Bid_Exp = 0, Bid_W = 0, Bid_H = 0, Bid_ADomain = [], Bid_Cat = [], Bid_CatTax = 0,
     Bid_Dur = 0, Bid_MType = 0, Bid_Ext = None\<rparr>"

definition zero_PbsOrtbBid :: PbsOrtbBid where
  "zero_PbsOrtbBid = \<lparr>pb_Bid = None, pb_BidType = [], pb_BidTargets = [], pb_BidFloors = None,
     pb_DealPriority = 0, pb_DealTierSatisfied = False, pb_GeneratedBidID = [], pb_OriginalBidCPM = 0,
     pb_OriginalBidCur = [], pb_TargetBidderCode = [], pb_AdapterCode = []\<rparr>"

definition store_of :: "Bid list \<Rightarrow> store" where
  "store_of bs = (\<lambda>p. if p < length bs then zero_PbsOrtbBid\<lparr>pb_Bid := Some (bs ! p)\<rparr> else zero_PbsOrtbBid)"

section \<open>Non-bids of a response\<close>

record NonBidObject =
  nb_Price :: float64
  nb_ADomain :: "string list"
  nb_CatTax :: int
  nb_Cat :: "string list"
  nb_DealID :: string
  nb_W :: int
  nb_H :: int
  nb_Dur :: int
  nb_MType :: int
  nb_OriginalBidCPM :: float64
  nb_OriginalBidCur :: string

record NonBid =
  nb_ImpId :: string
  nb_StatusCode :: int
  nb_Ext :: "NonBidObject option"

text \<open>The builder is a map from seats to non-bids; \<open>None\<close> is the nil map.\<close>

type_synonym SeatNonBidBuilder = "(string, NonBid list) gomap option"

definition append_non_bids :: "string \<Rightarrow> NonBid list \<Rightarrow> (string, NonBid list) gomap \<Rightarrow> (string, NonBid list) gomap" where
  "append_non_bids seat ns m = map_put seat (map_get [] m seat @ ns) m"

definition rejectBid :: "PbsOrtbBid option \<Rightarrow> int \<Rightarrow> string \<Rightarrow> SeatNonBidBuilder \<Rightarrow> SeatNonBidBuilder" where
  "rejectBid bid nonBidReason seat b =
     (case b of None \<Rightarrow> None | Some m \<Rightarrow>
      case bid of None \<Rightarrow> b | Some pb \<Rightarrow>
      case pb_Bid pb of None \<Rightarrow> b | Some bd \<Rightarrow>
      Some (append_non_bids seat
        [\<lparr>nb_ImpId = Bid_ImpID bd, nb_StatusCode = nonBidReason,
          nb_Ext = Some \<lparr>nb_Price = Bid_Price bd, nb_ADomain = Bid_ADomain bd, nb_CatTax = Bid_CatTax bd,
            nb_Cat = Bid_Cat bd, nb_DealID = Bid_DealID bd, nb_W = Bid_W bd, nb_H = Bid_H bd,
            nb_Dur = Bid_Dur bd, nb_MType = Bid_MType bd, nb_OriginalBidCPM = pb_OriginalBidCPM pb,
            nb_OriginalBidCur = pb_OriginalBidCur pb\<rparr>\<rparr>] m))"

text \<open>Writing to a nil map panics: \<open>None\<close> in the outer option.\<close>

definition rejectImps :: "string list \<Rightarrow> int \<Rightarrow> string \<Rightarrow> SeatNonBidBuilder \<Rightarrow> SeatNonBidBuilder option" where
  "rejectImps impIds nonBidReason seat b =
     (let nonBids = map (\<lambda>impId. \<lparr>nb_ImpId = impId, nb_StatusCode = nonBidReason, nb_Ext = None\<rparr>) impIds in
      if length nonBids > 0
      then (case b of None \<Rightarrow> None | Some m \<Rightarrow> Some (Some (append_non_bids seat nonBids m)))
      else Some b)"

definition SeatNonBid_Slice :: "SeatNonBidBuilder \<Rightarrow> (string \<times> NonBid list) list" where
  "SeatNonBid_Slice b = opt_or b []"

fun append_builder :: "(string, NonBid list) gomap \<Rightarrow> (string, NonBid list) gomap \<Rightarrow> (string, NonBid list) gomap" where
  "append_builder b [] = b"
| "append_builder b ((seat, nonBids) # rest) = append_builder (append_non_bids seat nonBids b) rest"

definition SeatNonBid_append :: "SeatNonBidBuilder list \<Rightarrow> SeatNonBidBuilder \<Rightarrow> SeatNonBidBuilder" where
  "SeatNonBid_append others b =
     (case b of None \<Rightarrow> None | Some m \<Rightarrow> Some (fold (\<lambda>o' acc. append_builder acc (opt_or o' [])) others m))"

lemma map_get_append_non_bids:
  "map_get [] (append_non_bids s ns m) t = (if t = s then map_get [] m s @ ns else map_get [] m t)"
  by (simp add: append_non_bids_def map_get_def)

lemma wf_append_builder: "wf_map b \<Longrightarrow> wf_map (append_builder b m)"
  by (induction b m rule: append_builder.induct) (simp_all add: append_non_bids_def)

lemma map_get_append_builder:
  "wf_map m \<Longrightarrow> map_get [] (append_builder b m) t = map_get [] b t @ map_get [] m t"
proof (induction b m rule: append_builder.induct)
  case (2 b seat nonBids rest)
  have "map_get [] rest seat = []"
    using "2.prems" by (simp add: wf_map_def)
  with 2 show ?case
    by (auto simp: map_get_append_non_bids wf_map_def map_get_Cons)
qed simp

text \<open>
  Non-bids are neither lost nor duplicated: appending a sequence of builders gives every seat its own
  non-bids followed by those of each builder in turn, whatever the order in which each map is visited.
\<close>

theorem SeatNonBid_append_per_seat:
  assumes "\<forall>b \<in> set others. wf_map (opt_or b [])"
  shows "map_get [] (opt_or (SeatNonBid_append others (Some m)) []) seat =
     map_get [] m seat @ concat (map (\<lambda>b. map_get [] (opt_or b []) seat) others)"
  using assms unfolding SeatNonBid_append_def
  by (induction others arbitrary: m) (simp_all add: map_get_append_builder)

theorem SeatNonBid_append_per_seat_witness:
  "map_get [] (opt_or (SeatNonBid_append [None, Some [(''a'', [\<lparr>nb_ImpId = ''1'', nb_StatusCode = 300, nb_Ext = None\<rparr>])]]
      (Some [(''a'', [\<lparr>nb_ImpId = ''2'', nb_StatusCode = 0, nb_Ext = None\<rparr>])])) []) ''a'' =
     [\<lparr>nb_ImpId = ''2'', nb_StatusCode = 0, nb_Ext = None\<rparr>, \<lparr>nb_ImpId = ''1'', nb_StatusCode = 300, nb_Ext = None\<rparr>]"
  by (subst SeatNonBid_append_per_seat) (simp_all add: map_get_def wf_map_def)

end
