(* ===== verification/Macros.thy ===== *)
theory Macros
  imports Entities Gostrings
begin

text \<open>
  \<^verbatim>\<open>macros/\<close>: the provider of the values of the PBS macros (\<^verbatim>\<open>provider.go\<close>) and the replacer that puts them into tracker URLs
  (\<^verbatim>\<open>string_index_based_replacer.go\<close>), which works with a cached table of the positions of the macros of a URL. It is shown to compute
  what splitting the URL at the delimiters gives, for every URL and every state of its cache.
\<close>

section \<open>The provider\<close>

record MacroProvider =
  mp_macros :: "(string, string) gomap"

record MacroPublisher =
  mpb_ID :: string
  mpb_Domain :: string

record MacroApp =
  map_Bundle :: string
  map_Domain :: string
  map_Publisher :: "MacroPublisher option"

record MacroSite =
  mst_Page :: string
  mst_Domain :: string
  mst_Publisher :: "MacroPublisher option"

record MacroPrebid =
  mpr_Macros :: "(string, string) gomap"
  mpr_Integration :: string
  mpr_ChannelName :: "string option"

text \<open>The fields of the request the provider reads. \<open>mrq_Prebid = None\<close> also where the extension does not decode.\<close>

record MacroRequest =
  mrq_ID :: string
  mrq_Prebid :: "MacroPrebid option"
  mrq_App :: "MacroApp option"
  mrq_Site :: "MacroSite option"
  mrq_Consent :: "string option"  \<comment> \<open>\<open>None\<close>: no user\<close>
  mrq_Lmt :: "int option"  \<comment> \<open>\<open>None\<close>: no device or not set\<close>

definition truncate_runes :: "string \<Rightarrow> nat \<Rightarrow> string" where
  "truncate_runes text width = (let r = runes text in if length r < width then text else concat (take width r))"

definition set_macro :: "string \<Rightarrow> string \<Rightarrow> (string, string) gomap \<Rightarrow> (string, string) gomap" where
  "set_macro k v m = map_put k v m"

definition set_nonempty :: "string \<Rightarrow> string \<Rightarrow> (string, string) gomap \<Rightarrow> (string, string) gomap" where
  "set_nonempty k v m = (if v \<noteq> [] then set_macro k v m else m)"

definition CustomMacroPrefix :: string where
  "CustomMacroPrefix = ''PBS-MACRO-''"

fun custom_macros :: "(string, string) gomap \<Rightarrow> (string, string) gomap \<Rightarrow> (string, string) gomap" where
  "custom_macros [] m = m"
| "custom_macros ((key, v) # kvs) m = custom_macros kvs (set_macro (CustomMacroPrefix @ key) (truncate_runes v 100) m)"

definition prebid_macros :: "MacroPrebid option \<Rightarrow> (string, string) gomap \<Rightarrow> (string, string) gomap" where
  "prebid_macros prebid m =
     (case prebid of
        None \<Rightarrow> m
      | Some p \<Rightarrow>
          let m = custom_macros (mpr_Macros p) m;
              m = set_nonempty ''PBS-INTEGRATION'' (mpr_Integration p) m
          in (case mpr_ChannelName p of None \<Rightarrow> m | Some n \<Rightarrow> set_macro ''PBS-CHANNEL'' n m))"

definition publisher_macros :: "MacroPublisher option \<Rightarrow> (string, string) gomap \<Rightarrow> (string, string) gomap" where
  "publisher_macros pub m =
     (case pub of None \<Rightarrow> m | Some p \<Rightarrow> set_nonempty ''PBS-ACCOUNTID'' (mpb_ID p) (set_nonempty ''PBS-PUBDOMAIN'' (mpb_Domain p) m))"

definition app_macros :: "MacroApp option \<Rightarrow> (string, string) gomap \<Rightarrow> (string, string) gomap" where
  "app_macros app m =
     (case app of
        None \<Rightarrow> m
      | Some a \<Rightarrow> publisher_macros (map_Publisher a) (set_nonempty ''PBS-DOMAIN'' (map_Domain a) (set_nonempty ''PBS-APPBUNDLE'' (map_Bundle a) m)))"

definition site_macros :: "MacroSite option \<Rightarrow> (string, string) gomap \<Rightarrow> (string, string) gomap" where
  "site_macros site m =
     (case site of
        None \<Rightarrow> m
      | Some s \<Rightarrow> publisher_macros (mst_Publisher s) (set_nonempty ''PBS-DOMAIN'' (mst_Domain s) (set_nonempty ''PBS-PAGEURL'' (mst_Page s) m)))"

definition populateRequestMacros :: "int \<Rightarrow> MacroRequest \<Rightarrow> MacroProvider \<Rightarrow> MacroProvider" where
  "populateRequestMacros now req b =
     (let m = set_macro ''PBS-TIMESTAMP'' (FormatInt now) (mp_macros b);
          m = prebid_macros (mrq_Prebid req) m;
          m = set_macro ''PBS-AUCTIONID'' (mrq_ID req) m;
          m = site_macros (mrq_Site req) (app_macros (mrq_App req) m);
          m = (case mrq_Consent req of None \<Rightarrow> m | Some c \<Rightarrow> set_nonempty ''PBS-GDPRCONSENT'' c m);
          m = (case mrq_Lmt req of None \<Rightarrow> m | Some l \<Rightarrow> set_macro ''PBS-LIMITADTRACKING'' (FormatInt l) m)
      in b\<lparr>mp_macros := m\<rparr>)"

definition NewProvider :: "int \<Rightarrow> MacroRequest \<Rightarrow> MacroProvider" where
  "NewProvider now req = populateRequestMacros now req \<lparr>mp_macros = []\<rparr>"

definition GetMacro :: "MacroProvider \<Rightarrow> string \<Rightarrow> string" where
  "GetMacro b key = QueryEscape (map_get [] (mp_macros b) key)"

definition PopulateBidMacros :: "PbsOrtbBid \<Rightarrow> string \<Rightarrow> MacroProvider \<Rightarrow> MacroProvider" where
  "PopulateBidMacros bid seat b =
     (let m = mp_macros b;
          m = (case pb_Bid bid of
                 None \<Rightarrow> m
               | Some bd \<Rightarrow> set_macro ''PBS-BIDID'' (if pb_GeneratedBidID bid \<noteq> [] then pb_GeneratedBidID bid else Bid_ID bd) m)
      in b\<lparr>mp_macros := set_macro ''PBS-BIDDER'' seat m\<rparr>)"

definition PopulateEventMacros :: "string \<Rightarrow> string \<Rightarrow> string \<Rightarrow> MacroProvider \<Rightarrow> MacroProvider" where
  "PopulateEventMacros vastCreativeID eventType vastEvent b =
     b\<lparr>mp_macros := set_macro ''PBS-VASTEVENT'' vastEvent (set_macro ''PBS-EVENTTYPE'' eventType (set_macro ''PBS-VASTCRTID'' vastCreativeID (mp_macros b)))\<rparr>"

section \<open>The replacer\<close>

record urlMetaTemplate =
  startingIndices :: "int list"
  endingIndices :: "int list"

record stringIndexBasedReplacer =
  sr_templates :: "(string, urlMetaTemplate) gomap"

definition NewStringIndexBasedReplacer :: stringIndexBasedReplacer where
  "NewStringIndexBasedReplacer = \<lparr>sr_templates = []\<rparr>"

text \<open>The loop of \<^verbatim>\<open>constructTemplate\<close> from the index \<open>cur\<close> on; \<open>None\<close> is the panic of a slice out of range.\<close>

function template_from :: "string \<Rightarrow> int \<Rightarrow> (int list \<times> int list) option" where
  "template_from url cur =
     (case slice_from url cur of
        None \<Rightarrow> None
      | Some rest \<Rightarrow>
          let cur1 = cur + Index rest ''##''
          in if cur1 = -1 then Some ([], [])
             else
               let start = cur1 + 2
               in case slice_from url start of
                    None \<Rightarrow> None
                  | Some rest2 \<Rightarrow>
                      let e = Index rest2 ''##''
                      in if e = -1 then Some ([], [])
                         else
                           let ending = e + start - 1;
                               nxt = ending + 2 + 1
                           in if nxt \<ge> int (length url) - 1 then Some ([start], [ending])
                              else map_option (\<lambda>(ss, es). (start # ss, ending # es)) (template_from url nxt))"
  by pat_completeness auto
termination
proof (relation "measure (\<lambda>(url, cur). nat (int (length url) - cur))", goal_cases)
  case (2 url cur rest cur1 start rest2 e ending nxt)
  then show ?case using Index_ge [of rest "''##''"] Index_ge [of rest2 "''##''"] by simp
qed simp

declare template_from.simps [simp del]

definition constructTemplate :: "string \<Rightarrow> urlMetaTemplate option" where
  "constructTemplate url = map_option (\<lambda>(ss, es). \<lparr>startingIndices = ss, endingIndices = es\<rparr>) (template_from url 0)"

definition getTemplate :: "string \<Rightarrow> stringIndexBasedReplacer \<Rightarrow> (urlMetaTemplate \<times> stringIndexBasedReplacer) option" where
  "getTemplate url s =
     (case map_of (sr_templates s) url of
        Some t \<Rightarrow> Some (t, s)
      | None \<Rightarrow> (case constructTemplate url of None \<Rightarrow> None | Some t \<Rightarrow> Some (t, s\<lparr>sr_templates := map_put url t (sr_templates s)\<rparr>)))"

fun replace_loop :: "MacroProvider \<Rightarrow> string \<Rightarrow> int \<Rightarrow> int list \<Rightarrow> int list \<Rightarrow> string \<Rightarrow> string option" where
  "replace_loop mp url cur [] es result = map_option (\<lambda>rest. result @ rest) (slice_from url cur)"
| "replace_loop mp url cur (index # ss) [] result = None"
| "replace_loop mp url cur (index # ss) (ending # es) result =
    (case slice url index (ending + 1) of
       None \<Rightarrow> None
     | Some macro \<Rightarrow>
         (case slice url cur (index - 2) of
            None \<Rightarrow> None
          | Some part \<Rightarrow> replace_loop mp url (index + int (length macro) + 2) ss es (result @ part @ GetMacro mp macro)))"

text \<open>The text is appended to the builder; the cache of the replacer may gain a template.\<close>

definition Replace :: "MacroProvider \<Rightarrow> string \<Rightarrow> string \<Rightarrow> stringIndexBasedReplacer \<Rightarrow> (string \<times> stringIndexBasedReplacer) option" where
  "Replace mp result url s =
     (case getTemplate url s of
        None \<Rightarrow> None
      | Some (t, s') \<Rightarrow> map_option (\<lambda>r. (r, s')) (replace_loop mp url 0 (startingIndices t) (endingIndices t) result))"

section \<open>What the replacer computes\<close>

text \<open>
  The reference: a URL is a sequence of texts separated by the delimiter. Every second one is the name of a macro, if a delimiter
  closes it.
\<close>

fun split_delim :: "string \<Rightarrow> string list" where
  "split_delim (a # b # s) =
    (if a = CHR ''#'' \<and> b = CHR ''#'' then [] # split_delim s else (case split_delim (b # s) of [] \<Rightarrow> [[a]] | t # ts \<Rightarrow> (a # t) # ts))"
| "split_delim s = [s]"

fun weave :: "(string \<Rightarrow> string) \<Rightarrow> string list \<Rightarrow> string" where
  "weave f (p # m # q # r) = p @ f m @ weave f (q # r)"
| "weave f [p, m] = p @ ''##'' @ m"
| "weave f [p] = p"
| "weave f [] = []"

definition expand_macros :: "(string \<Rightarrow> string) \<Rightarrow> string \<Rightarrow> string" where
  "expand_macros f url = weave f (split_delim url)"

lemma split_delim_not_Nil [simp]: "split_delim s \<noteq> []"
  by (induction s rule: split_delim.induct) (auto split: list.split)

lemma split_delim_None: "find_sub ''##'' s = None \<Longrightarrow> split_delim s = [s]"
  by (induction s rule: split_delim.induct) (auto split: if_splits)

lemma split_delim_Some: "find_sub ''##'' s = Some n \<Longrightarrow> split_delim s = take n s # split_delim (drop (n + 2) s)"
proof (induction s arbitrary: n rule: split_delim.induct)
  case (1 a b s)
  then show ?case by (auto split: if_splits)
qed (auto split: if_splits)

lemma expand_macros_None: "find_sub ''##'' s = None \<Longrightarrow> expand_macros f s = s"
  by (simp add: expand_macros_def split_delim_None)

lemma expand_macros_open:
  "find_sub ''##'' s = Some n \<Longrightarrow> find_sub ''##'' (drop (n + 2) s) = None \<Longrightarrow> expand_macros f s = s"
  using find_sub_split [of "''##''" s n] by (simp add: expand_macros_def split_delim_None split_delim_Some)

lemma expand_macros_pair:
  assumes "find_sub ''##'' s = Some n" "find_sub ''##'' (drop (n + 2) s) = Some k"
  shows "expand_macros f s = take n s @ f (take k (drop (n + 2) s)) @ expand_macros f (drop (n + k + 4) s)"
proof -
  obtain q r where "split_delim (drop (n + k + 4) s) = q # r"
    by (cases "split_delim (drop (n + k + 4) s)") simp_all
  moreover have "drop (k + 2) (drop (n + 2) s) = drop (n + k + 4) s"
    by (simp add: numeral_eq_Suc add.commute)
  ultimately show ?thesis
    by (simp only: expand_macros_def split_delim_Some [OF assms(1)] split_delim_Some [OF assms(2)] weave.simps)
qed

lemma find_sub_short: "length s < length sub \<Longrightarrow> find_sub sub s = None"
  using find_sub_Some [of sub s] by (cases "find_sub sub s") auto

lemma find_sub_drop_None: "find_sub sub s = None \<Longrightarrow> sub \<noteq> [] \<Longrightarrow> find_sub sub (drop m s) = None"
  using find_sub_None [of sub s] find_sub_Some [of sub "drop m s"]
  by (cases "find_sub sub (drop m s)") (auto simp: prefix_def, metis append_take_drop_id)

text \<open>Where the search fails after a macro, the index only steps back by one, from where no delimiter is found either.\<close>

lemma template_from_correct:
  assumes "n = 0 \<or> n + 1 < length url"
  shows "\<exists>ss es. template_from url (int n) = Some (ss, es)
    \<and> (\<forall>result. replace_loop mp url (int n) ss es result = Some (result @ expand_macros (GetMacro mp) (drop n url)))"
  using assms
proof (induction "length url - n" arbitrary: n rule: less_induct)
  case less
  have n: "n \<le> length url" using less.prems by auto
  let ?rest = "drop n url"
  show ?case
  proof (cases "find_sub ''##'' ?rest")
    case None
    then have "find_sub ''##'' (drop (n + 1) url) = None"
      using find_sub_drop_None [OF None, of 1] by simp
    then have "template_from url (int n) = Some ([], [])"
      using None less.prems n slice_from_Some [of "n + 1" url] by (auto simp: template_from.simps [of url] Index_def Let_def)
    then show ?thesis using n by (simp add: expand_macros_None None)
  next
    case (Some k)
    define st where "st = n + k + 2"
    have st: "st \<le> length url" using find_sub_Some [OF Some] n by (auto simp: st_def)
    show ?thesis
    proof (cases "find_sub ''##'' (drop st url)")
      case None
      then have "template_from url (int n) = Some ([], [])"
      proof -
        have i1: "int n + Index ?rest ''##'' + 2 = int st" and i2: "Index (drop st url) ''##'' = -1"
          using Some None by (simp_all add: Index_def st_def)
        moreover have "int n + Index ?rest ''##'' \<noteq> -1" using i1 by (simp add: st_def)
        ultimately show ?thesis
          unfolding template_from.simps [of url "int n"] slice_from_Some [OF n] option.case Let_def i1 slice_from_Some [OF st] i2 by simp
      qed
      moreover have "expand_macros (GetMacro mp) ?rest = ?rest"
        using expand_macros_open [OF Some] None by (simp add: st_def add.commute)
      ultimately show ?thesis using n by simp
    next
      case s2: (Some j)
      define nx where "nx = st + j + 2"
      have nx: "nx \<le> length url" "st + j \<le> length url" using find_sub_Some [OF s2] st by (auto simp: nx_def)
      have step: "template_from url (int n) =
          (if int nx \<ge> int (length url) - 1 then Some ([int st], [int (st + j) - 1])
           else map_option (\<lambda>(ss, es). (int st # ss, (int (st + j) - 1) # es)) (template_from url (int nx)))"
      proof -
        have i1: "int n + Index ?rest ''##'' + 2 = int st" and i2: "Index (drop st url) ''##'' = int j"
          using Some s2 by (simp_all add: Index_def st_def)
        have f: "int n + Index ?rest ''##'' \<noteq> -1" "int j \<noteq> -1" "int j + int st - 1 = int (st + j) - 1" "int (st + j) - 1 + 2 + 1 = int nx"
          using i1 by (simp_all add: nx_def st_def)
        show ?thesis
          unfolding template_from.simps [of url "int n"] slice_from_Some [OF n] option.case Let_def i1 slice_from_Some [OF st] i2
          by (simp only: f if_False)
      qed
      have body: "replace_loop mp url (int n) (int st # ss) ((int (st + j) - 1) # es) result =
          replace_loop mp url (int nx) ss es (result @ take k ?rest @ GetMacro mp (take j (drop st url)))" for ss es result
      proof -
        have "slice url (int st) (int (st + j) - 1 + 1) = Some (take j (drop st url))"
          using slice_Some [of st "st + j" url] nx by simp
        moreover have "slice url (int n) (int st - 2) = Some (take k ?rest)"
          using slice_Some [of n "n + k" url] st by (simp add: st_def)
        moreover have "int st + int (length (take j (drop st url))) + 2 = int nx"
          using nx by (simp add: nx_def)
        ultimately show ?thesis by simp
      qed
      have pair: "expand_macros (GetMacro mp) ?rest = take k ?rest @ GetMacro mp (take j (drop st url)) @ expand_macros (GetMacro mp) (drop nx url)"
      proof -
        have "drop (k + 2) ?rest = drop st url" "drop (k + j + 4) ?rest = drop nx url"
          by (simp_all add: st_def nx_def numeral_eq_Suc add.commute add.left_commute)
        then show ?thesis using expand_macros_pair [OF Some, of j] s2 by simp
      qed
      show ?thesis
      proof (cases "int nx \<ge> int (length url) - 1")
        case True
        then have "expand_macros (GetMacro mp) (drop nx url) = drop nx url"
          by (intro expand_macros_None find_sub_short) auto
        moreover have "replace_loop mp url (int n) [int st] [int (st + j) - 1] result =
            Some (result @ take k ?rest @ GetMacro mp (take j (drop st url)) @ drop nx url)" for result
          unfolding body using nx by simp
        ultimately show ?thesis using True step pair by (intro exI [of _ "[int st]"] exI [of _ "[int (st + j) - 1]"]) simp
      next
        case False
        then have "length url - nx < length url - n" "nx + 1 < length url" by (simp_all add: nx_def st_def)
        then obtain ss es where r: "template_from url (int nx) = Some (ss, es)"
          "\<And>result. replace_loop mp url (int nx) ss es result = Some (result @ expand_macros (GetMacro mp) (drop nx url))"
          using less.hyps [of nx] by blast
        have "replace_loop mp url (int n) (int st # ss) ((int (st + j) - 1) # es) result =
            Some (result @ take k ?rest @ GetMacro mp (take j (drop st url)) @ expand_macros (GetMacro mp) (drop nx url))" for result
          unfolding body r(2) by simp
        then show ?thesis using False step r(1) pair by (intro exI [of _ "int st # ss"] exI [of _ "(int (st + j) - 1) # es"]) simp
      qed
    qed
  qed
qed

text \<open>The interface \<^verbatim>\<open>macros/replacer.go\<close>: a replacer with a cache that never shows.\<close>

locale macro_replacer =
  fixes repl :: "MacroProvider \<Rightarrow> string \<Rightarrow> string \<Rightarrow> 's \<Rightarrow> (string \<times> 's) option"
    and inv :: "'s \<Rightarrow> bool"
    and new :: 's
  assumes inv_new: "inv new"
    and repl_total: "inv s \<Longrightarrow> \<exists>s'. repl mp result url s = Some (result @ expand_macros (GetMacro mp) url, s') \<and> inv s'"
begin

fun repl_all :: "MacroProvider \<Rightarrow> string \<Rightarrow> string \<Rightarrow> string \<Rightarrow> string list \<Rightarrow> 's \<Rightarrow> (string \<times> 's) option" where
  "repl_all mp start stop result [] s = Some (result, s)"
| "repl_all mp start stop result (u # us) s =
    (case repl mp (result @ start) u s of None \<Rightarrow> None | Some (r, s') \<Rightarrow> repl_all mp start stop (r @ stop) us s')"

lemma repl_all_correct:
  "inv s \<Longrightarrow> \<exists>s'. repl_all mp start stop result us s =
     Some (result @ concat (map (\<lambda>u. start @ expand_macros (GetMacro mp) u @ stop) us), s') \<and> inv s'"
proof (induction us arbitrary: result s)
  case (Cons u us)
  obtain s1 where s1: "repl mp (result @ start) u s = Some ((result @ start) @ expand_macros (GetMacro mp) u, s1)" "inv s1"
    using repl_total [OF Cons.prems] by metis
  show ?case using Cons.IH [OF s1(2), of "result @ start @ expand_macros (GetMacro mp) u @ stop"] s1(1) by simp
qed simp

end

definition templates_ok :: "stringIndexBasedReplacer \<Rightarrow> bool" where
  "templates_ok s \<longleftrightarrow> (\<forall>url t. map_of (sr_templates s) url = Some t \<longrightarrow> constructTemplate url = Some t)"

lemma templates_ok_get:
  assumes "templates_ok s" "getTemplate url s = Some (t, s')"
  shows "constructTemplate url = Some t \<and> templates_ok s'"
  using assms by (auto simp: getTemplate_def templates_ok_def split: option.splits if_splits)

lemma Replace_total:
  assumes "templates_ok s"
  shows "\<exists>s'. Replace mp result url s = Some (result @ expand_macros (GetMacro mp) url, s') \<and> templates_ok s'"
proof -
  obtain ss es where t: "template_from url 0 = Some (ss, es)"
    "\<And>result. replace_loop mp url 0 ss es result = Some (result @ expand_macros (GetMacro mp) url)"
    using template_from_correct [of 0 url mp] by auto
  then have c: "constructTemplate url = Some \<lparr>startingIndices = ss, endingIndices = es\<rparr>"
    by (simp add: constructTemplate_def)
  then obtain tm s' where g: "getTemplate url s = Some (tm, s')"
    by (cases "map_of (sr_templates s) url") (auto simp: getTemplate_def)
  with templates_ok_get [OF assms g] t(2) c show ?thesis by (auto simp: Replace_def)
qed

interpretation sr: macro_replacer Replace templates_ok NewStringIndexBasedReplacer
  by unfold_locales (simp add: templates_ok_def NewStringIndexBasedReplacer_def, rule Replace_total)

text \<open>The replacements of a process, one after the other, with the providers of their auctions and one replacer.\<close>

fun run_replaces :: "(MacroProvider \<times> string) list \<Rightarrow> stringIndexBasedReplacer \<Rightarrow> (string list \<times> stringIndexBasedReplacer) option" where
  "run_replaces [] s = Some ([], s)"
| "run_replaces ((mp, url) # calls) s =
    (case Replace mp [] url s of
       None \<Rightarrow> None
     | Some (r, s') \<Rightarrow> map_option (\<lambda>(rs, s''). (r # rs, s'')) (run_replaces calls s'))"

lemma run_replaces_from:
  "templates_ok s \<Longrightarrow> map_option fst (run_replaces calls s) = Some (map (\<lambda>(mp, url). expand_macros (GetMacro mp) url) calls)"
proof (induction calls arbitrary: s)
  case (Cons call calls)
  obtain mp url where call: "call = (mp, url)" by (cases call)
  obtain s' where s': "Replace mp [] url s = Some (expand_macros (GetMacro mp) url, s')" "templates_ok s'"
    using sr.repl_total [OF Cons.prems, of mp "[]" url] by auto
  have "map_option fst (run_replaces (call # calls) s) = map_option ((#) (expand_macros (GetMacro mp) url)) (map_option fst (run_replaces calls s'))"
    using s'(1) by (cases "run_replaces calls s'") (auto simp: call)
  also have "\<dots> = Some (map (\<lambda>(mp, url). expand_macros (GetMacro mp) url) (call # calls))"
    by (simp add: Cons.IH [OF s'(2)] call)
  finally show ?case .
qed simp

text \<open>
  C8. Macro replacement is what splitting the URL at the delimiter \<^verbatim>\<open>##\<close> gives: every second piece that is closed is the name of a macro and
  becomes its escaped value, everything else is kept, also a delimiter without a partner. This holds for every sequence of URLs and
  providers on one replacer, so the cache of templates never shows, no slice is out of range, and the index that steps back when the
  search for the next macro fails does no harm.
\<close>
theorem replaces_expand:
  "map_option fst (run_replaces calls NewStringIndexBasedReplacer) = Some (map (\<lambda>(mp, url). expand_macros (GetMacro mp) url) calls)"
  by (rule run_replaces_from) (rule sr.inv_new)

section \<open>What the provider knows\<close>

lemma map_get_set_macro [simp]: "map_get z (set_macro k v m) t = (if t = k then v else map_get z m t)"
  by (simp add: set_macro_def map_get_def)

lemma map_get_set_nonempty [simp]: "map_get z (set_nonempty k v m) t = (if t = k \<and> v \<noteq> [] then v else map_get z m t)"
  by (simp add: set_nonempty_def)

lemma map_get_custom_other: "\<not> prefix CustomMacroPrefix t \<Longrightarrow> map_get z (custom_macros kvs m) t = map_get z m t"
  by (induction kvs m rule: custom_macros.induct) (auto simp: prefix_def)

lemma map_get_custom:
  "wf_map kvs \<Longrightarrow> map_get z (custom_macros kvs m) (CustomMacroPrefix @ k) =
     (case map_of kvs k of None \<Rightarrow> map_get z m (CustomMacroPrefix @ k) | Some v \<Rightarrow> truncate_runes v 100)"
proof (induction kvs m rule: custom_macros.induct)
  case (2 key v kvs m)
  then have "wf_map kvs" "map_of kvs key = None" by (auto simp: wf_map_def map_of_eq_None_iff)
  then show ?case using "2.IH" by (auto split: option.split)
qed simp

lemma map_get_publisher_other:
  "t \<noteq> ''PBS-ACCOUNTID'' \<Longrightarrow> t \<noteq> ''PBS-PUBDOMAIN'' \<Longrightarrow> map_get z (publisher_macros p m) t = map_get z m t"
  by (simp add: publisher_macros_def split: option.split)

lemma builtin_not_custom:
  "CustomMacroPrefix @ k \<notin> {''PBS-TIMESTAMP'', ''PBS-INTEGRATION'', ''PBS-CHANNEL'', ''PBS-AUCTIONID'', ''PBS-DOMAIN'', ''PBS-APPBUNDLE'',
     ''PBS-ACCOUNTID'', ''PBS-PUBDOMAIN'', ''PBS-PAGEURL'', ''PBS-GDPRCONSENT'', ''PBS-LIMITADTRACKING''}"
  by (simp add: CustomMacroPrefix_def)

text \<open>After the macros of the extension only fixed names are set, from what was there before.\<close>

lemma request_macros_custom:
  "map_get z (mp_macros (NewProvider now req)) (CustomMacroPrefix @ k) =
     map_get z (prebid_macros (mrq_Prebid req) [(''PBS-TIMESTAMP'', FormatInt now)]) (CustomMacroPrefix @ k)"
  using builtin_not_custom [of k]
  by (simp add: NewProvider_def populateRequestMacros_def Let_def app_macros_def site_macros_def map_get_publisher_other set_macro_def [of _ _ "[]"]
      split: option.split)

text \<open>Each group of macros changes a name alike in every map.\<close>

lemma macro_groups_cong:
  assumes "map_get z m t = map_get z m' t"
  shows "map_get z (set_macro k v m) t = map_get z (set_macro k v m') t"
    and "map_get z (set_nonempty k v m) t = map_get z (set_nonempty k v m') t"
    and "map_get z (publisher_macros p m) t = map_get z (publisher_macros p m') t"
    and "map_get z (app_macros a m) t = map_get z (app_macros a m') t"
    and "map_get z (site_macros st m) t = map_get z (site_macros st m') t"
proof -
  have pub: "map_get z (publisher_macros p m) t = map_get z (publisher_macros p m') t"
    if "map_get z m t = map_get z m' t" for p m m'
    using that by (simp add: publisher_macros_def split: option.split)
  show "map_get z (publisher_macros p m) t = map_get z (publisher_macros p m') t" using assms by (rule pub)
  show "map_get z (app_macros a m) t = map_get z (app_macros a m') t"
    using assms by (cases a) (simp_all add: app_macros_def pub)
  show "map_get z (site_macros st m) t = map_get z (site_macros st m') t"
    using assms by (cases st) (simp_all add: site_macros_def pub)
qed (use assms in simp_all)

lemma populate_cong:
  assumes "\<And>m. map_get [] (prebid_macros q m) t = map_get [] (prebid_macros q' m) t"
  shows "GetMacro (NewProvider now (req\<lparr>mrq_Prebid := q\<rparr>)) t = GetMacro (NewProvider now (req\<lparr>mrq_Prebid := q'\<rparr>)) t"
proof -
  define base where "base q = site_macros (mrq_Site req) (app_macros (mrq_App req) (set_macro ''PBS-AUCTIONID'' (mrq_ID req)
    (prebid_macros q (set_macro ''PBS-TIMESTAMP'' (FormatInt now) []))))" for q
  have "map_get [] (base q) t = map_get [] (base q') t"
    unfolding base_def by (intro macro_groups_cong assms)
  moreover have "mp_macros (NewProvider now (req\<lparr>mrq_Prebid := q\<rparr>)) =
      (let m = (case mrq_Consent req of None \<Rightarrow> base q | Some c \<Rightarrow> set_nonempty ''PBS-GDPRCONSENT'' c (base q))
       in case mrq_Lmt req of None \<Rightarrow> m | Some l \<Rightarrow> set_macro ''PBS-LIMITADTRACKING'' (FormatInt l) m)" for q
    by (simp add: NewProvider_def populateRequestMacros_def Let_def base_def split: option.split)
  ultimately show ?thesis
    by (cases "mrq_Consent req"; cases "mrq_Lmt req") (simp_all add: GetMacro_def)
qed

lemma truncate_runes_length: "ValidString v \<Longrightarrow> \<exists>w. v = truncate_runes v n @ w"
  using concat_runes [of "length v" v] concat_append [of "take n (runes v)" "drop n (runes v)"]
  by (auto simp: truncate_runes_def ValidString_def Let_def)

text \<open>
  Macros a request brings along cannot shadow the macros of the server: a name without the prefix \<^verbatim>\<open>PBS-MACRO-\<close> has the same value as
  without them, and with the prefix it has the escaped first hundred characters of the value the request gives.
\<close>
theorem custom_macros_isolated:
  assumes "mrq_Prebid req = Some p" "wf_map (mpr_Macros p)"
  shows "(\<forall>t. \<not> prefix CustomMacroPrefix t \<longrightarrow>
      GetMacro (NewProvider now req) t = GetMacro (NewProvider now (req\<lparr>mrq_Prebid := Some (p\<lparr>mpr_Macros := []\<rparr>)\<rparr>)) t)
    \<and> (\<forall>k. GetMacro (NewProvider now req) (CustomMacroPrefix @ k) =
      (case map_of (mpr_Macros p) k of None \<Rightarrow> [] | Some v \<Rightarrow> QueryEscape (truncate_runes v 100)))"
proof (intro conjI allI impI)
  fix t
  assume t: "\<not> prefix CustomMacroPrefix t"
  have "map_get [] (prebid_macros (Some p) m) t = map_get [] (prebid_macros (Some (p\<lparr>mpr_Macros := []\<rparr>)) m) t" for m
    by (simp add: prebid_macros_def Let_def map_get_custom_other [OF t] split: option.split)
  moreover have "req\<lparr>mrq_Prebid := Some p\<rparr> = req" using assms(1) by (cases req) simp
  ultimately show "GetMacro (NewProvider now req) t = GetMacro (NewProvider now (req\<lparr>mrq_Prebid := Some (p\<lparr>mpr_Macros := []\<rparr>)\<rparr>)) t"
    using populate_cong [of "Some p" t "Some (p\<lparr>mpr_Macros := []\<rparr>)" now req] by simp
next
  fix k
  show "GetMacro (NewProvider now req) (CustomMacroPrefix @ k) =
      (case map_of (mpr_Macros p) k of None \<Rightarrow> [] | Some v \<Rightarrow> QueryEscape (truncate_runes v 100))"
    using builtin_not_custom [of k] map_get_custom [OF assms(2)]
    by (simp add: GetMacro_def request_macros_custom assms(1) prebid_macros_def Let_def map_get_Cons split: option.split)
qed

definition macro_request :: MacroRequest where
  "macro_request = \<lparr>mrq_ID = ''req'', mrq_Prebid = Some \<lparr>mpr_Macros = [(''a'', ''x y'')], mpr_Integration = ''i'', mpr_ChannelName = None\<rparr>,
     mrq_App = None, mrq_Site = None, mrq_Consent = None, mrq_Lmt = Some 1\<rparr>"

theorem custom_macros_isolated_witness:
  "GetMacro (NewProvider 7 macro_request) ''PBS-MACRO-a'' = ''x+y''"
proof -
  have "QueryEscape (truncate_runes ''x y'' 100) = ''x+y''" by code_simp
  then show ?thesis
    using conjunct2 [OF custom_macros_isolated [of macro_request _ 7], THEN spec, of _ "''a''"]
    by (simp add: macro_request_def CustomMacroPrefix_def wf_map_def)
qed

end
