(* ===== verification/VastInjector.thy ===== *)
theory VastInjector
  imports Macros
begin

text \<open>
  \<^verbatim>\<open>injector/injector.go\<close>: the state machine that copies a VAST document token by token and writes the trackers of the account into it.
  The decoder of \<^verbatim>\<open>encoding/xml\<close> is an argument, a function from a document to its raw tokens. The encoder keeps the open tags and what it
  has not flushed, since trackers are written past it to the same builder. The output is a list of pieces; a piece that a tracker
  writer made is marked with the writer.
\<close>

section \<open>Tokens and the encoder\<close>

type_synonym xml_name = "string \<times> string"  \<comment> \<open>\<^verbatim>\<open>Space\<close>, \<^verbatim>\<open>Local\<close>\<close>

datatype xml_token =
    StartElement xml_name "(xml_name \<times> string) list"
  | EndElement xml_name
  | CharData string
  | OtherToken string  \<comment> \<open>comments, processing instructions and directives\<close>

datatype tracker_kind = TrackingEv | ClickEv | ImpressionEv | ErrorEv | NonLinearEv | CompanionEv

datatype piece = Encoded xml_token | CDATA string | Injected tracker_kind string

record xml_encoder =
  en_tags :: "xml_name list"
  en_buffer :: "piece list"

datatype inj_error = InjPanic | XmlProcessing

record VASTEvents =
  ve_Errors :: "string list"
  ve_Impressions :: "string list"
  ve_VideoClicks :: "string list"
  ve_NonLinearClickTracking :: "string list"
  ve_CompanionClickThrough :: "string list"
  ve_TrackingEvents :: "(string, string list) gomap"

record InjectionState =
  injectTracker :: bool
  injectVideoClicks :: bool
  inlineWrapperTagFound :: bool
  wrapperTagFound :: bool
  impressionTagFound :: bool
  errorTagFound :: bool
  creativeId :: string
  isCreative :: bool
  companionTagFound :: bool
  nonLinearTagFound :: bool

text \<open>The variables of \<^verbatim>\<open>InjectTracker\<close>, with the provider and the replacer of the injector.\<close>

record injection =
  ij_state :: InjectionState
  ij_encoder :: xml_encoder
  ij_output :: "piece list"
  ij_provider :: MacroProvider
  ij_replacer :: stringIndexBasedReplacer

definition initial_state :: InjectionState where
  "initial_state = \<lparr>injectTracker = False, injectVideoClicks = False, inlineWrapperTagFound = False, wrapperTagFound = False,
     impressionTagFound = False, errorTagFound = False, creativeId = [], isCreative = False, companionTagFound = False, nonLinearTagFound = False\<rparr>"

fun and_then :: "'e + 'a \<Rightarrow> ('a \<Rightarrow> 'e + 'b) \<Rightarrow> 'e + 'b" where
  "and_then (Inl e) f = Inl e"
| "and_then (Inr x) f = f x"

text \<open>
  \<^verbatim>\<open>EncodeToken\<close>: an end tag must match the last open tag; a start tag needs a name. Of other tokens the encoder refuses some
  (\<open>other_ok\<close>, which sees whether the buffer is empty). A refused token changes nothing.
\<close>

definition encode_token :: "(string \<Rightarrow> bool \<Rightarrow> bool) \<Rightarrow> xml_token \<Rightarrow> xml_encoder \<Rightarrow> xml_encoder option" where
  "encode_token other_ok tok e =
     (let e' = e\<lparr>en_buffer := en_buffer e @ [Encoded tok]\<rparr> in
      case tok of
        StartElement n attrs \<Rightarrow> if snd n = [] then None else Some (e'\<lparr>en_tags := n # en_tags e\<rparr>)
      | EndElement n \<Rightarrow> (case en_tags e of t # ts \<Rightarrow> if snd n \<noteq> [] \<and> t = n then Some (e'\<lparr>en_tags := ts\<rparr>) else None | [] \<Rightarrow> None)
      | CharData s \<Rightarrow> Some e'
      | OtherToken s \<Rightarrow> if other_ok s (en_buffer e = []) then Some e' else None)"

definition EncodeToken :: "(string \<Rightarrow> bool \<Rightarrow> bool) \<Rightarrow> xml_token \<Rightarrow> injection \<Rightarrow> inj_error + injection" where
  "EncodeToken other_ok tok j =
     (case encode_token other_ok tok (ij_encoder j) of None \<Rightarrow> Inl XmlProcessing | Some e \<Rightarrow> Inr (j\<lparr>ij_encoder := e\<rparr>))"

definition Flush :: "injection \<Rightarrow> injection" where
  "Flush j = j\<lparr>ij_output := ij_output j @ en_buffer (ij_encoder j), ij_encoder := (ij_encoder j)\<lparr>en_buffer := []\<rparr>\<rparr>"

section \<open>The writers of trackers\<close>

fun write_urls :: "MacroProvider \<Rightarrow> string \<Rightarrow> string \<Rightarrow> string \<Rightarrow> string list \<Rightarrow> stringIndexBasedReplacer \<Rightarrow> (string \<times> stringIndexBasedReplacer) option" where
  "write_urls mp startTag endTag result [] s = Some (result, s)"
| "write_urls mp startTag endTag result (url # urls) s =
    (case Replace mp (result @ startTag) url s of
       None \<Rightarrow> None
     | Some (r, s') \<Rightarrow> write_urls mp startTag endTag (r @ endTag) urls s')"

definition writeTrackingEvent ::
    "tracker_kind \<Rightarrow> string list \<Rightarrow> string \<Rightarrow> string \<Rightarrow> string \<Rightarrow> string \<Rightarrow> string \<Rightarrow> injection \<Rightarrow> inj_error + injection" where
  "writeTrackingEvent kind urls startTag endTag crid eventType vastEvent j =
     (let mp = PopulateEventMacros crid eventType vastEvent (ij_provider j) in
      case write_urls mp startTag endTag [] urls (ij_replacer j) of
        None \<Rightarrow> Inl InjPanic
      | Some (text, s) \<Rightarrow> Inr (j\<lparr>ij_provider := mp, ij_replacer := s, ij_output := ij_output j @ [Injected kind text]\<rparr>))"

definition write_raw :: "tracker_kind \<Rightarrow> string \<Rightarrow> injection \<Rightarrow> injection" where
  "write_raw kind s j = j\<lparr>ij_output := ij_output j @ [Injected kind s]\<rparr>"

definition trackingStartTag :: "string \<Rightarrow> string" where
  "trackingStartTag ty = ''<Tracking event='' @ [CHR 0x22] @ ty @ [CHR 0x22] @ ''><![CDATA[''"

fun tracking_events :: "(string, string list) gomap \<Rightarrow> string \<Rightarrow> injection \<Rightarrow> inj_error + injection" where
  "tracking_events [] crid j = Inr j"
| "tracking_events ((ty, urls) # evs) crid j =
    and_then (writeTrackingEvent TrackingEv urls (trackingStartTag ty) '']]></Tracking>'' crid ty ''tracking'' j)
      (tracking_events evs crid)"

definition in_parent :: "tracker_kind \<Rightarrow> bool \<Rightarrow> string \<Rightarrow> string \<Rightarrow> (injection \<Rightarrow> inj_error + injection) \<Rightarrow> injection \<Rightarrow> inj_error + injection" where
  "in_parent kind addParentTag opn cls body j =
     and_then (body (if addParentTag then write_raw kind opn j else j)) (\<lambda>j. Inr (if addParentTag then write_raw kind cls j else j))"

definition addTrackingEvent :: "VASTEvents \<Rightarrow> string \<Rightarrow> bool \<Rightarrow> injection \<Rightarrow> inj_error + injection" where
  "addTrackingEvent ev crid addParentTag =
     in_parent TrackingEv addParentTag ''<TrackingEvents>'' ''</TrackingEvents>'' (tracking_events (ve_TrackingEvents ev) crid)"

definition addClickTrackingEvent :: "VASTEvents \<Rightarrow> string \<Rightarrow> bool \<Rightarrow> injection \<Rightarrow> inj_error + injection" where
  "addClickTrackingEvent ev crid addParentTag =
     in_parent ClickEv addParentTag ''<VideoClicks>'' ''</VideoClicks>''
       (writeTrackingEvent ClickEv (ve_VideoClicks ev) ''<ClickTracking><![CDATA['' '']]></ClickTracking>'' crid [] ''clicktracking'')"

definition addImpressionTrackingEvent :: "VASTEvents \<Rightarrow> injection \<Rightarrow> inj_error + injection" where
  "addImpressionTrackingEvent ev =
     writeTrackingEvent ImpressionEv (ve_Impressions ev) ''<Impression><![CDATA['' '']]></Impression>'' [] [] ''impression''"

definition addErrorTrackingEvent :: "VASTEvents \<Rightarrow> injection \<Rightarrow> inj_error + injection" where
  "addErrorTrackingEvent ev = writeTrackingEvent ErrorEv (ve_Errors ev) ''<Error><![CDATA['' '']]></Error>'' [] [] ''error''"

definition addNonLinearClickTrackingEvent :: "VASTEvents \<Rightarrow> string \<Rightarrow> bool \<Rightarrow> injection \<Rightarrow> inj_error + injection" where
  "addNonLinearClickTrackingEvent ev crid addParentTag =
     in_parent NonLinearEv addParentTag ''<NonLinear>'' ''</NonLinear>''
       (writeTrackingEvent NonLinearEv (ve_NonLinearClickTracking ev) ''<NonLinearClickTracking><![CDATA['' '']]></NonLinearClickTracking>'' crid []
          ''nonlinearclicktracking'')"

definition addCompanionClickThroughEvent :: "VASTEvents \<Rightarrow> string \<Rightarrow> bool \<Rightarrow> injection \<Rightarrow> inj_error + injection" where
  "addCompanionClickThroughEvent ev crid addParentTag =
     in_parent CompanionEv addParentTag ''<Companion>'' ''</Companion>''
       (writeTrackingEvent CompanionEv (ve_CompanionClickThrough ev) ''<CompanionClickThrough><![CDATA['' '']]></CompanionClickThrough>'' crid []
          ''companionclickthrough'')"

section \<open>The handlers\<close>

abbreviation upd_state :: "(InjectionState \<Rightarrow> InjectionState) \<Rightarrow> injection \<Rightarrow> injection" where
  "upd_state f j \<equiv> j\<lparr>ij_state := f (ij_state j)\<rparr>"

fun creative_id :: "(xml_name \<times> string) list \<Rightarrow> string \<Rightarrow> string" where
  "creative_id [] c = c"
| "creative_id ((n, v) # attrs) c = creative_id attrs (if ToLower (snd n) = ''adid'' then v else c)"

definition handleStartElement :: "(string \<Rightarrow> bool \<Rightarrow> bool) \<Rightarrow> VASTEvents \<Rightarrow> xml_name \<Rightarrow> (xml_name \<times> string) list \<Rightarrow> injection \<Rightarrow> inj_error + injection" where
  "handleStartElement other_ok ev name attrs j =
     (let tok = StartElement name attrs; encode = EncodeToken other_ok tok; local = snd name in
      if local = ''Wrapper'' then encode (upd_state (\<lambda>s. s\<lparr>wrapperTagFound := True\<rparr>) j)
      else if local = ''Creative'' then encode (upd_state (\<lambda>s. s\<lparr>isCreative := True, creativeId := creative_id attrs (creativeId s)\<rparr>) j)
      else if local = ''Linear'' then encode (upd_state (\<lambda>s. s\<lparr>injectVideoClicks := True, injectTracker := True\<rparr>) j)
      else if local = ''VideoClicks'' then
        and_then (encode (upd_state (\<lambda>s. s\<lparr>injectVideoClicks := False\<rparr>) j))
          (\<lambda>j. addClickTrackingEvent ev (creativeId (ij_state j)) False (Flush j))
      else if local = ''NonLinearAds'' then encode (upd_state (\<lambda>s. s\<lparr>injectTracker := True\<rparr>) j)
      else if local = ''TrackingEvents'' then
        (if isCreative (ij_state j) then
           and_then (encode (upd_state (\<lambda>s. s\<lparr>injectTracker := False\<rparr>) j))
             (\<lambda>j. addTrackingEvent ev (creativeId (ij_state j)) False (Flush j))
         else Inr j)
      else encode j)"

definition do_if :: "bool \<Rightarrow> (injection \<Rightarrow> inj_error + injection) \<Rightarrow> injection \<Rightarrow> inj_error + injection" where
  "do_if c f j = (if c then f j else Inr j)"

definition end_impression :: "VASTEvents \<Rightarrow> injection \<Rightarrow> inj_error + injection" where
  "end_impression ev j =
     (if \<not> impressionTagFound (ij_state j)
      then and_then (addImpressionTrackingEvent ev j) (\<lambda>j. Inr (upd_state (\<lambda>s. s\<lparr>impressionTagFound := True\<rparr>) j)) else Inr j)"

definition end_error :: "VASTEvents \<Rightarrow> injection \<Rightarrow> inj_error + injection" where
  "end_error ev j =
     (if \<not> errorTagFound (ij_state j)
      then and_then (addErrorTrackingEvent ev j) (\<lambda>j. Inr (upd_state (\<lambda>s. s\<lparr>errorTagFound := True\<rparr>) j)) else Inr j)"

text \<open>The end tag is written only where the trackers are.\<close>

definition end_non_linear_ads :: "VASTEvents \<Rightarrow> (injection \<Rightarrow> inj_error + injection) \<Rightarrow> injection \<Rightarrow> inj_error + injection" where
  "end_non_linear_ads ev encode j =
     (if injectTracker (ij_state j) then
        and_then (addTrackingEvent ev (creativeId (ij_state j)) True (Flush (upd_state (\<lambda>s. s\<lparr>injectTracker := False\<rparr>) j)))
          (\<lambda>j. and_then (do_if (\<not> nonLinearTagFound (ij_state j) \<and> wrapperTagFound (ij_state j))
                           (addNonLinearClickTrackingEvent ev (creativeId (ij_state j)) True) j) encode)
      else Inr j)"

text \<open>The result of writing the end tag is ignored.\<close>

definition end_linear :: "VASTEvents \<Rightarrow> (injection \<Rightarrow> inj_error + injection) \<Rightarrow> injection \<Rightarrow> inj_error + injection" where
  "end_linear ev encode j =
     and_then (do_if (injectVideoClicks (ij_state j))
         (\<lambda>j. addClickTrackingEvent ev (creativeId (ij_state j)) True (Flush (upd_state (\<lambda>s. s\<lparr>injectVideoClicks := False\<rparr>) j))) j)
       (\<lambda>j. and_then (do_if (injectTracker (ij_state j))
           (\<lambda>j. addTrackingEvent ev (creativeId (ij_state j)) True (Flush (upd_state (\<lambda>s. s\<lparr>injectTracker := False\<rparr>) j))) j)
         (\<lambda>j. case encode j of Inl _ \<Rightarrow> Inr j | Inr j' \<Rightarrow> Inr j'))"

definition end_ad :: "VASTEvents \<Rightarrow> (injection \<Rightarrow> inj_error + injection) \<Rightarrow> injection \<Rightarrow> inj_error + injection" where
  "end_ad ev encode j =
     (let j = Flush (upd_state (\<lambda>s. s\<lparr>wrapperTagFound := False, inlineWrapperTagFound := True\<rparr>) j) in
      and_then (do_if (\<not> impressionTagFound (ij_state j)) (addImpressionTrackingEvent ev) j)
        (\<lambda>j. let j = upd_state (\<lambda>s. s\<lparr>impressionTagFound := False\<rparr>) j in
          and_then (do_if (\<not> errorTagFound (ij_state j)) (addErrorTrackingEvent ev) j)
            (\<lambda>j. encode (upd_state (\<lambda>s. s\<lparr>errorTagFound := False\<rparr>) j))))"

definition handleEndElement :: "(string \<Rightarrow> bool \<Rightarrow> bool) \<Rightarrow> VASTEvents \<Rightarrow> xml_name \<Rightarrow> injection \<Rightarrow> inj_error + injection" where
  "handleEndElement other_ok ev name j =
     (let encode = EncodeToken other_ok (EndElement name); local = snd name in
      if local = ''Impression'' then and_then (encode j) (\<lambda>j. end_impression ev (Flush j))
      else if local = ''Error'' then and_then (encode j) (\<lambda>j. end_error ev (Flush j))
      else if local = ''NonLinearAds'' then end_non_linear_ads ev encode j
      else if local = ''Linear'' then end_linear ev encode j
      else if local = ''InLine'' \<or> local = ''Wrapper'' then end_ad ev encode j
      else if local = ''NonLinear'' then
        and_then (addNonLinearClickTrackingEvent ev (creativeId (ij_state j)) False (Flush j))
          (\<lambda>j. encode (upd_state (\<lambda>s. s\<lparr>nonLinearTagFound := True\<rparr>) j))
      else if local = ''Companion'' then
        and_then (addCompanionClickThroughEvent ev (creativeId (ij_state j)) False (Flush (upd_state (\<lambda>s. s\<lparr>companionTagFound := True\<rparr>) j))) encode
      else if local = ''Creative'' then encode (upd_state (\<lambda>s. s\<lparr>isCreative := False\<rparr>) j)
      else if local = ''CompanionAds'' then
        and_then (do_if (\<not> companionTagFound (ij_state j) \<and> wrapperTagFound (ij_state j))
            (\<lambda>j. addCompanionClickThroughEvent ev (creativeId (ij_state j)) True (Flush j)) j) encode
      else encode j)"

definition trim_char :: "char \<Rightarrow> bool" where
  "trim_char c \<longleftrightarrow> byte_val c \<in> {9, 13, 8, 10, 32}"

definition Trim :: "string \<Rightarrow> string" where
  "Trim s = rev (dropWhile trim_char (rev (dropWhile trim_char s)))"

definition handle_token :: "(string \<Rightarrow> bool \<Rightarrow> bool) \<Rightarrow> VASTEvents \<Rightarrow> xml_token \<Rightarrow> injection \<Rightarrow> inj_error + injection" where
  "handle_token other_ok ev tok j =
     (case tok of
        StartElement n attrs \<Rightarrow> handleStartElement other_ok ev n attrs j
      | EndElement n \<Rightarrow> handleEndElement other_ok ev n j
      | CharData s \<Rightarrow>
          (let charData = Trim s; j' = Flush j in
           if charData \<noteq> [] then Inr (j'\<lparr>ij_output := ij_output j' @ [CDATA charData]\<rparr>) else Inr j)
      | OtherToken s \<Rightarrow> EncodeToken other_ok tok j)"

fun token_loop :: "(string \<Rightarrow> bool \<Rightarrow> bool) \<Rightarrow> VASTEvents \<Rightarrow> xml_token list \<Rightarrow> injection \<Rightarrow> inj_error + injection" where
  "token_loop other_ok ev [] j = Inr j"
| "token_loop other_ok ev (tok # toks) j = and_then (handle_token other_ok ev tok j) (token_loop other_ok ev toks)"

record TrackerInjector =
  ti_replacer :: stringIndexBasedReplacer
  ti_provider :: MacroProvider
  ti_events :: VASTEvents

datatype inject_result = InvalidVast | EmptyAdm string | ProcessingError | NoAdTag | Injection "piece list" | Panicked

text \<open>
  The raw tokens of the document, and whether the decoder stopped at a syntax error instead of the end. \<open>EmptyAdm\<close> is the wrapper around
  the notice URL; \<open>InvalidVast\<close> and \<open>NoAdTag\<close> return the document as it was, with an error.
\<close>

definition InjectTracker :: "(string \<Rightarrow> xml_token list \<times> bool) \<Rightarrow> (string \<Rightarrow> bool \<Rightarrow> bool) \<Rightarrow> TrackerInjector \<Rightarrow> string \<Rightarrow> string \<Rightarrow> inject_result" where
  "InjectTracker raw other_ok ti vastXML NURL =
     (if vastXML = [] \<and> NURL = [] then InvalidVast
      else if vastXML = [] then
        EmptyAdm (''<VAST version='' @ [CHR 0x22] @ ''3.0'' @ [CHR 0x22] @ ''><Ad><Wrapper><AdSystem>prebid.org wrapper</AdSystem><VASTAdTagURI><![CDATA['' @ NURL
          @ '']]></VASTAdTagURI><Impression></Impression><Creatives></Creatives></Wrapper></Ad></VAST>'')
      else
        (case token_loop other_ok (ti_events ti) (fst (raw vastXML))
            \<lparr>ij_state = initial_state, ij_encoder = \<lparr>en_tags = [], en_buffer = []\<rparr>, ij_output = [], ij_provider = ti_provider ti, ij_replacer = ti_replacer ti\<rparr> of
           Inl InjPanic \<Rightarrow> Panicked
         | Inl XmlProcessing \<Rightarrow> ProcessingError
         | Inr j \<Rightarrow>
             if snd (raw vastXML) then ProcessingError
             else if \<not> inlineWrapperTagFound (ij_state j) then NoAdTag
             else Injection (ij_output (Flush j))))"

section \<open>The abstract injector\<close>

text \<open>
  A transducer without encoder buffer, template cache and changing provider: the pieces a token adds and the next state depend on
  the state, the open tags and the token alone.
\<close>

definition tracker :: "MacroProvider \<Rightarrow> tracker_kind \<Rightarrow> string list \<Rightarrow> string \<Rightarrow> string \<Rightarrow> string \<Rightarrow> string \<Rightarrow> string \<Rightarrow> piece" where
  "tracker mp kind urls startTag endTag crid eventType vastEvent =
     Injected kind (concat (map (\<lambda>u. startTag @ expand_macros (GetMacro (PopulateEventMacros crid eventType vastEvent mp)) u @ endTag) urls))"

definition parent :: "tracker_kind \<Rightarrow> bool \<Rightarrow> string \<Rightarrow> string \<Rightarrow> piece list \<Rightarrow> piece list" where
  "parent kind c opn cls ps = (if c then Injected kind opn # ps @ [Injected kind cls] else ps)"

definition tracking_pieces :: "MacroProvider \<Rightarrow> VASTEvents \<Rightarrow> string \<Rightarrow> bool \<Rightarrow> piece list" where
  "tracking_pieces mp ev crid c =
     parent TrackingEv c ''<TrackingEvents>'' ''</TrackingEvents>''
       (map (\<lambda>(ty, urls). tracker mp TrackingEv urls (trackingStartTag ty) '']]></Tracking>'' crid ty ''tracking'')
          (ve_TrackingEvents ev))"

definition click_pieces :: "MacroProvider \<Rightarrow> VASTEvents \<Rightarrow> string \<Rightarrow> bool \<Rightarrow> piece list" where
  "click_pieces mp ev crid c =
     parent ClickEv c ''<VideoClicks>'' ''</VideoClicks>''
       [tracker mp ClickEv (ve_VideoClicks ev) ''<ClickTracking><![CDATA['' '']]></ClickTracking>'' crid [] ''clicktracking'']"

definition impression_piece :: "MacroProvider \<Rightarrow> VASTEvents \<Rightarrow> piece" where
  "impression_piece mp ev = tracker mp ImpressionEv (ve_Impressions ev) ''<Impression><![CDATA['' '']]></Impression>'' [] [] ''impression''"

definition error_piece :: "MacroProvider \<Rightarrow> VASTEvents \<Rightarrow> piece" where
  "error_piece mp ev = tracker mp ErrorEv (ve_Errors ev) ''<Error><![CDATA['' '']]></Error>'' [] [] ''error''"

definition non_linear_pieces :: "MacroProvider \<Rightarrow> VASTEvents \<Rightarrow> string \<Rightarrow> bool \<Rightarrow> piece list" where
  "non_linear_pieces mp ev crid c =
     parent NonLinearEv c ''<NonLinear>'' ''</NonLinear>''
       [tracker mp NonLinearEv (ve_NonLinearClickTracking ev) ''<NonLinearClickTracking><![CDATA['' '']]></NonLinearClickTracking>'' crid []
          ''nonlinearclicktracking'']"

definition companion_pieces :: "MacroProvider \<Rightarrow> VASTEvents \<Rightarrow> string \<Rightarrow> bool \<Rightarrow> piece list" where
  "companion_pieces mp ev crid c =
     parent CompanionEv c ''<Companion>'' ''</Companion>''
       [tracker mp CompanionEv (ve_CompanionClickThrough ev) ''<CompanionClickThrough><![CDATA['' '']]></CompanionClickThrough>'' crid []
          ''companionclickthrough'']"

definition start_pieces :: "MacroProvider \<Rightarrow> VASTEvents \<Rightarrow> InjectionState \<Rightarrow> xml_name \<Rightarrow> (xml_name \<times> string) list \<Rightarrow> piece list" where
  "start_pieces mp ev s n attrs =
     (if snd n = ''VideoClicks'' then Encoded (StartElement n attrs) # click_pieces mp ev (creativeId s) False
      else if snd n = ''TrackingEvents'' then
        (if isCreative s then Encoded (StartElement n attrs) # tracking_pieces mp ev (creativeId s) False else [])
      else [Encoded (StartElement n attrs)])"

definition start_state :: "InjectionState \<Rightarrow> xml_name \<Rightarrow> (xml_name \<times> string) list \<Rightarrow> InjectionState" where
  "start_state s n attrs =
     (if snd n = ''Wrapper'' then s\<lparr>wrapperTagFound := True\<rparr>
      else if snd n = ''Creative'' then s\<lparr>isCreative := True, creativeId := creative_id attrs (creativeId s)\<rparr>
      else if snd n = ''Linear'' then s\<lparr>injectVideoClicks := True, injectTracker := True\<rparr>
      else if snd n = ''VideoClicks'' then s\<lparr>injectVideoClicks := False\<rparr>
      else if snd n = ''NonLinearAds'' then s\<lparr>injectTracker := True\<rparr>
      else if snd n = ''TrackingEvents'' \<and> isCreative s then s\<lparr>injectTracker := False\<rparr>
      else s)"

definition end_pieces :: "MacroProvider \<Rightarrow> VASTEvents \<Rightarrow> InjectionState \<Rightarrow> xml_name list \<Rightarrow> xml_name \<Rightarrow> piece list" where
  "end_pieces mp ev s tags n =
     (let own = [Encoded (EndElement n)]; crid = creativeId s in
      if snd n = ''Impression'' then own @ (if impressionTagFound s then [] else [impression_piece mp ev])
      else if snd n = ''Error'' then own @ (if errorTagFound s then [] else [error_piece mp ev])
      else if snd n = ''NonLinearAds'' then
        (if injectTracker s then
           tracking_pieces mp ev crid True @ (if \<not> nonLinearTagFound s \<and> wrapperTagFound s then non_linear_pieces mp ev crid True else []) @ own
         else [])
      else if snd n = ''Linear'' then
        (if injectVideoClicks s then click_pieces mp ev crid True else []) @ (if injectTracker s then tracking_pieces mp ev crid True else [])
          @ (if tags \<noteq> [] \<and> hd tags = n then own else [])
      else if snd n = ''InLine'' \<or> snd n = ''Wrapper'' then
        (if impressionTagFound s then [] else [impression_piece mp ev]) @ (if errorTagFound s then [] else [error_piece mp ev]) @ own
      else if snd n = ''NonLinear'' then non_linear_pieces mp ev crid False @ own
      else if snd n = ''Companion'' then companion_pieces mp ev crid False @ own
      else if snd n = ''CompanionAds'' then (if \<not> companionTagFound s \<and> wrapperTagFound s then companion_pieces mp ev crid True else []) @ own
      else own)"

definition end_state :: "InjectionState \<Rightarrow> xml_name \<Rightarrow> InjectionState" where
  "end_state s n =
     (if snd n = ''Impression'' then s\<lparr>impressionTagFound := True\<rparr>
      else if snd n = ''Error'' then s\<lparr>errorTagFound := True\<rparr>
      else if snd n = ''NonLinearAds'' then s\<lparr>injectTracker := False\<rparr>
      else if snd n = ''Linear'' then s\<lparr>injectVideoClicks := False, injectTracker := False\<rparr>
      else if snd n = ''InLine'' \<or> snd n = ''Wrapper'' then
        s\<lparr>wrapperTagFound := False, inlineWrapperTagFound := True, impressionTagFound := False, errorTagFound := False\<rparr>
      else if snd n = ''NonLinear'' then s\<lparr>nonLinearTagFound := True\<rparr>
      else if snd n = ''Companion'' then s\<lparr>companionTagFound := True\<rparr>
      else if snd n = ''Creative'' then s\<lparr>isCreative := False\<rparr>
      else s)"

fun token_pieces :: "MacroProvider \<Rightarrow> VASTEvents \<Rightarrow> InjectionState \<Rightarrow> xml_name list \<Rightarrow> xml_token \<Rightarrow> piece list" where
  "token_pieces mp ev s tags (StartElement n attrs) = start_pieces mp ev s n attrs"
| "token_pieces mp ev s tags (EndElement n) = end_pieces mp ev s tags n"
| "token_pieces mp ev s tags (CharData t) = (if Trim t = [] then [] else [CDATA (Trim t)])"
| "token_pieces mp ev s tags (OtherToken t) = [Encoded (OtherToken t)]"

fun token_state :: "InjectionState \<Rightarrow> xml_token \<Rightarrow> InjectionState" where
  "token_state s (StartElement n attrs) = start_state s n attrs"
| "token_state s (EndElement n) = end_state s n"
| "token_state s _ = s"

text \<open>The open tags after some pieces.\<close>

fun piece_tags :: "xml_name list \<Rightarrow> piece list \<Rightarrow> xml_name list" where
  "piece_tags tags [] = tags"
| "piece_tags tags (Encoded (StartElement n _) # ps) = piece_tags (n # tags) ps"
| "piece_tags tags (Encoded (EndElement n) # ps) = piece_tags (tl tags) ps"
| "piece_tags tags (_ # ps) = piece_tags tags ps"

fun spec_run :: "MacroProvider \<Rightarrow> VASTEvents \<Rightarrow> InjectionState \<Rightarrow> xml_name list \<Rightarrow> xml_token list \<Rightarrow> piece list" where
  "spec_run mp ev s tags [] = []"
| "spec_run mp ev s tags (tok # toks) =
    (let ps = token_pieces mp ev s tags tok in ps @ spec_run mp ev (token_state s tok) (piece_tags tags ps) toks)"

section \<open>The code implements it\<close>

lemma write_urls_eq: "write_urls = sr.repl_all"
proof (intro ext)
  fix mp startTag endTag result urls s
  show "write_urls mp startTag endTag result urls s = sr.repl_all mp startTag endTag result urls s"
    by (induction urls arbitrary: result s) (auto split: option.split)
qed

text \<open>The provider differs from the initial one only in the event macros, and the cache of the replacer is sound.\<close>

definition good :: "MacroProvider \<Rightarrow> injection \<Rightarrow> bool" where
  "good mp j \<longleftrightarrow> templates_ok (ij_replacer j)
     \<and> (\<forall>c t e. GetMacro (PopulateEventMacros c t e (ij_provider j)) = GetMacro (PopulateEventMacros c t e mp))"

definition wrote :: "MacroProvider \<Rightarrow> injection \<Rightarrow> piece list \<Rightarrow> injection \<Rightarrow> bool" where
  "wrote mp j ps j' \<longleftrightarrow> good mp j' \<and> ij_state j' = ij_state j \<and> ij_encoder j' = ij_encoder j \<and> ij_output j' = ij_output j @ ps"

definition writer :: "MacroProvider \<Rightarrow> (injection \<Rightarrow> inj_error + injection) \<Rightarrow> piece list \<Rightarrow> bool" where
  "writer mp f ps \<longleftrightarrow> (\<forall>j. good mp j \<longrightarrow> (\<exists>j'. f j = Inr j' \<and> wrote mp j ps j'))"

named_theorems writers

lemma GetMacro_Populate_twice:
  "GetMacro (PopulateEventMacros c t e (PopulateEventMacros c' t' e' mp)) = GetMacro (PopulateEventMacros c t e mp)"
  by (rule ext) (simp add: GetMacro_def PopulateEventMacros_def)

lemma writerE:
  assumes "writer mp f ps" "good mp j"
  obtains j' where "f j = Inr j'" "good mp j'" "ij_state j' = ij_state j" "ij_encoder j' = ij_encoder j" "ij_output j' = ij_output j @ ps"
  using assms by (auto simp: writer_def wrote_def)

lemma writer_event [writers]:
  "writer mp (writeTrackingEvent kind urls startTag endTag c t e) [tracker mp kind urls startTag endTag c t e]"
proof -
  have "\<exists>j'. writeTrackingEvent kind urls startTag endTag c t e j = Inr j' \<and> wrote mp j [tracker mp kind urls startTag endTag c t e] j'" if j: "good mp j" for j
  proof -
    obtain s where "write_urls (PopulateEventMacros c t e (ij_provider j)) startTag endTag [] urls (ij_replacer j) =
        Some (concat (map (\<lambda>u. startTag @ expand_macros (GetMacro (PopulateEventMacros c t e (ij_provider j))) u @ endTag) urls), s)" "templates_ok s"
      using sr.repl_all_correct [of "ij_replacer j" "PopulateEventMacros c t e (ij_provider j)" startTag endTag "[]" urls] j
      by (auto simp: good_def write_urls_eq)
    with j show ?thesis
      by (simp add: writeTrackingEvent_def Let_def wrote_def good_def tracker_def GetMacro_Populate_twice)
  qed
  then show ?thesis by (simp add: writer_def)
qed

lemma good_simps [simp]:
  "good mp (j\<lparr>ij_state := x\<rparr>) = good mp j" "good mp (Flush j) = good mp j" "good mp (write_raw k t j) = good mp j"
  "good mp (j\<lparr>ij_encoder := e\<rparr>) = good mp j"
  by (simp_all add: good_def Flush_def write_raw_def)

lemma writer_parent [writers]:
  assumes "writer mp f ps"
  shows "writer mp (in_parent kind c opn cls f) (parent kind c opn cls ps)"
proof -
  have "\<exists>j'. in_parent kind c opn cls f j = Inr j' \<and> wrote mp j (parent kind c opn cls ps) j'" if j: "good mp j" for j
  proof -
    let ?j = "if c then write_raw kind opn j else j"
    have "good mp ?j" using j by simp
    with assms obtain j' where "f ?j = Inr j'" "good mp j'" "ij_state j' = ij_state ?j" "ij_encoder j' = ij_encoder ?j" "ij_output j' = ij_output ?j @ ps"
      by (rule writerE)
    then show ?thesis by (cases c) (simp_all add: in_parent_def wrote_def parent_def, simp_all add: write_raw_def good_def)
  qed
  then show ?thesis by (simp add: writer_def)
qed

lemma writer_tracking [writers]:
  "writer mp (tracking_events evs crid)
     (map (\<lambda>(ty, urls). tracker mp TrackingEv urls (trackingStartTag ty) '']]></Tracking>'' crid ty ''tracking'') evs)"
proof (induction evs)
  case (Cons e evs)
  obtain ty urls where e: "e = (ty, urls)" by (cases e)
  show ?case unfolding writer_def
  proof (intro allI impI)
    fix j
    assume "good mp j"
    with writer_event obtain j1 where j1: "writeTrackingEvent TrackingEv urls (trackingStartTag ty) '']]></Tracking>'' crid ty ''tracking'' j = Inr j1"
      "good mp j1" "ij_state j1 = ij_state j" "ij_encoder j1 = ij_encoder j"
      "ij_output j1 = ij_output j @ [tracker mp TrackingEv urls (trackingStartTag ty) '']]></Tracking>'' crid ty ''tracking'']"
      by (rule writerE)
    with Cons.IH obtain j2 where "tracking_events evs crid j1 = Inr j2" "wrote mp j1 (map (\<lambda>(ty, urls). tracker mp TrackingEv urls (trackingStartTag ty) '']]></Tracking>'' crid ty ''tracking'') evs) j2"
      unfolding writer_def by blast
    with j1 show "\<exists>j'. tracking_events (e # evs) crid j = Inr j' \<and> wrote mp j (map (\<lambda>(ty, urls). tracker mp TrackingEv urls (trackingStartTag ty) '']]></Tracking>'' crid ty ''tracking'') (e # evs)) j'"
      by (simp add: wrote_def e)
  qed
qed (simp add: writer_def wrote_def)

lemma writers_of_events [writers]:
  "writer mp (addTrackingEvent ev crid c) (tracking_pieces mp ev crid c)"
  "writer mp (addClickTrackingEvent ev crid c) (click_pieces mp ev crid c)"
  "writer mp (addImpressionTrackingEvent ev) [impression_piece mp ev]"
  "writer mp (addErrorTrackingEvent ev) [error_piece mp ev]"
  "writer mp (addNonLinearClickTrackingEvent ev crid c) (non_linear_pieces mp ev crid c)"
  "writer mp (addCompanionClickThroughEvent ev crid c) (companion_pieces mp ev crid c)"
  unfolding addTrackingEvent_def addClickTrackingEvent_def addImpressionTrackingEvent_def addErrorTrackingEvent_def addNonLinearClickTrackingEvent_def
    addCompanionClickThroughEvent_def tracking_pieces_def click_pieces_def impression_piece_def error_piece_def non_linear_pieces_def companion_pieces_def
  by (intro writers)+

lemma writer_do_if [writers]: "writer mp f ps \<Longrightarrow> writer mp (do_if c f) (if c then ps else [])"
  by (auto simp: writer_def do_if_def wrote_def)

text \<open>
  The handlers are composed of encoding, flushing, writing and changes of the state. A step from a state and open tags adds some pieces;
  \<open>e\<close> and \<open>e'\<close> say that nothing is buffered before and after it.
\<close>

abbreviation tags_of :: "injection \<Rightarrow> xml_name list" where
  "tags_of j \<equiv> en_tags (ij_encoder j)"

definition total :: "injection \<Rightarrow> piece list" where
  "total j = ij_output j @ en_buffer (ij_encoder j)"

definition adds :: "MacroProvider \<Rightarrow> bool \<Rightarrow> InjectionState \<Rightarrow> xml_name list \<Rightarrow> (injection \<Rightarrow> inj_error + injection) \<Rightarrow> bool \<Rightarrow> InjectionState \<Rightarrow> piece list \<Rightarrow> bool" where
  "adds mp e s t f e' s' ps \<longleftrightarrow>
     (\<forall>j j'. good mp j \<longrightarrow> ij_state j = s \<longrightarrow> tags_of j = t \<longrightarrow> (e \<longrightarrow> en_buffer (ij_encoder j) = []) \<longrightarrow> f j = Inr j' \<longrightarrow>
        good mp j' \<and> ij_state j' = s' \<and> tags_of j' = piece_tags t ps \<and> (e' \<longrightarrow> en_buffer (ij_encoder j') = []) \<and> total j' = total j @ ps)"

lemma addsI:
  assumes "\<And>j j'. good mp j \<Longrightarrow> ij_state j = s \<Longrightarrow> tags_of j = t \<Longrightarrow> e \<longrightarrow> en_buffer (ij_encoder j) = [] \<Longrightarrow> f j = Inr j' \<Longrightarrow>
    good mp j' \<and> ij_state j' = s' \<and> tags_of j' = piece_tags t ps \<and> (e' \<longrightarrow> en_buffer (ij_encoder j') = []) \<and> total j' = total j @ ps"
  shows "adds mp e s t f e' s' ps"
  using assms unfolding adds_def by blast

lemma addsD:
  assumes "adds mp e s t f e' s' ps" "good mp j" "ij_state j = s" "tags_of j = t" "e \<longrightarrow> en_buffer (ij_encoder j) = []" "f j = Inr j'"
  shows "good mp j'" "ij_state j' = s'" "tags_of j' = piece_tags t ps" "e' \<longrightarrow> en_buffer (ij_encoder j') = []" "total j' = total j @ ps"
  using assms unfolding adds_def by blast+

lemma piece_tags_append [simp]: "piece_tags t (ps @ qs) = piece_tags (piece_tags t ps) qs"
  by (induction t ps rule: piece_tags.induct) simp_all

fun injected_only :: "piece list \<Rightarrow> bool" where
  "injected_only ps = list_all (\<lambda>p. case p of Injected _ _ \<Rightarrow> True | _ \<Rightarrow> False) ps"

lemma piece_tags_injected: "injected_only ps \<Longrightarrow> piece_tags t ps = t"
  by (induction t ps rule: piece_tags.induct) auto

lemma adds_encode: "adds mp e s t (EncodeToken ok tok) False s [Encoded tok]"
  by (rule addsI)
    (auto simp: EncodeToken_def encode_token_def Let_def total_def good_def split: option.splits xml_token.splits list.splits if_splits)

lemma adds_flush:
  assumes "adds mp True s t f e' s' ps"
  shows "adds mp e s t (\<lambda>j. f (Flush j)) e' s' ps"
proof (rule addsI)
  fix j j'
  assume j: "good mp j" "ij_state j = s" "tags_of j = t" "f (Flush j) = Inr j'"
  have "good mp (Flush j)" "ij_state (Flush j) = s" "tags_of (Flush j) = t" "True \<longrightarrow> en_buffer (ij_encoder (Flush j)) = []" "total (Flush j) = total j"
    using j by (simp_all add: Flush_def total_def good_def)
  with addsD [OF assms this(1-4) j(4)]
  show "good mp j' \<and> ij_state j' = s' \<and> tags_of j' = piece_tags t ps \<and> (e' \<longrightarrow> en_buffer (ij_encoder j') = []) \<and> total j' = total j @ ps" by simp
qed

lemma adds_upd:
  assumes "adds mp e (g s) t f e' s' ps"
  shows "adds mp e s t (\<lambda>j. f (upd_state g j)) e' s' ps"
proof (rule addsI)
  fix j j'
  assume j: "good mp j" "ij_state j = s" "tags_of j = t" "e \<longrightarrow> en_buffer (ij_encoder j) = []" "f (upd_state g j) = Inr j'"
  have "good mp (upd_state g j)" "ij_state (upd_state g j) = g s" "tags_of (upd_state g j) = t" "e \<longrightarrow> en_buffer (ij_encoder (upd_state g j)) = []"
    "total (upd_state g j) = total j"
    using j by (simp_all add: total_def good_def)
  with addsD [OF assms this(1-4) j(5)]
  show "good mp j' \<and> ij_state j' = s' \<and> tags_of j' = piece_tags t ps \<and> (e' \<longrightarrow> en_buffer (ij_encoder j') = []) \<and> total j' = total j @ ps" by simp
qed

lemma adds_writer:
  assumes "writer mp f ps" "injected_only ps"
  shows "adds mp True s t f True s ps"
proof (rule addsI)
  fix j j'
  assume j: "good mp j" "ij_state j = s" "tags_of j = t" "True \<longrightarrow> en_buffer (ij_encoder j) = []" "f j = Inr j'"
  from assms(1) j(1) obtain j1 where "f j = Inr j1" "good mp j1" "ij_state j1 = ij_state j" "ij_encoder j1 = ij_encoder j" "ij_output j1 = ij_output j @ ps"
    by (rule writerE)
  with j assms(2) show "good mp j' \<and> ij_state j' = s \<and> tags_of j' = piece_tags t ps \<and> (True \<longrightarrow> en_buffer (ij_encoder j') = []) \<and> total j' = total j @ ps"
    by (simp add: total_def piece_tags_injected del: injected_only.simps)
qed

lemma adds_then:
  assumes "adds mp e s t f e1 s1 ps" "adds mp e1 s1 (piece_tags t ps) g e2 s2 qs"
  shows "adds mp e s t (\<lambda>j. and_then (f j) g) e2 s2 (ps @ qs)"
proof (rule addsI)
  fix j j'
  assume j: "good mp j" "ij_state j = s" "tags_of j = t" "e \<longrightarrow> en_buffer (ij_encoder j) = []" "and_then (f j) g = Inr j'"
  then obtain j1 where j1: "f j = Inr j1" "g j1 = Inr j'" by (cases "f j") auto
  note 1 = addsD [OF assms(1) j(1-4) j1(1)]
  from addsD [OF assms(2) 1(1-4) j1(2)] 1(5)
  show "good mp j' \<and> ij_state j' = s2 \<and> tags_of j' = piece_tags t (ps @ qs) \<and> (e2 \<longrightarrow> en_buffer (ij_encoder j') = []) \<and> total j' = total j @ (ps @ qs)"
    by simp
qed

lemma adds_skip: "adds mp e s t Inr e s []"
  by (rule addsI) auto

lemma adds_cong:
  assumes "adds mp e s t g e' s' ps" "\<And>j. ij_state j = s \<Longrightarrow> tags_of j = t \<Longrightarrow> f j = g j"
  shows "adds mp e s t f e' s' ps"
  using assms unfolding adds_def by metis

lemma adds_weaken: "adds mp e s t f e' s' ps \<Longrightarrow> adds mp e s t f False s' ps"
  unfolding adds_def by blast

lemma pieces_injected [simp]:
  "injected_only (tracking_pieces mp ev crid c)" "injected_only (click_pieces mp ev crid c)" "injected_only [impression_piece mp ev]"
  "injected_only [error_piece mp ev]" "injected_only (non_linear_pieces mp ev crid c)" "injected_only (companion_pieces mp ev crid c)"
  by (auto simp: tracking_pieces_def click_pieces_def impression_piece_def error_piece_def non_linear_pieces_def companion_pieces_def parent_def tracker_def list_all_iff)

lemma adds_events:
  "adds mp True s t (addTrackingEvent ev crid c) True s (tracking_pieces mp ev crid c)"
  "adds mp True s t (addClickTrackingEvent ev crid c) True s (click_pieces mp ev crid c)"
  "adds mp True s t (addImpressionTrackingEvent ev) True s [impression_piece mp ev]"
  "adds mp True s t (addErrorTrackingEvent ev) True s [error_piece mp ev]"
  "adds mp True s t (addNonLinearClickTrackingEvent ev crid c) True s (non_linear_pieces mp ev crid c)"
  "adds mp True s t (addCompanionClickThroughEvent ev crid c) True s (companion_pieces mp ev crid c)"
  by (rule adds_writer, rule writers, rule pieces_injected)+

lemma adds_do_if: "adds mp e s t f e s ps \<Longrightarrow> adds mp e s t (do_if c f) e s (if c then ps else [])"
  using adds_skip [of mp e s t] by (cases c) (simp_all add: do_if_def [abs_def])

text \<open>A writer of trackers that takes the creative from the state.\<close>

lemma adds_flush_creative:
  assumes "\<And>crid. adds mp True s t (w crid) True s (ps crid)"
  shows "adds mp e s t (\<lambda>j. w (creativeId (ij_state j)) (Flush j)) True s (ps (creativeId s))"
  by (rule adds_cong [OF adds_flush [OF assms, of e "creativeId s"]]) simp

lemma adds_creative:
  assumes "\<And>crid. adds mp True s t (w crid) True s (ps crid)"
  shows "adds mp True s t (\<lambda>j. w (creativeId (ij_state j)) j) True s (ps (creativeId s))"
  by (rule adds_cong [OF assms [of "creativeId s"]]) simp

lemma adds_upd_encode: "adds mp e s t (\<lambda>j. EncodeToken ok tok (upd_state g j)) False (g s) [Encoded tok]"
  by (rule adds_upd) (rule adds_encode)

lemma adds_start: "adds mp e s t (handleStartElement ok ev n attrs) False (start_state s n attrs) (start_pieces mp ev s n attrs)"
proof -
  let ?enc = "EncodeToken ok (StartElement n attrs)"
  consider (upd) "snd n \<notin> {''VideoClicks'', ''TrackingEvents''}" | (clicks) "snd n = ''VideoClicks''" | (tracking) "snd n = ''TrackingEvents''"
    by blast
  then show ?thesis
  proof cases
    case upd
    have "handleStartElement ok ev n attrs j = ?enc (upd_state (\<lambda>s. start_state s n attrs) j)" for j
      using upd by (cases j) (simp add: handleStartElement_def start_state_def Let_def)
    with adds_upd_encode [of mp e s t ok "StartElement n attrs" "\<lambda>s. start_state s n attrs"]
    have "adds mp e s t (handleStartElement ok ev n attrs) False (start_state s n attrs) [Encoded (StartElement n attrs)]"
      by (rule adds_cong)
    then show ?thesis using upd by (simp add: start_pieces_def)
  next
    case clicks
    then have "handleStartElement ok ev n attrs = (\<lambda>j. and_then (?enc (upd_state (\<lambda>s. s\<lparr>injectVideoClicks := False\<rparr>) j))
        (\<lambda>j. addClickTrackingEvent ev (creativeId (ij_state j)) False (Flush j)))"
      by (simp add: handleStartElement_def fun_eq_iff)
    moreover have "adds mp e s t \<dots> True (s\<lparr>injectVideoClicks := False\<rparr>)
        ([Encoded (StartElement n attrs)] @ click_pieces mp ev (creativeId (s\<lparr>injectVideoClicks := False\<rparr>)) False)"
      by (rule adds_then [OF adds_upd_encode adds_flush_creative]) (rule adds_events)
    ultimately show ?thesis using clicks by (simp add: adds_weaken start_state_def start_pieces_def)
  next
    case tracking
    show ?thesis
    proof (cases "isCreative s")
      case True
      let ?s = "s\<lparr>injectTracker := False\<rparr>"
      have "adds mp e s t (\<lambda>j. and_then (?enc (upd_state (\<lambda>s. s\<lparr>injectTracker := False\<rparr>) j))
          (\<lambda>j. addTrackingEvent ev (creativeId (ij_state j)) False (Flush j))) True ?s
          ([Encoded (StartElement n attrs)] @ tracking_pieces mp ev (creativeId ?s) False)"
        by (rule adds_then [OF adds_upd_encode adds_flush_creative]) (rule adds_events)
      then have "adds mp e s t (handleStartElement ok ev n attrs) True ?s ([Encoded (StartElement n attrs)] @ tracking_pieces mp ev (creativeId ?s) False)"
        by (rule adds_cong) (simp add: handleStartElement_def tracking True)
      then show ?thesis using tracking True by (simp add: adds_weaken start_state_def start_pieces_def)
    next
      case False
      have "adds mp e s t (handleStartElement ok ev n attrs) e s []"
        by (rule adds_cong [OF adds_skip]) (simp add: handleStartElement_def tracking False)
      then show ?thesis using tracking False by (simp add: adds_weaken start_state_def start_pieces_def)
    qed
  qed
qed

lemma adds_set: "adds mp e s t (\<lambda>j. Inr (upd_state g j)) e (g s) []"
  by (rule adds_upd) (rule adds_skip)

lemma adds_flag:
  assumes "c s \<Longrightarrow> adds mp e s t f e s1 ps" "\<not> c s \<Longrightarrow> s1 = s"
  shows "adds mp e s t (\<lambda>j. do_if (c (ij_state j)) f j) e s1 (if c s then ps else [])"
proof (cases "c s")
  case True
  show ?thesis unfolding if_P [OF True] by (rule adds_cong [OF assms(1) [OF True]]) (simp add: do_if_def True)
next
  case False
  show ?thesis unfolding if_not_P [OF False] assms(2) [OF False] by (rule adds_cong [OF adds_skip]) (simp add: do_if_def False)
qed

lemma adds_end_impression:
  "adds mp True s t (end_impression ev) True (s\<lparr>impressionTagFound := True\<rparr>) (if \<not> impressionTagFound s then [impression_piece mp ev] else [])"
proof -
  have "adds mp True s t (\<lambda>j. and_then (addImpressionTrackingEvent ev j) (\<lambda>j. Inr (upd_state (\<lambda>s. s\<lparr>impressionTagFound := True\<rparr>) j))) True
      (s\<lparr>impressionTagFound := True\<rparr>) ([impression_piece mp ev] @ [])"
    by (rule adds_then [OF adds_events(3) adds_set])
  then have "adds mp True s t (\<lambda>j. do_if (\<not> impressionTagFound (ij_state j)) (\<lambda>j. and_then (addImpressionTrackingEvent ev j)
      (\<lambda>j. Inr (upd_state (\<lambda>s. s\<lparr>impressionTagFound := True\<rparr>) j))) j) True (s\<lparr>impressionTagFound := True\<rparr>)
      (if \<not> impressionTagFound s then [impression_piece mp ev] @ [] else [])"
    by (rule adds_flag) (cases s, simp)
  then show ?thesis by (simp only: append_Nil2) (erule adds_cong, simp add: end_impression_def do_if_def)
qed

lemma adds_end_error:
  "adds mp True s t (end_error ev) True (s\<lparr>errorTagFound := True\<rparr>) (if \<not> errorTagFound s then [error_piece mp ev] else [])"
proof -
  have "adds mp True s t (\<lambda>j. and_then (addErrorTrackingEvent ev j) (\<lambda>j. Inr (upd_state (\<lambda>s. s\<lparr>errorTagFound := True\<rparr>) j))) True
      (s\<lparr>errorTagFound := True\<rparr>) ([error_piece mp ev] @ [])"
    by (rule adds_then [OF adds_events(4) adds_set])
  then have "adds mp True s t (\<lambda>j. do_if (\<not> errorTagFound (ij_state j)) (\<lambda>j. and_then (addErrorTrackingEvent ev j)
      (\<lambda>j. Inr (upd_state (\<lambda>s. s\<lparr>errorTagFound := True\<rparr>) j))) j) True (s\<lparr>errorTagFound := True\<rparr>)
      (if \<not> errorTagFound s then [error_piece mp ev] @ [] else [])"
    by (rule adds_flag) (cases s, simp)
  then show ?thesis by (simp only: append_Nil2) (erule adds_cong, simp add: end_error_def do_if_def)
qed

lemma adds_end_non_linear_ads:
  assumes "injectTracker s"
  shows "adds mp e s t (end_non_linear_ads ev (EncodeToken ok tok)) False (s\<lparr>injectTracker := False\<rparr>)
    (tracking_pieces mp ev (creativeId s) True @
     (if \<not> nonLinearTagFound s \<and> wrapperTagFound s then non_linear_pieces mp ev (creativeId s) True else []) @ [Encoded tok])"
proof -
  let ?s = "s\<lparr>injectTracker := False\<rparr>" and ?g = "\<lambda>s. s\<lparr>injectTracker := False\<rparr>" and ?c = "\<not> nonLinearTagFound s \<and> wrapperTagFound s"
  have 1: "adds mp e s t (\<lambda>j. addTrackingEvent ev (creativeId s) True (Flush (upd_state ?g j))) True ?s (tracking_pieces mp ev (creativeId s) True)"
    by (rule adds_upd) (rule adds_flush, rule adds_events)
  have 2: "adds mp True ?s t' (\<lambda>j. and_then (do_if ?c (addNonLinearClickTrackingEvent ev (creativeId s) True) j) (EncodeToken ok tok)) False ?s
      ((if ?c then non_linear_pieces mp ev (creativeId s) True else []) @ [Encoded tok])" for t'
    by (rule adds_then [OF adds_do_if [OF adds_events(5)] adds_encode])
  have 3: "adds mp True ?s t' (\<lambda>j. and_then (do_if (\<not> nonLinearTagFound (ij_state j) \<and> wrapperTagFound (ij_state j))
        (addNonLinearClickTrackingEvent ev (creativeId (ij_state j)) True) j) (EncodeToken ok tok)) False ?s
      ((if ?c then non_linear_pieces mp ev (creativeId s) True else []) @ [Encoded tok])" for t'
    by (rule adds_cong [OF 2]) simp
  show ?thesis
    by (rule adds_cong [OF adds_then [OF 1 3]]) (simp add: end_non_linear_ads_def assms)
qed

lemma adds_end_linear:
  "adds mp False s t (end_linear ev (EncodeToken ok (EndElement n))) False (s\<lparr>injectVideoClicks := False, injectTracker := False\<rparr>)
    ((if injectVideoClicks s then click_pieces mp ev (creativeId s) True else []) @
     (if injectTracker s then tracking_pieces mp ev (creativeId s) True else []) @
     (if t \<noteq> [] \<and> hd t = n \<and> snd n \<noteq> [] then [Encoded (EndElement n)] else []))"
proof -
  let ?g = "\<lambda>s. s\<lparr>injectVideoClicks := False\<rparr>" and ?h = "\<lambda>s. s\<lparr>injectTracker := False\<rparr>"
  have 1: "adds mp False s t (\<lambda>j. do_if (injectVideoClicks (ij_state j)) (\<lambda>j. addClickTrackingEvent ev (creativeId (ij_state j)) True (Flush (upd_state ?g j))) j)
      False (?g s) (if injectVideoClicks s then click_pieces mp ev (creativeId s) True else [])" for s t
  proof (rule adds_flag)
    have "adds mp False s t (\<lambda>j. addClickTrackingEvent ev (creativeId s) True (Flush (upd_state ?g j))) True (?g s) (click_pieces mp ev (creativeId s) True)"
      by (rule adds_upd) (rule adds_flush, rule adds_events)
    then show "adds mp False s t (\<lambda>j. addClickTrackingEvent ev (creativeId (ij_state j)) True (Flush (upd_state ?g j))) False (?g s) (click_pieces mp ev (creativeId s) True)"
      by (intro adds_weaken) (erule adds_cong, simp)
  qed (cases s, simp)
  have 2: "adds mp False s t (\<lambda>j. do_if (injectTracker (ij_state j)) (\<lambda>j. addTrackingEvent ev (creativeId (ij_state j)) True (Flush (upd_state ?h j))) j)
      False (?h s) (if injectTracker s then tracking_pieces mp ev (creativeId s) True else [])" for s t
  proof (rule adds_flag)
    have "adds mp False s t (\<lambda>j. addTrackingEvent ev (creativeId s) True (Flush (upd_state ?h j))) True (?h s) (tracking_pieces mp ev (creativeId s) True)"
      by (rule adds_upd) (rule adds_flush, rule adds_events)
    then show "adds mp False s t (\<lambda>j. addTrackingEvent ev (creativeId (ij_state j)) True (Flush (upd_state ?h j))) False (?h s) (tracking_pieces mp ev (creativeId s) True)"
      by (intro adds_weaken) (erule adds_cong, simp)
  qed (cases s, simp)
  have 3: "adds mp e s t (\<lambda>j. case EncodeToken ok (EndElement n) j of Inl _ \<Rightarrow> Inr j | Inr j' \<Rightarrow> Inr j') False s
      (if t \<noteq> [] \<and> hd t = n \<and> snd n \<noteq> [] then [Encoded (EndElement n)] else [])" for e s t
    by (rule addsI) (cases t; auto simp: EncodeToken_def encode_token_def Let_def total_def good_def split: if_splits)
  have t: "piece_tags t (if b then click_pieces mp ev crid True else []) = t"
    "piece_tags t (if b then tracking_pieces mp ev crid True else []) = t" for b crid t
    by (simp_all add: piece_tags_injected del: injected_only.simps)
  have 23: "adds mp False (?g s) t (\<lambda>j. and_then (do_if (injectTracker (ij_state j)) (\<lambda>j. addTrackingEvent ev (creativeId (ij_state j)) True (Flush (upd_state ?h j))) j)
      (\<lambda>j. case EncodeToken ok (EndElement n) j of Inl _ \<Rightarrow> Inr j | Inr j' \<Rightarrow> Inr j')) False (?h (?g s))
      ((if injectTracker (?g s) then tracking_pieces mp ev (creativeId (?g s)) True else []) @ (if t \<noteq> [] \<and> hd t = n \<and> snd n \<noteq> [] then [Encoded (EndElement n)] else []))"
    by (rule adds_then [OF 2], subst t(2), rule 3)
  have "adds mp False s t (end_linear ev (EncodeToken ok (EndElement n))) False (?h (?g s))
      ((if injectVideoClicks s then click_pieces mp ev (creativeId s) True else []) @
       (if injectTracker (?g s) then tracking_pieces mp ev (creativeId (?g s)) True else []) @
       (if t \<noteq> [] \<and> hd t = n \<and> snd n \<noteq> [] then [Encoded (EndElement n)] else []))"
    unfolding end_linear_def by (rule adds_then [OF 1], subst t(1), rule 23)
  moreover have "injectTracker (?g s) = injectTracker s" "creativeId (?g s) = creativeId s" by simp_all
  ultimately show ?thesis by (simp only:)
qed

lemma adds_end_ad:
  "adds mp e s t (end_ad ev (EncodeToken ok tok)) False
    (s\<lparr>wrapperTagFound := False, inlineWrapperTagFound := True, impressionTagFound := False, errorTagFound := False\<rparr>)
    ((if \<not> impressionTagFound s then [impression_piece mp ev] else []) @ (if \<not> errorTagFound s then [error_piece mp ev] else []) @ [Encoded tok])"
proof -
  let ?g = "\<lambda>s. s\<lparr>wrapperTagFound := False, inlineWrapperTagFound := True\<rparr>" and ?h = "\<lambda>s. s\<lparr>impressionTagFound := False\<rparr>"
    and ?k = "\<lambda>s. s\<lparr>errorTagFound := False\<rparr>"
  have 1: "adds mp e s t (\<lambda>j. do_if (\<not> impressionTagFound s) (addImpressionTrackingEvent ev) (Flush (upd_state ?g j))) True (?g s)
      (if \<not> impressionTagFound s then [impression_piece mp ev] else [])"
    by (rule adds_upd) (rule adds_flush, rule adds_do_if, rule adds_events)
  have 2: "adds mp True (?g s) t' (\<lambda>j. and_then (do_if (\<not> errorTagFound s) (addErrorTrackingEvent ev) (upd_state ?h j))
      (\<lambda>j. EncodeToken ok tok (upd_state ?k j))) False (?k (?h (?g s))) ((if \<not> errorTagFound s then [error_piece mp ev] else []) @ [Encoded tok])" for t'
    by (rule adds_then [OF adds_upd [OF adds_do_if [OF adds_events(4)]] adds_upd_encode])
  have 3: "adds mp True (?g s) t' (\<lambda>j. let j = upd_state ?h j in and_then (do_if (\<not> errorTagFound (ij_state j)) (addErrorTrackingEvent ev) j)
      (\<lambda>j. EncodeToken ok tok (upd_state ?k j))) False (?k (?h (?g s))) ((if \<not> errorTagFound s then [error_piece mp ev] else []) @ [Encoded tok])" for t'
    by (rule adds_cong [OF 2]) (simp add: Let_def)
  have "adds mp e s t (end_ad ev (EncodeToken ok tok)) False (?k (?h (?g s)))
      ((if \<not> impressionTagFound s then [impression_piece mp ev] else []) @ (if \<not> errorTagFound s then [error_piece mp ev] else []) @ [Encoded tok])"
    by (rule adds_cong [OF adds_then [OF 1 3]]) (simp add: end_ad_def Let_def Flush_def)
  then show ?thesis by simp
qed

lemma adds_end_companions:
  "adds mp e s t (\<lambda>j. and_then (do_if (\<not> companionTagFound (ij_state j) \<and> wrapperTagFound (ij_state j))
      (\<lambda>j. addCompanionClickThroughEvent ev (creativeId (ij_state j)) True (Flush j)) j) (EncodeToken ok tok)) False s
    ((if \<not> companionTagFound s \<and> wrapperTagFound s then companion_pieces mp ev (creativeId s) True else []) @ [Encoded tok])"
proof -
  have "adds mp False s t (\<lambda>j. addCompanionClickThroughEvent ev (creativeId (ij_state j)) True (Flush j)) False s (companion_pieces mp ev (creativeId s) True)"
    by (rule adds_weaken [OF adds_flush_creative]) (rule adds_events)
  then have "adds mp False s t (\<lambda>j. do_if (\<not> companionTagFound (ij_state j) \<and> wrapperTagFound (ij_state j))
      (\<lambda>j. addCompanionClickThroughEvent ev (creativeId (ij_state j)) True (Flush j)) j) False s
      (if \<not> companionTagFound s \<and> wrapperTagFound s then companion_pieces mp ev (creativeId s) True else [])"
    by (intro adds_flag [where c = "\<lambda>s. \<not> companionTagFound s \<and> wrapperTagFound s"]) simp_all
  from adds_then [OF this adds_encode] show ?thesis unfolding adds_def by blast
qed

lemma adds_end:
  "adds mp False s t (handleEndElement ok ev n) False (end_state s n) (end_pieces mp ev s t n)"
proof -
  let ?enc = "EncodeToken ok (EndElement n)"
  have by_eq: "adds mp False s t (handleEndElement ok ev n) False (end_state s n) (end_pieces mp ev s t n)"
    if "adds mp False s t g e' s' ps" "\<And>j. handleEndElement ok ev n j = g j" "end_state s n = s'" "end_pieces mp ev s t n = ps" for g e' s' ps
    unfolding that(3,4) by (rule adds_weaken [OF adds_cong [OF that(1,2)]])
  note defs = handleEndElement_def end_state_def end_pieces_def Let_def
  consider "snd n = ''Impression''" | "snd n = ''Error''" | (non_linear_ads) "snd n = ''NonLinearAds''" | "snd n = ''Linear''"
    | "snd n = ''InLine'' \<or> snd n = ''Wrapper''" | "snd n = ''NonLinear''" | "snd n = ''Companion''" | "snd n = ''CompanionAds''"
    | (other) "snd n \<notin> {''Impression'', ''Error'', ''NonLinearAds'', ''Linear'', ''InLine'', ''Wrapper'', ''NonLinear'', ''Companion'', ''CompanionAds''}"
    by blast
  then show ?thesis
  proof cases
    case 1
    show ?thesis by (rule by_eq [OF adds_then [OF adds_encode [of mp False s t ok "EndElement n"] adds_flush [OF adds_end_impression [of mp _ _ ev]]]]) (simp_all add: defs 1)
  next
    case 2
    show ?thesis by (rule by_eq [OF adds_then [OF adds_encode [of mp False s t ok "EndElement n"] adds_flush [OF adds_end_error [of mp _ _ ev]]]]) (simp_all add: defs 2)
  next
    case non_linear_ads
    show ?thesis
    proof (cases "injectTracker s")
      case True
      show ?thesis by (rule by_eq [OF adds_end_non_linear_ads [OF True, of mp False t ev ok "EndElement n"]]) (simp_all add: defs non_linear_ads True)
    next
      case False
      have "adds mp False s t (end_non_linear_ads ev ?enc) False s []"
        by (rule adds_cong [OF adds_skip]) (simp add: end_non_linear_ads_def False)
      then show ?thesis using False by (rule_tac by_eq) (cases s, simp_all add: defs non_linear_ads)
    qed
  next
    case 4
    show ?thesis by (rule by_eq [OF adds_end_linear [of mp s t ev ok n]]) (simp_all add: defs 4)
  next
    case 5
    note r = by_eq [OF adds_end_ad [of mp False s t ev ok "EndElement n"]]
    from 5 show ?thesis by (elim disjE) (rule r; simp add: defs)+
  next
    case 6
    have "adds mp False s t (\<lambda>j. and_then (addNonLinearClickTrackingEvent ev (creativeId (ij_state j)) False (Flush j))
        (\<lambda>j. ?enc (upd_state (\<lambda>s. s\<lparr>nonLinearTagFound := True\<rparr>) j))) False (s\<lparr>nonLinearTagFound := True\<rparr>)
        (non_linear_pieces mp ev (creativeId s) False @ [Encoded (EndElement n)])"
      by (rule adds_then [OF adds_flush_creative adds_upd_encode]) (rule adds_events)
    then show ?thesis by (rule by_eq) (simp_all add: defs 6)
  next
    case 7
    have "adds mp False s t (\<lambda>j. addCompanionClickThroughEvent ev (creativeId s) False (Flush (upd_state (\<lambda>s. s\<lparr>companionTagFound := True\<rparr>) j))) True
        (s\<lparr>companionTagFound := True\<rparr>) (companion_pieces mp ev (creativeId s) False)"
      by (rule adds_upd) (rule adds_flush, rule adds_events)
    then have "adds mp False s t (\<lambda>j. addCompanionClickThroughEvent ev (creativeId (ij_state j)) False (Flush (upd_state (\<lambda>s. s\<lparr>companionTagFound := True\<rparr>) j))) True
        (s\<lparr>companionTagFound := True\<rparr>) (companion_pieces mp ev (creativeId s) False)"
      by (rule adds_cong) simp
    from adds_then [OF this adds_encode [of mp True _ _ ok "EndElement n"]] show ?thesis by (rule by_eq) (simp_all add: defs 7)
  next
    case 8
    show ?thesis by (rule by_eq [OF adds_end_companions [of mp False s t ev ok "EndElement n"]]) (simp_all add: defs 8)
  next
    case other
    have "handleEndElement ok ev n j = ?enc (upd_state (\<lambda>s. end_state s n) j)" for j
      using other by (cases j) (simp add: handleEndElement_def end_state_def Let_def)
    then show ?thesis by (rule by_eq [OF adds_upd_encode [of mp False s t ok "EndElement n" "\<lambda>s. end_state s n"]]) (use other in \<open>simp_all add: end_pieces_def Let_def\<close>)
  qed
qed

lemma adds_token: "adds mp False s t (handle_token ok ev tok) False (token_state s tok) (token_pieces mp ev s t tok)"
proof (cases tok)
  case (StartElement n attrs)
  then show ?thesis using adds_start [of mp False s t ok ev n attrs] by (simp add: handle_token_def [abs_def])
next
  case (EndElement n)
  then show ?thesis using adds_end [of mp s t ok ev n] by (simp add: handle_token_def [abs_def])
next
  case (OtherToken x)
  then show ?thesis using adds_encode [of mp False s t ok tok] by (simp add: handle_token_def [abs_def])
next
  case (CharData x)
  show ?thesis
    by (rule addsI) (auto simp: CharData handle_token_def Let_def total_def good_def Flush_def split: if_splits)
qed

lemma token_loop_correct:
  assumes "token_loop ok ev toks j = Inr j'" "good mp j"
  shows "total j' = total j @ spec_run mp ev (ij_state j) (tags_of j) toks \<and> ij_state j' = fold (\<lambda>tok s. token_state s tok) toks (ij_state j)"
  using assms
proof (induction toks arbitrary: j)
  case (Cons tok toks)
  then obtain j1 where j1: "handle_token ok ev tok j = Inr j1" "token_loop ok ev toks j1 = Inr j'"
    by (cases "handle_token ok ev tok j") auto
  note 1 = addsD [OF adds_token Cons.prems(2) refl refl _ j1(1), simplified]
  show ?case using Cons.IH [OF j1(2) 1(1)] 1 by (simp add: Let_def)
qed simp

lemma InjectTracker_loop:
  assumes "InjectTracker raw ok ti vast nurl = Injection out" "ti_replacer ti = NewStringIndexBasedReplacer"
  shows "out = spec_run (ti_provider ti) (ti_events ti) initial_state [] (fst (raw vast))"
    and "inlineWrapperTagFound (fold (\<lambda>tok s. token_state s tok) (fst (raw vast)) initial_state)"
proof -
  let ?j = "\<lparr>ij_state = initial_state, ij_encoder = \<lparr>en_tags = [], en_buffer = []\<rparr>, ij_output = [], ij_provider = ti_provider ti, ij_replacer = ti_replacer ti\<rparr>"
  obtain j where j: "token_loop ok (ti_events ti) (fst (raw vast)) ?j = Inr j" "out = ij_output (Flush j)" "inlineWrapperTagFound (ij_state j)"
    using assms(1) by (auto simp: InjectTracker_def split: if_splits sum.splits inj_error.splits)
  have "good (ti_provider ti) ?j"
    using sr.inv_new assms(2) by (simp add: good_def)
  from token_loop_correct [OF j(1) this] j(2,3)
  show "out = spec_run (ti_provider ti) (ti_events ti) initial_state [] (fst (raw vast))"
    and "inlineWrapperTagFound (fold (\<lambda>tok s. token_state s tok) (fst (raw vast)) initial_state)"
    by (simp_all add: total_def Flush_def)
qed

text \<open>
  C9. The injector implements the transducer: where it succeeds, with the fresh replacer the exchange gives it, the document it returns is
  the output of \<open>spec_run\<close> on the tokens of the input. So trackers stand where the transducer puts them although they are written past
  the encoder, their macros are expanded with the event they stand for, and neither the template cache nor the provider, which is
  changed on the way, influences a later tracker.
\<close>
theorem InjectTracker_refines:
  assumes "InjectTracker raw ok ti vast nurl = Injection out" "ti_replacer ti = NewStringIndexBasedReplacer"
  shows "out = spec_run (ti_provider ti) (ti_events ti) initial_state [] (fst (raw vast))"
  using assms by (rule InjectTracker_loop(1))

section \<open>What is injected\<close>

fun is_impression :: "piece \<Rightarrow> bool" where
  "is_impression (Injected ImpressionEv _) = True"
| "is_impression _ = False"

fun closes_ad :: "xml_token \<Rightarrow> bool" where
  "closes_ad (EndElement n) = (snd n = ''InLine'' \<or> snd n = ''Wrapper'')"
| "closes_ad _ = False"

lemma filter_events [simp]:
  "filter is_impression (tracking_pieces mp ev crid c) = []" "filter is_impression (click_pieces mp ev crid c) = []"
  "filter is_impression (non_linear_pieces mp ev crid c) = []" "filter is_impression (companion_pieces mp ev crid c) = []"
  "is_impression (impression_piece mp ev)" "\<not> is_impression (error_piece mp ev)"
  by (auto simp: tracking_pieces_def click_pieces_def non_linear_pieces_def companion_pieces_def impression_piece_def error_piece_def parent_def tracker_def
      filter_empty_conv)

text \<open>The tracker of an ad is written at its first impression or at its end.\<close>

definition pending :: "InjectionState \<Rightarrow> nat" where
  "pending s = (if impressionTagFound s then 1 else 0)"

lemma token_impressions:
  "\<exists>k. filter is_impression (token_pieces mp ev s t tok) = replicate k (impression_piece mp ev)
     \<and> k + pending s = (if closes_ad tok then 1 else 0) + pending (token_state s tok)"
proof (cases tok)
  case (StartElement n attrs)
  then show ?thesis by (intro exI [of _ 0]) (simp add: start_pieces_def start_state_def pending_def)
next
  case (EndElement n)
  note defs = EndElement end_pieces_def end_state_def Let_def pending_def
  consider "snd n = ''Impression''" | "snd n = ''InLine''" | "snd n = ''Wrapper''" | (other) "snd n \<notin> {''Impression'', ''InLine'', ''Wrapper''}"
    by blast
  then show ?thesis
  proof cases
    case other
    then show ?thesis by (intro exI [of _ 0]) (simp add: defs)
  qed (rule exI [of _ "if impressionTagFound s then 0 else 1"], simp add: defs)+
qed (simp_all add: pending_def exI [of _ 0])

lemma run_impressions:
  "\<exists>k. filter is_impression (spec_run mp ev s t toks) = replicate k (impression_piece mp ev)
     \<and> k + pending s = length (filter closes_ad toks) + pending (fold (\<lambda>tok s. token_state s tok) toks s)"
proof (induction toks arbitrary: s t)
  case (Cons tok toks)
  obtain k where k: "filter is_impression (token_pieces mp ev s t tok) = replicate k (impression_piece mp ev)"
    "k + pending s = (if closes_ad tok then 1 else 0) + pending (token_state s tok)"
    using token_impressions by blast
  obtain l where l: "filter is_impression (spec_run mp ev (token_state s tok) (piece_tags t (token_pieces mp ev s t tok)) toks) = replicate l (impression_piece mp ev)"
    "l + pending (token_state s tok) = length (filter closes_ad toks) + pending (fold (\<lambda>tok s. token_state s tok) toks (token_state s tok))"
    using Cons.IH by blast
  have "filter is_impression (spec_run mp ev s t (tok # toks)) = replicate (k + l) (impression_piece mp ev)"
    by (simp only: spec_run.simps Let_def filter_append k(1) l(1) replicate_add)
  moreover have "k + l + pending s = length (filter closes_ad (tok # toks)) + pending (fold (\<lambda>tok s. token_state s tok) (tok # toks) s)"
    using k(2) l(2) by (simp split: if_splits)
  ultimately show ?case by blast
qed simp

text \<open>
  Every ad gets its impression trackers exactly once: a document the injector returns has one block with the impression URLs of the
  account for every closing \<^verbatim>\<open>InLine\<close> or \<^verbatim>\<open>Wrapper\<close> tag of the input, at least one, and one more if an impression follows the last of them,
  however many impression elements the ads have.
\<close>
theorem impressions_once:
  assumes "InjectTracker raw ok ti vast nurl = Injection out" "ti_replacer ti = NewStringIndexBasedReplacer"
  defines "toks \<equiv> fst (raw vast)"
  shows "filter is_impression out =
      replicate (length (filter closes_ad toks) + pending (fold (\<lambda>tok s. token_state s tok) toks initial_state)) (impression_piece (ti_provider ti) (ti_events ti))
    \<and> 0 < length (filter closes_ad toks)"
proof -
  have inl: "inlineWrapperTagFound (token_state s tok) \<longleftrightarrow> closes_ad tok \<or> inlineWrapperTagFound s" for s tok
    by (cases tok) (auto simp: start_state_def end_state_def)
  have "inlineWrapperTagFound (fold (\<lambda>tok s. token_state s tok) ts s) \<longleftrightarrow> filter closes_ad ts \<noteq> [] \<or> inlineWrapperTagFound s" for ts s
    by (induction ts arbitrary: s) (auto simp: inl)
  then have "filter closes_ad toks \<noteq> []"
    using InjectTracker_loop(2) [OF assms(1,2)] by (simp add: initial_state_def toks_def)
  moreover have "filter is_impression out =
      replicate (length (filter closes_ad toks) + pending (fold (\<lambda>tok s. token_state s tok) toks initial_state)) (impression_piece (ti_provider ti) (ti_events ti))"
    using run_impressions [of "ti_provider ti" "ti_events ti" initial_state "[]" toks] InjectTracker_loop(1) [OF assms(1,2)]
    by (auto simp: initial_state_def toks_def pending_def)
  ultimately show ?thesis by simp
qed

text \<open>Two documents: a plain one, and one whose nonlinear ads have tracking events.\<close>

definition sample_events :: VASTEvents where
  "sample_events = \<lparr>ve_Errors = [], ve_Impressions = [''u##PBS-VASTEVENT##''], ve_VideoClicks = [], ve_NonLinearClickTracking = [], ve_CompanionClickThrough = [],
     ve_TrackingEvents = []\<rparr>"

definition sample_injector :: TrackerInjector where
  "sample_injector = \<lparr>ti_replacer = NewStringIndexBasedReplacer, ti_provider = \<lparr>mp_macros = []\<rparr>, ti_events = sample_events\<rparr>"

definition elem :: "string \<Rightarrow> xml_token list \<Rightarrow> xml_token list" where
  "elem n body = StartElement ([], n) [] # body @ [EndElement ([], n)]"

definition plain_vast :: "xml_token list" where
  "plain_vast = elem ''VAST'' (elem ''Ad'' (elem ''InLine'' (elem ''Impression'' [])))"

definition nonlinear_vast :: "xml_token list" where
  "nonlinear_vast = elem ''VAST'' (elem ''Ad'' (elem ''InLine'' (elem ''Impression'' [] @ elem ''Creatives'' (elem ''Creative'' (elem ''NonLinearAds'' (elem ''TrackingEvents'' []))))))"

text \<open>
  Trackers are never injected into such a document: the end tag of \<^verbatim>\<open>NonLinearAds\<close> is dropped, because the trackers went into the element it already
  has, and the encoder refuses the next end tag.
\<close>

lemma nonlinear_tracking_fails: "InjectTracker (\<lambda>_. (nonlinear_vast, False)) (\<lambda>_ _. True) sample_injector ''x'' [] = ProcessingError"
  by code_simp

lemma sample_injection:
  "InjectTracker (\<lambda>_. (plain_vast, False)) (\<lambda>_ _. True) sample_injector ''x'' [] =
     Injection (map Encoded (take 5 plain_vast) @ [Injected ImpressionEv ''<Impression><![CDATA[uimpression]]></Impression>'', Injected ErrorEv []] @ map Encoded (drop 5 plain_vast))"
  by code_simp

theorem InjectTracker_refines_witness:
  "spec_run \<lparr>mp_macros = []\<rparr> sample_events initial_state [] plain_vast =
     map Encoded (take 5 plain_vast) @ [Injected ImpressionEv ''<Impression><![CDATA[uimpression]]></Impression>'', Injected ErrorEv []] @ map Encoded (drop 5 plain_vast)"
  using InjectTracker_refines [OF sample_injection] by (simp add: sample_injector_def)

theorem impressions_once_witness:
  "\<exists>out. InjectTracker (\<lambda>_. (plain_vast, False)) (\<lambda>_ _. True) sample_injector ''x'' [] = Injection out \<and> length (filter is_impression out) = 1"
proof -
  have "length (filter closes_ad plain_vast) = 1" "pending (fold (\<lambda>tok s. token_state s tok) plain_vast initial_state) = 0"
    by (simp_all add: plain_vast_def elem_def pending_def initial_state_def start_state_def end_state_def)
  with impressions_once [OF sample_injection] sample_injection show ?thesis by (simp add: sample_injector_def)
qed

end
