(* ===== verification/Events.thy ===== *)
theory Events
  imports VastInjector
begin

text \<open>
  Event tracking: the notification URLs and the endpoint that reads them back (\<^verbatim>\<open>endpoints/events/event.go\<close>), the impression URL written into
  VAST by text substitution (\<^verbatim>\<open>endpoints/events/vtrack.go\<close>), and the step of the auction that puts both into its bids
  (\<^verbatim>\<open>exchange/events.go\<close>). Query strings are parsed as \<^verbatim>\<open>net/url\<close> does. \<^verbatim>\<open>strconv.ParseFloat\<close>, the tables of known bidders and of
  Unicode letters, and the account service are arguments.
\<close>

section \<open>Query strings\<close>

definition cut_at :: "char \<Rightarrow> string \<Rightarrow> string \<times> string" where
  "cut_at d s = (takeWhile (\<lambda>c. c \<noteq> d) s, drop 1 (dropWhile (\<lambda>c. c \<noteq> d) s))"

definition query_part :: "string \<Rightarrow> (string \<times> string) list" where
  "query_part s =
     (if s = [] \<or> CHR '';'' \<in> set s then []
      else (let (k, v) = cut_at (CHR ''='') s in
        case (QueryUnescape k, QueryUnescape v) of (Some k', Some v') \<Rightarrow> [(k', v')] | _ \<Rightarrow> []))"

definition ParseQuery :: "string \<Rightarrow> (string \<times> string) list" where
  "ParseQuery q = concat (map query_part (split_at (CHR ''&'') q))"

definition query_Get :: "(string \<times> string) list \<Rightarrow> string \<Rightarrow> string" where
  "query_Get q k = map_get [] q k"

definition raw_query :: "string \<Rightarrow> string" where
  "raw_query u = snd (cut_at (CHR ''?'') (fst (cut_at (CHR ''#'') u)))"

fun string_less :: "string \<Rightarrow> string \<Rightarrow> bool" where
  "string_less [] [] = False"
| "string_less [] (_ # _) = True"
| "string_less (_ # _) [] = False"
| "string_less (a # s) (b # t) = (byte_val a < byte_val b \<or> a = b \<and> string_less s t)"

definition pair_text :: "string \<times> string \<Rightarrow> string" where
  "pair_text kv = QueryEscape (fst kv) @ ''='' @ QueryEscape (snd kv)"

text \<open>\<^verbatim>\<open>url.Values.Encode\<close>, for values with one entry per key: sorted by key.\<close>

definition Values_Encode :: "(string \<times> string) list \<Rightarrow> string" where
  "Values_Encode kvs = join_with ''&'' (map pair_text (stable_sort (\<lambda>a b. string_less (fst a) (fst b)) kvs))"

text \<open>\<^verbatim>\<open>strconv.ParseInt\<close> in base 10 with 64 bits; \<open>None\<close>: a syntax or range error.\<close>

definition parse_digits :: "string \<Rightarrow> nat option" where
  "parse_digits s = (if s \<noteq> [] \<and> list_all (\<lambda>c. 48 \<le> byte_val c \<and> byte_val c \<le> 57) s then Some (digits_val 0 s) else None)"

definition ParseInt :: "string \<Rightarrow> int option" where
  "ParseInt s =
     (let neg = (s \<noteq> [] \<and> hd s = CHR ''-'');
          s' = (if s \<noteq> [] \<and> (hd s = CHR ''-'' \<or> hd s = CHR ''+'') then tl s else s)
      in case parse_digits s' of
           None \<Rightarrow> None
         | Some n \<Rightarrow> if neg then (if n \<le> 2 ^ 63 then Some (- int n) else None) else (if n < 2 ^ 63 then Some (int n) else None))"

section \<open>Event requests\<close>

datatype EventType = Win | Imp | Vast | NoType
datatype ResponseFormat = Blank | Image | NoFormat
datatype VastType = Start | FirstQuartile | MidPoint | ThirdQuartile | Complete | NoVType
datatype Analytics = Enabled | Disabled | NoAnalytics

record EventRequest =
  er_Type :: EventType
  er_Format :: ResponseFormat
  er_Analytics :: Analytics
  er_BidID :: string
  er_AccountID :: string
  er_Bidder :: string
  er_Timestamp :: int
  er_Integration :: string
  er_VType :: VastType
  er_Price :: float64
  er_Adomain :: string
  er_ImpID :: string
  er_Width :: int
  er_Height :: int
  er_PbsVersion :: string

fun type_text :: "EventType \<Rightarrow> string" where
  "type_text Win = ''win''" | "type_text Imp = ''imp''" | "type_text Vast = ''vast''" | "type_text NoType = []"

definition add_if :: "bool \<Rightarrow> string \<Rightarrow> string \<Rightarrow> (string \<times> string) list" where
  "add_if c k v = (if c then [(k, v)] else [])"

definition optional_values :: "EventRequest \<Rightarrow> (string \<times> string) list" where
  "optional_values r =
     add_if (er_Timestamp r > 0) ''ts'' (FormatInt (er_Timestamp r)) @ add_if (er_Bidder r \<noteq> []) ''bidder'' (er_Bidder r) @
     add_if (er_Format r \<noteq> NoFormat) ''f'' (if er_Format r = Blank then ''b'' else ''i'') @
     add_if (er_Analytics r \<noteq> NoAnalytics) ''x'' (if er_Analytics r = Enabled then ''1'' else ''0'') @
     add_if (er_Integration r \<noteq> []) ''int'' (er_Integration r) @ add_if (er_Price r > 0) ''price'' (FormatFloat (er_Price r) (-1)) @
     add_if (er_Adomain r \<noteq> []) ''adomain'' (er_Adomain r) @ add_if (er_ImpID r \<noteq> []) ''impid'' (er_ImpID r) @
     add_if (er_Width r > 0) ''w'' (FormatInt (er_Width r)) @ add_if (er_Height r > 0) ''h'' (FormatInt (er_Height r)) @
     add_if (er_PbsVersion r \<noteq> []) ''pbs_version'' (er_PbsVersion r)"

definition optionalParameters :: "EventRequest \<Rightarrow> string" where
  "optionalParameters r = (let opt = Values_Encode (optional_values r) in if opt \<noteq> [] then ''&'' @ opt else opt)"

text \<open>The bid and the account go into the URL as they are.\<close>

definition EventRequestToUrl :: "string \<Rightarrow> EventRequest \<Rightarrow> string" where
  "EventRequestToUrl externalUrl r =
     externalUrl @ ''/event?t='' @ type_text (er_Type r) @ ''&b='' @ er_BidID r @ ''&a='' @ er_AccountID r @ optionalParameters r"

datatype event_error =
    ParameterRequired string | UnknownType string | VTypeOnlyForVast | UnknownVType string | TimestampInvalid string | UnknownFormat string
  | UnknownAnalytics string | IntegrationTooLong | IntegrationCharacters

definition checkRequiredParameter :: "(string \<times> string) list \<Rightarrow> string \<Rightarrow> event_error + string" where
  "checkRequiredParameter q parameter = (let t = query_Get q parameter in if t = [] then Inl (ParameterRequired parameter) else Inr t)"

definition readType :: "(string \<times> string) list \<Rightarrow> EventRequest \<Rightarrow> EventRequest \<times> event_error list" where
  "readType q er =
     (case checkRequiredParameter q ''t'' of
        Inl e \<Rightarrow> (er, [e])
      | Inr t \<Rightarrow>
          if t = ''imp'' then (er\<lparr>er_Type := Imp\<rparr>, []) else if t = ''win'' then (er\<lparr>er_Type := Win\<rparr>, [])
          else if t = ''vast'' then (er\<lparr>er_Type := Vast\<rparr>, []) else (er, [UnknownType t]))"

definition readVType :: "(string \<times> string) list \<Rightarrow> EventRequest \<Rightarrow> EventRequest \<times> event_error list" where
  "readVType q er =
     (case checkRequiredParameter q ''vtype'' of
        Inl e \<Rightarrow> (er, [e])
      | Inr t \<Rightarrow>
          if t = ''start'' then (er\<lparr>er_VType := Start\<rparr>, []) else if t = ''firstQuartile'' then (er\<lparr>er_VType := FirstQuartile\<rparr>, [])
          else if t = ''midPoint'' then (er\<lparr>er_VType := MidPoint\<rparr>, []) else if t = ''thirdQuartile'' then (er\<lparr>er_VType := ThirdQuartile\<rparr>, [])
          else if t = ''complete'' then (er\<lparr>er_VType := Complete\<rparr>, []) else (er, [UnknownVType t]))"

definition readFormat :: "(string \<times> string) list \<Rightarrow> EventRequest \<Rightarrow> EventRequest \<times> event_error list" where
  "readFormat q er =
     (let f = query_Get q ''f'' in
      if f \<noteq> [] then
        (if f = ''b'' then (er\<lparr>er_Format := Blank\<rparr>, []) else if f = ''i'' then (er\<lparr>er_Format := Image\<rparr>, []) else (er, [UnknownFormat f]))
      else (er, []))"

definition readAnalytics :: "(string \<times> string) list \<Rightarrow> EventRequest \<Rightarrow> EventRequest \<times> event_error list" where
  "readAnalytics q er =
     (let a = query_Get q ''x'' in
      if a \<noteq> [] then
        (if a = ''1'' then (er\<lparr>er_Analytics := Enabled\<rparr>, []) else if a = ''0'' then (er\<lparr>er_Analytics := Disabled\<rparr>, []) else (er, [UnknownAnalytics a]))
      else (er\<lparr>er_Analytics := Enabled\<rparr>, []))"

definition readTimestamp :: "(string \<times> string) list \<Rightarrow> EventRequest \<Rightarrow> EventRequest \<times> event_error list" where
  "readTimestamp q er =
     (let t = query_Get q ''ts'' in
      if t \<noteq> [] then (case ParseInt t of None \<Rightarrow> (er, [TimestampInvalid t]) | Some ts \<Rightarrow> (er\<lparr>er_Timestamp := ts\<rparr>, [])) else (er, []))"

text \<open>Letters and digits beyond ASCII are those of the Unicode tables: \<open>uni\<close>.\<close>

definition integration_rune :: "(string \<Rightarrow> bool) \<Rightarrow> string \<Rightarrow> bool" where
  "integration_rune uni r =
     (case r of
        [c] \<Rightarrow> (let x = byte_val c in 48 \<le> x \<and> x \<le> 57 \<or> 65 \<le> x \<and> x \<le> 90 \<or> 97 \<le> x \<and> x \<le> 122 \<or> c = CHR ''-'' \<or> c = CHR ''_'')
      | _ \<Rightarrow> uni r)"

definition validateIntegrationType :: "(string \<Rightarrow> bool) \<Rightarrow> string \<Rightarrow> event_error option" where
  "validateIntegrationType uni s =
     (if length s > 64 then Some IntegrationTooLong
      else if list_all (integration_rune uni) (runes s) then None else Some IntegrationCharacters)"

definition readIntegrationType :: "(string \<Rightarrow> bool) \<Rightarrow> (string \<times> string) list \<Rightarrow> EventRequest \<Rightarrow> EventRequest \<times> event_error list" where
  "readIntegrationType uni q er =
     (let t = query_Get q ''int'' in case validateIntegrationType uni t of Some e \<Rightarrow> (er, [e]) | None \<Rightarrow> (er\<lparr>er_Integration := t\<rparr>, []))"

definition zero_EventRequest :: EventRequest where
  "zero_EventRequest = \<lparr>er_Type = NoType, er_Format = NoFormat, er_Analytics = NoAnalytics, er_BidID = [], er_AccountID = [], er_Bidder = [], er_Timestamp = 0,
     er_Integration = [], er_VType = NoVType, er_Price = 0, er_Adomain = [], er_ImpID = [], er_Width = 0, er_Height = 0, er_PbsVersion = []\<rparr>"

text \<open>The arguments the code does not read from the request.\<close>

record event_env =
  ee_normalize :: "string \<Rightarrow> string option"
  ee_letters :: "string \<Rightarrow> bool"
  ee_ParseFloat :: "string \<Rightarrow> float64 option"

definition set_optional :: "event_env \<Rightarrow> (string \<times> string) list \<Rightarrow> EventRequest \<Rightarrow> EventRequest" where
  "set_optional env q er =
     (let bidder = query_Get q ''bidder''; p = query_Get q ''price''; w = query_Get q ''w''; h = query_Get q ''h''
      in er\<lparr>er_Bidder := (case ee_normalize env bidder of Some b \<Rightarrow> b | None \<Rightarrow> bidder),
            er_Price := (if p = [] then er_Price er else case ee_ParseFloat env p of Some x \<Rightarrow> x | None \<Rightarrow> er_Price er),
            er_Adomain := query_Get q ''adomain'', er_ImpID := query_Get q ''impid'',
            er_Width := (if w = [] then er_Width er else case ParseInt w of Some x \<Rightarrow> x | None \<Rightarrow> er_Width er),
            er_Height := (if h = [] then er_Height er else case ParseInt h of Some x \<Rightarrow> x | None \<Rightarrow> er_Height er),
            er_PbsVersion := query_Get q ''pbs_version''\<rparr>)"

definition ParseEventRequest :: "event_env \<Rightarrow> (string \<times> string) list \<Rightarrow> EventRequest \<times> event_error list" where
  "ParseEventRequest env q =
     (let (er, e1) = readType q zero_EventRequest;
          (er, e2) = (if er_Type er = Vast then readVType q er else (er, if query_Get q ''vtype'' \<noteq> [] then [VTypeOnlyForVast] else []));
          (er, e3) = (case checkRequiredParameter q ''b'' of Inl e \<Rightarrow> (er, [e]) | Inr b \<Rightarrow> (er\<lparr>er_BidID := b\<rparr>, []));
          (er, e4) = readTimestamp q er;
          (er, e5) = readFormat q er;
          (er, e6) = readAnalytics q er;
          (er, e7) = readIntegrationType (ee_letters env) q er
      in (set_optional env q er, e1 @ e2 @ e3 @ e4 @ e5 @ e6 @ e7))"

section \<open>Reading back\<close>

lemma pair_text_chars: "c \<in> set (pair_text kv) \<Longrightarrow> unreserved c \<or> c = CHR ''+'' \<or> c = CHR ''%'' \<or> c = CHR ''=''"
  by (auto simp: pair_text_def dest: set_QueryEscape)

lemma not_in_pair_text [simp]:
  "CHR ''&'' \<notin> set (pair_text kv)" "CHR '';'' \<notin> set (pair_text kv)" "CHR ''#'' \<notin> set (pair_text kv)"
  using pair_text_chars [of _ kv] by (force simp: unreserved_def byte_val_def)+

lemma eq_not_in_escape [simp]: "CHR ''='' \<notin> set (QueryEscape s)"
  using set_QueryEscape [of "CHR ''=''" s] by auto

lemma cut_at_append [simp]: "d \<notin> set s \<Longrightarrow> cut_at d (s @ d # t) = (s, t)"
  by (auto simp: cut_at_def takeWhile_append dropWhile_append)

lemma cut_at_absent: "d \<notin> set s \<Longrightarrow> cut_at d s = (s, [])"
proof -
  assume "d \<notin> set s"
  then have "takeWhile (\<lambda>c. c \<noteq> d) s = s" "dropWhile (\<lambda>c. c \<noteq> d) s = []"
    by (auto simp: takeWhile_eq_all_conv dropWhile_eq_Nil_conv)
  then show ?thesis by (simp only: cut_at_def) simp
qed

lemma query_part_pair [simp]: "query_part (pair_text kv) = [kv]"
  using not_in_pair_text(2) [of kv] by (cases kv) (simp add: query_part_def pair_text_def)

text \<open>Text that goes into a query as it is and comes out unchanged.\<close>

definition query_safe :: "string \<Rightarrow> bool" where
  "query_safe s \<longleftrightarrow> list_all (\<lambda>c. c \<notin> {CHR ''&'', CHR '';'', CHR ''+'', CHR ''%'', CHR ''#''}) s"

lemma QueryUnescape_safe: "query_safe s \<Longrightarrow> QueryUnescape s = Some s"
  by (induction s) (auto simp: query_safe_def)

lemma query_part_safe: "query_safe k \<Longrightarrow> query_safe v \<Longrightarrow> CHR ''='' \<notin> set k \<Longrightarrow> query_part (k @ CHR ''='' # v) = [(k, v)]"
  by (auto simp: query_part_def QueryUnescape_safe query_safe_def list_all_iff)

lemma join_with_append: "xs \<noteq> [] \<Longrightarrow> ys \<noteq> [] \<Longrightarrow> join_with d (xs @ ys) = join_with d xs @ d @ join_with d ys"
proof (induction xs)
  case (Cons x xs)
  then show ?case by (cases xs; cases ys) auto
qed simp

lemma join_with_Nil_iff: "(\<And>s. s \<in> set ss \<Longrightarrow> s \<noteq> []) \<Longrightarrow> join_with d ss = [] \<longleftrightarrow> ss = []"
  by (cases "(d, ss)" rule: join_with.cases) auto

lemma set_join_with: "c \<in> set (join_with d ss) \<Longrightarrow> c \<in> set d \<or> (\<exists>s\<in>set ss. c \<in> set s)"
  by (induction d ss rule: join_with.induct) auto

definition sorted_values :: "EventRequest \<Rightarrow> (string \<times> string) list" where
  "sorted_values r = stable_sort (\<lambda>a b. string_less (fst a) (fst b)) (optional_values r)"

definition url_fields :: "EventRequest \<Rightarrow> string list" where
  "url_fields r = [''t='' @ type_text (er_Type r), ''b='' @ er_BidID r, ''a='' @ er_AccountID r] @ map pair_text (sorted_values r)"

lemma EventRequestToUrl_join: "EventRequestToUrl ext r = (ext @ ''/event'') @ CHR ''?'' # join_with ''&'' (url_fields r)"
proof -
  have "Values_Encode (optional_values r) = [] \<longleftrightarrow> sorted_values r = []"
    using join_with_Nil_iff [of "map pair_text (sorted_values r)" "''&''"] by (auto simp: Values_Encode_def sorted_values_def pair_text_def)
  then show ?thesis
    using join_with_append [of "[''t='' @ type_text (er_Type r), ''b='' @ er_BidID r, ''a='' @ er_AccountID r]" "map pair_text (sorted_values r)" "''&''"]
    by (cases "sorted_values r") (auto simp: EventRequestToUrl_def url_fields_def optionalParameters_def Let_def Values_Encode_def sorted_values_def)
qed

lemma type_text_safe [simp]: "query_safe (type_text t)"
  by (cases t) (simp_all add: query_safe_def)

lemma ParseQuery_url:
  assumes "query_safe (er_BidID r)" "query_safe (er_AccountID r)" "CHR ''?'' \<notin> set ext" "CHR ''#'' \<notin> set ext"
  shows "ParseQuery (raw_query (EventRequestToUrl ext r)) =
    [(''t'', type_text (er_Type r)), (''b'', er_BidID r), (''a'', er_AccountID r)] @ sorted_values r"
proof -
  let ?Q = "join_with ''&'' (url_fields r)"
  have safe: "query_safe s \<Longrightarrow> c \<in> {CHR ''&'', CHR ''#''} \<Longrightarrow> c \<notin> set s" for s c
    by (auto simp: query_safe_def list_all_iff)
  have fields: "c \<notin> set f" if "f \<in> set (url_fields r)" "c \<in> {CHR ''&'', CHR ''#''}" for f c
  proof -
    have "c \<notin> set (er_BidID r)" "c \<notin> set (er_AccountID r)" "c \<notin> set (type_text (er_Type r))"
      by (rule safe [OF assms(1) that(2)], rule safe [OF assms(2) that(2)], rule safe [OF type_text_safe that(2)])
    moreover have "c \<notin> set (pair_text kv)" for kv using that(2) by auto
    ultimately show ?thesis using that by (auto simp: url_fields_def)
  qed
  have "CHR ''#'' \<notin> set ?Q"
    using fields set_join_with [of "CHR ''#''" "''&''" "url_fields r"] by auto
  then have "cut_at (CHR ''#'') (EventRequestToUrl ext r) = (EventRequestToUrl ext r, [])"
    using assms(4) by (intro cut_at_absent) (simp add: EventRequestToUrl_join)
  then have "raw_query (EventRequestToUrl ext r) = ?Q"
    using cut_at_append [of "CHR ''?''" "ext @ ''/event''" ?Q] assms(3) by (simp add: raw_query_def EventRequestToUrl_join)
  moreover have "split_at (CHR ''&'') ?Q = url_fields r"
    by (rule split_at_join) (use fields in \<open>auto simp: url_fields_def\<close>)
  moreover have "concat (map query_part (map pair_text kvs)) = kvs" for kvs
    by (induction kvs) simp_all
  moreover have "query_part (''t='' @ type_text (er_Type r)) = [(''t'', type_text (er_Type r))]" "query_part (''b='' @ er_BidID r) = [(''b'', er_BidID r)]"
    "query_part (''a='' @ er_AccountID r) = [(''a'', er_AccountID r)]"
    using query_part_safe [of "''t''" "type_text (er_Type r)"] query_part_safe [of "''b''" "er_BidID r"] query_part_safe [of "''a''" "er_AccountID r"]
      assms(1,2) by (simp_all add: query_safe_def [of "[_]"])
  ultimately show ?thesis
    by (simp only: ParseQuery_def url_fields_def map_append concat_append) simp
qed

text \<open>Lookups in the optional parameters.\<close>

lemma map_get_add_if [simp]: "map_get z (add_if c k v @ kvs) t = (if c \<and> t = k then v else map_get z kvs t)"
  "map_get z (add_if c k v) t = (if c \<and> t = k then v else z)"
  by (simp_all add: add_if_def map_get_Cons)

lemma keys_add_if: "k \<noteq> k' \<Longrightarrow> k \<notin> fst ` set kvs \<Longrightarrow> k \<notin> fst ` set (add_if c k' v @ kvs)"
  by (auto simp: add_if_def)

lemma wf_add_if: "k \<notin> fst ` set kvs \<Longrightarrow> wf_map kvs \<Longrightarrow> wf_map (add_if c k v @ kvs)"
  by (simp add: add_if_def wf_map_def)

lemma wf_optional_values: "wf_map (optional_values r)"
proof -
  have "wf_map (optional_values r @ [])"
    unfolding optional_values_def append_assoc by (intro wf_add_if keys_add_if wf_map_empty) simp_all
  then show ?thesis by simp
qed

lemma map_get_sorted: "map_get z (sorted_values r) k = map_get z (optional_values r) k"
  using map_of_perm [OF wf_optional_values, of r "sorted_values r"] by (simp add: map_get_def sorted_values_def)

lemma optional_values_no_required [simp]:
  "map_get z (optional_values r) ''vtype'' = z" "map_get z (optional_values r) ''t'' = z" "map_get z (optional_values r) ''b'' = z"
  by (simp_all add: optional_values_def)

lemma nat_digits_bytes: "c \<in> set (nat_digits n) \<Longrightarrow> 48 \<le> byte_val c \<and> byte_val c \<le> 57"
proof (induction n rule: nat_digits.induct)
  case (1 n)
  have "byte_val (digit_char d) = d + 48" if "d < 10" for d
    using that by (simp add: digit_char_def byte_val_def)
  with 1 show ?case by (subst (asm) nat_digits.simps) (auto split: if_splits)
qed

lemma ParseInt_FormatInt:
  assumes "0 \<le> n" "n < 2 ^ 63"
  shows "ParseInt (FormatInt n) = Some n"
proof -
  obtain c s where d: "nat_digits (nat n) = c # s" by (cases "nat_digits (nat n)") simp_all
  have "c \<noteq> CHR ''-'' \<and> c \<noteq> CHR ''+''"
    using nat_digits_bytes [of c "nat n"] d by (auto simp: byte_val_def)
  moreover have "parse_digits (nat_digits (nat n)) = Some (nat n)"
    using nat_digits_bytes [of _ "nat n"] by (auto simp: parse_digits_def list_all_iff)
  moreover have "nat n < 2 ^ 63" using assms by (simp add: nat_less_iff)
  ultimately show ?thesis
    using assms d by (simp add: ParseInt_def FormatInt_def Let_def)
qed

lemma FormatInt_not_Nil [simp]: "FormatInt n \<noteq> []"
  by (simp add: FormatInt_def)

text \<open>What an event request must be for its URL to say all of it.\<close>

definition printable_event :: "event_env \<Rightarrow> EventRequest \<Rightarrow> bool" where
  "printable_event env r \<longleftrightarrow>
     (er_Type r = Win \<or> er_Type r = Imp) \<and> er_VType r = NoVType
     \<and> er_BidID r \<noteq> [] \<and> query_safe (er_BidID r) \<and> er_AccountID r \<noteq> [] \<and> query_safe (er_AccountID r)
     \<and> 0 \<le> er_Timestamp r \<and> er_Timestamp r < 2 ^ 63 \<and> 0 \<le> er_Width r \<and> er_Width r < 2 ^ 63 \<and> 0 \<le> er_Height r \<and> er_Height r < 2 ^ 63
     \<and> validateIntegrationType (ee_letters env) (er_Integration r) = None
     \<and> (ee_normalize env (er_Bidder r) = None \<or> ee_normalize env (er_Bidder r) = Some (er_Bidder r))
     \<and> (er_Price r = 0 \<or> er_Price r > 0 \<and> FormatFloat (er_Price r) (-1) \<noteq> [] \<and> ee_ParseFloat env (FormatFloat (er_Price r) (-1)) = Some (er_Price r))"

lemma query_Get_url:
  assumes "printable_event env r" "CHR ''?'' \<notin> set ext" "CHR ''#'' \<notin> set ext"
  shows "query_Get (ParseQuery (raw_query (EventRequestToUrl ext r))) k =
    (if k = ''t'' then type_text (er_Type r) else if k = ''b'' then er_BidID r else if k = ''a'' then er_AccountID r
     else map_get [] (optional_values r) k)"
  using assms by (simp add: printable_event_def ParseQuery_url query_Get_def map_get_Cons map_get_sorted)

lemma optional_gets:
  "map_get [] (optional_values r) ''ts'' = (if er_Timestamp r > 0 then FormatInt (er_Timestamp r) else [])"
  "map_get [] (optional_values r) ''bidder'' = er_Bidder r"
  "map_get [] (optional_values r) ''f'' = (case er_Format r of NoFormat \<Rightarrow> [] | Blank \<Rightarrow> ''b'' | Image \<Rightarrow> ''i'')"
  "map_get [] (optional_values r) ''x'' = (case er_Analytics r of NoAnalytics \<Rightarrow> [] | Enabled \<Rightarrow> ''1'' | Disabled \<Rightarrow> ''0'')"
  "map_get [] (optional_values r) ''int'' = er_Integration r"
  "map_get [] (optional_values r) ''price'' = (if er_Price r > 0 then FormatFloat (er_Price r) (-1) else [])"
  "map_get [] (optional_values r) ''adomain'' = er_Adomain r"
  "map_get [] (optional_values r) ''impid'' = er_ImpID r"
  "map_get [] (optional_values r) ''w'' = (if er_Width r > 0 then FormatInt (er_Width r) else [])"
  "map_get [] (optional_values r) ''h'' = (if er_Height r > 0 then FormatInt (er_Height r) else [])"
  "map_get [] (optional_values r) ''pbs_version'' = er_PbsVersion r"
  by (simp_all add: optional_values_def del: FormatFloat.simps split: ResponseFormat.split Analytics.split)


definition sample_env :: event_env where
  "sample_env = \<lparr>ee_normalize = (\<lambda>b. if ToLower b = ''appnexus'' then Some ''appnexus'' else None), ee_letters = (\<lambda>_. False), ee_ParseFloat = (\<lambda>s. Some (Fin (decimal_value s)))\<rparr>"

definition sample_event :: EventRequest where
  "sample_event = zero_EventRequest\<lparr>er_Type := Win, er_BidID := ''bid-1'', er_AccountID := ''acc'', er_Bidder := ''appnexus'', er_Timestamp := 1700000000,
     er_Integration := ''web'', er_Price := Fin (5 / 4), er_Adomain := ''a&b.com'', er_Width := 300\<rparr>"


text \<open>
  The bid ID is not escaped: a bidder that chooses it can name another account, since the first value of a parameter counts.
\<close>

lemma bid_id_replaces_account:
  "query_Get (ParseQuery (raw_query (EventRequestToUrl ''http://host'' (zero_EventRequest\<lparr>er_Type := Win, er_BidID := ''x&a=other'', er_AccountID := ''acc''\<rparr>)))) ''a'' = ''other''"
  by code_simp

text \<open>A VAST event is written without its type, so the endpoint refuses the URL.\<close>

lemma vast_event_unreadable:
  "snd (ParseEventRequest sample_env (ParseQuery (raw_query (EventRequestToUrl ''http://host'' (zero_EventRequest\<lparr>er_Type := Vast, er_VType := Start, er_BidID := ''x'', er_AccountID := ''acc''\<rparr>))))) =
     [ParameterRequired ''vtype'']"
  by code_simp

section \<open>The notification endpoint\<close>

datatype account_code = BlockedApp | AccountDisabled | MalformedAcct | TimeoutCode | OtherCode

text \<open>An error of the account service: whether it is an exceeded deadline, and its code.\<close>

type_synonym account_error = "bool \<times> account_code"

fun account_status :: "account_error list \<Rightarrow> int \<Rightarrow> int" where
  "account_status [] status = status"
| "account_status ((deadline, c) # errs) status =
    (let code = (if deadline then TimeoutCode else c);
         status = (if code = BlockedApp \<or> code = AccountDisabled then 503 else status);
         status = (if code = MalformedAcct then 500 else status);
         status = (if code = TimeoutCode \<and> status = 400 then 504 else status)
     in account_status errs status)"

definition HandleAccountServiceErrors :: "account_error list \<Rightarrow> int" where
  "HandleAccountServiceErrors errs = account_status errs 400"

record event_response =
  rs_status :: int
  rs_logged :: "EventRequest option"
  rs_pixel :: bool

definition answer :: "int \<Rightarrow> event_response" where
  "answer st = \<lparr>rs_status = st, rs_logged = None, rs_pixel = False\<rparr>"

definition event_Handle :: "event_env \<Rightarrow> (string \<Rightarrow> account_error list \<times> bool) \<Rightarrow> (string \<times> string) list \<Rightarrow> event_response" where
  "event_Handle env get_account q =
     (let (er, errs) = ParseEventRequest env q in
      if errs \<noteq> [] then answer 400
      else
        (case checkRequiredParameter q ''a'' of
           Inl _ \<Rightarrow> answer 401
         | Inr acc \<Rightarrow>
             let er = er\<lparr>er_AccountID := acc\<rparr>
             in if er_Analytics er \<noteq> Enabled then answer 204
                else
                  let (errs, eventsEnabled) = get_account acc
                  in if errs \<noteq> [] then answer (HandleAccountServiceErrors errs)
                     else if \<not> eventsEnabled then answer 401
                     else if er_Format er = Image then \<lparr>rs_status = 200, rs_logged = Some er, rs_pixel = True\<rparr>
                     else \<lparr>rs_status = 204, rs_logged = Some er, rs_pixel = False\<rparr>))"

lemma account_status_range: "st \<in> {400, 503, 500, 504} \<Longrightarrow> account_status errs st \<in> {400, 503, 500, 504}"
  by (induction errs st rule: account_status.induct) (auto simp: Let_def)


section \<open>The impression URL in VAST\<close>

definition GetVastUrlTracking :: "string \<Rightarrow> string \<Rightarrow> string \<Rightarrow> string \<Rightarrow> int \<Rightarrow> string \<Rightarrow> string" where
  "GetVastUrlTracking externalUrl bidid bidder accountId timestamp integration =
     EventRequestToUrl externalUrl (zero_EventRequest\<lparr>er_Type := Imp, er_BidID := bidid, er_AccountID := accountId, er_Bidder := bidder,
       er_Timestamp := timestamp, er_Format := Blank, er_Integration := integration\<rparr>)"

definition ImpressionOpenTag :: string where "ImpressionOpenTag = ''<Impression>''"
definition ImpressionCloseTag :: string where "ImpressionCloseTag = ''</Impression>''"

definition ModifyVastXmlString :: "string \<Rightarrow> string \<Rightarrow> string \<Rightarrow> string \<Rightarrow> string \<Rightarrow> int \<Rightarrow> string \<Rightarrow> string \<times> bool" where
  "ModifyVastXmlString externalUrl vast bidid bidder accountID timestamp integrationType =
     (let ci = Index vast ImpressionCloseTag in
      if ci = -1 then (vast, False)
      else
        let impressionUrl = ''<![CDATA['' @ GetVastUrlTracking externalUrl bidid bidder accountID timestamp integrationType @ '']]>'';
            oi = Index vast ImpressionOpenTag
        in if ci - oi = int (length ImpressionOpenTag)
           then (ReplaceOne vast ImpressionOpenTag (ImpressionOpenTag @ impressionUrl), True)
           else (ReplaceOne vast ImpressionCloseTag (ImpressionCloseTag @ ImpressionOpenTag @ impressionUrl @ ImpressionCloseTag), True))"

definition ModifyVastXmlJSON :: "(string \<Rightarrow> string option) \<Rightarrow> string \<Rightarrow> string \<Rightarrow> string \<Rightarrow> string \<Rightarrow> string \<Rightarrow> int \<Rightarrow> string \<Rightarrow> string" where
  "ModifyVastXmlJSON unmarshal externalUrl data bidid bidder accountId timestamp integrationType =
     (let vast = (case unmarshal data of Some v \<Rightarrow> v | None \<Rightarrow> data);
          (vast, ok) = ModifyVastXmlString externalUrl vast bidid bidder accountId timestamp integrationType
      in if ok then vast else data)"

text \<open>
  The document that \<^verbatim>\<open>ModifyVastXmlString\<close> returns is the old one with one insertion, the event URL in a CDATA section, into the first
  impression element if that is empty and in an element of its own behind the first one otherwise; it reports a change exactly when
  an impression element is closed. Only a document without an opening tag, whose closing tag starts at the eleventh byte, is reported as changed although it is not.
\<close>
theorem ModifyVastXmlString_inserts:
  "let url = ''<![CDATA['' @ GetVastUrlTracking host bidid bidder acc ts integration @ '']]>'';
       (vast', ok) = ModifyVastXmlString host vast bidid bidder acc ts integration
   in (ok \<longleftrightarrow> Contains vast ImpressionCloseTag)
     \<and> (vast' = vast \<and> \<not> ok \<or> vast' = vast \<and> Index vast ImpressionCloseTag = 11 \<and> \<not> Contains vast ImpressionOpenTag
       \<or> (\<exists>i. vast' = take i vast @ url @ drop i vast)
       \<or> (\<exists>i. vast' = take i vast @ ImpressionOpenTag @ url @ ImpressionCloseTag @ drop i vast))"
proof -
  define url where "url = ''<![CDATA['' @ GetVastUrlTracking host bidid bidder acc ts integration @ '']]>''"
  define res where "res = ModifyVastXmlString host vast bidid bidder acc ts integration"
  note res = res_def ModifyVastXmlString_def url_def
  have split: "take (n + length sub) vast = take n vast @ sub" if "find_sub sub vast = Some n" for sub n
    using find_sub_Some [OF that] by (simp add: take_add)
  have "(snd res \<longleftrightarrow> Contains vast ImpressionCloseTag)
     \<and> (fst res = vast \<and> \<not> snd res \<or> fst res = vast \<and> Index vast ImpressionCloseTag = 11 \<and> \<not> Contains vast ImpressionOpenTag
       \<or> (\<exists>i. fst res = take i vast @ url @ drop i vast)
       \<or> (\<exists>i. fst res = take i vast @ ImpressionOpenTag @ url @ ImpressionCloseTag @ drop i vast))"
  proof (cases "find_sub ImpressionCloseTag vast")
    case None
    then show ?thesis by (simp add: res Index_def Contains_def)
  next
    case (Some c)
    then have ci: "Index vast ImpressionCloseTag = int c" "Contains vast ImpressionCloseTag" by (simp_all add: Index_def Contains_def)
    consider (none) "find_sub ImpressionOpenTag vast = None" "c = 11"
      | (inside) n where "find_sub ImpressionOpenTag vast = Some n" "c = n + length ImpressionOpenTag"
      | (behind) "int c - Index vast ImpressionOpenTag \<noteq> int (length ImpressionOpenTag)"
      by (cases "find_sub ImpressionOpenTag vast") (force simp: Index_def ImpressionOpenTag_def)+
    then show ?thesis
    proof cases
      case none
      then show ?thesis by (simp add: res ci Let_def ReplaceOne_def) (simp add: Index_def Contains_def ImpressionOpenTag_def ReplaceOne_def)
    next
      case inside
      have "res = (take (n + length ImpressionOpenTag) vast @ url @ drop (n + length ImpressionOpenTag) vast, True)"
      proof -
        have "Index vast ImpressionOpenTag = int n" using inside(1) by (simp add: Index_def)
        then show ?thesis using inside split [OF inside(1)] by (simp add: res ci Let_def ReplaceOne_def)
      qed
      then show ?thesis using ci by auto
    next
      case behind
      have "res = (take (c + length ImpressionCloseTag) vast @ ImpressionOpenTag @ url @ ImpressionCloseTag @ drop (c + length ImpressionCloseTag) vast, True)"
        using behind split [OF Some] Some by (simp add: res ci Let_def ReplaceOne_def)
      then show ?thesis using ci by auto
    qed
  qed
  then show ?thesis unfolding Let_def url_def [symmetric] res_def [symmetric] case_prod_beta .
qed

section \<open>Caching of VAST\<close>

record BidderInfo =
  bi_Enabled :: bool
  bi_ModifyingVastXmlAllowed :: bool

record Cacheable =
  ca_Type :: string
  ca_Data :: "string option"
  ca_TTLSeconds :: int
  ca_Key :: string
  ca_BidID :: string
  ca_Bidder :: string
  ca_Timestamp :: int

definition isAllowVastForBidder :: "string \<Rightarrow> (string, BidderInfo) gomap option \<Rightarrow> bool \<Rightarrow> (string \<Rightarrow> string option) \<Rightarrow> bool" where
  "isAllowVastForBidder bidder bidderInfos allowUnknownBidder normName =
     (case normName bidder of
        None \<Rightarrow> allowUnknownBidder
      | Some b \<Rightarrow>
          (case bidderInfos of
             None \<Rightarrow> allowUnknownBidder
           | Some infos \<Rightarrow> (case map_of infos b of Some i \<Rightarrow> bi_Enabled i \<and> bi_ModifyingVastXmlAllowed i | None \<Rightarrow> allowUnknownBidder)))"

definition getBiddersAllowingVastUpdate :: "Cacheable list \<Rightarrow> (string, BidderInfo) gomap option \<Rightarrow> bool \<Rightarrow> (string \<Rightarrow> string option) \<Rightarrow> string list" where
  "getBiddersAllowingVastUpdate puts infos allowUnknown normName =
     fold (\<lambda>c bl. if isAllowVastForBidder (ca_Bidder c) infos allowUnknown normName \<and> ca_Bidder c \<notin> set bl then bl @ [ca_Bidder c] else bl) puts []"

definition cachePutObjects :: "(string \<Rightarrow> string option) \<Rightarrow> string \<Rightarrow> Cacheable list \<Rightarrow> string list \<Rightarrow> string \<Rightarrow> string \<Rightarrow> Cacheable list" where
  "cachePutObjects unmarshal externalUrl puts allowing accountId integration =
     map (\<lambda>c.
       let nc = \<lparr>ca_Type = ca_Type c, ca_Data = ca_Data c, ca_TTLSeconds = ca_TTLSeconds c, ca_Key = ca_Key c, ca_BidID = [], ca_Bidder = [], ca_Timestamp = 0\<rparr>
       in case ca_Data c of
            Some d \<Rightarrow>
              if ca_Bidder c \<in> set allowing
              then nc\<lparr>ca_Data := Some (ModifyVastXmlJSON unmarshal externalUrl d (ca_BidID c) (ca_Bidder c) accountId (ca_Timestamp c) integration)\<rparr>
              else nc
          | None \<Rightarrow> nc) puts"

lemma set_allowing: "set (getBiddersAllowingVastUpdate puts infos u normName) = {b \<in> ca_Bidder ` set puts. isAllowVastForBidder b infos u normName}"
proof -
  have "set (fold (\<lambda>c bl. if isAllowVastForBidder (ca_Bidder c) infos u normName \<and> ca_Bidder c \<notin> set bl then bl @ [ca_Bidder c] else bl) puts bl) =
      set bl \<union> {b \<in> ca_Bidder ` set puts. isAllowVastForBidder b infos u normName}" for bl
    by (induction puts arbitrary: bl) auto
  then show ?thesis by (simp add: getBiddersAllowingVastUpdate_def)
qed

text \<open>Objects are cached as they came, in order, but for the VAST of bidders that allow a change.\<close>

lemma cachePutObjects_frame:
  assumes "c \<in> set puts" "\<not> isAllowVastForBidder (ca_Bidder c) infos u normName"
  shows "c\<lparr>ca_BidID := [], ca_Bidder := [], ca_Timestamp := 0\<rparr> \<in>
    set (cachePutObjects unmarshal url puts (getBiddersAllowingVastUpdate puts infos u normName) acc integration)"
proof -
  have "ca_Bidder c \<notin> set (getBiddersAllowingVastUpdate puts infos u normName)" using assms(2) by (simp add: set_allowing)
  then show ?thesis
    unfolding cachePutObjects_def set_map
    by (intro image_eqI [OF _ assms(1)]) (simp add: Let_def split: option.split)
qed

section \<open>Events in the bids of an auction\<close>

record eventTracking =
  et_accountID :: string
  et_enabledForAccount :: bool
  et_enabledForRequest :: bool
  et_auctionTimestampMs :: int
  et_integrationType :: string
  et_bidderInfos :: "(string, BidderInfo) gomap"
  et_externalURL :: string
  et_events :: VASTEvents

text \<open>The elements a tracker can be configured for, as \<^verbatim>\<open>config/events.go\<close> accepts them.\<close>

datatype VASTEventElement =
  ImpressionVASTElement | TrackingVASTElement | ClickTrackingVASTElement | CompanionClickThroughVASTElement | ErrorVASTElement | NonLinearClickTrackingVASTElement

record VASTEvent =
  vev_CreateElement :: VASTEventElement
  vev_Type :: string
  vev_ExcludeDefaultURL :: bool
  vev_URLs :: "string list"

definition appendURLs :: "string list \<Rightarrow> VASTEvent \<Rightarrow> string \<Rightarrow> string list" where
  "appendURLs urls e defaultURL = urls @ vev_URLs e @ (if vev_ExcludeDefaultURL e then [] else [defaultURL])"

definition add_vast_event :: "string \<Rightarrow> VASTEvent \<Rightarrow> VASTEvents \<Rightarrow> VASTEvents" where
  "add_vast_event def e v =
     (case vev_CreateElement e of
        ErrorVASTElement \<Rightarrow> v\<lparr>ve_Errors := appendURLs (ve_Errors v) e def\<rparr>
      | TrackingVASTElement \<Rightarrow>
          v\<lparr>ve_TrackingEvents := map_put (vev_Type e) (appendURLs (map_get [] (ve_TrackingEvents v) (vev_Type e)) e def) (ve_TrackingEvents v)\<rparr>
      | ClickTrackingVASTElement \<Rightarrow> v\<lparr>ve_VideoClicks := appendURLs (ve_VideoClicks v) e def\<rparr>
      | NonLinearClickTrackingVASTElement \<Rightarrow> v\<lparr>ve_NonLinearClickTracking := appendURLs (ve_NonLinearClickTracking v) e def\<rparr>
      | CompanionClickThroughVASTElement \<Rightarrow> v\<lparr>ve_CompanionClickThrough := appendURLs (ve_CompanionClickThrough v) e def\<rparr>
      | ImpressionVASTElement \<Rightarrow> v)"

definition convertToVastEvent :: "string \<Rightarrow> VASTEvent list \<Rightarrow> VASTEvents" where
  "convertToVastEvent def evs =
     fold (add_vast_event def) evs \<lparr>ve_Errors = [], ve_Impressions = [], ve_VideoClicks = [], ve_NonLinearClickTracking = [], ve_CompanionClickThrough = [], ve_TrackingEvents = []\<rparr>"

text \<open>Impression trackers can be configured but are never written.\<close>

lemma configured_impressions_dropped: "ve_Impressions (convertToVastEvent def evs) = []"
proof -
  have "ve_Impressions (fold (add_vast_event def) evs v) = ve_Impressions v" for v
    by (induction evs arbitrary: v) (auto simp: add_vast_event_def split: VASTEventElement.split)
  then show ?thesis by (simp add: convertToVastEvent_def)
qed

definition isEventAllowed :: "eventTracking \<Rightarrow> bool" where
  "isEventAllowed ev \<longleftrightarrow> et_enabledForAccount ev \<or> et_enabledForRequest ev"

definition isModifyingVASTXMLAllowed :: "eventTracking \<Rightarrow> string \<Rightarrow> bool" where
  "isModifyingVASTXMLAllowed ev bidder \<longleftrightarrow>
     (case map_of (et_bidderInfos ev) bidder of Some i \<Rightarrow> bi_ModifyingVastXmlAllowed i | None \<Rightarrow> False) \<and> isEventAllowed ev"

definition event_bid_id :: "PbsOrtbBid \<Rightarrow> Bid \<Rightarrow> string" where
  "event_bid_id b bd = (if pb_GeneratedBidID b \<noteq> [] then pb_GeneratedBidID b else Bid_ID bd)"

definition makeEventURL :: "string \<Rightarrow> eventTracking \<Rightarrow> EventType \<Rightarrow> PbsOrtbBid \<Rightarrow> Bid \<Rightarrow> string \<Rightarrow> string" where
  "makeEventURL ver ev evType b bd bidder =
     EventRequestToUrl (et_externalURL ev)
       (zero_EventRequest\<lparr>er_Type := evType, er_BidID := event_bid_id b bd, er_Bidder := bidder, er_AccountID := et_accountID ev,
          er_Timestamp := et_auctionTimestampMs ev, er_Integration := et_integrationType ev, er_Price := Bid_Price bd, er_ImpID := Bid_ImpID bd,
          er_Width := Bid_W bd, er_Height := Bid_H bd, er_PbsVersion := (if ver = [] then ''unknown'' else ver),
          er_Adomain := (case Bid_ADomain bd of d # _ \<Rightarrow> d | [] \<Rightarrow> [])\<rparr>)"

text \<open>The win and impression URLs of \<^verbatim>\<open>bid.ext.prebid.events\<close>. The outer \<open>None\<close> is the panic on a missing bid.\<close>

definition makeBidExtEvents :: "string \<Rightarrow> eventTracking \<Rightarrow> PbsOrtbBid \<Rightarrow> string \<Rightarrow> (string \<times> string) option option" where
  "makeBidExtEvents ver ev b bidder =
     (if \<not> isEventAllowed ev \<or> pb_BidType b = ''video'' then Some None
      else map_option (\<lambda>bd. Some (makeEventURL ver ev Win b bd bidder, makeEventURL ver ev Imp b bd bidder)) (pb_Bid b))"

text \<open>The codec of \<^verbatim>\<open>encoding/xml\<close>: tokens of a document, what the encoder accepts, and the text of the pieces.\<close>

record xml_codec =
  xc_raw :: "string \<Rightarrow> xml_token list \<times> bool"
  xc_other :: "string \<Rightarrow> bool \<Rightarrow> bool"
  xc_render :: "piece list \<Rightarrow> string"

text \<open>The provider may be absent; its bid macros stay set for the next bid. Event macros are always set before they are read.\<close>

definition injectTrackers :: "xml_codec \<Rightarrow> eventTracking \<Rightarrow> PbsOrtbBid \<Rightarrow> Bid \<Rightarrow> string \<Rightarrow> MacroProvider option \<Rightarrow> Bid \<times> MacroProvider option" where
  "injectTrackers xc ev b bd bidder prov =
     (case prov of
        None \<Rightarrow> (bd, None)
      | Some mp \<Rightarrow>
          let mp = PopulateBidMacros b bidder mp;
              ti = \<lparr>ti_replacer = NewStringIndexBasedReplacer, ti_provider = mp, ti_events = et_events ev\<rparr>
          in (case InjectTracker (xc_raw xc) (xc_other xc) ti (Bid_AdM bd) (Bid_NURL bd) of
                EmptyAdm t \<Rightarrow> bd\<lparr>Bid_AdM := t\<rparr>
              | Injection ps \<Rightarrow> bd\<lparr>Bid_AdM := xc_render xc ps\<rparr>
              | _ \<Rightarrow> bd, Some mp))"

definition modifyBidVAST :: "xml_codec \<Rightarrow> eventTracking \<Rightarrow> PbsOrtbBid \<Rightarrow> string \<Rightarrow> MacroProvider option \<Rightarrow> (PbsOrtbBid \<times> MacroProvider option) option" where
  "modifyBidVAST xc ev b bidder prov =
     (if pb_BidType b \<noteq> ''video'' then Some (b, prov)
      else
        (case pb_Bid b of
           None \<Rightarrow> None
         | Some bd \<Rightarrow>
             if Bid_AdM bd = [] \<and> Bid_NURL bd = [] then Some (b, prov)
             else
               let (bd', prov') = injectTrackers xc ev b bd bidder prov;
                   (vast, ok) = ModifyVastXmlString (et_externalURL ev) (Bid_AdM bd') (event_bid_id b bd') bidder (et_accountID ev) (et_auctionTimestampMs ev) (et_integrationType ev)
               in Some (b\<lparr>pb_Bid := Some (if ok then bd'\<lparr>Bid_AdM := vast\<rparr> else bd')\<rparr>, prov')))"

text \<open>The bids of a seat and of all seats, on the store of bids, with the event URLs of each bid. A missing seat panics.\<close>

type_synonym event_urls = "bidptr \<Rightarrow> (string \<times> string) option"

fun modify_bids :: "xml_codec \<Rightarrow> string \<Rightarrow> eventTracking \<Rightarrow> string \<Rightarrow> bidptr list \<Rightarrow> store \<times> MacroProvider option \<times> event_urls \<Rightarrow> (store \<times> MacroProvider option \<times> event_urls) option" where
  "modify_bids xc ver ev bidder [] st = Some st"
| "modify_bids xc ver ev bidder (p # ps) (st, prov, urls) =
    (case (if isModifyingVASTXMLAllowed ev bidder then modifyBidVAST xc ev (st p) bidder prov else Some (st p, prov)) of
       None \<Rightarrow> None
     | Some (b, prov') \<Rightarrow>
         (case makeBidExtEvents ver ev b bidder of
            None \<Rightarrow> None
          | Some u \<Rightarrow> modify_bids xc ver ev bidder ps (st(p := b), prov', urls(p := u))))"

fun modifyBidsForEvents :: "xml_codec \<Rightarrow> string \<Rightarrow> eventTracking \<Rightarrow> seat_bids \<Rightarrow> store \<times> MacroProvider option \<times> event_urls \<Rightarrow> (store \<times> MacroProvider option \<times> event_urls) option" where
  "modifyBidsForEvents xc ver ev [] st = Some st"
| "modifyBidsForEvents xc ver ev ((bidder, None) # sbs) st = None"
| "modifyBidsForEvents xc ver ev ((bidder, Some sb) # sbs) st =
    (case modify_bids xc ver ev bidder (sb_Bids sb) st of None \<Rightarrow> None | Some st' \<Rightarrow> modifyBidsForEvents xc ver ev sbs st')"

text \<open>Only the markup of a video bid changes.\<close>

definition same_but_adm :: "PbsOrtbBid \<Rightarrow> PbsOrtbBid \<Rightarrow> bool" where
  "same_but_adm b b' \<longleftrightarrow> b' = b \<or>
     pb_BidType b = ''video'' \<and> (\<exists>bd adm. pb_Bid b = Some bd \<and> b' = b\<lparr>pb_Bid := Some (bd\<lparr>Bid_AdM := adm\<rparr>)\<rparr>)"

lemma same_but_adm_refl [simp]: "same_but_adm b b"
  by (simp add: same_but_adm_def)

lemma same_but_adm_trans: "same_but_adm a b \<Longrightarrow> same_but_adm b c \<Longrightarrow> same_but_adm a c"
  unfolding same_but_adm_def by force

lemma injectTrackers_adm:
  assumes "injectTrackers xc ev b bd bidder prov = (bd', prov')"
  shows "\<exists>adm. bd' = bd\<lparr>Bid_AdM := adm\<rparr>"
  using assms by (intro exI [of _ "Bid_AdM bd'"]) (auto simp: injectTrackers_def Let_def split: option.splits inject_result.splits)

lemma modifyBidVAST_same:
  assumes "modifyBidVAST xc ev b bidder prov = Some (b', prov')"
  shows "same_but_adm b b'"
proof (cases "pb_BidType b = ''video''")
  case True
  with assms obtain bd where bd: "pb_Bid b = Some bd" by (auto simp: modifyBidVAST_def split: option.splits)
  obtain bd' prov1 where inj: "injectTrackers xc ev b bd bidder prov = (bd', prov1)" by (cases "injectTrackers xc ev b bd bidder prov")
  obtain vast ok where mod: "ModifyVastXmlString (et_externalURL ev) (Bid_AdM bd') (event_bid_id b bd') bidder (et_accountID ev) (et_auctionTimestampMs ev) (et_integrationType ev) = (vast, ok)"
    by fastforce
  obtain adm where adm: "bd' = bd\<lparr>Bid_AdM := adm\<rparr>" using injectTrackers_adm [OF inj] by blast
  have "b' = b \<or> b' = b\<lparr>pb_Bid := Some (if ok then bd'\<lparr>Bid_AdM := vast\<rparr> else bd')\<rparr>"
    using assms by (simp add: modifyBidVAST_def True bd inj mod Let_def split: if_splits)
  then show ?thesis
    using True bd by (cases ok) (auto simp: same_but_adm_def adm)
qed (use assms in \<open>simp add: modifyBidVAST_def\<close>)

lemma modify_bids_spec:
  "modify_bids xc ver ev bidder ps (st, prov, urls) = Some (st', prov', urls') \<Longrightarrow>
     (\<forall>p. if p \<in> set ps then same_but_adm (st p) (st' p) \<and> (\<not> isModifyingVASTXMLAllowed ev bidder \<longrightarrow> st' p = st p) else st' p = st p)
     \<and> (\<forall>p. if p \<in> set ps then urls' p \<noteq> None \<longleftrightarrow> isEventAllowed ev \<and> pb_BidType (st p) \<noteq> ''video'' else urls' p = urls p)"
proof (induction ps arbitrary: st prov urls)
  case (Cons p ps)
  define e where "e = (if isModifyingVASTXMLAllowed ev bidder then modifyBidVAST xc ev (st p) bidder prov else Some (st p, prov))"
  obtain b prov1 u where b: "e = Some (b, prov1)" "makeBidExtEvents ver ev b bidder = Some u"
    "modify_bids xc ver ev bidder ps (st(p := b), prov1, urls(p := u)) = Some (st', prov', urls')"
    using Cons.prems unfolding modify_bids.simps e_def [symmetric] by (auto split: option.splits)
  have same: "same_but_adm (st p) b" "\<not> isModifyingVASTXMLAllowed ev bidder \<Longrightarrow> b = st p"
    using b(1) unfolding e_def by (auto split: if_splits dest: modifyBidVAST_same)
  then have ty: "pb_BidType b = pb_BidType (st p)" by (auto simp: same_but_adm_def)
  have u: "u \<noteq> None \<longleftrightarrow> isEventAllowed ev \<and> pb_BidType (st p) \<noteq> ''video''"
    using b(2) ty by (auto simp: makeBidExtEvents_def split: if_splits)
  note IH = Cons.IH [OF b(3)]
  show ?case
  proof (intro conjI allI)
    fix x
    show "if x \<in> set (p # ps) then same_but_adm (st x) (st' x) \<and> (\<not> isModifyingVASTXMLAllowed ev bidder \<longrightarrow> st' x = st x) else st' x = st x"
      using spec [OF conjunct1 [OF IH], of x] same by (auto split: if_splits intro: same_but_adm_trans)
    show "if x \<in> set (p # ps) then urls' x \<noteq> None \<longleftrightarrow> isEventAllowed ev \<and> pb_BidType (st x) \<noteq> ''video'' else urls' x = urls x"
      using spec [OF conjunct2 [OF IH], of x] u ty by (auto split: if_splits)
  qed
qed simp

lemma modify_seats_spec:
  "modifyBidsForEvents xc ver ev sbs (st, prov, urls) = Some (st', prov', urls') \<Longrightarrow>
     (\<forall>p. same_but_adm (st p) (st' p))
     \<and> (\<forall>p. urls' p \<noteq> None \<longleftrightarrow> (if p \<in> snd ` set (all_bids sbs) then isEventAllowed ev \<and> pb_BidType (st p) \<noteq> ''video'' else urls p \<noteq> None))"
proof (induction sbs arbitrary: st prov urls)
  case (Cons x sbs)
  obtain bidder os where "x = (bidder, os)" by (cases x)
  with Cons.prems obtain sb where x: "x = (bidder, Some sb)" by (cases os) auto
  obtain st1 prov1 urls1 where 1: "modify_bids xc ver ev bidder (sb_Bids sb) (st, prov, urls) = Some (st1, prov1, urls1)"
    "modifyBidsForEvents xc ver ev sbs (st1, prov1, urls1) = Some (st', prov', urls')"
    using Cons.prems x by (auto split: option.splits)
  note s1 = modify_bids_spec [OF 1(1)] and IH = Cons.IH [OF 1(2)]
  have same: "same_but_adm (st p) (st1 p)" for p using s1 by (metis same_but_adm_refl)
  have ty: "pb_BidType (st1 p) = pb_BidType (st p)" for p using same [of p] by (auto simp: same_but_adm_def)
  have keys: "snd ` set (all_bids (x # sbs)) = set (sb_Bids sb) \<union> snd ` set (all_bids sbs)"
    by (force simp: x all_bids_def seat_bid_list_def)
  show ?case
  proof (intro conjI allI)
    fix p
    show "same_but_adm (st p) (st' p)" using same IH by (blast intro: same_but_adm_trans)
    show "urls' p \<noteq> None \<longleftrightarrow> (if p \<in> snd ` set (all_bids (x # sbs)) then isEventAllowed ev \<and> pb_BidType (st p) \<noteq> ''video'' else urls p \<noteq> None)"
      using spec [OF conjunct2 [OF s1], of p] spec [OF conjunct2 [OF IH], of p] unfolding keys ty by (auto split: if_splits)
  qed
qed (simp add: all_bids_def)

text \<open>
  The event step of an auction changes nothing but markup: every bid keeps its price, deal, targeting and all other fields, a bid that is not
  video keeps its markup too, and exactly the bids of the seats that are not video get event URLs, if events are enabled for the account or
  the request at all.
\<close>
theorem events_change_markup_only:
  assumes "modifyBidsForEvents xc ver ev sbs (st, prov, \<lambda>_. None) = Some (st', prov', urls)"
  shows "same_but_adm (st p) (st' p) \<and> (urls p \<noteq> None \<longleftrightarrow> p \<in> snd ` set (all_bids sbs) \<and> isEventAllowed ev \<and> pb_BidType (st p) \<noteq> ''video'')"
  using modify_seats_spec [OF assms] by (simp split: if_splits)

definition sample_tracking :: eventTracking where
  "sample_tracking = \<lparr>et_accountID = ''acc'', et_enabledForAccount = True, et_enabledForRequest = False, et_auctionTimestampMs = 7, et_integrationType = [],
     et_bidderInfos = [], et_externalURL = ''http://host'', et_events = sample_events\<rparr>"

theorem events_change_markup_only_witness:
  "\<exists>st' prov' urls. modifyBidsForEvents \<lparr>xc_raw = (\<lambda>_. ([], False)), xc_other = (\<lambda>_ _. True), xc_render = (\<lambda>_. [])\<rparr> ''1'' sample_tracking
       [(''a'', Some \<lparr>sb_Bids = [0], sb_Currency = ''USD'', sb_Seat = ''a''\<rparr>)]
       (\<lambda>_. zero_PbsOrtbBid\<lparr>pb_Bid := Some zero_Bid, pb_BidType := ''banner''\<rparr>, None, \<lambda>_. None) = Some (st', prov', urls)
     \<and> same_but_adm (zero_PbsOrtbBid\<lparr>pb_Bid := Some zero_Bid, pb_BidType := ''banner''\<rparr>) (st' 0) \<and> urls 0 \<noteq> None"
proof -
  let ?b = "zero_PbsOrtbBid\<lparr>pb_Bid := Some zero_Bid, pb_BidType := ''banner''\<rparr>"
  obtain u where "makeBidExtEvents ''1'' sample_tracking ?b ''a'' = Some (Some u)"
    by (simp add: makeBidExtEvents_def isEventAllowed_def sample_tracking_def)
  then have "modifyBidsForEvents \<lparr>xc_raw = (\<lambda>_. ([], False)), xc_other = (\<lambda>_ _. True), xc_render = (\<lambda>_. [])\<rparr> ''1'' sample_tracking
       [(''a'', Some \<lparr>sb_Bids = [0], sb_Currency = ''USD'', sb_Seat = ''a''\<rparr>)] (\<lambda>_. ?b, None, \<lambda>_. None) =
      Some ((\<lambda>_. ?b)(0 := ?b), None, (\<lambda>_. None)(0 := Some u))"
    by (simp add: isModifyingVASTXMLAllowed_def sample_tracking_def)
  from this events_change_markup_only [OF this, of 0] show ?thesis by auto
qed

end
