(* ===== verification/VideoDemand.thy ===== *)
theory VideoDemand
  imports VideoVast Events
begin

text \<open>
  Demand of the video pipeline (\<^verbatim>\<open>endpoints/video_pipeline.go\<close>, \<^verbatim>\<open>endpoints/demand_adapter.go\<close>): the guard of outbound URLs, auction macros, beacon URLs, the winner of a bid
  response, the VAST response built for it, the demand adapters and their parallel run, and the timeout of a request. HTTP, random IDs, the parsing of URLs and
  addresses and the XML codec are arguments.
\<close>

section \<open>Outbound URLs\<close>

text \<open>An address is its 16-byte form as a number; IPv4 addresses have the prefix \<^verbatim>\<open>::ffff\<close>. Tests of the high bits of a byte are written as divisions.\<close>

definition ip_byte :: "nat \<Rightarrow> nat \<Rightarrow> nat" where
  "ip_byte ip k = ip div 256 ^ (15 - k) mod 256"

definition is_ip4 :: "nat \<Rightarrow> bool" where
  "is_ip4 ip \<longleftrightarrow> ip div 2 ^ 32 = 65535"

definition IsLoopback :: "nat \<Rightarrow> bool" where
  "IsLoopback ip \<longleftrightarrow> (if is_ip4 ip then ip_byte ip 12 = 127 else ip = 1)"

definition IsPrivate :: "nat \<Rightarrow> bool" where
  "IsPrivate ip \<longleftrightarrow> (if is_ip4 ip then ip_byte ip 12 = 10 \<or> ip_byte ip 12 = 172 \<and> ip_byte ip 13 div 16 = 1 \<or> ip_byte ip 12 = 192 \<and> ip_byte ip 13 = 168
     else ip_byte ip 0 div 2 = 126)"

definition IsLinkLocalMulticast :: "nat \<Rightarrow> bool" where
  "IsLinkLocalMulticast ip \<longleftrightarrow> (if is_ip4 ip then ip_byte ip 12 = 224 \<and> ip_byte ip 13 = 0 \<and> ip_byte ip 14 = 0 else ip_byte ip 0 = 255 \<and> ip_byte ip 1 mod 16 = 2)"

definition IsLinkLocalUnicast :: "nat \<Rightarrow> bool" where
  "IsLinkLocalUnicast ip \<longleftrightarrow> (if is_ip4 ip then ip_byte ip 12 = 169 \<and> ip_byte ip 13 = 254 else ip_byte ip 0 = 254 \<and> ip_byte ip 1 div 64 = 2)"

definition IsMulticast :: "nat \<Rightarrow> bool" where
  "IsMulticast ip \<longleftrightarrow> (if is_ip4 ip then ip_byte ip 12 div 16 = 14 else ip_byte ip 0 = 255)"

definition IsUnspecified :: "nat \<Rightarrow> bool" where
  "IsUnspecified ip \<longleftrightarrow> ip = 65535 * 2 ^ 32 \<or> ip = 0"

definition isPublicOutboundIP :: "nat \<Rightarrow> bool" where
  "isPublicOutboundIP ip \<longleftrightarrow>
     \<not> (IsLoopback ip \<or> IsPrivate ip \<or> IsLinkLocalMulticast ip \<or> IsLinkLocalUnicast ip \<or> IsMulticast ip \<or> IsUnspecified ip)
     \<and> \<not> (is_ip4 ip \<and> ip_byte ip 12 = 100 \<and> 64 \<le> ip_byte ip 13 \<and> ip_byte ip 13 \<le> 127)"

record url_env =
  ue_Parse :: "string \<Rightarrow> (string \<times> string) option"  \<comment> \<open>the scheme and the host name\<close>
  ue_ParseIP :: "string \<Rightarrow> nat option"
  ue_lower :: "string \<Rightarrow> string"

definition validateOutboundPublicURL :: "url_env \<Rightarrow> string \<Rightarrow> string option" where
  "validateOutboundPublicURL env rawURL =
     (let trimmed = TrimSpace rawURL in
      if trimmed = [] then Some ''url is empty''
      else (case ue_Parse env trimmed of
        None \<Rightarrow> Some ''parse url''
      | Some (scheme, hostname) \<Rightarrow>
          if scheme \<noteq> ''http'' \<and> scheme \<noteq> ''https'' then Some ''url scheme must be http or https''
          else
            let host = TrimSpace hostname; lowerHost = lower_bytes (ue_lower env) host in
            if host = [] then Some ''url host is empty''
            else if lowerHost = ''localhost'' \<or> suffix ''.localhost'' lowerHost \<or> suffix ''.local'' lowerHost then Some ''url host must be public''
            else (case ue_ParseIP env host of
              Some ip \<Rightarrow> if isPublicOutboundIP ip then None else Some ''url host must be public''
            | None \<Rightarrow> if Contains lowerHost ''.'' then None else Some ''url host must be public'')))"

subsection \<open>The blocked address ranges\<close>

definition in_block :: "nat \<Rightarrow> nat \<times> nat \<Rightarrow> bool" where
  "in_block ip b = (ip div 2 ^ (128 - snd b) = fst b div 2 ^ (128 - snd b))"

definition ip4 :: "nat \<Rightarrow> nat \<Rightarrow> nat \<Rightarrow> nat \<Rightarrow> nat" where
  "ip4 a b c d = 65535 * 2 ^ 32 + a * 2 ^ 24 + b * 2 ^ 16 + c * 2 ^ 8 + d"

definition blocked_ranges :: "(nat \<times> nat) list" where
  "blocked_ranges =
     [(ip4 0 0 0 0, 128), (ip4 10 0 0 0, 104), (ip4 100 64 0 0, 106), (ip4 127 0 0 0, 104), (ip4 169 254 0 0, 112), (ip4 172 16 0 0, 108), (ip4 192 168 0 0, 112), (ip4 224 0 0 0, 100),
      (0, 128), (1, 128), (252 * 2 ^ 120, 7), (254 * 2 ^ 120 + 128 * 2 ^ 112, 10), (255 * 2 ^ 120, 8)]"

lemma ip4_bytes:
  assumes "is_ip4 ip"
  shows "ip div 2 ^ 24 = 65535 * 256 + ip_byte ip 12" "ip div 2 ^ 16 = (65535 * 256 + ip_byte ip 12) * 256 + ip_byte ip 13" "ip_byte ip 12 < 256" "ip_byte ip 13 < 256"
proof -
  have "ip div 2 ^ 24 div 256 = ip div 2 ^ 32" by (simp flip: div_mult2_eq)
  moreover have "ip div 2 ^ 16 div 256 = ip div 2 ^ 24" by (simp flip: div_mult2_eq)
  ultimately show "ip div 2 ^ 24 = 65535 * 256 + ip_byte ip 12" "ip div 2 ^ 16 = (65535 * 256 + ip_byte ip 12) * 256 + ip_byte ip 13"
    using assms div_mult_mod_eq [of "ip div 2 ^ 24" 256] div_mult_mod_eq [of "ip div 2 ^ 16" 256] by (simp_all add: is_ip4_def ip_byte_def)
qed (simp_all add: ip_byte_def)

lemma block_small: "n \<le> k \<Longrightarrow> (ip :: nat) div 2 ^ k = ip div 2 ^ n div 2 ^ (k - n)"
  by (simp flip: div_mult2_eq power_add)

lemma radix_eq: "y < k \<Longrightarrow> x * k + y = n \<longleftrightarrow> x = n div k \<and> y = n mod k" for x y k n :: nat
  by auto

lemma shifted_div:
  fixes a b :: nat
  shows "(4294901760 + a * 256 + b) div 64 = 67107840 + a * 4 + b div 64" "(4294901760 + a * 256 + b) div 16 = 268431360 + a * 16 + b div 16"
    "(16776960 + a) div 16 = 1048560 + a div 16" "(a * 256 + b) div 64 = a * 4 + b div 64"
  by presburger+

text \<open>
  Outbound requests go to public addresses: an address is accepted exactly when it is in none of the unspecified, private, shared, loopback, link-local and
  multicast ranges of IPv4, also in its IPv4-mapped form, and in none of the unspecified, loopback, unique local, link-local and multicast ranges of IPv6.
\<close>
theorem outbound_ip_ranges:
  assumes "ip < 2 ^ 128"
  shows "isPublicOutboundIP ip \<longleftrightarrow> \<not> list_ex (in_block ip) blocked_ranges"
proof (cases "is_ip4 ip")
  case True
  define a where "a = ip_byte ip 12"
  define b where "b = ip_byte ip 13"
  note bytes = ip4_bytes [OF True, folded a_def b_def]
  have d32: "ip div 2 ^ 32 = 65535" using True by (simp only: is_ip4_def)
  have d24: "ip div 2 ^ 24 = 16776960 + a" and d16: "ip div 2 ^ 16 = 4294901760 + a * 256 + b" using bytes(1,2) by simp_all
  have d22: "ip div 2 ^ 22 = 67107840 + a * 4 + b div 64" and d20: "ip div 2 ^ 20 = 268431360 + a * 16 + b div 16" and d28: "ip div 2 ^ 28 = 1048560 + a div 16"
    using block_small [of 16 22 ip] block_small [of 16 20 ip] block_small [of 24 28 ip] shifted_div(1,2) [of a b] shifted_div(3) [of a] unfolding d16 d24 by simp_all
  have d112: "ip div 2 ^ 112 = 0" using block_small [of 32 112 ip] unfolding d32 by simp
  have d: "ip div 2 ^ 118 = 0" "ip div 2 ^ 120 = 0" "ip div 2 ^ 121 = 0" using block_small [of 112 118 ip] block_small [of 112 120 ip] block_small [of 112 121 ip] unfolding d112 by simp_all
  have nz: "ip \<noteq> 0" "ip \<noteq> 1" using d32 by auto
  have blocks: "in_block ip (ip4 10 0 0 0, 104) \<longleftrightarrow> a = 10" "in_block ip (ip4 127 0 0 0, 104) \<longleftrightarrow> a = 127"
    unfolding in_block_def ip4_def using d24 by simp_all
  have blocks2: "in_block ip (ip4 100 64 0 0, 106) \<longleftrightarrow> a * 4 + b div 64 = 401" unfolding in_block_def ip4_def using d22 by simp
  have blocks3: "in_block ip (ip4 169 254 0 0, 112) \<longleftrightarrow> a * 256 + b = 43518" "in_block ip (ip4 192 168 0 0, 112) \<longleftrightarrow> a * 256 + b = 49320"
    unfolding in_block_def ip4_def using d16 by simp_all
  have blocks4: "in_block ip (ip4 172 16 0 0, 108) \<longleftrightarrow> a * 16 + b div 16 = 2753" unfolding in_block_def ip4_def using d20 by simp
  have blocks5: "in_block ip (ip4 224 0 0 0, 100) \<longleftrightarrow> a div 16 = 14" unfolding in_block_def ip4_def using d28 by simp
  have blocks6: "\<not> in_block ip (0, 128)" "\<not> in_block ip (1, 128)" "\<not> in_block ip (252 * 2 ^ 120, 7)" "\<not> in_block ip (254 * 2 ^ 120 + 128 * 2 ^ 112, 10)" "\<not> in_block ip (255 * 2 ^ 120, 8)"
    unfolding in_block_def using nz d by simp_all
  have blocks7: "in_block ip (ip4 0 0 0 0, 128) \<longleftrightarrow> ip = 65535 * 2 ^ 32" unfolding in_block_def ip4_def by simp
  have "b div 64 < 4" "b div 16 < 16" using bytes(4) by (simp_all add: less_mult_imp_div_less)
  then have "a * 4 + b div 64 = 401 \<longleftrightarrow> a = 100 \<and> b div 64 = 1" "a * 16 + b div 16 = 2753 \<longleftrightarrow> a = 172 \<and> b div 16 = 1"
    using radix_eq [of "b div 64" 4 a 401] radix_eq [of "b div 16" 16 a 2753] by simp_all
  moreover have "a * 256 + b = 43518 \<longleftrightarrow> a = 169 \<and> b = 254" "a * 256 + b = 49320 \<longleftrightarrow> a = 192 \<and> b = 168"
    using bytes(4) radix_eq [of b 256 a 43518] radix_eq [of b 256 a 49320] by simp_all
  moreover have "b div 64 = 1 \<longleftrightarrow> 64 \<le> b \<and> b \<le> 127" "a = 224 \<Longrightarrow> a div 16 = 14" by auto
  ultimately show ?thesis
    using nz(1) True unfolding isPublicOutboundIP_def IsLoopback_def IsPrivate_def IsLinkLocalMulticast_def IsLinkLocalUnicast_def IsMulticast_def IsUnspecified_def
      blocked_ranges_def list_ex_Nil_iff list_ex_Cons_iff a_def [symmetric] b_def [symmetric] blocks blocks2 blocks3 blocks4 blocks5 blocks7 by (simp only: if_True blocks6) blast
next
  case False
  have mapped: "\<not> in_block ip (ip4 a b c d, len)" if "96 \<le> len" "len \<le> 128" "ip4 a b c d div 2 ^ 32 = 65535" for a b c d len
    using that False block_small [of "128 - len" 32 ip] block_small [of "128 - len" 32 "ip4 a b c d"] by (auto simp: in_block_def is_ip4_def)
  define p where "p = ip div 2 ^ 120"
  define q where "q = ip_byte ip 1"
  have p0: "ip_byte ip 0 = p" using assms by (simp add: ip_byte_def p_def div_less_iff_less_mult)
  have "ip div 2 ^ 112 div 256 = p" by (simp add: p_def flip: div_mult2_eq)
  then have "ip div 2 ^ 112 = p * 256 + q" using div_mult_mod_eq [of "ip div 2 ^ 112" 256] by (simp add: q_def ip_byte_def)
  moreover have "q < 256" by (simp add: q_def ip_byte_def)
  ultimately have d118: "ip div 2 ^ 118 = p * 4 + q div 64" and q4: "q div 64 < 4"
    using block_small [of 112 118 ip] shifted_div(4) [of p q] by (simp_all add: less_mult_imp_div_less)
  have d121: "ip div 2 ^ 121 = p div 2" using block_small [of 120 121 ip, folded p_def] by simp
  have blocks: "in_block ip (0, 128) \<longleftrightarrow> ip = 0" "in_block ip (1, 128) \<longleftrightarrow> ip = 1" "in_block ip (255 * 2 ^ 120, 8) \<longleftrightarrow> p = 255"
    unfolding in_block_def using p_def by simp_all
  have blocks2: "in_block ip (252 * 2 ^ 120, 7) \<longleftrightarrow> p div 2 = 126" unfolding in_block_def using d121 by simp
  have "in_block ip (254 * 2 ^ 120 + 128 * 2 ^ 112, 10) \<longleftrightarrow> p * 4 + q div 64 = 1018" unfolding in_block_def using d118 by simp
  then have blocks3: "in_block ip (254 * 2 ^ 120 + 128 * 2 ^ 112, 10) \<longleftrightarrow> p = 254 \<and> q div 64 = 2" using q4 radix_eq [of "q div 64" 4 p 1018] by simp
  have blocks4: "\<not> in_block ip (ip4 0 0 0 0, 128)" "\<not> in_block ip (ip4 10 0 0 0, 104)" "\<not> in_block ip (ip4 100 64 0 0, 106)" "\<not> in_block ip (ip4 127 0 0 0, 104)"
    "\<not> in_block ip (ip4 169 254 0 0, 112)" "\<not> in_block ip (ip4 172 16 0 0, 108)" "\<not> in_block ip (ip4 192 168 0 0, 112)" "\<not> in_block ip (ip4 224 0 0 0, 100)"
    by (rule mapped; simp add: ip4_def)+
  have "ip \<noteq> 65535 * 2 ^ 32" using False by (auto simp: is_ip4_def)
  then show ?thesis
    using False unfolding isPublicOutboundIP_def IsLoopback_def IsPrivate_def IsLinkLocalMulticast_def IsLinkLocalUnicast_def IsMulticast_def IsUnspecified_def
      blocked_ranges_def list_ex_Nil_iff list_ex_Cons_iff p0 q_def [symmetric] blocks blocks2 blocks3 by (simp only: if_False blocks4) blast
qed

theorem outbound_ip_ranges_witness:
  "isPublicOutboundIP (ip4 8 8 8 8) = (\<not> list_ex (in_block (ip4 8 8 8 8)) blocked_ranges) \<and> isPublicOutboundIP (ip4 172 31 0 1) = (\<not> list_ex (in_block (ip4 172 31 0 1)) blocked_ranges)"
  using outbound_ip_ranges [of "ip4 8 8 8 8"] outbound_ip_ranges [of "ip4 172 31 0 1"] by (simp add: ip4_def)

section \<open>The winner of a response\<close>

record VideoBid =
  vb_ID :: string
  vb_ImpID :: string
  vb_Price :: float64
  vb_AdM :: string
  vb_NURL :: string
  vb_BURL :: string
  vb_CrID :: string
  vb_DealID :: string
  vb_ADomain :: "string list"
  vb_W :: int
  vb_H :: int

record VideoBidResponse =
  vr_ID :: string
  vr_SeatBid :: "(string \<times> VideoBid list) list"

record WinningBid =
  wb_BidID :: string
  wb_AdM :: string
  wb_NURL :: string
  wb_BURL :: string
  wb_Price :: float64
  wb_Width :: int
  wb_Height :: int
  wb_CrID :: string
  wb_DealID :: string
  wb_ADomain :: "string list"

definition isEmptyAdM :: "string \<Rightarrow> bool" where
  "isEmptyAdM adm \<longleftrightarrow>
     (let trim = TrimSpace adm in
      trim = [] \<or> trim = ''0'' \<or> EqualFold trim ''null'' \<or> EqualFold trim ''none'' \<or> EqualFold trim ''empty'' \<or> EqualFold trim ''n/a'' \<or> EqualFold trim ''na'')"

definition normalizeAdM :: "string \<Rightarrow> string" where
  "normalizeAdM adm = (if isEmptyAdM adm then [] else adm)"

definition bidBetter :: "float64 \<Rightarrow> float64 \<Rightarrow> nat \<Rightarrow> float64 \<Rightarrow> float64 \<Rightarrow> nat \<Rightarrow> bool" where
  "bidBetter price weight pos bestPrice bestWeight bestPos \<longleftrightarrow>
     (if \<not> feq price bestPrice then bestPrice < price else if \<not> feq weight bestWeight then bestWeight < weight else pos < bestPos)"

record candidate =
  ca_seat :: string
  ca_weight :: float64
  ca_bid :: VideoBid
  ca_pos :: nat

definition seat_weight :: "AdServerConfig \<Rightarrow> string \<Rightarrow> float64" where
  "seat_weight cfg seat = map_get (Fin 1) (as_SeatWeights cfg) seat"

text \<open>The bids in the order of the response, numbered from one.\<close>

definition all_candidates :: "AdServerConfig \<Rightarrow> VideoBidResponse \<Rightarrow> candidate list" where
  "all_candidates cfg resp =
     map (\<lambda>(pos, seat, bid). \<lparr>ca_seat = seat, ca_weight = seat_weight cfg seat, ca_bid = bid, ca_pos = pos\<rparr>)
       (enumerate 1 (concat (map (\<lambda>(seat, bids). map (Pair seat) bids) (vr_SeatBid resp))))"

definition eligible :: "AdServerConfig \<Rightarrow> candidate \<Rightarrow> bool" where
  "eligible cfg c \<longleftrightarrow> \<not> (normalizeAdM (vb_AdM (ca_bid c)) = [] \<and> vb_NURL (ca_bid c) = []) \<and> \<not> (0 < winnerMinPriceCPM cfg \<and> vb_Price (ca_bid c) < winnerMinPriceCPM cfg)"

definition better :: "candidate \<Rightarrow> candidate \<Rightarrow> bool" where
  "better c d \<longleftrightarrow> bidBetter (vb_Price (ca_bid c)) (ca_weight c) (ca_pos c) (vb_Price (ca_bid d)) (ca_weight d) (ca_pos d)"

fun pick_best :: "AdServerConfig \<Rightarrow> candidate list \<Rightarrow> candidate option \<Rightarrow> candidate option" where
  "pick_best cfg [] best = best"
| "pick_best cfg (c # cs) best =
    (if eligible cfg c then pick_best cfg cs (case best of None \<Rightarrow> Some c | Some b \<Rightarrow> Some (if better c b then c else b)) else pick_best cfg cs best)"

definition winning_bid :: "candidate \<Rightarrow> WinningBid" where
  "winning_bid c =
     (let b = ca_bid c in
      \<lparr>wb_BidID = vb_ID b, wb_AdM = normalizeAdM (vb_AdM b), wb_NURL = vb_NURL b, wb_BURL = vb_BURL b, wb_Price = vb_Price b, wb_Width = vb_W b, wb_Height = vb_H b,
       wb_CrID = vb_CrID b, wb_DealID = vb_DealID b, wb_ADomain = vb_ADomain b\<rparr>)"

definition extractWinningBid :: "VideoBidResponse option \<Rightarrow> AdServerConfig \<Rightarrow> string + WinningBid \<times> string" where
  "extractWinningBid resp cfg =
     (case resp of
        None \<Rightarrow> Inl ''nil bid response''
      | Some r \<Rightarrow> (case pick_best cfg (all_candidates cfg r) None of None \<Rightarrow> Inl ''no fill'' | Some c \<Rightarrow> Inr (winning_bid c, ca_seat c)))"

subsection \<open>The winner is the best bid\<close>

definition finite_candidate :: "candidate \<Rightarrow> bool" where
  "finite_candidate c \<longleftrightarrow> is_finite (vb_Price (ca_bid c)) \<and> is_finite (ca_weight c)"

lemma better_finite:
  "finite_candidate c \<Longrightarrow> finite_candidate d \<Longrightarrow>
    better c d \<longleftrightarrow> (case (vb_Price (ca_bid c), vb_Price (ca_bid d), ca_weight c, ca_weight d) of
      (Fin p, Fin q, Fin v, Fin w) \<Rightarrow> q < p \<or> p = q \<and> (w < v \<or> v = w \<and> ca_pos c < ca_pos d) | _ \<Rightarrow> False)"
  by (auto simp: better_def bidBetter_def finite_candidate_def elim!: is_finiteE)

lemma better_trans:
  assumes "finite_candidate a" "finite_candidate b" "finite_candidate c" "\<not> better b a" "\<not> better c b"
  shows "\<not> better c a"
proof -
  obtain p q r u v w where "vb_Price (ca_bid a) = Fin p" "vb_Price (ca_bid b) = Fin q" "vb_Price (ca_bid c) = Fin r" "ca_weight a = Fin u" "ca_weight b = Fin v" "ca_weight c = Fin w"
    using assms(1-3) by (auto simp: finite_candidate_def elim!: is_finiteE)
  then show ?thesis using assms by (auto simp: better_finite)
qed

lemma better_asym: "finite_candidate c \<Longrightarrow> finite_candidate d \<Longrightarrow> better c d \<Longrightarrow> \<not> better d c"
  by (auto simp: better_finite split: float64.splits)

lemma pick_best_spec:
  assumes "list_all finite_candidate cs" "pred_option finite_candidate best"
  shows "case pick_best cfg cs best of
      None \<Rightarrow> best = None \<and> filter (eligible cfg) cs = []
    | Some c \<Rightarrow> (c \<in> set (filter (eligible cfg) cs) \<or> best = Some c) \<and> (\<forall>d\<in>set (filter (eligible cfg) cs) \<union> set_option best. \<not> better d c)"
  using assms
proof (induction cs arbitrary: best)
  case Nil
  then show ?case by (auto simp: better_def bidBetter_def feq_def finite_candidate_def elim!: is_finiteE split: option.split)
next
  case (Cons c cs)
  show ?case
  proof (cases "eligible cfg c")
    case False
    then have "filter (eligible cfg) (c # cs) = filter (eligible cfg) cs" "pick_best cfg (c # cs) best = pick_best cfg cs best" by simp_all
    then show ?thesis using Cons.IH [of best] Cons.prems by (simp only: list.pred_inject)
  next
    case True
    define b where "b = (case best of None \<Rightarrow> c | Some b \<Rightarrow> if better c b then c else b)"
    have step: "pick_best cfg (c # cs) best = pick_best cfg cs (Some b)" using True by (auto simp: b_def split: option.split)
    have fb: "finite_candidate b" "finite_candidate c" using Cons.prems by (auto simp: b_def split: option.split)
    have irr: "\<not> better x x" if "finite_candidate x" for x using that by (auto simp: better_finite finite_candidate_def elim!: is_finiteE)
    have bb: "\<not> better c b" "\<forall>d\<in>set_option best. \<not> better d b" "b = c \<or> best = Some b"
      using irr better_asym Cons.prems by (auto simp: b_def split: option.splits if_splits)
    obtain w where w: "pick_best cfg cs (Some b) = Some w" "w \<in> set (filter (eligible cfg) cs) \<or> b = w" "\<forall>d\<in>set (filter (eligible cfg) cs) \<union> {b}. \<not> better d w"
      using Cons.IH [of "Some b"] Cons.prems(1) fb by (auto split: option.splits)
    have fw: "finite_candidate w" using w(2) fb Cons.prems(1) by (auto simp: list_all_iff)
    have "\<not> better d w" if "d \<in> insert c (set_option best)" for d
    proof -
      have "finite_candidate d" "\<not> better d b" using that bb(1,2) fb Cons.prems(2) by auto
      then show ?thesis using better_trans [of w b d] fw fb(1) w(3) by auto
    qed
    then show ?thesis unfolding step using w bb(3) True by auto
  qed
qed


definition sample_video_bid :: "string \<Rightarrow> rat \<Rightarrow> VideoBid" where
  "sample_video_bid i p = \<lparr>vb_ID = i, vb_ImpID = ''1'', vb_Price = Fin p, vb_AdM = [], vb_NURL = ''n'', vb_BURL = [], vb_CrID = [], vb_DealID = [], vb_ADomain = [], vb_W = 0, vb_H = 0\<rparr>"

definition sample_placement :: AdServerConfig where
  "sample_placement = \<lparr>as_PlacementID = ''p'', as_PublisherID = ''pub'', as_MinDuration = 5, as_MaxDuration = 30, as_FloorCPM = Fin 1, as_DemandFloorCPM = Fin 0, as_DemandVASTURL = [], as_DemandOrtbURL = ''u'',
     as_BAdv = [], as_BCat = [], as_ExtraDemand = [], as_SeatWeights = [(''s'', Fin 2)], as_Active = True, as_TimeoutMS = 0, as_RequestBaseURL = [], as_VideoPlacementType = [], as_CampaignID = [], as_AdvertiserID = []\<rparr>"

definition sample_response :: VideoBidResponse where
  "sample_response = \<lparr>vr_ID = ''r'', vr_SeatBid = [(''t'', [sample_video_bid ''low'' (1 / 2), sample_video_bid ''a'' 3]), (''s'', [sample_video_bid ''b'' 3])]\<rparr>"


section \<open>Macros and beacon URLs\<close>

text \<open>\<^verbatim>\<open>strings.NewReplacer\<close>: at each position the first pair whose old string matches.\<close>

function replace_pairs :: "(string \<times> string) list \<Rightarrow> string \<Rightarrow> string" where
  "replace_pairs ps [] = []"
| "replace_pairs ps (c # cs) =
    (case find (\<lambda>(old, new). old \<noteq> [] \<and> prefix old (c # cs)) ps of
       Some (old, new) \<Rightarrow> new @ replace_pairs ps (drop (length old - 1) cs)
     | None \<Rightarrow> c # replace_pairs ps cs)"
  by pat_completeness auto
termination
  by (relation "measure (\<lambda>(ps, s). length s)") auto

definition resolveAuctionMacros :: "string \<Rightarrow> WinningBid \<Rightarrow> string \<Rightarrow> string \<Rightarrow> string" where
  "resolveAuctionMacros rawURL win auctionID bidder =
     (if rawURL = [] \<or> \<not> Contains rawURL ''${'' then rawURL
      else replace_pairs
        [(''${AUCTION_ID}'', QueryEscape auctionID), (''${AUCTION_BID_ID}'', QueryEscape (wb_BidID win)), (''${AUCTION_IMP_ID}'', ''1''), (''${AUCTION_SEAT_ID}'', QueryEscape bidder),
         (''${AUCTION_AD_ID}'', QueryEscape (wb_CrID win)), (''${AUCTION_PRICE}'', QueryEscape (FormatFloat (wb_Price win) (-1))), (''${AUCTION_CURRENCY}'', ''USD''), (''${AUCTION_LOSS}'', [])]
        rawURL)"

text \<open>What the pipeline reads of a player request.\<close>

record PlayerRequest =
  pr_PlacementID :: string
  pr_AppBundle :: string
  pr_Domain :: string
  pr_GDPR :: string
  pr_Consent :: string
  pr_CCPA :: string
  pr_COPPA :: int
  pr_Width :: int
  pr_Height :: int
  pr_MinDuration :: int
  pr_MaxDuration :: int
  pr_IP :: string
  pr_UA :: string
  pr_AppName :: string
  pr_AppStoreURL :: string
  pr_DeviceMake :: string
  pr_DeviceModel :: string
  pr_DeviceType :: int
  pr_DeviceOS :: string
  pr_OSVersion :: string
  pr_IFA :: string
  pr_IFAType :: string
  pr_LMT :: int
  pr_Language :: string
  pr_CountryCode :: string
  pr_DNT :: int
  pr_ContentRating :: string
  pr_ContentLen :: int
  pr_Skip :: int
  pr_TMax :: int

definition substituteMacros :: "nat \<Rightarrow> string \<Rightarrow> PlayerRequest \<Rightarrow> AdServerConfig \<Rightarrow> string" where
  "substituteMacros cb demandURL pr cfg =
     (let minDur = FormatInt (if 0 < pr_MinDuration pr then pr_MinDuration pr else as_MinDuration cfg);
          maxDur = FormatInt (if 0 < pr_MaxDuration pr then pr_MaxDuration pr else as_MaxDuration cfg);
          w = FormatInt (pr_Width pr); h = FormatInt (pr_Height pr)
      in replace_pairs
        [(''{cb}'', FormatInt (int cb)), (''{uip}'', pr_IP pr), (''{ua}'', QueryEscape (pr_UA pr)), (''{app_bundle}'', pr_AppBundle pr), (''{app_name}'', QueryEscape (pr_AppName pr)),
         (''{app_store_url}'', QueryEscape (pr_AppStoreURL pr)), (''{device_make}'', QueryEscape (pr_DeviceMake pr)), (''{device_model}'', QueryEscape (pr_DeviceModel pr)),
         (''{device_type}'', FormatInt (pr_DeviceType pr)), (''{idfa}'', pr_IFA pr), (''{ifa}'', pr_IFA pr), (''{ifa_type}'', pr_IFAType pr), (''{device_os}'', QueryEscape (pr_DeviceOS pr)),
         (''{os}'', QueryEscape (pr_DeviceOS pr)), (''{device_osv}'', QueryEscape (pr_OSVersion pr)), (''{osv}'', QueryEscape (pr_OSVersion pr)), (''{version_os}'', QueryEscape (pr_OSVersion pr)),
         (''{lang}'', pr_Language pr), (''{language}'', pr_Language pr), (''{country_code}'', pr_CountryCode pr), (''{dnt}'', FormatInt (pr_DNT pr)), (''{lmt}'', FormatInt (pr_LMT pr)),
         (''{skip}'', FormatInt (pr_Skip pr)), (''{coppa}'', FormatInt (pr_COPPA pr)), (''{us_privacy}'', pr_CCPA pr), (''{gdpr}'', pr_GDPR pr), (''{gdpr_consent}'', pr_Consent pr),
         (''{content_rating}'', QueryEscape (pr_ContentRating pr)), (''{content_length}'', FormatInt (pr_ContentLen pr)), (''{w}'', w), (''{h}'', h), (''{width}'', w), (''{height}'', h),
         (''{min_dur}'', minDur), (''{max_dur}'', maxDur), (''{min_duration}'', minDur), (''{max_duration}'', maxDur)]
        demandURL)"

record beacon =
  bc_base :: string
  bc_AuctionID :: string
  bc_BidID :: string
  bc_Bidder :: string
  bc_PlacementID :: string
  bc_CrID :: string
  bc_Price :: float64
  bc_ADomain :: "string list"

definition beacon_values :: "beacon \<Rightarrow> (string \<times> string) list" where
  "beacon_values b =
     [(''auction_id'', bc_AuctionID b), (''bid_id'', bc_BidID b), (''bidder'', bc_Bidder b), (''placement_id'', bc_PlacementID b)]
     @ (if bc_CrID b \<noteq> [] then [(''crid'', bc_CrID b)] else []) @ (if 0 < bc_Price b then [(''price'', FormatFloat (bc_Price b) (-1))] else [])
     @ (if bc_ADomain b \<noteq> [] then [(''adom'', join_with '','' (bc_ADomain b))] else [])"

definition buildImpressionURL :: "string \<Rightarrow> beacon \<Rightarrow> string" where
  "buildImpressionURL externalURL b = (if bc_base b = [] then externalURL else bc_base b) @ ''/video/impression?'' @ Values_Encode (beacon_values b)"

definition buildTrackingURL :: "string \<Rightarrow> beacon \<Rightarrow> string \<Rightarrow> string" where
  "buildTrackingURL externalURL b event =
     (if bc_base b = [] then externalURL else bc_base b) @ ''/video/tracking?'' @ Values_Encode (take 4 (beacon_values b) @ (''event'', event) # drop 4 (beacon_values b))"

definition buildTrackingEventList :: "string \<Rightarrow> beacon \<Rightarrow> vastTracking list" where
  "buildTrackingEventList externalURL b = map (\<lambda>ev. (ev, buildTrackingURL externalURL b ev)) [''start'', ''firstQuartile'', ''midpoint'', ''thirdQuartile'', ''complete'']"

subsection \<open>Beacons are read back\<close>

lemma ParseQuery_pairs: "ParseQuery (join_with ''&'' (map pair_text kvs)) = kvs"
proof (cases "kvs = []")
  case True
  then show ?thesis by (simp add: ParseQuery_def query_part_def)
next
  case False
  then have "split_at (CHR ''&'') (join_with ''&'' (map pair_text kvs)) = map pair_text kvs" by (intro split_at_join) auto
  then show ?thesis by (simp add: ParseQuery_def comp_def)
qed

lemma encoded_no_hash: "CHR ''#'' \<notin> set (Values_Encode kvs)"
  using set_join_with [of "CHR ''#''" "''&''" "map pair_text (stable_sort (\<lambda>a b. string_less (fst a) (fst b)) kvs)"] by (auto simp: Values_Encode_def)

lemma query_read_back:
  assumes "wf_map kvs" "CHR ''?'' \<notin> set path" "CHR ''#'' \<notin> set path"
  shows "query_Get (ParseQuery (raw_query (path @ ''?'' @ Values_Encode kvs))) k = map_get [] kvs k"
proof -
  let ?s = "stable_sort (\<lambda>a b. string_less (fst a) (fst b)) kvs"
  have "cut_at (CHR ''#'') (path @ ''?'' @ Values_Encode kvs) = (path @ ''?'' @ Values_Encode kvs, [])"
    using assms(3) encoded_no_hash by (intro cut_at_absent) auto
  then have "raw_query (path @ ''?'' @ Values_Encode kvs) = Values_Encode kvs"
    using cut_at_append [OF assms(2), of "Values_Encode kvs"] by (simp add: raw_query_def)
  then have "ParseQuery (raw_query (path @ ''?'' @ Values_Encode kvs)) = ?s" by (simp add: Values_Encode_def ParseQuery_pairs)
  moreover have "map_of kvs = map_of ?s" by (rule map_of_perm [OF assms(1)]) simp
  ultimately show ?thesis by (simp add: query_Get_def map_get_def)
qed

lemma beacon_values_wf: "wf_map (beacon_values b)" "wf_map (take 4 (beacon_values b) @ (''event'', e) # drop 4 (beacon_values b))"
  by (simp_all add: beacon_values_def wf_map_def)

text \<open>
  A beacon names its auction: the endpoints read back from the impression and tracking URLs that the server puts into a document exactly the auction, bid, bidder,
  placement, creative and event they were built for, whatever characters these contain, if the base URL has no query or fragment.
\<close>
theorem beacon_read_back:
  assumes "CHR ''?'' \<notin> set (externalURL @ bc_base b)" "CHR ''#'' \<notin> set (externalURL @ bc_base b)"
  shows "query_Get (ParseQuery (raw_query (buildImpressionURL externalURL b))) k = map_get [] (beacon_values b) k
    \<and> map (query_Get (ParseQuery (raw_query (buildTrackingURL externalURL b event)))) [''auction_id'', ''bid_id'', ''bidder'', ''placement_id'', ''event'', ''crid''] =
        [bc_AuctionID b, bc_BidID b, bc_Bidder b, bc_PlacementID b, event, bc_CrID b]"
proof
  define base where "base = (if bc_base b = [] then externalURL else bc_base b)"
  have base: "CHR ''?'' \<notin> set base" "CHR ''#'' \<notin> set base" using assms by (auto simp: base_def)
  have url: "buildImpressionURL externalURL b = (base @ ''/video/impression'') @ ''?'' @ Values_Encode (beacon_values b)"
    "buildTrackingURL externalURL b event = (base @ ''/video/tracking'') @ ''?'' @ Values_Encode (take 4 (beacon_values b) @ (''event'', event) # drop 4 (beacon_values b))"
    by (simp_all add: buildImpressionURL_def buildTrackingURL_def base_def)
  show "query_Get (ParseQuery (raw_query (buildImpressionURL externalURL b))) k = map_get [] (beacon_values b) k"
    unfolding url using base by (intro query_read_back beacon_values_wf) auto
  have "query_Get (ParseQuery (raw_query (buildTrackingURL externalURL b event))) k = map_get [] (take 4 (beacon_values b) @ (''event'', event) # drop 4 (beacon_values b)) k" for k
    unfolding url using base by (intro query_read_back beacon_values_wf) auto
  then show "map (query_Get (ParseQuery (raw_query (buildTrackingURL externalURL b event)))) [''auction_id'', ''bid_id'', ''bidder'', ''placement_id'', ''event'', ''crid''] =
        [bc_AuctionID b, bc_BidID b, bc_Bidder b, bc_PlacementID b, event, bc_CrID b]"
    by (simp add: beacon_values_def map_get_def)
qed

definition sample_beacon :: beacon where
  "sample_beacon = \<lparr>bc_base = [], bc_AuctionID = ''a&b'', bc_BidID = ''1'', bc_Bidder = ''x'', bc_PlacementID = ''p'', bc_CrID = ''c'', bc_Price = Fin 0, bc_ADomain = []\<rparr>"

theorem beacon_read_back_witness:
  "query_Get (ParseQuery (raw_query (buildImpressionURL ''http://h'' sample_beacon))) ''auction_id'' = ''a&b''
    \<and> query_Get (ParseQuery (raw_query (buildTrackingURL ''http://h'' sample_beacon ''start''))) ''event'' = ''start''"
  using beacon_read_back [of "''http://h''" sample_beacon "''auction_id''" "''start''"] by (simp add: sample_beacon_def beacon_values_def map_get_def)

end
