(* ===== verification/VideoAuction.thy ===== *)
theory VideoAuction
  imports VideoDemand
begin

text \<open>
  A video auction (\<^verbatim>\<open>endpoints/demand_adapter.go\<close> and the stages 2 to 5 of \<^verbatim>\<open>endpoints/video_pipeline.go\<close>): the check of VAST markup, the document built for a winner, the six demand
  adapters and their parallel run. The tokens of the XML decoder, the encoder, the parser of URLs, HTTP replies, random IDs, the outbound OpenRTB request with its JSON
  codec and the exchange are arguments. The test hook that replaces the router is left out, so an adapter that returns no error returns a response.
\<close>

section \<open>VAST markup\<close>

datatype vastCreativeType = adMIsVAST | adMIsURI | adMIsMedia | adMEmpty

definition classifyAdM :: "(string \<Rightarrow> string) \<Rightarrow> string \<Rightarrow> vastCreativeType" where
  "classifyAdM uniU adm =
     (if isEmptyAdM adm then adMEmpty
      else if Contains (upper_bytes uniU (take 512 adm)) ''<VAST'' then adMIsVAST
      else if prefix ''http'' (TrimSpace adm) then adMIsURI
      else adMIsMedia)"

text \<open>The tokens of a document up to the end of the input or the first syntax error, which the code treats alike.\<close>

datatype vast_token = StartElement string | EndElement | OtherToken

fun dec_Skip :: "nat \<Rightarrow> vast_token list \<Rightarrow> vast_token list option" where
  "dec_Skip depth [] = None"
| "dec_Skip depth (StartElement n # ts) = dec_Skip (Suc depth) ts"
| "dec_Skip depth (EndElement # ts) = (case depth of 0 \<Rightarrow> Some ts | Suc d \<Rightarrow> dec_Skip d ts)"
| "dec_Skip depth (OtherToken # ts) = dec_Skip depth ts"

lemma dec_Skip_length: "dec_Skip d ts = Some rest \<Longrightarrow> length rest < length ts"
  by (induction d ts rule: dec_Skip.induct) (auto split: nat.splits)

text \<open>The three loops of \<^verbatim>\<open>validateVASTAdM\<close>: the root, the first \<^verbatim>\<open>Ad\<close>, and its first \<^verbatim>\<open>InLine\<close> or \<^verbatim>\<open>Wrapper\<close>. The result is the error.\<close>

function validate_children :: "(string \<Rightarrow> string) \<Rightarrow> vast_token list \<Rightarrow> string option" where
  "validate_children uni [] = Some ''VAST AdM <Ad> element is incomplete''"
| "validate_children uni (OtherToken # ts) = validate_children uni ts"
| "validate_children uni (EndElement # ts) = Some ''VAST AdM <Ad> element contains neither <InLine> nor <Wrapper>''"
| "validate_children uni (StartElement n # ts) =
    (if lower_bytes uni n = ''wrapper'' \<or> lower_bytes uni n = ''inline'' then None
     else (case dec_Skip 0 ts of None \<Rightarrow> Some ''VAST AdM <Ad> child is malformed'' | Some rest \<Rightarrow> validate_children uni rest))"
  by pat_completeness auto
termination
  by (relation "measure (\<lambda>(uni, ts). length ts)") (auto dest: dec_Skip_length)

function validate_ads :: "(string \<Rightarrow> string) \<Rightarrow> vast_token list \<Rightarrow> string option" where
  "validate_ads uni [] = Some ''VAST AdM contains no <Ad> element''"
| "validate_ads uni (StartElement n # ts) =
    (if EqualFold n ''Ad'' then validate_children uni ts
     else (case dec_Skip 0 ts of None \<Rightarrow> Some ''VAST AdM is malformed XML'' | Some rest \<Rightarrow> validate_ads uni rest))"
| "validate_ads uni (EndElement # ts) = validate_ads uni ts"
| "validate_ads uni (OtherToken # ts) = validate_ads uni ts"
  by pat_completeness auto
termination
  by (relation "measure (\<lambda>(uni, ts). length ts)") (auto dest: dec_Skip_length)

fun validate_root :: "(string \<Rightarrow> string) \<Rightarrow> vast_token list \<Rightarrow> string option" where
  "validate_root uni [] = Some ''VAST AdM is malformed XML''"
| "validate_root uni (StartElement n # ts) = (if EqualFold n ''VAST'' then validate_ads uni ts else Some ''VAST AdM root element is not <VAST>'')"
| "validate_root uni (EndElement # ts) = validate_root uni ts"
| "validate_root uni (OtherToken # ts) = validate_root uni ts"

definition validateVASTAdM :: "(string \<Rightarrow> string) \<Rightarrow> (string \<Rightarrow> vast_token list) \<Rightarrow> string \<Rightarrow> string option" where
  "validateVASTAdM uni tokens adm = validate_root uni (tokens adm)"

subsection \<open>Markup and its document tree\<close>

datatype xml_node = Element string "xml_node list" | Content

fun node_tokens :: "xml_node \<Rightarrow> vast_token list" where
  "node_tokens (Element n kids) = StartElement n # concat (map node_tokens kids) @ [EndElement]"
| "node_tokens Content = [OtherToken]"

fun is_element :: "(string \<Rightarrow> bool) \<Rightarrow> xml_node \<Rightarrow> bool" where
  "is_element P (Element n kids) = P n"
| "is_element P Content = False"

fun children :: "xml_node \<Rightarrow> xml_node list" where
  "children (Element n kids) = kids"
| "children Content = []"

definition is_creative :: "(string \<Rightarrow> string) \<Rightarrow> string \<Rightarrow> bool" where
  "is_creative uni n \<longleftrightarrow> lower_bytes uni n = ''wrapper'' \<or> lower_bytes uni n = ''inline''"

lemma dec_Skip_node:
  "dec_Skip d (node_tokens t @ ts) = dec_Skip d ts"
proof (induction t arbitrary: d ts)
  case (Element n kids)
  have "dec_Skip d (concat (map node_tokens kids) @ ts) = dec_Skip d ts" for d ts
    using Element.IH by (induction kids arbitrary: ts) auto
  then show ?case by simp
qed simp

lemma dec_Skip_nodes: "dec_Skip d (concat (map node_tokens kids) @ ts) = dec_Skip d ts"
  by (induction kids arbitrary: ts) (simp_all add: dec_Skip_node)

lemma validate_children_nodes:
  "validate_children uni (concat (map node_tokens kids) @ EndElement # ts) = None \<longleftrightarrow> list_ex (is_element (is_creative uni)) kids"
proof (induction kids)
  case (Cons k kids)
  then show ?case by (cases k) (auto simp: is_creative_def dec_Skip_nodes)
qed simp

lemma validate_ads_nodes:
  "validate_ads uni (concat (map node_tokens kids) @ EndElement # replicate n OtherToken) = None \<longleftrightarrow>
    (case find (is_element (\<lambda>m. EqualFold m ''Ad'')) kids of None \<Rightarrow> False | Some ad \<Rightarrow> list_ex (is_element (is_creative uni)) (children ad))"
proof (induction kids)
  case Nil
  have "validate_ads uni (replicate n OtherToken) \<noteq> None" by (induction n) simp_all
  then show ?case by simp
next
  case (Cons k kids)
  then show ?case by (cases k) (auto simp: validate_children_nodes dec_Skip_nodes)
qed

text \<open>
  Markup is served only if it has a creative: for a well-formed document, with any prolog and trailing text, the check of a winner's markup passes exactly when the root is
  \<^verbatim>\<open>VAST\<close>, the document has an \<^verbatim>\<open>Ad\<close>, and the first one has an \<^verbatim>\<open>InLine\<close> or \<^verbatim>\<open>Wrapper\<close> child, in any case of letters; documents with only errors are refused.
\<close>
theorem vast_markup_accepted:
  "(validateVASTAdM uni (\<lambda>_. replicate m OtherToken @ node_tokens (Element root_name kids) @ replicate n OtherToken) adm = None) =
    (EqualFold root_name ''VAST'' \<and>
     (case find (is_element (\<lambda>m. EqualFold m ''Ad'')) kids of None \<Rightarrow> False | Some ad \<Rightarrow> list_ex (is_element (is_creative uni)) (children ad)))"
proof -
  have "validate_root uni (replicate m OtherToken @ ts) = validate_root uni ts" for ts by (induction m) simp_all
  then show ?thesis by (simp add: validateVASTAdM_def validate_ads_nodes)
qed

section \<open>Documents for a winner\<close>

text \<open>\<^verbatim>\<open>filepath.Ext\<close> on a system whose separator is the slash.\<close>

definition path_Ext :: "string \<Rightarrow> string" where
  "path_Ext path =
     (let tail = takeWhile (\<lambda>c. c \<noteq> CHR ''.'' \<and> c \<noteq> CHR ''/'') (rev path) in
      (case drop (length tail) (rev path) of c # _ \<Rightarrow> (if c = CHR ''.'' then c # rev tail else []) | [] \<Rightarrow> []))"

definition mediaTypeForURL :: "(string \<Rightarrow> string) \<Rightarrow> (string \<Rightarrow> string option) \<Rightarrow> string \<Rightarrow> string \<times> string" where
  "mediaTypeForURL uni url_Path rawURL =
     (let ext = lower_bytes uni (path_Ext (case url_Path rawURL of Some p \<Rightarrow> p | None \<Rightarrow> rawURL)) in
      if ext = ''.m3u8'' then (''application/x-mpegURL'', ''streaming'')
      else if ext = ''.mpd'' then (''application/dash+xml'', ''streaming'')
      else if ext = ''.webm'' then (''video/webm'', ''progressive'')
      else if ext = ''.mov'' then (''video/quicktime'', ''progressive'')
      else if ext = ''.ts'' then (''video/mp2t'', ''progressive'')
      else (''video/mp4'', ''progressive''))"

text \<open>Division of Go truncates towards zero.\<close>

definition quot_int :: "int \<Rightarrow> int \<Rightarrow> int" where
  "quot_int a b = (if 0 \<le> a then a div b else - (- a div b))"

definition pad2 :: "int \<Rightarrow> string" where
  "pad2 n = (let s = FormatInt n in if length s < 2 then ''0'' @ s else s)"

definition formatDuration :: "int \<Rightarrow> string" where
  "formatDuration seconds =
     (let h = quot_int seconds 3600; m = quot_int (seconds - h * 3600) 60; s = seconds - quot_int seconds 60 * 60
      in pad2 h @ '':'' @ pad2 m @ '':'' @ pad2 s)"

record vastImpression =
  vi_ID :: string
  vi_Inner :: string

record vastMediaFile =
  mf_Delivery :: string
  mf_Type :: string
  mf_Width :: int
  mf_Height :: int
  mf_Inner :: string

record vastLinear =
  li_Duration :: string
  li_TrackingEvents :: "vastTracking list option"
  li_MediaFiles :: "vastMediaFile list"

record vastCreative =
  cr_ID :: string
  cr_Linear :: "vastLinear option"

record vastInline =
  in_AdSystem :: string
  in_AdTitle :: string
  in_Impression :: "vastImpression list"
  in_Creatives :: "vastCreative list"

record vastWrapper =
  wr_AdSystem :: string
  wr_VASTAdTagURI :: string
  wr_Impression :: "vastImpression list"
  wr_TrackingEvents :: "vastTracking list option"

record vastAd =
  ad_ID :: string
  ad_Inline :: "vastInline option"
  ad_Wrapper :: "vastWrapper option"

record vastRoot =
  vd_Version :: string
  vd_Ad :: "vastAd list"

definition doc_impressions :: "string \<Rightarrow> string \<Rightarrow> vastImpression list" where
  "doc_impressions pbsImpURL resolvedBURL = \<lparr>vi_ID = [], vi_Inner = pbsImpURL\<rparr> # (if resolvedBURL = [] then [] else [\<lparr>vi_ID = ''burl'', vi_Inner = resolvedBURL\<rparr>])"

definition wrapper_doc :: "WinningBid \<Rightarrow> string \<Rightarrow> string \<Rightarrow> string \<Rightarrow> vastTracking list \<Rightarrow> vastRoot" where
  "wrapper_doc win pbsImpURL tagURI resolvedBURL events =
     \<lparr>vd_Version = ''3.0'', vd_Ad = [\<lparr>ad_ID = wb_BidID win, ad_Inline = None,
        ad_Wrapper = Some \<lparr>wr_AdSystem = ''Viadsmedia'', wr_VASTAdTagURI = tagURI, wr_Impression = doc_impressions pbsImpURL resolvedBURL,
          wr_TrackingEvents = (if events = [] then None else Some events)\<rparr>\<rparr>]\<rparr>"

definition inline_doc :: "WinningBid \<Rightarrow> string \<Rightarrow> string \<Rightarrow> string \<Rightarrow> vastTracking list \<Rightarrow> int \<Rightarrow> string \<times> string \<Rightarrow> vastRoot" where
  "inline_doc win pbsImpURL mediaURL resolvedBURL events maxDuration media =
     \<lparr>vd_Version = ''3.0'', vd_Ad = [\<lparr>ad_ID = wb_BidID win,
        ad_Inline = Some \<lparr>in_AdSystem = ''Viadsmedia'', in_AdTitle = ''Video Ad'', in_Impression = doc_impressions pbsImpURL resolvedBURL,
          in_Creatives = [\<lparr>cr_ID = wb_CrID win, cr_Linear = Some \<lparr>li_Duration = formatDuration maxDuration, li_TrackingEvents = Some events,
            li_MediaFiles = [\<lparr>mf_Delivery = snd media, mf_Type = fst media, mf_Width = wb_Width win, mf_Height = wb_Height win, mf_Inner = mediaURL\<rparr>]\<rparr>\<rparr>]\<rparr>,
        ad_Wrapper = None\<rparr>]\<rparr>"

section \<open>The surroundings of a demand source\<close>

text \<open>A call panics, returns an error or a value. The body of a reply is decompressed, \<open>None\<close> if that or reading fails.\<close>

datatype 'a run = Panicked | Failed string | Returned 'a

definition run_of :: "'a option \<Rightarrow> 'a run" where
  "run_of r = (case r of None \<Rightarrow> Panicked | Some x \<Rightarrow> Returned x)"

datatype http_reply = NoReply | Reply int "string option"

record demand_env =
  dm_lower :: "string \<Rightarrow> string"
  dm_upper :: "string \<Rightarrow> string"
  dm_url :: url_env
  dm_path :: "string \<Rightarrow> string option"
  dm_tokens :: "string \<Rightarrow> vast_token list"
  dm_first_token :: "string \<Rightarrow> bool"
  dm_marshal :: "vastRoot \<Rightarrow> string option"
  dm_get :: "nat \<Rightarrow> string \<Rightarrow> string \<Rightarrow> http_reply"  \<comment> \<open>the number of the request, the URL and the user agent\<close>
  dm_post :: "PlayerRequest \<Rightarrow> AdServerConfig \<Rightarrow> http_reply"
  dm_decode :: "string \<Rightarrow> VideoBidResponse option"
  dm_exchange :: "PlayerRequest \<Rightarrow> AdServerConfig \<Rightarrow> string + VideoBidResponse option"
  dm_externalURL :: string
  dm_new_id :: "nat \<Rightarrow> string"
  dm_cb :: nat

definition max_body :: nat where
  "max_body = 1048576"

definition fetchVAST :: "demand_env \<Rightarrow> string \<Rightarrow> nat \<Rightarrow> string \<Rightarrow> string + string" where
  "fetchVAST env ua k vastURL =
     (case validateOutboundPublicURL (dm_url env) vastURL of
        Some e \<Rightarrow> Inl e
      | None \<Rightarrow>
          (case dm_get env k vastURL ua of
             NoReply \<Rightarrow> Inl ''GET demand VAST''
           | Reply status body \<Rightarrow>
               if status \<noteq> 200 then Inl ''demand VAST returned HTTP status''
               else (case body of
                 None \<Rightarrow> Inl ''read demand VAST body''
               | Some data \<Rightarrow>
                   if max_body < length (take (max_body + 1) data) then Inl ''demand VAST too large (>1MB)''
                   else if TrimSpace data = [] then Inl ''demand VAST empty''
                   else if \<not> dm_first_token env data then Inl ''demand response is not valid XML''
                   else if indexCaseFold (dm_lower env) (take 512 data) ''<VAST'' = -1 then Inl ''demand response is valid XML but not a VAST document''
                   else Inr data)))"

definition fetch_option :: "demand_env \<Rightarrow> string \<Rightarrow> nat \<Rightarrow> string \<Rightarrow> string option" where
  "fetch_option env ua k u = (case fetchVAST env ua k u of Inl e \<Rightarrow> None | Inr d \<Rightarrow> Some d)"

definition resolve_chain :: "demand_env \<Rightarrow> string \<Rightarrow> string \<Rightarrow> string option" where
  "resolve_chain env ua vast = resolveVASTWrapperChain (dm_lower env) (dm_upper env) (fetch_option env ua) 5 vast"

definition postToDemandORTB :: "demand_env \<Rightarrow> PlayerRequest \<Rightarrow> AdServerConfig \<Rightarrow> string + VideoBidResponse" where
  "postToDemandORTB env pr cfg =
     (case validateOutboundPublicURL (dm_url env) (as_DemandOrtbURL cfg) of
        Some e \<Rightarrow> Inl e
      | None \<Rightarrow>
          (case dm_post env pr cfg of
             NoReply \<Rightarrow> Inl ''POST to demand ORTB endpoint''
           | Reply status body \<Rightarrow>
               if status = 204 then Inl ''no fill from demand (204)''
               else if status < 200 \<or> 300 \<le> status then Inl ''demand ORTB returned HTTP status''
               else (case body of
                 None \<Rightarrow> Inl ''read bid response''
               | Some data \<Rightarrow>
                   if take max_body data = [] then Inl ''demand ORTB returned empty body''
                   else (case dm_decode env (take max_body data) of None \<Rightarrow> Inl ''decode bid response'' | Some r \<Rightarrow> Inr r))))"

section \<open>The response for a winner\<close>

definition marshal_doc :: "demand_env \<Rightarrow> vastRoot \<Rightarrow> string run" where
  "marshal_doc env doc =
     (case dm_marshal env doc of None \<Rightarrow> Failed ''xml marshal'' | Some x \<Rightarrow> Returned (''<?xml version=\"1.0\" encoding=\"UTF-8\"?>'' @ [CHR 0x0A] @ x))"

definition buildVASTWrapperDoc :: "demand_env \<Rightarrow> WinningBid \<Rightarrow> string \<Rightarrow> string \<Rightarrow> string \<Rightarrow> vastTracking list \<Rightarrow> string run" where
  "buildVASTWrapperDoc env win pbsImpURL tagURI resolvedBURL events = marshal_doc env (wrapper_doc win pbsImpURL tagURI resolvedBURL events)"

definition buildVASTInlineDoc :: "demand_env \<Rightarrow> WinningBid \<Rightarrow> string \<Rightarrow> string \<Rightarrow> string \<Rightarrow> vastTracking list \<Rightarrow> AdServerConfig \<Rightarrow> string run" where
  "buildVASTInlineDoc env win pbsImpURL mediaURL resolvedBURL events cfg =
     marshal_doc env (inline_doc win pbsImpURL mediaURL resolvedBURL events (as_MaxDuration cfg) (mediaTypeForURL (dm_lower env) (dm_path env) mediaURL))"

definition inject_pixels :: "demand_env \<Rightarrow> string \<Rightarrow> string \<Rightarrow> string \<Rightarrow> vastTracking list \<Rightarrow> string option" where
  "inject_pixels env adm pbsImpURL resolvedBURL events =
     (case injectVASTImpression (dm_lower env) adm pbsImpURL of
        None \<Rightarrow> None
      | Some vast \<Rightarrow>
          (case (if resolvedBURL = [] then Some vast else injectVASTImpressionWithID (dm_lower env) vast resolvedBURL ''burl'') of
             None \<Rightarrow> None
           | Some vast \<Rightarrow> injectVASTTracking (dm_lower env) vast events))"

definition bid_beacon :: "AdServerConfig \<Rightarrow> PlayerRequest \<Rightarrow> WinningBid \<Rightarrow> string \<Rightarrow> string \<Rightarrow> beacon" where
  "bid_beacon cfg pr win bidder auctionID =
     \<lparr>bc_base = as_RequestBaseURL cfg, bc_AuctionID = auctionID, bc_BidID = wb_BidID win, bc_Bidder = bidder, bc_PlacementID = pr_PlacementID pr, bc_CrID = wb_CrID win,
      bc_Price = wb_Price win, bc_ADomain = wb_ADomain win\<rparr>"

text \<open>The URLs handed to \<^verbatim>\<open>fireWinNotice\<close>, and the document.\<close>

definition win_notices :: "WinningBid \<Rightarrow> string \<Rightarrow> string \<Rightarrow> string list" where
  "win_notices win auctionID bidder = (if wb_NURL win \<noteq> [] \<and> wb_AdM win \<noteq> [] then [resolveAuctionMacros (wb_NURL win) win auctionID bidder] else [])"

definition vast_for_markup :: "demand_env \<Rightarrow> PlayerRequest \<Rightarrow> string \<Rightarrow> string \<Rightarrow> string \<Rightarrow> vastTracking list \<Rightarrow> string run" where
  "vast_for_markup env pr adm pbsImpURL resolvedBURL events =
     (case validateVASTAdM (dm_lower env) (dm_tokens env) adm of
        Some e \<Rightarrow> Failed e
      | None \<Rightarrow>
          (case extractVASTAdTagURI (dm_lower env) (dm_upper env) adm of
             None \<Rightarrow> Panicked
           | Some tagURI \<Rightarrow>
               (case (if tagURI = [] then Some adm else map_option (\<lambda>resolved. if TrimSpace resolved = [] then adm else resolved) (resolve_chain env (pr_UA pr) adm)) of
                  None \<Rightarrow> Panicked
                | Some adm \<Rightarrow> run_of (inject_pixels env adm pbsImpURL resolvedBURL events))))"

definition vast_for_uri :: "demand_env \<Rightarrow> PlayerRequest \<Rightarrow> WinningBid \<Rightarrow> string \<Rightarrow> string \<Rightarrow> vastTracking list \<Rightarrow> string run" where
  "vast_for_uri env pr win pbsImpURL resolvedBURL events =
     (let fallback = buildVASTWrapperDoc env win pbsImpURL (wb_AdM win) resolvedBURL events in
      case fetch_option env (pr_UA pr) 5 (wb_AdM win) of
        None \<Rightarrow> fallback
      | Some fetched \<Rightarrow>
          if TrimSpace fetched = [] then fallback
          else (case resolve_chain env (pr_UA pr) fetched of
            None \<Rightarrow> Panicked
          | Some resolved \<Rightarrow> if TrimSpace resolved = [] then fallback else run_of (inject_pixels env resolved pbsImpURL resolvedBURL events)))"

definition buildVASTResponse :: "demand_env \<Rightarrow> PlayerRequest \<Rightarrow> AdServerConfig \<Rightarrow> WinningBid \<Rightarrow> string \<Rightarrow> string \<Rightarrow> string list \<times> string run" where
  "buildVASTResponse env pr cfg win bidder auctionID =
     (let nurlForWrap = (if wb_NURL win \<noteq> [] \<and> wb_AdM win = [] then resolveAuctionMacros (wb_NURL win) win auctionID bidder else []);
          resolvedBURL = resolveAuctionMacros (wb_BURL win) win auctionID bidder;
          b = bid_beacon cfg pr win bidder auctionID;
          pbsImpURL = buildImpressionURL (dm_externalURL env) b;
          events = buildTrackingEventList (dm_externalURL env) b
      in (win_notices win auctionID bidder,
          case classifyAdM (dm_upper env) (wb_AdM win) of
            adMIsVAST \<Rightarrow> vast_for_markup env pr (wb_AdM win) pbsImpURL resolvedBURL events
          | adMIsURI \<Rightarrow> vast_for_uri env pr win pbsImpURL resolvedBURL events
          | adMIsMedia \<Rightarrow> buildVASTInlineDoc env win pbsImpURL (wb_AdM win) resolvedBURL events cfg
          | adMEmpty \<Rightarrow> if nurlForWrap \<noteq> [] then buildVASTWrapperDoc env win pbsImpURL nurlForWrap resolvedBURL events else Failed ''bid has no AdM and no NURL''))"

section \<open>Demand adapters\<close>

datatype InboundProtocol = InboundVAST | InboundORTB

record DemandResponse =
  dr_VASTXml :: string
  dr_BidResp :: "VideoBidResponse option"
  dr_WinPrice :: float64
  dr_NoFill :: bool
  dr_Bidder :: string
  dr_CrID :: string
  dr_ADomain :: "string list"
  dr_AuctionID :: string
  dr_BURL :: string
  dr_DealID :: string

definition zero_response :: DemandResponse where
  "zero_response = \<lparr>dr_VASTXml = [], dr_BidResp = None, dr_WinPrice = 0, dr_NoFill = False, dr_Bidder = [], dr_CrID = [], dr_ADomain = [], dr_AuctionID = [], dr_BURL = [], dr_DealID = []\<rparr>"

definition emptyVAST :: string where
  "emptyVAST = ''<?xml version=\"1.0\" encoding=\"UTF-8\"?><VAST version=\"3.0\"></VAST>''"

definition resolveDemandType :: "AdServerConfig \<Rightarrow> DemandType" where
  "resolveDemandType cfg = (if as_DemandVASTURL cfg \<noteq> [] then DemandTypeVAST else if as_DemandOrtbURL cfg \<noteq> [] then DemandTypeORTB else DemandTypePrebid)"

datatype DemandAdapter = vastToVASTAdapter | vastToORTBAdapter | vastPrebidAdapter | ortbToORTBAdapter | ortbToVASTAdapter | ortbPrebidAdapter

fun adapterRouter :: "InboundProtocol \<times> DemandType \<Rightarrow> DemandAdapter" where
  "adapterRouter (InboundVAST, DemandTypeVAST) = vastToVASTAdapter"
| "adapterRouter (InboundVAST, DemandTypeORTB) = vastToORTBAdapter"
| "adapterRouter (InboundVAST, DemandTypePrebid) = vastPrebidAdapter"
| "adapterRouter (InboundORTB, DemandTypeORTB) = ortbToORTBAdapter"
| "adapterRouter (InboundORTB, DemandTypeVAST) = ortbToVASTAdapter"
| "adapterRouter (InboundORTB, DemandTypePrebid) = ortbPrebidAdapter"

text \<open>The document, the auction ID and whether there is no fill.\<close>

definition fetchTrackedVASTDemand :: "demand_env \<Rightarrow> PlayerRequest \<Rightarrow> AdServerConfig \<Rightarrow> (string \<times> string \<times> bool) run" where
  "fetchTrackedVASTDemand env pr cfg =
     (let none = Returned (emptyVAST, [], True) in
      if as_DemandVASTURL cfg = [] then Failed ''demand VAST url is empty''
      else (case fetch_option env (pr_UA pr) 5 (substituteMacros (dm_cb env) (as_DemandVASTURL cfg) pr cfg) of
        None \<Rightarrow> none
      | Some fetched \<Rightarrow>
          if TrimSpace fetched = [] then none
          else (case resolve_chain env (pr_UA pr) fetched of
            None \<Rightarrow> Panicked
          | Some vast \<Rightarrow>
              if TrimSpace vast = [] then none
              else
                let b = \<lparr>bc_base = as_RequestBaseURL cfg, bc_AuctionID = dm_new_id env 0, bc_BidID = dm_new_id env 1, bc_Bidder = ''direct-vast'', bc_PlacementID = pr_PlacementID pr,
                         bc_CrID = [], bc_Price = outboundBidFloorCPM cfg, bc_ADomain = []\<rparr> in
                run_of (map_option (\<lambda>v. (v, dm_new_id env 0, False))
                  (inject_pixels env vast (buildImpressionURL (dm_externalURL env) b) [] (buildTrackingEventList (dm_externalURL env) b))))))"

definition vastXMLToBidResponseWithPrice :: "demand_env \<Rightarrow> string \<Rightarrow> float64 \<Rightarrow> VideoBidResponse" where
  "vastXMLToBidResponseWithPrice env vastXML price =
     (let price = (if price < 0 then 0 else price);
          bad = validateVASTAdM (dm_lower env) (dm_tokens env) vastXML \<noteq> None
      in \<lparr>vr_ID = dm_new_id env 2, vr_SeatBid = [(''direct-vast'', [\<lparr>vb_ID = dm_new_id env 3, vb_ImpID = ''1'', vb_Price = (if bad then 0 else price),
           vb_AdM = (if bad then emptyVAST else vastXML), vb_NURL = [], vb_BURL = [], vb_CrID = [], vb_DealID = [], vb_ADomain = [], vb_W = 0, vb_H = 0\<rparr>])]\<rparr>)"

definition of_winner :: "WinningBid \<Rightarrow> string \<Rightarrow> string \<Rightarrow> DemandResponse" where
  "of_winner win bidder auctionID = zero_response\<lparr>dr_WinPrice := wb_Price win, dr_Bidder := bidder, dr_CrID := wb_CrID win, dr_ADomain := wb_ADomain win,
     dr_AuctionID := auctionID, dr_BURL := wb_BURL win, dr_DealID := wb_DealID win\<rparr>"

text \<open>The adapters that answer with VAST and with a bid response for a bid response of demand; a missing response is dereferenced by the second.\<close>

definition vast_of_bids :: "demand_env \<Rightarrow> PlayerRequest \<Rightarrow> AdServerConfig \<Rightarrow> VideoBidResponse option \<Rightarrow> string list \<times> DemandResponse run" where
  "vast_of_bids env pr cfg bidResp =
     (let auctionID = (case bidResp of None \<Rightarrow> [] | Some r \<Rightarrow> vr_ID r) in
      case extractWinningBid bidResp cfg of
        Inl e \<Rightarrow> ([], Returned (zero_response\<lparr>dr_VASTXml := emptyVAST, dr_NoFill := True, dr_AuctionID := auctionID\<rparr>))
      | Inr (win, bidder) \<Rightarrow>
          (case buildVASTResponse env pr cfg win bidder auctionID of
             (notices, Returned vast) \<Rightarrow> (notices, Returned ((of_winner win bidder auctionID)\<lparr>dr_VASTXml := vast\<rparr>))
           | (notices, Failed e) \<Rightarrow> (notices, Failed e)
           | (notices, Panicked) \<Rightarrow> (notices, Panicked)))"

definition bids_of_bids :: "bool \<Rightarrow> AdServerConfig \<Rightarrow> VideoBidResponse option \<Rightarrow> DemandResponse run" where
  "bids_of_bids mark_no_fill cfg bidResp =
     (case bidResp of
        None \<Rightarrow> Panicked
      | Some r \<Rightarrow>
          Returned (case extractWinningBid (Some r) cfg of
             Inl e \<Rightarrow> zero_response\<lparr>dr_BidResp := Some r, dr_AuctionID := vr_ID r, dr_NoFill := mark_no_fill\<rparr>
           | Inr (win, bidder) \<Rightarrow> (of_winner win bidder (vr_ID r))\<lparr>dr_BidResp := Some r\<rparr>))"

fun Execute :: "demand_env \<Rightarrow> DemandAdapter \<Rightarrow> PlayerRequest \<Rightarrow> AdServerConfig \<Rightarrow> string list \<times> DemandResponse run" where
  "Execute env vastToVASTAdapter pr cfg =
    ([], case fetchTrackedVASTDemand env pr cfg of
       Panicked \<Rightarrow> Panicked | Failed e \<Rightarrow> Failed e
     | Returned (vast, auctionID, noFill) \<Rightarrow>
         Returned (zero_response\<lparr>dr_VASTXml := vast, dr_AuctionID := auctionID, dr_WinPrice := (if noFill then 0 else outboundBidFloorCPM cfg), dr_NoFill := noFill\<rparr>))"
| "Execute env ortbToVASTAdapter pr cfg =
    ([], case fetchTrackedVASTDemand env pr cfg of
       Panicked \<Rightarrow> Panicked | Failed e \<Rightarrow> Failed e
     | Returned (vast, auctionID, noFill) \<Rightarrow>
         let winPrice = (if noFill then 0 else outboundBidFloorCPM cfg) in
         Returned (zero_response\<lparr>dr_BidResp := Some (vastXMLToBidResponseWithPrice env vast winPrice), dr_AuctionID := auctionID, dr_WinPrice := winPrice, dr_NoFill := noFill\<rparr>))"
| "Execute env vastToORTBAdapter pr cfg = (case postToDemandORTB env pr cfg of Inl e \<Rightarrow> ([], Failed e) | Inr r \<Rightarrow> vast_of_bids env pr cfg (Some r))"
| "Execute env ortbToORTBAdapter pr cfg = ([], case postToDemandORTB env pr cfg of Inl e \<Rightarrow> Failed e | Inr r \<Rightarrow> bids_of_bids True cfg (Some r))"
| "Execute env vastPrebidAdapter pr cfg = (case dm_exchange env pr cfg of Inl e \<Rightarrow> ([], Failed e) | Inr r \<Rightarrow> vast_of_bids env pr cfg r)"
| "Execute env ortbPrebidAdapter pr cfg = ([], case dm_exchange env pr cfg of Inl e \<Rightarrow> Failed e | Inr r \<Rightarrow> bids_of_bids False cfg r)"

section \<open>The parallel run of the sources\<close>

record demandSource =
  so_cfg :: AdServerConfig
  so_adapter :: DemandAdapter
  so_label :: string

definition extra_cfg :: "AdServerConfig \<Rightarrow> ExtraDemandCfg \<Rightarrow> AdServerConfig" where
  "extra_cfg cfg extra =
     cfg\<lparr>as_DemandVASTURL := ed_VASTTagURL extra, as_DemandOrtbURL := ed_OrtbURL extra,
         as_DemandFloorCPM := (if 0 < ed_FloorCPM extra then ed_FloorCPM extra else as_DemandFloorCPM cfg),
         as_BCat := (if ed_BCat extra \<noteq> [] then ed_BCat extra else as_BCat cfg), as_BAdv := (if ed_BAdv extra \<noteq> [] then ed_BAdv extra else as_BAdv cfg), as_ExtraDemand := []\<rparr>"

definition demand_source :: "InboundProtocol \<Rightarrow> AdServerConfig \<Rightarrow> string \<Rightarrow> demandSource" where
  "demand_source inbound cfg label = \<lparr>so_cfg = cfg, so_adapter = adapterRouter (inbound, resolveDemandType cfg), so_label = label\<rparr>"

definition buildDemandSources :: "AdServerConfig \<Rightarrow> InboundProtocol \<Rightarrow> demandSource list" where
  "buildDemandSources cfg inbound =
     demand_source inbound cfg ''primary'' # map (\<lambda>(i, extra). demand_source inbound (extra_cfg cfg extra) (''extra-'' @ FormatInt (int i))) (enumerate 0 (as_ExtraDemand cfg))"

text \<open>
  The loop that receives one result per source: \<open>None\<close> is the wait for a result that never comes, since a goroutine that panics is recovered and sends nothing.
\<close>

fun collect_results :: "nat \<Rightarrow> DemandResponse run list \<Rightarrow> DemandResponse option \<Rightarrow> string option \<Rightarrow> DemandResponse run option" where
  "collect_results 0 rs best lastErr =
    Some (case best of Some r \<Rightarrow> Returned r | None \<Rightarrow> Failed (case lastErr of Some e \<Rightarrow> e | None \<Rightarrow> ''no fill from demand sources''))"
| "collect_results (Suc n) [] best lastErr = None"
| "collect_results (Suc n) (r # rs) best lastErr =
    (case r of
       Panicked \<Rightarrow> collect_results (Suc n) rs best lastErr
     | Failed e \<Rightarrow> collect_results n rs best (Some e)
     | Returned d \<Rightarrow>
         if dr_NoFill d then collect_results n rs best lastErr
         else collect_results n rs (case best of None \<Rightarrow> Some d | Some b \<Rightarrow> Some (if dr_WinPrice b < dr_WinPrice d then d else b)) lastErr)"

text \<open>The results of the sources; \<open>env\<close> gives each source its surroundings and \<open>order\<close> is the order in which they finish.\<close>

definition source_results :: "(nat \<Rightarrow> demand_env) \<Rightarrow> PlayerRequest \<Rightarrow> demandSource list \<Rightarrow> (string list \<times> DemandResponse run) list" where
  "source_results env pr sources = map (\<lambda>(i, s). Execute (env i) (so_adapter s) pr (so_cfg s)) (enumerate 0 sources)"

definition runDemandWaterfall :: "(nat \<Rightarrow> demand_env) \<Rightarrow> nat list \<Rightarrow> PlayerRequest \<Rightarrow> AdServerConfig \<Rightarrow> InboundProtocol \<Rightarrow> string list \<times> DemandResponse run option" where
  "runDemandWaterfall env order pr cfg inbound =
     (if as_ExtraDemand cfg = [] then (let (notices, r) = Execute (env 0) (adapterRouter (inbound, resolveDemandType cfg)) pr cfg in (notices, Some r))
      else
        let results = source_results env pr (buildDemandSources cfg inbound); arrivals = map (\<lambda>i. results ! i) order in
        (concat (map fst arrivals), collect_results (length results) (map snd arrivals) None None))"

definition resolveEndpointTimeout :: "AdServerConfig option \<Rightarrow> PlayerRequest option \<Rightarrow> int" where
  "resolveEndpointTimeout cfg pr =
     (let ms = (case cfg of Some c \<Rightarrow> if 0 < as_TimeoutMS c then Some (as_TimeoutMS c) else None | None \<Rightarrow> None);
          ms = (case ms of Some t \<Rightarrow> Some t | None \<Rightarrow> (case pr of Some p \<Rightarrow> if 0 < pr_TMax p then Some (pr_TMax p) else None | None \<Rightarrow> None))
      in case ms of None \<Rightarrow> 5000 | Some t \<Rightarrow> max 3000 (t + 2000))"

subsection \<open>The best fill is served\<close>

fun fill_of :: "DemandResponse run \<Rightarrow> DemandResponse list" where
  "fill_of (Returned d) = (if dr_NoFill d then [] else [d])"
| "fill_of _ = []"

definition fills :: "DemandResponse run list \<Rightarrow> DemandResponse list" where
  "fills rs = concat (map fill_of rs)"

lemma fills_simps [simp]: "fills [] = []" "fills (r # rs) = fill_of r @ fills rs"
  by (simp_all add: fills_def)

lemma fills_perm: "mset rs = mset rs' \<Longrightarrow> set (fills rs) = set (fills rs')"
  by (auto simp: fills_def dest: mset_eq_setD)

definition finite_price :: "DemandResponse \<Rightarrow> bool" where
  "finite_price d \<longleftrightarrow> is_finite (dr_WinPrice d)"

fun best_outcome :: "DemandResponse set \<Rightarrow> DemandResponse run \<Rightarrow> bool" where
  "best_outcome F (Returned d) \<longleftrightarrow> d \<in> F \<and> (\<forall>f\<in>F. \<not> dr_WinPrice d < dr_WinPrice f)"
| "best_outcome F (Failed e) \<longleftrightarrow> F = {}"
| "best_outcome F Panicked \<longleftrightarrow> False"

lemma best_outcome_some: "best_outcome F r \<Longrightarrow> x \<in> F \<Longrightarrow> \<exists>d. r = Returned d \<and> d \<in> F \<and> (\<forall>f\<in>F. \<not> dr_WinPrice d < dr_WinPrice f)"
  by (cases r) auto

lemma price_trans: "finite_price a \<Longrightarrow> finite_price b \<Longrightarrow> finite_price c \<Longrightarrow> \<not> dr_WinPrice a < dr_WinPrice b \<Longrightarrow> \<not> dr_WinPrice b < dr_WinPrice c \<Longrightarrow> \<not> dr_WinPrice a < dr_WinPrice c"
  by (auto simp: finite_price_def elim!: is_finiteE)

lemma price_total: "finite_price a \<Longrightarrow> finite_price b \<Longrightarrow> dr_WinPrice a < dr_WinPrice b \<Longrightarrow> \<not> dr_WinPrice b < dr_WinPrice a"
  by (auto simp: finite_price_def elim!: is_finiteE)

lemma price_irrefl: "finite_price a \<Longrightarrow> \<not> dr_WinPrice a < dr_WinPrice a"
  by (auto simp: finite_price_def elim!: is_finiteE)

lemma collect_hangs: "collect_results n rs best err = None \<longleftrightarrow> length (filter (\<lambda>r. r \<noteq> Panicked) rs) < n"
  by (induction n rs best err rule: collect_results.induct) (auto split: run.splits option.splits)

lemma collect_best:
  assumes "n = length rs" "list_all (\<lambda>r. r \<noteq> Panicked) rs" "list_all finite_price (fills rs)" "pred_option finite_price best"
  shows "\<exists>r. collect_results n rs best err = Some r \<and> best_outcome (set_option best \<union> set (fills rs)) r"
  using assms
proof (induction rs arbitrary: n best err)
  case Nil
  then show ?case by (auto simp: price_irrefl split: option.split)
next
  case (Cons r rs)
  then obtain m where m: "n = Suc m" "m = length rs" by simp
  show ?case
  proof (cases "fill_of r")
    case Nil
    obtain err' where "collect_results n (r # rs) best err = collect_results m rs best err'"
      using m Nil Cons.prems(2) by (cases r) (auto split: if_splits)
    moreover have "fills (r # rs) = fills rs" using Nil by simp
    ultimately show ?thesis using Cons.IH [of m best err'] Cons.prems m(2) by (simp only: list.pred_inject)
  next
    case (Cons d ds)
    then have d: "r = Returned d" "\<not> dr_NoFill d" "ds = []" by (cases r; auto split: if_splits)+
    define b where "b = (case best of None \<Rightarrow> d | Some b \<Rightarrow> if dr_WinPrice b < dr_WinPrice d then d else b)"
    have step: "collect_results n (r # rs) best err = collect_results m rs (Some b) err" using d m(1) by (auto simp: b_def split: option.split)
    have fin: "finite_price b" "finite_price d" "pred_option finite_price best" using Cons.prems d by (auto simp: b_def split: option.split)
    have b: "b \<in> insert d (set_option best)" by (cases best) (simp_all add: b_def)
    have bmax: "\<forall>f\<in>insert d (set_option best). \<not> dr_WinPrice b < dr_WinPrice f"
    proof (cases best)
      case (Some c)
      then show ?thesis using fin price_irrefl [of c] price_irrefl [OF fin(2)] price_total [of c d] by (simp add: b_def)
    qed (use price_irrefl [OF fin(2)] in \<open>simp add: b_def\<close>)
    have "\<exists>r. collect_results m rs (Some b) err = Some r \<and> best_outcome (insert b (set (fills rs))) r"
      using Cons.IH [of m "Some b" err] Cons.prems m(2) fin by simp
    then obtain w where w: "collect_results m rs (Some b) err = Some (Returned w)" "w \<in> insert b (set (fills rs))" "\<forall>f\<in>insert b (set (fills rs)). \<not> dr_WinPrice w < dr_WinPrice f"
      using best_outcome_some [of "insert b (set (fills rs))" _ b] by blast
    have "finite_price w" using w(2) fin Cons.prems(3) d by (auto simp: list_all_iff)
    then have "\<not> dr_WinPrice w < dr_WinPrice f" if "f \<in> insert d (set_option best)" for f
      using that bmax w(3) fin price_trans [of w b f] by auto
    then show ?thesis using step w b d by auto
  qed
qed

lemma arrivals_perm:
  assumes "mset order = mset [0..<length results]"
  shows "mset (map (\<lambda>i. results ! i) order) = mset results"
proof -
  have "mset (map (\<lambda>i. results ! i) order) = image_mset (\<lambda>i. results ! i) (mset [0..<length results])" by (simp only: assms mset_map)
  also have "\<dots> = mset (map (\<lambda>i. results ! i) [0..<length results])" by simp
  also have "\<dots> = mset results" by (simp add: map_nth)
  finally show ?thesis .
qed

lemma source_results_length [simp]: "length (source_results env pr (buildDemandSources cfg inbound)) = Suc (length (as_ExtraDemand cfg))"
  by (simp add: source_results_def buildDemandSources_def)


lemma filter_shorter: "length (filter P xs) < length xs \<longleftrightarrow> (\<exists>x\<in>set xs. \<not> P x)"
  by (metis filter_True length_filter_less nat_less_le)

lemma filter_mset_length: "mset xs = mset ys \<Longrightarrow> length (filter P xs) = length (filter P ys)"
  by (metis mset_filter size_mset)

text \<open>A source that panics stops the run for ever: the recovered goroutine sends no result, and the loop has no other case to wait for.\<close>

lemma waterfall_hangs:
  assumes "as_ExtraDemand cfg \<noteq> []" "mset order = mset [0..<Suc (length (as_ExtraDemand cfg))]"
  shows "snd (runDemandWaterfall env order pr cfg inbound) = None \<longleftrightarrow> Panicked \<in> set (map snd (source_results env pr (buildDemandSources cfg inbound)))"
proof -
  define rs where "rs = source_results env pr (buildDemandSources cfg inbound)"
  have len: "length rs = Suc (length (as_ExtraDemand cfg))" by (simp add: rs_def)
  have "mset (map (\<lambda>i. rs ! i) order) = mset rs" using assms(2) by (intro arrivals_perm) (simp only: len)
  then have "mset (map snd (map (\<lambda>i. rs ! i) order)) = mset (map snd rs)" by (simp only: mset_map)
  note perm = filter_mset_length [OF this, of "\<lambda>r. r \<noteq> Panicked"]
  have "snd (runDemandWaterfall env order pr cfg inbound) = None \<longleftrightarrow> length (filter (\<lambda>r. r \<noteq> Panicked) (map snd (map (\<lambda>i. rs ! i) order))) < length rs"
    using assms(1) unfolding runDemandWaterfall_def Let_def rs_def [symmetric] by (simp only: if_False snd_conv collect_hangs)
  also have "\<dots> \<longleftrightarrow> length (filter (\<lambda>r. r \<noteq> Panicked) (map snd rs)) < length (map snd rs)" by (simp only: perm length_map)
  also have "\<dots> \<longleftrightarrow> Panicked \<in> set (map snd rs)" unfolding filter_shorter by simp
  finally show ?thesis unfolding rs_def .
qed

definition sample_demand :: "nat \<Rightarrow> demand_env" where
  "sample_demand i = \<lparr>dm_lower = (\<lambda>s. s), dm_upper = (\<lambda>s. s), dm_url = \<lparr>ue_Parse = (\<lambda>s. None), ue_ParseIP = (\<lambda>s. None), ue_lower = (\<lambda>s. s)\<rparr>, dm_path = (\<lambda>s. None),
     dm_tokens = (\<lambda>s. []), dm_first_token = (\<lambda>s. False), dm_marshal = (\<lambda>d. Some ''doc''), dm_get = (\<lambda>k u ua. NoReply), dm_post = (\<lambda>pr cfg. NoReply), dm_decode = (\<lambda>s. None),
     dm_exchange = (\<lambda>pr cfg. Inr (Some \<lparr>vr_ID = ''r'', vr_SeatBid = [(''s'', [(sample_video_bid ''b'' (of_nat i + 2))\<lparr>vb_AdM := ''m'', vb_NURL := (if i = 0 then ''first'' else ''second'')\<rparr>])]\<rparr>)),
     dm_externalURL = [], dm_new_id = (\<lambda>k. []), dm_cb = 0\<rparr>"

definition sample_player :: PlayerRequest where
  "sample_player = \<lparr>pr_PlacementID = [], pr_AppBundle = [], pr_Domain = [], pr_GDPR = [], pr_Consent = [], pr_CCPA = [], pr_COPPA = 0, pr_Width = 0, pr_Height = 0, pr_MinDuration = 0, pr_MaxDuration = 0, pr_IP = [], pr_UA = [], pr_AppName = [], pr_AppStoreURL = [], pr_DeviceMake = [], pr_DeviceModel = [], pr_DeviceType = 0, pr_DeviceOS = [], pr_OSVersion = [], pr_IFA = [], pr_IFAType = [], pr_LMT = 0, pr_Language = [], pr_CountryCode = [], pr_DNT = 0, pr_ContentRating = [], pr_ContentLen = 0, pr_Skip = 0, pr_TMax = 0\<rparr>"

definition sample_two :: AdServerConfig where
  "sample_two = sample_placement\<lparr>as_DemandOrtbURL := [], as_ExtraDemand := [\<lparr>ed_VASTTagURL = [], ed_OrtbURL = [], ed_FloorCPM = Fin 0, ed_BCat = [], ed_BAdv = []\<rparr>]\<rparr>"

lemma sample_win:
  assumes "as_DemandFloorCPM cfg = Fin 0" "as_FloorCPM cfg = Fin 1" "as_SeatWeights cfg = [(''s'', Fin 2)]"
  shows "\<exists>d. Execute (sample_demand i) vastPrebidAdapter pr cfg = ([if i = 0 then ''first'' else ''second''], Returned d) \<and> dr_WinPrice d = Fin (of_nat i + 2) \<and> \<not> dr_NoFill d"
proof -
  have adm: "isEmptyAdM ''m'' = False" "classifyAdM (\<lambda>s. s) ''m'' = adMIsMedia" by code_simp+
  have macro: "resolveAuctionMacros ''first'' w a b = ''first''" "resolveAuctionMacros ''second'' w a b = ''second''" for w a b
    by (simp_all add: resolveAuctionMacros_def Contains_iff Cons_eq_append_conv)
  show ?thesis
    using assms adm macro
    by (auto simp: sample_demand_def vast_of_bids_def extractWinningBid_def all_candidates_def enumerate_eq_zip sample_video_bid_def eligible_def winnerMinPriceCPM_def normalizeAdM_def
        seat_weight_def winning_bid_def buildVASTResponse_def win_notices_def buildVASTInlineDoc_def marshal_doc_def of_winner_def zero_response_def Let_def zero_float64_def upt_rec)
qed

lemma sample_results:
  "\<exists>d e. source_results sample_demand pr (buildDemandSources sample_two InboundVAST) = [([''first''], Returned d), ([''second''], Returned e)]
    \<and> dr_WinPrice d = Fin 2 \<and> dr_WinPrice e = Fin 3 \<and> \<not> dr_NoFill d \<and> \<not> dr_NoFill e"
proof -
  let ?extra = "extra_cfg sample_two (hd (as_ExtraDemand sample_two))"
  have cfg: "resolveDemandType sample_two = DemandTypePrebid" "resolveDemandType ?extra = DemandTypePrebid" "as_ExtraDemand sample_two = [hd (as_ExtraDemand sample_two)]"
    "as_DemandFloorCPM sample_two = Fin 0" "as_FloorCPM sample_two = Fin 1" "as_SeatWeights sample_two = [(''s'', Fin 2)]"
    "as_DemandFloorCPM ?extra = Fin 0" "as_FloorCPM ?extra = Fin 1" "as_SeatWeights ?extra = [(''s'', Fin 2)]"
    by (simp_all add: sample_two_def sample_placement_def resolveDemandType_def extra_cfg_def zero_float64_def)
  obtain d where "Execute (sample_demand 0) vastPrebidAdapter pr sample_two = ([''first''], Returned d)" "dr_WinPrice d = Fin 2" "\<not> dr_NoFill d"
    using sample_win [of sample_two 0 pr] cfg by auto
  moreover obtain e where "Execute (sample_demand 1) vastPrebidAdapter pr ?extra = ([''second''], Returned e)" "dr_WinPrice e = Fin 3" "\<not> dr_NoFill e"
    using sample_win [of ?extra 1 pr] cfg by auto
  moreover have "source_results sample_demand pr (buildDemandSources sample_two InboundVAST) =
      [Execute (sample_demand 0) vastPrebidAdapter pr sample_two, Execute (sample_demand 1) vastPrebidAdapter pr ?extra]"
    using cfg(1,2) unfolding source_results_def buildDemandSources_def demand_source_def by (subst cfg(3)) (simp add: enumerate_eq_zip upt_rec del: Execute.simps)
  ultimately show ?thesis by (simp del: Execute.simps)
qed


text \<open>The win notice of every source that has a winner of its own is sent, although only one of them is served.\<close>

lemma losers_are_notified: "fst (runDemandWaterfall sample_demand [1, 0] pr sample_two InboundVAST) = [''second'', ''first'']"
proof -
  obtain d e where "source_results sample_demand pr (buildDemandSources sample_two InboundVAST) = [([''first''], Returned d), ([''second''], Returned e)]" using sample_results by blast
  moreover have "as_ExtraDemand sample_two \<noteq> []" by (simp add: sample_two_def)
  ultimately show ?thesis by (simp add: runDemandWaterfall_def Let_def)
qed

end
