(* ===== verification/VideoEndpoints.thy ===== *)
theory VideoEndpoints
  imports VideoAuction
begin

text \<open>
  The endpoints of the video pipeline (\<^verbatim>\<open>endpoints/video_pipeline.go\<close>, \<^verbatim>\<open>endpoints/video_pipeline_fast.go\<close>) over its shared state: ads as VAST or bid responses, impression and tracking
  beacons, the log of events, placements and the periodic clean-up. A request is one step at a time in nanoseconds. The parser of player requests is
  an argument, metrics and analytics are left out; the notices sent to demand are kept in a list.
\<close>

record pipeline =
  pl_configs :: adServerConfigStore
  pl_tracking :: trackingStore
  pl_stats :: videoStatsStore
  pl_seen :: impressionDeduper
  pl_pending :: "(impressionKey, string \<times> int) gomap"
  pl_nurls :: "(string, int) gomap"
  pl_sent :: "string list"

definition new_pipeline :: "int \<Rightarrow> pipeline" where
  "new_pipeline now = \<lparr>pl_configs = [], pl_tracking = new_trackingStore, pl_stats = newVideoStatsStore now, pl_seen = newImpressionDeduper, pl_pending = [], pl_nurls = [], pl_sent = []\<rparr>"

datatype http_out = Vast string | Bids VideoBidResponse | NullBids | NoContent | Created | Pixel | HttpError nat string

text \<open>A handler answers, panics, or waits for ever.\<close>

datatype served = Answered http_out | Crashed | Hung

record video_env =
  ve_url :: url_env
  ve_ParseFloat :: "string \<Rightarrow> float64"  \<comment> \<open>the value the code uses, also when there is an error\<close>

definition unix :: "int \<Rightarrow> int" where
  "unix now = now div 1000000000"

definition fireWinNotice :: "video_env \<Rightarrow> int \<Rightarrow> string \<Rightarrow> pipeline \<Rightarrow> pipeline" where
  "fireWinNotice ve now nurl p =
     (if nurl = [] \<or> validateOutboundPublicURL (ve_url ve) nurl \<noteq> None \<or> map_has (pl_nurls p) nurl then p
      else p\<lparr>pl_nurls := map_put nurl now (pl_nurls p), pl_sent := pl_sent p @ [nurl]\<rparr>)"

definition fireBillingNotice :: "video_env \<Rightarrow> string \<Rightarrow> pipeline \<Rightarrow> pipeline" where
  "fireBillingNotice ve burl p = (if burl = [] \<or> validateOutboundPublicURL (ve_url ve) burl \<noteq> None then p else p\<lparr>pl_sent := pl_sent p @ [burl]\<rparr>)"

definition default_config :: "string \<Rightarrow> AdServerConfig" where
  "default_config placementID = \<lparr>as_PlacementID = placementID, as_PublisherID = [], as_MinDuration = 5, as_MaxDuration = 30, as_FloorCPM = 0, as_DemandFloorCPM = 0, as_DemandVASTURL = [],
     as_DemandOrtbURL = [], as_BAdv = [], as_BCat = [], as_ExtraDemand = [], as_SeatWeights = [], as_Active = True, as_TimeoutMS = 0, as_RequestBaseURL = [], as_VideoPlacementType = [],
     as_CampaignID = [], as_AdvertiserID = []\<rparr>"

definition resolveAdServerConfig :: "pipeline \<Rightarrow> string \<Rightarrow> AdServerConfig" where
  "resolveAdServerConfig p placementID = (case configStore_get placementID (pl_configs p) of Some cfg \<Rightarrow> cfg | None \<Rightarrow> default_config placementID)"

section \<open>Serving ads\<close>

definition fill_of_response :: "PlayerRequest \<Rightarrow> DemandResponse \<Rightarrow> fill" where
  "fill_of_response pr resp = \<lparr>fl_AuctionID = dr_AuctionID resp, fl_Bidder = dr_Bidder resp, fl_WinPrice = dr_WinPrice resp, fl_AppBundle = pr_AppBundle pr, fl_Domain = pr_Domain pr,
     fl_CountryCode = pr_CountryCode pr, fl_DeviceType = pr_DeviceType pr\<rparr>"

definition count_request :: "AdServerConfig \<Rightarrow> pipeline \<Rightarrow> pipeline" where
  "count_request cfg p = p\<lparr>pl_stats := incRequestBatch (as_PublisherID cfg) (as_AdvertiserID cfg) (pl_stats p)\<rparr>"

definition count_fill :: "int \<Rightarrow> AdServerConfig \<Rightarrow> PlayerRequest \<Rightarrow> DemandResponse \<Rightarrow> pipeline \<Rightarrow> pipeline" where
  "count_fill now cfg pr resp p =
     (if dr_NoFill resp then p
      else p\<lparr>pl_stats := incDimFill cfg (fill_of_response pr resp) (resolveDemandType cfg) (unix now) (incFillBatch (as_PublisherID cfg) (as_AdvertiserID cfg) (pl_stats p))\<rparr>)"

definition VASTEndpoint :: "video_env \<Rightarrow> (nat \<Rightarrow> demand_env) \<Rightarrow> nat list \<Rightarrow> int \<Rightarrow> string \<Rightarrow> string + PlayerRequest \<Rightarrow> pipeline \<Rightarrow> served \<times> pipeline" where
  "VASTEndpoint ve env order now base_url parsed p =
     (case parsed of
        Inl e \<Rightarrow> (Answered (HttpError 400 ''bad request''), p)
      | Inr pr \<Rightarrow>
          let cfg = resolveAdServerConfig p (pr_PlacementID pr) in
          if \<not> as_Active cfg then (Answered (Vast emptyVAST), p)
          else
            let cfg = cfg\<lparr>as_RequestBaseURL := base_url\<rparr>;
                (notices, result) = runDemandWaterfall env order pr cfg InboundVAST;
                p = fold (fireWinNotice ve now) notices (count_request cfg p)
            in (case result of
                  None \<Rightarrow> (Hung, p)
                | Some Panicked \<Rightarrow> (Crashed, p)
                | Some (Failed e) \<Rightarrow> (Answered (Vast emptyVAST), p)
                | Some (Returned resp) \<Rightarrow> (Answered (Vast (dr_VASTXml resp)), count_fill now cfg pr resp p)))"

text \<open>The loop of \<^verbatim>\<open>ORTBEndpoint\<close> over the bids of the response.\<close>

definition settle_bid :: "WinningBid \<Rightarrow> string \<Rightarrow> string \<Rightarrow> VideoBid \<Rightarrow> VideoBid" where
  "settle_bid win bidder seat b =
     (let b = (if isEmptyAdM (vb_AdM b) then b\<lparr>vb_AdM := []\<rparr> else b) in
      if vb_ID b = wb_BidID win \<and> (bidder = [] \<or> seat = bidder) then b\<lparr>vb_BURL := [], vb_NURL := (if wb_AdM win \<noteq> [] then [] else vb_NURL b)\<rparr> else b)"

definition settle_response :: "WinningBid \<Rightarrow> string \<Rightarrow> VideoBidResponse \<Rightarrow> VideoBidResponse" where
  "settle_response win bidder r = r\<lparr>vr_SeatBid := map (\<lambda>(seat, bids). (seat, map (settle_bid win bidder seat) bids)) (vr_SeatBid r)\<rparr>"

definition settle_winner :: "video_env \<Rightarrow> int \<Rightarrow> AdServerConfig \<Rightarrow> DemandResponse \<Rightarrow> pipeline \<Rightarrow> DemandResponse \<times> pipeline" where
  "settle_winner ve now cfg resp p =
     (case dr_BidResp resp of
        None \<Rightarrow> (resp, p)
      | Some r \<Rightarrow>
          if dr_NoFill resp then (resp, p)
          else (case extractWinningBid (Some r) cfg of
            Inl e \<Rightarrow> (resp, p)
          | Inr (win, bidder) \<Rightarrow>
              let auctionID = (if dr_AuctionID resp = [] then vr_ID r else dr_AuctionID resp);
                  nurl = resolveAuctionMacros (wb_NURL win) win auctionID bidder;
                  burl = resolveAuctionMacros (wb_BURL win) win auctionID bidder;
                  p = (if nurl \<noteq> [] \<and> wb_AdM win \<noteq> [] then fireWinNotice ve now nurl p else p);
                  p = (if burl \<noteq> [] then p\<lparr>pl_pending := map_put (auctionID, wb_BidID win) (burl, now + 300000000000) (pl_pending p)\<rparr> else p)
              in (resp\<lparr>dr_BidResp := Some (settle_response win bidder r)\<rparr>, p)))"

definition ORTBEndpoint :: "video_env \<Rightarrow> (nat \<Rightarrow> demand_env) \<Rightarrow> nat list \<Rightarrow> int \<Rightarrow> string \<Rightarrow> string + PlayerRequest \<Rightarrow> pipeline \<Rightarrow> served \<times> pipeline" where
  "ORTBEndpoint ve env order now base_url parsed p =
     (case parsed of
        Inl e \<Rightarrow> (Answered (HttpError 400 ''bad request''), p)
      | Inr pr \<Rightarrow>
          let cfg = resolveAdServerConfig p (pr_PlacementID pr) in
          if \<not> as_Active cfg then (Answered NoContent, p)
          else
            let cfg = cfg\<lparr>as_RequestBaseURL := base_url\<rparr>;
                (notices, result) = runDemandWaterfall env order pr cfg InboundORTB;
                p = fold (fireWinNotice ve now) notices (count_request cfg p)
            in (case result of
                  None \<Rightarrow> (Hung, p)
                | Some Panicked \<Rightarrow> (Crashed, p)
                | Some (Failed e) \<Rightarrow> (Answered NoContent, p)
                | Some (Returned resp) \<Rightarrow>
                    let (resp, p) = settle_winner ve now cfg resp p in
                    (Answered (case dr_BidResp resp of Some r \<Rightarrow> Bids r | None \<Rightarrow> NullBids), count_fill now cfg pr resp p)))"

section \<open>Beacons\<close>

definition TrackingEndpoint :: "video_env \<Rightarrow> int \<Rightarrow> (string \<times> string) list \<Rightarrow> pipeline \<Rightarrow> http_out \<times> pipeline" where
  "TrackingEndpoint ve now q p =
     (let arg = query_Get q;
          ev = \<lparr>te_AuctionID = arg ''auction_id'', te_BidID = arg ''bid_id'', te_Bidder = arg ''bidder'', te_PlacementID = arg ''placement_id'', te_Event = arg ''event'',
                te_CrID = arg ''crid'', te_Price = (if arg ''price'' = [] then 0 else ve_ParseFloat ve (arg ''price'')), te_ADomain = arg ''adom'', te_ReceivedAt = now\<rparr>
      in if te_AuctionID ev = [] \<or> te_BidID ev = [] \<or> te_Event ev = [] then (HttpError 400 ''auction_id, bid_id, and event are required'', p)
      else
        let cfg = resolveAdServerConfig p (te_PlacementID ev);
            stats = (if te_Event ev = ''complete''
                     then incDimComplete (te_AuctionID ev) (incAdvertiserComplete (as_AdvertiserID cfg) (incComplete (as_PublisherID cfg) (pl_stats p))) else pl_stats p)
        in (Pixel, p\<lparr>pl_tracking := tracking_record trackingStoreMaxEvents ev (pl_tracking p), pl_stats := stats\<rparr>))"

definition HandleFastTracking :: "video_env \<Rightarrow> int \<Rightarrow> (string \<times> string) list \<Rightarrow> pipeline \<Rightarrow> http_out \<times> pipeline" where
  "HandleFastTracking ve now q p =
     (let arg = query_Get q in
      if arg ''auction_id'' = [] \<or> arg ''bid_id'' = [] \<or> arg ''event'' = [] then (HttpError 400 ''auction_id, bid_id, and event are required'', p)
      else
        let ev = \<lparr>te_AuctionID = arg ''auction_id'', te_BidID = arg ''bid_id'', te_Bidder = arg ''bidder'', te_PlacementID = arg ''placement_id'', te_Event = arg ''event'',
                  te_CrID = arg ''crid'', te_Price = (if arg ''price'' = [] then 0 else ve_ParseFloat ve (arg ''price'')), te_ADomain = arg ''adom'', te_ReceivedAt = now\<rparr>;
            cfg = (if te_PlacementID ev = [] then None else Some (resolveAdServerConfig p (te_PlacementID ev)));
            counted = (case cfg of None \<Rightarrow> pl_stats p | Some c \<Rightarrow> incAdvertiserComplete (as_AdvertiserID c) (incComplete (as_PublisherID c) (pl_stats p)));
            stats = (if te_Event ev = ''complete'' then incDimComplete (te_AuctionID ev) counted else pl_stats p)
        in (Pixel, p\<lparr>pl_tracking := tracking_record trackingStoreMaxEvents ev (pl_tracking p), pl_stats := stats\<rparr>))"

text \<open>\<^verbatim>\<open>pendingBURLs.LoadAndDelete\<close> and the notice, if it has not expired.\<close>

definition fire_pending :: "video_env \<Rightarrow> int \<Rightarrow> impressionKey \<Rightarrow> pipeline \<Rightarrow> pipeline" where
  "fire_pending ve now key p =
     (case map_of (pl_pending p) key of
        None \<Rightarrow> p
      | Some (burl, expires) \<Rightarrow>
          let p = p\<lparr>pl_pending := map_del key (pl_pending p)\<rparr> in if now < expires then fireBillingNotice ve burl p else p)"

definition impression_event :: "(string \<times> string) list \<Rightarrow> string \<Rightarrow> string \<Rightarrow> float64 \<Rightarrow> int \<Rightarrow> TrackingEvent" where
  "impression_event q bidder placementID price now =
     \<lparr>te_AuctionID = query_Get q ''auction_id'', te_BidID = query_Get q ''bid_id'', te_Bidder = bidder, te_PlacementID = placementID, te_Event = ''impression'',
      te_CrID = query_Get q ''crid'', te_Price = price, te_ADomain = query_Get q ''adom'', te_ReceivedAt = now\<rparr>"

definition ImpressionEndpoint :: "video_env \<Rightarrow> int \<Rightarrow> (string \<times> string) list \<Rightarrow> pipeline \<Rightarrow> http_out \<times> pipeline" where
  "ImpressionEndpoint ve now q p =
     (let placementID = query_Get q ''placement_id''; auctionID = query_Get q ''auction_id''; bidID = query_Get q ''bid_id'' in
      if auctionID = [] \<or> bidID = [] then (HttpError 400 ''auction_id and bid_id are required'', p)
      else
        let (seen, d) = SeenOrAdd (auctionID, bidID) (unix now) (pl_seen p); p = p\<lparr>pl_seen := d\<rparr> in
        if seen then (Pixel, p)
        else
          let (dk, stats) = incDimImpression auctionID (pl_stats p);
              bidder = (case dk of Some k \<Rightarrow> if dk_Bidder k \<noteq> [] then dk_Bidder k else query_Get q ''bidder'' | None \<Rightarrow> query_Get q ''bidder'');
              placementID = (case dk of Some k \<Rightarrow> if dk_Placement k \<noteq> [] then dk_Placement k else placementID | None \<Rightarrow> placementID);
              price = (case dk of Some k \<Rightarrow> dk_PriceCPM k | None \<Rightarrow> if query_Get q ''price'' \<noteq> [] then ve_ParseFloat ve (query_Get q ''price'') else 0);
              cfg = resolveAdServerConfig p placementID;
              stats = (case dk of
                         Some k \<Rightarrow> incImpressionBatch (dk_PublisherID k) (dk_AdvertiserID k) (dk_PriceCPM k) (dk_PublisherPriceCPM k) stats
                       | None \<Rightarrow> incImpressionBatch (as_PublisherID cfg) (as_AdvertiserID cfg) price (as_FloorCPM cfg) stats);
              p = p\<lparr>pl_tracking := tracking_record trackingStoreMaxEvents (impression_event q bidder placementID price now) (pl_tracking p), pl_stats := stats\<rparr>
          in (Pixel, fire_pending ve now (auctionID, bidID) p))"

definition HandleFastImpression :: "video_env \<Rightarrow> int \<Rightarrow> (string \<times> string) list \<Rightarrow> pipeline \<Rightarrow> http_out \<times> pipeline" where
  "HandleFastImpression ve now q p =
     (let auctionID = query_Get q ''auction_id''; bidID = query_Get q ''bid_id'' in
      if auctionID = [] \<or> bidID = [] then (HttpError 400 ''auction_id and bid_id are required'', p)
      else
        let (seen, d) = SeenOrAdd (auctionID, bidID) (unix now) (pl_seen p); p = p\<lparr>pl_seen := d\<rparr> in
        if seen then (Pixel, p)
        else
          let (dk, stats) = incDimImpression auctionID (pl_stats p);
              placementID = (case dk of Some k \<Rightarrow> dk_Placement k | None \<Rightarrow> []);
              placementID = (if placementID = [] then query_Get q ''placement_id'' else placementID);
              bidder = (case dk of Some k \<Rightarrow> dk_Bidder k | None \<Rightarrow> []);
              bidder = (if bidder = [] then query_Get q ''bidder'' else bidder);
              price = (case dk of Some k \<Rightarrow> dk_PriceCPM k | None \<Rightarrow> if query_Get q ''price'' = [] then 0 else ve_ParseFloat ve (query_Get q ''price''));
              stats = (case dk of
                         Some k \<Rightarrow> incImpressionBatch (dk_PublisherID k) (dk_AdvertiserID k) (dk_PriceCPM k) (dk_PublisherPriceCPM k) stats
                       | None \<Rightarrow>
                           if placementID = [] then stats
                           else let cfg = resolveAdServerConfig p placementID in incImpressionBatch (as_PublisherID cfg) (as_AdvertiserID cfg) price (as_FloorCPM cfg) stats);
              p = p\<lparr>pl_tracking := tracking_record trackingStoreMaxEvents (impression_event q bidder placementID price now) (pl_tracking p), pl_stats := stats\<rparr>
          in (Pixel, fire_pending ve now (auctionID, bidID) p))"

text \<open>One round of the periodic task.\<close>

definition cleanup :: "int \<Rightarrow> pipeline \<Rightarrow> pipeline" where
  "cleanup now p = p\<lparr>pl_stats := evict_dims (unix now) (pl_stats p), pl_pending := filter (\<lambda>(k, u, expires). \<not> expires < now) (pl_pending p),
     pl_seen := CleanupBefore (unix (now - 600000000000)) (pl_seen p), pl_nurls := filter (\<lambda>(u, t). \<not> 600000000000 < now - t) (pl_nurls p)\<rparr>"

section \<open>Placements and the log of events\<close>

datatype config_request = GetConfigs | PostConfig "string + AdServerConfig" | DeleteConfig string | OtherMethod

fun first_error :: "(string \<times> string option) list \<Rightarrow> string option" where
  "first_error [] = None"
| "first_error ((what, e) # es) = (case e of Some m \<Rightarrow> Some (what @ m) | None \<Rightarrow> first_error es)"

definition check_url :: "video_env \<Rightarrow> string \<Rightarrow> string \<Rightarrow> string \<times> string option" where
  "check_url ve what u = (what, if u = [] then None else validateOutboundPublicURL (ve_url ve) u)"

definition config_urls_error :: "video_env \<Rightarrow> AdServerConfig \<Rightarrow> string option" where
  "config_urls_error ve cfg =
     first_error (check_url ve ''invalid demand_vast_url: '' (as_DemandVASTURL cfg) # check_url ve ''invalid demand_ortb_url: '' (as_DemandOrtbURL cfg)
       # concat (map (\<lambda>extra. [check_url ve ''invalid extra_demand.vast_tag_url: '' (ed_VASTTagURL extra), check_url ve ''invalid extra_demand.ortb_url: '' (ed_OrtbURL extra)])
           (as_ExtraDemand cfg)))"

fun AdServerConfigEndpoint :: "video_env \<Rightarrow> config_request \<Rightarrow> pipeline \<Rightarrow> (AdServerConfig list + http_out) \<times> pipeline" where
  "AdServerConfigEndpoint ve GetConfigs p = (Inl (map snd (pl_configs p)), p)"
| "AdServerConfigEndpoint ve (PostConfig (Inl e)) p = (Inr (HttpError 400 (''invalid JSON: '' @ e)), p)"
| "AdServerConfigEndpoint ve (PostConfig (Inr cfg)) p =
    (if as_PlacementID cfg = [] then (Inr (HttpError 400 ''placement_id is required''), p)
     else (case config_urls_error ve cfg of
       Some e \<Rightarrow> (Inr (HttpError 400 e), p)
     | None \<Rightarrow> (Inr Created, p\<lparr>pl_configs := configStore_set cfg (pl_configs p)\<rparr>)))"
| "AdServerConfigEndpoint ve (DeleteConfig placementID) p =
    (if placementID = [] then (Inr (HttpError 400 ''placement_id is required''), p)
     else if configStore_get placementID (pl_configs p) = None then (Inr (HttpError 404 ''placement not found''), p)
     else (Inr NoContent, p\<lparr>pl_configs := configStore_remove placementID (pl_configs p)\<rparr>))"
| "AdServerConfigEndpoint ve OtherMethod p = (Inr (HttpError 405 ''method not allowed''), p)"

text \<open>The page of events; the sum of offset and limit wraps at 64 bits, and a slice with bounds out of order panics.\<close>

definition page_arg :: "int \<Rightarrow> (int \<Rightarrow> bool) \<Rightarrow> string \<Rightarrow> int" where
  "page_arg fallback ok v = (if v = [] then fallback else case ParseInt v of Some n \<Rightarrow> if ok n then n else fallback | None \<Rightarrow> fallback)"

definition wrap64 :: "int \<Rightarrow> int" where
  "wrap64 n = (n + 2 ^ 63) mod 2 ^ 64 - 2 ^ 63"

definition TrackingEventsEndpoint :: "(string \<times> string) list \<Rightarrow> pipeline \<Rightarrow> TrackingEvent list option" where
  "TrackingEventsEndpoint q p =
     (let events = tracking_all trackingStoreMaxEvents (pl_tracking p); n = int (length events);
          offset = min (page_arg 0 (\<lambda>n. 0 \<le> n) (query_Get q ''offset'')) n;
          limit = page_arg 1000 (\<lambda>n. 0 < n) (query_Get q ''limit'')
      in slice events offset (min (wrap64 (offset + limit)) n))"

section \<open>Two servers, one behaviour\<close>

lemma fast_impression_eq:
  assumes "query_Get q ''placement_id'' \<noteq> []"
  shows "HandleFastImpression ve now q p = ImpressionEndpoint ve now q p"
proof -
  obtain seen d where s: "SeenOrAdd (query_Get q ''auction_id'', query_Get q ''bid_id'') (unix now) (pl_seen p) = (seen, d)" by fastforce
  obtain dk stats where k: "incDimImpression (query_Get q ''auction_id'') (pl_stats p) = (dk, stats)" by fastforce
  show ?thesis
    using assms by (cases dk) (simp_all add: HandleFastImpression_def ImpressionEndpoint_def Let_def s k)
qed


section \<open>Impressions are counted once\<close>

datatype video_op = ServeVAST "nat \<Rightarrow> demand_env" "nat list" string "string + PlayerRequest" | ServeORTB "nat \<Rightarrow> demand_env" "nat list" string "string + PlayerRequest"
  | Beacon bool "(string \<times> string) list" | Track bool "(string \<times> string) list" | Configure config_request | CleanUp

fun video_step :: "video_env \<Rightarrow> int \<Rightarrow> video_op \<Rightarrow> pipeline \<Rightarrow> pipeline" where
  "video_step ve now (ServeVAST env order base_url parsed) p = snd (VASTEndpoint ve env order now base_url parsed p)"
| "video_step ve now (ServeORTB env order base_url parsed) p = snd (ORTBEndpoint ve env order now base_url parsed p)"
| "video_step ve now (Beacon fast q) p = snd ((if fast then HandleFastImpression else ImpressionEndpoint) ve now q p)"
| "video_step ve now (Track fast q) p = snd ((if fast then HandleFastTracking else TrackingEndpoint) ve now q p)"
| "video_step ve now (Configure r) p = snd (AdServerConfigEndpoint ve r p)"
| "video_step ve now CleanUp p = cleanup now p"

definition beacon_key :: "(string \<times> string) list \<Rightarrow> impressionKey" where
  "beacon_key q = (query_Get q ''auction_id'', query_Get q ''bid_id'')"

definition valid_key :: "impressionKey \<Rightarrow> bool" where
  "valid_key k \<longleftrightarrow> fst k \<noteq> [] \<and> snd k \<noteq> []"

text \<open>The beacons of a history that are counted: those whose auction and bid have not been seen, with their time in seconds.\<close>

fun counted_now :: "pipeline \<Rightarrow> video_op \<Rightarrow> impressionKey list" where
  "counted_now p (Beacon fast q) = (if valid_key (beacon_key q) \<and> \<not> fst (SeenOrAdd (beacon_key q) 0 (pl_seen p)) then [beacon_key q] else [])"
| "counted_now p _ = []"

fun counted :: "video_env \<Rightarrow> (int \<times> video_op) list \<Rightarrow> pipeline \<Rightarrow> (int \<times> impressionKey) list" where
  "counted ve [] p = []"
| "counted ve ((now, op) # tr) p = map (Pair (unix now)) (counted_now p op) @ counted ve tr (video_step ve now op p)"

fun video_run :: "video_env \<Rightarrow> (int \<times> video_op) list \<Rightarrow> pipeline \<Rightarrow> pipeline" where
  "video_run ve [] p = p"
| "video_run ve ((now, op) # tr) p = video_run ve tr (video_step ve now op p)"

fun names_placement :: "video_op \<Rightarrow> bool" where
  "names_placement (Beacon fast q) \<longleftrightarrow> query_Get q ''placement_id'' \<noteq> []"
| "names_placement _ \<longleftrightarrow> True"

lemma notice_frame [simp]:
  "pl_seen (fireWinNotice ve now u p) = pl_seen p" "pl_stats (fireWinNotice ve now u p) = pl_stats p"
  "pl_seen (fireBillingNotice ve u p) = pl_seen p" "pl_stats (fireBillingNotice ve u p) = pl_stats p"
  "pl_seen (fire_pending ve now key p) = pl_seen p" "pl_stats (fire_pending ve now key p) = pl_stats p"
  by (simp_all add: fireWinNotice_def fireBillingNotice_def fire_pending_def Let_def split: option.split prod.split)

lemma notices_frame [simp]:
  "pl_seen (fold (fireWinNotice ve now) us p) = pl_seen p" "pl_stats (fold (fireWinNotice ve now) us p) = pl_stats p"
  by (induction us arbitrary: p) simp_all

lemma settle_frame [simp]: "pl_seen (snd (settle_winner ve now cfg resp p)) = pl_seen p" "pl_stats (snd (settle_winner ve now cfg resp p)) = pl_stats p"
  by (auto simp: settle_winner_def Let_def split: option.split sum.split)

subsection \<open>The set of seen beacons\<close>

lemma beacon_seen:
  "pl_seen (snd (ImpressionEndpoint ve now q p)) = (if valid_key (beacon_key q) then snd (SeenOrAdd (beacon_key q) (unix now) (pl_seen p)) else pl_seen p)"
  "pl_seen (snd (HandleFastImpression ve now q p)) = (if valid_key (beacon_key q) then snd (SeenOrAdd (beacon_key q) (unix now) (pl_seen p)) else pl_seen p)"
  by (auto simp: ImpressionEndpoint_def HandleFastImpression_def beacon_key_def valid_key_def Let_def split: prod.split)

lemma step_seen:
  "pl_seen (video_step ve now op p) =
    (case op of Beacon fast q \<Rightarrow> if valid_key (beacon_key q) then snd (SeenOrAdd (beacon_key q) (unix now) (pl_seen p)) else pl_seen p
     | CleanUp \<Rightarrow> CleanupBefore (unix now - 600) (pl_seen p) | _ \<Rightarrow> pl_seen p)"
proof (cases op)
  case (ServeVAST env order base_url parsed)
  then show ?thesis by (auto simp: VASTEndpoint_def count_request_def count_fill_def Let_def split: sum.split prod.split option.split run.split)
next
  case (ServeORTB env order base_url parsed)
  then show ?thesis by (auto simp: ORTBEndpoint_def count_request_def count_fill_def Let_def split_beta split: sum.split prod.split option.split run.split)
next
  case (Track fast q)
  then show ?thesis by (auto simp: TrackingEndpoint_def HandleFastTracking_def Let_def)
next
  case (Configure r)
  then show ?thesis by (cases "(ve, r, p)" rule: AdServerConfigEndpoint.cases) (auto split: option.split)
next
  case CleanUp
  have "unix (now - 600000000000) = unix now - 600" by (simp add: unix_def)
  then show ?thesis using CleanUp by (simp add: cleanup_def)
qed (simp_all add: beacon_seen)

lemma step_dedup:
  assumes "dedup_inv (pl_seen p)"
  shows "dedup_inv (pl_seen (video_step ve now op p))"
    "seen_at (pl_seen (video_step ve now op p)) k =
      (case op of CleanUp \<Rightarrow> (case seen_at (pl_seen p) k of Some t \<Rightarrow> if t < unix now - 600 then None else Some t | None \<Rightarrow> None)
       | _ \<Rightarrow> if k \<in> set (counted_now p op) then Some (unix now) else seen_at (pl_seen p) k)"
  using assms dedup_add [OF assms] dedup_cleanup [OF assms]
  by (simp_all add: step_seen split: video_op.split option.split)

lemma counted_key_unseen: "dedup_inv (pl_seen p) \<Longrightarrow> k \<in> set (counted_now p op) \<Longrightarrow> seen_at (pl_seen p) k = None"
  by (cases op) (auto simp: dedup_add(2) split: if_splits)

lemma step_counts: "dedup_inv (pl_seen p) \<Longrightarrow> k \<in> set (counted_now p op) \<Longrightarrow> seen_at (pl_seen (video_step ve now op p)) k = Some (unix now)"
  using step_dedup(2) [of p ve now op k] by (cases op) simp_all

lemma unix_mono: "a \<le> b \<Longrightarrow> unix a \<le> unix b"
  by (simp add: unix_def zdiv_mono1)

lemma counted_after: "sorted (map fst tr) \<Longrightarrow> list_all (\<lambda>e. now \<le> fst e) tr \<Longrightarrow> (t, k) \<in> set (counted ve tr p) \<Longrightarrow> unix now \<le> t"
proof (induction tr arbitrary: p)
  case (Cons e tr)
  obtain now' op where e: "e = (now', op)" by (cases e)
  then show ?case using Cons unix_mono [of now now'] by (auto simp: list_all_iff)
qed simp

lemma counted_spaced:
  assumes "dedup_inv (pl_seen p)" "sorted (map fst tr)" "seen_at (pl_seen p) k = Some s" "(t, k) \<in> set (counted ve tr p)"
  shows "s + 600 < t"
  using assms
proof (induction tr arbitrary: p)
  case (Cons e tr)
  obtain now op where e: "e = (now, op)" by (cases e)
  have "k \<notin> set (counted_now p op)" using counted_key_unseen [OF Cons.prems(1), of k op] Cons.prems(3) by auto
  then have t: "(t, k) \<in> set (counted ve tr (video_step ve now op p))"
    and seen: "seen_at (pl_seen (video_step ve now op p)) k = (if op = CleanUp \<and> s < unix now - 600 then None else Some s)"
    using Cons.prems(3,4) step_dedup(2) [OF Cons.prems(1)] by (auto simp: e split: video_op.split)
  show ?case
  proof (cases "op = CleanUp \<and> s < unix now - 600")
    case True
    have "sorted (map fst tr)" "list_all (\<lambda>e. now \<le> fst e) tr" using Cons.prems(2) by (auto simp: e list_all_iff)
    then have "unix now \<le> t" using t by (rule counted_after)
    then show ?thesis using True by simp
  next
    case False
    then show ?thesis using Cons.IH [of "video_step ve now op p"] Cons.prems(1,2) t seen step_dedup(1) by (simp add: e)
  qed
qed simp

lemma counted_sorted:
  assumes "dedup_inv (pl_seen p)" "sorted (map fst tr)"
  shows "sorted_wrt (\<lambda>(s, k) (t, l). k = l \<longrightarrow> s + 600 < t) (counted ve tr p)"
  using assms
proof (induction tr arbitrary: p)
  case (Cons e tr)
  obtain now op where e: "e = (now, op)" by (cases e)
  let ?q = "video_step ve now op p"
  have inv: "dedup_inv (pl_seen ?q)" and tr: "sorted (map fst tr)" using Cons.prems step_dedup(1) by (auto simp: e)
  have gap: "unix now + 600 < t" if "k \<in> set (counted_now p op)" "(t, k) \<in> set (counted ve tr ?q)" for t k
    using counted_spaced [OF inv tr step_counts [OF Cons.prems(1) that(1)] that(2)] .
  have "length (counted_now p op) \<le> 1" by (cases op) simp_all
  then consider "counted_now p op = []" | k where "counted_now p op = [k]" by (metis One_nat_def le_Suc_eq le_zero_eq length_0_conv length_Suc_conv)
  then show ?case using gap Cons.IH [OF inv tr] by cases (auto simp: e)
qed simp

subsection \<open>The count of impressions\<close>

definition impressions :: "pipeline \<Rightarrow> int" where
  "impressions p = stats_total vs_Impressions (st_byPub (pl_stats p))"

definition pub_inv :: "pipeline \<Rightarrow> bool" where
  "pub_inv p \<longleftrightarrow> wf_map (st_byPub (pl_stats p))"

lemma pub_bump:
  assumes "wf_map m" "\<And>v. vs_Impressions (f v) = vs_Impressions v + d"
  shows "stats_total vs_Impressions (bump f k m) = stats_total vs_Impressions m + d" "wf_map (bump f k m)"
  using assms by (simp_all add: bump_total bump_frame empty_stats_def)

lemma pub_frame [simp]:
  "st_byPub (incDimFill cfg f d now s) = st_byPub s" "st_byPub (snd (incDimImpression a s)) = st_byPub s" "st_byPub (incDimComplete a s) = st_byPub s"
  "st_byPub (evict_dims now s) = st_byPub s" "st_byPub (incAdvertiserComplete a s) = st_byPub s"
  by (auto simp: incDimFill_def incDimImpression_def incDimComplete_def evict_dims_def incAdvertiserComplete_def Let_def each_dim_def split: option.split)

lemma batch_pub: "st_byPub (inc_batch f pubID advID s) = bump f (or_unknown ''unknown'' pubID) (st_byPub s)"
  by (simp add: inc_batch_def)

lemma add_impressions:
  "vs_Impressions (add_request v) = vs_Impressions v + 0" "vs_Impressions (add_opportunity v) = vs_Impressions v + 0" "vs_Impressions (add_complete v) = vs_Impressions v + 0"
  "vs_Impressions (add_impression x y v) = vs_Impressions v + 1"
  by (simp_all add: add_request_def add_opportunity_def add_complete_def add_impression_def)

lemmas pub_bumps = pub_bump [OF _ add_impressions(1)] pub_bump [OF _ add_impressions(2)] pub_bump [OF _ add_impressions(3)] pub_bump [OF _ add_impressions(4)]

lemmas pub_defs = impressions_def pub_inv_def incRequestBatch_def incFillBatch_def incImpressionBatch_def incComplete_def batch_pub

lemma beacon_impressions:
  assumes "pub_inv p" "query_Get q ''placement_id'' \<noteq> []"
  shows "impressions (snd (ImpressionEndpoint ve now q p)) = impressions p + int (length (counted_now p (Beacon fast q))) \<and> pub_inv (snd (ImpressionEndpoint ve now q p))"
proof -
  obtain seen d where s: "SeenOrAdd (beacon_key q) (unix now) (pl_seen p) = (seen, d)" by fastforce
  obtain dk stats where k: "incDimImpression (query_Get q ''auction_id'') (pl_stats p) = (dk, stats)" by fastforce
  have pub: "st_byPub stats = st_byPub (pl_stats p)" using pub_frame(2) [of "query_Get q ''auction_id''" "pl_stats p"] k by simp
  have seen: "fst (SeenOrAdd (beacon_key q) 0 (pl_seen p)) = seen" using s by (auto simp: SeenOrAdd_def Let_def split: if_splits)
  show ?thesis
    using assms s k pub seen by (cases dk) (simp_all add: ImpressionEndpoint_def beacon_key_def valid_key_def Let_def pub_defs pub_bumps)
qed

lemma serve_impressions:
  assumes "pub_inv p"
  shows "impressions (snd (VASTEndpoint ve env order now base_url parsed p)) = impressions p \<and> pub_inv (snd (VASTEndpoint ve env order now base_url parsed p))"
    and "impressions (snd (ORTBEndpoint ve env order now base_url parsed p)) = impressions p \<and> pub_inv (snd (ORTBEndpoint ve env order now base_url parsed p))"
proof -
  have fill: "impressions (count_fill now cfg pr resp p) = impressions p \<and> pub_inv (count_fill now cfg pr resp p)" if "pub_inv p" for cfg pr resp p
    using that by (simp add: count_fill_def pub_defs pub_bumps)
  have req: "impressions (count_request cfg p) = impressions p \<and> pub_inv (count_request cfg p)" for cfg
    using assms by (simp add: count_request_def pub_defs pub_bumps)
  have same: "impressions p = impressions p' \<and> pub_inv p = pub_inv p'" if "pl_stats p = pl_stats p'" for p p'
    using that by (simp add: impressions_def pub_inv_def)
  have fired: "impressions (fold (fireWinNotice ve now) us (count_request cfg p)) = impressions p \<and> pub_inv (fold (fireWinNotice ve now) us (count_request cfg p))" for cfg us
    using req [of cfg] same [of "fold (fireWinNotice ve now) us (count_request cfg p)" "count_request cfg p"] by simp
  have settled: "impressions (snd (settle_winner ve now cfg resp p')) = impressions p' \<and> pub_inv (snd (settle_winner ve now cfg resp p')) = pub_inv p'" for cfg resp p'
    using same [of "snd (settle_winner ve now cfg resp p')" p'] by simp
  show "impressions (snd (VASTEndpoint ve env order now base_url parsed p)) = impressions p \<and> pub_inv (snd (VASTEndpoint ve env order now base_url parsed p))"
    using assms by (simp add: VASTEndpoint_def Let_def split_beta fired fill split: sum.split option.split run.split)
  show "impressions (snd (ORTBEndpoint ve env order now base_url parsed p)) = impressions p \<and> pub_inv (snd (ORTBEndpoint ve env order now base_url parsed p))"
    using assms by (simp add: ORTBEndpoint_def Let_def split_beta fired fill settled split: sum.split option.split run.split)
qed

lemma step_impressions:
  assumes "pub_inv p" "names_placement op"
  shows "impressions (video_step ve now op p) = impressions p + int (length (counted_now p op)) \<and> pub_inv (video_step ve now op p)"
proof (cases op)
  case (Beacon fast q)
  have "snd (HandleFastImpression ve now q p) = snd (ImpressionEndpoint ve now q p)"
    using assms(2) Beacon fast_impression_eq by simp
  then show ?thesis using beacon_impressions [OF assms(1)] assms(2) Beacon by simp
next
  case (Track fast q)
  then show ?thesis using assms(1) by (simp add: TrackingEndpoint_def HandleFastTracking_def Let_def pub_defs pub_bumps)
next
  case (Configure r)
  then show ?thesis using assms(1) by (cases "(ve, r, p)" rule: AdServerConfigEndpoint.cases) (auto simp: impressions_def pub_inv_def split: option.split)
next
  case CleanUp
  then show ?thesis using assms(1) by (simp add: cleanup_def impressions_def pub_inv_def)
qed (use serve_impressions [OF assms(1)] in simp_all)

lemma video_run_impressions:
  "pub_inv p \<Longrightarrow> list_all (\<lambda>(now, op). names_placement op) tr \<Longrightarrow> impressions (video_run ve tr p) = impressions p + int (length (counted ve tr p))"
proof (induction tr arbitrary: p)
  case (Cons e tr)
  obtain now op where e: "e = (now, op)" by (cases e)
  then show ?case using Cons.IH [of "video_step ve now op p"] Cons.prems step_impressions [of p op ve now] by simp
qed simp


definition sample_beacon_query :: "(string \<times> string) list" where
  "sample_beacon_query = [(''auction_id'', ''a''), (''bid_id'', ''b''), (''placement_id'', ''p'')]"

definition sample_video_env :: video_env where
  "sample_video_env = \<lparr>ve_url = \<lparr>ue_Parse = (\<lambda>u. Some (''https'', ''h.co'')), ue_ParseIP = (\<lambda>s. None), ue_lower = (\<lambda>s. s)\<rparr>, ve_ParseFloat = (\<lambda>s. 0)\<rparr>"

lemma sample_key: "beacon_key sample_beacon_query = (''a'', ''b'')" "valid_key (''a'', ''b'')" "query_Get sample_beacon_query ''placement_id'' = ''p''"
  by (simp_all add: beacon_key_def sample_beacon_query_def query_Get_def valid_key_def map_get_def)



section \<open>Billing\<close>

lemma billing_frame [simp]: "pl_pending (fireBillingNotice ve u p) = pl_pending p"
  by (simp add: fireBillingNotice_def)

lemma duplicate_beacon:
  "valid_key (beacon_key q) \<Longrightarrow> fst (SeenOrAdd (beacon_key q) (unix now) (pl_seen p)) \<Longrightarrow> pl_sent (snd (ImpressionEndpoint ve now q p)) = pl_sent p"
  by (auto simp: ImpressionEndpoint_def beacon_key_def valid_key_def Let_def split: prod.split)

lemma fire_pending_other:
  "pl_sent (fire_pending ve now k (p\<lparr>pl_seen := d, pl_tracking := t, pl_stats := st\<rparr>)) = pl_sent (fire_pending ve now k p)"
  "pl_pending (fire_pending ve now k (p\<lparr>pl_seen := d, pl_tracking := t, pl_stats := st\<rparr>)) = map_del k (pl_pending p)"
  by (auto simp: fire_pending_def fireBillingNotice_def Let_def map_del_absent split: option.split prod.split)

lemma fresh_beacon:
  assumes "valid_key (beacon_key q)" "\<not> fst (SeenOrAdd (beacon_key q) (unix now) (pl_seen p))"
  shows "pl_sent (snd (ImpressionEndpoint ve now q p)) = pl_sent (fire_pending ve now (beacon_key q) p)"
    "pl_pending (snd (ImpressionEndpoint ve now q p)) = map_del (beacon_key q) (pl_pending p)"
proof -
  obtain d where s: "SeenOrAdd (beacon_key q) (unix now) (pl_seen p) = (False, d)" using assms(2) by (metis (full_types) prod.collapse)
  obtain dk stats where k: "incDimImpression (query_Get q ''auction_id'') (pl_stats p) = (dk, stats)" by fastforce
  show "pl_sent (snd (ImpressionEndpoint ve now q p)) = pl_sent (fire_pending ve now (beacon_key q) p)"
    "pl_pending (snd (ImpressionEndpoint ve now q p)) = map_del (beacon_key q) (pl_pending p)"
    using s k assms(1) by (simp_all add: ImpressionEndpoint_def beacon_key_def valid_key_def Let_def fire_pending_other)
qed

lemma settle_winner_pending:
  assumes "dr_BidResp resp = Some r" "\<not> dr_NoFill resp" "extractWinningBid (Some r) cfg = Inr (win, bidder)"
    "auctionID = (if dr_AuctionID resp = [] then vr_ID r else dr_AuctionID resp)" "burl = resolveAuctionMacros (wb_BURL win) win auctionID bidder" "burl \<noteq> []"
  shows "map_of (pl_pending (snd (settle_winner ve now cfg resp p))) (auctionID, wb_BidID win) = Some (burl, now + 300000000000)"
    "dr_BidResp (fst (settle_winner ve now cfg resp p)) = Some (settle_response win bidder r)"
  using assms by (simp_all add: settle_winner_def Let_def)

lemma settled_blank:
  "(seat, bids) \<in> set (vr_SeatBid (settle_response win bidder r)) \<Longrightarrow> b \<in> set bids \<Longrightarrow> vb_ID b = wb_BidID win \<Longrightarrow> bidder = [] \<or> seat = bidder \<Longrightarrow>
    vb_BURL b = [] \<and> (wb_AdM win = [] \<or> vb_NURL b = [])"
  by (auto simp: settle_response_def settle_bid_def Let_def split: if_splits)

text \<open>
  C14. The winner of a bid response is billed once, on its impression: its billing URL is blank in the response that the player gets, so is its notice URL when there is markup, and the
  first impression beacon for its auction and bid within five minutes sends the billing notice, with its macros resolved; a repeated beacon sends nothing.
\<close>
theorem winner_billed_once:
  assumes "dr_BidResp resp = Some r" "\<not> dr_NoFill resp" "extractWinningBid (Some r) cfg = Inr (win, bidder)"
    "auctionID = (if dr_AuctionID resp = [] then vr_ID r else dr_AuctionID resp)" "burl = resolveAuctionMacros (wb_BURL win) win auctionID bidder" "burl \<noteq> []"
    "validateOutboundPublicURL (ve_url ve) burl = None" "beacon_key q = (auctionID, wb_BidID win)" "valid_key (beacon_key q)"
    "dedup_inv (pl_seen p)" "seen_at (pl_seen p) (beacon_key q) = None" "later < now + 300000000000"
    "settled = settle_winner ve now cfg resp p" "p' = snd (ImpressionEndpoint ve later q (snd settled))"
  shows "(\<exists>r'. dr_BidResp (fst settled) = Some r' \<and> (\<forall>(seat, bids)\<in>set (vr_SeatBid r'). \<forall>b\<in>set bids.
        vb_ID b = wb_BidID win \<and> (bidder = [] \<or> seat = bidder) \<longrightarrow> vb_BURL b = [] \<and> (wb_AdM win = [] \<or> vb_NURL b = [])))
    \<and> pl_sent p' = pl_sent (snd settled) @ [burl] \<and> pl_sent (snd (ImpressionEndpoint ve again q p')) = pl_sent p'"
proof (intro conjI exI)
  note pend = settle_winner_pending [OF assms(1-6), of ve now p, folded assms(13)]
  show "dr_BidResp (fst settled) = Some (settle_response win bidder r)" by (rule pend(2))
  show "\<forall>(seat, bids)\<in>set (vr_SeatBid (settle_response win bidder r)). \<forall>b\<in>set bids.
        vb_ID b = wb_BidID win \<and> (bidder = [] \<or> seat = bidder) \<longrightarrow> vb_BURL b = [] \<and> (wb_AdM win = [] \<or> vb_NURL b = [])"
    using settled_blank by fast
  have seen: "pl_seen (snd settled) = pl_seen p" by (simp add: assms(13))
  have fresh: "\<not> fst (SeenOrAdd (beacon_key q) (unix later) (pl_seen (snd settled)))" using dedup_add(2) [OF assms(10)] assms(11) by (simp add: seen)
  show "pl_sent p' = pl_sent (snd settled) @ [burl]"
    using fresh_beacon(1) [OF assms(9) fresh, of ve] pend(1) assms(6,7,8,12,14) by (simp add: fire_pending_def fireBillingNotice_def)
  have "pl_seen p' = snd (SeenOrAdd (beacon_key q) (unix later) (pl_seen p))" using assms(9,14) by (simp add: beacon_seen seen)
  then have "fst (SeenOrAdd (beacon_key q) (unix again) (pl_seen p'))"
    using dedup_add [OF assms(10)] dedup_add(2) [OF dedup_add(1) [OF assms(10)]] assms(11) by simp
  then show "pl_sent (snd (ImpressionEndpoint ve again q p')) = pl_sent p'" by (rule duplicate_beacon [OF assms(9)])
qed

section \<open>Pages of events\<close>

lemma page_of_events:
  assumes "events = tracking_all trackingStoreMaxEvents (pl_tracking p)" "offset = page_arg 0 (\<lambda>n. 0 \<le> n) (query_Get q ''offset'')" "limit = page_arg 1000 (\<lambda>n. 0 < n) (query_Get q ''limit'')"
    "limit + int (length events) < 2 ^ 63"
  shows "TrackingEventsEndpoint q p = Some (take (nat limit) (drop (nat offset) events))"
proof -
  have pos: "0 \<le> offset" "0 < limit" by (auto simp: assms(2,3) page_arg_def split: option.split)
  define a where "a = min offset (int (length events))"
  have a: "0 \<le> a" "a \<le> int (length events)" "a + limit < 2 ^ 63" using pos assms(4) by (auto simp: a_def)
  then have "wrap64 (a + limit) = a + limit" using pos by (simp add: wrap64_def)
  then have "TrackingEventsEndpoint q p = slice events a (min (a + limit) (int (length events)))"
    by (simp add: TrackingEventsEndpoint_def Let_def a_def assms(1-3))
  also have "\<dots> = Some (take (nat (min (a + limit) (int (length events)) - a)) (drop (nat a) events))" using a pos by (simp add: slice_def)
  also have "\<dots> = Some (take (nat limit) (drop (nat offset) events))"
    using pos a by (auto simp: a_def min_def nat_diff_distrib nat_add_distrib)
  finally show ?thesis .
qed

text \<open>A limit near the largest integer makes the sum with an offset negative, and the slice panics.\<close>

lemma page_panics:
  assumes "page_arg 0 (\<lambda>n. 0 \<le> n) (query_Get q ''offset'') = 1" "page_arg 1000 (\<lambda>n. 0 < n) (query_Get q ''limit'') = 2 ^ 63 - 1" "tracking_all trackingStoreMaxEvents (pl_tracking p) \<noteq> []"
  shows "TrackingEventsEndpoint q p = None"
proof -
  have "1 \<le> int (length (tracking_all trackingStoreMaxEvents (pl_tracking p)))" using assms(3) by (cases "tracking_all trackingStoreMaxEvents (pl_tracking p)") simp_all
  then show ?thesis using assms(1,2) by (simp add: TrackingEventsEndpoint_def Let_def wrap64_def slice_def)
qed

text \<open>A deleted placement is served with the default configuration.\<close>

lemma deleted_placement_active:
  "placementID \<noteq> [] \<Longrightarrow> configStore_get placementID (pl_configs p) \<noteq> None \<Longrightarrow> as_Active (resolveAdServerConfig (snd (AdServerConfigEndpoint ve (DeleteConfig placementID) p)) placementID)"
  by (simp add: resolveAdServerConfig_def default_config_def configStore_laws)

definition sample_settled :: DemandResponse where
  "sample_settled = zero_response\<lparr>dr_AuctionID := ''a'', dr_BidResp := Some \<lparr>vr_ID = ''r'', vr_SeatBid = [(''s'', [(sample_video_bid ''b'' 3)\<lparr>vb_BURL := ''u''\<rparr>])]\<rparr>\<rparr>"

lemma sample_url: "validateOutboundPublicURL (ve_url sample_video_env) ''u'' = None"
  unfolding validateOutboundPublicURL_def sample_video_env_def by code_simp

theorem winner_billed_once_witness:
  "pl_sent (snd (ImpressionEndpoint sample_video_env 1 sample_beacon_query (snd (settle_winner sample_video_env 0 sample_placement sample_settled (new_pipeline 0))))) = [''u'']"
proof -
  let ?r = "\<lparr>vr_ID = ''r'', vr_SeatBid = [(''s'', [(sample_video_bid ''b'' 3)\<lparr>vb_BURL := ''u''\<rparr>])]\<rparr>" and ?p = "new_pipeline 0"
  have empty: "isEmptyAdM []" by code_simp
  obtain win where win: "extractWinningBid (Some ?r) sample_placement = Inr (win, ''s'')" "wb_BURL win = ''u''" "wb_BidID win = ''b''" "wb_AdM win = []"
    using empty by (simp add: extractWinningBid_def all_candidates_def enumerate_eq_zip upt_rec eligible_def winnerMinPriceCPM_def sample_video_bid_def sample_placement_def normalizeAdM_def winning_bid_def
        Let_def zero_float64_def)
  have macro: "resolveAuctionMacros ''u'' win ''a'' ''s'' = ''u''" by (simp add: resolveAuctionMacros_def Contains_iff Cons_eq_append_conv)
  have resp: "dr_BidResp sample_settled = Some ?r" "\<not> dr_NoFill sample_settled" "dr_AuctionID sample_settled = ''a''" by (simp_all add: sample_settled_def zero_response_def)
  have new: "dedup_inv (pl_seen ?p)" "seen_at (pl_seen ?p) k = None" "pl_sent ?p = []" for k by (simp_all add: new_pipeline_def dedup_new)
  have "pl_sent (snd (settle_winner sample_video_env 0 sample_placement sample_settled ?p)) = []"
    using resp win macro new(3) by (simp add: settle_winner_def Let_def)
  moreover have "pl_sent (snd (ImpressionEndpoint sample_video_env 1 sample_beacon_query (snd (settle_winner sample_video_env 0 sample_placement sample_settled ?p))))
      = pl_sent (snd (settle_winner sample_video_env 0 sample_placement sample_settled ?p)) @ [''u'']"
    using winner_billed_once [where auctionID = "''a''" and burl = "''u''" and q = sample_beacon_query and later = 1 and now = 0 and again = 2,
        OF resp(1,2) win(1) _ _ _ sample_url _ _ new(1) new(2) _ refl refl] unfolding resp(3) win(2,3) macro sample_key by (simp add: sample_key(2))
  ultimately show ?thesis by simp
qed

end
