(* ===== verification/MediaPrune.thy ===== *)
theory MediaPrune
  imports Prelude
begin

text \<open>
  The wrapper of every bidder adapter (\<^verbatim>\<open>adapters/infoawarebidder.go\<close>): it rejects requests from sources the bidder does not support, removes the media types and impressions it cannot
  handle, and reduces impressions to one media type for bidders without multi-format support. The adapter itself is an argument; a media object is kept as it is.
\<close>

section \<open>Capabilities of a bidder\<close>

record CapabilitiesInfo =
  bi_App :: "string list option"
  bi_Site :: "string list option"
  bi_DOOH :: "string list option"
  bi_MultiformatSupported :: "bool option"

record parsedSupports =
  ps_enabled :: bool
  ps_banner :: bool
  ps_video :: bool
  ps_audio :: bool
  ps_native :: bool

record parsedBidderInfo =
  pi_app :: parsedSupports
  pi_site :: parsedSupports
  pi_dooh :: parsedSupports
  pi_multiformat :: bool

definition no_support :: parsedSupports where
  "no_support = \<lparr>ps_enabled = False, ps_banner = False, ps_video = False, ps_audio = False, ps_native = False\<rparr>"

fun parseAllowedTypes :: "string list \<Rightarrow> parsedSupports \<Rightarrow> parsedSupports" where
  "parseAllowedTypes [] s = s"
| "parseAllowedTypes (t # ts) s =
    parseAllowedTypes ts
      (if t = ''banner'' then s\<lparr>ps_banner := True\<rparr> else if t = ''video'' then s\<lparr>ps_video := True\<rparr> else if t = ''audio'' then s\<lparr>ps_audio := True\<rparr>
       else if t = ''native'' then s\<lparr>ps_native := True\<rparr> else s)"

definition IsMultiFormatSupported :: "CapabilitiesInfo \<Rightarrow> bool" where
  "IsMultiFormatSupported info = (case bi_MultiformatSupported info of Some b \<Rightarrow> b | None \<Rightarrow> True)"

definition parse_platform :: "string list option \<Rightarrow> parsedSupports" where
  "parse_platform types = (case types of None \<Rightarrow> no_support | Some ts \<Rightarrow> parseAllowedTypes ts (no_support\<lparr>ps_enabled := True\<rparr>))"

text \<open>\<open>None\<close> is a bidder without capabilities.\<close>

definition parseBidderInfo :: "CapabilitiesInfo option \<Rightarrow> parsedBidderInfo" where
  "parseBidderInfo capabilities =
     (case capabilities of
        None \<Rightarrow> \<lparr>pi_app = no_support, pi_site = no_support, pi_dooh = no_support, pi_multiformat = False\<rparr>
      | Some info \<Rightarrow> \<lparr>pi_app = parse_platform (bi_App info), pi_site = parse_platform (bi_Site info), pi_dooh = parse_platform (bi_DOOH info), pi_multiformat = IsMultiFormatSupported info\<rparr>)"

section \<open>Pruning of impressions\<close>

record media_imp =
  mi_ID :: string
  mi_Banner :: "string option"
  mi_Video :: "string option"
  mi_Audio :: "string option"
  mi_Native :: "string option"

datatype prune_error = UsesUnsupported nat string | NoSupportedMedia nat | RemovedMultiFormat string string | NoPreferredMedia string string | NoPreference string
  | InvalidPreference string string | UnsupportedSource string | NothingLeft | DelegateError string

definition countNumberOfFormats :: "media_imp \<Rightarrow> nat" where
  "countNumberOfFormats imp =
     (if mi_Banner imp \<noteq> None then 1 else 0) + (if mi_Video imp \<noteq> None then 1 else 0) + (if mi_Audio imp \<noteq> None then 1 else 0) + (if mi_Native imp \<noteq> None then 1 else 0)"

definition removeBanner :: "media_imp \<times> prune_error list \<Rightarrow> media_imp \<times> prune_error list" where
  "removeBanner ie = (case ie of (imp, es) \<Rightarrow> if mi_Banner imp = None then ie else (imp\<lparr>mi_Banner := None\<rparr>, es @ [RemovedMultiFormat (mi_ID imp) ''banner'']))"

definition removeVideo :: "media_imp \<times> prune_error list \<Rightarrow> media_imp \<times> prune_error list" where
  "removeVideo ie = (case ie of (imp, es) \<Rightarrow> if mi_Video imp = None then ie else (imp\<lparr>mi_Video := None\<rparr>, es @ [RemovedMultiFormat (mi_ID imp) ''video'']))"

definition removeAudio :: "media_imp \<times> prune_error list \<Rightarrow> media_imp \<times> prune_error list" where
  "removeAudio ie = (case ie of (imp, es) \<Rightarrow> if mi_Audio imp = None then ie else (imp\<lparr>mi_Audio := None\<rparr>, es @ [RemovedMultiFormat (mi_ID imp) ''audio'']))"

definition removeNative :: "media_imp \<times> prune_error list \<Rightarrow> media_imp \<times> prune_error list" where
  "removeNative ie = (case ie of (imp, es) \<Rightarrow> if mi_Native imp = None then ie else (imp\<lparr>mi_Native := None\<rparr>, es @ [RemovedMultiFormat (mi_ID imp) ''native'']))"

text \<open>The errors of a removed impression, or the impression that is left and the warnings.\<close>

definition adjustImpForPreferredMediaType :: "media_imp \<Rightarrow> string \<Rightarrow> prune_error list + media_imp \<times> prune_error list" where
  "adjustImpForPreferredMediaType imp preferred =
     (if preferred = ''banner''
      then (if mi_Banner imp \<noteq> None then Inr (removeNative (removeAudio (removeVideo (imp, [])))) else Inl [NoPreferredMedia (mi_ID imp) preferred])
      else if preferred = ''video''
      then (if mi_Video imp \<noteq> None then Inr (removeNative (removeAudio (removeBanner (imp, [])))) else Inl [NoPreferredMedia (mi_ID imp) preferred])
      else if preferred = ''audio''
      then (if mi_Audio imp \<noteq> None then Inr (removeNative (removeVideo (removeBanner (imp, [])))) else Inl [NoPreferredMedia (mi_ID imp) preferred])
      else if preferred = ''native''
      then (if mi_Native imp \<noteq> None then Inr (removeAudio (removeVideo (removeBanner (imp, [])))) else Inl [NoPreferredMedia (mi_ID imp) preferred])
      else if preferred = [] then Inl [NoPreference (mi_ID imp)]
      else Inl [InvalidPreference (mi_ID imp) preferred])"

definition drop_unsupported :: "parsedSupports \<Rightarrow> nat \<Rightarrow> media_imp \<Rightarrow> media_imp \<times> prune_error list" where
  "drop_unsupported allowed i imp =
     (imp\<lparr>mi_Banner := (if ps_banner allowed then mi_Banner imp else None), mi_Video := (if ps_video allowed then mi_Video imp else None),
          mi_Audio := (if ps_audio allowed then mi_Audio imp else None), mi_Native := (if ps_native allowed then mi_Native imp else None)\<rparr>,
      (if \<not> ps_banner allowed \<and> mi_Banner imp \<noteq> None then [UsesUnsupported i ''banner''] else []) @ (if \<not> ps_video allowed \<and> mi_Video imp \<noteq> None then [UsesUnsupported i ''video''] else [])
      @ (if \<not> ps_audio allowed \<and> mi_Audio imp \<noteq> None then [UsesUnsupported i ''audio''] else []) @ (if \<not> ps_native allowed \<and> mi_Native imp \<noteq> None then [UsesUnsupported i ''native''] else []))"

text \<open>One round of the loop: the impression that is kept, if any, and the errors.\<close>

definition prune_imp :: "parsedSupports \<Rightarrow> bool \<Rightarrow> string \<Rightarrow> nat \<Rightarrow> media_imp \<Rightarrow> media_imp option \<times> prune_error list" where
  "prune_imp allowed multiformat preferred i imp =
     (let (imp, errs) = drop_unsupported allowed i imp; n = countNumberOfFormats imp in
      if n = 0 then (None, errs @ [NoSupportedMedia i])
      else if \<not> multiformat \<and> 1 < n
      then (case adjustImpForPreferredMediaType imp preferred of Inl es \<Rightarrow> (None, errs @ es) | Inr (imp, es) \<Rightarrow> (Some imp, errs @ es))
      else (Some imp, errs))"

fun pruneImps :: "nat \<Rightarrow> media_imp list \<Rightarrow> parsedSupports \<Rightarrow> bool \<Rightarrow> string \<Rightarrow> media_imp list \<times> prune_error list" where
  "pruneImps i [] allowed multiformat preferred = ([], [])"
| "pruneImps i (imp # imps) allowed multiformat preferred =
    (let (kept, errs) = prune_imp allowed multiformat preferred i imp; (rest, errs') = pruneImps (Suc i) imps allowed multiformat preferred
     in ((case kept of Some k \<Rightarrow> k # rest | None \<Rightarrow> rest), errs @ errs'))"

record request_source =
  rq_Site :: bool
  rq_App :: bool
  rq_DOOH :: bool

fun source_support :: "(bool \<times> parsedSupports \<times> string) list \<Rightarrow> parsedSupports \<Rightarrow> string + parsedSupports" where
  "source_support [] acc = Inr acc"
| "source_support ((present, s, name) # rest) acc = (if present then (if ps_enabled s then source_support rest s else Inl name) else source_support rest acc)"

definition MakeRequests :: "(media_imp list \<Rightarrow> 'r list \<times> prune_error list) \<Rightarrow> parsedBidderInfo \<Rightarrow> request_source \<Rightarrow> string \<Rightarrow> media_imp list \<Rightarrow> 'r list \<times> prune_error list" where
  "MakeRequests delegate info src preferred imps =
     (case source_support [(rq_Site src, pi_site info, ''site''), (rq_App src, pi_app info, ''app''), (rq_DOOH src, pi_dooh info, ''dooh'')] no_support of
        Inl name \<Rightarrow> ([], [UnsupportedSource name])
      | Inr allowed \<Rightarrow>
          let (imps, errs) = pruneImps 0 imps allowed (pi_multiformat info) preferred in
          if imps = [] then ([], errs @ [NothingLeft]) else (let (reqs, errs') = delegate imps in (reqs, errs @ errs')))"

subsection \<open>Bidders get what they support\<close>

text \<open>The media of an impression with their contents, and what is left of an impression for a bidder with given media types.\<close>

definition imp_media :: "media_imp \<Rightarrow> (string \<times> string) list" where
  "imp_media imp = concat (map (\<lambda>(m, c). case c of Some x \<Rightarrow> [(m, x)] | None \<Rightarrow> []) [(''banner'', mi_Banner imp), (''video'', mi_Video imp), (''audio'', mi_Audio imp), (''native'', mi_Native imp)])"

definition left_for :: "string list \<Rightarrow> bool \<Rightarrow> string \<Rightarrow> media_imp \<Rightarrow> (string \<times> (string \<times> string) list) option" where
  "left_for types multiformat preferred imp =
     (let ms = filter (\<lambda>(m, c). m \<in> set types) (imp_media imp) in
      if ms = [] then None
      else if multiformat \<or> length ms = 1 then Some (mi_ID imp, ms)
      else if preferred \<in> set (map fst ms) then Some (mi_ID imp, filter (\<lambda>(m, c). m = preferred) ms)
      else None)"

definition platform_types :: "CapabilitiesInfo \<Rightarrow> request_source \<Rightarrow> string list option" where
  "platform_types info src =
     (let asked = map snd (filter fst [(rq_Site src, bi_Site info), (rq_App src, bi_App info), (rq_DOOH src, bi_DOOH info)]) in
      if None \<in> set asked then None else if asked = [] then Some [] else last asked)"

lemma parse_types:
  "ps_banner (parseAllowedTypes ts s) \<longleftrightarrow> ''banner'' \<in> set ts \<or> ps_banner s" "ps_video (parseAllowedTypes ts s) \<longleftrightarrow> ''video'' \<in> set ts \<or> ps_video s"
  "ps_audio (parseAllowedTypes ts s) \<longleftrightarrow> ''audio'' \<in> set ts \<or> ps_audio s" "ps_native (parseAllowedTypes ts s) \<longleftrightarrow> ''native'' \<in> set ts \<or> ps_native s"
  "ps_enabled (parseAllowedTypes ts s) \<longleftrightarrow> ps_enabled s"
  by (induction ts s rule: parseAllowedTypes.induct) auto

definition supports :: "parsedSupports \<Rightarrow> string list \<Rightarrow> bool" where
  "supports s types \<longleftrightarrow> ps_banner s = (''banner'' \<in> set types) \<and> ps_video s = (''video'' \<in> set types) \<and> ps_audio s = (''audio'' \<in> set types) \<and> ps_native s = (''native'' \<in> set types)"

lemma parse_platform_supports: "supports (parse_platform (Some ts)) ts" "ps_enabled (parse_platform types) \<longleftrightarrow> types \<noteq> None" "supports no_support []"
  by (auto simp: supports_def parse_platform_def no_support_def parse_types split: option.split)

lemma prune_imp_left:
  assumes "supports allowed types"
  shows "map_option (\<lambda>k. (mi_ID k, imp_media k)) (fst (prune_imp allowed multiformat preferred i imp)) = left_for types multiformat preferred imp"
  using assms
  by (cases "mi_Banner imp"; cases "mi_Video imp"; cases "mi_Audio imp"; cases "mi_Native imp")
    (auto simp: supports_def prune_imp_def drop_unsupported_def countNumberOfFormats_def adjustImpForPreferredMediaType_def left_for_def imp_media_def
      removeBanner_def removeVideo_def removeAudio_def removeNative_def Let_def)

lemma pruneImps_left:
  "supports allowed types \<Longrightarrow>
    map (\<lambda>k. (mi_ID k, imp_media k)) (fst (pruneImps i imps allowed multiformat preferred)) = List.map_filter (left_for types multiformat preferred) imps"
proof (induction imps arbitrary: i)
  case (Cons imp imps)
  show ?case using Cons.IH [OF Cons.prems, of "Suc i"] prune_imp_left [OF Cons.prems, of multiformat preferred i imp, symmetric]
    by (auto simp: split_beta Let_def map_filter_simps split: option.split)
qed (simp add: map_filter_simps)

lemma source_support_types:
  "case platform_types info src of
     None \<Rightarrow> \<exists>name. source_support [(rq_Site src, parse_platform (bi_Site info), ''site''), (rq_App src, parse_platform (bi_App info), ''app''), (rq_DOOH src, parse_platform (bi_DOOH info), ''dooh'')] no_support = Inl name
   | Some types \<Rightarrow> \<exists>s. source_support [(rq_Site src, parse_platform (bi_Site info), ''site''), (rq_App src, parse_platform (bi_App info), ''app''), (rq_DOOH src, parse_platform (bi_DOOH info), ''dooh'')] no_support = Inr s
       \<and> supports s types"
  by (cases "rq_Site src"; cases "rq_App src"; cases "rq_DOOH src"; cases "bi_Site info"; cases "bi_App info"; cases "bi_DOOH info")
    (simp_all add: platform_types_def parse_platform_supports)

text \<open>
  C33. A bidder gets the media it supports: the adapter is asked for exactly the impressions that have a media type which the bidder declares for the source of the request, each with
  those media types and their contents; a bidder without multi-format support gets one media type per impression, the preferred one if there are several, and
  a request from a source the bidder does not declare gets nothing.
\<close>
theorem bidder_gets_supported_media:
  "map (\<lambda>k. (mi_ID k, imp_media k)) (fst (MakeRequests (\<lambda>is. (is, [])) (parseBidderInfo (Some info)) src preferred imps)) =
     (case platform_types info src of None \<Rightarrow> [] | Some types \<Rightarrow> List.map_filter (left_for types (IsMultiFormatSupported info) preferred) imps)"
proof (cases "platform_types info src")
  case None
  then show ?thesis using source_support_types [where info = info and src = src] by (auto simp: MakeRequests_def parseBidderInfo_def simp del: source_support.simps)
next
  case (Some types)
  let ?srcs = "[(rq_Site src, parse_platform (bi_Site info), ''site''), (rq_App src, parse_platform (bi_App info), ''app''), (rq_DOOH src, parse_platform (bi_DOOH info), ''dooh'')]"
  obtain s where s: "source_support ?srcs no_support = Inr s" "supports s types"
    using source_support_types [where info = info and src = src] Some by auto
  have "fst (MakeRequests (\<lambda>is. (is, [])) (parseBidderInfo (Some info)) src preferred imps) = fst (pruneImps 0 imps s (IsMultiFormatSupported info) preferred)"
    using s(1) by (simp add: MakeRequests_def parseBidderInfo_def split_beta Let_def del: source_support.simps)
  then show ?thesis using pruneImps_left [OF s(2)] Some by simp
qed

end
