(* ===== verification/Topics.thy ===== *)
theory Topics
  imports Events
begin

text \<open>
  Browsing topics (\<^verbatim>\<open>privacysandbox/topics.go\<close>): the parser of the \<^verbatim>\<open>Sec-Browsing-Topics\<close> header and the merge of its topics into the user data of a request. The extension of a data
  entry is taken as parsed; the map of new segments by taxonomy and class is keyed by the pair.
\<close>

section \<open>The header\<close>

record Topic =
  tp_SegTax :: int
  tp_SegClass :: string
  tp_SegIDs :: "int list"

datatype topic_warning = InvalidField string | LimitReached string

fun parseSegmentIDs :: "string list \<Rightarrow> int list option" where
  "parseSegmentIDs [] = Some []"
| "parseSegmentIDs (f # fs) =
    (case ParseInt (TrimSpace f) of None \<Rightarrow> None | Some n \<Rightarrow> if n \<le> 0 then None else (case parseSegmentIDs fs of None \<Rightarrow> None | Some ns \<Rightarrow> Some (n # ns)))"

definition parseSegTaxSegClass :: "string \<Rightarrow> int \<times> string" where
  "parseSegTaxSegClass seg =
     (case split_at (CHR '':'') seg of
        [v, ver, class] \<Rightarrow>
          (case ParseInt (TrimSpace ver) of
             None \<Rightarrow> (0, [])
           | Some taxanomy \<Rightarrow> if taxanomy < 1 \<or> 10 < taxanomy then (0, []) else (600 + (taxanomy - 1), TrimSpace class))
      | _ \<Rightarrow> (0, []))"

definition parseTopicSegment :: "string \<Rightarrow> Topic option" where
  "parseTopicSegment f =
     (case split_at (CHR '';'') f of
        [s0, s1] \<Rightarrow>
          let ids = TrimSpace s0; (segtax, segclass) = parseSegTaxSegClass s1 in
          if length ids < 3 \<or> hd ids \<noteq> CHR ''('' \<or> last ids \<noteq> CHR '')'' then None
          else if segtax = 0 \<or> segclass = [] then None
          else (case parseSegmentIDs (Fields (butlast (tl ids))) of None \<Rightarrow> None | Some ns \<Rightarrow> Some \<lparr>tp_SegTax = segtax, tp_SegClass = segclass, tp_SegIDs = ns\<rparr>)
      | _ \<Rightarrow> None)"

fun parse_fields :: "string list \<Rightarrow> Topic list \<Rightarrow> topic_warning list \<Rightarrow> Topic list \<times> topic_warning list" where
  "parse_fields [] topics warnings = (topics, warnings)"
| "parse_fields (f # fs) topics warnings =
    (let f = TrimSpace f in
     if f = [] \<or> prefix ''();p='' f then parse_fields fs topics warnings
     else if length topics < 10
     then (case parseTopicSegment f of Some t \<Rightarrow> parse_fields fs (topics @ [t]) warnings | None \<Rightarrow> parse_fields fs topics (warnings @ [InvalidField f]))
     else parse_fields fs topics (warnings @ [LimitReached f]))"

definition ParseTopicsFromHeader :: "string \<Rightarrow> Topic list \<times> topic_warning list" where
  "ParseTopicsFromHeader secBrowsingTopics = parse_fields (split_at (CHR '','') secBrowsingTopics) [] []"

subsection \<open>What the parser returns\<close>

definition topic_ok :: "Topic \<Rightarrow> bool" where
  "topic_ok t \<longleftrightarrow> 600 \<le> tp_SegTax t \<and> tp_SegTax t \<le> 609 \<and> tp_SegClass t \<noteq> [] \<and> list_all (\<lambda>n. 0 < n \<and> n < 2 ^ 63) (tp_SegIDs t)"

lemma ParseInt_less: "ParseInt s = Some n \<Longrightarrow> n < 2 ^ 63"
  by (auto simp: ParseInt_def Let_def split: option.splits if_splits)

lemma parseSegmentIDs_ok: "parseSegmentIDs fs = Some ns \<Longrightarrow> list_all (\<lambda>n. 0 < n \<and> n < 2 ^ 63) ns"
  by (induction fs arbitrary: ns) (auto split: option.splits if_splits dest: ParseInt_less)

lemma taxonomy_range: "parseSegTaxSegClass seg = (t, c) \<Longrightarrow> t \<noteq> 0 \<Longrightarrow> 600 \<le> t \<and> t \<le> 609"
  by (auto simp: parseSegTaxSegClass_def split: list.splits option.splits if_splits)

lemma parseTopicSegment_ok: "parseTopicSegment f = Some t \<Longrightarrow> topic_ok t"
  by (auto simp: parseTopicSegment_def topic_ok_def Let_def split: list.splits prod.splits if_splits option.splits dest: parseSegmentIDs_ok taxonomy_range)

definition relevant :: "string \<Rightarrow> bool" where
  "relevant f \<longleftrightarrow> TrimSpace f \<noteq> [] \<and> \<not> prefix ''();p='' (TrimSpace f)"

lemma parse_fields_ok:
  assumes "length topics \<le> 10" "list_all topic_ok topics" "parse_fields fs topics warnings = (ts, ws)"
  shows "length ts \<le> 10 \<and> list_all topic_ok ts \<and> length ts + length ws = length topics + length warnings + length (filter relevant fs)"
  using assms
proof (induction fs topics warnings rule: parse_fields.induct)
  case (2 f fs topics warnings)
  show ?case
  proof (cases "relevant f \<and> length topics < 10")
    case True
    then show ?thesis using 2 by (cases "parseTopicSegment (TrimSpace f)") (auto simp: relevant_def Let_def dest: parseTopicSegment_ok)
  next
    case False
    then show ?thesis using 2 by (auto simp: relevant_def Let_def split: if_splits)
  qed
qed simp

lemma parsed_ok:
  "length (fst (ParseTopicsFromHeader h)) \<le> 10" "list_all topic_ok (fst (ParseTopicsFromHeader h))"
  "length (fst (ParseTopicsFromHeader h)) + length (snd (ParseTopicsFromHeader h)) = length (filter relevant (split_at (CHR '','') h))"
  using parse_fields_ok [of "[]" "split_at (CHR '','') h" "[]" "fst (ParseTopicsFromHeader h)" "snd (ParseTopicsFromHeader h)"] by (simp_all add: ParseTopicsFromHeader_def)

text \<open>
  The topics of a header are bounded and each field is accounted for: at most ten topics are returned, each with a taxonomy from 600 to 609, a class and positive segment IDs, and
  every field that is neither blank nor padding gives exactly one topic or one warning.
\<close>
theorem header_topics_ok:
  "length (fst (ParseTopicsFromHeader h)) \<le> 10 \<and> list_all topic_ok (fst (ParseTopicsFromHeader h))
    \<and> length (fst (ParseTopicsFromHeader h)) + length (snd (ParseTopicsFromHeader h)) = length (filter relevant (split_at (CHR '','') h))"
  by (simp add: parsed_ok)

section \<open>The merge into user data\<close>

record user_data =
  ud_Name :: string
  ud_Ext :: "(int \<times> string) option"  \<comment> \<open>the taxonomy and the class; none if it cannot be parsed\<close>
  ud_Segment :: "string list"

type_synonym header_map = "(int \<times> string, int list) gomap"

definition add_ids :: "int list \<Rightarrow> int list \<Rightarrow> int list" where
  "add_ids ns old = fold (\<lambda>n ids. if n \<in> set ids then ids else ids @ [n]) ns old"

definition add_topic :: "Topic \<Rightarrow> header_map \<Rightarrow> header_map" where
  "add_topic t m = (let key = (tp_SegTax t, tp_SegClass t) in map_put key (add_ids (tp_SegIDs t) (map_get [] m key)) m)"

definition createHeaderDataMap :: "Topic list \<Rightarrow> header_map" where
  "createHeaderDataMap headerData = fold add_topic headerData []"

definition findNewSegIDs :: "string \<Rightarrow> string \<Rightarrow> int \<times> string \<Rightarrow> string list \<Rightarrow> header_map \<Rightarrow> int list option" where
  "findNewSegIDs dataName topicsDomain ext segments m =
     (if dataName \<noteq> topicsDomain then None
      else (case map_of m ext of None \<Rightarrow> None | Some ids \<Rightarrow> Some (filter (\<lambda>n. n \<notin> set (List.map_filter ParseInt segments)) ids)))"

definition merge_entry :: "string \<Rightarrow> user_data \<Rightarrow> header_map \<Rightarrow> user_data \<times> header_map" where
  "merge_entry topicsDomain d m =
     (case ud_Ext d of
        None \<Rightarrow> (d, m)
      | Some (tax, cls) \<Rightarrow>
          if tax = 0 \<or> cls = [] then (d, m)
          else (case findNewSegIDs (ud_Name d) topicsDomain (tax, cls) (ud_Segment d) m of
            None \<Rightarrow> (d, m)
          | Some new \<Rightarrow> (d\<lparr>ud_Segment := ud_Segment d @ map FormatInt new\<rparr>, map_del (tax, cls) m)))"

fun merge_entries :: "string \<Rightarrow> user_data list \<Rightarrow> header_map \<Rightarrow> user_data list \<times> header_map" where
  "merge_entries topicsDomain [] m = ([], m)"
| "merge_entries topicsDomain (d # ds) m = (let (d', m) = merge_entry topicsDomain d m; (ds', m) = merge_entries topicsDomain ds m in (d' # ds', m))"

definition UpdateUserDataWithTopics :: "user_data list \<Rightarrow> Topic list \<Rightarrow> string \<Rightarrow> user_data list" where
  "UpdateUserDataWithTopics userData headerData topicsDomain =
     (if topicsDomain = [] then userData
      else let (ds, m) = merge_entries topicsDomain userData (createHeaderDataMap headerData) in
        ds @ map (\<lambda>(k, ids). \<lparr>ud_Name = topicsDomain, ud_Ext = Some k, ud_Segment = map FormatInt ids\<rparr>) (filter (\<lambda>(k, ids). ids \<noteq> []) m))"

subsection \<open>The merge adds exactly the new topics\<close>

text \<open>The topics of a domain in an entry, in a map and in the header, as triples of taxonomy, class and segment.\<close>

definition entry_topics :: "string \<Rightarrow> user_data \<Rightarrow> (int \<times> string \<times> int) list" where
  "entry_topics topicsDomain d =
     (case ud_Ext d of
        None \<Rightarrow> []
      | Some (tax, cls) \<Rightarrow> if ud_Name d = topicsDomain \<and> tax \<noteq> 0 \<and> cls \<noteq> [] then map (\<lambda>n. (tax, cls, n)) (List.map_filter ParseInt (ud_Segment d)) else [])"

definition data_topics :: "string \<Rightarrow> user_data list \<Rightarrow> (int \<times> string \<times> int) set" where
  "data_topics topicsDomain ds = set (concat (map (entry_topics topicsDomain) ds))"

definition header_topics :: "Topic list \<Rightarrow> (int \<times> string \<times> int) set" where
  "header_topics ts = set (concat (map (\<lambda>t. map (\<lambda>n. (tp_SegTax t, tp_SegClass t, n)) (tp_SegIDs t)) ts))"

definition map_topics :: "header_map \<Rightarrow> (int \<times> string \<times> int) set" where
  "map_topics m = {(tax, cls, n). \<exists>ids. map_of m (tax, cls) = Some ids \<and> n \<in> set ids}"

definition map_ok :: "header_map \<Rightarrow> bool" where
  "map_ok m \<longleftrightarrow> wf_map m \<and> (\<forall>tax cls ids. map_of m (tax, cls) = Some ids \<longrightarrow> tax \<noteq> 0 \<and> cls \<noteq> [] \<and> distinct ids \<and> (\<forall>n\<in>set ids. 0 < n \<and> n < 2 ^ 63))"

lemma add_ids_set: "set (add_ids ns old) = set ns \<union> set old" "distinct old \<Longrightarrow> distinct (add_ids ns old)"
  by (induction ns arbitrary: old) (auto simp: add_ids_def)

lemma parse_formatted: "\<forall>n\<in>set ns. 0 < n \<and> n < 2 ^ 63 \<Longrightarrow> List.map_filter ParseInt (map FormatInt ns) = ns"
  by (induction ns) (simp_all add: map_filter_simps ParseInt_FormatInt)

lemma add_topic_step:
  assumes "map_ok m" "topic_ok t"
  shows "map_ok (add_topic t m)" "map_topics (add_topic t m) = map_topics m \<union> header_topics [t]"
proof -
  let ?old = "map_get [] m (tp_SegTax t, tp_SegClass t)"
  have old: "distinct ?old" "\<forall>n\<in>set ?old. 0 < n \<and> n < 2 ^ 63" "\<And>n. n \<in> set ?old \<longleftrightarrow> (tp_SegTax t, tp_SegClass t, n) \<in> map_topics m"
    using assms(1) by (cases "map_of m (tp_SegTax t, tp_SegClass t)"; auto simp: map_ok_def map_topics_def map_get_def)+
  have "tp_SegTax t \<noteq> 0" "tp_SegClass t \<noteq> []" "\<forall>n\<in>set (tp_SegIDs t). 0 < n \<and> n < 2 ^ 63" using assms(2) by (auto simp: topic_ok_def list_all_iff)
  then show "map_ok (add_topic t m)" using assms(1) old(1,2) by (auto simp: map_ok_def add_topic_def Let_def add_ids_set)
  have "(tax, cls, n) \<in> map_topics (add_topic t m) \<longleftrightarrow> (tax, cls, n) \<in> map_topics m \<union> header_topics [t]" for tax cls n
    using old(3) [of n] by (cases "(tax, cls) = (tp_SegTax t, tp_SegClass t)") (auto simp: map_topics_def add_topic_def Let_def add_ids_set header_topics_def)
  then show "map_topics (add_topic t m) = map_topics m \<union> header_topics [t]" by auto
qed

lemma header_map_topics:
  assumes "list_all topic_ok ts"
  shows "map_ok (createHeaderDataMap ts)" "map_topics (createHeaderDataMap ts) = header_topics ts"
proof -
  have "map_ok (fold add_topic ts m) \<and> map_topics (fold add_topic ts m) = map_topics m \<union> header_topics ts" if "map_ok m" for m
    using assms that
  proof (induction ts arbitrary: m)
    case (Cons t ts)
    then show ?case using Cons.IH [of "add_topic t m"] add_topic_step [of m t] by (auto simp: header_topics_def)
  qed (simp add: header_topics_def)
  moreover have "map_ok []" "map_topics [] = {}" by (simp_all add: map_ok_def map_topics_def)
  ultimately show "map_ok (createHeaderDataMap ts)" "map_topics (createHeaderDataMap ts) = header_topics ts"
    by (simp_all add: createHeaderDataMap_def)
qed

lemma merge_entry_step:
  assumes "map_ok m" "merge_entry topicsDomain d m = (d', m')"
  shows "map_ok m'" "set (entry_topics topicsDomain d') \<union> map_topics m' = set (entry_topics topicsDomain d) \<union> map_topics m"
    "\<exists>new. d' = d\<lparr>ud_Segment := ud_Segment d @ map FormatInt new\<rparr> \<and> distinct new \<and> set new \<inter> set (List.map_filter ParseInt (ud_Segment d)) = {}"
proof -
  have "map_ok m' \<and> set (entry_topics topicsDomain d') \<union> map_topics m' = set (entry_topics topicsDomain d) \<union> map_topics m
    \<and> (\<exists>new. d' = d\<lparr>ud_Segment := ud_Segment d @ map FormatInt new\<rparr> \<and> distinct new \<and> set new \<inter> set (List.map_filter ParseInt (ud_Segment d)) = {})"
  proof (cases "d' = d \<and> m' = m")
    case True
    then show ?thesis using assms(1) by (auto intro: exI [of _ "[]"])
  next
    case False
    then obtain tax cls ids where k: "ud_Ext d = Some (tax, cls)" "tax \<noteq> 0" "cls \<noteq> []" "ud_Name d = topicsDomain" "map_of m (tax, cls) = Some ids"
      and new: "d' = d\<lparr>ud_Segment := ud_Segment d @ map FormatInt (filter (\<lambda>n. n \<notin> set (List.map_filter ParseInt (ud_Segment d))) ids)\<rparr>" "m' = map_del (tax, cls) m"
      using assms(2) by (auto simp: merge_entry_def findNewSegIDs_def split: option.splits if_splits)
    define add where "add = filter (\<lambda>n. n \<notin> set (List.map_filter ParseInt (ud_Segment d))) ids"
    have ids: "distinct ids" "\<forall>n\<in>set ids. 0 < n \<and> n < 2 ^ 63" using assms(1) k(5) by (auto simp: map_ok_def)
    then have add: "distinct add" "List.map_filter ParseInt (map FormatInt add) = add" using parse_formatted [of add] by (simp_all add: add_def)
    have split: "map_topics m = map_topics m' \<union> {(tax, cls, n) | n. n \<in> set ids}"
      using k(5) by (auto simp: map_topics_def new(2) split: if_splits)
    have "entry_topics topicsDomain d' = map (\<lambda>n. (tax, cls, n)) (List.map_filter ParseInt (ud_Segment d) @ add)"
      using k add(2) by (simp add: entry_topics_def new(1) flip: add_def) (simp add: List.map_filter_def)
    then have "set (entry_topics topicsDomain d') \<union> map_topics m' = set (entry_topics topicsDomain d) \<union> map_topics m"
      unfolding split using k by (auto simp: entry_topics_def add_def)
    moreover have "map_ok m'" using assms(1) by (auto simp: map_ok_def new(2))
    moreover have "set add \<inter> set (List.map_filter ParseInt (ud_Segment d)) = {}" by (auto simp: add_def)
    ultimately show ?thesis using new(1) add(1) by (auto simp flip: add_def)
  qed
  then show "map_ok m'" "set (entry_topics topicsDomain d') \<union> map_topics m' = set (entry_topics topicsDomain d) \<union> map_topics m"
    "\<exists>new. d' = d\<lparr>ud_Segment := ud_Segment d @ map FormatInt new\<rparr> \<and> distinct new \<and> set new \<inter> set (List.map_filter ParseInt (ud_Segment d)) = {}"
    by simp_all
qed

text \<open>What the merge does to an entry: it appends segments that the entry does not have, each once.\<close>

definition extended :: "user_data \<Rightarrow> user_data \<Rightarrow> bool" where
  "extended d d' \<longleftrightarrow> (\<exists>new. d' = d\<lparr>ud_Segment := ud_Segment d @ map FormatInt new\<rparr> \<and> distinct new \<and> set new \<inter> set (List.map_filter ParseInt (ud_Segment d)) = {})"

lemma merge_entries_step:
  "map_ok m \<Longrightarrow> merge_entries topicsDomain ds m = (ds', m') \<Longrightarrow>
    map_ok m' \<and> data_topics topicsDomain ds' \<union> map_topics m' = data_topics topicsDomain ds \<union> map_topics m \<and> list_all2 extended ds ds'"
proof (induction ds arbitrary: m ds')
  case (Cons d ds)
  obtain d1 m1 where d1: "merge_entry topicsDomain d m = (d1, m1)" by fastforce
  obtain ds1 where ds1: "merge_entries topicsDomain ds m1 = (ds1, m')" "ds' = d1 # ds1" using Cons.prems(2) d1 by (auto split: prod.splits)
  note e = merge_entry_step [OF Cons.prems(1) d1, folded extended_def]
  have "data_topics topicsDomain (x # xs) = set (entry_topics topicsDomain x) \<union> data_topics topicsDomain xs" for x xs by (simp add: data_topics_def)
  then show ?case using Cons.IH [OF e(1) ds1(1)] e(2,3) ds1(2) by auto
qed (simp add: data_topics_def)

lemma rest_topics:
  assumes "map_ok m"
  shows "data_topics topicsDomain (map (\<lambda>(k, ids). \<lparr>ud_Name = topicsDomain, ud_Ext = Some k, ud_Segment = map FormatInt ids\<rparr>) (filter (\<lambda>(k, ids). ids \<noteq> []) m)) = map_topics m"
proof -
  have mem: "((tax, cls), ids) \<in> set m \<longleftrightarrow> map_of m (tax, cls) = Some ids" for tax cls ids using assms by (simp add: map_ok_def wf_map_def)
  have "entry_topics topicsDomain \<lparr>ud_Name = topicsDomain, ud_Ext = Some (tax, cls), ud_Segment = map FormatInt ids\<rparr> = map (\<lambda>n. (tax, cls, n)) ids"
    if "((tax, cls), ids) \<in> set m" for tax cls ids
    using assms that mem by (simp add: entry_topics_def map_ok_def parse_formatted)
  then show ?thesis by (force simp: data_topics_def map_topics_def simp flip: mem)
qed

text \<open>
  C40. The topics of the header are merged into the user data: afterwards the entries of the topics domain have, by taxonomy and class, exactly the segments they had and those of the
  header; every entry of the request is kept and only gets segments it did not have, each once; and without a topics domain nothing changes.
\<close>
theorem topics_merged:
  "data_topics topicsDomain (UpdateUserDataWithTopics userData (fst (ParseTopicsFromHeader h)) topicsDomain) =
     data_topics topicsDomain userData \<union> (if topicsDomain = [] then {} else header_topics (fst (ParseTopicsFromHeader h)))
   \<and> list_all2 extended userData (take (length userData) (UpdateUserDataWithTopics userData (fst (ParseTopicsFromHeader h)) topicsDomain))"
proof (cases "topicsDomain = []")
  case True
  have "extended d d" for d by (auto simp: extended_def intro: exI [of _ "[]"])
  then show ?thesis using True by (simp add: UpdateUserDataWithTopics_def list_all2_same)
next
  case False
  define ts where "ts = fst (ParseTopicsFromHeader h)"
  have ok: "list_all topic_ok ts" using parsed_ok(2) by (simp add: ts_def)
  obtain ds m where m: "merge_entries topicsDomain userData (createHeaderDataMap ts) = (ds, m)" by fastforce
  note step = merge_entries_step [OF header_map_topics(1) [OF ok] m]
  have len: "length ds = length userData" using step by (auto dest: list_all2_lengthD)
  have app: "data_topics topicsDomain (xs @ ys) = data_topics topicsDomain xs \<union> data_topics topicsDomain ys" for xs ys by (simp add: data_topics_def)
  show ?thesis
    using False step len header_map_topics(2) [OF ok] by (simp add: UpdateUserDataWithTopics_def m app rest_topics flip: ts_def)
qed

end
