(* ===== verification/Auction.thy ===== *)
theory Auction
  imports Entities
begin

text \<open>
  File \<^verbatim>\<open>exchange/auction.go\<close>: the auction built from the seats of all bidders. \<open>newAuction\<close> picks, per
  impression, the winning bid under the four-level tie-break rule of \<open>bidBeats\<close>; \<open>cacheTTL\<close> and its
  helpers compute cache lifetimes on 64-bit integers. Dereferencing a nil \<^verbatim>\<open>Bid\<close> is the result \<open>None\<close>.
  The locale \<open>selection\<close> holds the argument why a left-to-right scan with a strict order finds the
  one unbeaten candidate, independently of the scanning order.
\<close>

section \<open>The auction\<close>

record auction =
  winningBids :: "string \<rightharpoonup> bidptr"
  allBidsByBidder :: "(string, (string, bidptr list) gomap) gomap"
  roundedPrices :: "(bidptr, string) gomap"
  cacheIds :: "(bidptr, string) gomap"
  vastCacheIds :: "(bidptr, string) gomap"
  seatWeights :: "(string, int) gomap"
  seatLatency :: "(string, int) gomap"

text \<open>The order on Go strings is the byte-wise lexicographic one.\<close>

definition bidBeats :: "Bid \<Rightarrow> string \<Rightarrow> Bid \<Rightarrow> string \<Rightarrow> bool \<Rightarrow> (string, int) gomap \<Rightarrow> (string, int) gomap \<Rightarrow> bool" where
  "bidBeats newBid newBidder curBid curBidder preferDeals weights latency =
     (if preferDeals \<and> Bid_DealID curBid \<noteq> [] \<and> Bid_DealID newBid = [] then False
      else if preferDeals \<and> Bid_DealID curBid = [] \<and> Bid_DealID newBid \<noteq> [] then True
      else if \<not> feq (Bid_Price newBid) (Bid_Price curBid) then Bid_Price curBid < Bid_Price newBid
      else
        let newW = map_get 0 weights newBidder; curW = map_get 0 weights curBidder in
        if newW \<noteq> curW then newW > curW
        else
          let newL = map_get 0 latency newBidder; curL = map_get 0 latency curBidder in
          if newL \<noteq> curL then (if newL = 0 then False else if curL = 0 then True else newL < curL)
          else newBidder @ '':'' @ Bid_ID newBid < curBidder @ '':'' @ Bid_ID curBid)"

definition isNewWinningBid :: "Bid \<Rightarrow> Bid \<Rightarrow> bool \<Rightarrow> bool" where
  "isNewWinningBid bid wbid preferDeals =
     (if preferDeals \<and> Bid_DealID wbid \<noteq> [] \<and> Bid_DealID bid = [] then False
      else if preferDeals \<and> Bid_DealID wbid = [] \<and> Bid_DealID bid \<noteq> [] then True
      else Bid_Price wbid < Bid_Price bid)"

text \<open>The local variables of the loops of \<^verbatim>\<open>newAuction\<close>.\<close>

record auction_acc =
  acc_winningBids :: "string \<rightharpoonup> bidptr"
  acc_winningBidders :: "string \<rightharpoonup> string"
  acc_allBids :: "(string, (string, bidptr list) gomap) gomap"

definition add_all_bids :: "string \<Rightarrow> string \<Rightarrow> bidptr \<Rightarrow> (string, (string, bidptr list) gomap) gomap \<Rightarrow> (string, (string, bidptr list) gomap) gomap" where
  "add_all_bids imp bidder p m =
     (case map_of m imp of
        Some bidMap \<Rightarrow> map_put imp (map_put bidder (map_get [] bidMap bidder @ [p]) bidMap) m
      | None \<Rightarrow> map_put imp [(bidder, [p])] m)"

definition newAuction_bid :: "store \<Rightarrow> bool \<Rightarrow> (string, int) gomap \<Rightarrow> (string, int) gomap \<Rightarrow> string \<Rightarrow> bidptr \<Rightarrow> auction_acc \<Rightarrow> auction_acc option" where
  "newAuction_bid st preferDeals weights latency bidderName p a =
     (case pb_Bid (st p) of None \<Rightarrow> None | Some b \<Rightarrow>
      let imp = Bid_ImpID b;
          a' = a\<lparr>acc_allBids := add_all_bids imp bidderName p (acc_allBids a)\<rparr>;
          a'' = a'\<lparr>acc_winningBids := (acc_winningBids a)(imp \<mapsto> p),
                   acc_winningBidders := (acc_winningBidders a)(imp \<mapsto> bidderName)\<rparr>
      in case acc_winningBids a imp of
           None \<Rightarrow> Some a''
         | Some q \<Rightarrow>
            (case pb_Bid (st q) of None \<Rightarrow> None | Some wb \<Rightarrow>
             if bidBeats b bidderName wb (opt_or (acc_winningBidders a imp) []) preferDeals weights latency
             then Some a'' else Some a'))"

fun newAuction_bids :: "store \<Rightarrow> bool \<Rightarrow> (string, int) gomap \<Rightarrow> (string, int) gomap \<Rightarrow> string \<Rightarrow> bidptr list \<Rightarrow> auction_acc \<Rightarrow> auction_acc option" where
  "newAuction_bids st pd ws ls bidderName [] a = Some a"
| "newAuction_bids st pd ws ls bidderName (p # ps) a =
     Option.bind (newAuction_bid st pd ws ls bidderName p a) (newAuction_bids st pd ws ls bidderName ps)"

fun newAuction_seats :: "store \<Rightarrow> bool \<Rightarrow> (string, int) gomap \<Rightarrow> (string, int) gomap \<Rightarrow> seat_bids \<Rightarrow> auction_acc \<Rightarrow> auction_acc option" where
  "newAuction_seats st pd ws ls [] a = Some a"
| "newAuction_seats st pd ws ls ((bidderName, seatBid) # rest) a =
     (case seatBid of
        None \<Rightarrow> newAuction_seats st pd ws ls rest a
      | Some sb \<Rightarrow> Option.bind (newAuction_bids st pd ws ls bidderName (sb_Bids sb) a) (newAuction_seats st pd ws ls rest))"

definition newAuction :: "store \<Rightarrow> seat_bids \<Rightarrow> bool \<Rightarrow> (string, int) gomap \<Rightarrow> (string, int) gomap \<Rightarrow> auction option" where
  "newAuction st seatBids preferDeals weights latency =
     map_option (\<lambda>a. \<lparr>winningBids = acc_winningBids a, allBidsByBidder = acc_allBids a, roundedPrices = [],
                      cacheIds = [], vastCacheIds = [], seatWeights = weights, seatLatency = latency\<rparr>)
       (newAuction_seats st preferDeals weights latency seatBids
          \<lparr>acc_winningBids = Map.empty, acc_winningBidders = Map.empty, acc_allBids = []\<rparr>)"

definition has_bid :: "store \<Rightarrow> bidptr \<Rightarrow> bool" where
  "has_bid st p \<longleftrightarrow> pb_Bid (st p) \<noteq> None"

section \<open>Cache lifetimes\<close>

definition addBuffer :: "64 word \<Rightarrow> 64 word \<Rightarrow> 64 word" where
  "addBuffer base buffer = (if base \<le>s 0 then 0 else base + buffer)"

definition cacheTTL :: "64 word \<Rightarrow> 64 word \<Rightarrow> 64 word \<Rightarrow> 64 word \<Rightarrow> 64 word" where
  "cacheTTL impTTL bidTTL defTTL buffer =
     (if impTTL \<le>s 0 \<and> bidTTL \<le>s 0 then addBuffer defTTL buffer
      else if impTTL \<le>s 0 then addBuffer bidTTL buffer
      else if bidTTL \<le>s 0 then addBuffer impTTL buffer
      else if impTTL <s bidTTL then addBuffer impTTL buffer
      else addBuffer bidTTL buffer)"

record DefaultTTLs =
  ttl_Banner :: "64 word"
  ttl_Video :: "64 word"
  ttl_Native :: "64 word"
  ttl_Audio :: "64 word"

definition defTTL :: "string \<Rightarrow> DefaultTTLs \<Rightarrow> 64 word" where
  "defTTL bidType d =
     (if bidType = ''banner'' then ttl_Banner d
      else if bidType = ''video'' then ttl_Video d
      else if bidType = ''native'' then ttl_Native d
      else if bidType = ''audio'' then ttl_Audio d
      else 0)"

definition valOrZero :: "bool \<Rightarrow> int \<Rightarrow> int" where
  "valOrZero useVal val = (if useVal then val else 0)"

definition makeVAST :: "Bid \<Rightarrow> string" where
  "makeVAST bid =
     (if Bid_AdM bid = [] then
        ''<VAST version=\"3.0\"><Ad><Wrapper>'' @
        ''<AdSystem>prebid.org wrapper</AdSystem>'' @
        ''<VASTAdTagURI><![CDATA['' @ Bid_NURL bid @ '']]></VASTAdTagURI>'' @
        ''<Impression></Impression><Creatives></Creatives>'' @
        ''</Wrapper></Ad></VAST>''
      else Bid_AdM bid)"

definition IsDebugOverrideEnabled :: "string \<Rightarrow> string \<Rightarrow> bool" where
  "IsDebugOverrideEnabled debugHeader configOverrideToken \<longleftrightarrow>
     configOverrideToken \<noteq> [] \<and> debugHeader = configOverrideToken"


section \<open>Selecting the unbeaten candidate\<close>

text \<open>One scan: the first candidate leads until a later one beats the leader.\<close>

fun leader :: "('a \<Rightarrow> 'a \<Rightarrow> bool) \<Rightarrow> 'a option \<Rightarrow> 'a list \<Rightarrow> 'a option" where
  "leader beats cur [] = cur"
| "leader beats None (x # xs) = leader beats (Some x) xs"
| "leader beats (Some c) (x # xs) = leader beats (Some (if beats x c then x else c)) xs"

locale selection =
  fixes beats :: "'a \<Rightarrow> 'a \<Rightarrow> bool" and ok :: "'a \<Rightarrow> bool" and key :: "'a \<Rightarrow> 'k"
  assumes beats_trans: "ok x \<Longrightarrow> ok y \<Longrightarrow> ok z \<Longrightarrow> beats x y \<Longrightarrow> beats y z \<Longrightarrow> beats x z"
    and beats_irrefl: "ok x \<Longrightarrow> \<not> beats x x"
    and beats_total: "ok x \<Longrightarrow> ok y \<Longrightarrow> key x \<noteq> key y \<Longrightarrow> beats x y \<or> beats y x"
begin

lemma leader_Some:
  "\<forall>x \<in> insert c (set xs). ok x \<Longrightarrow>
   \<exists>m. leader beats (Some c) xs = Some m \<and> m \<in> insert c (set xs) \<and> (m = c \<or> beats m c) \<and>
       (\<forall>y \<in> insert c (set xs). \<not> beats y m)"
proof (induction xs arbitrary: c)
  case Nil
  then show ?case by (auto simp: beats_irrefl)
next
  case (Cons x xs)
  define d where "d = (if beats x c then x else c)"
  have d: "d \<in> {c, x}" "d = c \<or> beats d c" by (auto simp: d_def)
  with Cons.prems have "\<forall>y \<in> insert d (set xs). ok y" by auto
  from Cons.IH [OF this] obtain m where
    m: "leader beats (Some d) xs = Some m" "m \<in> insert d (set xs)" "m = d \<or> beats m d"
      "\<forall>y \<in> insert d (set xs). \<not> beats y m"
    by blast
  have ok: "ok c" "ok x" "ok d" "ok m" using Cons.prems d m(2) by auto
  have "\<not> beats y m" if y: "y \<in> {c, x}" for y
  proof
    assume "beats y m"
    with m(3) y ok have "beats y d" by (auto intro: beats_trans)
    with y ok show False using beats_trans [of c x c] beats_irrefl by (auto simp: d_def split: if_splits)
  qed
  moreover have "m = c \<or> beats m c" using m(3) d(2) ok by (auto intro: beats_trans)
  ultimately show ?case using m d by (auto simp: d_def)
qed

lemma leader_None:
  assumes "\<forall>x \<in> set xs. ok x" and "xs \<noteq> []"
  shows "\<exists>m. leader beats None xs = Some m \<and> m \<in> set xs \<and> (\<forall>y \<in> set xs. \<not> beats y m)"
  using assms leader_Some [of "hd xs" "tl xs"] by (cases xs) auto

lemma unbeaten_unique:
  assumes "\<forall>x \<in> S. ok x" and "inj_on key S"
    and "m \<in> S" "\<forall>y \<in> S. \<not> beats y m" and "n \<in> S" "\<forall>y \<in> S. \<not> beats y n"
  shows "m = n"
  using assms beats_total [of m n] by (metis inj_onD)

lemma leader_perm:
  assumes "set xs = set ys" and "\<forall>x \<in> set xs. ok x" and "inj_on key (set xs)"
  shows "leader beats None xs = leader beats None ys"
proof (cases "xs = []")
  case False
  with assms(1) have "ys \<noteq> []" by auto
  from leader_None [OF assms(2) False] obtain m where
    m: "leader beats None xs = Some m" "m \<in> set xs" "\<forall>y \<in> set xs. \<not> beats y m" by blast
  from leader_None [of ys] assms \<open>ys \<noteq> []\<close> obtain n where
    n: "leader beats None ys = Some n" "n \<in> set ys" "\<forall>y \<in> set ys. \<not> beats y n" by auto
  from unbeaten_unique [OF assms(2,3) m(2,3)] n assms(1) have "m = n" by simp
  with m n show ?thesis by simp
qed (use assms in auto)

end

lemma leader_append: "leader b c (xs @ ys) = leader b (leader b c xs) ys"
  by (induction b c xs rule: leader.induct) simp_all

lemma leader_snoc:
  "leader b None (xs @ [x]) = (case leader b None xs of None \<Rightarrow> Some x | Some c \<Rightarrow> Some (if b x c then x else c))"
  by (simp add: leader_append split: option.splits)

lemma leader_mem_insert: "leader b (Some c) ys = Some l \<Longrightarrow> l \<in> insert c (set ys)"
  by (induction ys arbitrary: c) (auto split: if_splits)

lemma leader_mem: "leader b None ys = Some l \<Longrightarrow> l \<in> set ys"
  by (cases ys) (auto dest: leader_mem_insert)

subsection \<open>The tie-break rule is such an order\<close>

definition cand_bid :: "store \<Rightarrow> string \<times> bidptr \<Rightarrow> Bid" where
  "cand_bid st c = the (pb_Bid (st (snd c)))"

definition cand_beats :: "store \<Rightarrow> bool \<Rightarrow> (string, int) gomap \<Rightarrow> (string, int) gomap \<Rightarrow> string \<times> bidptr \<Rightarrow> string \<times> bidptr \<Rightarrow> bool" where
  "cand_beats st pd ws ls x y = bidBeats (cand_bid st x) (fst x) (cand_bid st y) (fst y) pd ws ls"

definition cand_ok :: "store \<Rightarrow> string \<times> bidptr \<Rightarrow> bool" where
  "cand_ok st c \<longleftrightarrow> has_bid st (snd c) \<and> is_finite (Bid_Price (cand_bid st c))"

definition stable_key :: "store \<Rightarrow> string \<times> bidptr \<Rightarrow> string" where
  "stable_key st c = fst c @ '':'' @ Bid_ID (cand_bid st c)"

text \<open>The rule as one lexicographic comparison; unknown latency ranks last.\<close>

lemma bidBeats_lex:
  assumes "Bid_Price b = Fin p" and "Bid_Price c = Fin q"
  shows "bidBeats b n c m pd ws ls \<longleftrightarrow>
    (let db = (pd \<and> Bid_DealID b \<noteq> []); dc = (pd \<and> Bid_DealID c \<noteq> []);
         wb = map_get 0 ws n; wc = map_get 0 ws m;
         lb = map_get 0 ls n; lc = map_get 0 ls m in
     dc < db \<or> db = dc \<and> (q < p \<or> p = q \<and> (wc < wb \<or> wb = wc \<and>
       ((lb \<noteq> 0 \<and> (lc = 0 \<or> lb < lc)) \<or> lb = lc \<and> n @ '':'' @ Bid_ID b < m @ '':'' @ Bid_ID c))))"
  using assms unfolding bidBeats_def Let_def by (auto simp: less_bool_def)

lemma cand_okE:
  assumes "cand_ok st x"
  obtains p where "Bid_Price (cand_bid st x) = Fin p"
  using assms by (auto simp: cand_ok_def elim: is_finiteE)

lemma cand_beats_trans:
  assumes "cand_ok st x" "cand_ok st y" "cand_ok st z"
    and xy: "cand_beats st pd ws ls x y" and yz: "cand_beats st pd ws ls y z"
  shows "cand_beats st pd ws ls x z"
proof -
  from assms(1-3) obtain p q r where
    fin: "Bid_Price (cand_bid st x) = Fin p" "Bid_Price (cand_bid st y) = Fin q" "Bid_Price (cand_bid st z) = Fin r"
    by (metis cand_okE)
  show ?thesis
    using xy yz unfolding cand_beats_def
      bidBeats_lex [OF fin(1,2)] bidBeats_lex [OF fin(2,3)] bidBeats_lex [OF fin(1,3)] Let_def
    by (elim disjE conjE) (auto intro: less_trans simp: less_bool_def)
qed

interpretation tiebreak: selection "cand_beats st pd ws ls" "cand_ok st" "stable_key st" for st pd ws ls
proof
  fix x y z
  assume "cand_ok st x" "cand_ok st y" "cand_ok st z" "cand_beats st pd ws ls x y" "cand_beats st pd ws ls y z"
  then show "cand_beats st pd ws ls x z" by (rule cand_beats_trans)
next
  fix x
  assume "cand_ok st x"
  then show "\<not> cand_beats st pd ws ls x x"
    by (auto simp: cand_beats_def bidBeats_def Let_def elim: cand_okE)
next
  fix x y
  assume "cand_ok st x" "cand_ok st y" "stable_key st x \<noteq> stable_key st y"
  moreover then obtain p q where
    fin: "Bid_Price (cand_bid st x) = Fin p" "Bid_Price (cand_bid st y) = Fin q" by (metis cand_okE)
  ultimately show "cand_beats st pd ws ls x y \<or> cand_beats st pd ws ls y x"
    unfolding cand_beats_def bidBeats_lex [OF fin] bidBeats_lex [OF fin(2,1)] Let_def stable_key_def
    by (auto simp: less_bool_def neq_iff)
qed


subsection \<open>The loops of newAuction scan the bids\<close>

fun run_bids :: "store \<Rightarrow> bool \<Rightarrow> (string, int) gomap \<Rightarrow> (string, int) gomap \<Rightarrow> (string \<times> bidptr) list \<Rightarrow> auction_acc \<Rightarrow> auction_acc option" where
  "run_bids st pd ws ls [] a = Some a"
| "run_bids st pd ws ls ((n, p) # xs) a = Option.bind (newAuction_bid st pd ws ls n p a) (run_bids st pd ws ls xs)"

lemma run_bids_append:
  "run_bids st pd ws ls (xs @ ys) a = Option.bind (run_bids st pd ws ls xs a) (run_bids st pd ws ls ys)"
  by (induction xs arbitrary: a) (auto split: Option.bind_splits)

lemma newAuction_bids_run: "newAuction_bids st pd ws ls n ps a = run_bids st pd ws ls (map (Pair n) ps) a"
proof (induction ps arbitrary: a)
  case (Cons p ps)
  then show ?case by (cases "newAuction_bid st pd ws ls n p a") simp_all
qed simp

lemma newAuction_seats_run: "newAuction_seats st pd ws ls sbs a = run_bids st pd ws ls (all_bids sbs) a"
proof (induction sbs arbitrary: a)
  case (Cons e sbs)
  obtain n sb where e: "e = (n, sb)" by (cases e)
  show ?case
  proof (cases sb)
    case (Some s)
    with e Cons show ?thesis
      by (cases "run_bids st pd ws ls (map (Pair n) (sb_Bids s)) a")
         (simp_all add: newAuction_bids_run run_bids_append)
  qed (use e Cons in simp)
qed simp

text \<open>The candidates of an impression, in scanning order.\<close>

definition for_imp :: "store \<Rightarrow> string \<Rightarrow> string \<times> bidptr \<Rightarrow> bool" where
  "for_imp st imp c \<longleftrightarrow> Bid_ImpID (cand_bid st c) = imp"

definition candidates :: "store \<Rightarrow> seat_bids \<Rightarrow> string \<Rightarrow> (string \<times> bidptr) list" where
  "candidates st sbs imp = filter (for_imp st imp) (all_bids sbs)"

definition bids_of_imp :: "(string, (string, bidptr list) gomap) gomap \<Rightarrow> string \<Rightarrow> string \<Rightarrow> bidptr list" where
  "bids_of_imp m imp n = map_get [] (map_get [] m imp) n"

lemma bids_of_imp_add:
  "bids_of_imp (add_all_bids imp n p m) i k = bids_of_imp m i k @ (if i = imp \<and> k = n then [p] else [])"
  by (auto simp: bids_of_imp_def add_all_bids_def map_get_def split: option.splits)

lemma run_bids_spec:
  fixes st pd ws ls
  defines "B \<equiv> cand_beats st pd ws ls"
  assumes "\<forall>c \<in> set xs. has_bid st (snd c)"
  shows "\<exists>a. run_bids st pd ws ls xs \<lparr>acc_winningBids = Map.empty, acc_winningBidders = Map.empty, acc_allBids = []\<rparr> = Some a \<and>
    (\<forall>imp. acc_winningBids a imp = map_option snd (leader B None (filter (for_imp st imp) xs)) \<and>
           acc_winningBidders a imp = map_option fst (leader B None (filter (for_imp st imp) xs)) \<and>
           (\<forall>n. bids_of_imp (acc_allBids a) imp n = map snd (filter (\<lambda>c. fst c = n \<and> for_imp st imp c) xs)))"
  using assms(2)
proof (induction xs rule: rev_induct)
  case Nil
  then show ?case by (simp add: bids_of_imp_def)
next
  case (snoc c xs)
  obtain n p where c: "c = (n, p)" by (cases c)
  from snoc obtain b where b: "pb_Bid (st p) = Some b" by (auto simp: c has_bid_def)
  from snoc obtain a where a: "run_bids st pd ws ls xs \<lparr>acc_winningBids = Map.empty, acc_winningBidders = Map.empty, acc_allBids = []\<rparr> = Some a"
    and win: "\<And>imp. acc_winningBids a imp = map_option snd (leader B None (filter (for_imp st imp) xs))"
    and who: "\<And>imp. acc_winningBidders a imp = map_option fst (leader B None (filter (for_imp st imp) xs))"
    and all: "\<And>imp n. bids_of_imp (acc_allBids a) imp n = map snd (filter (\<lambda>c. fst c = n \<and> for_imp st imp c) xs)"
    by auto
  have leader_in: "l \<in> set ys" if "leader B None ys = Some l" for l ys
    using that by (rule leader_mem)
  define L where "L = leader B None (filter (for_imp st (Bid_ImpID b)) xs)"
  have cb: "cand_bid st c = b" by (simp add: c cand_bid_def b)
  have fi: "for_imp st imp c \<longleftrightarrow> imp = Bid_ImpID b" for imp by (auto simp: for_imp_def cb)
  show ?case
  proof (cases L)
    case None
    with a win [of "Bid_ImpID b"] b show ?thesis
      by (simp add: run_bids_append c newAuction_bid_def L_def Let_def)
         (use win who all fi None in \<open>auto simp: c leader_snoc L_def bids_of_imp_add\<close>)
  next
    case (Some l)
    then have "l \<in> set xs" using leader_in [of "filter (for_imp st (Bid_ImpID b)) xs" l] by (simp add: L_def)
    with snoc.prems obtain wb where wb: "pb_Bid (st (snd l)) = Some wb" by (auto simp: has_bid_def)
    have beats: "B c l = bidBeats b n wb (fst l) pd ws ls"
      by (simp add: B_def cand_beats_def cand_bid_def c b wb)
    from Some a win [of "Bid_ImpID b"] who [of "Bid_ImpID b"] b wb show ?thesis
      by (simp add: run_bids_append c newAuction_bid_def L_def Let_def)
         (use win who all fi Some beats in \<open>auto simp: c leader_snoc L_def bids_of_imp_add\<close>)
  qed
qed


lemma newAuction_Some:
  assumes "\<forall>c \<in> set (all_bids sbs). has_bid st (snd c)"
  shows "\<exists>a. newAuction st sbs pd ws ls = Some a \<and>
    (\<forall>imp. winningBids a imp = map_option snd (leader (cand_beats st pd ws ls) None (candidates st sbs imp)) \<and>
      (\<forall>n. bids_of_imp (allBidsByBidder a) imp n =
            map snd (filter (\<lambda>c. fst c = n \<and> for_imp st imp c) (all_bids sbs))))"
  using run_bids_spec [OF assms, of pd ws ls]
  by (auto simp: newAuction_def newAuction_seats_run candidates_def)

section \<open>Properties of the auction\<close>

text \<open>
  C2. The outcome of an auction does not depend on the order in which Go visits the map of seats. Take two
  listings of one map of seats in which every bid is present and has a finite price, and in which no two
  bids for one impression have the same stable key. Both auctions are built, every impression has the
  same winner in both, and every bidder has the same list of bids.
\<close>

theorem newAuction_order_independent:
  assumes wf: "wf_map sbs" and perm: "mset sbs = mset sbs'"
    and ok: "\<forall>c \<in> set (all_bids sbs). cand_ok st c"
    and keys: "\<forall>imp. inj_on (stable_key st) (set (candidates st sbs imp))"
  shows "\<exists>a a'. newAuction st sbs pd ws ls = Some a \<and> newAuction st sbs' pd ws ls = Some a' \<and>
     winningBids a = winningBids a' \<and>
     (\<forall>imp n. bids_of_imp (allBidsByBidder a) imp n = bids_of_imp (allBidsByBidder a') imp n)"
proof -
  have same: "set (all_bids sbs) = set (all_bids sbs')" by (rule set_all_bids_perm [OF perm])
  have wf': "wf_map sbs'" using wf perm by (metis wf_map_def mset_map distinct_count_atmost_1 set_mset_mset)
  have has: "\<forall>c \<in> set (all_bids sbs). has_bid st (snd c)" using ok by (simp add: cand_ok_def)
  have lead: "leader (cand_beats st pd ws ls) None (candidates st sbs imp) =
      leader (cand_beats st pd ws ls) None (candidates st sbs' imp)" for imp
    using keys ok same by (intro tiebreak.leader_perm) (auto simp: candidates_def)
  have each: "map snd (filter (\<lambda>c. fst c = n \<and> for_imp st imp c) (all_bids sbs)) =
      map snd (filter (\<lambda>c. fst c = n \<and> for_imp st imp c) (all_bids sbs'))" for imp n
    using bids_of_bidder [OF wf, of n "\<lambda>p. for_imp st imp (n, p)"] bids_of_bidder [OF wf', of n "\<lambda>p. for_imp st imp (n, p)"]
      map_of_perm [OF wf perm]
    by (simp add: split_def for_imp_def cand_bid_def)
  from newAuction_Some [OF has, of pd ws ls] newAuction_Some [of sbs' st pd ws ls] has same
  show ?thesis by (auto simp: lead each intro!: ext)
qed

definition two_bids :: store where
  "two_bids = store_of
     [zero_Bid\<lparr>Bid_ID := ''2'', Bid_ImpID := ''i'', Bid_Price := Fin 1\<rparr>,
      zero_Bid\<lparr>Bid_ID := ''1'', Bid_ImpID := ''i'', Bid_Price := Fin 1\<rparr>]"

definition two_seats :: seat_bids where
  "two_seats = [(''a'', Some \<lparr>sb_Bids = [0], sb_Currency = ''USD'', sb_Seat = ''a''\<rparr>),
                (''b'', Some \<lparr>sb_Bids = [1], sb_Currency = ''USD'', sb_Seat = ''b''\<rparr>)]"

lemmas two_defs = two_bids_def two_seats_def store_of_def zero_Bid_def zero_PbsOrtbBid_def cand_ok_def
  cand_bid_def has_bid_def stable_key_def candidates_def for_imp_def

theorem newAuction_order_independent_witness:
  "\<exists>a a'. newAuction two_bids two_seats False [] [] = Some a \<and> newAuction two_bids (rev two_seats) False [] [] = Some a' \<and>
     winningBids a = winningBids a' \<and>
     (\<forall>imp n. bids_of_imp (allBidsByBidder a) imp n = bids_of_imp (allBidsByBidder a') imp n)"
  by (rule newAuction_order_independent) (simp_all add: two_defs wf_map_def)

text \<open>
  C3. The winner of an impression is unbeaten: an auction over present bids with finite prices names a winner
  for exactly the impressions that have a bid, and no bid for that impression beats the winner under the
  four-level rule.
\<close>

theorem newAuction_winner_unbeaten:
  assumes ok: "\<forall>c \<in> set (all_bids sbs). cand_ok st c" and a: "newAuction st sbs pd ws ls = Some a"
  shows "(winningBids a imp = None \<longleftrightarrow> candidates st sbs imp = []) \<and>
    (\<forall>p. winningBids a imp = Some p \<longrightarrow>
      (\<exists>n. (n, p) \<in> set (candidates st sbs imp) \<and>
           (\<forall>(m, q) \<in> set (candidates st sbs imp).
              \<not> bidBeats (cand_bid st (m, q)) m (cand_bid st (n, p)) n pd ws ls)))"
proof -
  have "\<forall>c \<in> set (all_bids sbs). has_bid st (snd c)" using ok by (simp add: cand_ok_def)
  from newAuction_Some [OF this, of pd ws ls] a
  have win: "winningBids a imp = map_option snd (leader (cand_beats st pd ws ls) None (candidates st sbs imp))"
    by auto
  show ?thesis
  proof (cases "candidates st sbs imp = []")
    case False
    from ok have "\<forall>c \<in> set (candidates st sbs imp). cand_ok st c" by (simp add: candidates_def)
    from tiebreak.leader_None [OF this False, of pd ws ls] obtain c where
      c: "leader (cand_beats st pd ws ls) None (candidates st sbs imp) = Some c" "c \<in> set (candidates st sbs imp)"
        "\<forall>y \<in> set (candidates st sbs imp). \<not> cand_beats st pd ws ls y c" by blast
    obtain n p where np: "c = (n, p)" by (cases c)
    with c have "\<forall>(m, q) \<in> set (candidates st sbs imp).
        \<not> bidBeats (cand_bid st (m, q)) m (cand_bid st (n, p)) n pd ws ls"
      by (auto simp: cand_beats_def)
    with c np win False show ?thesis by auto
  qed (use win in simp)
qed


lemma two_seats_winner:
  "map_option (\<lambda>a. winningBids a ''i'') (newAuction two_bids two_seats False [] []) = Some (Some 0)"
  by (simp add: newAuction_def newAuction_bid_def two_defs bidBeats_def map_get_def Let_def)

theorem newAuction_winner_unbeaten_witness:
  "\<exists>a. newAuction two_bids two_seats False [] [] = Some a \<and> winningBids a ''i'' = Some 0 \<and>
     (\<exists>n. (n, 0) \<in> set (candidates two_bids two_seats ''i'') \<and>
       (\<forall>(m, q) \<in> set (candidates two_bids two_seats ''i'').
          \<not> bidBeats (cand_bid two_bids (m, q)) m (cand_bid two_bids (n, 0)) n False [] []))"
proof -
  obtain a where a: "newAuction two_bids two_seats False [] [] = Some a" "winningBids a ''i'' = Some 0"
    using two_seats_winner by auto
  have ok: "\<forall>c \<in> set (all_bids two_seats). cand_ok two_bids c" by (simp add: two_defs)
  show ?thesis using a newAuction_winner_unbeaten [OF ok a(1), of "''i''"] by blast
qed

text \<open>
  Cache lifetimes: with a positive lifetime from the impression or the bid the result is the smaller of the
  positive ones plus the buffer, otherwise it is the default plus the buffer, and it is 0 when nothing is
  positive; the sum is the mathematical one as long as it does not pass the largest 64-bit integer.
\<close>

theorem cacheTTL_spec:
  assumes "0 \<le> sint buffer" and "\<forall>t \<in> {impTTL, bidTTL, dflt}. sint t + sint buffer < 2 ^ 63"
  shows "sint (cacheTTL impTTL bidTTL dflt buffer) =
    (let pos = filter (\<lambda>t. t > 0) [sint impTTL, sint bidTTL] in
     if pos \<noteq> [] then min_list pos + sint buffer
     else if sint dflt > 0 then sint dflt + sint buffer else 0)"
proof -
  have add: "sint (addBuffer t buffer) = (if sint t > 0 then sint t + sint buffer else 0)"
    if "sint t + sint buffer < 2 ^ 63" for t
  proof (cases "sint t > 0")
    case True
    have "sint (t + buffer) = sint t + sint buffer"
      using True that assms(1) by (simp add: sint_word_add signed_take_bit_int_eq_self)
    with True show ?thesis by (simp add: addBuffer_def word_sle_eq)
  next
    case False
    then show ?thesis by (simp add: addBuffer_def word_sle_eq)
  qed
  show ?thesis
    using add assms(2) unfolding cacheTTL_def Let_def
    by (simp add: word_sle_eq word_sless_alt min_def)
qed

theorem cacheTTL_spec_witness: "sint (cacheTTL 300 120 3600 60) = 180"
  using cacheTTL_spec [of 60 300 120 3600] by simp

text \<open>
  Wrap-around: a lifetime close to the largest 64-bit integer plus the 60 second buffer of the exchange
  is negative, so the sum really needs its bound.
\<close>

theorem cacheTTL_wraps: "sint (cacheTTL (2 ^ 63 - 1) 0 0 60) < 0"
  by (simp add: cacheTTL_def addBuffer_def word_sle_eq)

end
