(* ===== verification/MultiBid.thy ===== *)
theory MultiBid
  imports Auction
begin

text \<open>
  The second half of the auction of \<^verbatim>\<open>exchange/auction.go\<close>: \<open>validateAndUpdateMultiBid\<close> sorts the bids
  of every bidder for an impression and cuts them at the account's limit, by setting the bid behind a
  shared pointer to nil. The store makes that aliasing explicit. Sorting is any routine with the laws of
  the locale \<open>slice_sort\<close>.
\<close>

section \<open>Cutting the bids of a bidder\<close>

text \<open>
  \<^verbatim>\<open>sort.Slice\<close> promises a sorted permutation and nothing about equal elements, so the sorting routine is the
  parameter \<open>srt\<close>. Its slice is the one the map holds: the sorted order stays there. Cutting sets the pointer
  \<^verbatim>\<open>Bid\<close> of every bid behind the limit to nil, in the store.
\<close>

type_synonym sorter = "(bidptr \<Rightarrow> bidptr \<Rightarrow> bool) \<Rightarrow> bidptr list \<Rightarrow> bidptr list"

definition nil_bids :: "bidptr list \<Rightarrow> store \<Rightarrow> store" where
  "nil_bids ps st = (\<lambda>p. if p \<in> set ps then (st p)\<lparr>pb_Bid := None\<rparr> else st p)"

definition better_ptr :: "store \<Rightarrow> bool \<Rightarrow> bidptr \<Rightarrow> bidptr \<Rightarrow> bool" where
  "better_ptr st preferDeals p q =
     isNewWinningBid (the (pb_Bid (st p))) (the (pb_Bid (st q))) preferDeals"

definition cut_bidder :: "sorter \<Rightarrow> bool \<Rightarrow> int \<Rightarrow> bidptr list \<Rightarrow> store \<Rightarrow> (bidptr list \<times> bool \<times> store) option" where
  "cut_bidder srt preferDeals limit topBids st =
     (if length topBids > 1 \<and> \<not> list_all (has_bid st) topBids then None
      else
        let sorted = srt (better_ptr st preferDeals) topBids in
        if limit \<noteq> 0 \<and> int (length topBids) > limit
        then (if limit < 0 then None
              else Some (take (nat limit) sorted, True, nil_bids (drop (nat limit) sorted) st))
        else Some (sorted, False, st))"

fun cut_bidders :: "sorter \<Rightarrow> bool \<Rightarrow> int \<Rightarrow> (string, bidptr list) gomap \<Rightarrow> store \<Rightarrow> ((string, bidptr list) gomap \<times> bool \<times> store) option" where
  "cut_bidders srt pd limit [] st = Some ([], False, st)"
| "cut_bidders srt pd limit ((bidder, topBids) # rest) st =
     (case cut_bidder srt pd limit topBids st of None \<Rightarrow> None | Some (kept, s1, st1) \<Rightarrow>
      case cut_bidders srt pd limit rest st1 of None \<Rightarrow> None | Some (rest', s2, st2) \<Rightarrow>
      Some ((bidder, kept) # rest', s1 \<or> s2, st2))"

fun cut_imps :: "sorter \<Rightarrow> bool \<Rightarrow> int \<Rightarrow> (string, (string, bidptr list) gomap) gomap \<Rightarrow> store \<Rightarrow> ((string, (string, bidptr list) gomap) gomap \<times> bool \<times> store) option" where
  "cut_imps srt pd limit [] st = Some ([], False, st)"
| "cut_imps srt pd limit ((imp, m) # rest) st =
     (case cut_bidders srt pd limit m st of None \<Rightarrow> None | Some (m', s1, st1) \<Rightarrow>
      case cut_imps srt pd limit rest st1 of None \<Rightarrow> None | Some (rest', s2, st2) \<Rightarrow>
      Some ((imp, m') # rest', s1 \<or> s2, st2))"

definition drop_nil_bids :: "store \<Rightarrow> seat_bids \<Rightarrow> seat_bids" where
  "drop_nil_bids st = map (map_prod id (map_option (\<lambda>sb. sb\<lparr>sb_Bids := filter (has_bid st) (sb_Bids sb)\<rparr>)))"

definition validateAndUpdateMultiBid :: "sorter \<Rightarrow> bool \<Rightarrow> int \<Rightarrow> seat_bids \<Rightarrow> auction \<Rightarrow> store \<Rightarrow> (auction \<times> seat_bids \<times> store) option" where
  "validateAndUpdateMultiBid srt preferDeals accountDefaultBidLimit adapterBids a st =
     (case cut_imps srt preferDeals accountDefaultBidLimit (allBidsByBidder a) st of
        None \<Rightarrow> None
      | Some (m, bidsSnipped, st') \<Rightarrow>
          Some (a\<lparr>allBidsByBidder := m\<rparr>, if bidsSnipped then drop_nil_bids st' adapterBids else adapterBids, st'))"


section \<open>One bidder\<close>

definition finite_bid :: "store \<Rightarrow> bidptr \<Rightarrow> bool" where
  "finite_bid st p \<longleftrightarrow> has_bid st p \<and> is_finite (Bid_Price (the (pb_Bid (st p))))"

lemma isNewWinningBid_lex:
  "Bid_Price b = Fin p \<Longrightarrow> Bid_Price c = Fin q \<Longrightarrow> isNewWinningBid b c pd \<longleftrightarrow>
   (let db = (pd \<and> Bid_DealID b \<noteq> []); dc = (pd \<and> Bid_DealID c \<noteq> []) in dc < db \<or> db = dc \<and> q < p)"
  by (auto simp: isNewWinningBid_def less_bool_def)

lemma strict_weak_better:
  assumes "\<forall>p \<in> S. finite_bid st p"
  shows "strict_weak_on S (better_ptr st pd)"
proof -
  define price where "price p = (case Bid_Price (the (pb_Bid (st p))) of Fin q \<Rightarrow> q | _ \<Rightarrow> 0)" for p
  define deal where "deal p = (pd \<and> Bid_DealID (the (pb_Bid (st p))) \<noteq> [])" for p
  have lex: "better_ptr st pd p q \<longleftrightarrow> deal q < deal p \<or> deal p = deal q \<and> price q < price p"
    if "p \<in> S" "q \<in> S" for p q
  proof -
    have "Bid_Price (the (pb_Bid (st r))) = Fin (price r)" if "r \<in> S" for r
      using assms that by (auto simp: finite_bid_def price_def elim!: is_finiteE)
    from isNewWinningBid_lex [OF this [OF that(1)] this [OF that(2)], of pd]
    show ?thesis by (simp add: better_ptr_def deal_def Let_def)
  qed
  have asym: "\<not> better_ptr st pd q p" if "p \<in> S" "q \<in> S" "better_ptr st pd p q" for p q
    using that lex by (auto simp: less_bool_def)
  have "\<not> better_ptr st pd p r"
    if "p \<in> S" "q \<in> S" "r \<in> S" "\<not> better_ptr st pd p q" "\<not> better_ptr st pd q r" for p q r
    using that(4,5) unfolding lex [OF that(1,2)] lex [OF that(2,3)] lex [OF that(1,3)]
    by (auto simp: less_bool_def)
  with asym show ?thesis unfolding strict_weak_on_def by blast
qed

definition cut_list :: "sorter \<Rightarrow> bool \<Rightarrow> int \<Rightarrow> store \<Rightarrow> bidptr list \<Rightarrow> bidptr list" where
  "cut_list srt pd limit st ps = take (if limit = 0 then length ps else nat limit) (srt (better_ptr st pd) ps)"

definition cut_rest :: "sorter \<Rightarrow> bool \<Rightarrow> int \<Rightarrow> store \<Rightarrow> bidptr list \<Rightarrow> bidptr list" where
  "cut_rest srt pd limit st ps = drop (if limit = 0 then length ps else nat limit) (srt (better_ptr st pd) ps)"


lemma cut_bidder_eq:
  assumes "list_all (has_bid st) ps" and "limit \<ge> 0"
    and len: "\<And>lt. length (srt lt ps) = length ps"
  shows "\<exists>s. cut_bidder srt pd limit ps st = Some (cut_list srt pd limit st ps, s, nil_bids (cut_rest srt pd limit st ps) st) \<and>
    (s \<longleftrightarrow> cut_rest srt pd limit st ps \<noteq> [])"
proof -
  have "srt lt ps = []" if "ps = []" for lt using len [of lt] that by simp
  then show ?thesis using assms(1,2)
    by (auto simp: cut_bidder_def cut_list_def cut_rest_def nil_bids_def Let_def len intro!: ext)
qed

lemma nil_bids_append: "nil_bids ys (nil_bids xs st) = nil_bids (xs @ ys) st"
  by (auto simp: nil_bids_def)

lemma nil_bids_outside: "p \<notin> set ps \<Longrightarrow> nil_bids ps st p = st p"
  by (simp add: nil_bids_def)

lemma has_bid_nil_bids: "has_bid (nil_bids ps st) p \<longleftrightarrow> p \<notin> set ps \<and> has_bid st p"
  by (simp add: has_bid_def nil_bids_def)

section \<open>All bidders and impressions\<close>

definition cut_map :: "sorter \<Rightarrow> bool \<Rightarrow> int \<Rightarrow> store \<Rightarrow> (string, bidptr list) gomap \<Rightarrow> (string, bidptr list) gomap" where
  "cut_map srt pd limit st m = map (map_prod id (cut_list srt pd limit st)) m"

definition rest_of :: "sorter \<Rightarrow> bool \<Rightarrow> int \<Rightarrow> store \<Rightarrow> (string, bidptr list) gomap \<Rightarrow> bidptr list" where
  "rest_of srt pd limit st m = concat (map (cut_rest srt pd limit st \<circ> snd) m)"

definition bidder_ptrs :: "(string, bidptr list) gomap \<Rightarrow> bidptr list" where
  "bidder_ptrs m = concat (map snd m)"

definition imp_ptrs :: "(string, (string, bidptr list) gomap) gomap \<Rightarrow> bidptr list" where
  "imp_ptrs m = concat (map (bidder_ptrs \<circ> snd) m)"

definition rest_of_imps :: "sorter \<Rightarrow> bool \<Rightarrow> int \<Rightarrow> store \<Rightarrow> (string, (string, bidptr list) gomap) gomap \<Rightarrow> bidptr list" where
  "rest_of_imps srt pd limit st m = concat (map (rest_of srt pd limit st \<circ> snd) m)"

definition cut_map_imps :: "sorter \<Rightarrow> bool \<Rightarrow> int \<Rightarrow> store \<Rightarrow> (string, (string, bidptr list) gomap) gomap \<Rightarrow> (string, (string, bidptr list) gomap) gomap" where
  "cut_map_imps srt pd limit st m = map (map_prod id (cut_map srt pd limit st)) m"

lemma cut_map_simps [simp]:
  "cut_map srt pd limit st [] = []" "rest_of srt pd limit st [] = []" "bidder_ptrs [] = []" "imp_ptrs [] = []"
  "rest_of_imps srt pd limit st [] = []" "cut_map_imps srt pd limit st [] = []"
  "cut_map srt pd limit st ((n, ps) # m) = (n, cut_list srt pd limit st ps) # cut_map srt pd limit st m"
  "rest_of srt pd limit st ((n, ps) # m) = cut_rest srt pd limit st ps @ rest_of srt pd limit st m"
  "bidder_ptrs ((n, ps) # m) = ps @ bidder_ptrs m"
  "imp_ptrs ((i, b) # ms) = bidder_ptrs b @ imp_ptrs ms"
  "rest_of_imps srt pd limit st ((i, b) # ms) = rest_of srt pd limit st b @ rest_of_imps srt pd limit st ms"
  "cut_map_imps srt pd limit st ((i, b) # ms) = (i, cut_map srt pd limit st b) # cut_map_imps srt pd limit st ms"
  by (simp_all add: cut_map_def rest_of_def bidder_ptrs_def imp_ptrs_def rest_of_imps_def cut_map_imps_def)

locale bid_sort = slice_sort srt for srt :: sorter
begin

lemma set_cut: "set (cut_list srt pd limit st ps) \<union> set (cut_rest srt pd limit st ps) = set ps"
  unfolding cut_list_def cut_rest_def by (metis append_take_drop_id set_append set_srt)

lemma cut_disjoint:
  "distinct ps \<Longrightarrow> set (cut_list srt pd limit st ps) \<inter> set (cut_rest srt pd limit st ps) = {}"
  unfolding cut_list_def cut_rest_def
  by (rule set_take_disj_set_drop_if_distinct) (auto simp: mset_srt dest: mset_eq_imp_distinct_iff [OF mset_srt, THEN iffD2])

lemma cut_nil_bids:
  assumes "set ps \<inter> set qs = {}"
  shows "cut_list srt pd limit (nil_bids qs st) ps = cut_list srt pd limit st ps"
    and "cut_rest srt pd limit (nil_bids qs st) ps = cut_rest srt pd limit st ps"
proof -
  have "srt (better_ptr (nil_bids qs st) pd) ps = srt (better_ptr st pd) ps"
    using assms by (intro srt_cong) (simp add: better_ptr_def nil_bids_outside disjoint_iff)
  then show "cut_list srt pd limit (nil_bids qs st) ps = cut_list srt pd limit st ps"
    and "cut_rest srt pd limit (nil_bids qs st) ps = cut_rest srt pd limit st ps"
    by (simp_all add: cut_list_def cut_rest_def)
qed

lemma rest_of_subset: "set (rest_of srt pd limit st m) \<subseteq> set (bidder_ptrs m)"
proof (induction m)
  case (Cons e m)
  obtain n ps where "e = (n, ps)" by (cases e)
  with Cons set_cut [of pd limit st ps] show ?case by auto
qed simp

lemma rest_of_nil_bids:
  "set (bidder_ptrs m) \<inter> set qs = {} \<Longrightarrow>
   cut_map srt pd limit (nil_bids qs st) m = cut_map srt pd limit st m \<and>
   rest_of srt pd limit (nil_bids qs st) m = rest_of srt pd limit st m"
proof (induction m)
  case (Cons e m)
  obtain n ps where e: "e = (n, ps)" by (cases e)
  have "set ps \<inter> set qs = {}" "set (bidder_ptrs m) \<inter> set qs = {}" using Cons.prems e by auto
  with Cons.IH show ?case by (simp add: e cut_nil_bids)
qed simp

lemma cut_bidders_eq:
  assumes "\<forall>p \<in> set (bidder_ptrs m). has_bid st p" and "limit \<ge> 0" and "distinct (bidder_ptrs m)"
  shows "cut_bidders srt pd limit m st =
    Some (cut_map srt pd limit st m, rest_of srt pd limit st m \<noteq> [], nil_bids (rest_of srt pd limit st m) st)"
  using assms
proof (induction m arbitrary: st)
  case Nil
  then show ?case by (simp add: nil_bids_def)
next
  case (Cons e m)
  obtain n ps where e: "e = (n, ps)" by (cases e)
  define qs where "qs = cut_rest srt pd limit st ps"
  have dis: "set (bidder_ptrs m) \<inter> set qs = {}"
    using Cons.prems(3) set_cut [of pd limit st ps] e by (auto simp: qs_def)
  have has: "\<forall>p \<in> set (bidder_ptrs m). has_bid (nil_bids qs st) p"
    using Cons.prems(1) dis e by (auto simp: has_bid_nil_bids)
  have first: "cut_bidder srt pd limit ps st = Some (cut_list srt pd limit st ps, qs \<noteq> [], nil_bids qs st)"
    using cut_bidder_eq [of st ps limit srt pd] Cons.prems e length_srt by (auto simp: qs_def list_all_iff)
  have others: "cut_bidders srt pd limit m (nil_bids qs st) =
      Some (cut_map srt pd limit st m, rest_of srt pd limit st m \<noteq> [], nil_bids (rest_of srt pd limit st m) (nil_bids qs st))"
    using Cons.IH [OF has Cons.prems(2)] Cons.prems(3) e rest_of_nil_bids [OF dis, of pd limit st] by simp
  show ?case using first others by (simp add: e nil_bids_append flip: qs_def)
qed

lemma rest_of_imps_nil_bids:
  "set (imp_ptrs m) \<inter> set qs = {} \<Longrightarrow>
   cut_map_imps srt pd limit (nil_bids qs st) m = cut_map_imps srt pd limit st m \<and>
   rest_of_imps srt pd limit (nil_bids qs st) m = rest_of_imps srt pd limit st m"
proof (induction m)
  case (Cons e m)
  obtain n b where e: "e = (n, b)" by (cases e)
  have "set (bidder_ptrs b) \<inter> set qs = {}" "set (imp_ptrs m) \<inter> set qs = {}"
    using Cons.prems by (auto simp: e)
  with Cons.IH rest_of_nil_bids [of b qs pd limit st] show ?case by (simp add: e)
qed simp

lemma cut_imps_eq:
  assumes "\<forall>p \<in> set (imp_ptrs m). has_bid st p" and "limit \<ge> 0" and "distinct (imp_ptrs m)"
  shows "cut_imps srt pd limit m st =
    Some (cut_map_imps srt pd limit st m, rest_of_imps srt pd limit st m \<noteq> [], nil_bids (rest_of_imps srt pd limit st m) st)"
  using assms
proof (induction m arbitrary: st)
  case Nil
  then show ?case by (simp add: nil_bids_def)
next
  case (Cons e m)
  obtain n b where e: "e = (n, b)" by (cases e)
  define qs where "qs = rest_of srt pd limit st b"
  have parts: "imp_ptrs (e # m) = bidder_ptrs b @ imp_ptrs m" by (simp add: e)
  have dis: "set (imp_ptrs m) \<inter> set qs = {}"
    using Cons.prems(3) rest_of_subset [of pd limit st b] unfolding parts qs_def by auto
  have has: "\<forall>p \<in> set (imp_ptrs m). has_bid (nil_bids qs st) p"
    using Cons.prems(1) dis unfolding parts by (auto simp: has_bid_nil_bids)
  have first: "cut_bidders srt pd limit b st = Some (cut_map srt pd limit st b, qs \<noteq> [], nil_bids qs st)"
    using cut_bidders_eq [of b st limit pd] Cons.prems unfolding parts qs_def by simp
  have others: "cut_imps srt pd limit m (nil_bids qs st) =
      Some (cut_map_imps srt pd limit st m, rest_of_imps srt pd limit st m \<noteq> [], nil_bids (rest_of_imps srt pd limit st m) (nil_bids qs st))"
    using Cons.IH [OF has Cons.prems(2)] Cons.prems(3) rest_of_imps_nil_bids [OF dis, of pd limit st]
    unfolding parts by simp
  show ?case using first others by (simp add: e nil_bids_append flip: qs_def)
qed

lemma cut_list_Nil [simp]: "cut_list srt pd limit st [] = []"
  using length_srt [of "better_ptr st pd" "[]"] by (simp add: cut_list_def)

lemma bids_of_imp_cut: "bids_of_imp (cut_map_imps srt pd limit st m) imp n = cut_list srt pd limit st (bids_of_imp m imp n)"
proof -
  have inner: "map_get [] (cut_map srt pd limit st b) n = cut_list srt pd limit st (map_get [] b n)" for b
    by (induction b) (auto simp: map_get_Cons)
  have "map_get [] (cut_map_imps srt pd limit st m) imp = cut_map srt pd limit st (map_get [] m imp)"
    by (induction m) (auto simp: map_get_Cons)
  then show ?thesis by (simp add: bids_of_imp_def inner)
qed

lemma mset_cut: "mset (cut_list srt pd limit st ps) + mset (cut_rest srt pd limit st ps) = mset ps"
  unfolding cut_list_def cut_rest_def by (metis append_take_drop_id mset_append mset_srt)

lemma mset_cut_bidders:
  "mset (bidder_ptrs (cut_map srt pd limit st m)) + mset (rest_of srt pd limit st m) = mset (bidder_ptrs m)"
proof (induction m)
  case (Cons e m)
  obtain n ps where e: "e = (n, ps)" by (cases e)
  have "mset (bidder_ptrs (cut_map srt pd limit st (e # m))) + mset (rest_of srt pd limit st (e # m)) =
    (mset (cut_list srt pd limit st ps) + mset (cut_rest srt pd limit st ps)) +
    (mset (bidder_ptrs (cut_map srt pd limit st m)) + mset (rest_of srt pd limit st m))"
    by (simp add: e ac_simps)
  then show ?case unfolding Cons.IH mset_cut by (simp add: e)
qed simp

lemma mset_cut_imps:
  "mset (imp_ptrs (cut_map_imps srt pd limit st m)) + mset (rest_of_imps srt pd limit st m) = mset (imp_ptrs m)"
proof (induction m)
  case (Cons e m)
  obtain i b where e: "e = (i, b)" by (cases e)
  have "mset (imp_ptrs (cut_map_imps srt pd limit st (e # m))) + mset (rest_of_imps srt pd limit st (e # m)) =
    (mset (bidder_ptrs (cut_map srt pd limit st b)) + mset (rest_of srt pd limit st b)) +
    (mset (imp_ptrs (cut_map_imps srt pd limit st m)) + mset (rest_of_imps srt pd limit st m))"
    by (simp add: e ac_simps)
  then show ?case unfolding Cons.IH mset_cut_bidders by (simp add: e)
qed simp

lemma kept_iff_not_rest:
  assumes "distinct (imp_ptrs m)" and "p \<in> set (imp_ptrs m)"
  shows "p \<in> set (imp_ptrs (cut_map_imps srt pd limit st m)) \<longleftrightarrow> p \<notin> set (rest_of_imps srt pd limit st m)"
proof -
  have "distinct (imp_ptrs (cut_map_imps srt pd limit st m) @ rest_of_imps srt pd limit st m)"
    and "set (imp_ptrs (cut_map_imps srt pd limit st m) @ rest_of_imps srt pd limit st m) = set (imp_ptrs m)"
    using mset_cut_imps [of pd limit st m] assms(1)
    by (metis mset_append mset_eq_imp_distinct_iff, metis mset_append mset_eq_setD)
  then show ?thesis using assms(2) by auto
qed

lemma cut_list_best:
  assumes "\<forall>p \<in> set ps. finite_bid st p" and "distinct ps" and "limit \<ge> 0"
  shows "set (cut_list srt pd limit st ps) \<subseteq> set ps"
    and "length (cut_list srt pd limit st ps) = (if limit = 0 then length ps else min (nat limit) (length ps))"
    and "sorted_wrt (\<lambda>p q. \<not> better_ptr st pd q p) (cut_list srt pd limit st ps)"
    and "\<forall>p \<in> set (cut_list srt pd limit st ps). \<forall>q \<in> set ps - set (cut_list srt pd limit st ps). \<not> better_ptr st pd q p"
proof -
  show "set (cut_list srt pd limit st ps) \<subseteq> set ps" using set_cut by blast
  show "length (cut_list srt pd limit st ps) = (if limit = 0 then length ps else min (nat limit) (length ps))"
    by (simp add: cut_list_def length_srt min.commute)
  have sw: "strict_weak_on (set ps) (better_ptr st pd)" by (rule strict_weak_better [OF assms(1)])
  from sorted_srt [OF this] show "sorted_wrt (\<lambda>p q. \<not> better_ptr st pd q p) (cut_list srt pd limit st ps)"
    unfolding cut_list_def by (rule sorted_wrt_take)
  show "\<forall>p \<in> set (cut_list srt pd limit st ps). \<forall>q \<in> set ps - set (cut_list srt pd limit st ps). \<not> better_ptr st pd q p"
  proof (intro ballI)
    fix p q
    assume p: "p \<in> set (cut_list srt pd limit st ps)" and "q \<in> set ps - set (cut_list srt pd limit st ps)"
    then have "q \<in> set (cut_rest srt pd limit st ps)" using set_cut [of pd limit st ps] by blast
    with p show "\<not> better_ptr st pd q p" unfolding cut_list_def cut_rest_def by (rule take_drop_srt [OF sw])
  qed
qed

lemma bids_of_imp_subset: "set (bids_of_imp m imp n) \<subseteq> set (imp_ptrs m)"
proof -
  have "set (map_get [] b n) \<subseteq> set (bidder_ptrs b)" for b
    by (induction b) (auto simp: map_get_Cons split: if_splits)
  moreover have "set (bidder_ptrs (map_get [] m imp)) \<subseteq> set (imp_ptrs m)"
    by (induction m) (auto simp: map_get_Cons split: if_splits)
  ultimately show ?thesis unfolding bids_of_imp_def by blast
qed

lemma bids_of_imp_distinct: "distinct (imp_ptrs m) \<Longrightarrow> distinct (bids_of_imp m imp n)"
proof -
  assume "distinct (imp_ptrs m)"
  then have "distinct (bidder_ptrs (map_get [] m imp))" by (induction m) (auto simp: map_get_Cons)
  moreover have "distinct (bidder_ptrs b) \<Longrightarrow> distinct (map_get [] b n)" for b by (induction b) (auto simp: map_get_Cons)
  ultimately show ?thesis unfolding bids_of_imp_def by blast
qed

end

interpretation stable_bids: bid_sort stable_sort
  by unfold_locales

lemma all_bids_drop_nil: "all_bids (drop_nil_bids st sbs) = filter (has_bid st \<circ> snd) (all_bids sbs)"
proof (induction sbs)
  case (Cons e sbs)
  obtain n sb where "e = (n, sb)" by (cases e)
  with Cons show ?case by (cases sb) (auto simp: drop_nil_bids_def filter_map comp_def)
qed (simp add: drop_nil_bids_def)

section \<open>Properties\<close>


definition tied_bids :: store where
  "tied_bids = store_of
     [zero_Bid\<lparr>Bid_ID := ''2'', Bid_ImpID := ''i'', Bid_Price := Fin 1\<rparr>,
      zero_Bid\<lparr>Bid_ID := ''1'', Bid_ImpID := ''i'', Bid_Price := Fin 1\<rparr>]"

definition tied_seat :: seat_bids where
  "tied_seat = [(''a'', Some \<lparr>sb_Bids = [0, 1], sb_Currency = ''USD'', sb_Seat = ''a''\<rparr>)]"

definition tied_auction :: auction where
  "tied_auction = \<lparr>winningBids = [''i'' \<mapsto> 1], allBidsByBidder = [(''i'', [(''a'', [0, 1])])], roundedPrices = [],
     cacheIds = [], vastCacheIds = [], seatWeights = [], seatLatency = []\<rparr>"

lemmas tied_defs = tied_bids_def tied_seat_def tied_auction_def store_of_def zero_Bid_def zero_PbsOrtbBid_def
  has_bid_def finite_bid_def

lemma tied_newAuction: "newAuction tied_bids tied_seat False [] [] = Some tied_auction"
  by (simp add: newAuction_def newAuction_bid_def tied_defs bidBeats_def add_all_bids_def map_get_def Let_def)


text \<open>
  Cutting can drop the winner: the auction picks the overall winner with the full tie-break rule, while the cut
  compares price (and deals) only. Here one bidder sends two bids at the same price; the second one wins by its id,
  the stable order of the cut keeps the first one, and the winner recorded in the auction is left without its bid.
\<close>

theorem winner_can_be_cut:
  "\<exists>a' sbs' st'. newAuction tied_bids tied_seat False [] [] = Some tied_auction \<and>
     validateAndUpdateMultiBid stable_sort False 1 tied_seat tied_auction tied_bids = Some (a', sbs', st') \<and>
     winningBids a' ''i'' = Some 1 \<and> pb_Bid (st' 1) = None \<and> bids_of_imp (allBidsByBidder a') ''i'' ''a'' = [0]"
  unfolding tied_newAuction
  by (simp add: validateAndUpdateMultiBid_def tied_defs cut_bidder_def stable_sort_def better_ptr_def
        isNewWinningBid_def nil_bids_def Let_def bids_of_imp_def map_get_def)

text \<open>
  A bid that is strictly better than every other bid of its bidder for the impression survives every cut at a
  positive limit; so the winner can only be lost to a tie.
\<close>

theorem strict_best_survives_cut:
  assumes srt: "bid_sort srt" and limit: "limit > 0"
    and fin: "\<forall>p \<in> set (imp_ptrs (allBidsByBidder a)). finite_bid st p"
    and dist: "distinct (imp_ptrs (allBidsByBidder a))"
    and p: "p \<in> set (bids_of_imp (allBidsByBidder a) imp n)"
    and best: "\<forall>q \<in> set (bids_of_imp (allBidsByBidder a) imp n) - {p}. better_ptr st pd p q"
    and run: "validateAndUpdateMultiBid srt pd limit sbs a st = Some (a', sbs', st')"
  shows "has_bid st' p \<and> p \<in> set (bids_of_imp (allBidsByBidder a') imp n)"
proof -
  let ?m = "allBidsByBidder a" and ?rest = "rest_of_imps srt pd limit st (allBidsByBidder a)"
  have has: "\<forall>p \<in> set (imp_ptrs ?m). has_bid st p" using fin by (simp add: finite_bid_def)
  from run bid_sort.cut_imps_eq [OF srt has _ dist, of limit pd] limit
  have a': "allBidsByBidder a' = cut_map_imps srt pd limit st ?m" and st': "st' = nil_bids ?rest st"
    by (auto simp: validateAndUpdateMultiBid_def)
  have old: "\<forall>p \<in> set (bids_of_imp ?m imp n). finite_bid st p" "distinct (bids_of_imp ?m imp n)"
    using fin bid_sort.bids_of_imp_subset [OF srt, of ?m imp n] bid_sort.bids_of_imp_distinct [OF srt dist] by auto
  let ?new = "cut_list srt pd limit st (bids_of_imp ?m imp n)"
  have new: "bids_of_imp (allBidsByBidder a') imp n = ?new" by (simp add: a' bid_sort.bids_of_imp_cut [OF srt])
  note cut = bid_sort.cut_list_best [OF srt old, of limit pd]
  have "p \<in> set ?new"
  proof (rule ccontr)
    assume np: "p \<notin> set ?new"
    have "length ?new > 0" using cut(2) limit p by (cases "bids_of_imp ?m imp n") auto
    then obtain k where k: "k \<in> set ?new" by (cases ?new) auto
    then have "\<not> better_ptr st pd p k" using cut(4) limit p np by auto
    moreover have "better_ptr st pd p k" using best k np cut(1) limit by auto
    ultimately show False by contradiction
  qed
  moreover have "p \<in> set (imp_ptrs ?m)" using p bid_sort.bids_of_imp_subset [OF srt, of ?m imp n] by auto
  moreover have "set ?new \<subseteq> set (imp_ptrs (allBidsByBidder a'))"
    using bid_sort.bids_of_imp_subset [OF srt, of "allBidsByBidder a'" imp n] new by simp
  ultimately have kept: "p \<in> set ?new" and "p \<in> set (imp_ptrs ?m)" "p \<notin> set ?rest"
    using bid_sort.kept_iff_not_rest [OF srt dist, of p pd limit st] unfolding a' by auto
  then have "has_bid st' p" using has by (simp add: st' has_bid_nil_bids)
  with kept show ?thesis by (simp add: new)
qed

theorem strict_best_survives_cut_witness:
  "\<exists>a' sbs' st'. validateAndUpdateMultiBid stable_sort False 1 tied_seat
       (tied_auction\<lparr>allBidsByBidder := [(''i'', [(''a'', [0])])]\<rparr>) tied_bids = Some (a', sbs', st') \<and> has_bid st' 0"
proof -
  let ?a = "tied_auction\<lparr>allBidsByBidder := [(''i'', [(''a'', [0])])]\<rparr>"
  obtain a' sbs' st' where run: "validateAndUpdateMultiBid stable_sort False 1 tied_seat ?a tied_bids = Some (a', sbs', st')"
    by (simp add: validateAndUpdateMultiBid_def cut_bidder_def stable_sort_def Let_def)
  have "has_bid st' 0 \<and> 0 \<in> set (bids_of_imp (allBidsByBidder a') ''i'' ''a'')"
    by (rule strict_best_survives_cut [OF stable_bids.bid_sort_axioms _ _ _ _ _ run])
       (simp_all add: tied_defs bids_of_imp_def map_get_def)
  with run show ?thesis by blast
qed

end
