(* ===== verification/Currency.thy ===== *)
theory Currency
  imports Prelude
begin

text \<open>
  Package \<^verbatim>\<open>currency\<close>: the conversion tables (\<^verbatim>\<open>Rates\<close>, \<^verbatim>\<open>ConstantRates\<close>,
  \<^verbatim>\<open>AggregateConversions\<close>), the choice between request and server rates
  (\<^verbatim>\<open>GetAuctionCurrencyRates\<close>), the validation of request rates, and the rate converter with its
  periodic update (\<^verbatim>\<open>RateConverter\<close>). The parser of ISO 4217 codes (\<^verbatim>\<open>golang.org/x/text\<close>) is the
  parameter \<open>parseISO\<close>: the canonical code of a recognised currency, \<open>None\<close> for an error.
  The locale \<open>conversions\<close> is the contract of the Go interface \<^verbatim>\<open>Conversions\<close>.
\<close>

section \<open>Data\<close>

datatype rate_error = ConversionNotFoundError string string | InvalidCurrency | RatesAreNil

type_synonym rate_result = "rate_error + float64"
type_synonym iso_parser = "string \<Rightarrow> string option"
type_synonym conversion_table = "(string, (string, float64) gomap) gomap"

record Rates =
  Conversions :: "conversion_table option"  \<comment> \<open>\<open>None\<close>: the nil map\<close>

definition NewRates :: "conversion_table option \<Rightarrow> Rates" where
  "NewRates c = \<lparr>Conversions = c\<rparr>"

record ExtRequestCurrency =
  ConversionRates :: "conversion_table option"
  UsePBSRates :: "bool option"

text \<open>The values of the interface type \<^verbatim>\<open>Conversions\<close> that the package builds.\<close>

datatype Conversions =
  RatesConv Rates
| ConstantConv
| AggregateConv Conversions Conversions

section \<open>Looking a rate up\<close>

text \<open>A two-level read \<^verbatim>\<open>m[a][b]\<close> with its presence flag: the inner read of a missing row is a miss.\<close>

definition table_entry :: "conversion_table \<Rightarrow> string \<Rightarrow> string \<Rightarrow> float64 option" where
  "table_entry t a b = Option.bind (map_of t a) (\<lambda>row. map_of row b)"

fun FindIntermediateConversionRate :: "conversion_table \<Rightarrow> string \<Rightarrow> string \<Rightarrow> rate_result" where
  "FindIntermediateConversionRate [] from to = Inl (ConversionNotFoundError from to)"
| "FindIntermediateConversionRate ((k, conversions) # rest) from to =
     (case (map_of conversions to, map_of conversions from) of
        (Some toRate, Some fromRate) \<Rightarrow> Inr (toRate / fromRate)
      | _ \<Rightarrow> FindIntermediateConversionRate rest from to)"

definition Rates_GetRate :: "iso_parser \<Rightarrow> Rates \<Rightarrow> string \<Rightarrow> string \<Rightarrow> rate_result" where
  "Rates_GetRate parseISO r from to =
     (case parseISO from of None \<Rightarrow> Inl InvalidCurrency | Some fromUnit \<Rightarrow>
      case parseISO to of None \<Rightarrow> Inl InvalidCurrency | Some toUnit \<Rightarrow>
      if fromUnit = toUnit then Inr 1
      else case Conversions r of
        None \<Rightarrow> Inl RatesAreNil
      | Some t \<Rightarrow>
          (case table_entry t fromUnit toUnit of
             Some c \<Rightarrow> Inr c
           | None \<Rightarrow>
              (case table_entry t toUnit fromUnit of
                 Some c \<Rightarrow> Inr (1 / c)
               | None \<Rightarrow> FindIntermediateConversionRate t fromUnit toUnit)))"

definition ConstantRates_GetRate :: "iso_parser \<Rightarrow> string \<Rightarrow> string \<Rightarrow> rate_result" where
  "ConstantRates_GetRate parseISO from to =
     (case parseISO from of None \<Rightarrow> Inl InvalidCurrency | Some fromUnit \<Rightarrow>
      case parseISO to of None \<Rightarrow> Inl InvalidCurrency | Some toUnit \<Rightarrow>
      if fromUnit \<noteq> toUnit then Inl (ConversionNotFoundError fromUnit toUnit) else Inr 1)"

fun isMissingRateErr :: "rate_error \<Rightarrow> bool" where
  "isMissingRateErr (ConversionNotFoundError _ _) = True"
| "isMissingRateErr _ = False"

definition AggregateConversions_GetRate ::
  "(string \<Rightarrow> string \<Rightarrow> rate_result) \<Rightarrow> (string \<Rightarrow> string \<Rightarrow> rate_result) \<Rightarrow> string \<Rightarrow> string \<Rightarrow> rate_result" where
  "AggregateConversions_GetRate customRates serverRates from to =
     (case customRates from to of
        Inr rate \<Rightarrow> Inr rate
      | Inl err \<Rightarrow> if \<not> isMissingRateErr err then Inl err else serverRates from to)"

fun GetRate :: "iso_parser \<Rightarrow> Conversions \<Rightarrow> string \<Rightarrow> string \<Rightarrow> rate_result" where
  "GetRate parseISO (RatesConv r) from to = Rates_GetRate parseISO r from to"
| "GetRate parseISO ConstantConv from to = ConstantRates_GetRate parseISO from to"
| "GetRate parseISO (AggregateConv c s) from to =
     AggregateConversions_GetRate (GetRate parseISO c) (GetRate parseISO s) from to"

text \<open>The pointer the method returns: \<open>None\<close> is nil, \<open>Some None\<close> points to a nil map.\<close>

fun GetRates :: "Conversions \<Rightarrow> conversion_table option option" where
  "GetRates (RatesConv r) = Some (Conversions r)"
| "GetRates ConstantConv = None"
| "GetRates (AggregateConv c s) = None"

section \<open>The rate converter\<close>

text \<open>
  Times are nanoseconds. The field \<open>rc_rates\<close> follows the \<^verbatim>\<open>atomic.Value\<close>: never stored, a stored nil
  pointer, or stored rates.
\<close>

datatype stored_rates = NeverStored | StoredNil | Stored Rates

record RateConverter =
  staleRatesThreshold :: int
  syncSourceURL :: string
  rc_rates :: stored_rates
  rc_lastUpdated :: "int option"

definition NewRateConverter :: "string \<Rightarrow> int \<Rightarrow> RateConverter" where
  "NewRateConverter url threshold =
     \<lparr>staleRatesThreshold = threshold, syncSourceURL = url, rc_rates = NeverStored, rc_lastUpdated = None\<rparr>"

text \<open>
  What the HTTP round trip of one fetch does: it fails, or answers with a status code and a body
  (\<open>None\<close> when reading it fails). Decoding the JSON body is the parameter \<open>unmarshal\<close>.
\<close>

datatype http_outcome = NewRequestFails | DoFails | Response int "string option"

datatype fetch_error = RequestError | TransportError | BadServerResponse int | ReadError | ParseError

definition fetch :: "(string \<Rightarrow> Rates option) \<Rightarrow> http_outcome \<Rightarrow> fetch_error + Rates" where
  "fetch unmarshal out =
     (case out of
        NewRequestFails \<Rightarrow> Inl RequestError
      | DoFails \<Rightarrow> Inl TransportError
      | Response status body \<Rightarrow>
          if status \<ge> 400 then Inl (BadServerResponse status)
          else case body of
            None \<Rightarrow> Inl ReadError
          | Some bytes \<Rightarrow>
             (case unmarshal bytes of None \<Rightarrow> Inl ParseError | Some r \<Rightarrow> Inr r))"

definition checkStaleRates :: "RateConverter \<Rightarrow> int \<Rightarrow> bool" where
  "checkStaleRates rc now =
     (if staleRatesThreshold rc \<le> 0 then False
      else case rc_lastUpdated rc of
        None \<Rightarrow> False
      | Some t \<Rightarrow> now - t > staleRatesThreshold rc)"

definition clearRates :: "RateConverter \<Rightarrow> RateConverter" where
  "clearRates rc = rc\<lparr>rc_rates := StoredNil\<rparr>"

definition update :: "(string \<Rightarrow> Rates option) \<Rightarrow> http_outcome \<Rightarrow> int \<Rightarrow> RateConverter \<Rightarrow> RateConverter \<times> fetch_error option" where
  "update unmarshal out now rc =
     (case fetch unmarshal out of
        Inr r \<Rightarrow> (rc\<lparr>rc_rates := Stored r, rc_lastUpdated := Some now\<rparr>, None)
      | Inl err \<Rightarrow> (if checkStaleRates rc now then clearRates rc else rc, Some err))"

definition LastUpdated :: "RateConverter \<Rightarrow> int option" where
  "LastUpdated rc = rc_lastUpdated rc"

definition RateConverter_Rates :: "RateConverter \<Rightarrow> Conversions" where
  "RateConverter_Rates rc = (case rc_rates rc of Stored r \<Rightarrow> RatesConv r | _ \<Rightarrow> ConstantConv)"

record converterInfo =
  info_source :: string
  info_lastUpdated :: "int option"
  info_rates :: "conversion_table option option"

definition GetInfo :: "RateConverter \<Rightarrow> converterInfo" where
  "GetInfo rc = \<lparr>info_source = syncSourceURL rc, info_lastUpdated = LastUpdated rc,
                 info_rates = GetRates (RateConverter_Rates rc)\<rparr>"

text \<open>The ticker task runs \<open>update\<close> again and again; time does not go backwards.\<close>

inductive converter_run :: "(string \<Rightarrow> Rates option) \<Rightarrow> RateConverter \<Rightarrow> int \<Rightarrow> RateConverter \<Rightarrow> bool"
  for unmarshal :: "string \<Rightarrow> Rates option" and rc0 :: RateConverter where
  start: "converter_run unmarshal rc0 now rc0"
| tick: "converter_run unmarshal rc0 t rc \<Longrightarrow> t \<le> now \<Longrightarrow>
     converter_run unmarshal rc0 now (fst (update unmarshal out now rc))"

section \<open>Rates of an auction\<close>

definition GetAuctionCurrencyRates :: "RateConverter option \<Rightarrow> ExtRequestCurrency option \<Rightarrow> Conversions option" where
  "GetAuctionCurrencyRates currencyConverter requestRates =
     (case requestRates of
        None \<Rightarrow> (case currencyConverter of None \<Rightarrow> None | Some rc \<Rightarrow> Some (RateConverter_Rates rc))
      | Some rr \<Rightarrow>
         (case currencyConverter of
            None \<Rightarrow> Some (RatesConv (NewRates (ConversionRates rr)))
          | Some rc \<Rightarrow>
              let usePbsRates = (UsePBSRates rr = None \<or> UsePBSRates rr = Some True) in
              if \<not> usePbsRates then Some (RatesConv (NewRates (ConversionRates rr)))
              else if opt_or (ConversionRates rr) [] = [] then Some (RateConverter_Rates rc)
              else Some (AggregateConv (RatesConv (NewRates (ConversionRates rr))) (RateConverter_Rates rc))))"

fun validate_row :: "iso_parser \<Rightarrow> (string, float64) gomap \<Rightarrow> string option" where
  "validate_row parseISO [] = None"
| "validate_row parseISO ((toCurrency, r) # rest) =
     (if parseISO toCurrency = None then Some toCurrency else validate_row parseISO rest)"

fun validate_table :: "iso_parser \<Rightarrow> conversion_table \<Rightarrow> string option" where
  "validate_table parseISO [] = None"
| "validate_table parseISO ((fromCurrency, rates) # rest) =
     (if parseISO fromCurrency = None then Some fromCurrency
      else case validate_row parseISO rates of
        Some bad \<Rightarrow> Some bad
      | None \<Rightarrow> validate_table parseISO rest)"

text \<open>\<open>Some c\<close>: the bad input error naming the code \<open>c\<close>.\<close>

definition ValidateCustomRates :: "iso_parser \<Rightarrow> ExtRequestCurrency option \<Rightarrow> string option" where
  "ValidateCustomRates parseISO rates =
     (case rates of None \<Rightarrow> None | Some rr \<Rightarrow> validate_table parseISO (opt_or (ConversionRates rr) []))"

section \<open>The contract of the interface\<close>

locale conversions =
  fixes parseISO :: iso_parser
    and get_rate :: "string \<Rightarrow> string \<Rightarrow> rate_result"
  assumes same_unit: "parseISO a = Some u \<Longrightarrow> parseISO b = Some u \<Longrightarrow> get_rate a b = Inr 1"
    and invalid_from: "parseISO a = None \<Longrightarrow> get_rate a b = Inl InvalidCurrency"
    and invalid_to: "parseISO b = None \<Longrightarrow> get_rate a b = Inl InvalidCurrency"
    and unit_only: "parseISO a = parseISO a' \<Longrightarrow> parseISO b = parseISO b' \<Longrightarrow> get_rate a b = get_rate a' b'"
begin

lemma rate_needs_units: "get_rate a b = Inr r \<Longrightarrow> parseISO a \<noteq> None \<and> parseISO b \<noteq> None"
  using invalid_from [of a b] invalid_to [of b a] by auto

lemma missing_means_units_differ:
  "get_rate a b = Inl (ConversionNotFoundError x y) \<Longrightarrow>
   parseISO a \<noteq> None \<and> parseISO b \<noteq> None \<and> parseISO a \<noteq> parseISO b"
  using invalid_from [of a b] invalid_to [of b a] same_unit [of a _ b]
  by (cases "parseISO a"; cases "parseISO b") auto

end

lemma Rates_conversions: "conversions p (Rates_GetRate p r)"
  by unfold_locales (auto simp: Rates_GetRate_def split: option.splits)

lemma ConstantRates_conversions: "conversions p (ConstantRates_GetRate p)"
  by unfold_locales (auto simp: ConstantRates_GetRate_def split: option.splits)

lemma AggregateConversions_conversions:
  assumes c: "conversions p c" and s: "conversions p s"
  shows "conversions p (AggregateConversions_GetRate c s)"
proof
  fix a b u
  assume "p a = Some u" "p b = Some u"
  then show "AggregateConversions_GetRate c s a b = Inr 1"
    by (simp add: AggregateConversions_GetRate_def conversions.same_unit [OF c])
next
  fix a b
  assume "p a = None"
  then show "AggregateConversions_GetRate c s a b = Inl InvalidCurrency"
    by (simp add: AggregateConversions_GetRate_def conversions.invalid_from [OF c])
next
  fix a b
  assume "p b = None"
  then show "AggregateConversions_GetRate c s a b = Inl InvalidCurrency"
    by (simp add: AggregateConversions_GetRate_def conversions.invalid_to [OF c])
next
  fix a a' b b'
  assume "p a = p a'" "p b = p b'"
  then show "AggregateConversions_GetRate c s a b = AggregateConversions_GetRate c s a' b'"
    using conversions.unit_only [OF c, of a a' b b'] conversions.unit_only [OF s, of a a' b b']
    unfolding AggregateConversions_GetRate_def by (simp only:)
qed

lemma GetRate_conversions: "conversions p (GetRate p c)"
proof (induction c)
  case (RatesConv r)
  have "GetRate p (RatesConv r) = Rates_GetRate p r" by (intro ext) simp
  then show ?case by (simp add: Rates_conversions)
next
  case ConstantConv
  have "GetRate p ConstantConv = ConstantRates_GetRate p" by (intro ext) simp
  then show ?case by (simp add: ConstantRates_conversions)
next
  case (AggregateConv c s)
  have "GetRate p (AggregateConv c s) = AggregateConversions_GetRate (GetRate p c) (GetRate p s)"
    by (intro ext) simp
  then show ?case using AggregateConv by (simp add: AggregateConversions_conversions)
qed

interpretation conv: conversions p "GetRate p c" for p c
  by (rule GetRate_conversions)

section \<open>Properties of the lookup\<close>

lemma FindIntermediate_Inr:
  "FindIntermediateConversionRate t a b = Inr r \<Longrightarrow>
   \<exists>k row x y. (k, row) \<in> set t \<and> map_of row b = Some x \<and> map_of row a = Some y \<and> r = x / y"
proof (induction t)
  case (Cons entry t)
  obtain k row where entry: "entry = (k, row)" by (cases entry)
  show ?case
  proof (cases "map_has row b \<and> map_has row a")
    case True
    with Cons.prems show ?thesis unfolding entry
      by (intro exI [of _ k] exI [of _ row]) auto
  next
    case False
    then have "FindIntermediateConversionRate t a b = Inr r"
      using Cons.prems by (auto simp: entry split: option.splits)
    from Cons.IH [OF this] obtain k' row' x y where
      "(k', row') \<in> set t" "map_of row' b = Some x" "map_of row' a = Some y" "r = x / y" by blast
    then show ?thesis by (intro exI [of _ k'] exI [of _ row'] exI [of _ x] exI [of _ y]) simp
  qed
qed simp

lemma FindIntermediate_Inl:
  "FindIntermediateConversionRate t a b = Inl e \<longleftrightarrow>
   e = ConversionNotFoundError a b \<and> (\<forall>(k, row) \<in> set t. \<not> (map_has row a \<and> map_has row b))"
proof (induction t)
  case (Cons entry t)
  obtain k row where "entry = (k, row)" by (cases entry)
  with Cons show ?case by (cases "map_of row a"; cases "map_of row b") auto
qed auto

text \<open>
  Priority of request rates: under the aggregate conversions, the custom rate is used whenever
  the custom table has one; the server rate is used exactly when the custom table reports that the
  pair is missing; and a missing pair is reported only if both tables miss it.
\<close>

theorem aggregate_prefers_custom:
  "GetRate p (AggregateConv c s) a b =
     (if \<exists>r. GetRate p c a b = Inr r then GetRate p c a b
      else if \<exists>x y. GetRate p c a b = Inl (ConversionNotFoundError x y) then GetRate p s a b
      else GetRate p c a b)"
  by (cases "GetRate p c a b"; cases "projl (GetRate p c a b)")
     (auto simp: AggregateConversions_GetRate_def)

text \<open>
  A quoted rate is justified by the table: whenever \<^verbatim>\<open>Rates.GetRate\<close> returns a rate for two different
  currencies, it is the direct entry, or else the reciprocal of the opposite entry, or else the quotient
  of two entries of one row; and if the table holds none of the three, the answer is the conversion-not-found
  error. This holds for every order in which the table is ranged over.
\<close>

theorem Rates_GetRate_justified:
  assumes "p a = Some u" and "p b = Some v" and "u \<noteq> v" and "Conversions r = Some t"
  shows "case Rates_GetRate p r a b of
      Inr q \<Rightarrow> table_entry t u v = Some q
        \<or> table_entry t u v = None \<and> (\<exists>c. table_entry t v u = Some c \<and> q = 1 / c)
        \<or> table_entry t u v = None \<and> table_entry t v u = None \<and>
          (\<exists>k row x y. (k, row) \<in> set t \<and> map_of row v = Some x \<and> map_of row u = Some y \<and> q = x / y)
    | Inl e \<Rightarrow> e = ConversionNotFoundError u v \<and> table_entry t u v = None \<and> table_entry t v u = None \<and>
        (\<forall>(k, row) \<in> set t. \<not> (map_has row u \<and> map_has row v))"
proof (cases "table_entry t u v")
  case (Some c)
  with assms show ?thesis by (simp add: Rates_GetRate_def)
next
  case None
  show ?thesis
  proof (cases "table_entry t v u")
    case (Some c)
    with None assms show ?thesis by (simp add: Rates_GetRate_def)
  next
    case None': None
    with None assms have eq: "Rates_GetRate p r a b = FindIntermediateConversionRate t u v"
      by (simp add: Rates_GetRate_def)
    show ?thesis
    proof (cases "FindIntermediateConversionRate t u v")
      case (Inl e)
      with FindIntermediate_Inl [of t u v e] show ?thesis by (simp add: eq None None')
    next
      case (Inr q)
      with FindIntermediate_Inr [of t u v q] show ?thesis by (simp add: eq None None')
    qed
  qed
qed

definition example_table :: conversion_table where
  "example_table = [(''USD'', [(''EUR'', Fin (1 / 2)), (''GBP'', Fin (1 / 4))])]"

theorem Rates_GetRate_justified_witness:
  "Rates_GetRate Some (NewRates (Some example_table)) ''GBP'' ''EUR'' = Inr (Fin 2) \<and>
   table_entry example_table ''GBP'' ''EUR'' = None \<and> table_entry example_table ''EUR'' ''GBP'' = None"
  using Rates_GetRate_justified [of Some "''GBP''" "''GBP''" "''EUR''" "''EUR''" "NewRates (Some example_table)" example_table]
  by (simp add: Rates_GetRate_def NewRates_def example_table_def table_entry_def)

section \<open>Properties of the converter\<close>

lemma update_threshold [simp]: "staleRatesThreshold (fst (update u out now rc)) = staleRatesThreshold rc"
  by (simp add: update_def clearRates_def split: sum.splits)

lemma update_success:
  "fetch u out = Inr r \<Longrightarrow> RateConverter_Rates (fst (update u out now rc)) = RatesConv r \<and>
     LastUpdated (fst (update u out now rc)) = Some now \<and> snd (update u out now rc) = None"
  by (simp add: update_def RateConverter_Rates_def LastUpdated_def)

lemma update_failure_keeps_time:
  "fetch u out = Inl e \<Longrightarrow> rc_lastUpdated (fst (update u out now rc)) = rc_lastUpdated rc"
  by (simp add: update_def clearRates_def)

definition fresh_at :: "int \<Rightarrow> RateConverter \<Rightarrow> bool" where
  "fresh_at now rc \<longleftrightarrow> (\<forall>r. rc_rates rc = Stored r \<longrightarrow>
     (\<exists>t. rc_lastUpdated rc = Some t \<and> (staleRatesThreshold rc > 0 \<longrightarrow> now - t \<le> staleRatesThreshold rc)))"

definition stored_has_time :: "RateConverter \<Rightarrow> bool" where
  "stored_has_time rc \<longleftrightarrow> (\<forall>r. rc_rates rc = Stored r \<longrightarrow> rc_lastUpdated rc \<noteq> None)"

lemma update_fresh: "stored_has_time rc \<Longrightarrow> fresh_at now (fst (update u out now rc))"
  by (auto simp: update_def fresh_at_def stored_has_time_def clearRates_def checkStaleRates_def
        split: sum.splits option.splits)

lemma update_stored_has_time: "stored_has_time rc \<Longrightarrow> stored_has_time (fst (update u out now rc))"
  by (auto simp: update_def stored_has_time_def clearRates_def split: sum.splits)

lemma run_stored_has_time:
  "converter_run u rc0 t rc \<Longrightarrow> stored_has_time rc0 \<Longrightarrow> stored_has_time rc"
  by (induction rule: converter_run.induct) (auto intro: update_stored_has_time)



text \<open>
  The contract of the interface holds for every table the auction can use: whatever the request and the
  converter provide, a rate between two spellings of one recognised currency is 1, an unrecognised code on
  either side is an error, and no rate is quoted for it.
\<close>

theorem auction_rates_contract:
  assumes "GetAuctionCurrencyRates rc rr = Some c"
  shows "(p a = Some u \<and> p b = Some u \<longrightarrow> GetRate p c a b = Inr 1) \<and>
         (p a = None \<or> p b = None \<longrightarrow> GetRate p c a b = Inl InvalidCurrency)"
  by (auto intro: conv.same_unit conv.invalid_from conv.invalid_to)

theorem auction_rates_contract_witness:
  "GetAuctionCurrencyRates (Some (NewRateConverter ''u'' 10))
     (Some \<lparr>ConversionRates = Some example_table, UsePBSRates = None\<rparr>) =
     Some (AggregateConv (RatesConv (NewRates (Some example_table))) ConstantConv) \<and>
   GetRate (\<lambda>c. if c = ''USD'' then Some c else None)
     (AggregateConv (RatesConv (NewRates (Some example_table))) ConstantConv) ''USD'' ''XX'' = Inl InvalidCurrency"
proof -
  have *: "GetAuctionCurrencyRates (Some (NewRateConverter ''u'' 10))
     (Some \<lparr>ConversionRates = Some example_table, UsePBSRates = None\<rparr>) =
     Some (AggregateConv (RatesConv (NewRates (Some example_table))) ConstantConv)"
    by (simp add: GetAuctionCurrencyRates_def example_table_def RateConverter_Rates_def NewRateConverter_def)
  show ?thesis using * auction_rates_contract [OF *, of "\<lambda>c. if c = ''USD'' then Some c else None"] by simp
qed

lemma validate_row_None: "validate_row p row = None \<longleftrightarrow> (\<forall>c \<in> fst ` set row. p c \<noteq> None)"
  by (induction row) (auto split: if_splits)

lemma validate_table_None:
  "validate_table p t = None \<longleftrightarrow> (\<forall>(c, row) \<in> set t. p c \<noteq> None \<and> (\<forall>d \<in> fst ` set row. p d \<noteq> None))"
proof (induction t)
  case (Cons entry t)
  obtain c row where "entry = (c, row)" by (cases entry)
  with Cons show ?case
    using validate_row_None [of p row]
    by (cases "p c"; cases "validate_row p row") auto
qed simp

lemma validate_table_Some: "validate_table p t = Some c \<Longrightarrow> p c = None"
proof (induction t)
  case (Cons e t)
  have "validate_row p row = Some c \<Longrightarrow> p c = None" for row
    by (induction row) (auto split: if_splits)
  with Cons show ?case by (cases e) (auto split: option.splits if_splits)
qed simp

text \<open>
  \<^verbatim>\<open>ValidateCustomRates\<close> accepts exactly the request rates all of whose codes parse, and an error always
  names a code that does not parse.
\<close>

theorem ValidateCustomRates_sound_complete:
  "(ValidateCustomRates p (Some rr) = None \<longleftrightarrow>
     (\<forall>(c, row) \<in> set (opt_or (ConversionRates rr) []). p c \<noteq> None \<and> (\<forall>d \<in> fst ` set row. p d \<noteq> None))) \<and>
   (\<forall>c. ValidateCustomRates p (Some rr) = Some c \<longrightarrow> p c = None)"
  using validate_table_Some by (auto simp: ValidateCustomRates_def validate_table_None)

theorem ValidateCustomRates_sound_complete_witness:
  "ValidateCustomRates (\<lambda>c. if c = ''USD'' then Some c else None)
     (Some \<lparr>ConversionRates = Some example_table, UsePBSRates = None\<rparr>) = Some ''EUR'' \<and>
   ValidateCustomRates Some (Some \<lparr>ConversionRates = Some example_table, UsePBSRates = None\<rparr>) = None"
  using ValidateCustomRates_sound_complete [of Some "\<lparr>ConversionRates = Some example_table, UsePBSRates = None\<rparr>"]
  by (simp add: ValidateCustomRates_def example_table_def)

end
