(* ===== verification/FloorRules.thy ===== *)
theory FloorRules
  imports Currency Entities Strconv
begin

text \<open>
  Price floor rules: the structures of \<^verbatim>\<open>openrtb_ext/floors.go\<close>, the rule keys and their search of
  \<^verbatim>\<open>floors/rule.go\<close> and the validation of \<^verbatim>\<open>floors/validate.go\<close>. A rule key has one value per schema
  field, joined by a delimiter; the search tries the exact values first and then replaces more and more fields
  by the wildcard. Integers that take part in shifts are 64-bit words.

  The request is modelled after its extensions have been decoded once: the wrappers cache the decoded objects,
  so \<^verbatim>\<open>GetRequestExt\<close> and \<^verbatim>\<open>GetImpExt\<close> return them without an error from then on.
\<close>

unbundle bit_operations_syntax

section \<open>Structures\<close>

record PriceFloorSchema =
  ps_Fields :: "string list"
  ps_Delimiter :: string

record PriceFloorModelGroup =
  mg_Currency :: string
  mg_ModelWeight :: "int option"
  mg_ModelVersion :: string
  mg_SkipRate :: int
  mg_Schema :: PriceFloorSchema
  mg_Values :: "(string, float64) gomap"
  mg_Default :: float64

record PriceFloorData =
  pd_Currency :: string
  pd_SkipRate :: int
  pd_FloorsSchemaVersion :: int
  pd_ModelTimestamp :: int
  pd_ModelGroups :: "PriceFloorModelGroup list"
  pd_FloorProvider :: string
  pd_UseFetchDataRate :: "int option"

record PriceFloorEnforcement =
  pe_EnforceJS :: "bool option"
  pe_EnforcePBS :: "bool option"
  pe_FloorDeals :: "bool option"
  pe_BidAdjustment :: "bool option"
  pe_EnforceRate :: int

record PriceFloorRules =
  pf_FloorMin :: float64
  pf_FloorMinCur :: string
  pf_SkipRate :: int
  pf_Location :: "string option"  \<comment> \<open>the URL of the endpoint\<close>
  pf_Data :: "PriceFloorData option"
  pf_Enforcement :: "PriceFloorEnforcement option"
  pf_Enabled :: "bool option"
  pf_Skipped :: "bool option"
  pf_FloorProvider :: string
  pf_FetchStatus :: string
  pf_PriceFloorLocation :: string

definition zero_PriceFloorEnforcement :: PriceFloorEnforcement where
  "zero_PriceFloorEnforcement = \<lparr>pe_EnforceJS = None, pe_EnforcePBS = None, pe_FloorDeals = None,
     pe_BidAdjustment = None, pe_EnforceRate = 0\<rparr>"

definition zero_PriceFloorRules :: PriceFloorRules where
  "zero_PriceFloorRules = \<lparr>pf_FloorMin = 0, pf_FloorMinCur = [], pf_SkipRate = 0, pf_Location = None, pf_Data = None,
     pf_Enforcement = None, pf_Enabled = None, pf_Skipped = None, pf_FloorProvider = [], pf_FetchStatus = [],
     pf_PriceFloorLocation = []\<rparr>"

definition GetEnforcePBS :: "PriceFloorRules option \<Rightarrow> bool" where
  "GetEnforcePBS f = opt_or (Option.bind (Option.bind f pf_Enforcement) pe_EnforcePBS) True"

definition GetFloorsSkippedFlag :: "PriceFloorRules option \<Rightarrow> bool" where
  "GetFloorsSkippedFlag f = opt_or (Option.bind f pf_Skipped) False"

definition GetEnforceRate :: "PriceFloorRules option \<Rightarrow> int" where
  "GetEnforceRate f = (case Option.bind f pf_Enforcement of Some e \<Rightarrow> pe_EnforceRate e | None \<Rightarrow> 0)"

definition GetEnforceDealsFlag :: "PriceFloorRules option \<Rightarrow> bool" where
  "GetEnforceDealsFlag f = opt_or (Option.bind (Option.bind f pf_Enforcement) pe_FloorDeals) False"

definition GetEnabled :: "PriceFloorRules option \<Rightarrow> bool" where
  "GetEnabled f = opt_or (Option.bind f pf_Enabled) True"

text \<open>Impressions and the parts of the request that floor rules look at.\<close>

record ExtImpPrebidFloors =
  xf_FloorRule :: string
  xf_FloorRuleValue :: float64
  xf_FloorValue :: float64
  xf_FloorMin :: float64
  xf_FloorMinCur :: string

record ExtImpPrebid =
  xp_StoredRequest :: "string option"  \<comment> \<open>the ID\<close>
  xp_Floors :: "ExtImpPrebidFloors option"

record ExtImpData =
  xd_PbAdslot :: string
  xd_AdServer :: "(string \<times> string) option"  \<comment> \<open>name and ad slot\<close>

record ImpBanner =
  ib_Format :: "(int \<times> int) list"
  ib_W :: "int option"
  ib_H :: "int option"

record ImpVideo =
  iv_Placement :: int
  iv_W :: "int option"
  iv_H :: "int option"

record FloorImp =
  fi_ID :: string
  fi_Banner :: "ImpBanner option"
  fi_Video :: "ImpVideo option"
  fi_Audio :: bool
  fi_Native :: bool
  fi_TagID :: string
  fi_BidFloor :: float64
  fi_BidFloorCur :: string
  fi_ExtPrebid :: "ExtImpPrebid option"
  fi_ExtData :: "ExtImpData option"
  fi_GpId :: string

record FloorSite =
  fs_Domain :: string
  fs_Publisher :: "string option"  \<comment> \<open>the domain\<close>

record FloorApp =
  fa_Domain :: string
  fa_Bundle :: string
  fa_Publisher :: "string option"

record FloorDevice =
  fd_UA :: string
  fd_GeoCountry :: "string option"

record FloorRequest =
  fr_Site :: "FloorSite option"
  fr_App :: "FloorApp option"
  fr_Device :: "FloorDevice option"
  fr_Channel :: "string option"
  fr_Floors :: "PriceFloorRules option"
  fr_Imp :: "FloorImp list"

section \<open>Minimum floor\<close>

definition defaultCurrency :: string where "defaultCurrency = ''USD''"
definition defaultDelimiter :: string where "defaultDelimiter = ''|''"
definition catchAll :: string where "catchAll = ''*''"

definition roundToFourDecimals :: "float64 \<Rightarrow> float64" where
  "roundToFourDecimals x = math_round (x * Fin 10000) / Fin 10000"

definition getFloorCurrency :: "PriceFloorRules option \<Rightarrow> string" where
  "getFloorCurrency floorExt =
     (case Option.bind floorExt pf_Data of
        None \<Rightarrow> defaultCurrency
      | Some d \<Rightarrow>
          let cur = (if pd_Currency d \<noteq> [] then pd_Currency d else defaultCurrency) in
          (case pd_ModelGroups d of
             g # _ \<Rightarrow> if mg_Currency g \<noteq> [] then mg_Currency g else cur
           | [] \<Rightarrow> cur))"

definition getFloorMinAndCurFromImp :: "FloorImp \<Rightarrow> float64 \<times> string" where
  "getFloorMinAndCurFromImp imp =
     (case Option.bind (fi_ExtPrebid imp) xp_Floors of
        None \<Rightarrow> (0, [])
      | Some f \<Rightarrow> (if 0 < xf_FloorMin f then xf_FloorMin f else 0, xf_FloorMinCur f))"

definition getMinFloorValue :: "PriceFloorRules \<Rightarrow> FloorImp \<Rightarrow> (string \<Rightarrow> string \<Rightarrow> rate_result) \<Rightarrow> rate_error + (float64 \<times> string)" where
  "getMinFloorValue floorExt imp getRate =
     (let (impFloorMin, impFloorCur) = getFloorMinAndCurFromImp imp;
          floorMin = (if 0 < impFloorMin then impFloorMin else roundToFourDecimals (pf_FloorMin floorExt));
          floorMinCur = (if impFloorCur \<noteq> [] then impFloorCur else pf_FloorMinCur floorExt);
          floorCur = getFloorCurrency (Some floorExt)
      in
        if 0 < floorMin \<and> floorMinCur \<noteq> [] \<and> floorCur \<noteq> [] \<and> floorMinCur \<noteq> floorCur then
          (case getRate floorMinCur floorCur of
             Inl e \<Rightarrow> Inl e
           | Inr rate \<Rightarrow> Inr (roundToFourDecimals (rate * floorMin), floorCur))
        else Inr (roundToFourDecimals floorMin, floorCur))"

definition updateImpExtWithFloorDetails :: "FloorImp \<Rightarrow> string \<Rightarrow> float64 \<Rightarrow> float64 \<Rightarrow> FloorImp" where
  "updateImpExtWithFloorDetails imp matchedRule floorRuleVal floorVal =
     imp\<lparr>fi_ExtPrebid := Some ((opt_or (fi_ExtPrebid imp) \<lparr>xp_StoredRequest = None, xp_Floors = None\<rparr>)
        \<lparr>xp_Floors := Some \<lparr>xf_FloorRule = matchedRule, xf_FloorRuleValue = floorRuleVal, xf_FloorValue = floorVal,
                            xf_FloorMin = 0, xf_FloorMinCur = []\<rparr>\<rparr>)\<rparr>"

section \<open>Model group and skip rate\<close>

definition weight_of :: "PriceFloorModelGroup \<Rightarrow> int" where
  "weight_of g = opt_or (mg_ModelWeight g) 1"

definition default_weight :: "PriceFloorModelGroup \<Rightarrow> PriceFloorModelGroup" where
  "default_weight g = g\<lparr>mg_ModelWeight := Some (weight_of g)\<rparr>"

fun pick_group :: "int \<Rightarrow> PriceFloorModelGroup list \<Rightarrow> PriceFloorModelGroup option" where
  "pick_group winWeight [] = None"
| "pick_group winWeight (g # gs) =
     (let winWeight = winWeight - weight_of g in if winWeight \<le> 0 then Some g else pick_group winWeight gs)"

text \<open>The slice of length one the function returns: the picked group, or the first when the loop ends without a pick.\<close>

definition selectFloorModelGroup :: "PriceFloorModelGroup list \<Rightarrow> (int \<Rightarrow> int) \<Rightarrow> PriceFloorModelGroup list" where
  "selectFloorModelGroup modelGroups f =
     (let groups = map default_weight modelGroups;
          totalModelWeight = sum_list (map weight_of groups);
          sorted = stable_sort (\<lambda>g h. weight_of g < weight_of h) groups
      in case pick_group (f (totalModelWeight + 1)) sorted of Some g \<Rightarrow> [g] | None \<Rightarrow> take 1 sorted)"

definition skipRateMin :: int where "skipRateMin = 0"
definition skipRateMax :: int where "skipRateMax = 100"
definition modelWeightMin :: int where "modelWeightMin = 1"
definition modelWeightMax :: int where "modelWeightMax = 100"

definition shouldSkipFloors :: "int \<Rightarrow> int \<Rightarrow> int \<Rightarrow> (int \<Rightarrow> int) \<Rightarrow> bool" where
  "shouldSkipFloors modelGroupsSkipRate dataSkipRate rootSkipRate f =
     (let skipRate = (if modelGroupsSkipRate > 0 then modelGroupsSkipRate
                      else if dataSkipRate > 0 then dataSkipRate else rootSkipRate)
      in if skipRate = 0 then False else skipRate \<ge> f (skipRateMax + 1))"

section \<open>Values of the schema fields\<close>

text \<open>Matching of the two regular expressions on user agents: substring search, ignoring case.\<close>

fun has_prefix :: "string \<Rightarrow> string \<Rightarrow> bool" where
  "has_prefix [] s = True"
| "has_prefix (p # ps) [] = False"
| "has_prefix (p # ps) (c # cs) = (p = c \<and> has_prefix ps cs)"

fun contains :: "string \<Rightarrow> string \<Rightarrow> bool" where
  "contains p [] = (p = [])"
| "contains p (c # cs) = (has_prefix p (c # cs) \<or> contains p cs)"

text \<open>The expression \<^verbatim>\<open>a.*b\<close>: the dot matches every character but a line feed.\<close>

fun contains_then :: "string \<Rightarrow> string \<Rightarrow> string \<Rightarrow> bool" where
  "contains_then a b [] = False"
| "contains_then a b (c # cs) =
     ((has_prefix a (c # cs) \<and> contains b (takeWhile (\<lambda>x. x \<noteq> CHR 0x0A) (drop (length a) (c # cs)))) \<or> contains_then a b cs)"

definition isMobileDevice :: "string \<Rightarrow> bool" where
  "isMobileDevice ua =
     (let s = ToLower ua in
      contains ''phone'' s \<or> contains ''iphone'' s \<or> contains_then ''android'' ''mobile'' s \<or> contains_then ''mobile'' ''android'' s)"

definition isTabletDevice :: "string \<Rightarrow> bool" where
  "isTabletDevice ua =
     (let s = ToLower ua in
      contains ''tablet'' s \<or> contains ''ipad'' s \<or> contains_then ''touch'' ''windows nt'' s \<or>
      contains_then ''windows nt'' ''touch'' s \<or> contains ''android'' s)"

definition getDeviceType :: "FloorRequest \<Rightarrow> string" where
  "getDeviceType request =
     (case fr_Device request of
        None \<Rightarrow> catchAll
      | Some d \<Rightarrow>
          if fd_UA d = [] then catchAll
          else if isMobileDevice (fd_UA d) then ''phone''
          else if isTabletDevice (fd_UA d) then ''tablet'' else ''desktop'')"

definition getDeviceCountry :: "FloorRequest \<Rightarrow> string" where
  "getDeviceCountry request = opt_or (Option.bind (fr_Device request) fd_GeoCountry) catchAll"

definition getMediaType :: "FloorImp \<Rightarrow> string" where
  "getMediaType imp =
     (let formats =
        (if fi_Banner imp \<noteq> None then [''banner''] else [])
        @ (case fi_Video imp of Some v \<Rightarrow> if iv_Placement v \<noteq> 1 then [''video-outstream''] else [] | None \<Rightarrow> [])
        @ (case fi_Video imp of Some v \<Rightarrow> if iv_Placement v = 1 then [''video''] else [] | None \<Rightarrow> [])
        @ (if fi_Audio imp then [''audio''] else [])
        @ (if fi_Native imp then [''native''] else [])
      in if length formats > 1 then catchAll else if formats = [] then catchAll else last formats)"

definition getBannerSize :: "ImpBanner \<Rightarrow> int \<times> int" where
  "getBannerSize b =
     (case ib_Format b of
        [f] \<Rightarrow> f
      | _ # _ # _ \<Rightarrow> (0, 0)
      | [] \<Rightarrow> (case (ib_W b, ib_H b) of (Some w, Some h) \<Rightarrow> (w, h) | _ \<Rightarrow> (0, 0)))"

definition getSizeValue :: "FloorImp \<Rightarrow> string" where
  "getSizeValue imp =
     (let (width, height) =
        (case fi_Banner imp of
           Some b \<Rightarrow> getBannerSize b
         | None \<Rightarrow> (case fi_Video imp of Some v \<Rightarrow> (opt_or (iv_W v) 0, opt_or (iv_H v) 0) | None \<Rightarrow> (0, 0)))
      in if width \<noteq> 0 \<and> height \<noteq> 0 then FormatInt width @ ''x'' @ FormatInt height else catchAll)"

definition getDomain :: "FloorRequest \<Rightarrow> string" where
  "getDomain request =
     (case fr_Site request of
        Some s \<Rightarrow>
          (if fs_Domain s \<noteq> [] then fs_Domain s
           else if opt_or (fs_Publisher s) [] \<noteq> [] then opt_or (fs_Publisher s) [] else catchAll)
      | None \<Rightarrow>
          (case fr_App request of
             Some a \<Rightarrow>
               (if fa_Domain a \<noteq> [] then fa_Domain a
                else if opt_or (fa_Publisher a) [] \<noteq> [] then opt_or (fa_Publisher a) [] else catchAll)
           | None \<Rightarrow> catchAll))"

definition nonempty_or :: "string \<Rightarrow> string \<Rightarrow> string" where
  "nonempty_or s d = (if s \<noteq> [] then s else d)"

definition getSiteDomain :: "FloorRequest \<Rightarrow> string" where
  "getSiteDomain request =
     nonempty_or (case fr_Site request of Some s \<Rightarrow> fs_Domain s | None \<Rightarrow> [])
       (nonempty_or (case fr_App request of Some a \<Rightarrow> fa_Domain a | None \<Rightarrow> []) catchAll)"

definition getPublisherDomain :: "FloorRequest \<Rightarrow> string" where
  "getPublisherDomain request =
     nonempty_or (opt_or (Option.bind (fr_Site request) fs_Publisher) [])
       (nonempty_or (opt_or (Option.bind (fr_App request) fa_Publisher) []) catchAll)"

definition getBundle :: "FloorRequest \<Rightarrow> string" where
  "getBundle request = nonempty_or (case fr_App request of Some a \<Rightarrow> fa_Bundle a | None \<Rightarrow> []) catchAll"

definition getGptSlot :: "FloorImp \<Rightarrow> string" where
  "getGptSlot imp =
     (case fi_ExtData imp of
        None \<Rightarrow> catchAll
      | Some d \<Rightarrow>
          (case xd_AdServer d of
             Some (name, adSlot) \<Rightarrow>
               if name = ''gam'' then nonempty_or adSlot catchAll else nonempty_or (xd_PbAdslot d) catchAll
           | None \<Rightarrow> nonempty_or (xd_PbAdslot d) catchAll))"

definition getChannelName :: "FloorRequest \<Rightarrow> string" where
  "getChannelName request = opt_or (fr_Channel request) catchAll"

definition getAdUnitCode :: "FloorImp \<Rightarrow> string" where
  "getAdUnitCode imp =
     nonempty_or (fi_GpId imp)
       (nonempty_or (fi_TagID imp)
         (nonempty_or (case fi_ExtData imp of Some d \<Rightarrow> xd_PbAdslot d | None \<Rightarrow> [])
           (nonempty_or (opt_or (Option.bind (fi_ExtPrebid imp) xp_StoredRequest) []) catchAll)))"

definition field_value :: "FloorRequest \<Rightarrow> FloorImp \<Rightarrow> string \<Rightarrow> string" where
  "field_value request imp field =
     (if field = ''mediaType'' then getMediaType imp
      else if field = ''size'' then getSizeValue imp
      else if field = ''domain'' then getDomain request
      else if field = ''siteDomain'' then getSiteDomain request
      else if field = ''bundle'' then getBundle request
      else if field = ''pubDomain'' then getPublisherDomain request
      else if field = ''country'' then getDeviceCountry request
      else if field = ''deviceType'' then getDeviceType request
      else if field = ''channel'' then getChannelName request
      else if field = ''gptSlot'' then getGptSlot imp
      else if field = ''adUnitCode'' then getAdUnitCode imp
      else catchAll)"

definition createRuleKey :: "PriceFloorSchema \<Rightarrow> FloorRequest \<Rightarrow> FloorImp \<Rightarrow> string list" where
  "createRuleKey floorSchema request imp = map (field_value request imp) (ps_Fields floorSchema)"

section \<open>Rule combinations\<close>

record ruleKeys =
  rk_keyMap :: "(string, bool) gomap"
  rk_keys :: "string list"
  rk_delimiter :: string

definition newFloorRuleKeys :: "string \<Rightarrow> ruleKeys" where
  "newFloorRuleKeys delimiter = \<lparr>rk_keyMap = [], rk_keys = [], rk_delimiter = delimiter\<rparr>"

fun join_key :: "string \<Rightarrow> string list \<Rightarrow> string" where
  "join_key d [] = []"
| "join_key d [s] = s"
| "join_key d (s # t # ss) = s @ d @ join_key d (t # ss)"

text \<open>\<open>None\<close>: the first element of an empty key is read.\<close>

definition appendRuleKey :: "string list \<Rightarrow> ruleKeys \<Rightarrow> ruleKeys option" where
  "appendRuleKey rawKey r =
     (if rawKey = [] then None
      else
        let key = join_key (rk_delimiter r) rawKey in
        Some (if map_has (rk_keyMap r) key then r
              else r\<lparr>rk_keyMap := map_put key True (rk_keyMap r), rk_keys := rk_keys r @ [key]\<rparr>))"

definition getAllRuleKeys :: "ruleKeys \<Rightarrow> string list" where
  "getAllRuleKeys r = rk_keys r"

text \<open>\<^verbatim>\<open>1 << k\<close> on a 64-bit integer: zero from 64 on.\<close>

definition shl1 :: "int \<Rightarrow> 64 word" where
  "shl1 k = (if k \<ge> 64 then 0 else push_bit (nat k) 1)"

fun OnesCount :: "nat \<Rightarrow> nat" where
  "OnesCount s = (if s = 0 then 0 else s mod 2 + OnesCount (s div 2))"

declare OnesCount.simps [simp del]

definition subset_of_bits :: "nat \<Rightarrow> nat \<Rightarrow> nat list" where
  "subset_of_bits n s = filter (\<lambda>object. (s div 2 ^ object) mod 2 = 1) [0..<n]"

definition generateCombinations :: "nat \<Rightarrow> nat \<Rightarrow> nat list list" where
  "generateCombinations numSchemaFields numWildCard =
     map (subset_of_bits numSchemaFields)
       (filter (\<lambda>s. OnesCount s = numWildCard) [1..<nat (sint (shl1 (int numSchemaFields)))])"

definition comb_weight :: "int \<Rightarrow> nat list \<Rightarrow> 64 word" where
  "comb_weight totalComb comb = sum_list (map (\<lambda>k. shl1 (totalComb - int k)) comb)"

definition sortCombinations :: "nat \<Rightarrow> nat list list \<Rightarrow> nat list list" where
  "sortCombinations numSchemaFields comb =
     (let totalComb = sint (shl1 (int numSchemaFields)) in
      stable_sort (\<lambda>c d. sint (comb_weight totalComb c) < sint (comb_weight totalComb d)) comb)"

definition mask_fields :: "string list \<Rightarrow> nat list \<Rightarrow> string list" where
  "mask_fields schemaFields comb = fold (\<lambda>j fs. fs[j := catchAll]) comb schemaFields"

fun append_combs :: "string list \<Rightarrow> nat list list \<Rightarrow> ruleKeys \<Rightarrow> ruleKeys option" where
  "append_combs schemaFields [] r = Some r"
| "append_combs schemaFields (c # cs) r = Option.bind (appendRuleKey (mask_fields schemaFields c) r) (append_combs schemaFields cs)"

fun append_levels :: "string list \<Rightarrow> nat list \<Rightarrow> ruleKeys \<Rightarrow> ruleKeys option" where
  "append_levels schemaFields [] r = Some r"
| "append_levels schemaFields (w # ws) r =
     Option.bind (append_combs schemaFields (sortCombinations (length schemaFields) (generateCombinations (length schemaFields) w)) r)
       (append_levels schemaFields ws)"

definition prepareRuleCombinations :: "string list \<Rightarrow> string \<Rightarrow> string list option" where
  "prepareRuleCombinations keys delimiter =
     (let schemaFields = map ToLower keys in
      map_option getAllRuleKeys
        (Option.bind (appendRuleKey schemaFields (newFloorRuleKeys delimiter)) (append_levels schemaFields [1..<length keys + 1])))"

definition findRule :: "(string, float64) gomap \<Rightarrow> string \<Rightarrow> string list \<Rightarrow> string option option" where
  "findRule ruleValues delimiter desiredRuleKey =
     map_option (List.find (\<lambda>k. map_has ruleValues k)) (prepareRuleCombinations desiredRuleKey delimiter)"

section \<open>Validation\<close>

definition validSchemaDimensions :: "string list" where
  "validSchemaDimensions = [''siteDomain'', ''pubDomain'', ''domain'', ''bundle'', ''channel'', ''mediaType'', ''size'',
     ''gptSlot'', ''adUnitCode'', ''country'', ''deviceType'']"

definition validateSchemaDimensions :: "string list \<Rightarrow> string option" where
  "validateSchemaDimensions flds = List.find (\<lambda>f. f \<notin> set validSchemaDimensions) flds"

text \<open>\<^verbatim>\<open>strings.Split\<close> by a separator that is not empty.\<close>

fun split_from :: "string \<Rightarrow> string \<Rightarrow> string \<Rightarrow> string list" where
  "split_from d cur [] = [cur]"
| "split_from d cur (c # cs) =
     (if d \<noteq> [] \<and> has_prefix d (c # cs) then cur # split_from d [] (drop (length d) (c # cs))
      else split_from d (cur @ [c]) cs)"

definition split_string :: "string \<Rightarrow> string \<Rightarrow> string list" where
  "split_string d s = split_from d [] s"

text \<open>
  The loop deletes and inserts entries of the map it ranges over. A key it inserts is in lower case already, so it does
  not matter whether the iteration visits it as well (for a delimiter without upper case letters).
\<close>

fun validate_rules :: "nat \<Rightarrow> string \<Rightarrow> (string, float64) gomap \<Rightarrow> (string, float64) gomap \<Rightarrow> (string, float64) gomap \<times> string list" where
  "validate_rules n delimiter [] m = (m, [])"
| "validate_rules n delimiter ((key, val) # rest) m =
     (if length (split_string delimiter key) \<noteq> n then
        (let (m', errs) = validate_rules n delimiter rest (map_del key m) in (m', key # errs))
      else if key \<noteq> ToLower key then validate_rules n delimiter rest (map_put (ToLower key) val (map_del key m))
      else validate_rules n delimiter rest m)"

definition validateFloorRulesAndLowerValidRuleKey :: "PriceFloorSchema \<Rightarrow> string \<Rightarrow> (string, float64) gomap \<Rightarrow> (string, float64) gomap \<times> string list" where
  "validateFloorRulesAndLowerValidRuleKey schema delimiter ruleValues =
     validate_rules (length (ps_Fields schema)) delimiter ruleValues ruleValues"

datatype floor_error =
  InvalidSchemaVersion int | InvalidDataSkipRate int | InvalidSkipRate int | InvalidFloorMin float64
| NoModelGroup | InvalidDimension string | TooManyFields string | TooManyRules string | ModelSkipRateRange string
| ModelWeightRange string | NegativeDefault string | InvalidRule string | FloorMinError rate_error
| EmptyRequest | FloorsDisabled

definition validateFloorParams :: "PriceFloorRules \<Rightarrow> floor_error option" where
  "validateFloorParams f =
     (let bad = (\<lambda>r. r < skipRateMin \<or> r > skipRateMax);
          e1 = (case pf_Data f of
                  Some d \<Rightarrow> if pd_FloorsSchemaVersion d \<noteq> 0 \<and> pd_FloorsSchemaVersion d \<noteq> 2
                            then Some (InvalidSchemaVersion (pd_FloorsSchemaVersion d))
                            else if bad (pd_SkipRate d) then Some (InvalidDataSkipRate (pd_SkipRate d)) else None
                | None \<Rightarrow> None)
      in case e1 of Some e \<Rightarrow> Some e
         | None \<Rightarrow> if bad (pf_SkipRate f) then Some (InvalidSkipRate (pf_SkipRate f))
                   else if pf_FloorMin f < 0 then Some (InvalidFloorMin (pf_FloorMin f)) else None)"

text \<open>The two limits are the account's \<^verbatim>\<open>MaxSchemaDims\<close> and \<^verbatim>\<open>MaxRule\<close>.\<close>

definition validate_group :: "int \<Rightarrow> int \<Rightarrow> PriceFloorModelGroup \<Rightarrow> floor_error option" where
  "validate_group maxSchemaDims maxRule g =
     (case validateSchemaDimensions (ps_Fields (mg_Schema g)) of
        Some f \<Rightarrow> Some (InvalidDimension f)
      | None \<Rightarrow>
          if maxSchemaDims > 0 \<and> int (length (ps_Fields (mg_Schema g))) > maxSchemaDims then Some (TooManyFields (mg_ModelVersion g))
          else if maxRule > 0 \<and> int (length (mg_Values g)) > maxRule then Some (TooManyRules (mg_ModelVersion g))
          else if mg_SkipRate g < skipRateMin \<or> mg_SkipRate g > skipRateMax then Some (ModelSkipRateRange (mg_ModelVersion g))
          else if (case mg_ModelWeight g of None \<Rightarrow> False | Some w \<Rightarrow> w < modelWeightMin \<or> w > modelWeightMax)
            then Some (ModelWeightRange (mg_ModelVersion g))
          else if mg_Default g < 0 then Some (NegativeDefault (mg_ModelVersion g))
          else None)"

definition selectValidFloorModelGroups :: "PriceFloorModelGroup list \<Rightarrow> int \<Rightarrow> int \<Rightarrow> PriceFloorModelGroup list \<times> floor_error list" where
  "selectValidFloorModelGroups modelGroups maxSchemaDims maxRule =
     (if modelGroups = [] then ([], [NoModelGroup])
      else (filter (\<lambda>g. validate_group maxSchemaDims maxRule g = None) modelGroups,
            List.map_filter (validate_group maxSchemaDims maxRule) modelGroups))"

section \<open>The order of the combinations\<close>

text \<open>The wildcard positions in the order in which the search tries them.\<close>

definition all_combs :: "nat \<Rightarrow> nat list list" where
  "all_combs n = [] # concat (map (\<lambda>w. sortCombinations n (generateCombinations n w)) [1..<n + 1])"

text \<open>
  The documented order: fewer wildcards first, and among equally many the one whose left-most fields are more exact.
\<close>

definition exactness :: "nat \<Rightarrow> nat list \<Rightarrow> bool list" where
  "exactness n c = map (\<lambda>i. i \<notin> set c) [0..<n]"

definition more_specific :: "nat \<Rightarrow> nat list \<Rightarrow> nat list \<Rightarrow> bool" where
  "more_specific n c d \<longleftrightarrow> length c < length d \<or> (length c = length d \<and> exactness n d < exactness n c)"

lemma OnesCount_0 [simp]: "OnesCount 0 = 0"
  by (simp add: OnesCount.simps)

lemma OnesCount_pos: "0 < s \<Longrightarrow> OnesCount s = s mod 2 + OnesCount (s div 2)"
  by (subst OnesCount.simps) simp

lemma subset_of_bits_bit: "subset_of_bits n s = filter (bit s) [0..<n]"
  unfolding subset_of_bits_def by (rule filter_cong) (simp_all add: bit_iff_odd odd_iff_mod_2_eq_one)

lemma filter_bit_Suc: "filter (bit (s::nat)) [0..<Suc n] = (if odd s then [0] else []) @ map Suc (filter (bit (s div 2)) [0..<n])"
proof -
  have "[0..<Suc n] = 0 # map Suc [0..<n]" by (simp only: upt_conv_Cons [OF zero_less_Suc] map_Suc_upt)
  moreover have "filter (bit s) (map Suc [0..<n]) = map Suc (filter (bit (s div 2)) [0..<n])"
    by (simp add: filter_map comp_def bit_Suc)
  ultimately show ?thesis by (simp add: bit_0 del: upt_Suc)
qed

lemma OnesCount_length: "s < 2 ^ n \<Longrightarrow> OnesCount s = length (filter (bit s) [0..<n])"
proof (induction n arbitrary: s)
  case (Suc n)
  then have "OnesCount (s div 2) = length (filter (bit (s div 2)) [0..<n])" by (simp add: less_mult_imp_div_less)
  moreover have "s mod 2 = of_bool (odd s)" by (simp add: odd_iff_mod_2_eq_one)
  ultimately show ?case
    by (cases "s = 0") (simp_all add: filter_bit_Suc OnesCount_pos del: upt_Suc)
qed simp

definition wild :: "nat \<Rightarrow> nat set \<Rightarrow> nat list" where
  "wild n S = filter (\<lambda>i. i \<in> S) [0..<n]"

lemma set_wild [simp]: "set (wild n S) = S \<inter> {0..<n}"
  by (auto simp: wild_def)

lemma wild_bits: "\<exists>s < 2 ^ n. filter (bit (s::nat)) [0..<n] = wild n S"
proof -
  let ?s = "horner_sum of_bool 2 (map (\<lambda>i. i \<in> S) [0..<n]) :: nat"
  have "?s < 2 ^ n" using horner_sum_of_bool_2_less [of "map (\<lambda>i. i \<in> S) [0..<n]", where ?'a = nat] by simp
  moreover have "filter (bit ?s) [0..<n] = wild n S"
    unfolding wild_def by (rule filter_cong) (auto simp: bit_horner_sum_bit_iff)
  ultimately show ?thesis by blast
qed

lemma bits_wild: "filter (bit (s::nat)) [0..<n] = wild n {i. bit s i}"
  by (simp add: wild_def)

lemma sint_word_of_int_64: "- (2 ^ 63) \<le> k \<Longrightarrow> k < 2 ^ 63 \<Longrightarrow> sint (word_of_int k :: 64 word) = k"
  using signed_take_bit_int_eq_self [of 63 k] by (simp add: sint_sbintrunc')

lemma shl1_word_of_int: "0 \<le> k \<Longrightarrow> k < 64 \<Longrightarrow> shl1 k = word_of_int (2 ^ nat k)"
  by (simp add: shl1_def push_bit_of_1)

lemma sint_shl1: "n \<le> 62 \<Longrightarrow> sint (shl1 (int n)) = 2 ^ n"
proof -
  assume "n \<le> 62"
  then have "(2::int) ^ n \<le> 2 ^ 62" by (intro power_increasing) auto
  then have "sint (word_of_int (2 ^ n) :: 64 word) = 2 ^ n" by (intro sint_word_of_int_64) (auto intro: order.trans [of _ 0])
  then show ?thesis using \<open>n \<le> 62\<close> by (simp add: shl1_word_of_int)
qed

lemma set_generate:
  assumes "n \<le> 62" and "0 < w"
  shows "set (generateCombinations n w) = {wild n S | S. length (wild n S) = w}"
proof -
  have rng: "nat (sint (shl1 (int n))) = 2 ^ n" using sint_shl1 [OF assms(1)] by (simp add: nat_power_eq)
  have L: "set (generateCombinations n w) = (\<lambda>s. filter (bit s) [0..<n]) ` {s \<in> {1..<2 ^ n}. OnesCount s = w}"
    unfolding generateCombinations_def rng by (simp add: subset_of_bits_bit)
  show ?thesis
  proof (intro set_eqI iffI)
    fix c
    assume "c \<in> set (generateCombinations n w)"
    then obtain s where "s < 2 ^ n" "OnesCount s = w" "c = filter (bit s) [0..<n]" unfolding L by auto
    then show "c \<in> {wild n S | S. length (wild n S) = w}" using OnesCount_length [of s n] bits_wild [of s n] by auto
  next
    fix c
    assume "c \<in> {wild n S | S. length (wild n S) = w}"
    then obtain S where S: "c = wild n S" "length (wild n S) = w" by auto
    obtain s :: nat where s: "s < 2 ^ n" "filter (bit s) [0..<n] = wild n S" using wild_bits by blast
    have "OnesCount s = w" using OnesCount_length [OF s(1)] s(2) S(2) by simp
    moreover from this have "s \<noteq> 0" using assms(2) by (metis OnesCount_0 less_irrefl)
    ultimately have "s \<in> {s \<in> {1..<2 ^ n}. OnesCount s = w}" using s by simp
    then show "c \<in> set (generateCombinations n w)" unfolding L using s S by (metis (no_types, lifting) image_eqI)
  qed
qed

text \<open>The integer a list of flags stands for, the left-most flag the heaviest, a wildcard counting one.\<close>

fun flags_val :: "bool list \<Rightarrow> int" where
  "flags_val [] = 0"
| "flags_val (b # bs) = (if b then 0 else 2 ^ length bs) + flags_val bs"

lemma flags_val_bounds: "0 \<le> flags_val bs \<and> flags_val bs < 2 ^ length bs"
  by (induction bs) auto

lemma flags_val_less: "length bs = length cs \<Longrightarrow> flags_val cs < flags_val bs \<longleftrightarrow> bs < cs"
proof (induction bs arbitrary: cs)
  case (Cons b bs)
  then obtain c cs' where cs: "cs = c # cs'" "length bs = length cs'" by (cases cs) auto
  show ?case using Cons.IH [OF cs(2)] flags_val_bounds [of bs] flags_val_bounds [of cs'] cs
    by (cases b; cases c) (auto simp: less_bool_def)
qed simp

lemma flags_val_upt:
  "flags_val (map (\<lambda>i. i \<notin> S) [a..<n]) = (\<Sum>i\<leftarrow>filter (\<lambda>i. i \<in> S) [a..<n]. 2 ^ (n - 1 - i))"
proof (induction "n - a" arbitrary: a)
  case (Suc k)
  then have a: "a < n" "k = n - Suc a" by simp_all
  have "[a..<n] = a # [Suc a..<n]" using a by (simp add: upt_conv_Cons)
  then show ?case using Suc.hyps(1) [OF a(2)] a by simp
qed simp

lemma exactness_wild: "exactness n (wild n S) = map (\<lambda>i. i \<notin> S) [0..<n]"
  by (simp add: exactness_def)

lemma sum_pow_bound: "length c \<le> 5 \<Longrightarrow> (\<And>k. k \<in> set c \<Longrightarrow> e k \<le> 32) \<Longrightarrow>
  0 \<le> (\<Sum>k\<leftarrow>c. (2::int) ^ e k) \<and> (\<Sum>k\<leftarrow>c. (2::int) ^ e k) \<le> 5 * 2 ^ 32"
proof -
  have "0 \<le> (\<Sum>k\<leftarrow>c. (2::int) ^ e k) \<and> (\<Sum>k\<leftarrow>c. (2::int) ^ e k) \<le> int (length c) * 2 ^ 32"
    if "\<And>k. k \<in> set c \<Longrightarrow> e k \<le> 32"
    using that
  proof (induction c)
    case (Cons k c)
    have "(2::int) ^ e k \<le> 2 ^ 32" using Cons.prems [of k] by (intro power_increasing) auto
    moreover have "0 \<le> (\<Sum>k\<leftarrow>c. (2::int) ^ e k) \<and> (\<Sum>k\<leftarrow>c. (2::int) ^ e k) \<le> int (length c) * 2 ^ 32"
      using Cons by simp
    moreover have "(0::int) \<le> 2 ^ e k" by simp
    ultimately show ?case by (simp add: algebra_simps)
  qed simp
  moreover assume len: "length c \<le> 5" and "\<And>k. k \<in> set c \<Longrightarrow> e k \<le> 32"
  moreover from len have "int (length c) * 2 ^ 32 \<le> 5 * 2 ^ 32" by simp
  ultimately show ?thesis by (meson order.trans)
qed

lemma comb_weight_int:
  "(\<And>k. k \<in> set c \<Longrightarrow> 0 \<le> M - int k \<and> M - int k < 64) \<Longrightarrow>
   comb_weight M c = word_of_int (\<Sum>k\<leftarrow>c. 2 ^ nat (M - int k))"
  by (induction c) (auto simp: comb_weight_def shl1_word_of_int)

text \<open>Up to five schema fields no shift overflows, and the weight is the value of the flags times a power of two.\<close>

lemma weight_flags:
  assumes "n \<le> 5"
  shows "sint (comb_weight (2 ^ n) (wild n S)) = 2 ^ (2 ^ n + 1 - n) * flags_val (exactness n (wild n S))"
proof -
  have n: "n < 2 ^ n" "(2::nat) ^ n \<le> 32" using power_increasing [OF assms, of "2::nat"] by (simp_all add: less_exp)
  have M: "0 \<le> (2::int) ^ n - int k \<and> (2::int) ^ n - int k < 64 \<and> nat ((2::int) ^ n - int k) \<le> 32" if "k < n" for k
  proof -
    have "int k < 2 ^ n" using that n by (metis of_nat_less_of_nat_power_cancel_iff of_nat_numeral order.strict_trans of_nat_less_numeral_power_cancel_iff)
    moreover have "(2::int) ^ n \<le> 32" using n(2) by (metis of_nat_le_numeral_power_cancel_iff of_nat_numeral of_nat_power of_nat_le_iff)
    ultimately show ?thesis by simp
  qed
  have k: "k < n" if "k \<in> set (wild n S)" for k using that by simp
  have "length (wild n S) \<le> 5" using assms length_filter_le [of "\<lambda>i. i \<in> S" "[0..<n]"] by (simp add: wild_def)
  then have "0 \<le> (\<Sum>k\<leftarrow>wild n S. (2::int) ^ nat (2 ^ n - int k)) \<and> (\<Sum>k\<leftarrow>wild n S. (2::int) ^ nat (2 ^ n - int k)) \<le> 5 * 2 ^ 32"
    by (rule sum_pow_bound) (use M k in auto)
  then have "sint (comb_weight (2 ^ n) (wild n S)) = (\<Sum>k\<leftarrow>wild n S. 2 ^ nat (2 ^ n - int k))"
    using M k by (subst comb_weight_int) (auto intro!: sint_word_of_int_64)
  also have "\<dots> = (\<Sum>k\<leftarrow>wild n S. 2 ^ (2 ^ n + 1 - n) * 2 ^ (n - 1 - k))"
  proof (intro arg_cong [where f = sum_list] map_cong refl)
    fix k
    assume "k \<in> set (wild n S)"
    then have "k < n" by (rule k)
    then have "2 ^ n - k = 2 ^ n + 1 - n + (n - 1 - k)" using n(1) by linarith
    then have "nat (2 ^ n - int k) = 2 ^ n + 1 - n + (n - 1 - k)" by (simp add: nat_diff_distrib' nat_power_eq)
    then show "(2::int) ^ nat (2 ^ n - int k) = 2 ^ (2 ^ n + 1 - n) * 2 ^ (n - 1 - k)" by (simp add: power_add)
  qed
  also have "\<dots> = 2 ^ (2 ^ n + 1 - n) * flags_val (exactness n (wild n S))"
    unfolding exactness_wild flags_val_upt by (simp add: sum_list_const_mult wild_def)
  finally show ?thesis .
qed

lemma weight_order:
  assumes "n \<le> 5"
  shows "sint (comb_weight (2 ^ n) (wild n S)) < sint (comb_weight (2 ^ n) (wild n T)) \<longleftrightarrow>
    exactness n (wild n T) < exactness n (wild n S)"
  using flags_val_less [of "exactness n (wild n T)" "exactness n (wild n S)"]
  by (simp add: weight_flags [OF assms] exactness_def)

lemma exactness_inj: "exactness n (wild n S) = exactness n (wild n T) \<Longrightarrow> wild n S = wild n T"
proof -
  assume "exactness n (wild n S) = exactness n (wild n T)"
  then have "\<forall>i \<in> {0..<n}. i \<in> S \<longleftrightarrow> i \<in> T" by (auto simp: exactness_wild)
  then show ?thesis unfolding wild_def by (intro filter_cong) auto
qed

lemma sorted_level:
  assumes n: "n \<le> 5" and w: "0 < w"
  shows "sorted_wrt (\<lambda>c d. c = d \<or> more_specific n c d) (sortCombinations n (generateCombinations n w))"
    and "set (sortCombinations n (generateCombinations n w)) = {wild n S | S. length (wild n S) = w}"
proof -
  let ?lt = "\<lambda>c d. sint (comb_weight (2 ^ n) c) < sint (comb_weight (2 ^ n) d)"
  have M: "sint (shl1 (int n)) = 2 ^ n" using n by (intro sint_shl1) simp
  have gen: "set (generateCombinations n w) = {wild n S | S. length (wild n S) = w}" using n w by (intro set_generate) auto
  then show "set (sortCombinations n (generateCombinations n w)) = {wild n S | S. length (wild n S) = w}"
    by (simp add: sortCombinations_def Let_def)
  have "strict_weak_on (set (generateCombinations n w)) ?lt" by (auto simp: strict_weak_on_def)
  then have sorted: "sorted_wrt (\<lambda>c d. \<not> ?lt d c) (sortCombinations n (generateCombinations n w))"
    unfolding sortCombinations_def M Let_def by (rule sorted_stable_sort)
  show "sorted_wrt (\<lambda>c d. c = d \<or> more_specific n c d) (sortCombinations n (generateCombinations n w))"
  proof (rule sorted_wrt_mono_rel [OF _ sorted])
    fix c d
    assume "c \<in> set (sortCombinations n (generateCombinations n w))" "d \<in> set (sortCombinations n (generateCombinations n w))"
      and le: "\<not> ?lt d c"
    then obtain S T where c: "c = wild n S" "length (wild n S) = w" and d: "d = wild n T" "length (wild n T) = w"
      using gen by (auto simp: sortCombinations_def Let_def)
    with le have "\<not> exactness n c < exactness n d" using weight_order [OF n, of T S] by simp
    then have "exactness n d < exactness n c \<or> exactness n c = exactness n d" by auto
    then show "c = d \<or> more_specific n c d" using c d exactness_inj [of n S T] by (auto simp: more_specific_def)
  qed
qed

text \<open>The search order for up to five fields: every set of wildcards is tried, a more specific one earlier.\<close>

lemma all_combs_sorted:
  assumes n: "n \<le> 5"
  shows "sorted_wrt (\<lambda>c d. c = d \<or> more_specific n c d) (all_combs n)"
proof -
  let ?lv = "\<lambda>w. sortCombinations n (generateCombinations n w)"
  have len: "length c = w" if "c \<in> set (?lv w)" "0 < w" for c w using sorted_level(2) [OF n that(2)] that(1) by auto
  have "sorted_wrt (\<lambda>c d. c = d \<or> more_specific n c d) (concat (map ?lv [1..<k]))" for k
  proof (induction k)
    case (Suc k)
    show ?case
    proof (cases "k = 0")
      case False
      have before: "length c < k" if "c \<in> set (concat (map ?lv [1..<k]))" for c using that len by fastforce
      have "c = d \<or> more_specific n c d" if "c \<in> set (concat (map ?lv [1..<k]))" "d \<in> set (?lv k)" for c d
        using before [OF that(1)] len [OF that(2)] False by (simp add: more_specific_def)
      then show ?thesis using Suc.IH sorted_level(1) [OF n, of k] False by (simp add: sorted_wrt_append)
    qed simp
  qed simp
  moreover have "0 < length c" if "c \<in> set (concat (map ?lv [1..<n + 1]))" for c using that len by fastforce
  ultimately show ?thesis unfolding all_combs_def by (simp add: more_specific_def del: upt_Suc)
qed

lemma all_combs_complete:
  assumes n: "n \<le> 5"
  shows "set (all_combs n) = {wild n S | S. True}"
proof (intro set_eqI iffI)
  fix c
  assume "c \<in> set (all_combs n)"
  moreover have "[] = wild n {}" by (simp add: wild_def)
  ultimately show "c \<in> {wild n S | S. True}" using sorted_level(2) [OF n] by (fastforce simp: all_combs_def)
next
  fix c
  assume "c \<in> {wild n S | S. True}"
  then obtain S where S: "c = wild n S" by blast
  have le: "length c \<le> n" using length_filter_le [of "\<lambda>i. i \<in> S" "[0..<n]"] by (simp add: S wild_def)
  show "c \<in> set (all_combs n)"
  proof (cases "c = []")
    case False
    then have "c \<in> set (sortCombinations n (generateCombinations n (length c)))"
      using sorted_level(2) [OF n, of "length c"] S by auto
    moreover have "length c \<in> {1..<n + 1}" using False le by (cases c) auto
    ultimately show ?thesis unfolding all_combs_def by (auto simp del: upt_Suc)
  qed (simp add: all_combs_def)
qed

section \<open>Searching a rule\<close>

definition rule_key :: "string \<Rightarrow> string list \<Rightarrow> nat list \<Rightarrow> string" where
  "rule_key d key c = join_key d (mask_fields (map ToLower key) c)"

text \<open>The set of keys and the list of keys of the builder agree.\<close>

definition keys_ok :: "ruleKeys \<Rightarrow> bool" where
  "keys_ok r \<longleftrightarrow> dom (map_of (rk_keyMap r)) = set (rk_keys r)"

lemma find_append: "List.find P (xs @ ys) = (case List.find P xs of None \<Rightarrow> List.find P ys | Some x \<Rightarrow> Some x)"
  by (induction xs) auto

lemma find_append_cong: "List.find P xs = List.find P xs' \<Longrightarrow> List.find P (xs @ ys) = List.find P (xs' @ ys)"
  by (simp add: find_append)

lemma length_mask_fields [simp]: "length (mask_fields fs c) = length fs"
  by (induction c arbitrary: fs) (simp_all add: mask_fields_def)

lemma appendRuleKey_find:
  assumes "keys_ok r" and "raw \<noteq> []"
  obtains r' where "appendRuleKey raw r = Some r'" "keys_ok r'" "rk_delimiter r' = rk_delimiter r"
    "\<And>P. List.find P (rk_keys r') = List.find P (rk_keys r @ [join_key (rk_delimiter r) raw])"
proof (cases "map_has (rk_keyMap r) (join_key (rk_delimiter r) raw)")
  case True
  then have "join_key (rk_delimiter r) raw \<in> set (rk_keys r)" using assms(1) by (auto simp: keys_ok_def)
  then have "List.find P (rk_keys r) = List.find P (rk_keys r @ [join_key (rk_delimiter r) raw])" for P
    by (auto simp: find_append find_None_iff split: option.splits)
  with True that [of r] assms show thesis by (simp add: appendRuleKey_def Let_def)
next
  case False
  let ?k = "join_key (rk_delimiter r) raw"
  show thesis
    by (rule that [of "r\<lparr>rk_keyMap := map_put ?k True (rk_keyMap r), rk_keys := rk_keys r @ [?k]\<rparr>"])
       (use False assms in \<open>auto simp: appendRuleKey_def keys_ok_def Let_def\<close>)
qed

lemma append_combs_find:
  assumes "keys_ok r" and "fs \<noteq> []"
  shows "\<exists>r'. append_combs fs cs r = Some r' \<and> keys_ok r' \<and> rk_delimiter r' = rk_delimiter r \<and>
    (\<forall>P. List.find P (rk_keys r') = List.find P (rk_keys r @ map (\<lambda>c. join_key (rk_delimiter r) (mask_fields fs c)) cs))"
  using assms(1)
proof (induction cs arbitrary: r)
  case (Cons c cs)
  have "mask_fields fs c \<noteq> []" using assms(2) by (metis length_0_conv length_mask_fields)
  from appendRuleKey_find [OF Cons.prems this] obtain r1 where r1: "appendRuleKey (mask_fields fs c) r = Some r1" "keys_ok r1"
    "rk_delimiter r1 = rk_delimiter r"
    "\<And>P. List.find P (rk_keys r1) = List.find P (rk_keys r @ [join_key (rk_delimiter r) (mask_fields fs c)])" by metis
  from Cons.IH [OF r1(2)] obtain r' where r': "append_combs fs cs r1 = Some r'" "keys_ok r'" "rk_delimiter r' = rk_delimiter r1"
    "\<forall>P. List.find P (rk_keys r') = List.find P (rk_keys r1 @ map (\<lambda>c. join_key (rk_delimiter r1) (mask_fields fs c)) cs)"
    by blast
  have "List.find P (rk_keys r') = List.find P (rk_keys r @ map (\<lambda>c. join_key (rk_delimiter r) (mask_fields fs c)) (c # cs))" for P
    using r'(4) r1(3) find_append_cong [OF r1(4)] by simp
  with r1 r' show ?case by simp
qed simp

lemma append_levels_find:
  assumes "keys_ok r" and "fs \<noteq> []"
  shows "\<exists>r'. append_levels fs ws r = Some r' \<and>
    (\<forall>P. List.find P (rk_keys r') = List.find P (rk_keys r @ map (\<lambda>c. join_key (rk_delimiter r) (mask_fields fs c))
       (concat (map (\<lambda>w. sortCombinations (length fs) (generateCombinations (length fs) w)) ws))))"
  using assms(1)
proof (induction ws arbitrary: r)
  case (Cons w ws)
  let ?cs = "sortCombinations (length fs) (generateCombinations (length fs) w)"
  from append_combs_find [OF Cons.prems assms(2), of ?cs] obtain r1 where r1: "append_combs fs ?cs r = Some r1" "keys_ok r1"
    "rk_delimiter r1 = rk_delimiter r"
    "\<forall>P. List.find P (rk_keys r1) = List.find P (rk_keys r @ map (\<lambda>c. join_key (rk_delimiter r) (mask_fields fs c)) ?cs)" by blast
  from Cons.IH [OF r1(2)] obtain r' where r': "append_levels fs ws r1 = Some r'"
    "\<forall>P. List.find P (rk_keys r') = List.find P (rk_keys r1 @ map (\<lambda>c. join_key (rk_delimiter r1) (mask_fields fs c))
       (concat (map (\<lambda>w. sortCombinations (length fs) (generateCombinations (length fs) w)) ws)))" by blast
  have "List.find P (rk_keys r') = List.find P (rk_keys r @ map (\<lambda>c. join_key (rk_delimiter r) (mask_fields fs c))
       (concat (map (\<lambda>w. sortCombinations (length fs) (generateCombinations (length fs) w)) (w # ws))))" for P
    using r'(2) r1(3) find_append_cong [OF r1(4) [rule_format]] by simp
  with r1 r' show ?case by simp
qed simp

lemma findRule_find:
  assumes "key \<noteq> []"
  shows "findRule vals d key = Some (List.find (map_has vals) (map (rule_key d key) (all_combs (length key))))"
proof -
  let ?fs = "map ToLower key"
  have fs: "?fs \<noteq> []" using assms by simp
  have "keys_ok (newFloorRuleKeys d)" by (simp add: keys_ok_def newFloorRuleKeys_def)
  from appendRuleKey_find [OF this fs] obtain r1 where r1: "appendRuleKey ?fs (newFloorRuleKeys d) = Some r1" "keys_ok r1"
    "rk_delimiter r1 = d" "\<And>P. List.find P (rk_keys r1) = List.find P [join_key d ?fs]"
    by (metis (no_types, lifting) append_Nil newFloorRuleKeys_def ruleKeys.select_convs(2,3))
  let ?rest = "concat (map (\<lambda>w. sortCombinations (length key) (generateCombinations (length key) w)) [1..<length key + 1])"
  from append_levels_find [OF r1(2) fs, of "[1..<length key + 1]"] obtain r' where
    r': "append_levels ?fs [1..<length key + 1] r1 = Some r'"
    "\<forall>P. List.find P (rk_keys r') = List.find P (rk_keys r1 @ map (\<lambda>c. join_key d (mask_fields ?fs c)) ?rest)"
    using r1(3) by auto
  have keys: "map (rule_key d key) (all_combs (length key)) = [join_key d ?fs] @ map (\<lambda>c. join_key d (mask_fields ?fs c)) ?rest"
    by (simp add: all_combs_def rule_key_def mask_fields_def del: upt_Suc)
  have "List.find P (rk_keys r') = List.find P (map (rule_key d key) (all_combs (length key)))" for P
    unfolding keys using r'(2) find_append_cong [OF r1(4)] by simp
  then show ?thesis using r1(1) r'(1)
    by (simp add: findRule_def prepareRuleCombinations_def getAllRuleKeys_def Let_def del: upt_Suc)
qed

text \<open>
  C31. Rule selection: for a schema of one to five fields \<^verbatim>\<open>findRule\<close> returns. It finds a rule exactly when some set
  of wildcards makes the request's key a key of the table, and the rule it returns is the most specific one: every
  other match has more wildcards, or as many but with the left-most differing field less exact.
\<close>

theorem findRule_most_specific:
  assumes "key \<noteq> []" and n: "length key \<le> 5"
  shows "\<exists>r. findRule vals d key = Some r \<and>
    (case r of
       None \<Rightarrow> \<forall>S. map_of vals (rule_key d key (wild (length key) S)) = None
     | Some k \<Rightarrow> map_of vals k \<noteq> None \<and>
         (\<exists>S. k = rule_key d key (wild (length key) S) \<and>
            (\<forall>T. map_of vals (rule_key d key (wild (length key) T)) \<noteq> None \<longrightarrow>
               wild (length key) T = wild (length key) S \<or> more_specific (length key) (wild (length key) S) (wild (length key) T))))"
proof (cases "List.find (map_has vals) (map (rule_key d key) (all_combs (length key)))")
  case None
  then have "\<forall>S. map_of vals (rule_key d key (wild (length key) S)) = None"
    using all_combs_complete [OF n] by (auto simp: find_None_iff)
  with None findRule_find [OF assms(1), of vals d] show ?thesis by simp
next
  case (Some k)
  let ?n = "length key" and ?cs = "all_combs (length key)"
  from Some obtain i where i: "i < length ?cs" "k = rule_key d key (?cs ! i)" "map_has vals k"
    and first: "\<And>j. j < i \<Longrightarrow> \<not> map_has vals (rule_key d key (?cs ! j))"
    by (auto simp: find_Some_iff)
  obtain S where S: "?cs ! i = wild ?n S" using all_combs_complete [OF n] nth_mem [OF i(1)] by auto
  have "wild ?n T = wild ?n S \<or> more_specific ?n (wild ?n S) (wild ?n T)"
    if T: "map_of vals (rule_key d key (wild ?n T)) \<noteq> None" for T
  proof -
    have "wild ?n T \<in> set ?cs" using all_combs_complete [OF n] by auto
    then obtain j where j: "j < length ?cs" "?cs ! j = wild ?n T" by (auto simp: in_set_conv_nth)
    consider "j < i" | "j = i" | "i < j" by linarith
    then show ?thesis
    proof cases
      case 1
      then show ?thesis using first [OF 1] T j by simp
    next
      case 3
      then show ?thesis using sorted_wrt_nth_less [OF all_combs_sorted [OF n] 3 j(1)] j S by auto
    qed (use j S in simp)
  qed
  then show ?thesis using findRule_find [OF assms(1), of vals d] Some i S by auto
qed

theorem findRule_most_specific_witness:
  "\<exists>r. findRule [(''banner|*'', Fin 1), (''*|gam'', Fin 2)] ''|'' [''Banner'', ''slot''] = Some r \<and>
    (case r of
       None \<Rightarrow> \<forall>S. map_of [(''banner|*'', Fin 1), (''*|gam'', Fin 2)]
                 (rule_key ''|'' [''Banner'', ''slot''] (wild (length [''Banner'', ''slot'']) S)) = None
     | Some k \<Rightarrow> map_of [(''banner|*'', Fin 1), (''*|gam'', Fin 2)] k \<noteq> None \<and>
         (\<exists>S. k = rule_key ''|'' [''Banner'', ''slot''] (wild (length [''Banner'', ''slot'']) S) \<and>
            (\<forall>T. map_of [(''banner|*'', Fin 1), (''*|gam'', Fin 2)]
                 (rule_key ''|'' [''Banner'', ''slot''] (wild (length [''Banner'', ''slot'']) T)) \<noteq> None \<longrightarrow>
               wild (length [''Banner'', ''slot'']) T = wild (length [''Banner'', ''slot'']) S \<or>
               more_specific (length [''Banner'', ''slot'']) (wild (length [''Banner'', ''slot'']) S)
                 (wild (length [''Banner'', ''slot'']) T))))"
  by (rule findRule_most_specific) simp_all

text \<open>With six fields the weights of the first two positions overflow: the shift counts are 64 and 63.\<close>

lemma generate_6_1: "generateCombinations 6 1 = [[0], [1], [2], [3], [4], [5]]"
proof -
  have upt: "[Suc 0..<64] = Suc 0 # [2..<64]" "[0..<6::nat] = 0 # Suc 0 # [2..<6]"
    by (simp_all add: upt_conv_Cons numeral_2_eq_2 [symmetric])
  have "OnesCount (Suc 0) = Suc 0" by (simp add: OnesCount_pos)
  then show ?thesis by (simp add: generateCombinations_def shl1_def upt subset_of_bits_def OnesCount_pos)
qed

lemma sort_6_1: "sortCombinations 6 [[0], [1], [2], [3], [4], [5]] = [[1], [0], [5], [4], [3], [2]]"
proof -
  have "sint (shl1 6) = 64" by (simp add: shl1_def)
  then show ?thesis by (simp add: sortCombinations_def stable_sort_def comb_weight_def shl1_def)
qed

text \<open>
  Rule selection is wrong for six schema fields (accounts may allow up to 20): the search weights are computed with
  shifts of 63 and more bits in 64-bit integers. With one rule that leaves the last field open and one that leaves
  the second field open, the documented order prefers the first rule, but \<^verbatim>\<open>findRule\<close> returns the second.
\<close>

theorem findRule_overflow:
  "findRule [(''a|b|c|d|e|*'', Fin 1), (''a|*|c|d|e|f'', Fin 2)] ''|'' [''a'', ''b'', ''c'', ''d'', ''e'', ''f'']
     = Some (Some ''a|*|c|d|e|f'')
   \<and> rule_key ''|'' [''a'', ''b'', ''c'', ''d'', ''e'', ''f''] (wild 6 {1}) = ''a|*|c|d|e|f''
   \<and> rule_key ''|'' [''a'', ''b'', ''c'', ''d'', ''e'', ''f''] (wild 6 {5}) = ''a|b|c|d|e|*''
   \<and> more_specific 6 (wild 6 {5}) (wild 6 {1})"
proof -
  have low: "map ToLower [''a'', ''b'', ''c'', ''d'', ''e'', ''f''] = [''a'', ''b'', ''c'', ''d'', ''e'', ''f'']" by code_simp
  have key: "rule_key ''|'' [''a'', ''b'', ''c'', ''d'', ''e'', ''f''] [] = ''a|b|c|d|e|f''"
    "rule_key ''|'' [''a'', ''b'', ''c'', ''d'', ''e'', ''f''] [1] = ''a|*|c|d|e|f''"
    "rule_key ''|'' [''a'', ''b'', ''c'', ''d'', ''e'', ''f''] [5] = ''a|b|c|d|e|*''"
    unfolding rule_key_def low by (simp_all add: mask_fields_def catchAll_def)
  have wilds: "wild 6 {1} = [1]" "wild 6 {5} = [5]" by (simp_all add: wild_def upt_rec)
  have combs: "all_combs 6 = [] # [1] # ([0] # [5] # [4] # [3] # [2] #
      concat (map (\<lambda>w. sortCombinations 6 (generateCombinations 6 w)) [2..<7]))"
  proof -
    have "[1..<7::nat] = 1 # [2..<7]" by (simp add: upt_conv_Cons numeral_2_eq_2 [symmetric])
    then show ?thesis using generate_6_1 sort_6_1 by (simp add: all_combs_def)
  qed
  have less: "exactness 6 [1] < exactness 6 [5]" by (simp add: exactness_def upt_rec less_bool_def)
  let ?K = "[''a'', ''b'', ''c'', ''d'', ''e'', ''f'']" and ?V = "[(''a|b|c|d|e|*'', Fin 1), (''a|*|c|d|e|f'', Fin 2)]"
  have len: "length ?K = 6" by simp
  have "findRule ?V ''|'' ?K = Some (List.find (map_has ?V) (map (rule_key ''|'' ?K) (all_combs 6)))"
    using findRule_find [of ?K ?V "''|''"] unfolding len by simp
  also have "\<dots> = Some (Some ''a|*|c|d|e|f'')"
    unfolding combs by (simp add: key del: One_nat_def)
  finally show ?thesis using less key by (simp add: wilds more_specific_def del: One_nat_def)
qed

section \<open>Validated rules\<close>

definition letter_free :: "string \<Rightarrow> bool" where
  "letter_free d \<longleftrightarrow> d \<noteq> [] \<and> (\<forall>c \<in> set d. \<forall>x. to_lower x = c \<longleftrightarrow> x = c)"

lemma has_prefix_lower:
  "(\<forall>c \<in> set d. \<forall>x. to_lower x = c \<longleftrightarrow> x = c) \<Longrightarrow> has_prefix d (map to_lower s) = has_prefix d s"
proof (induction d s rule: has_prefix.induct)
  case (3 p ps c cs)
  then have "p = to_lower c \<longleftrightarrow> p = c" by (metis list.set_intros(1))
  with 3 show ?case by simp
qed simp_all

lemma length_split_lower:
  "letter_free d \<Longrightarrow> length (split_from d cur' (map to_lower s)) = length (split_from d cur s)"
proof (induction d cur s arbitrary: cur' rule: split_from.induct)
  case (2 d cur c cs)
  have pre: "has_prefix d (to_lower c # map to_lower cs) = has_prefix d (c # cs)"
    using has_prefix_lower [of d "c # cs"] "2.prems" by (simp add: letter_free_def)
  show ?case
  proof (cases "d \<noteq> [] \<and> has_prefix d (c # cs)")
    case True
    have "length (split_from d [] (map to_lower (drop (length d) (c # cs)))) = length (split_from d [] (drop (length d) (c # cs)))"
      by (rule "2.IH"(1) [OF True "2.prems"])
    with True pre show ?thesis by (simp add: drop_map [symmetric] del: drop_map)
  next
    case False
    have "length (split_from d (cur' @ [to_lower c]) (map to_lower cs)) = length (split_from d (cur @ [c]) cs)"
      by (rule "2.IH"(2) [OF False "2.prems"])
    with False pre show ?thesis by (cases "d = []") auto
  qed
qed simp

lemma split_lower: "letter_free d \<Longrightarrow> length (split_string d (ToLower k)) = length (split_string d k)"
  by (simp add: split_string_def ToLower_def length_split_lower)

lemma split_not_Nil: "split_string d s \<noteq> []"
proof -
  have "split_from d cur s \<noteq> []" for cur by (induction d cur s rule: split_from.induct) auto
  then show ?thesis by (simp add: split_string_def)
qed

text \<open>A rule key as the search expects it: in lower case, with one part per field.\<close>

definition good_key :: "nat \<Rightarrow> string \<Rightarrow> string \<Rightarrow> bool" where
  "good_key n d k \<longleftrightarrow> ToLower k = k \<and> length (split_string d k) = n"

lemma good_key_lower: "letter_free d \<Longrightarrow> length (split_string d k) = n \<Longrightarrow> good_key n d (ToLower k)"
  by (simp add: good_key_def split_lower)

lemma validate_rules_keeps:
  "validate_rules n d rest m = (m', errs) \<Longrightarrow> good_key n d k \<Longrightarrow> k \<in> dom (map_of m) \<Longrightarrow> k \<in> dom (map_of m')"
proof (induction n d rest m arbitrary: errs rule: validate_rules.induct)
  case (2 n d key val rest m)
  show ?case
  proof (cases "length (split_string d key) = n")
    case False
    with 2 show ?thesis by (fastforce simp: good_key_def split: prod.splits)
  next
    case True
    show ?thesis
    proof (cases "key = ToLower key")
      case False
      then have "k \<noteq> key" using "2.prems"(2) by (auto simp: good_key_def)
      then have mem: "k \<in> dom (map_of (map_put (ToLower key) val (map_del key m)))"
        using "2.prems"(3) by auto
      show ?thesis by (rule "2.IH"(2) [OF _ False _ "2.prems"(2) mem]) (use "2.prems"(1) True False in auto)
    next
      case eq: True
      then show ?thesis using "2.IH"(3) [of errs] "2.prems" True by simp
    qed
  qed
qed simp

lemma validate_rules_good:
  "validate_rules n d rest m = (m', errs) \<Longrightarrow> letter_free d \<Longrightarrow> (\<forall>k \<in> dom (map_of m) - fst ` set rest. good_key n d k) \<Longrightarrow>
   \<forall>k \<in> dom (map_of m'). good_key n d k"
proof (induction rest arbitrary: m errs)
  case (Cons e rest)
  obtain key val where e: "e = (key, val)" by (cases e)
  show ?case
  proof (cases "length (split_string d key) = n")
    case False
    with Cons.prems(1) e obtain errs' where rec: "validate_rules n d rest (map_del key m) = (m', errs')"
      by (auto split: prod.splits)
    show ?thesis by (rule Cons.IH [OF rec Cons.prems(2)]) (use Cons.prems(3) e in \<open>auto split: if_splits\<close>)
  next
    case True
    note low = good_key_lower [OF Cons.prems(2) True]
    show ?thesis
    proof (cases "key = ToLower key")
      case False
      with Cons.prems(1) e True have rec: "validate_rules n d rest (map_put (ToLower key) val (map_del key m)) = (m', errs)" by simp
      show ?thesis by (rule Cons.IH [OF rec Cons.prems(2)]) (use Cons.prems(3) e low in \<open>auto split: if_splits\<close>)
    next
      case eq: True
      with Cons.prems(1) e True have rec: "validate_rules n d rest m = (m', errs)" by simp
      have "good_key n d key" using low eq by simp
      then show ?thesis by (intro Cons.IH [OF rec Cons.prems(2)]) (use Cons.prems(3) e in auto)
    qed
  qed
qed simp

lemma validate_rules_complete:
  "validate_rules n d rest m = (m', errs) \<Longrightarrow> letter_free d \<Longrightarrow> (\<forall>k \<in> fst ` set rest. good_key n d k \<longrightarrow> k \<in> dom (map_of m)) \<Longrightarrow>
   \<forall>k \<in> fst ` set rest. length (split_string d k) = n \<longrightarrow> ToLower k \<in> dom (map_of m')"
proof (induction rest arbitrary: m errs)
  case (Cons e rest)
  obtain key val where e: "e = (key, val)" by (cases e)
  show ?case
  proof (cases "length (split_string d key) = n")
    case False
    with Cons.prems(1) e obtain errs' where rec: "validate_rules n d rest (map_del key m) = (m', errs')"
      by (auto split: prod.splits)
    have "\<forall>k \<in> fst ` set rest. good_key n d k \<longrightarrow> k \<in> dom (map_of (map_del key m))"
      using Cons.prems(3) e False by (auto simp: good_key_def)
    from Cons.IH [OF rec Cons.prems(2) this] False e show ?thesis by auto
  next
    case True
    note low = good_key_lower [OF Cons.prems(2) True]
    obtain m1 where m1: "validate_rules n d rest m1 = (m', errs)" "ToLower key \<in> dom (map_of m1)"
      "\<forall>k \<in> fst ` set rest. good_key n d k \<longrightarrow> k \<in> dom (map_of m1)"
    proof (cases "key = ToLower key")
      case False
      with Cons.prems(1,3) e True show thesis
        by (intro that [of "map_put (ToLower key) val (map_del key m)"]) (auto simp: good_key_def)
    next
      case eq: True
      have "ToLower key \<in> dom (map_of m)" using Cons.prems(3) e low eq by (metis fst_conv image_eqI list.set_intros(1))
      with Cons.prems(1,3) e True eq show thesis by (intro that [of m]) auto
    qed
    have "ToLower key \<in> dom (map_of m')" by (rule validate_rules_keeps [OF m1(1) low m1(2)])
    with Cons.IH [OF m1(1) Cons.prems(2) m1(3)] e show ?thesis by auto
  qed
qed simp

lemma validate_rules_errs:
  "snd (validate_rules n d rest m) = map fst (filter (\<lambda>e. length (split_string d (fst e)) \<noteq> n) rest)"
  by (induction n d rest m rule: validate_rules.induct) (auto split: prod.splits)

text \<open>
  Validation of the rules: for a delimiter without letters, what remains in the table after
  \<^verbatim>\<open>validateFloorRulesAndLowerValidRuleKey\<close> is in lower case with one part per schema field, every rule with
  the right number of parts is still there under its lower-case key, and an error is reported for exactly the others.
\<close>

theorem validateFloorRules_normalises:
  assumes "letter_free d" and "validateFloorRulesAndLowerValidRuleKey schema d m = (m', errs)"
  shows "(\<forall>k \<in> dom (map_of m'). good_key (length (ps_Fields schema)) d k) \<and>
    (\<forall>k \<in> dom (map_of m). length (split_string d k) = length (ps_Fields schema) \<longrightarrow> ToLower k \<in> dom (map_of m')) \<and>
    set errs = {k \<in> dom (map_of m). length (split_string d k) \<noteq> length (ps_Fields schema)}"
proof -
  note run = assms(2) [unfolded validateFloorRulesAndLowerValidRuleKey_def]
  have dom: "dom (map_of m) = fst ` set m" by (rule dom_map_of_conv_image_fst)
  have "\<forall>k \<in> dom (map_of m'). good_key (length (ps_Fields schema)) d k"
    by (rule validate_rules_good [OF run assms(1)]) (simp add: dom)
  moreover have "\<forall>k \<in> fst ` set m. length (split_string d k) = length (ps_Fields schema) \<longrightarrow> ToLower k \<in> dom (map_of m')"
    by (rule validate_rules_complete [OF run assms(1)]) (simp add: dom)
  moreover have "set errs = {k \<in> fst ` set m. length (split_string d k) \<noteq> length (ps_Fields schema)}"
    using validate_rules_errs [of "length (ps_Fields schema)" d m m] run by auto
  ultimately show ?thesis by (simp add: dom)
qed

lemma letter_free_pipe: "letter_free ''|''"
proof -
  have "to_lower x = CHR ''|'' \<longleftrightarrow> x = CHR ''|''" for x
  proof
    assume h: "to_lower x = CHR ''|''"
    show "x = CHR ''|''"
    proof (cases "65 \<le> (of_char x :: nat) \<and> (of_char x :: nat) \<le> 90")
      case True
      then have "(of_char (to_lower x) :: nat) = of_char x + 32" by (simp add: to_lower_def)
      with h True show ?thesis by simp
    next
      case False
      then have "to_lower x = x" by (auto simp: to_lower_def)
      with h show ?thesis by simp
    qed
  qed (simp add: to_lower_def)
  then show ?thesis by (simp add: letter_free_def)
qed

theorem validateFloorRules_normalises_witness:
  "\<exists>m' errs. validateFloorRulesAndLowerValidRuleKey \<lparr>ps_Fields = [''size''], ps_Delimiter = ''|''\<rparr> ''|''
       [(''A'', Fin 1), (''b|c'', Fin 2)] = (m', errs) \<and> dom (map_of m') = {''a''} \<and> errs = [''b|c'']"
proof -
  have lower: "ToLower ''A'' = ''a''" by code_simp
  have split: "split_string ''|'' ''A'' = [''A'']" "split_string ''|'' ''b|c'' = [''b'', ''c'']"
    by (simp_all add: split_string_def)
  obtain m' errs where run: "validateFloorRulesAndLowerValidRuleKey \<lparr>ps_Fields = [''size''], ps_Delimiter = ''|''\<rparr> ''|''
      [(''A'', Fin 1), (''b|c'', Fin 2)] = (m', errs)" by fastforce
  have "errs = [''b|c'']" "dom (map_of m') \<subseteq> {''a''}" using run
    by (auto simp: validateFloorRulesAndLowerValidRuleKey_def split lower split: if_splits)
  moreover have "''a'' \<in> dom (map_of m')"
    using validateFloorRules_normalises [OF letter_free_pipe run] split lower by auto
  ultimately show ?thesis using run by blast
qed

section \<open>Choice of the model group\<close>

lemma sum_list_mset_cong: "mset xs = mset ys \<Longrightarrow> sum_list (map (f :: _ \<Rightarrow> int) xs) = sum_list (map f ys)"
  by (simp only: sum_mset_sum_list [symmetric] mset_map)

lemma pick_group_spec:
  "0 \<le> r \<Longrightarrow> r \<le> sum_list (map weight_of gs) \<Longrightarrow> gs \<noteq> [] \<Longrightarrow>
   \<exists>i < length gs. pick_group r gs = Some (gs ! i) \<and>
     (\<forall>j < i. sum_list (map weight_of (take (Suc j) gs)) < r) \<and> r \<le> sum_list (map weight_of (take (Suc i) gs))"
proof (induction gs arbitrary: r)
  case (Cons g gs)
  show ?case
  proof (cases "r - weight_of g \<le> 0")
    case True
    then show ?thesis by (intro exI [of _ 0]) simp
  next
    case False
    then have "0 \<le> r - weight_of g" "r - weight_of g \<le> sum_list (map weight_of gs)" "gs \<noteq> []" using Cons.prems by auto
    from Cons.IH [OF this] obtain i where i: "i < length gs" "pick_group (r - weight_of g) gs = Some (gs ! i)"
      "\<forall>j < i. sum_list (map weight_of (take (Suc j) gs)) < r - weight_of g"
      "r - weight_of g \<le> sum_list (map weight_of (take (Suc i) gs))" by blast
    have "sum_list (map weight_of (take (Suc j) (g # gs))) < r" if "j < Suc i" for j
      using that i(3) False by (cases j) auto
    with False i show ?thesis by (intro exI [of _ "Suc i"]) (auto simp: Let_def)
  qed
qed simp

text \<open>
  Choice of a model group: when the random source returns a number between 0 and the total weight,
  \<^verbatim>\<open>selectFloorModelGroup\<close> returns exactly one of the groups, its weight defaulted to 1: the first in the order of
  ascending weights whose cumulated weight reaches the number.
\<close>

theorem selectFloorModelGroup_weighted:
  assumes "groups \<noteq> []" and "0 \<le> f (sum_list (map weight_of groups) + 1)"
    and "f (sum_list (map weight_of groups) + 1) \<le> sum_list (map weight_of groups)"
  shows "\<exists>g sorted i. selectFloorModelGroup groups f = [g] \<and> g \<in> default_weight ` set groups \<and>
    mset sorted = mset (map default_weight groups) \<and> sorted_wrt (\<lambda>x y. weight_of x \<le> weight_of y) sorted \<and>
    i < length sorted \<and> sorted ! i = g \<and>
    (\<forall>j < i. sum_list (map weight_of (take (Suc j) sorted)) < f (sum_list (map weight_of groups) + 1)) \<and>
    f (sum_list (map weight_of groups) + 1) \<le> sum_list (map weight_of (take (Suc i) sorted))"
proof -
  let ?s = "stable_sort (\<lambda>g h. weight_of g < weight_of h) (map default_weight groups)"
  let ?r = "f (sum_list (map weight_of groups) + 1)"
  have w: "map weight_of (map default_weight groups) = map weight_of groups"
    by (simp add: default_weight_def weight_of_def)
  have ms: "mset ?s = mset (map default_weight groups)" by simp
  have "sum_list (map weight_of ?s) = sum_list (map weight_of (map default_weight groups))"
    using ms by (rule sum_list_mset_cong)
  then have tot: "sum_list (map weight_of ?s) = sum_list (map weight_of groups)" by (simp only: w)
  have ne: "?s \<noteq> []" using assms(1) by (metis length_0_conv length_map length_stable_sort)
  from assms(2,3) tot have "?r \<le> sum_list (map weight_of ?s)" by simp
  from pick_group_spec [OF assms(2) this ne] obtain i where i: "i < length ?s" "pick_group ?r ?s = Some (?s ! i)"
    "\<forall>j < i. sum_list (map weight_of (take (Suc j) ?s)) < ?r" "?r \<le> sum_list (map weight_of (take (Suc i) ?s))" by blast
  have "strict_weak_on (set (map default_weight groups)) (\<lambda>g h. weight_of g < weight_of h)"
    unfolding strict_weak_on_def by (intro conjI ballI impI) linarith+
  from sorted_stable_sort [OF this] have sorted: "sorted_wrt (\<lambda>x y. weight_of x \<le> weight_of y) ?s"
    by (rule sorted_wrt_mono_rel [rotated]) (simp only: not_less)
  have "selectFloorModelGroup groups f = [?s ! i]"
    using i(2) by (simp only: selectFloorModelGroup_def Let_def w option.case)
  moreover have "?s ! i \<in> default_weight ` set groups" using nth_mem [OF i(1)] by simp
  ultimately show ?thesis using i sorted ms by blast
qed

definition group_of_weight :: "int \<Rightarrow> PriceFloorModelGroup" where
  "group_of_weight w = \<lparr>mg_Currency = [], mg_ModelWeight = Some w, mg_ModelVersion = [], mg_SkipRate = 0,
     mg_Schema = \<lparr>ps_Fields = [], ps_Delimiter = []\<rparr>, mg_Values = [], mg_Default = 0\<rparr>"

theorem selectFloorModelGroup_weighted_witness:
  "\<exists>g. selectFloorModelGroup [group_of_weight 60, group_of_weight 40] (\<lambda>_. 50) = [g] \<and>
     g \<in> default_weight ` {group_of_weight 60, group_of_weight 40}"
  using selectFloorModelGroup_weighted [of "[group_of_weight 60, group_of_weight 40]" "\<lambda>_. 50"]
  by (auto simp: weight_of_def group_of_weight_def)

end
