(* ===== verification/Floors.thy ===== *)
theory Floors
  imports FloorRules MultiBid
begin

text \<open>
  Price floors: selection of the floor data from request and provider and the floors set on impressions
  (\<^verbatim>\<open>floors/floors.go\<close>), enforcement on the bids (\<^verbatim>\<open>floors/enforce.go\<close>), and the account settings
  (\<^verbatim>\<open>config/account.go\<close>). The random source, the fetcher of dynamic floors and the currency conversion are
  arguments; the result \<open>None\<close> stands for a nil dereference or an index out of range.
\<close>

section \<open>Account settings\<close>

record AccountFloorFetch =
  af_Enabled :: bool
  af_URL :: string
  af_Timeout :: int
  af_MaxFileSizeKB :: int
  af_MaxRules :: int
  af_MaxAge :: int
  af_Period :: int
  af_MaxSchemaDims :: int
  af_AccountID :: string

record AccountPriceFloors =
  ap_Enabled :: bool
  ap_EnforceFloorsRate :: int
  ap_AdjustForBidAdjustment :: bool
  ap_EnforceDealFloors :: bool
  ap_UseDynamicData :: bool
  ap_MaxRule :: int
  ap_MaxSchemaDims :: int
  ap_Fetcher :: AccountFloorFetch

datatype account_error =
  EnforceFloorsRateRange | MaxRulesRange | MaxSchemaDimsRange | PeriodAboveMaxAge | PeriodTooShort | MaxAgeTooShort
| TimeoutRange | FetchMaxRulesNegative | MaxFileSizeNegative | FetchMaxSchemaDimsRange

definition AccountPriceFloors_validate :: "AccountPriceFloors \<Rightarrow> account_error list" where
  "AccountPriceFloors_validate pf =
     (let f = ap_Fetcher pf in
      (if ap_EnforceFloorsRate pf < 0 \<or> ap_EnforceFloorsRate pf > 100 then [EnforceFloorsRateRange] else [])
      @ (if ap_MaxRule pf < 0 \<or> ap_MaxRule pf > 2147483647 then [MaxRulesRange] else [])
      @ (if ap_MaxSchemaDims pf < 0 \<or> ap_MaxSchemaDims pf > 20 then [MaxSchemaDimsRange] else [])
      @ (if af_Period f > af_MaxAge f then [PeriodAboveMaxAge] else [])
      @ (if af_Period f < 300 then [PeriodTooShort] else [])
      @ (if af_MaxAge f < 600 then [MaxAgeTooShort] else [])
      @ (if \<not> (af_Timeout f > 10 \<and> af_Timeout f < 10000) then [TimeoutRange] else [])
      @ (if af_MaxRules f < 0 then [FetchMaxRulesNegative] else [])
      @ (if af_MaxFileSizeKB f < 0 then [MaxFileSizeNegative] else [])
      @ (if \<not> (af_MaxSchemaDims f \<ge> 0 \<and> af_MaxSchemaDims f < 20) then [FetchMaxSchemaDimsRange] else []))"

section \<open>Where the floor data come from\<close>

definition isPriceFloorsEnabledForAccount :: "AccountPriceFloors \<Rightarrow> bool" where
  "isPriceFloorsEnabledForAccount account = ap_Enabled account"

definition isPriceFloorsEnabledForRequest :: "FloorRequest \<Rightarrow> bool" where
  "isPriceFloorsEnabledForRequest request = (case fr_Floors request of Some f \<Rightarrow> GetEnabled (Some f) | None \<Rightarrow> True)"

definition isPriceFloorsEnabled :: "AccountPriceFloors \<Rightarrow> FloorRequest \<Rightarrow> bool" where
  "isPriceFloorsEnabled account request \<longleftrightarrow> isPriceFloorsEnabledForAccount account \<and> isPriceFloorsEnabledForRequest request"

definition useFetchedData :: "(int \<Rightarrow> int) \<Rightarrow> int option \<Rightarrow> bool" where
  "useFetchedData intn rate = (case rate of None \<Rightarrow> True | Some r \<Rightarrow> intn 100 < r)"

record Price =
  pr_FloorMin :: float64
  pr_FloorMinCur :: string

definition floor_min_cur :: "PriceFloorRules \<Rightarrow> string" where
  "floor_min_cur f =
     (if pf_FloorMinCur f = [] then (case pf_Data f of Some d \<Rightarrow> pd_Currency d | None \<Rightarrow> []) else pf_FloorMinCur f)"

definition resolveFloorMin :: "PriceFloorRules option \<Rightarrow> PriceFloorRules option \<Rightarrow> (string \<Rightarrow> string \<Rightarrow> rate_result) \<Rightarrow> Price" where
  "resolveFloorMin reqFloors fetchFloors getRate =
     (let requestFloorMin = (case reqFloors of Some f \<Rightarrow> pf_FloorMin f | None \<Rightarrow> 0);
          requestFloorMinCur = (case reqFloors of Some f \<Rightarrow> floor_min_cur f | None \<Rightarrow> []);
          providerFloorMin = (case fetchFloors of Some f \<Rightarrow> pf_FloorMin f | None \<Rightarrow> 0);
          providerFloorMinCur = (case fetchFloors of Some f \<Rightarrow> floor_min_cur f | None \<Rightarrow> [])
      in
        if requestFloorMinCur \<noteq> [] \<and> 0 < requestFloorMin then
          \<lparr>pr_FloorMin = requestFloorMin, pr_FloorMinCur = requestFloorMinCur\<rparr>
        else if requestFloorMinCur \<noteq> [] \<and> 0 < providerFloorMin then
          (if providerFloorMinCur = requestFloorMinCur \<or> providerFloorMinCur = [] then
             \<lparr>pr_FloorMin = providerFloorMin, pr_FloorMinCur = requestFloorMinCur\<rparr>
           else case getRate providerFloorMinCur requestFloorMinCur of
               Inl e \<Rightarrow> \<lparr>pr_FloorMin = 0, pr_FloorMinCur = requestFloorMinCur\<rparr>
             | Inr rate \<Rightarrow> \<lparr>pr_FloorMin = roundToFourDecimals (rate * providerFloorMin), pr_FloorMinCur = requestFloorMinCur\<rparr>)
        else if providerFloorMinCur \<noteq> [] \<and> 0 < providerFloorMin then
          \<lparr>pr_FloorMin = providerFloorMin, pr_FloorMinCur = providerFloorMinCur\<rparr>
        else if providerFloorMinCur \<noteq> [] \<and> 0 < requestFloorMin then
          \<lparr>pr_FloorMin = requestFloorMin, pr_FloorMinCur = providerFloorMinCur\<rparr>
        else \<lparr>pr_FloorMin = requestFloorMin, pr_FloorMinCur = requestFloorMinCur\<rparr>)"

definition mergeFloors :: "PriceFloorRules option \<Rightarrow> PriceFloorRules \<Rightarrow> (string \<Rightarrow> string \<Rightarrow> rate_result) \<Rightarrow> PriceFloorRules" where
  "mergeFloors reqFloors fetchFloors getRate =
     (let merged = fetchFloors\<lparr>pf_Enabled := Some (GetEnabled (Some fetchFloors) \<and> GetEnabled reqFloors)\<rparr> in
      case reqFloors of None \<Rightarrow> merged
      | Some req \<Rightarrow>
          let merged = (if pf_Enforcement req \<noteq> None then merged\<lparr>pf_Enforcement := pf_Enforcement req\<rparr> else merged);
              p = resolveFloorMin (Some req) (Some fetchFloors) getRate;
              merged = (if 0 < pr_FloorMin p
                        then merged\<lparr>pf_FloorMin := pr_FloorMin p, pf_FloorMinCur := pr_FloorMinCur p\<rparr> else merged)
          in if opt_or (pf_Location req) [] \<noteq> [] then merged\<lparr>pf_Location := pf_Location req\<rparr> else merged)"

text \<open>
  \<open>intn\<close> is the random source of the choice between model groups. The errors of invalid model groups are
  returned only when no group is valid: the code assigns them to a variable of the inner block otherwise.
\<close>

definition createFloorsFrom :: "(int \<Rightarrow> int) \<Rightarrow> PriceFloorRules option \<Rightarrow> AccountPriceFloors \<Rightarrow> string \<Rightarrow> string \<Rightarrow> PriceFloorRules \<times> floor_error list" where
  "createFloorsFrom intn floors account fetchStatus floorLocation =
     (let final = zero_PriceFloorRules\<lparr>pf_FetchStatus := fetchStatus, pf_PriceFloorLocation := floorLocation\<rparr> in
      case floors of None \<Rightarrow> (final, [])
      | Some f \<Rightarrow>
          (case validateFloorParams f of
             Some e \<Rightarrow> (final, [e])
           | None \<Rightarrow>
               let final = final\<lparr>pf_Enforcement := pf_Enforcement f\<rparr> in
               (case pf_Data f of None \<Rightarrow> (final, [])
                | Some d \<Rightarrow>
                    (case selectValidFloorModelGroups (pd_ModelGroups d) (ap_MaxSchemaDims account) (ap_MaxRule account) of
                       (valid, errs) \<Rightarrow>
                         if valid = [] then (final, errs)
                         else
                           let valid = (if length valid > 1 then selectFloorModelGroup valid intn else valid) in
                           (f\<lparr>pf_Data := Some (d\<lparr>pd_ModelGroups := [hd valid]\<rparr>), pf_PriceFloorLocation := floorLocation,
                              pf_FetchStatus := fetchStatus\<rparr>, [])))))"

text \<open>The fetcher receives the account's settings with the URL of the request and the account id put in.\<close>

type_synonym fetcher = "AccountPriceFloors \<Rightarrow> PriceFloorRules option \<times> string"

definition resolveFloors :: "(int \<Rightarrow> int) \<Rightarrow> (int \<Rightarrow> int) \<Rightarrow> AccountPriceFloors \<Rightarrow> string \<Rightarrow> FloorRequest \<Rightarrow>
    (string \<Rightarrow> string \<Rightarrow> rate_result) \<Rightarrow> fetcher option \<Rightarrow> (PriceFloorRules \<times> floor_error list) option" where
  "resolveFloors intnData intnGroup account accountID request getRate fetcher =
     (let reqFloor = fr_Floors request;
          url = opt_or (Option.bind reqFloor pf_Location) [];
          f1 = (if url \<noteq> [] then (ap_Fetcher account)\<lparr>af_URL := url\<rparr> else ap_Fetcher account);
          account = account\<lparr>ap_Fetcher := f1\<lparr>af_AccountID := accountID\<rparr>\<rparr>;
          (fetchResult, fetchStatus) = (case fetcher of
             Some get \<Rightarrow> if ap_UseDynamicData account then get account else (None, [])
           | None \<Rightarrow> (None, []));
          fallback = (case reqFloor of
             Some f \<Rightarrow> createFloorsFrom intnGroup (Some f) account ''none'' ''request''
           | None \<Rightarrow> createFloorsFrom intnGroup None account ''none'' ''noData'')
      in
        if fetchResult \<noteq> None \<and> fetchStatus = ''success'' then
          (case pf_Data (the fetchResult) of
             None \<Rightarrow> None
           | Some d \<Rightarrow>
               Some (if useFetchedData intnData (pd_UseFetchDataRate d)
                     then createFloorsFrom intnGroup (Some (mergeFloors reqFloor (the fetchResult) getRate)) account fetchStatus ''fetch''
                     else fallback))
        else Some fallback)"

section \<open>Floors on the impressions\<close>

definition floor_imp :: "PriceFloorRules \<Rightarrow> PriceFloorModelGroup \<Rightarrow> FloorRequest \<Rightarrow> (string \<Rightarrow> string \<Rightarrow> rate_result) \<Rightarrow> FloorImp \<Rightarrow> (FloorImp \<times> floor_error list) option" where
  "floor_imp rules modelGroup request getRate imp =
     (case findRule (mg_Values modelGroup) (ps_Delimiter (mg_Schema modelGroup)) (createRuleKey (mg_Schema modelGroup) request imp) of
        None \<Rightarrow> None
      | Some matched \<Rightarrow>
          let floorVal = (case matched of Some k \<Rightarrow> map_get 0 (mg_Values modelGroup) k | None \<Rightarrow> mg_Default modelGroup) in
          Some (if feq floorVal 0 then (imp, [])
                else case getMinFloorValue rules imp getRate of
                    Inl e \<Rightarrow> (imp, [FloorMinError e])
                  | Inr (floorMinVal, floorCur) \<Rightarrow>
                      let floorVal = roundToFourDecimals floorVal;
                          bidFloor = (if 0 < floorMinVal \<and> floorVal < floorMinVal then floorMinVal else floorVal);
                          imp = imp\<lparr>fi_BidFloor := bidFloor, fi_BidFloorCur := floorCur\<rparr>
                      in (case matched of Some k \<Rightarrow> updateImpExtWithFloorDetails imp k floorVal bidFloor | None \<Rightarrow> imp, [])))"

fun floor_imps :: "PriceFloorRules \<Rightarrow> PriceFloorModelGroup \<Rightarrow> FloorRequest \<Rightarrow> (string \<Rightarrow> string \<Rightarrow> rate_result) \<Rightarrow> FloorImp list \<Rightarrow> (FloorImp list \<times> floor_error list) option" where
  "floor_imps rules modelGroup request getRate [] = Some ([], [])"
| "floor_imps rules modelGroup request getRate (imp # imps) =
     Option.bind (floor_imp rules modelGroup request getRate imp) (\<lambda>(imp', errs).
       map_option (\<lambda>(imps', errs'). (imp' # imps', errs @ errs')) (floor_imps rules modelGroup request getRate imps))"

text \<open>The validation of the rules works on the map that the floor data share, so the returned rules carry the validated map.\<close>

definition set_values :: "(string, float64) gomap \<Rightarrow> PriceFloorRules \<Rightarrow> PriceFloorRules" where
  "set_values m rules =
     rules\<lparr>pf_Data := map_option (\<lambda>d. d\<lparr>pd_ModelGroups := (case pd_ModelGroups d of g # gs \<Rightarrow> g\<lparr>mg_Values := m\<rparr> # gs | [] \<Rightarrow> [])\<rparr>)
       (pf_Data rules)\<rparr>"

definition updateBidRequestWithFloors ::
  "(int \<Rightarrow> int) \<Rightarrow> PriceFloorRules \<Rightarrow> FloorRequest \<Rightarrow> (string \<Rightarrow> string \<Rightarrow> rate_result) \<Rightarrow> (PriceFloorRules \<times> FloorRequest \<times> floor_error list) option" where
  "updateBidRequestWithFloors intn rules request getRate =
     (case pf_Data rules of
        None \<Rightarrow> Some (rules, request, [])
      | Some d \<Rightarrow>
          (case pd_ModelGroups d of
             [] \<Rightarrow> Some (rules, request, [])
           | g # _ \<Rightarrow>
               let delimiter = (if ps_Delimiter (mg_Schema g) = [] then defaultDelimiter else ps_Delimiter (mg_Schema g));
                   g = g\<lparr>mg_Schema := (mg_Schema g)\<lparr>ps_Delimiter := delimiter\<rparr>\<rparr>
               in
                 if shouldSkipFloors (mg_SkipRate g) (pd_SkipRate d) (pf_SkipRate rules) intn
                 then Some (rules\<lparr>pf_Skipped := Some True\<rparr>, request, [])
                 else
                   let rules = rules\<lparr>pf_Skipped := Some False\<rparr>;
                       (m, badRules) = validateFloorRulesAndLowerValidRuleKey (mg_Schema g) delimiter (mg_Values g);
                       rules = set_values m rules;
                       errs = map InvalidRule badRules
                   in
                     if m = [] then Some (rules, request, errs)
                     else map_option (\<lambda>(imps, errs'). (rules, request\<lparr>fr_Imp := imps\<rparr>, errs @ errs'))
                            (floor_imps rules (g\<lparr>mg_Values := m\<rparr>) request getRate (fr_Imp request))))"

definition updateFloorsInRequest :: "FloorRequest \<Rightarrow> PriceFloorRules \<Rightarrow> FloorRequest" where
  "updateFloorsInRequest request rules = request\<lparr>fr_Floors := Some rules\<rparr>"

definition EnrichWithPriceFloors :: "(int \<Rightarrow> int) \<Rightarrow> (int \<Rightarrow> int) \<Rightarrow> (int \<Rightarrow> int) \<Rightarrow> FloorRequest option \<Rightarrow> AccountPriceFloors \<Rightarrow> string \<Rightarrow>
    (string \<Rightarrow> string \<Rightarrow> rate_result) \<Rightarrow> fetcher option \<Rightarrow> (FloorRequest option \<times> floor_error list) option" where
  "EnrichWithPriceFloors intnData intnGroup intnSkip request account accountID getRate fetcher =
     (case request of
        None \<Rightarrow> Some (None, [EmptyRequest])
      | Some req \<Rightarrow>
          if \<not> isPriceFloorsEnabled account req then Some (Some req, [FloorsDisabled])
          else Option.bind (resolveFloors intnData intnGroup account accountID req getRate fetcher) (\<lambda>(floors, errs).
            map_option (\<lambda>(floors', req', errs'). (Some (updateFloorsInRequest req' floors'), errs @ errs'))
              (updateBidRequestWithFloors intnSkip floors req getRate)))"

section \<open>Enforcement\<close>

definition updateEnforcePBS :: "bool \<Rightarrow> FloorRequest \<Rightarrow> FloorRequest \<times> bool" where
  "updateEnforcePBS enforceFloors request =
     (let f = opt_or (fr_Floors request) zero_PriceFloorRules;
          e = opt_or (pf_Enforcement f) zero_PriceFloorEnforcement
      in case pe_EnforcePBS e of
           None \<Rightarrow> (request\<lparr>fr_Floors := Some (f\<lparr>pf_Enforcement := Some (e\<lparr>pe_EnforcePBS := Some enforceFloors\<rparr>)\<rparr>)\<rparr>, True)
         | Some old \<Rightarrow>
             let new = enforceFloors \<and> old in
             if old \<noteq> new
             then (request\<lparr>fr_Floors := Some (f\<lparr>pf_Enforcement := Some (e\<lparr>pe_EnforcePBS := Some new\<rparr>)\<rparr>)\<rparr>, True)
             else (request, False))"

definition isEnforcementEnabled :: "FloorRequest \<Rightarrow> bool" where
  "isEnforcementEnabled request = (case fr_Floors request of Some f \<Rightarrow> GetEnforcePBS (Some f) | None \<Rightarrow> True)"

definition isSignalingSkipped :: "FloorRequest \<Rightarrow> bool" where
  "isSignalingSkipped request = (case fr_Floors request of Some f \<Rightarrow> GetFloorsSkippedFlag (Some f) | None \<Rightarrow> False)"

definition getEnforceRateRequest :: "FloorRequest \<Rightarrow> int" where
  "getEnforceRateRequest request = (case fr_Floors request of Some f \<Rightarrow> GetEnforceRate (Some f) | None \<Rightarrow> 0)"

definition getEnforceDealsFlag :: "FloorRequest \<Rightarrow> bool" where
  "getEnforceDealsFlag request = (case fr_Floors request of Some f \<Rightarrow> GetEnforceDealsFlag (Some f) | None \<Rightarrow> False)"

definition isValidImpBidFloorPresent :: "FloorImp list \<Rightarrow> bool" where
  "isValidImpBidFloorPresent imps \<longleftrightarrow> list_ex (\<lambda>i. 0 < fi_BidFloor i) imps"

definition isSatisfiedByEnforceRate :: "FloorRequest \<Rightarrow> int \<Rightarrow> (int \<Rightarrow> int) \<Rightarrow> bool" where
  "isSatisfiedByEnforceRate request configEnforceRate intn =
     (let requestEnforceRate = getEnforceRateRequest request; enforceRate = intn 100;
          satisfiedByRequest = (requestEnforceRate = 0 \<or> enforceRate < requestEnforceRate);
          satisfiedByAccount = (configEnforceRate = 0 \<or> enforceRate < configEnforceRate)
      in satisfiedByRequest \<and> satisfiedByAccount)"

definition hasDealID :: "PbsOrtbBid \<Rightarrow> bool" where
  "hasDealID pb = (case pb_Bid pb of Some b \<Rightarrow> Bid_DealID b \<noteq> [] | None \<Rightarrow> False)"

definition getCurrencyConversionRate :: "string \<Rightarrow> string \<Rightarrow> (string \<Rightarrow> string \<Rightarrow> rate_result) \<Rightarrow> rate_result" where
  "getCurrencyConversionRate seatBidCur reqImpCur getRate =
     (if seatBidCur \<noteq> reqImpCur then getRate seatBidCur reqImpCur else Inr 1)"

text \<open>The map of impressions by id: of two with the same id the later one counts.\<close>

definition imp_of_id :: "FloorImp list \<Rightarrow> string \<Rightarrow> FloorImp option" where
  "imp_of_id imps i = List.find (\<lambda>imp. fi_ID imp = i) (rev imps)"

definition updateBidExtWithFloors :: "FloorImp \<Rightarrow> PbsOrtbBid \<Rightarrow> string \<Rightarrow> PbsOrtbBid" where
  "updateBidExtWithFloors reqImp pb floorCurrency =
     (case Option.bind (fi_ExtPrebid reqImp) xp_Floors of
        None \<Rightarrow>
          (if 0 < fi_BidFloor reqImp
           then pb\<lparr>pb_BidFloors := Some \<lparr>bf_FloorRule = [], bf_FloorRuleValue = 0, bf_FloorValue = fi_BidFloor reqImp,
                                        bf_FloorCurrency = fi_BidFloorCur reqImp\<rparr>\<rparr>
           else pb)
      | Some f \<Rightarrow>
          pb\<lparr>pb_BidFloors := Some \<lparr>bf_FloorRule = xf_FloorRule f, bf_FloorRuleValue = xf_FloorRuleValue f,
                                  bf_FloorValue = xf_FloorValue f, bf_FloorCurrency = floorCurrency\<rparr>\<rparr>)"

fun ext_bids :: "FloorImp list \<Rightarrow> bidptr list \<Rightarrow> store \<Rightarrow> store option" where
  "ext_bids imps [] st = Some st"
| "ext_bids imps (p # ps) st =
     (case pb_Bid (st p) of None \<Rightarrow> None
      | Some b \<Rightarrow>
          (case imp_of_id imps (Bid_ImpID b) of
             None \<Rightarrow> ext_bids imps ps st
           | Some i \<Rightarrow> ext_bids imps ps (st(p := updateBidExtWithFloors i (st p) (fi_BidFloorCur i)))))"

fun updateBidExt :: "FloorRequest \<Rightarrow> seat_bids \<Rightarrow> store \<Rightarrow> store option" where
  "updateBidExt request [] st = Some st"
| "updateBidExt request ((name, None) # rest) st = None"
| "updateBidExt request ((name, Some seat) # rest) st =
     Option.bind (ext_bids (fr_Imp request) (sb_Bids seat) st) (updateBidExt request rest)"

text \<open>What happens to one bid.\<close>

datatype verdict = Keep | Skip | RateError rate_error | Below

definition floor_verdict :: "FloorRequest \<Rightarrow> bool \<Rightarrow> (string \<Rightarrow> string \<Rightarrow> rate_result) \<Rightarrow> string \<Rightarrow> PbsOrtbBid \<Rightarrow> Bid \<Rightarrow> verdict" where
  "floor_verdict request enforceDealFloors getRate currency pb b =
     (case imp_of_id (fr_Imp request) (Bid_ImpID b) of
        None \<Rightarrow> Skip
      | Some reqImp \<Rightarrow>
          if isEnforcementEnabled request then
            (if hasDealID pb \<and> \<not> enforceDealFloors then Keep
             else case getCurrencyConversionRate currency (fi_BidFloorCur reqImp) getRate of
                 Inl e \<Rightarrow> RateError e
               | Inr rate \<Rightarrow> if rate * Bid_Price b + Fin (1 / 100) < fi_BidFloor reqImp then Below else Keep)
          else Keep)"

fun enforce_bids :: "(PbsOrtbBid \<Rightarrow> Bid \<Rightarrow> verdict) \<Rightarrow> PbsOrtbSeatBid \<Rightarrow> bidptr list \<Rightarrow> store \<Rightarrow>
    (bidptr list \<times> (bidptr \<times> rate_error) list \<times> PbsOrtbSeatBid list) option" where
  "enforce_bids v seat [] st = Some ([], [], [])"
| "enforce_bids v seat (p # ps) st =
     (case pb_Bid (st p) of None \<Rightarrow> None
      | Some b \<Rightarrow>
          map_option (\<lambda>(eligible, errs, rejected).
            (case v (st p) b of
               Keep \<Rightarrow> (p # eligible, errs, rejected)
             | Skip \<Rightarrow> (eligible, errs, rejected)
             | RateError e \<Rightarrow> (eligible, (p, e) # errs, rejected)
             | Below \<Rightarrow> (eligible, errs, \<lparr>sb_Bids = [p], sb_Currency = sb_Currency seat, sb_Seat = sb_Seat seat\<rparr> # rejected)))
          (enforce_bids v seat ps st))"

fun enforceFloorToBids :: "FloorRequest \<Rightarrow> (string \<Rightarrow> string \<Rightarrow> rate_result) \<Rightarrow> bool \<Rightarrow> seat_bids \<Rightarrow> store \<Rightarrow>
    (seat_bids \<times> (bidptr \<times> rate_error) list \<times> PbsOrtbSeatBid list) option" where
  "enforceFloorToBids request getRate enforceDealFloors [] st = Some ([], [], [])"
| "enforceFloorToBids request getRate enforceDealFloors ((name, None) # rest) st = None"
| "enforceFloorToBids request getRate enforceDealFloors ((name, Some seat) # rest) st =
     Option.bind (enforce_bids (floor_verdict request enforceDealFloors getRate (sb_Currency seat)) seat (sb_Bids seat) st)
       (\<lambda>(eligible, errs, rejected).
         map_option (\<lambda>(sbs, errs', rejected'). ((name, Some (seat\<lparr>sb_Bids := eligible\<rparr>)) # sbs, errs @ errs', rejected @ rejected'))
           (enforceFloorToBids request getRate enforceDealFloors rest st))"

record enforce_result =
  er_seats :: seat_bids
  er_errors :: "(bidptr \<times> rate_error) list"
  er_rebuild_failed :: bool
  er_rejected :: "PbsOrtbSeatBid list"
  er_request :: FloorRequest
  er_store :: store

text \<open>\<open>rebuildFails\<close>: whether rebuilding the request JSON after a change of \<^verbatim>\<open>enforcePBS\<close> fails.\<close>

definition Enforce :: "(int \<Rightarrow> int) \<Rightarrow> bool \<Rightarrow> FloorRequest \<Rightarrow> seat_bids \<Rightarrow> AccountPriceFloors \<Rightarrow> (string \<Rightarrow> string \<Rightarrow> rate_result) \<Rightarrow> store \<Rightarrow> enforce_result option" where
  "Enforce intn rebuildFails request seatBids account getRate st =
     (let same = \<lparr>er_seats = seatBids, er_errors = [], er_rebuild_failed = False, er_rejected = [], er_request = request, er_store = st\<rparr> in
      if \<not> isPriceFloorsEnabled account request then Some same
      else if isSignalingSkipped request \<or> \<not> isValidImpBidFloorPresent (fr_Imp request) then Some same
      else
        let enforceFloors = isSatisfiedByEnforceRate request (ap_EnforceFloorsRate account) intn;
            (request', updated) = updateEnforcePBS enforceFloors request
        in
          if updated \<and> rebuildFails then Some (same\<lparr>er_rebuild_failed := True, er_request := request'\<rparr>)
          else Option.bind (updateBidExt request' seatBids st) (\<lambda>st'.
            if enforceFloors then
              map_option (\<lambda>(sbs, errs, rejected). same\<lparr>er_seats := sbs, er_errors := errs, er_rejected := rejected,
                 er_request := request', er_store := st'\<rparr>)
                (enforceFloorToBids request' getRate (ap_EnforceDealFloors account \<and> getEnforceDealsFlag request') seatBids st')
            else Some (same\<lparr>er_request := request', er_store := st'\<rparr>)))"

section \<open>Enforcement: lemmas\<close>

definition seat_verdict :: "FloorRequest \<Rightarrow> bool \<Rightarrow> (string \<Rightarrow> string \<Rightarrow> rate_result) \<Rightarrow> store \<Rightarrow> PbsOrtbSeatBid \<Rightarrow> bidptr \<Rightarrow> verdict" where
  "seat_verdict request deals getRate st s p =
     floor_verdict request deals getRate (sb_Currency s) (st p) (the (pb_Bid (st p)))"

definition is_rate_error :: "verdict \<Rightarrow> bool" where
  "is_rate_error v = (case v of RateError _ \<Rightarrow> True | _ \<Rightarrow> False)"

lemma enforce_bids_spec:
  "enforce_bids v seat ps st = Some (el, errs, rej) \<Longrightarrow>
   (\<forall>p \<in> set ps. has_bid st p) \<and>
   el = filter (\<lambda>p. v (st p) (the (pb_Bid (st p))) = Keep) ps \<and>
   concat (map sb_Bids rej) = filter (\<lambda>p. v (st p) (the (pb_Bid (st p))) = Below) ps \<and>
   map fst errs = filter (\<lambda>p. is_rate_error (v (st p) (the (pb_Bid (st p))))) ps"
proof (induction ps arbitrary: el errs rej)
  case (Cons p ps)
  from Cons.prems obtain b el1 errs1 rej1 where b: "pb_Bid (st p) = Some b"
    and rec: "enforce_bids v seat ps st = Some (el1, errs1, rej1)"
    by (auto split: option.splits)
  from Cons.IH [OF rec] Cons.prems b rec show ?case
    by (cases "v (st p) b") (auto simp: has_bid_def is_rate_error_def)
qed simp

lemma enforce_seats_spec:
  "enforceFloorToBids request getRate deals sbs st = Some (sbs', errs, rej) \<Longrightarrow>
   (\<exists>seats. sbs = map (\<lambda>(n, s). (n, Some s)) seats \<and>
      (\<forall>(n, s) \<in> set seats. \<forall>p \<in> set (sb_Bids s). has_bid st p) \<and>
      sbs' = map (\<lambda>(n, s). (n, Some (s\<lparr>sb_Bids := filter (\<lambda>p. seat_verdict request deals getRate st s p = Keep) (sb_Bids s)\<rparr>))) seats \<and>
      concat (map sb_Bids rej) = concat (map (\<lambda>(n, s). filter (\<lambda>p. seat_verdict request deals getRate st s p = Below) (sb_Bids s)) seats) \<and>
      map fst errs = concat (map (\<lambda>(n, s). filter (\<lambda>p. is_rate_error (seat_verdict request deals getRate st s p)) (sb_Bids s)) seats))"
proof (induction sbs arbitrary: sbs' errs rej)
  case (Cons e sbs)
  obtain n s where e: "e = (n, Some s)" using Cons.prems by (cases e; cases "snd e") auto
  from Cons.prems e obtain el1 errs1 rej1 sbs2 errs2 rej2 where
    one: "enforce_bids (floor_verdict request deals getRate (sb_Currency s)) s (sb_Bids s) st = Some (el1, errs1, rej1)"
    and rec: "enforceFloorToBids request getRate deals sbs st = Some (sbs2, errs2, rej2)"
    and res: "sbs' = (n, Some (s\<lparr>sb_Bids := el1\<rparr>)) # sbs2" "errs = errs1 @ errs2" "rej = rej1 @ rej2"
    by (auto simp: bind_eq_Some_conv)
  from Cons.IH [OF rec] obtain seats where seats: "sbs = map (\<lambda>(n, s). (n, Some s)) seats"
    "\<forall>(n, s) \<in> set seats. \<forall>p \<in> set (sb_Bids s). has_bid st p"
    "sbs2 = map (\<lambda>(n, s). (n, Some (s\<lparr>sb_Bids := filter (\<lambda>p. seat_verdict request deals getRate st s p = Keep) (sb_Bids s)\<rparr>))) seats"
    "concat (map sb_Bids rej2) = concat (map (\<lambda>(n, s). filter (\<lambda>p. seat_verdict request deals getRate st s p = Below) (sb_Bids s)) seats)"
    "map fst errs2 = concat (map (\<lambda>(n, s). filter (\<lambda>p. is_rate_error (seat_verdict request deals getRate st s p)) (sb_Bids s)) seats)"
    by blast
  show ?case using enforce_bids_spec [OF one] seats res e
    by (intro exI [of _ "(n, s) # seats"]) (simp add: seat_verdict_def)
qed simp

lemma ext_bids_bid: "ext_bids imps ps st = Some st' \<Longrightarrow> pb_Bid (st' p) = pb_Bid (st p)"
proof (induction ps arbitrary: st)
  case (Cons q ps)
  have upd: "pb_Bid (updateBidExtWithFloors i pb cur) = pb_Bid pb" for i pb cur
    by (simp add: updateBidExtWithFloors_def split: option.splits)
  from Cons.prems obtain b where b: "pb_Bid (st q) = Some b" by (auto split: option.splits)
  show ?case
  proof (cases "imp_of_id imps (Bid_ImpID b)")
    case None
    with Cons b show ?thesis by simp
  next
    case (Some i)
    with Cons.prems b have "ext_bids imps ps (st(q := updateBidExtWithFloors i (st q) (fi_BidFloorCur i))) = Some st'"
      by (simp add: fun_upd_def)
    from Cons.IH [OF this] show ?thesis by (simp add: upd)
  qed
qed simp

lemma updateBidExt_bid: "updateBidExt request sbs st = Some st' \<Longrightarrow> pb_Bid (st' p) = pb_Bid (st p)"
proof (induction sbs arbitrary: st)
  case (Cons e sbs)
  obtain n s where e: "e = (n, Some s)" using Cons.prems by (cases e; cases "snd e") auto
  with Cons.prems obtain st1 where "ext_bids (fr_Imp request) (sb_Bids s) st = Some st1" "updateBidExt request sbs st1 = Some st'"
    by (auto simp: bind_eq_Some_conv)
  with Cons.IH ext_bids_bid show ?case by metis
qed simp

lemma verdict_Keep:
  assumes "floor_verdict request deals getRate cur pb b = Keep" and "isEnforcementEnabled request"
  shows "\<exists>imp. imp_of_id (fr_Imp request) (Bid_ImpID b) = Some imp \<and>
    ((hasDealID pb \<and> \<not> deals) \<or>
     (\<exists>rate. getCurrencyConversionRate cur (fi_BidFloorCur imp) getRate = Inr rate \<and>
        \<not> rate * Bid_Price b + Fin (1 / 100) < fi_BidFloor imp))"
  using assms by (auto simp: floor_verdict_def split: option.splits sum.splits if_splits)

section \<open>Enforcement: properties\<close>

text \<open>
  Enforcement loses no bid silently: \<^verbatim>\<open>enforceFloorToBids\<close> keeps the seats in place and, in each seat, exactly
  the bids to keep in their order; the rejected bids are exactly those below the floor, and the errors name exactly
  the bids whose currency could not be converted. The only other bids that disappear answer no impression of
  the request.
\<close>

theorem enforceFloorToBids_partition:
  assumes "enforceFloorToBids request getRate deals sbs st = Some (sbs', errs, rej)"
  shows "\<exists>seats. sbs = map (\<lambda>(n, s). (n, Some s)) seats \<and>
      sbs' = map (\<lambda>(n, s). (n, Some (s\<lparr>sb_Bids := filter (\<lambda>p. seat_verdict request deals getRate st s p = Keep) (sb_Bids s)\<rparr>))) seats \<and>
      concat (map sb_Bids rej) = concat (map (\<lambda>(n, s). filter (\<lambda>p. seat_verdict request deals getRate st s p = Below) (sb_Bids s)) seats) \<and>
      map fst errs = concat (map (\<lambda>(n, s). filter (\<lambda>p. is_rate_error (seat_verdict request deals getRate st s p)) (sb_Bids s)) seats) \<and>
      (\<forall>(n, s) \<in> set seats. \<forall>p \<in> set (sb_Bids s). seat_verdict request deals getRate st s p = Skip \<longrightarrow>
         imp_of_id (fr_Imp request) (Bid_ImpID (the (pb_Bid (st p)))) = None)"
proof -
  have skip: "imp_of_id (fr_Imp request) (Bid_ImpID (the (pb_Bid (st p)))) = None"
    if "seat_verdict request deals getRate st s p = Skip" for s p
    using that by (auto simp: seat_verdict_def floor_verdict_def split: option.splits sum.splits if_splits)
  from enforce_seats_spec [OF assms] skip show ?thesis by blast
qed


text \<open>
  The enforcement flag of the request: \<^verbatim>\<open>updateEnforcePBS\<close> leaves enforcement on exactly when it was on and the
  enforcement rate asks for it, and reports a change exactly when it changed the request.
\<close>

theorem updateEnforcePBS_flag:
  "GetEnforcePBS (fr_Floors (fst (updateEnforcePBS enforce request))) = (enforce \<and> GetEnforcePBS (fr_Floors request)) \<and>
   (snd (updateEnforcePBS enforce request) \<longleftrightarrow> fst (updateEnforcePBS enforce request) \<noteq> request)"
proof (cases "fr_Floors request")
  case None
  have "request\<lparr>fr_Floors := Some f\<rparr> \<noteq> request" for f using None by (cases request) auto
  with None show ?thesis
    by (simp add: updateEnforcePBS_def GetEnforcePBS_def zero_PriceFloorRules_def zero_PriceFloorEnforcement_def)
next
  case (Some f)
  have ne: "request\<lparr>fr_Floors := Some g\<rparr> \<noteq> request" if "g \<noteq> f" for g using Some that by (cases request) auto
  show ?thesis
  proof (cases "pf_Enforcement f")
    case None
    have "f\<lparr>pf_Enforcement := Some e\<rparr> \<noteq> f" for e using None by (cases f) auto
    with Some None ne show ?thesis by (simp add: updateEnforcePBS_def GetEnforcePBS_def zero_PriceFloorEnforcement_def)
  next
    case e: (Some e)
    have fe: "f\<lparr>pf_Enforcement := Some e'\<rparr> \<noteq> f" if "e' \<noteq> e" for e' using e that by (cases f) auto
    have "e\<lparr>pe_EnforcePBS := Some v\<rparr> \<noteq> e" if "pe_EnforcePBS e \<noteq> Some v" for v using that by (cases e) auto
    with Some e ne fe show ?thesis
      by (cases "pe_EnforcePBS e") (auto simp: updateEnforcePBS_def GetEnforcePBS_def Let_def)
  qed
qed

section \<open>Floors on the impressions: properties\<close>

lemma floor_imp_returns:
  "ps_Fields (mg_Schema g) \<noteq> [] \<Longrightarrow> \<exists>x. floor_imp rules g request getRate imp = Some x"
  using findRule_find [of "createRuleKey (mg_Schema g) request imp"] by (simp add: floor_imp_def createRuleKey_def Let_def)

lemma floor_imps_returns:
  "ps_Fields (mg_Schema g) \<noteq> [] \<Longrightarrow> \<exists>x. floor_imps rules g request getRate imps = Some x"
proof (induction imps)
  case (Cons imp imps)
  then obtain x y where "floor_imp rules g request getRate imp = Some x" "floor_imps rules g request getRate imps = Some y"
    using floor_imp_returns by metis
  then show ?case by (cases x; cases y) simp
qed simp

text \<open>
  Setting the floors never fails: for a delimiter without letters (or the default one), whatever rules, request and
  conversion rates, \<^verbatim>\<open>updateBidRequestWithFloors\<close> returns. In particular a schema without fields, for which the
  search would read the first element of an empty key, never reaches the search, because validation drops all its
  rules.
\<close>

theorem updateBidRequestWithFloors_returns:
  assumes "\<And>d g gs. pf_Data rules = Some d \<Longrightarrow> pd_ModelGroups d = g # gs \<Longrightarrow>
     ps_Delimiter (mg_Schema g) = [] \<or> letter_free (ps_Delimiter (mg_Schema g))"
  shows "\<exists>x. updateBidRequestWithFloors intn rules request getRate = Some x"
proof (cases "pf_Data rules")
  case None
  then show ?thesis by (simp add: updateBidRequestWithFloors_def)
next
  case (Some d)
  show ?thesis
  proof (cases "pd_ModelGroups d")
    case Nil
    with Some show ?thesis by (simp add: updateBidRequestWithFloors_def)
  next
    case (Cons g gs)
    let ?del = "if ps_Delimiter (mg_Schema g) = [] then defaultDelimiter else ps_Delimiter (mg_Schema g)"
    let ?g = "g\<lparr>mg_Schema := (mg_Schema g)\<lparr>ps_Delimiter := ?del\<rparr>\<rparr>"
    have free: "letter_free ?del" using assms [OF Some Cons] letter_free_pipe by (auto simp: defaultDelimiter_def)
    obtain m bad where v: "validateFloorRulesAndLowerValidRuleKey (mg_Schema ?g) ?del (mg_Values g) = (m, bad)" by fastforce
    have "\<forall>k \<in> dom (map_of m). good_key (length (ps_Fields (mg_Schema ?g))) ?del k"
      using v [unfolded validateFloorRulesAndLowerValidRuleKey_def]
      by (rule validate_rules_good [OF _ free]) (simp add: dom_map_of_conv_image_fst)
    then have fields: "ps_Fields (mg_Schema g) \<noteq> []" if "m \<noteq> []"
      using that split_not_Nil by (cases m) (auto simp: good_key_def)
    have "\<exists>x. floor_imps r (?g\<lparr>mg_Values := m\<rparr>) request getRate (fr_Imp request) = Some x" if "m \<noteq> []" for r
      by (rule floor_imps_returns) (simp add: fields [OF that])
    then show ?thesis using Some Cons v by (auto simp: updateBidRequestWithFloors_def Let_def)
  qed
qed

text \<open>
  The floor set on an impression: \<^verbatim>\<open>floor_imp\<close> either leaves the impression as it was, or sets a floor in the
  currency of the floor data that is below neither the value of the matched rule (or the default), rounded to four
  decimals, nor a positive minimum floor, and equals one of the two.
\<close>

theorem floor_imp_respects_minimum:
  assumes "floor_imp rules g request getRate imp = Some (imp', errs)"
  shows "imp' = imp \<or>
    (\<exists>matched v mn. findRule (mg_Values g) (ps_Delimiter (mg_Schema g)) (createRuleKey (mg_Schema g) request imp) = Some matched \<and>
       v = roundToFourDecimals (case matched of Some k \<Rightarrow> map_get 0 (mg_Values g) k | None \<Rightarrow> mg_Default g) \<and>
       getMinFloorValue rules imp getRate = Inr (mn, fi_BidFloorCur imp') \<and> errs = [] \<and>
       fi_BidFloor imp' \<in> {v, mn} \<and> \<not> fi_BidFloor imp' < v \<and> (0 < mn \<longrightarrow> \<not> fi_BidFloor imp' < mn))"
proof -
  from assms obtain matched where m: "findRule (mg_Values g) (ps_Delimiter (mg_Schema g)) (createRuleKey (mg_Schema g) request imp) = Some matched"
    by (auto simp: floor_imp_def split: option.splits)
  let ?v = "case matched of Some k \<Rightarrow> map_get 0 (mg_Values g) k | None \<Rightarrow> mg_Default g"
  show ?thesis
  proof (cases "feq ?v 0 \<or> (\<exists>e. getMinFloorValue rules imp getRate = Inl e)")
    case True
    with assms m show ?thesis by (auto simp: floor_imp_def Let_def split: sum.splits if_splits)
  next
    case False
    then obtain mn cur where mn: "getMinFloorValue rules imp getRate = Inr (mn, cur)"
      by (cases "getMinFloorValue rules imp getRate") auto
    let ?f = "if 0 < mn \<and> roundToFourDecimals ?v < mn then mn else roundToFourDecimals ?v"
    have "fi_BidFloor imp' = ?f \<and> fi_BidFloorCur imp' = cur \<and> errs = []"
      using assms m mn False by (auto simp: floor_imp_def updateImpExtWithFloorDetails_def Let_def split: option.splits)
    with m mn float64_less_asym show ?thesis
      by (intro disjI2 exI [of _ matched] exI [of _ "roundToFourDecimals ?v"] exI [of _ mn]) auto
  qed
qed

lemma validate_group_selected:
  "selectValidFloorModelGroups gs dims rules = (valid, errs) \<Longrightarrow> \<forall>g \<in> set valid. g \<in> set gs \<and> validate_group dims rules g = None"
  by (auto simp: selectValidFloorModelGroups_def split: if_splits)

lemma default_weight_valid:
  "validate_group dims rules g = None \<Longrightarrow> validate_group dims rules (default_weight g) = None"
  by (auto simp: validate_group_def default_weight_def weight_of_def modelWeightMin_def modelWeightMax_def
      split: option.splits if_splits)

lemma selectFloorModelGroup_mem:
  "groups \<noteq> [] \<Longrightarrow> hd (selectFloorModelGroup groups f) \<in> default_weight ` set groups"
proof -
  assume ne: "groups \<noteq> []"
  let ?s = "stable_sort (\<lambda>g h. weight_of g < weight_of h) (map default_weight groups)"
  have pick: "g \<in> set gs" if "pick_group r gs = Some g" for r gs g
    using that by (induction r gs rule: pick_group.induct) (auto simp: Let_def split: if_splits)
  have s: "set ?s = default_weight ` set groups" "?s \<noteq> []"
    using ne by (simp, metis length_0_conv length_map length_stable_sort)
  have "hd ?s \<in> set ?s" using s(2) by (rule hd_in_set)
  then show ?thesis using s pick
    by (cases ?s) (auto simp: selectFloorModelGroup_def Let_def split: option.splits)
qed

text \<open>
  Model groups that reach the auction are valid: the floor data that \<^verbatim>\<open>createFloorsFrom\<close> returns have no model
  group or exactly one, which is a group of the input (its weight possibly defaulted) that passes all checks of the
  account's limits, skip rate, weight and default.
\<close>

theorem createFloorsFrom_valid_group:
  assumes "createFloorsFrom intn floors account status loc = (rules, errs)" and "pf_Data rules = Some d"
  shows "\<exists>f d0 g g0. floors = Some f \<and> pf_Data f = Some d0 \<and> pd_ModelGroups d = [g] \<and> g0 \<in> set (pd_ModelGroups d0) \<and>
    (g = g0 \<or> g = default_weight g0) \<and> validate_group (ap_MaxSchemaDims account) (ap_MaxRule account) g = None"
proof -
  obtain f where f: "floors = Some f" using assms by (cases floors) (auto simp: createFloorsFrom_def zero_PriceFloorRules_def)
  have ok: "validateFloorParams f = None"
    using assms f by (cases "validateFloorParams f") (auto simp: createFloorsFrom_def zero_PriceFloorRules_def)
  obtain d0 where d0: "pf_Data f = Some d0"
    using assms f ok by (cases "pf_Data f") (auto simp: createFloorsFrom_def zero_PriceFloorRules_def)
  obtain valid es where v: "selectValidFloorModelGroups (pd_ModelGroups d0) (ap_MaxSchemaDims account) (ap_MaxRule account) = (valid, es)"
    by fastforce
  have ne: "valid \<noteq> []" using assms f ok d0 v by (auto simp: createFloorsFrom_def zero_PriceFloorRules_def)
  let ?g = "hd (if length valid > 1 then selectFloorModelGroup valid intn else valid)"
  have g: "pd_ModelGroups d = [?g]"
    using assms f ok d0 v ne by (auto simp: createFloorsFrom_def Let_def)
  obtain g0 where g0: "g0 \<in> set valid" "?g = g0 \<or> ?g = default_weight g0"
    using selectFloorModelGroup_mem [OF ne, of intn] hd_in_set [OF ne] by (cases "length valid > 1") auto
  with validate_group_selected [OF v] default_weight_valid f d0 g show ?thesis by metis
qed

section \<open>Examples\<close>

definition sample_group :: PriceFloorModelGroup where
  "sample_group = \<lparr>mg_Currency = ''USD'', mg_ModelWeight = None, mg_ModelVersion = ''v1'', mg_SkipRate = 0,
     mg_Schema = \<lparr>ps_Fields = [''mediaType''], ps_Delimiter = ''|''\<rparr>, mg_Values = [(''banner'', Fin 2)], mg_Default = 0\<rparr>"

definition bad_group :: PriceFloorModelGroup where
  "bad_group = sample_group\<lparr>mg_ModelVersion := ''v2'', mg_SkipRate := 101\<rparr>"

definition sample_rules :: "PriceFloorModelGroup list \<Rightarrow> PriceFloorRules" where
  "sample_rules gs = zero_PriceFloorRules\<lparr>pf_FloorMin := Fin 3, pf_FloorMinCur := ''USD'',
     pf_Data := Some \<lparr>pd_Currency = ''USD'', pd_SkipRate = 0, pd_FloorsSchemaVersion = 2, pd_ModelTimestamp = 0,
       pd_ModelGroups = gs, pd_FloorProvider = [], pd_UseFetchDataRate = None\<rparr>\<rparr>"

definition sample_imp :: FloorImp where
  "sample_imp = \<lparr>fi_ID = ''i'', fi_Banner = Some \<lparr>ib_Format = [(300, 250)], ib_W = None, ib_H = None\<rparr>, fi_Video = None,
     fi_Audio = False, fi_Native = False, fi_TagID = [], fi_BidFloor = Fin 1, fi_BidFloorCur = ''USD'', fi_ExtPrebid = None,
     fi_ExtData = None, fi_GpId = []\<rparr>"

definition sample_request :: FloorRequest where
  "sample_request = \<lparr>fr_Site = None, fr_App = None, fr_Device = None, fr_Channel = None, fr_Floors = None, fr_Imp = [sample_imp]\<rparr>"

definition sample_account :: AccountPriceFloors where
  "sample_account = \<lparr>ap_Enabled = True, ap_EnforceFloorsRate = 0, ap_AdjustForBidAdjustment = False, ap_EnforceDealFloors = False,
     ap_UseDynamicData = False, ap_MaxRule = 0, ap_MaxSchemaDims = 0,
     ap_Fetcher = \<lparr>af_Enabled = False, af_URL = [], af_Timeout = 100, af_MaxFileSizeKB = 0, af_MaxRules = 0, af_MaxAge = 600,
       af_Period = 300, af_MaxSchemaDims = 0, af_AccountID = []\<rparr>\<rparr>"

text \<open>Two bids in one seat, of 2 and of one half, against a floor of 1.\<close>

definition floor_bids :: store where
  "floor_bids = store_of [zero_Bid\<lparr>Bid_ImpID := ''i'', Bid_Price := Fin 2\<rparr>, zero_Bid\<lparr>Bid_ImpID := ''i'', Bid_Price := Fin (1/2)\<rparr>]"

definition floor_seat :: seat_bids where
  "floor_seat = [(''a'', Some \<lparr>sb_Bids = [0, 1], sb_Currency = ''USD'', sb_Seat = ''a''\<rparr>)]"

lemmas floor_examples = sample_group_def bad_group_def sample_rules_def sample_imp_def sample_request_def sample_account_def
  floor_bids_def floor_seat_def zero_PriceFloorRules_def zero_PriceFloorEnforcement_def zero_float64_def one_float64_def

lemma floor_seat_enforced:
  "enforceFloorToBids sample_request (\<lambda>_ _. Inl RatesAreNil) False floor_seat floor_bids =
     Some ([(''a'', Some \<lparr>sb_Bids = [0], sb_Currency = ''USD'', sb_Seat = ''a''\<rparr>)], [],
           [\<lparr>sb_Bids = [1], sb_Currency = ''USD'', sb_Seat = ''a''\<rparr>])"
  by (simp add: floor_examples store_of_def floor_verdict_def imp_of_id_def isEnforcementEnabled_def hasDealID_def zero_Bid_def
      getCurrencyConversionRate_def)

theorem enforceFloorToBids_partition_witness:
  "\<exists>sbs' errs rej seats. enforceFloorToBids sample_request (\<lambda>_ _. Inl RatesAreNil) False floor_seat floor_bids = Some (sbs', errs, rej) \<and>
     floor_seat = map (\<lambda>(n, s). (n, Some s)) seats \<and>
     concat (map sb_Bids rej) = concat (map (\<lambda>(n, s). filter
       (\<lambda>p. seat_verdict sample_request False (\<lambda>_ _. Inl RatesAreNil) floor_bids s p = Below) (sb_Bids s)) seats) \<and>
     concat (map sb_Bids rej) = [1]"
proof -
  from enforceFloorToBids_partition [OF floor_seat_enforced] obtain seats where
    "floor_seat = map (\<lambda>(n, s). (n, Some s)) seats"
    "concat (map sb_Bids [\<lparr>sb_Bids = [1], sb_Currency = ''USD'', sb_Seat = ''a''\<rparr>]) = concat (map (\<lambda>(n, s). filter
       (\<lambda>p. seat_verdict sample_request False (\<lambda>_ _. Inl RatesAreNil) floor_bids s p = Below) (sb_Bids s)) seats)"
    by (elim exE conjE) (rule that)
  then show ?thesis by (intro exI conjI) (rule floor_seat_enforced, assumption+, simp)
qed

lemma floor_seat_Enforce:
  "\<exists>r. Enforce (\<lambda>_. 0) False sample_request floor_seat sample_account (\<lambda>_ _. Inl RatesAreNil) floor_bids = Some r \<and>
     isEnforcementEnabled (er_request r) \<and>
     er_seats r = [(''a'', Some \<lparr>sb_Bids = [0], sb_Currency = ''USD'', sb_Seat = ''a''\<rparr>)]"
  by (simp add: Enforce_def isPriceFloorsEnabled_def isPriceFloorsEnabledForAccount_def isPriceFloorsEnabledForRequest_def
      isSignalingSkipped_def isValidImpBidFloorPresent_def isSatisfiedByEnforceRate_def getEnforceRateRequest_def
      updateEnforcePBS_def floor_examples store_of_def floor_verdict_def imp_of_id_def isEnforcementEnabled_def hasDealID_def
      zero_Bid_def getCurrencyConversionRate_def GetEnforcePBS_def updateBidExtWithFloors_def)


theorem updateBidRequestWithFloors_returns_witness:
  "\<exists>x. updateBidRequestWithFloors (\<lambda>_. 0) (sample_rules [sample_group]) sample_request (\<lambda>_ _. Inl RatesAreNil) = Some x"
  by (rule updateBidRequestWithFloors_returns) (auto simp: floor_examples letter_free_pipe)

lemma sample_findRule: "findRule [(''banner'', Fin 2)] ''|'' [''banner''] = Some (Some ''banner'')"
proof -
  have "rule_key ''|'' [''banner''] [] = ''banner''" by code_simp
  then show ?thesis using findRule_find [of "[''banner'']" "[(''banner'', Fin 2)]" "''|''"] by (simp add: all_combs_def)
qed

lemma sample_floor_imp:
  "\<exists>imp'. floor_imp (sample_rules [sample_group]) sample_group sample_request (\<lambda>_ _. Inl RatesAreNil) sample_imp = Some (imp', [])
     \<and> fi_BidFloor imp' = Fin 3 \<and> imp' \<noteq> sample_imp"
proof -
  have key: "createRuleKey (mg_Schema sample_group) sample_request sample_imp = [''banner'']"
    by (simp add: createRuleKey_def field_value_def getMediaType_def floor_examples)
  have "roundToFourDecimals (Fin 2) = Fin 2" "roundToFourDecimals (Fin 3) = Fin 3"
    using rat_round_of_int [of 20000] rat_round_of_int [of 30000] by (simp_all add: roundToFourDecimals_def)
  then show ?thesis unfolding floor_imp_def key
    by (simp add: sample_findRule floor_examples map_get_def getMinFloorValue_def getFloorMinAndCurFromImp_def getFloorCurrency_def
        updateImpExtWithFloorDetails_def Let_def)
qed

theorem floor_imp_respects_minimum_witness:
  "\<exists>imp' mn. floor_imp (sample_rules [sample_group]) sample_group sample_request (\<lambda>_ _. Inl RatesAreNil) sample_imp = Some (imp', []) \<and>
     getMinFloorValue (sample_rules [sample_group]) sample_imp (\<lambda>_ _. Inl RatesAreNil) = Inr (mn, fi_BidFloorCur imp') \<and>
     (0 < mn \<longrightarrow> \<not> fi_BidFloor imp' < mn)"
proof -
  obtain imp' where run: "floor_imp (sample_rules [sample_group]) sample_group sample_request (\<lambda>_ _. Inl RatesAreNil) sample_imp = Some (imp', [])"
    and ne: "imp' \<noteq> sample_imp" using sample_floor_imp by blast
  from floor_imp_respects_minimum [OF run] ne obtain mn where
    "getMinFloorValue (sample_rules [sample_group]) sample_imp (\<lambda>_ _. Inl RatesAreNil) = Inr (mn, fi_BidFloorCur imp')"
    "0 < mn \<longrightarrow> \<not> fi_BidFloor imp' < mn"
    by (elim disjE exE conjE) (erule notE, assumption, rule that)
  with run show ?thesis by (intro exI conjI)
qed

text \<open>One valid and one invalid group: the valid one is used.\<close>

lemma one_of_two_groups:
  "\<exists>rules d. createFloorsFrom (\<lambda>_. 0) (Some (sample_rules [sample_group, bad_group])) sample_account ''none'' ''request'' = (rules, []) \<and>
     pf_Data rules = Some d \<and> pd_ModelGroups d = [sample_group]"
  by (simp add: createFloorsFrom_def validateFloorParams_def selectValidFloorModelGroups_def validate_group_def
      validateSchemaDimensions_def validSchemaDimensions_def skipRateMin_def skipRateMax_def modelWeightMin_def
      modelWeightMax_def floor_examples Let_def)

theorem createFloorsFrom_valid_group_witness:
  "\<exists>rules d. createFloorsFrom (\<lambda>_. 0) (Some (sample_rules [sample_group, bad_group])) sample_account ''none'' ''request'' = (rules, []) \<and>
     pf_Data rules = Some d \<and>
     (\<exists>f d0 g g0. Some (sample_rules [sample_group, bad_group]) = Some f \<and> pf_Data f = Some d0 \<and> pd_ModelGroups d = [g] \<and>
        g0 \<in> set (pd_ModelGroups d0) \<and> (g = g0 \<or> g = default_weight g0) \<and>
        validate_group (ap_MaxSchemaDims sample_account) (ap_MaxRule sample_account) g = None)"
  using one_of_two_groups createFloorsFrom_valid_group by metis

text \<open>
  Errors of invalid model groups are lost: when another group is valid, the error that the selection reports for an
  invalid group does not reach the caller of \<^verbatim>\<open>createFloorsFrom\<close>, because the code declares the error list anew in
  an inner block.
\<close>

theorem createFloorsFrom_drops_errors:
  "selectValidFloorModelGroups [sample_group, bad_group] 0 0 = ([sample_group], [ModelSkipRateRange ''v2'']) \<and>
   snd (createFloorsFrom (\<lambda>_. 0) (Some (sample_rules [sample_group, bad_group])) sample_account ''none'' ''request'') = []"
proof -
  have "snd (createFloorsFrom (\<lambda>_. 0) (Some (sample_rules [sample_group, bad_group])) sample_account ''none'' ''request'') = []"
    using one_of_two_groups by auto
  then show ?thesis
    by (simp add: selectValidFloorModelGroups_def validate_group_def List.map_filter_def
        validateSchemaDimensions_def validSchemaDimensions_def skipRateMin_def skipRateMax_def floor_examples)
qed

end
