(* ===== verification/BidAdjustment.thy ===== *)
theory BidAdjustment
  imports Currency Entities
begin

text \<open>
  Package \<^verbatim>\<open>bidadjustment\<close>: rules that change the price of a bid. Adjustments are given per media type, bidder
  and deal, on the request and on the account; they are merged, validated, flattened into one table of rule keys,
  and the rule of highest priority is applied. Nil maps and slices are \<open>None\<close>; writing to a nil map makes the
  result of the merge \<open>None\<close>.
\<close>

section \<open>Structures\<close>

record Adjustment =
  adj_Type :: string
  adj_Value :: float64
  adj_Currency :: string

type_synonym AdjustmentsByDealID = "(string, Adjustment list option) gomap option"
type_synonym bidder_adjustments = "(string, AdjustmentsByDealID) gomap option"

record MediaType =
  am_Banner :: bidder_adjustments
  am_VideoInstream :: bidder_adjustments
  am_VideoOutstream :: bidder_adjustments
  am_Audio :: bidder_adjustments
  am_Native :: bidder_adjustments
  am_WildCard :: bidder_adjustments

section \<open>Validation\<close>

text \<open>The largest finite \<^verbatim>\<open>float64\<close>.\<close>

definition MaxFloat64 :: float64 where
  "MaxFloat64 = Fin ((2 ^ 53 - 1) * 2 ^ 971)"

definition validateAdjustment :: "Adjustment \<Rightarrow> bool" where
  "validateAdjustment a \<longleftrightarrow>
     (if adj_Type a = ''cpm'' then adj_Currency a \<noteq> [] \<and> 0 \<le> adj_Value a \<and> adj_Value a < MaxFloat64
      else if adj_Type a = ''multiplier'' then 0 \<le> adj_Value a \<and> adj_Value a < Fin 100
      else if adj_Type a = ''static'' then adj_Currency a \<noteq> [] \<and> 0 \<le> adj_Value a \<and> adj_Value a < MaxFloat64
      else False)"

definition validateForMediaType :: "bidder_adjustments \<Rightarrow> bool" where
  "validateForMediaType adj \<longleftrightarrow>
     list_all (\<lambda>(bidder, deals).
       (case deals of None \<Rightarrow> False
        | Some ds \<Rightarrow> list_all (\<lambda>(deal, as). (case as of None \<Rightarrow> False | Some xs \<Rightarrow> list_all validateAdjustment xs)) ds))
       (opt_or adj [])"

definition Validate :: "MediaType option \<Rightarrow> bool" where
  "Validate adjustments \<longleftrightarrow>
     (case adjustments of None \<Rightarrow> True
      | Some m \<Rightarrow> validateForMediaType (am_Banner m) \<and> validateForMediaType (am_Audio m) \<and>
          validateForMediaType (am_VideoInstream m) \<and> validateForMediaType (am_VideoOutstream m) \<and>
          validateForMediaType (am_Native m) \<and> validateForMediaType (am_WildCard m))"

section \<open>Merging request and account\<close>

fun merge_deals :: "(string, Adjustment list option) gomap \<Rightarrow> AdjustmentsByDealID \<Rightarrow> AdjustmentsByDealID option" where
  "merge_deals [] req = Some req"
| "merge_deals ((deal, as) # rest) req =
     (if map_has (opt_or req []) deal then merge_deals rest req
      else case req of None \<Rightarrow> None | Some r \<Rightarrow> merge_deals rest (Some (map_put deal as r)))"

fun merge_bidders :: "(string, AdjustmentsByDealID) gomap \<Rightarrow> (string, AdjustmentsByDealID) gomap \<Rightarrow> (string, AdjustmentsByDealID) gomap option" where
  "merge_bidders [] req = Some req"
| "merge_bidders ((bidder, deals) # rest) req =
     (case map_of req bidder of
        Some r \<Rightarrow> Option.bind (merge_deals (opt_or deals []) r) (\<lambda>r'. merge_bidders rest (map_put bidder r' req))
      | None \<Rightarrow> merge_bidders rest (map_put bidder deals req))"

definition mergeForMediaType :: "bidder_adjustments \<Rightarrow> bidder_adjustments \<Rightarrow> bidder_adjustments option" where
  "mergeForMediaType reqAdj acctAdj =
     (case (reqAdj, acctAdj) of
        (Some r, Some a) \<Rightarrow> map_option Some (merge_bidders a r)
      | (Some r, None) \<Rightarrow> Some (Some r)
      | (None, a) \<Rightarrow> Some a)"

definition merge_adjustments :: "MediaType option \<Rightarrow> MediaType option \<Rightarrow> MediaType option option" where
  "merge_adjustments req acct =
     (case (req, acct) of
        (None, _) \<Rightarrow> Some acct
      | (Some r, None) \<Rightarrow> Some (Some r)
      | (Some r, Some a) \<Rightarrow>
          (case (mergeForMediaType (am_Banner r) (am_Banner a), mergeForMediaType (am_Native r) (am_Native a),
                 mergeForMediaType (am_Audio r) (am_Audio a), mergeForMediaType (am_VideoInstream r) (am_VideoInstream a),
                 mergeForMediaType (am_VideoOutstream r) (am_VideoOutstream a), mergeForMediaType (am_WildCard r) (am_WildCard a)) of
             (Some b, Some n, Some au, Some vi, Some vo, Some w) \<Rightarrow>
               Some (Some \<lparr>am_Banner = b, am_VideoInstream = vi, am_VideoOutstream = vo, am_Audio = au, am_Native = n, am_WildCard = w\<rparr>)
           | _ \<Rightarrow> None))"

text \<open>The request extension may fail to decode; adjustments that are invalid after the merge are dropped with a warning.\<close>

datatype merge_error = RequestExtError | InvalidAdjustments

definition Merge :: "MediaType option option \<Rightarrow> MediaType option \<Rightarrow> (MediaType option \<times> merge_error option) option" where
  "Merge reqExt acct =
     (case reqExt of
        None \<Rightarrow> Some (None, Some RequestExtError)
      | Some req \<Rightarrow>
          map_option (\<lambda>m. if Validate m then (m, None) else (None, Some InvalidAdjustments)) (merge_adjustments req acct))"

section \<open>Flattened rules\<close>

definition rule_name :: "string \<Rightarrow> string \<Rightarrow> string \<Rightarrow> string" where
  "rule_name mediaType bidder deal = mediaType @ ''|'' @ bidder @ ''|'' @ deal"

fun build_deals :: "string \<Rightarrow> string \<Rightarrow> (string, Adjustment list option) gomap \<Rightarrow> (string, Adjustment list) gomap \<Rightarrow> (string, Adjustment list) gomap" where
  "build_deals mediaType bidder [] rules = rules"
| "build_deals mediaType bidder ((deal, as) # rest) rules =
     build_deals mediaType bidder rest (map_put (rule_name mediaType bidder deal) (opt_or as []) rules)"

fun build_bidders :: "string \<Rightarrow> (string, AdjustmentsByDealID) gomap \<Rightarrow> (string, Adjustment list) gomap \<Rightarrow> (string, Adjustment list) gomap" where
  "build_bidders mediaType [] rules = rules"
| "build_bidders mediaType ((bidder, deals) # rest) rules =
     build_bidders mediaType rest (build_deals mediaType bidder (opt_or deals []) rules)"

definition buildRulesForMediaType :: "string \<Rightarrow> bidder_adjustments \<Rightarrow> (string, Adjustment list) gomap \<Rightarrow> (string, Adjustment list) gomap" where
  "buildRulesForMediaType mediaType adj rules = build_bidders mediaType (opt_or adj []) rules"

definition BuildRules :: "MediaType option \<Rightarrow> (string, Adjustment list) gomap" where
  "BuildRules adjustments =
     (case adjustments of None \<Rightarrow> []
      | Some m \<Rightarrow>
          buildRulesForMediaType ''*'' (am_WildCard m)
            (buildRulesForMediaType ''video-outstream'' (am_VideoOutstream m)
              (buildRulesForMediaType ''video-instream'' (am_VideoInstream m)
                (buildRulesForMediaType ''native'' (am_Native m)
                  (buildRulesForMediaType ''audio'' (am_Audio m)
                    (buildRulesForMediaType ''banner'' (am_Banner m) []))))))"

section \<open>Applying the rules\<close>

definition ConvertCurrency :: "(string \<Rightarrow> string \<Rightarrow> rate_result) \<Rightarrow> float64 \<Rightarrow> string \<Rightarrow> string \<Rightarrow> rate_error + float64" where
  "ConvertCurrency getRate v from to = (case getRate from to of Inr rate \<Rightarrow> Inr (v * rate) | Inl e \<Rightarrow> Inl e)"

text \<open>The array of eight strings: without a deal its last four are empty.\<close>

definition priorityRules :: "string \<Rightarrow> string \<Rightarrow> string \<Rightarrow> string list" where
  "priorityRules bidType bidder dealID =
     (if dealID \<noteq> [] then
        [rule_name bidType bidder dealID, rule_name bidType bidder ''*'', rule_name bidType ''*'' dealID,
         rule_name ''*'' bidder dealID, rule_name bidType ''*'' ''*'', rule_name ''*'' bidder ''*'',
         rule_name ''*'' ''*'' dealID, rule_name ''*'' ''*'' ''*'']
      else
        [rule_name bidType bidder ''*'', rule_name bidType ''*'' ''*'', rule_name ''*'' bidder ''*'',
         rule_name ''*'' ''*'' ''*'', [], [], [], []])"

definition get_adjustments :: "(string, Adjustment list) gomap \<Rightarrow> string \<Rightarrow> string \<Rightarrow> string \<Rightarrow> Adjustment list" where
  "get_adjustments rules bidType bidder dealID =
     (case List.find (\<lambda>r. map_has rules r) (priorityRules bidType bidder dealID) of
        Some r \<Rightarrow> map_get [] rules r | None \<Rightarrow> [])"

text \<open>The loop stops at a currency that cannot be converted; then the original price counts in the current currency.\<close>

fun apply_loop :: "(string \<Rightarrow> string \<Rightarrow> rate_result) \<Rightarrow> float64 \<Rightarrow> Adjustment list \<Rightarrow> float64 \<Rightarrow> string \<Rightarrow> float64 \<times> string" where
  "apply_loop getRate original [] price currency = (math_round (price * Fin 10000) / Fin 10000, currency)"
| "apply_loop getRate original (a # as) price currency =
     (if adj_Type a = ''multiplier'' then apply_loop getRate original as (price * adj_Value a) currency
      else if adj_Type a = ''cpm'' then
        (case ConvertCurrency getRate (adj_Value a) (adj_Currency a) currency of
           Inl e \<Rightarrow> (original, currency)
         | Inr v \<Rightarrow> apply_loop getRate original as (price - v) currency)
      else if adj_Type a = ''static'' then apply_loop getRate original as (adj_Value a) (adj_Currency a)
      else apply_loop getRate original as price currency)"

definition apply_adjustments :: "(string \<Rightarrow> string \<Rightarrow> rate_result) \<Rightarrow> Adjustment list \<Rightarrow> float64 \<Rightarrow> string \<Rightarrow> float64 \<times> string" where
  "apply_adjustments getRate adjustments price currency =
     (if adjustments = [] then (price, currency) else apply_loop getRate price adjustments price currency)"

definition minBid :: float64 where "minBid = Fin (1 / 10)"

definition Apply :: "(string \<Rightarrow> string \<Rightarrow> rate_result) \<Rightarrow> (string, Adjustment list) gomap \<Rightarrow> Bid \<Rightarrow> string \<Rightarrow> string \<Rightarrow> string \<Rightarrow> float64 \<times> string" where
  "Apply getRate rules bid bidder currency bidType =
     (if rules = [] then (Bid_Price bid, currency)
      else
        let (price, cur) = apply_adjustments getRate (get_adjustments rules bidType bidder (Bid_DealID bid)) (Bid_Price bid) currency in
        if Bid_DealID bid \<noteq> [] \<and> price < 0 then (0, currency)
        else if Bid_DealID bid = [] \<and> price \<le> 0 then (minBid, currency)
        else (price, cur))"

section \<open>Nested lookup\<close>

definition media_of :: "MediaType \<Rightarrow> string \<Rightarrow> bidder_adjustments" where
  "media_of m t =
     (if t = ''banner'' then am_Banner m else if t = ''audio'' then am_Audio m else if t = ''native'' then am_Native m
      else if t = ''video-instream'' then am_VideoInstream m else if t = ''video-outstream'' then am_VideoOutstream m
      else if t = ''*'' then am_WildCard m else None)"

definition bidder_entry :: "bidder_adjustments \<Rightarrow> string \<Rightarrow> string \<Rightarrow> Adjustment list option option" where
  "bidder_entry adj bidder deal =
     Option.bind adj (\<lambda>bs. Option.bind (map_of bs bidder) (\<lambda>ds. Option.bind ds (\<lambda>ds. map_of ds deal)))"

definition adjustment_entry :: "MediaType \<Rightarrow> string \<Rightarrow> string \<Rightarrow> string \<Rightarrow> Adjustment list option option" where
  "adjustment_entry m t bidder deal = bidder_entry (media_of m t) bidder deal"

text \<open>Bidder names without the delimiter, and no key twice: what the flattening relies on.\<close>

definition plain_bidders :: "bidder_adjustments \<Rightarrow> bool" where
  "plain_bidders adj \<longleftrightarrow>
     wf_map (opt_or adj []) \<and> (\<forall>(b, ds) \<in> set (opt_or adj []). CHR ''|'' \<notin> set b \<and> wf_map (opt_or ds []))"

lemma split_at_bar:
  assumes "CHR ''|'' \<notin> set a" and "CHR ''|'' \<notin> set c" and "a @ ''|'' @ b = c @ ''|'' @ d"
  shows "a = c \<and> b = d"
  using assms
proof (induction a arbitrary: c)
  case Nil
  then show ?case by (cases c) auto
next
  case (Cons x a)
  then show ?case by (cases c) auto
qed

lemma rule_name_inj:
  assumes "CHR ''|'' \<notin> set t" "CHR ''|'' \<notin> set t'" "CHR ''|'' \<notin> set b" "CHR ''|'' \<notin> set b'"
    and "rule_name t b d = rule_name t' b' d'"
  shows "t = t' \<and> b = b' \<and> d = d'"
  using assms split_at_bar [of t t' "b @ ''|'' @ d" "b' @ ''|'' @ d'"] split_at_bar [of b b' d d']
  by (simp add: rule_name_def)

lemma build_deals_lookup:
  assumes "wf_map ds"
  shows "map_of (build_deals t b ds rules) (rule_name t b d) =
     (case map_of ds d of Some as \<Rightarrow> Some (opt_or as []) | None \<Rightarrow> map_of rules (rule_name t b d))"
  using assms
proof (induction t b ds rules rule: build_deals.induct)
  case (1 mediaType bidder rules)
  show ?case by simp
next
  case (2 mediaType bidder deal as rest rules)
  have wf: "wf_map rest" using "2.prems" by (simp add: wf_map_def)
  have absent: "map_of rest deal = None" using "2.prems" by (simp add: wf_map_def map_of_eq_None_iff)
  have "d \<noteq> deal \<Longrightarrow> rule_name mediaType bidder d \<noteq> rule_name mediaType bidder deal"
    by (simp add: rule_name_def)
  with "2.IH" [OF wf] absent show ?case by (auto split: option.splits)
qed

lemma build_deals_other:
  assumes "\<And>d. k \<noteq> rule_name t b d"
  shows "map_of (build_deals t b ds rules) k = map_of rules k"
  using assms by (induction t b ds rules rule: build_deals.induct) auto

lemma build_bidders_lookup:
  assumes "CHR ''|'' \<notin> set t" "CHR ''|'' \<notin> set b" "plain_bidders (Some bs)"
  shows "map_of (build_bidders t bs rules) (rule_name t b d) =
     (case bidder_entry (Some bs) b d of Some as \<Rightarrow> Some (opt_or as []) | None \<Rightarrow> map_of rules (rule_name t b d))"
  using assms
proof (induction t bs rules rule: build_bidders.induct)
  case (1 mediaType rules)
  show ?case by (simp add: bidder_entry_def)
next
  case (2 t bidder deals rest rules)
  have plain: "plain_bidders (Some rest)" and wf: "wf_map (opt_or deals [])" and nb: "CHR ''|'' \<notin> set bidder"
    and absent: "map_of rest bidder = None"
    using "2.prems" by (auto simp: plain_bidders_def wf_map_def map_of_eq_None_iff)
  note IH = "2.IH" [OF "2.prems"(1,2) plain]
  show ?case
  proof (cases "b = bidder")
    case True
    then show ?thesis using IH absent build_deals_lookup [OF wf, of t b rules d]
      by (cases deals) (auto simp: bidder_entry_def)
  next
    case False
    have "rule_name t b d \<noteq> rule_name t bidder d'" for d'
      using rule_name_inj [OF "2.prems"(1,1,2) nb] False by blast
    then have "map_of (build_deals t bidder (opt_or deals []) rules) (rule_name t b d) = map_of rules (rule_name t b d)"
      by (rule build_deals_other)
    then show ?thesis using IH False by (simp add: bidder_entry_def split: option.split)
  qed
qed

lemma build_bidders_other:
  assumes "CHR ''|'' \<notin> set t" "CHR ''|'' \<notin> set t'" "t \<noteq> t'"
  shows "map_of (build_bidders t' bs rules) (rule_name t b d) = map_of rules (rule_name t b d)"
  using assms
proof (induction t' bs rules rule: build_bidders.induct)
  case (2 t' bidder deals rest rules)
  have "rule_name t b d \<noteq> rule_name t' bidder d'" for d'
  proof
    assume "rule_name t b d = rule_name t' bidder d'"
    then have "t @ ''|'' @ (b @ ''|'' @ d) = t' @ ''|'' @ (bidder @ ''|'' @ d')" by (simp add: rule_name_def)
    from split_at_bar [OF "2.prems"(1,2) this] "2.prems"(3) show False by simp
  qed
  then show ?case using "2.IH" [OF "2.prems"] by (simp add: build_deals_other)
qed simp

lemma buildRulesForMediaType_lookup:
  assumes "CHR ''|'' \<notin> set t" "CHR ''|'' \<notin> set t'" "CHR ''|'' \<notin> set b" "plain_bidders adj"
  shows "map_of (buildRulesForMediaType t' adj rules) (rule_name t b d) =
     (if t = t' then case bidder_entry adj b d of Some as \<Rightarrow> Some (opt_or as []) | None \<Rightarrow> map_of rules (rule_name t b d)
      else map_of rules (rule_name t b d))"
  using assms build_bidders_lookup [of t b] build_bidders_other [of t t']
  by (cases adj) (auto simp: buildRulesForMediaType_def bidder_entry_def)

lemma build_bidders_keys:
  "k \<in> fst ` set (build_bidders t bs rules) \<Longrightarrow> k \<in> fst ` set rules \<or> k \<noteq> []"
proof -
  have deals: "k \<in> fst ` set (build_deals t b ds rules) \<Longrightarrow> k \<in> fst ` set rules \<or> k \<noteq> []" for b ds rules
    by (induction t b ds rules rule: build_deals.induct) (auto simp: dom_update rule_name_def)
  show "k \<in> fst ` set (build_bidders t bs rules) \<Longrightarrow> k \<in> fst ` set rules \<or> k \<noteq> []"
    using deals by (induction t bs rules rule: build_bidders.induct) auto
qed

definition plain_media :: "MediaType \<Rightarrow> bool" where
  "plain_media m \<longleftrightarrow> list_all plain_bidders
     [am_Banner m, am_Audio m, am_Native m, am_VideoInstream m, am_VideoOutstream m, am_WildCard m]"

lemma BuildRules_lookup:
  assumes "plain_media m" "CHR ''|'' \<notin> set t" "CHR ''|'' \<notin> set b"
  shows "map_of (BuildRules (Some m)) (rule_name t b d) =
     map_option (\<lambda>as. opt_or as []) (adjustment_entry m t b d)"
  using assms
  by (auto simp: BuildRules_def buildRulesForMediaType_lookup plain_media_def adjustment_entry_def media_of_def
      bidder_entry_def split: option.splits)

lemma BuildRules_no_empty_key: "map_of (BuildRules m) [] = None"
proof -
  have "[] \<notin> fst ` set (buildRulesForMediaType t adj rules)" if "[] \<notin> fst ` set rules" for t adj rules
    using build_bidders_keys [of "[]" t "opt_or adj []" rules] that by (auto simp: buildRulesForMediaType_def)
  then show ?thesis by (cases m) (simp_all add: BuildRules_def map_of_eq_None_iff)
qed

text \<open>The combinations a bid is looked up under, from the most to the least specific.\<close>

definition combinations_of :: "string \<Rightarrow> string \<Rightarrow> string \<Rightarrow> (string \<times> string \<times> string) list" where
  "combinations_of t b d =
     (if d \<noteq> [] then [(t, b, d), (t, b, ''*''), (t, ''*'', d), (''*'', b, d), (t, ''*'', ''*''), (''*'', b, ''*''),
                    (''*'', ''*'', d), (''*'', ''*'', ''*'')]
      else [(t, b, ''*''), (t, ''*'', ''*''), (''*'', b, ''*''), (''*'', ''*'', ''*'')])"

section \<open>The rule that is applied\<close>

lemma find_map: "List.find P (map f xs) = map_option f (List.find (P \<circ> f) xs)"
  by (induction xs) auto

lemma find_append_none: "(\<And>x. x \<in> set ys \<Longrightarrow> \<not> P x) \<Longrightarrow> List.find P (xs @ ys) = List.find P xs"
  by (induction xs) (auto simp: find_None_iff)

lemma priorityRules_combinations:
  "\<exists>n. priorityRules t b d = map (\<lambda>(t, b, d). rule_name t b d) (combinations_of t b d) @ replicate n []"
proof (cases "d = []")
  case True
  then show ?thesis by (intro exI [of _ 4]) (simp add: priorityRules_def combinations_of_def numeral_eq_Suc)
next
  case False
  then show ?thesis by (intro exI [of _ 0]) (simp add: priorityRules_def combinations_of_def)
qed

text \<open>
  C39. The adjustments taken for a bid are those of the most specific combination of media type, bidder and deal, wildcards
  included, that the nested configuration has an entry for; without one there are none. Flattening the nested maps into one
  table of delimited keys confuses no two entries, as long as media types and bidder names are free of the delimiter.
\<close>

theorem get_adjustments_most_specific:
  assumes "plain_media m" "CHR ''|'' \<notin> set t" "CHR ''|'' \<notin> set b"
  shows "get_adjustments (BuildRules (Some m)) t b d =
     (case List.find (\<lambda>(t, b, d). adjustment_entry m t b d \<noteq> None) (combinations_of t b d) of
        None \<Rightarrow> []
      | Some (t, b, d) \<Rightarrow> opt_or (the (adjustment_entry m t b d)) [])"
proof -
  let ?R = "BuildRules (Some m)" and ?C = "combinations_of t b d"
  have plain: "CHR ''|'' \<notin> set t' \<and> CHR ''|'' \<notin> set b'" if "(t', b', d') \<in> set ?C" for t' b' d'
    using that assms(2,3) by (auto simp: combinations_of_def split: if_splits)
  have look: "map_of ?R (rule_name t' b' d') = map_option (\<lambda>as. opt_or as []) (adjustment_entry m t' b' d')"
    if "(t', b', d') \<in> set ?C" for t' b' d'
    using BuildRules_lookup [OF assms(1)] plain [OF that] by blast
  obtain n where pr: "priorityRules t b d = map (\<lambda>(t, b, d). rule_name t b d) ?C @ replicate n []"
    using priorityRules_combinations by blast
  have "List.find (map_has ?R) (priorityRules t b d) =
      map_option (\<lambda>(t, b, d). rule_name t b d) (List.find (map_has ?R \<circ> (\<lambda>(t, b, d). rule_name t b d)) ?C)"
    unfolding pr by (subst find_append_none) (auto simp: BuildRules_no_empty_key find_map)
  also have "List.find (map_has ?R \<circ> (\<lambda>(t, b, d). rule_name t b d)) ?C =
      List.find (\<lambda>(t, b, d). adjustment_entry m t b d \<noteq> None) ?C"
    by (rule find_cong) (auto simp: look)
  finally have eq: "List.find (map_has ?R) (priorityRules t b d) =
      map_option (\<lambda>(t, b, d). rule_name t b d) (List.find (\<lambda>(t, b, d). adjustment_entry m t b d \<noteq> None) ?C)" .
  show ?thesis
  proof (cases "List.find (\<lambda>(t, b, d). adjustment_entry m t b d \<noteq> None) ?C")
    case None
    then show ?thesis by (simp add: get_adjustments_def eq del: not_None_eq)
  next
    case (Some x)
    obtain t' b' d' where x: "x = (t', b', d')" by (cases x)
    have "(t', b', d') \<in> set ?C \<and> adjustment_entry m t' b' d' \<noteq> None"
      using Some x by (auto simp: find_Some_iff in_set_conv_nth)
    with Some x look [of t' b' d'] show ?thesis by (simp add: get_adjustments_def eq map_get_def del: not_None_eq) auto
  qed
qed

definition example_media :: MediaType where
  "example_media =
     \<lparr>am_Banner = Some [(''appnexus'', Some [(''deal'', Some [\<lparr>adj_Type = ''cpm'', adj_Value = Fin 1, adj_Currency = ''USD''\<rparr>])]),
                     (''*'', Some [(''*'', Some [\<lparr>adj_Type = ''multiplier'', adj_Value = Fin (1 / 2), adj_Currency = []\<rparr>])])],
      am_VideoInstream = None, am_VideoOutstream = None, am_Audio = None, am_Native = None,
      am_WildCard = Some [(''appnexus'', Some [(''*'', Some [\<lparr>adj_Type = ''static'', adj_Value = Fin 3, adj_Currency = ''EUR''\<rparr>])])]\<rparr>"

lemma example_plain: "plain_media example_media"
  by (simp add: plain_media_def plain_bidders_def example_media_def wf_map_def)

lemma get_adjustments_most_specific_witness:
  "get_adjustments (BuildRules (Some example_media)) ''banner'' ''rubicon'' ''deal'' =
     [\<lparr>adj_Type = ''multiplier'', adj_Value = Fin (1 / 2), adj_Currency = []\<rparr>]"
  using get_adjustments_most_specific [OF example_plain, of "''banner''" "''rubicon''" "''deal''"]
  by (simp add: combinations_of_def adjustment_entry_def media_of_def bidder_entry_def example_media_def)

section \<open>Precedence of the request\<close>

lemma merge_deals_lookup:
  assumes "wf_map acct"
  shows "\<exists>r'. merge_deals acct (Some r) = Some (Some r') \<and>
     (\<forall>d. map_of r' d = (case map_of r d of Some x \<Rightarrow> Some x | None \<Rightarrow> map_of acct d))"
  using assms
proof (induction acct arbitrary: r)
  case Nil
  show ?case by (simp split: option.split)
next
  case (Cons p rest)
  obtain deal as where p: "p = (deal, as)" by (cases p)
  have wf: "wf_map rest" and absent: "map_of rest deal = None"
    using Cons.prems p by (simp_all add: wf_map_def map_of_eq_None_iff)
  show ?case
  proof (cases "map_of r deal")
    case None
    obtain r' where "merge_deals rest (Some (map_put deal as r)) = Some (Some r')"
      and "\<forall>d. map_of r' d = (case map_of (map_put deal as r) d of Some x \<Rightarrow> Some x | None \<Rightarrow> map_of rest d)"
      using Cons.IH [OF wf] by blast
    with None show ?thesis by (simp add: p split: option.split)
  next
    case (Some x)
    obtain r' where "merge_deals rest (Some r) = Some (Some r')"
      and "\<forall>d. map_of r' d = (case map_of r d of Some x \<Rightarrow> Some x | None \<Rightarrow> map_of rest d)"
      using Cons.IH [OF wf] by blast
    with Some show ?thesis by (simp add: p split: option.split)
  qed
qed

lemma merge_bidders_lookup:
  assumes "wf_map acct" "\<forall>(b, ds) \<in> set acct. wf_map (opt_or ds [])" "\<forall>b. map_has acct b \<longrightarrow> map_of req b \<noteq> Some None"
  shows "\<exists>r'. merge_bidders acct req = Some r' \<and>
     (\<forall>b d. bidder_entry (Some r') b d =
        (case bidder_entry (Some req) b d of Some x \<Rightarrow> Some x | None \<Rightarrow> bidder_entry (Some acct) b d))"
  using assms
proof (induction acct arbitrary: req)
  case Nil
  show ?case by (simp add: bidder_entry_def split: option.split)
next
  case (Cons p rest)
  obtain bidder deals where p: "p = (bidder, deals)" by (cases p)
  have wf: "wf_map rest" "\<forall>(b, ds) \<in> set rest. wf_map (opt_or ds [])" and wfd: "wf_map (opt_or deals [])"
    and absent: "map_of rest bidder = None"
    using Cons.prems p by (simp_all add: wf_map_def map_of_eq_None_iff)
  show ?case
  proof (cases "map_of req bidder")
    case None
    have "\<forall>b. map_has rest b \<longrightarrow> map_of (map_put bidder deals req) b \<noteq> Some None"
      using Cons.prems(3) absent by (simp add: p)
    from Cons.IH [OF wf this] obtain r' where r': "merge_bidders rest (map_put bidder deals req) = Some r'"
      and e: "\<forall>b d. bidder_entry (Some r') b d =
         (case bidder_entry (Some (map_put bidder deals req)) b d of Some x \<Rightarrow> Some x | None \<Rightarrow> bidder_entry (Some rest) b d)"
      by blast
    have "bidder_entry (Some r') b d =
        (case bidder_entry (Some req) b d of Some x \<Rightarrow> Some x | None \<Rightarrow> bidder_entry (Some (p # rest)) b d)" for b d
      using e [rule_format, of b d] None by (auto simp: bidder_entry_def p absent split: option.split if_splits)
    with r' None show ?thesis by (auto simp: p)
  next
    case (Some r)
    then obtain r0 where r: "r = Some r0" using Cons.prems(3) p by (cases r) auto
    obtain m where m: "merge_deals (opt_or deals []) (Some r0) = Some (Some m)"
      and md: "\<forall>d. map_of m d = (case map_of r0 d of Some x \<Rightarrow> Some x | None \<Rightarrow> map_of (opt_or deals []) d)"
      using merge_deals_lookup [OF wfd] by blast
    have "\<forall>b. map_has rest b \<longrightarrow> map_of (map_put bidder (Some m) req) b \<noteq> Some None"
      using Cons.prems(3) absent by (simp add: p)
    from Cons.IH [OF wf this] obtain r' where r': "merge_bidders rest (map_put bidder (Some m) req) = Some r'"
      and e: "\<forall>b d. bidder_entry (Some r') b d =
         (case bidder_entry (Some (map_put bidder (Some m) req)) b d of Some x \<Rightarrow> Some x | None \<Rightarrow> bidder_entry (Some rest) b d)"
      by blast
    have "bidder_entry (Some r') b d =
        (case bidder_entry (Some req) b d of Some x \<Rightarrow> Some x | None \<Rightarrow> bidder_entry (Some (p # rest)) b d)" for b d
      using e [rule_format, of b d] md Some
      by (cases deals) (auto simp: bidder_entry_def p r absent split: option.split if_splits)
    with r' Some r m show ?thesis by (auto simp: p)
  qed
qed

lemma bidder_entry_None [simp]: "bidder_entry None b d = None"
  by (simp add: bidder_entry_def)

lemma mergeForMediaType_lookup:
  assumes "plain_bidders acct" "validateForMediaType req"
  shows "\<exists>m. mergeForMediaType req acct = Some m \<and>
     (\<forall>b d. bidder_entry m b d = (case bidder_entry req b d of Some x \<Rightarrow> Some x | None \<Rightarrow> bidder_entry acct b d))"
proof (cases req)
  case None
  then show ?thesis by (simp add: mergeForMediaType_def bidder_entry_def)
next
  case (Some r)
  show ?thesis
  proof (cases acct)
    case None
    then show ?thesis using Some by (simp add: mergeForMediaType_def bidder_entry_def split: option.split)
  next
    case (Some a)
    have "\<forall>b. map_of r b \<noteq> Some None"
      using assms(2) \<open>req = Some r\<close> by (auto simp: validateForMediaType_def list_all_iff dest!: map_of_SomeD)
    moreover have "wf_map a" "\<forall>(b, ds) \<in> set a. wf_map (opt_or ds [])" using assms(1) Some by (auto simp: plain_bidders_def)
    ultimately show ?thesis using merge_bidders_lookup [of a r] Some \<open>req = Some r\<close>
      by (auto simp: mergeForMediaType_def)
  qed
qed

text \<open>
  Merging the account's adjustments into those of a request that passed validation always succeeds, and for every media
  type, bidder and deal the merged configuration has the request's entry where the request has one and the account's
  entry otherwise.
\<close>

theorem merge_request_precedence:
  assumes "Validate (Some req)" "plain_media acct"
  shows "\<exists>m. merge_adjustments (Some req) (Some acct) = Some (Some m) \<and>
     (\<forall>t b d. adjustment_entry m t b d =
        (case adjustment_entry req t b d of Some x \<Rightarrow> Some x | None \<Rightarrow> adjustment_entry acct t b d))"
proof -
  have one: "\<exists>x. mergeForMediaType (sel req) (sel acct) = Some x \<and>
      (\<forall>b d. bidder_entry x b d = (case bidder_entry (sel req) b d of Some x \<Rightarrow> Some x | None \<Rightarrow> bidder_entry (sel acct) b d))"
    if "sel \<in> {am_Banner, am_VideoInstream, am_VideoOutstream, am_Audio, am_Native, am_WildCard}" for sel
    using that assms mergeForMediaType_lookup [of "sel acct" "sel req"] by (auto simp: Validate_def plain_media_def)
  obtain b vi vo au n w where
    "mergeForMediaType (am_Banner req) (am_Banner acct) = Some b"
    "mergeForMediaType (am_VideoInstream req) (am_VideoInstream acct) = Some vi"
    "mergeForMediaType (am_VideoOutstream req) (am_VideoOutstream acct) = Some vo"
    "mergeForMediaType (am_Audio req) (am_Audio acct) = Some au"
    "mergeForMediaType (am_Native req) (am_Native acct) = Some n"
    "mergeForMediaType (am_WildCard req) (am_WildCard acct) = Some w"
    using one [of am_Banner] one [of am_VideoInstream] one [of am_VideoOutstream] one [of am_Audio] one [of am_Native]
      one [of am_WildCard] by fastforce
  with one [of am_Banner] one [of am_VideoInstream] one [of am_VideoOutstream] one [of am_Audio] one [of am_Native]
      one [of am_WildCard]
  show ?thesis by (simp add: merge_adjustments_def adjustment_entry_def media_of_def cong: option.case_cong)
qed

lemma merge_request_precedence_witness:
  "\<exists>m. merge_adjustments (Some (example_media\<lparr>am_WildCard := None\<rparr>)) (Some example_media) = Some (Some m) \<and>
     adjustment_entry m ''*'' ''appnexus'' ''*'' = Some (Some [\<lparr>adj_Type = ''static'', adj_Value = Fin 3, adj_Currency = ''EUR''\<rparr>])"
proof -
  have "Validate (Some (example_media\<lparr>am_WildCard := None\<rparr>))"
    by (simp add: Validate_def validateForMediaType_def validateAdjustment_def example_media_def MaxFloat64_def zero_float64_def)
  from merge_request_precedence [OF this example_plain] obtain m where
    m: "merge_adjustments (Some (example_media\<lparr>am_WildCard := None\<rparr>)) (Some example_media) = Some (Some m)"
    and e: "\<forall>t b d. adjustment_entry m t b d = (case adjustment_entry (example_media\<lparr>am_WildCard := None\<rparr>) t b d of
        Some x \<Rightarrow> Some x | None \<Rightarrow> adjustment_entry example_media t b d)"
    by blast
  have "adjustment_entry m ''*'' ''appnexus'' ''*'' = Some (Some [\<lparr>adj_Type = ''static'', adj_Value = Fin 3, adj_Currency = ''EUR''\<rparr>])"
    unfolding e [rule_format] by (simp add: adjustment_entry_def media_of_def bidder_entry_def example_media_def)
  with m show ?thesis by blast
qed

section \<open>Adjusted prices\<close>

text \<open>
  A bid without a deal never leaves the adjustment with a price of zero or less, and a bid with a deal never with a
  negative one, whatever the rules and the rates are; when the price is moved to its minimum the currency of the bid is
  kept.
\<close>

theorem Apply_price_floor:
  assumes "rules \<noteq> []" "Apply getRate rules bid bidder currency bidType = (p, c)"
  shows "(if Bid_DealID bid = [] then \<not> p \<le> 0 else \<not> p < 0) \<and>
     ((p, c) = apply_adjustments getRate (get_adjustments rules bidType bidder (Bid_DealID bid)) (Bid_Price bid) currency \<or>
      (p, c) = ((if Bid_DealID bid = [] then minBid else 0), currency))"
  using assms by (auto simp: Apply_def minBid_def zero_float64_def split: prod.splits if_splits)

theorem Apply_price_floor_witness:
  "Apply (\<lambda>_ _. Inr 1) (BuildRules (Some example_media))
     (zero_Bid\<lparr>Bid_Price := Fin (1 / 2), Bid_DealID := ''deal''\<rparr>) ''appnexus'' ''USD'' ''banner'' = (0, ''USD'') \<and> \<not> (0 :: float64) < 0"
proof -
  have rules: "BuildRules (Some example_media) \<noteq> []"
    by (simp add: BuildRules_def buildRulesForMediaType_def example_media_def)
  have res: "Apply (\<lambda>_ _. Inr 1) (BuildRules (Some example_media))
     (zero_Bid\<lparr>Bid_Price := Fin (1 / 2), Bid_DealID := ''deal''\<rparr>) ''appnexus'' ''USD'' ''banner'' = (0, ''USD'')"
    by (simp add: Apply_def BuildRules_def buildRulesForMediaType_def example_media_def get_adjustments_def priorityRules_def
        rule_name_def map_get_def apply_adjustments_def ConvertCurrency_def rat_round_def zero_float64_def one_float64_def)
  from Apply_price_floor [OF rules res] res show ?thesis by simp
qed

text \<open>The currency the price is in after the adjustments, and that every conversion on the way succeeds.\<close>

fun static_currency :: "Adjustment list \<Rightarrow> string \<Rightarrow> string" where
  "static_currency [] c = c"
| "static_currency (a # as) c = static_currency as (if adj_Type a = ''static'' then adj_Currency a else c)"

fun conversions_ok :: "(string \<Rightarrow> string \<Rightarrow> rate_result) \<Rightarrow> Adjustment list \<Rightarrow> string \<Rightarrow> bool" where
  "conversions_ok getRate [] c \<longleftrightarrow> True"
| "conversions_ok getRate (a # as) c \<longleftrightarrow>
     (adj_Type a = ''cpm'' \<longrightarrow> (\<exists>r. getRate (adj_Currency a) c = Inr r)) \<and>
     conversions_ok getRate as (if adj_Type a = ''static'' then adj_Currency a else c)"

lemma apply_loop_failed:
  assumes "conversions_ok getRate xs c" "adj_Type a = ''cpm''" "getRate (adj_Currency a) (static_currency xs c) = Inl e"
  shows "apply_loop getRate original (xs @ a # ys) p c = (original, static_currency xs c)"
  using assms by (induction xs arbitrary: p c) (auto simp: ConvertCurrency_def)

text \<open>
  A conversion that fails abandons all adjustments and gives the price the bid came with, but in the currency of the last
  \<^verbatim>\<open>static\<close> adjustment before it, which need not be the currency of the bid.
\<close>

theorem apply_failed_conversion:
  assumes "conversions_ok getRate xs currency" "adj_Type a = ''cpm''"
    and "getRate (adj_Currency a) (static_currency xs currency) = Inl e"
  shows "apply_adjustments getRate (xs @ a # ys) price currency = (price, static_currency xs currency)"
  using apply_loop_failed [OF assms] by (simp add: apply_adjustments_def)

theorem apply_failed_conversion_witness:
  "apply_adjustments (\<lambda>_ _. Inl InvalidCurrency)
     [\<lparr>adj_Type = ''static'', adj_Value = Fin 3, adj_Currency = ''JPY''\<rparr>, \<lparr>adj_Type = ''cpm'', adj_Value = Fin 1, adj_Currency = ''XXX''\<rparr>]
     (Fin 2) ''USD'' = (Fin 2, ''JPY'')"
  using apply_failed_conversion [of "\<lambda>_ _. Inl InvalidCurrency" "[\<lparr>adj_Type = ''static'', adj_Value = Fin 3, adj_Currency = ''JPY''\<rparr>]"
      "''USD''" "\<lparr>adj_Type = ''cpm'', adj_Value = Fin 1, adj_Currency = ''XXX''\<rparr>" InvalidCurrency "[]" "Fin 2"]
  by simp

end
