(* ===== verification/UserCookie.thy ===== *)
theory UserCookie
  imports Prelude
begin

text \<open>
  Package \<^verbatim>\<open>usersync\<close>, the user's cookie (\<^verbatim>\<open>cookie.go\<close>) and the ejection of IDs from a cookie that is too big
  (\<^verbatim>\<open>ejector.go\<close>). Instants are nanoseconds since 1970. The encoder, JSON and base64, is a parameter.
  The slice of priority groups of an ejector is a prefix of the array the host configuration holds, so the array and
  the length of the prefix are kept apart: a write through the slice changes the configuration.
\<close>

section \<open>The cookie\<close>

type_synonym time = int

record UIDEntry =
  ue_UID :: string
  ue_Expires :: time

record Cookie =
  ck_uids :: "(string, UIDEntry) gomap"
  ck_optOut :: bool

definition uidTTL :: int where "uidTTL = 14 * 24 * 3600 * 1000000000"

definition NewCookie :: Cookie where "NewCookie = \<lparr>ck_uids = [], ck_optOut = False\<rparr>"

definition AllowSyncs :: "Cookie option \<Rightarrow> bool" where
  "AllowSyncs cookie \<longleftrightarrow> (case cookie of None \<Rightarrow> False | Some c \<Rightarrow> \<not> ck_optOut c)"

definition SetOptOut :: "bool \<Rightarrow> Cookie \<Rightarrow> Cookie" where
  "SetOptOut optOut c = (if optOut then c\<lparr>ck_optOut := True, ck_uids := []\<rparr> else c\<lparr>ck_optOut := False\<rparr>)"

definition checkAudienceNetwork :: "string \<Rightarrow> string \<Rightarrow> bool" where
  "checkAudienceNetwork key uid \<longleftrightarrow> key = ''audienceNetwork'' \<and> uid = ''0''"

datatype sync_error = UserOptedOut | AudienceNetworkZero

definition Cookie_Sync :: "time \<Rightarrow> string \<Rightarrow> string \<Rightarrow> Cookie \<Rightarrow> sync_error + Cookie" where
  "Cookie_Sync now key uid c =
     (if \<not> AllowSyncs (Some c) then Inl UserOptedOut
      else if checkAudienceNetwork key uid then Inl AudienceNetworkZero
      else Inr (c\<lparr>ck_uids := map_put key \<lparr>ue_UID = uid, ue_Expires = now + uidTTL\<rparr> (ck_uids c)\<rparr>))"

definition Unsync :: "string \<Rightarrow> Cookie \<Rightarrow> Cookie" where
  "Unsync key c = c\<lparr>ck_uids := map_del key (ck_uids c)\<rparr>"

definition GetUID :: "time \<Rightarrow> string \<Rightarrow> Cookie option \<Rightarrow> string \<times> bool \<times> bool" where
  "GetUID now key cookie =
     (case cookie of None \<Rightarrow> ([], False, False)
      | Some c \<Rightarrow> (case map_of (ck_uids c) key of Some e \<Rightarrow> (ue_UID e, True, now < ue_Expires e) | None \<Rightarrow> ([], False, False)))"

definition GetUIDs :: "Cookie option \<Rightarrow> (string, string) gomap" where
  "GetUIDs cookie =
     (case cookie of None \<Rightarrow> [] | Some c \<Rightarrow> fold (\<lambda>(k, e) uids. map_put k (ue_UID e) uids) (ck_uids c) [])"

definition HasLiveSync :: "time \<Rightarrow> string \<Rightarrow> Cookie option \<Rightarrow> bool" where
  "HasLiveSync now key cookie = snd (snd (GetUID now key cookie))"

definition HasAnyLiveSyncs :: "time \<Rightarrow> Cookie option \<Rightarrow> bool" where
  "HasAnyLiveSyncs now cookie =
     (case cookie of None \<Rightarrow> False | Some c \<Rightarrow> list_ex (\<lambda>(k, e). now < ue_Expires e) (ck_uids c))"

text \<open>The decoded JSON object: a missing or null \<^verbatim>\<open>tempUIDs\<close> is \<open>None\<close>; an object that does not decode is \<open>None\<close> itself.\<close>

record cookieJson =
  cj_UIDs :: "(string, UIDEntry) gomap option"
  cj_OptOut :: bool

definition UnmarshalJSON :: "cookieJson option \<Rightarrow> Cookie option" where
  "UnmarshalJSON contract =
     (case contract of None \<Rightarrow> None
      | Some j \<Rightarrow>
          let uids = (if cj_OptOut j then [] else case cj_UIDs j of None \<Rightarrow> [] | Some m \<Rightarrow> m) in
          let uids = (case map_of uids ''audienceNetwork'' of
                        Some e \<Rightarrow> if ue_UID e = ''0'' then map_del ''audienceNetwork'' uids else uids
                      | None \<Rightarrow> uids) in
          Some \<lparr>ck_uids = uids, ck_optOut = cj_OptOut j\<rparr>)"

definition MarshalJSON :: "Cookie \<Rightarrow> cookieJson" where
  "MarshalJSON c = \<lparr>cj_UIDs = (if ck_uids c = [] then None else Some (ck_uids c)), cj_OptOut = ck_optOut c\<rparr>"

text \<open>The host's cookie settings the package reads.\<close>

record HostCookie =
  hc_MaxCookieSizeBytes :: int
  hc_Family :: string
  hc_CookieName :: string
  hc_OptOutName :: string
  hc_OptOutValue :: string

text \<open>Cookies of the request by name; the decoder maps a value that is no valid cookie to the new cookie.\<close>

type_synonym request_cookies = "(string, string) gomap"

definition checkHostCookieOptOut :: "request_cookies \<Rightarrow> HostCookie \<Rightarrow> Cookie option" where
  "checkHostCookieOptOut r host =
     (if hc_OptOutName host \<noteq> [] then
        (case map_of r (hc_OptOutName host) of
           Some v \<Rightarrow> if v = hc_OptOutValue host then Some (SetOptOut True NewCookie) else None
         | None \<Rightarrow> None)
      else None)"

definition Decode :: "(string \<Rightarrow> cookieJson option) \<Rightarrow> string \<Rightarrow> Cookie" where
  "Decode parse encodedValue = (case UnmarshalJSON (parse encodedValue) of None \<Rightarrow> NewCookie | Some c \<Rightarrow> c)"

definition ReadCookie :: "(string \<Rightarrow> cookieJson option) \<Rightarrow> request_cookies \<Rightarrow> HostCookie \<Rightarrow> Cookie" where
  "ReadCookie parse r host =
     (case checkHostCookieOptOut r host of Some c \<Rightarrow> c
      | None \<Rightarrow> (case map_of r ''uids'' of None \<Rightarrow> NewCookie | Some v \<Rightarrow> Decode parse v))"

definition SyncHostCookie :: "time \<Rightarrow> request_cookies \<Rightarrow> HostCookie \<Rightarrow> Cookie \<Rightarrow> Cookie" where
  "SyncHostCookie now r host c =
     (if fst (GetUID now (hc_Family host) (Some c)) = [] \<and> hc_CookieName host \<noteq> [] then
        (case map_of r (hc_CookieName host) of
           Some v \<Rightarrow> (case Cookie_Sync now (hc_Family host) v c of Inr c' \<Rightarrow> c' | Inl e \<Rightarrow> c)
         | None \<Rightarrow> c)
      else c)"

section \<open>The ejectors\<close>

text \<open>The latest instant: \<^verbatim>\<open>time.Unix(1<<63-62135596801, 999999999)\<close>.\<close>

definition max_time :: time where
  "max_time = (2 ^ 63 - 62135596801) * 1000000000 + 999999999"

fun oldest_loop :: "(string, UIDEntry) gomap \<Rightarrow> string \<Rightarrow> time \<Rightarrow> string" where
  "oldest_loop [] oldestElement oldestDate = oldestElement"
| "oldest_loop ((key, v) # rest) oldestElement oldestDate =
     (if ue_Expires v < oldestDate then oldest_loop rest key (ue_Expires v) else oldest_loop rest oldestElement oldestDate)"

definition OldestEjector_Choose :: "(string, UIDEntry) gomap \<Rightarrow> string" where
  "OldestEjector_Choose uids = oldest_loop uids [] max_time"

text \<open>The key of the bidder's syncer.\<close>

type_synonym syncer_keys = "(string, string) gomap"

record PriorityBidderEjector =
  pe_array :: "string list list"  \<comment> \<open>the array behind the slice, that of the host configuration\<close>
  pe_len :: nat  \<comment> \<open>the length of the slice\<close>
  pe_SyncersByBidder :: syncer_keys
  pe_IsSyncerPriority :: bool

definition PriorityGroups :: "PriorityBidderEjector \<Rightarrow> string list list" where
  "PriorityGroups p = take (pe_len p) (pe_array p)"

definition isPriority :: "string list list \<Rightarrow> syncer_keys \<Rightarrow> string \<Rightarrow> bool" where
  "isPriority groups syncers key \<longleftrightarrow> list_ex (list_ex (\<lambda>bidder. map_of syncers bidder = Some key)) groups"

definition getNonPriorityUids :: "(string, UIDEntry) gomap \<Rightarrow> string list list \<Rightarrow> syncer_keys \<Rightarrow> (string, UIDEntry) gomap" where
  "getNonPriorityUids uids groups syncers =
     (if groups = [] then uids else filter (\<lambda>(key, _). \<not> isPriority groups syncers key) uids)"

fun getPriorityUids_loop :: "string list \<Rightarrow> (string, UIDEntry) gomap \<Rightarrow> syncer_keys \<Rightarrow> (string, UIDEntry) gomap \<Rightarrow> (string, UIDEntry) gomap" where
  "getPriorityUids_loop [] uids syncers acc = acc"
| "getPriorityUids_loop (bidder # rest) uids syncers acc =
     getPriorityUids_loop rest uids syncers
       (case map_of syncers bidder of None \<Rightarrow> acc
        | Some key \<Rightarrow> (case map_of uids key of None \<Rightarrow> acc | Some e \<Rightarrow> map_put key e acc))"

definition getPriorityUids :: "string list \<Rightarrow> (string, UIDEntry) gomap \<Rightarrow> syncer_keys \<Rightarrow> (string, UIDEntry) gomap" where
  "getPriorityUids grp uids syncers = getPriorityUids_loop grp uids syncers []"

definition checkSyncerPriority :: "PriorityBidderEjector \<Rightarrow> (string, UIDEntry) gomap \<Rightarrow> bool" where
  "checkSyncerPriority p nonPriorityUids \<longleftrightarrow>
     \<not> (length nonPriorityUids = 1 \<and> \<not> pe_IsSyncerPriority p \<and> PriorityGroups p \<noteq> [])"

text \<open>
  The first occurrence is removed in place: the slot of the last group in the shared array is overwritten with the
  shortened slice. A last group of at most one bidder is cut off by shortening the slice of groups.
\<close>

definition removeElementFromPriorityGroup :: "PriorityBidderEjector \<Rightarrow> string \<Rightarrow> PriorityBidderEjector" where
  "removeElementFromPriorityGroup p oldestElement =
     (let lowest = pe_array p ! (pe_len p - 1) in
      if length lowest \<le> 1 then p\<lparr>pe_len := pe_len p - 1\<rparr>
      else p\<lparr>pe_array := (pe_array p)[pe_len p - 1 := remove1 oldestElement lowest]\<rparr>)"

text \<open>\<open>None\<close>: the uid trying to be synced is no priority and only priorities are left. Indexing is guarded by the groups being nonempty.\<close>

definition PriorityBidderEjector_Choose :: "PriorityBidderEjector \<Rightarrow> (string, UIDEntry) gomap \<Rightarrow> (string \<times> PriorityBidderEjector) option" where
  "PriorityBidderEjector_Choose p uids =
     (let nonPriorityUids = getNonPriorityUids uids (PriorityGroups p) (pe_SyncersByBidder p) in
      if \<not> checkSyncerPriority p nonPriorityUids then None
      else if nonPriorityUids \<noteq> [] then Some (OldestEjector_Choose nonPriorityUids, p)
      else
        let lowest = pe_array p ! (pe_len p - 1) in
        if length lowest = 1 then Some (lowest ! 0, removeElementFromPriorityGroup p (lowest ! 0))
        else
          let uidToDelete = OldestEjector_Choose (getPriorityUids lowest uids (pe_SyncersByBidder p)) in
          Some (uidToDelete, removeElementFromPriorityGroup p uidToDelete))"

section \<open>Writing the cookie\<close>

text \<open>
  The size of the \<^verbatim>\<open>Set-Cookie\<close> line of the name \<^verbatim>\<open>uids\<close>, the path \<^verbatim>\<open>/\<close> and an expiry date: the value
  is base64 text, which is written as it is, and \<^verbatim>\<open>uids=\<close>, \<^verbatim>\<open>; Path=/\<close>, \<^verbatim>\<open>; Expires=\<close> and the date of 29 characters
  surround it.
\<close>

definition cookieSize :: "string \<Rightarrow> int" where
  "cookieSize encodedCookie = int (5 + length encodedCookie + 8 + 10 + 29)"

definition isCookieTooBig :: "HostCookie \<Rightarrow> string \<Rightarrow> bool" where
  "isCookieTooBig cfg encodedCookie \<longleftrightarrow>
     cookieSize encodedCookie > hc_MaxCookieSizeBytes cfg \<and> hc_MaxCookieSizeBytes cfg > 0"

datatype prepare_error = UidBiggerThanMax | SyncerNotPriority

text \<open>
  One pass of the loop, and the loop with fuel: \<open>None\<close> is a loop that has not returned. An encoder that fails gives the
  empty string, which is returned without an error.
\<close>

datatype prepare_step =
    Return "prepare_error + string"
  | Continue Cookie PriorityBidderEjector

definition prepare_pass :: "HostCookie \<Rightarrow> (Cookie \<Rightarrow> string option) \<Rightarrow> Cookie \<Rightarrow> PriorityBidderEjector \<Rightarrow> prepare_step" where
  "prepare_pass cfg encode c p =
     (if ck_uids c = [] then Return (Inr [])
      else case encode c of
        None \<Rightarrow> Return (Inr [])
      | Some encodedCookie \<Rightarrow>
          if \<not> isCookieTooBig cfg encodedCookie then Return (Inr encodedCookie)
          else if length (ck_uids c) = 1 then Return (Inl UidBiggerThanMax)
          else case PriorityBidderEjector_Choose p (ck_uids c) of
            None \<Rightarrow> Return (Inl SyncerNotPriority)
          | Some (uidToDelete, p') \<Rightarrow> Continue (c\<lparr>ck_uids := map_del uidToDelete (ck_uids c)\<rparr>) p')"

fun PrepareCookieForWrite :: "nat \<Rightarrow> HostCookie \<Rightarrow> (Cookie \<Rightarrow> string option) \<Rightarrow> Cookie \<Rightarrow> PriorityBidderEjector \<Rightarrow>
    ((prepare_error + string) \<times> Cookie \<times> PriorityBidderEjector) option" where
  "PrepareCookieForWrite 0 cfg encode c p = None"
| "PrepareCookieForWrite (Suc n) cfg encode c p =
     (case prepare_pass cfg encode c p of
        Return r \<Rightarrow> Some (r, c, p)
      | Continue c' p' \<Rightarrow> PrepareCookieForWrite n cfg encode c' p')"

text \<open>The cookie of the response; its lifetime is the host's.\<close>

record http_cookie =
  http_Name :: string
  http_Value :: string
  http_Expires :: time
  http_Path :: string
  http_Domain :: string
  http_Secure :: bool
  http_SameSiteNone :: bool

definition WriteCookie :: "time \<Rightarrow> int \<Rightarrow> string \<Rightarrow> string \<Rightarrow> bool \<Rightarrow> http_cookie" where
  "WriteCookie now ttl domain encodedCookie setSiteCookie =
     \<lparr>http_Name = ''uids'', http_Value = encodedCookie, http_Expires = now + ttl, http_Path = ''/'', http_Domain = domain,
      http_Secure = setSiteCookie, http_SameSiteNone = setSiteCookie\<rparr>"

text \<open>The endpoint that sets a uid builds the ejector from the host configuration.\<close>

definition isSyncerPriority :: "string \<Rightarrow> string list list \<Rightarrow> bool" where
  "isSyncerPriority bidder groups \<longleftrightarrow> list_ex (list_ex (EqualFold bidder)) groups"

definition setuid_ejector :: "string list list \<Rightarrow> syncer_keys \<Rightarrow> string \<Rightarrow> PriorityBidderEjector" where
  "setuid_ejector groups syncers bidder =
     \<lparr>pe_array = groups, pe_len = length groups, pe_SyncersByBidder = syncers,
      pe_IsSyncerPriority = isSyncerPriority bidder groups\<rparr>"

section \<open>Invariant of the cookie\<close>

definition cookie_inv :: "Cookie \<Rightarrow> bool" where
  "cookie_inv c \<longleftrightarrow> wf_map (ck_uids c) \<and> (ck_optOut c \<longrightarrow> ck_uids c = []) \<and>
     (\<forall>e. map_of (ck_uids c) ''audienceNetwork'' = Some e \<longrightarrow> ue_UID e \<noteq> ''0'')"

lemma cookie_inv_New: "cookie_inv NewCookie"
  by (simp add: cookie_inv_def NewCookie_def)

lemma cookie_inv_SetOptOut: "cookie_inv c \<Longrightarrow> cookie_inv (SetOptOut b c)"
  by (simp add: cookie_inv_def SetOptOut_def)

lemma cookie_inv_Sync: "cookie_inv c \<Longrightarrow> Cookie_Sync now key uid c = Inr c' \<Longrightarrow> cookie_inv c'"
  by (auto simp: cookie_inv_def Cookie_Sync_def AllowSyncs_def checkAudienceNetwork_def split: if_splits)

lemma cookie_inv_Unsync: "cookie_inv c \<Longrightarrow> cookie_inv (Unsync key c)"
  by (auto simp: cookie_inv_def Unsync_def)

lemma cookie_inv_Unmarshal:
  "(\<And>j m. contract = Some j \<Longrightarrow> cj_UIDs j = Some m \<Longrightarrow> wf_map m) \<Longrightarrow> UnmarshalJSON contract = Some c \<Longrightarrow> cookie_inv c"
  by (auto simp: cookie_inv_def UnmarshalJSON_def Let_def split: option.splits if_splits)

lemma cookie_inv_Decode:
  assumes "\<And>j m. parse v = Some j \<Longrightarrow> cj_UIDs j = Some m \<Longrightarrow> wf_map m"
  shows "cookie_inv (Decode parse v)"
  using cookie_inv_Unmarshal [of "parse v", OF assms] cookie_inv_New by (simp add: Decode_def split: option.split)

lemma cookie_inv_Read:
  assumes "\<And>v j m. parse v = Some j \<Longrightarrow> cj_UIDs j = Some m \<Longrightarrow> wf_map m"
  shows "cookie_inv (ReadCookie parse r host)"
  using cookie_inv_Decode [of parse, OF assms] cookie_inv_New cookie_inv_SetOptOut [OF cookie_inv_New]
  by (auto simp: ReadCookie_def checkHostCookieOptOut_def split: option.splits if_splits)

lemma cookie_inv_SyncHost: "cookie_inv c \<Longrightarrow> cookie_inv (SyncHostCookie now r host c)"
  using cookie_inv_Sync by (auto simp: SyncHostCookie_def split: option.splits sum.splits)

lemma cookie_inv_del: "cookie_inv c \<Longrightarrow> cookie_inv (c\<lparr>ck_uids := map_del k (ck_uids c)\<rparr>)"
  using cookie_inv_Unsync by (simp add: Unsync_def)

lemma cookie_inv_Prepare:
  "cookie_inv c \<Longrightarrow> PrepareCookieForWrite n cfg encode c p = Some (res, c', p') \<Longrightarrow> cookie_inv c'"
proof (induction n cfg encode c p rule: PrepareCookieForWrite.induct)
  case (2 n cfg encode c p)
  then show ?case
    by (auto simp: prepare_pass_def cookie_inv_del split: prepare_step.splits option.splits if_splits)
qed simp

text \<open>The cookies a request can lead to: read, then changed by the operations of the endpoints in any order.\<close>

inductive cookie_reach :: "(string \<Rightarrow> cookieJson option) \<Rightarrow> HostCookie \<Rightarrow> Cookie \<Rightarrow> bool" for parse host where
  read: "cookie_reach parse host (ReadCookie parse r host)"
| host: "cookie_reach parse host c \<Longrightarrow> cookie_reach parse host (SyncHostCookie now r host c)"
| sync: "cookie_reach parse host c \<Longrightarrow> Cookie_Sync now key uid c = Inr c' \<Longrightarrow> cookie_reach parse host c'"
| unsync: "cookie_reach parse host c \<Longrightarrow> cookie_reach parse host (Unsync key c)"
| opt: "cookie_reach parse host c \<Longrightarrow> cookie_reach parse host (SetOptOut b c)"
| prepare: "cookie_reach parse host c \<Longrightarrow> PrepareCookieForWrite n host encode c p = Some (res, c', p') \<Longrightarrow>
    cookie_reach parse host c'"

text \<open>
  Whatever sequence of operations follows the reading of a request's cookie, a user who opted out has no IDs in the
  cookie, no bidder has two, and the \<^verbatim>\<open>audienceNetwork\<close> placeholder \<^verbatim>\<open>0\<close> is never stored.
\<close>

theorem cookie_reach_inv:
  assumes "cookie_reach parse host c" "\<And>v j m. parse v = Some j \<Longrightarrow> cj_UIDs j = Some m \<Longrightarrow> wf_map m"
  shows "cookie_inv c"
  using assms(1)
proof (induction rule: cookie_reach.induct)
  case (read r)
  show ?case using assms(2) by (rule cookie_inv_Read)
qed (auto intro: cookie_inv_SyncHost cookie_inv_Sync cookie_inv_Unsync cookie_inv_SetOptOut cookie_inv_Prepare)

definition sample_host :: HostCookie where
  "sample_host = \<lparr>hc_MaxCookieSizeBytes = 60, hc_Family = ''adnxs'', hc_CookieName = ''uuid2'', hc_OptOutName = [], hc_OptOutValue = []\<rparr>"

definition sample_json :: cookieJson where
  "sample_json = \<lparr>cj_UIDs = Some [(''audienceNetwork'', \<lparr>ue_UID = ''0'', ue_Expires = 5\<rparr>), (''rubicon'', \<lparr>ue_UID = ''u'', ue_Expires = 9\<rparr>)],
     cj_OptOut = False\<rparr>"

theorem cookie_reach_inv_witness:
  "cookie_inv (Unsync ''x'' (ReadCookie (\<lambda>_. Some sample_json) [(''uids'', ''abc'')] sample_host)) \<and>
   ck_uids (ReadCookie (\<lambda>_. Some sample_json) [(''uids'', ''abc'')] sample_host) = [(''rubicon'', \<lparr>ue_UID = ''u'', ue_Expires = 9\<rparr>)]"
proof
  have "cookie_reach (\<lambda>_. Some sample_json) sample_host
      (Unsync ''x'' (ReadCookie (\<lambda>_. Some sample_json) [(''uids'', ''abc'')] sample_host))"
    by (rule cookie_reach.unsync [OF cookie_reach.read])
  then show "cookie_inv (Unsync ''x'' (ReadCookie (\<lambda>_. Some sample_json) [(''uids'', ''abc'')] sample_host))"
    by (rule cookie_reach_inv) (auto simp: sample_json_def wf_map_def)
qed (simp add: ReadCookie_def checkHostCookieOptOut_def Decode_def UnmarshalJSON_def sample_host_def sample_json_def Let_def)

text \<open>
  Writing a cookie and reading it back gives the same cookie: for a cookie that satisfies the invariant, decoding what
  the encoder made of it restores its IDs, their expiry and the opt-out, provided the JSON and base64 layer below is
  faithful on that cookie.
\<close>

theorem cookie_roundtrip:
  assumes "cookie_inv c" "parse (print (MarshalJSON c)) = Some (MarshalJSON c)"
  shows "Decode parse (print (MarshalJSON c)) = c"
  using assms by (cases c) (auto simp: Decode_def UnmarshalJSON_def MarshalJSON_def cookie_inv_def Let_def split: option.splits)

theorem cookie_roundtrip_witness:
  "Decode (\<lambda>v. if v = ''e30='' then Some \<lparr>cj_UIDs = None, cj_OptOut = True\<rparr> else None)
     ((\<lambda>j. if cj_OptOut j then ''e30='' else []) (MarshalJSON \<lparr>ck_uids = [], ck_optOut = True\<rparr>)) = \<lparr>ck_uids = [], ck_optOut = True\<rparr>"
  by (rule cookie_roundtrip) (simp_all add: cookie_inv_def MarshalJSON_def)

section \<open>The ejectors' choice\<close>

lemma oldest_loop_min:
  "oldest_loop uids k0 d0 = k0 \<and> (\<forall>k e. (k, e) \<in> set uids \<longrightarrow> d0 \<le> ue_Expires e) \<or>
   (\<exists>e. (oldest_loop uids k0 d0, e) \<in> set uids \<and> ue_Expires e < d0 \<and>
     (\<forall>k' e'. (k', e') \<in> set uids \<longrightarrow> ue_Expires e \<le> ue_Expires e'))"
proof (induction uids k0 d0 rule: oldest_loop.induct)
  case (2 key v rest k0 d0)
  show ?case
  proof (cases "ue_Expires v < d0")
    case True
    from "2.IH"(1) [OF True] True show ?thesis by (elim disjE exE conjE) (simp, fastforce)+
  next
    case False
    from "2.IH"(2) [OF False] False show ?thesis by (elim disjE exE conjE) (simp, fastforce)+
  qed
qed simp

text \<open>Every entry expires before the latest instant.\<close>

definition dated :: "(string, UIDEntry) gomap \<Rightarrow> bool" where
  "dated uids \<longleftrightarrow> (\<forall>(k, e) \<in> set uids. ue_Expires e < max_time)"

lemma OldestEjector_oldest:
  assumes "uids \<noteq> []" "dated uids"
  shows "\<exists>e. (OldestEjector_Choose uids, e) \<in> set uids \<and> (\<forall>k' e'. (k', e') \<in> set uids \<longrightarrow> ue_Expires e \<le> ue_Expires e')"
proof -
  obtain k e where "(k, e) \<in> set uids" using assms(1) by (cases uids) auto
  moreover with assms(2) have "\<not> max_time \<le> ue_Expires e" by (auto simp: dated_def)
  ultimately show ?thesis unfolding OldestEjector_Choose_def using oldest_loop_min [of uids "[]" max_time] by blast
qed

lemma OldestEjector_empty [simp]: "OldestEjector_Choose [] = []"
  by (simp add: OldestEjector_Choose_def)

lemma set_getNonPriorityUids: "set (getNonPriorityUids uids groups syncers) \<subseteq> set uids"
  by (auto simp: getNonPriorityUids_def)

lemma dated_subset: "dated uids \<Longrightarrow> set uids' \<subseteq> set uids \<Longrightarrow> dated uids'"
  by (auto simp: dated_def)

lemma getNonPriority_empty:
  "getNonPriorityUids uids groups syncers = [] \<longleftrightarrow> uids = [] \<or> groups \<noteq> [] \<and> (\<forall>k \<in> fst ` set uids. isPriority groups syncers k)"
  by (auto simp: getNonPriorityUids_def filter_empty_conv)

lemma getPriorityUids_loop_set:
  "(k, e) \<in> set (getPriorityUids_loop bs uids syncers acc) \<Longrightarrow>
   (k, e) \<in> set acc \<or> (\<exists>b \<in> set bs. map_of syncers b = Some k) \<and> map_of uids k = Some e"
proof (induction bs uids syncers acc rule: getPriorityUids_loop.induct)
  case (2 bidder rest uids syncers acc)
  have put: "(k, e) \<in> set (map_put k' e' acc) \<Longrightarrow> (k, e) \<in> set acc \<or> k = k' \<and> e = e'" for k' e'
    by (induction acc) (auto split: if_splits)
  from "2.IH" "2.prems" put show ?case by (fastforce split: option.splits)
qed simp

lemma getPriorityUids_set:
  "(k, e) \<in> set (getPriorityUids bs uids syncers) \<Longrightarrow> (\<exists>b \<in> set bs. map_of syncers b = Some k) \<and> map_of uids k = Some e"
  using getPriorityUids_loop_set by (fastforce simp: getPriorityUids_def)

lemma getPriorityUids_loop_empty:
  "getPriorityUids_loop bs uids syncers acc = [] \<longleftrightarrow>
   acc = [] \<and> (\<forall>b \<in> set bs. \<forall>k. map_of syncers b = Some k \<longrightarrow> map_of uids k = None)"
proof (induction bs uids syncers acc rule: getPriorityUids_loop.induct)
  case (2 bidder rest uids syncers acc)
  have "map_put k e acc \<noteq> []" for k e by (cases acc) auto
  with "2.IH" show ?case by (auto split: option.splits)
qed simp

lemma getPriorityUids_empty:
  "getPriorityUids bs uids syncers = [] \<longleftrightarrow> (\<forall>b \<in> set bs. \<forall>k. map_of syncers b = Some k \<longrightarrow> map_of uids k = None)"
  by (simp add: getPriorityUids_def getPriorityUids_loop_empty)

lemma PriorityGroups_remove:
  assumes "pe_len p \<le> length (pe_array p)" "pe_len p \<noteq> 0"
  shows "PriorityGroups (removeElementFromPriorityGroup p k) =
     (let lowest = last (PriorityGroups p) in
      if length lowest \<le> 1 then butlast (PriorityGroups p) else butlast (PriorityGroups p) @ [remove1 k lowest])"
proof -
  obtain n where n: "pe_len p = Suc n" using assms(2) by (cases "pe_len p") auto
  have low: "last (PriorityGroups p) = pe_array p ! n"
    using assms n by (simp add: PriorityGroups_def take_Suc_conv_app_nth)
  have but: "butlast (PriorityGroups p) = take n (pe_array p)"
    using assms n by (simp add: PriorityGroups_def butlast_take)
  have upd: "take (Suc n) ((pe_array p)[n := x]) = take n (pe_array p) @ [x]" for x
    using assms n by (simp add: take_Suc_conv_app_nth)
  show ?thesis
    unfolding low but Let_def using upd n
    by (simp add: removeElementFromPriorityGroup_def PriorityGroups_def Let_def)
qed

lemma lowest_last: "pe_len p \<le> length (pe_array p) \<Longrightarrow> pe_len p \<noteq> 0 \<Longrightarrow> pe_array p ! (pe_len p - 1) = last (PriorityGroups p)"
  by (cases "pe_len p") (simp_all add: PriorityGroups_def take_Suc_conv_app_nth)

definition ejector_ok :: "PriorityBidderEjector \<Rightarrow> bool" where
  "ejector_ok p \<longleftrightarrow> pe_len p \<le> length (pe_array p)"

lemma ejector_ok_remove [simp]: "ejector_ok p \<Longrightarrow> ejector_ok (removeElementFromPriorityGroup p k)"
  by (auto simp: ejector_ok_def removeElementFromPriorityGroup_def Let_def)

lemma syncers_remove [simp]: "pe_SyncersByBidder (removeElementFromPriorityGroup p k) = pe_SyncersByBidder p"
  by (simp add: removeElementFromPriorityGroup_def Let_def)

lemma Choose_cases:
  assumes "PriorityBidderEjector_Choose p uids = Some (k, p')" "ejector_ok p" "uids \<noteq> []"
  obtains (nonpriority) "getNonPriorityUids uids (PriorityGroups p) (pe_SyncersByBidder p) \<noteq> []"
      "k = OldestEjector_Choose (getNonPriorityUids uids (PriorityGroups p) (pe_SyncersByBidder p))" "p' = p"
    | (lowest) "PriorityGroups p \<noteq> []" "\<forall>k \<in> fst ` set uids. isPriority (PriorityGroups p) (pe_SyncersByBidder p) k"
      "p' = removeElementFromPriorityGroup p k"
      "if length (last (PriorityGroups p)) = 1 then last (PriorityGroups p) = [k]
       else k = OldestEjector_Choose (getPriorityUids (last (PriorityGroups p)) uids (pe_SyncersByBidder p))"
proof (cases "getNonPriorityUids uids (PriorityGroups p) (pe_SyncersByBidder p) = []")
  case False
  with assms(1) show ?thesis by (intro nonpriority) (auto simp: PriorityBidderEjector_Choose_def Let_def split: if_splits)
next
  case True
  then have g: "PriorityGroups p \<noteq> []" and pr: "\<forall>k \<in> fst ` set uids. isPriority (PriorityGroups p) (pe_SyncersByBidder p) k"
    using assms(3) by (auto simp: getNonPriority_empty)
  have low: "pe_array p ! (pe_len p - 1) = last (PriorityGroups p)"
    using g assms(2) by (intro lowest_last) (auto simp: PriorityGroups_def ejector_ok_def)
  have "l = [l ! 0]" if "length l = 1" for l :: "string list" using that by (cases l) auto
  with assms(1) True show ?thesis
    by (intro lowest [OF g pr]) (auto simp: PriorityBidderEjector_Choose_def Let_def low simp del: One_nat_def split: if_splits)
qed

lemma Choose_ejector:
  assumes "PriorityBidderEjector_Choose p uids = Some (k, p')" "ejector_ok p" "uids \<noteq> []"
  shows "ejector_ok p' \<and> pe_SyncersByBidder p' = pe_SyncersByBidder p"
  using Choose_cases [OF assms] assms(2) by (metis ejector_ok_remove syncers_remove)

lemma prepare_pass_Continue:
  "prepare_pass cfg encode c p = Continue c' p' \<longleftrightarrow>
   (\<exists>enc k. 2 \<le> length (ck_uids c) \<and> encode c = Some enc \<and> isCookieTooBig cfg enc \<and>
      PriorityBidderEjector_Choose p (ck_uids c) = Some (k, p') \<and> c' = c\<lparr>ck_uids := map_del k (ck_uids c)\<rparr>)"
proof -
  have "2 \<le> length xs \<longleftrightarrow> xs \<noteq> [] \<and> length xs \<noteq> 1" for xs :: "(string, UIDEntry) gomap"
    by (cases xs) (auto simp: Suc_le_eq)
  then show ?thesis by (auto simp: prepare_pass_def split: option.splits if_splits)
qed

lemma set_map_del: "set (map_del k m) = {(k', v) \<in> set m. k' \<noteq> k}"
  by (auto simp: AList.delete_eq)

text \<open>What the loop returns: a cookie that fits, or an error; and it only ever drops IDs.\<close>

lemma Prepare_fits:
  assumes "PrepareCookieForWrite n cfg encode c p = Some (res, c', p')"
  shows "set (ck_uids c') \<subseteq> set (ck_uids c) \<and> ck_optOut c' = ck_optOut c \<and>
     (case res of
        Inr enc \<Rightarrow> ck_uids c' = [] \<or> encode c' = None \<and> enc = [] \<or> encode c' = Some enc \<and> \<not> isCookieTooBig cfg enc
      | Inl e \<Rightarrow> \<exists>enc. encode c' = Some enc \<and> isCookieTooBig cfg enc)"
  using assms
proof (induction n cfg encode c p rule: PrepareCookieForWrite.induct)
  case (2 n cfg encode c p)
  show ?case
  proof (cases "prepare_pass cfg encode c p")
    case (Return r)
    with "2.prems" show ?thesis by (auto simp: prepare_pass_def split: option.splits if_splits)
  next
    case (Continue c1 p1)
    then obtain k where c1: "c1 = c\<lparr>ck_uids := map_del k (ck_uids c)\<rparr>" by (auto simp: prepare_pass_Continue)
    have "PrepareCookieForWrite n cfg encode c1 p1 = Some (res, c', p')" using "2.prems" Continue by simp
    from "2.IH" [OF Continue this] c1 show ?thesis by (auto simp: set_map_del)
  qed
qed simp

lemma ejected_nonpriority:
  assumes "getNonPriorityUids uids groups syncers \<noteq> []" "dated uids"
  shows "\<exists>e. (OldestEjector_Choose (getNonPriorityUids uids groups syncers), e) \<in> set uids \<and>
     (groups = [] \<or> \<not> isPriority groups syncers (OldestEjector_Choose (getNonPriorityUids uids groups syncers)))"
  using OldestEjector_oldest [OF assms(1) dated_subset [OF assms(2) set_getNonPriorityUids]]
  by (auto simp: getNonPriorityUids_def split: if_splits)

lemma Prepare_priority_last:
  assumes "PrepareCookieForWrite n cfg encode c p = Some (res, c', p')" "ejector_ok p" "dated (ck_uids c)"
    and "pe_SyncersByBidder p = syncers" "groups \<noteq> []"
    and "PriorityGroups p = groups \<or> (\<forall>k \<in> fst ` set (ck_uids c). isPriority groups syncers k)"
  shows "(\<forall>k \<in> fst ` set (ck_uids c'). isPriority groups syncers k) \<or>
     (\<forall>k e. (k, e) \<in> set (ck_uids c) \<longrightarrow> isPriority groups syncers k \<longrightarrow> (k, e) \<in> set (ck_uids c'))"
  using assms
proof (induction n cfg encode c p rule: PrepareCookieForWrite.induct)
  case (2 n cfg encode c p)
  show ?case
  proof (cases "\<forall>k \<in> fst ` set (ck_uids c). isPriority groups syncers k")
    case True
    with Prepare_fits [OF "2.prems"(1)] show ?thesis by fastforce
  next
    case False
    then have gs: "PriorityGroups p = groups" using "2.prems"(6) by blast
    show ?thesis
    proof (cases "prepare_pass cfg encode c p")
      case (Return r)
      with "2.prems"(1) show ?thesis by simp
    next
      case (Continue c1 p1)
      then obtain k where len: "2 \<le> length (ck_uids c)" and k: "PriorityBidderEjector_Choose p (ck_uids c) = Some (k, p1)"
        and c1: "c1 = c\<lparr>ck_uids := map_del k (ck_uids c)\<rparr>"
        by (auto simp: prepare_pass_Continue)
      have rec: "PrepareCookieForWrite n cfg encode c1 p1 = Some (res, c', p')" using "2.prems"(1) Continue by simp
      have dated1: "dated (ck_uids c1)" using "2.prems"(3) by (rule dated_subset) (auto simp: c1 set_map_del)
      have ne: "ck_uids c \<noteq> []" using len by auto
      from k "2.prems"(2) ne show ?thesis
      proof (cases rule: Choose_cases)
        case nonpriority
        then have np: "\<not> isPriority groups syncers k"
          using ejected_nonpriority [OF nonpriority(1) "2.prems"(3)] gs "2.prems"(4,5) by auto
        from "2.IH" [OF Continue rec _ dated1] nonpriority "2.prems" gs
        have "(\<forall>k \<in> fst ` set (ck_uids c'). isPriority groups syncers k) \<or>
          (\<forall>k e. (k, e) \<in> set (ck_uids c1) \<longrightarrow> isPriority groups syncers k \<longrightarrow> (k, e) \<in> set (ck_uids c'))" by simp
        with np show ?thesis by (auto simp: c1 set_map_del)
      next
        case lowest
        with False gs "2.prems"(4) show ?thesis by simp
      qed
    qed
  qed
qed simp

text \<open>
  What a cookie is reduced to before it is written: the encoded value belongs to the cookie that is left and fits the
  size limit, no ID is added or changed, and an ID of a prioritised bidder is dropped only if no other ID is left.
\<close>

theorem prepared_cookie_fits:
  assumes "PrepareCookieForWrite n cfg encode c (setuid_ejector groups syncers bidder) = Some (Inr enc, c', p')"
    and "dated (ck_uids c)" "groups \<noteq> []"
  shows "(ck_uids c' = [] \<or> encode c' = None \<or> encode c' = Some enc \<and> \<not> isCookieTooBig cfg enc) \<and>
     set (ck_uids c') \<subseteq> set (ck_uids c) \<and>
     ((\<forall>k \<in> fst ` set (ck_uids c'). isPriority groups syncers k) \<or>
      (\<forall>k e. (k, e) \<in> set (ck_uids c) \<longrightarrow> isPriority groups syncers k \<longrightarrow> (k, e) \<in> set (ck_uids c')))"
  using Prepare_fits [OF assms(1)] Prepare_priority_last [OF assms(1) _ assms(2), of syncers groups] assms(3)
  by (auto simp: setuid_ejector_def ejector_ok_def PriorityGroups_def)

definition two_uids :: "(string, UIDEntry) gomap" where
  "two_uids = [(''a'', \<lparr>ue_UID = ''1'', ue_Expires = 5\<rparr>), (''b'', \<lparr>ue_UID = ''2'', ue_Expires = 3\<rparr>)]"

text \<open>An encoder that writes one character per ID.\<close>

definition short_encode :: "nat \<Rightarrow> Cookie \<Rightarrow> string option" where
  "short_encode n c = Some (concat (map (\<lambda>_. replicate n CHR ''x'') (ck_uids c)))"

lemmas cookie_examples = two_uids_def short_encode_def sample_host_def setuid_ejector_def isSyncerPriority_def PriorityGroups_def
  prepare_pass_def PriorityBidderEjector_Choose_def getNonPriorityUids_def isPriority_def checkSyncerPriority_def Let_def
  OldestEjector_Choose_def max_time_def isCookieTooBig_def cookieSize_def EqualFold_def ToLower_def to_lower_def

theorem prepared_cookie_fits_witness:
  "\<exists>c' p'. PrepareCookieForWrite 2 sample_host (short_encode 5) \<lparr>ck_uids = two_uids, ck_optOut = False\<rparr>
      (setuid_ejector [[''b'']] [(''a'', ''a''), (''b'', ''b'')] ''b'') = Some (Inr ''xxxxx'', c', p') \<and>
     ck_uids c' = [(''b'', \<lparr>ue_UID = ''2'', ue_Expires = 3\<rparr>)] \<and> set (ck_uids c') \<subseteq> set two_uids"
proof -
  let ?c = "\<lparr>ck_uids = [(''b'', \<lparr>ue_UID = ''2'', ue_Expires = 3\<rparr>)], ck_optOut = False\<rparr>"
  let ?p = "setuid_ejector [[''b'']] [(''a'', ''a''), (''b'', ''b'')] ''b''"
  have run: "PrepareCookieForWrite 2 sample_host (short_encode 5) \<lparr>ck_uids = two_uids, ck_optOut = False\<rparr> ?p = Some (Inr ''xxxxx'', ?c, ?p)"
    by (simp add: cookie_examples numeral_eq_Suc)
  have "dated two_uids" by (simp add: dated_def two_uids_def max_time_def)
  with prepared_cookie_fits [OF run] have "set (ck_uids ?c) \<subseteq> set two_uids" by simp
  with run show ?thesis by auto
qed

section \<open>Termination of the loop\<close>

text \<open>
  Every prioritised bidder has an ID in the cookie, under its own name, no group is empty and no bidder is in two places. A host
  without priority groups is included.
\<close>

definition ejector_live :: "PriorityBidderEjector \<Rightarrow> (string, UIDEntry) gomap \<Rightarrow> bool" where
  "ejector_live p uids \<longleftrightarrow> ejector_ok p \<and> distinct (concat (PriorityGroups p)) \<and> [] \<notin> set (PriorityGroups p) \<and>
     (\<forall>b \<in> set (concat (PriorityGroups p)). map_of (pe_SyncersByBidder p) b = Some b \<and> map_has uids b)"

lemma live_lowest:
  assumes "ejector_live p uids" "dated uids" "PriorityGroups p \<noteq> []"
    and "if length (last (PriorityGroups p)) = 1 then last (PriorityGroups p) = [k]
       else k = OldestEjector_Choose (getPriorityUids (last (PriorityGroups p)) uids (pe_SyncersByBidder p))"
  shows "k \<in> set (last (PriorityGroups p))"
proof (cases "length (last (PriorityGroups p)) = 1")
  case True
  with assms(4) show ?thesis by simp
next
  case False
  let ?L = "last (PriorityGroups p)"
  let ?U = "getPriorityUids ?L uids (pe_SyncersByBidder p)"
  have L: "?L \<in> set (PriorityGroups p)" using assms(3) by simp
  then have live: "\<forall>b \<in> set ?L. map_of (pe_SyncersByBidder p) b = Some b \<and> map_has uids b" and "?L \<noteq> []"
    using assms(1) by (auto simp: ejector_live_def)
  then have "?U \<noteq> []" by (cases ?L) (auto simp: getPriorityUids_empty)
  moreover have "dated ?U" using assms(2) by (rule dated_subset) (auto dest: getPriorityUids_set map_of_SomeD)
  ultimately obtain e where "(k, e) \<in> set ?U" using OldestEjector_oldest assms(4) False by metis
  with live show ?thesis by (auto dest: getPriorityUids_set)
qed

lemma live_groups_remove:
  assumes "distinct (concat gs)" "[] \<notin> set gs" "gs \<noteq> []" "k \<in> set (last gs)"
    and "gs' = (if length (last gs) \<le> 1 then butlast gs else butlast gs @ [remove1 k (last gs)])"
  shows "distinct (concat gs') \<and> [] \<notin> set gs' \<and> set (concat gs') = set (concat gs) - {k}"
proof -
  obtain hs L where gs: "gs = hs @ [L]" using assms(3) by (metis append_butlast_last_id)
  have "L = [k]" if "length L \<le> 1" using that assms(4) gs by (cases L) auto
  moreover have "remove1 k L \<noteq> []" if "\<not> length L \<le> 1" using that by (auto simp: length_remove1 dest!: arg_cong [where f = length] split: if_splits)
  ultimately show ?thesis using assms gs by (auto simp: distinct_remove1)
qed

lemma live_Choose:
  assumes "PriorityBidderEjector_Choose p uids = Some (k, p')" "uids \<noteq> []" "ejector_live p uids" "dated uids"
  shows "map_has uids k \<and> ejector_live p' (map_del k uids)"
proof -
  have ok: "ejector_ok p" using assms(3) by (simp add: ejector_live_def)
  from assms(1) ok assms(2) show ?thesis
  proof (cases rule: Choose_cases)
    case nonpriority
    from ejected_nonpriority [OF nonpriority(1) assms(4)] nonpriority(2) obtain e where
      e: "(k, e) \<in> set uids" and np: "PriorityGroups p = [] \<or> \<not> isPriority (PriorityGroups p) (pe_SyncersByBidder p) k" by auto
    have "b \<noteq> k" if "b \<in> set (concat (PriorityGroups p))" for b
      using that np assms(3) by (fastforce simp: ejector_live_def isPriority_def list_ex_iff)
    moreover have "map_has uids k" using e by (metis domI dom_map_of_conv_image_fst fst_conv image_eqI domIff)
    ultimately show ?thesis using assms(3) nonpriority(3) by (auto simp: ejector_live_def)
  next
    case lowest
    have k: "k \<in> set (last (PriorityGroups p))" by (rule live_lowest [OF assms(3,4) lowest(1,4)])
    with lowest(1) have "k \<in> set (concat (PriorityGroups p))" by auto
    moreover have "PriorityGroups p' = (if length (last (PriorityGroups p)) \<le> 1 then butlast (PriorityGroups p)
        else butlast (PriorityGroups p) @ [remove1 k (last (PriorityGroups p))])"
      using PriorityGroups_remove [of p k] lowest ok by (auto simp: ejector_ok_def PriorityGroups_def Let_def)
    note live_groups_remove [OF _ _ lowest(1) k this]
    ultimately show ?thesis using assms(3) lowest(3) by (auto simp: ejector_live_def)
  qed
qed

text \<open>
  C19. The loop that shrinks the cookie returns, after at most one pass per ID, when every prioritised bidder has an ID of its own
  in the cookie, in particular when the host has no priority groups.
\<close>

theorem PrepareCookieForWrite_returns:
  assumes "ejector_live p (ck_uids c)" "dated (ck_uids c)" "length (ck_uids c) < n"
  shows "\<exists>res c' p'. PrepareCookieForWrite n cfg encode c p = Some (res, c', p')"
  using assms
proof (induction n cfg encode c p rule: PrepareCookieForWrite.induct)
  case (2 n cfg encode c p)
  show ?case
  proof (cases "prepare_pass cfg encode c p")
    case (Continue c1 p1)
    then obtain k where len: "2 \<le> length (ck_uids c)" and k: "PriorityBidderEjector_Choose p (ck_uids c) = Some (k, p1)"
      and c1: "c1 = c\<lparr>ck_uids := map_del k (ck_uids c)\<rparr>"
      by (auto simp: prepare_pass_Continue)
    from len have ne: "ck_uids c \<noteq> []" by auto
    have live: "map_has (ck_uids c) k" "ejector_live p1 (ck_uids c1)"
      using live_Choose [OF k ne "2.prems"(1,2)] c1 by simp_all
    moreover have "dated (ck_uids c1)" using "2.prems"(2) by (rule dated_subset) (auto simp: c1 set_map_del)
    moreover have "length (ck_uids c1) < n" using length_map_del_less [OF live(1)] "2.prems"(3) c1 by simp
    ultimately show ?thesis using "2.IH" [OF Continue] Continue by simp
  qed simp
qed simp

theorem PrepareCookieForWrite_returns_witness:
  "\<exists>res c' p'. PrepareCookieForWrite 3 sample_host (short_encode 9) \<lparr>ck_uids = two_uids, ck_optOut = False\<rparr>
      (setuid_ejector [[''b'', ''a'']] [(''a'', ''a''), (''b'', ''b'')] ''b'') = Some (res, c', p')"
  by (rule PrepareCookieForWrite_returns)
     (simp_all add: ejector_live_def ejector_ok_def dated_def max_time_def setuid_ejector_def PriorityGroups_def two_uids_def)

text \<open>
  A state the loop cannot leave: all IDs belong to prioritised bidders, and the lowest group has at least two bidders, none of
  them with an ID in the cookie.
\<close>

definition ejector_stuck :: "PriorityBidderEjector \<Rightarrow> (string, UIDEntry) gomap \<Rightarrow> bool" where
  "ejector_stuck p uids \<longleftrightarrow> ejector_ok p \<and> PriorityGroups p \<noteq> [] \<and>
     (\<forall>k \<in> fst ` set uids. isPriority (PriorityGroups p) (pe_SyncersByBidder p) k) \<and>
     2 \<le> length (last (PriorityGroups p)) \<and> [] \<notin> set (last (PriorityGroups p)) \<and> [] \<notin> fst ` set uids \<and>
     (\<forall>b \<in> set (last (PriorityGroups p)). \<forall>k. map_of (pe_SyncersByBidder p) b = Some k \<longrightarrow> \<not> map_has uids k)"

lemma remove_absent:
  assumes "k \<notin> set (pe_array p ! (pe_len p - 1))" "2 \<le> length (pe_array p ! (pe_len p - 1))"
  shows "removeElementFromPriorityGroup p k = p"
  using assms by (simp add: removeElementFromPriorityGroup_def Let_def remove1_idem)

lemma stuck_Choose:
  assumes "ejector_stuck p uids" "uids \<noteq> []"
  shows "PriorityBidderEjector_Choose p uids = Some ([], p)"
proof -
  have g: "PriorityGroups p \<noteq> []" "pe_len p \<le> length (pe_array p)" using assms(1) by (simp_all add: ejector_stuck_def ejector_ok_def)
  then have "pe_len p \<noteq> 0" by (auto simp: PriorityGroups_def)
  note low = lowest_last [OF g(2) this]
  have "getNonPriorityUids uids (PriorityGroups p) (pe_SyncersByBidder p) = []"
    using assms by (simp add: getNonPriority_empty ejector_stuck_def)
  moreover have "getPriorityUids (last (PriorityGroups p)) uids (pe_SyncersByBidder p) = []"
    using assms(1) by (simp add: getPriorityUids_empty ejector_stuck_def)
  moreover have "2 \<le> length (last (PriorityGroups p))" "[] \<notin> set (last (PriorityGroups p))"
    using assms(1) by (simp_all add: ejector_stuck_def)
  ultimately show ?thesis using remove_absent [of "[]" p] low
    by (simp add: PriorityBidderEjector_Choose_def checkSyncerPriority_def Let_def del: One_nat_def)
qed

text \<open>
  C17. The loop that shrinks the cookie can run forever: when all IDs of a cookie that is too big belong to prioritised bidders,
  but none to the two or more bidders of the lowest group, each pass drops nothing and changes nothing.
\<close>

theorem PrepareCookieForWrite_diverges:
  assumes "ejector_stuck p (ck_uids c)" "2 \<le> length (ck_uids c)" "encode c = Some enc" "isCookieTooBig cfg enc"
  shows "PrepareCookieForWrite n cfg encode c p = None"
proof -
  have "ck_uids c \<noteq> []" using assms(2) by auto
  then have "PriorityBidderEjector_Choose p (ck_uids c) = Some ([], p)" by (rule stuck_Choose [OF assms(1)])
  moreover have "map_del [] (ck_uids c) = ck_uids c"
    using assms(1) by (intro map_del_absent) (auto simp: ejector_stuck_def map_of_eq_None_iff)
  ultimately have "prepare_pass cfg encode c p = Continue c p"
    using assms by (simp add: prepare_pass_Continue)
  then show ?thesis by (induction n) simp_all
qed

theorem PrepareCookieForWrite_diverges_witness:
  "\<forall>n. PrepareCookieForWrite n sample_host (short_encode 9) \<lparr>ck_uids = two_uids, ck_optOut = False\<rparr>
     (setuid_ejector [[''a'', ''b''], [''c'', ''d'']] [(''a'', ''a''), (''b'', ''b''), (''c'', ''c''), (''d'', ''d'')] ''b'') = None"
  by (intro allI, rule PrepareCookieForWrite_diverges [where enc = "replicate 18 CHR ''x''"])
     (simp_all add: ejector_stuck_def ejector_ok_def cookie_examples numeral_eq_Suc)

text \<open>
  Ejecting an ID takes the bidder out of the host's own configuration: the ejector works on the array of the configured
  priority groups, so after one request the groups every later request sees have lost a bidder.
\<close>

theorem ejection_shrinks_host_config:
  assumes "PriorityBidderEjector_Choose (setuid_ejector groups syncers bidder) uids = Some (k, p')" "uids \<noteq> []"
    and "\<forall>x \<in> fst ` set uids. isPriority groups syncers x" "groups \<noteq> []" "2 \<le> length (last groups)" "k \<in> set (last groups)"
  shows "pe_array p' = butlast groups @ [remove1 k (last groups)] \<and> length (concat (pe_array p')) < length (concat groups)"
proof -
  let ?p = "setuid_ejector groups syncers bidder"
  obtain hs L where gs: "groups = hs @ [L]" using assms(4) by (metis append_butlast_last_id)
  have p: "PriorityGroups ?p = groups" "pe_SyncersByBidder ?p = syncers" "pe_array ?p = groups" "pe_len ?p = length groups"
    by (simp_all add: setuid_ejector_def PriorityGroups_def)
  have "getNonPriorityUids uids groups syncers = []" using assms(2-4) by (simp add: getNonPriority_empty)
  moreover have "ejector_ok ?p" by (simp add: ejector_ok_def p)
  ultimately have "p' = removeElementFromPriorityGroup ?p k"
    using Choose_cases [OF assms(1)] assms(2) p by metis
  with assms(5) have "pe_array p' = butlast groups @ [remove1 k (last groups)]"
    by (simp add: removeElementFromPriorityGroup_def Let_def setuid_ejector_def gs nth_append)
  moreover have "length (remove1 k L) < length L" using assms(5,6) gs by (auto simp: length_remove1)
  ultimately show ?thesis by (simp add: gs)
qed

theorem ejection_shrinks_host_config_witness:
  "\<exists>p'. PriorityBidderEjector_Choose (setuid_ejector [[''a'', ''b'']] [(''a'', ''a''), (''b'', ''b'')] ''b'') two_uids = Some (''b'', p') \<and>
     pe_array p' = [[''a'']]"
proof -
  let ?p = "setuid_ejector [[''a'', ''b'']] [(''a'', ''a''), (''b'', ''b'')] ''b''"
  have run: "PriorityBidderEjector_Choose ?p two_uids = Some (''b'', removeElementFromPriorityGroup ?p ''b'')"
    by (simp add: cookie_examples getPriorityUids_def)
  from ejection_shrinks_host_config [OF run] have "pe_array (removeElementFromPriorityGroup ?p ''b'') = [[''a'']]"
    by (simp add: two_uids_def isPriority_def)
  with run show ?thesis by blast
qed

end
