(* ===== verification/SyncChooser.thy ===== *)
theory SyncChooser
  imports UserCookie
begin

text \<open>
  Package \<^verbatim>\<open>usersync\<close>, the choice of the bidders that may sync the user (\<^verbatim>\<open>chooser.go\<close>, \<^verbatim>\<open>bidderchooser.go\<close>,
  \<^verbatim>\<open>bidderfilter.go\<close>, \<^verbatim>\<open>synctype.go\<close>, \<^verbatim>\<open>shuffler.go\<close>) and the operations of a syncer (\<^verbatim>\<open>syncer.go\<close>).
  The interfaces \<^verbatim>\<open>Privacy\<close>, \<^verbatim>\<open>BidderFilter\<close> and \<^verbatim>\<open>shuffler\<close> are functions; the random numbers of the shuffle and
  the execution of a URL template are parameters.
\<close>

section \<open>Bidder filters and sync types\<close>

datatype BidderFilterMode = BidderFilterModeInclude | BidderFilterModeExclude | OtherMode int

datatype BidderFilter = SpecificBidderFilter "string list" BidderFilterMode | UniformBidderFilter BidderFilterMode

fun Filter_Allowed :: "BidderFilter \<Rightarrow> string \<Rightarrow> bool" where
  "Filter_Allowed (SpecificBidderFilter biddersLookup mode) bidder \<longleftrightarrow>
     (case mode of BidderFilterModeInclude \<Rightarrow> bidder \<in> set biddersLookup
      | BidderFilterModeExclude \<Rightarrow> bidder \<notin> set biddersLookup
      | OtherMode _ \<Rightarrow> False)"
| "Filter_Allowed (UniformBidderFilter mode) bidder \<longleftrightarrow> mode = BidderFilterModeInclude"

definition NewSpecificBidderFilter :: "string list \<Rightarrow> BidderFilterMode \<Rightarrow> BidderFilter" where
  "NewSpecificBidderFilter bidders mode = SpecificBidderFilter (map ToLower bidders) mode"

definition NewUniformBidderFilter :: "BidderFilterMode \<Rightarrow> BidderFilter" where
  "NewUniformBidderFilter mode = UniformBidderFilter mode"

datatype SyncType = SyncTypeUnknown | SyncTypeIFrame | SyncTypeRedirect

record SyncTypeFilter =
  stf_IFrame :: BidderFilter
  stf_Redirect :: BidderFilter

definition ForBidder :: "SyncTypeFilter \<Rightarrow> string \<Rightarrow> SyncType list" where
  "ForBidder t bidder =
     (if Filter_Allowed (stf_IFrame t) bidder then [SyncTypeIFrame] else []) @
     (if Filter_Allowed (stf_Redirect t) bidder then [SyncTypeRedirect] else [])"

section \<open>Syncers\<close>

text \<open>A template is its text.\<close>

record standardSyncer =
  sy_key :: string
  sy_defaultSyncType :: SyncType
  sy_iframe :: "string option"
  sy_redirect :: "string option"
  sy_formatOverride :: string

definition resolveDefaultSyncType :: "string option \<Rightarrow> SyncType" where
  "resolveDefaultSyncType iframe = (if iframe \<noteq> None then SyncTypeIFrame else SyncTypeRedirect)"

definition DefaultResponseFormat :: "standardSyncer \<Rightarrow> SyncType" where
  "DefaultResponseFormat s =
     (if sy_formatOverride s = ''b'' then SyncTypeIFrame
      else if sy_formatOverride s = ''i'' then SyncTypeRedirect
      else sy_defaultSyncType s)"

fun filterSupportedSyncTypes :: "standardSyncer \<Rightarrow> SyncType list \<Rightarrow> SyncType list" where
  "filterSupportedSyncTypes s [] = []"
| "filterSupportedSyncTypes s (t # ts) =
     (case t of
        SyncTypeIFrame \<Rightarrow> if sy_iframe s \<noteq> None then SyncTypeIFrame # filterSupportedSyncTypes s ts else filterSupportedSyncTypes s ts
      | SyncTypeRedirect \<Rightarrow> if sy_redirect s \<noteq> None then SyncTypeRedirect # filterSupportedSyncTypes s ts else filterSupportedSyncTypes s ts
      | SyncTypeUnknown \<Rightarrow> filterSupportedSyncTypes s ts)"

definition SupportsType :: "standardSyncer \<Rightarrow> SyncType list \<Rightarrow> bool" where
  "SupportsType s syncTypes \<longleftrightarrow> filterSupportedSyncTypes s syncTypes \<noteq> []"

datatype sync_type_error = NoSyncTypesProvided | NoSyncTypesSupported | TemplateError string

definition chooseSyncType :: "standardSyncer \<Rightarrow> SyncType list \<Rightarrow> sync_type_error + SyncType" where
  "chooseSyncType s syncTypes =
     (if syncTypes = [] then Inl NoSyncTypesProvided
      else let supported = filterSupportedSyncTypes s syncTypes in
        if supported = [] then Inl NoSyncTypesSupported
        else if sy_defaultSyncType s \<in> set supported then Inr (sy_defaultSyncType s)
        else Inr (hd syncTypes))"

definition chooseTemplate :: "standardSyncer \<Rightarrow> SyncType \<Rightarrow> string option" where
  "chooseTemplate s syncType =
     (case syncType of SyncTypeIFrame \<Rightarrow> sy_iframe s | SyncTypeRedirect \<Rightarrow> sy_redirect s | SyncTypeUnknown \<Rightarrow> None)"

record Sync =
  sn_URL :: string
  sn_Type :: SyncType

text \<open>\<open>None\<close>: a nil template is executed, which panics. The execution of a template gives the URL or an error.\<close>

definition GetSync :: "(string \<Rightarrow> string + string) \<Rightarrow> standardSyncer \<Rightarrow> SyncType list \<Rightarrow> (sync_type_error + Sync) option" where
  "GetSync resolveMacros s syncTypes =
     (case chooseSyncType s syncTypes of
        Inl e \<Rightarrow> Some (Inl e)
      | Inr syncType \<Rightarrow>
          map_option (\<lambda>syncTemplate. case resolveMacros syncTemplate of
              Inl e \<Rightarrow> Inl (TemplateError e)
            | Inr url \<Rightarrow> Inr \<lparr>sn_URL = url, sn_Type = syncType\<rparr>)
            (chooseTemplate s syncType))"

section \<open>Choosing bidders\<close>

text \<open>
  \<^verbatim>\<open>rand.Shuffle\<close> exchanges, for \<open>i\<close> from the last index down to 1, the elements at \<open>i\<close> and at a random index
  up to \<open>i\<close>; the random source gives a number per step, reduced to the range.
\<close>

definition swap_at :: "nat \<Rightarrow> nat \<Rightarrow> 'a list \<Rightarrow> 'a list" where
  "swap_at i j v = v[i := v ! j, j := v ! i]"

fun rand_Shuffle :: "(nat \<Rightarrow> nat) \<Rightarrow> nat \<Rightarrow> 'a list \<Rightarrow> 'a list" where
  "rand_Shuffle rnd 0 v = v"
| "rand_Shuffle rnd (Suc i) v = rand_Shuffle rnd i (if i = 0 then v else swap_at i (rnd i mod Suc i) v)"

definition randomShuffler_shuffle :: "(nat \<Rightarrow> nat) \<Rightarrow> string list \<Rightarrow> string list" where
  "randomShuffler_shuffle rnd v = rand_Shuffle rnd (length v) v"

record Cooperative =
  co_Enabled :: bool
  co_PriorityGroups :: "string list list"

definition shuffledCopy :: "(string list \<Rightarrow> string list) \<Rightarrow> string list \<Rightarrow> string list" where
  "shuffledCopy shuffle a = shuffle a"

definition shuffledAppend :: "(string list \<Rightarrow> string list) \<Rightarrow> string list \<Rightarrow> string list \<Rightarrow> string list" where
  "shuffledAppend shuffle a b = a @ shuffle b"

definition chooseCooperative :: "(string list \<Rightarrow> string list) \<Rightarrow> string list \<Rightarrow> string list \<Rightarrow> string list list \<Rightarrow> string list" where
  "chooseCooperative shuffle requested available priorityGroups =
     (let bidders = shuffledAppend shuffle [] requested;
          bidders = fold (\<lambda>grp bs. shuffledAppend shuffle bs grp) priorityGroups bidders in
      shuffledAppend shuffle bidders available)"

definition choose_bidders :: "(string list \<Rightarrow> string list) \<Rightarrow> string list \<Rightarrow> string list \<Rightarrow> Cooperative \<Rightarrow> string list" where
  "choose_bidders shuffle requested available cooperative =
     (if co_Enabled cooperative then chooseCooperative shuffle requested available (co_PriorityGroups cooperative)
      else if requested = [] then shuffledCopy shuffle available
      else shuffledCopy shuffle requested)"

section \<open>Evaluation\<close>

datatype Status = StatusOK | StatusBlockedByUserOptOut | StatusAlreadySynced | StatusUnknownBidder | StatusRejectedByFilter
  | StatusDuplicate | StatusBlockedByPrivacy | StatusBlockedByRegulationScope | StatusUnconfiguredBidder
  | StatusBlockedByDisabledUsersync

record Privacy =
  GDPRAllowsHostCookie :: bool
  GDPRInScope :: bool
  GDPRAllowsBidderSync :: "string \<Rightarrow> bool"
  CCPAAllowsBidderSync :: "string \<Rightarrow> bool"
  ActivityAllowsUserSync :: "string \<Rightarrow> bool"

record Request =
  rq_Bidders :: "string list"
  rq_Cooperative :: Cooperative
  rq_Limit :: int
  rq_Privacy :: Privacy
  rq_SyncTypeFilter :: SyncTypeFilter
  rq_GPPSID :: string

record BidderEvaluation =
  be_Bidder :: string
  be_SyncerKey :: string
  be_Status :: Status

record SyncerChoice =
  sc_Bidder :: string
  sc_Syncer :: standardSyncer

record Result =
  rs_BiddersEvaluated :: "BidderEvaluation list"
  rs_Status :: Status
  rs_SyncersChosen :: "SyncerChoice list"

text \<open>The part of a bidder's configuration the chooser reads: its user sync section.\<close>

record SkipWhen =
  sk_GDPR :: bool
  sk_GPPSID :: "string list"

record syncer_info =
  si_Enabled :: "bool option"
  si_SkipWhen :: "SkipWhen option"

record standardChooser =
  ch_bidderSyncerLookup :: "(string, standardSyncer) gomap"
  ch_biddersAvailable :: "string list"
  ch_shuffle :: "string list \<Rightarrow> string list"
  ch_normalizeValidBidderName :: "string \<Rightarrow> string option"
  ch_biddersKnown :: "string list"
  ch_bidderInfo :: "(string, syncer_info option) gomap"

definition NewChooser :: "(string, standardSyncer) gomap \<Rightarrow> string list \<Rightarrow> (string, syncer_info option) gomap \<Rightarrow>
    (string \<Rightarrow> string option) \<Rightarrow> (nat \<Rightarrow> nat) \<Rightarrow> standardChooser" where
  "NewChooser bidderSyncerLookup biddersKnown bidderInfo normalizeBidderName rnd =
     \<lparr>ch_bidderSyncerLookup = bidderSyncerLookup, ch_biddersAvailable = map fst bidderSyncerLookup,
      ch_shuffle = randomShuffler_shuffle rnd, ch_normalizeValidBidderName = normalizeBidderName,
      ch_biddersKnown = biddersKnown, ch_bidderInfo = bidderInfo\<rparr>"

definition evaluate :: "standardChooser \<Rightarrow> time \<Rightarrow> string \<Rightarrow> string list \<Rightarrow> SyncTypeFilter \<Rightarrow> Privacy \<Rightarrow> Cookie option \<Rightarrow> string \<Rightarrow>
    standardSyncer option \<times> BidderEvaluation \<times> string list" where
  "evaluate c now bidder syncersSeen syncTypeFilter privacy cookie GPPSID =
     (case ch_normalizeValidBidderName c bidder of
        None \<Rightarrow> (None, \<lparr>be_Bidder = bidder, be_SyncerKey = [], be_Status = StatusUnknownBidder\<rparr>, syncersSeen)
      | Some bidderNormalized \<Rightarrow>
     (case map_of (ch_bidderSyncerLookup c) bidderNormalized of
        None \<Rightarrow>
          (None, \<lparr>be_Bidder = bidder, be_SyncerKey = [],
                  be_Status = (if bidder \<in> set (ch_biddersKnown c) then StatusUnconfiguredBidder else StatusUnknownBidder)\<rparr>, syncersSeen)
      | Some syncer \<Rightarrow>
          let key = sy_key syncer;
              result = (\<lambda>status. \<lparr>be_Bidder = bidder, be_SyncerKey = key, be_Status = status\<rparr>);
              info = map_get None (ch_bidderInfo c) bidder in
          if key \<in> set syncersSeen then (None, result StatusDuplicate, syncersSeen)
          else
            let seen = key # syncersSeen in
            if \<not> SupportsType syncer (ForBidder syncTypeFilter (ToLower bidder)) then (None, result StatusRejectedByFilter, seen)
            else if HasLiveSync now key cookie then (None, result StatusAlreadySynced, seen)
            else if \<not> ActivityAllowsUserSync privacy bidder then (None, result StatusBlockedByPrivacy, seen)
            else if \<not> GDPRAllowsBidderSync privacy bidderNormalized then (None, result StatusBlockedByPrivacy, seen)
            else if (case info of None \<Rightarrow> False | Some s \<Rightarrow> si_Enabled s = Some False) then (None, result StatusBlockedByDisabledUsersync, seen)
            else if GDPRInScope privacy \<and>
                (case info of None \<Rightarrow> False | Some s \<Rightarrow> (case si_SkipWhen s of None \<Rightarrow> False | Some w \<Rightarrow> sk_GDPR w))
              then (None, result StatusBlockedByRegulationScope, seen)
            else if (case info of None \<Rightarrow> False | Some s \<Rightarrow> (case si_SkipWhen s of None \<Rightarrow> False | Some w \<Rightarrow> GPPSID \<in> set (sk_GPPSID w)))
              then (None, result StatusBlockedByRegulationScope, seen)
            else (Some syncer, result StatusOK, seen)))"

fun choose_loop :: "standardChooser \<Rightarrow> time \<Rightarrow> Request \<Rightarrow> Cookie option \<Rightarrow> string list \<Rightarrow> string list \<Rightarrow> string list \<Rightarrow>
    BidderEvaluation list \<Rightarrow> SyncerChoice list \<Rightarrow> BidderEvaluation list \<times> SyncerChoice list" where
  "choose_loop c now request cookie [] syncersSeen biddersSeen evaluated chosen = (evaluated, chosen)"
| "choose_loop c now request cookie (b # bs) syncersSeen biddersSeen evaluated chosen =
     (if \<not> (rq_Limit request \<le> 0 \<or> int (length chosen) < rq_Limit request) then (evaluated, chosen)
      else if b \<in> set biddersSeen then choose_loop c now request cookie bs syncersSeen biddersSeen evaluated chosen
      else case evaluate c now b syncersSeen (rq_SyncTypeFilter request) (rq_Privacy request) cookie (rq_GPPSID request) of
        (syncer, evaluation, syncersSeen') \<Rightarrow>
          choose_loop c now request cookie bs syncersSeen' (b # biddersSeen) (evaluated @ [evaluation])
            (if be_Status evaluation = StatusOK then chosen @ [\<lparr>sc_Bidder = b, sc_Syncer = the syncer\<rparr>] else chosen))"

definition Choose :: "standardChooser \<Rightarrow> time \<Rightarrow> Request \<Rightarrow> Cookie option \<Rightarrow> Result" where
  "Choose c now request cookie =
     (if \<not> AllowSyncs cookie then \<lparr>rs_BiddersEvaluated = [], rs_Status = StatusBlockedByUserOptOut, rs_SyncersChosen = []\<rparr>
      else if \<not> GDPRAllowsHostCookie (rq_Privacy request) then
        \<lparr>rs_BiddersEvaluated = [], rs_Status = StatusBlockedByPrivacy, rs_SyncersChosen = []\<rparr>
      else
        let bidders = choose_bidders (ch_shuffle c) (rq_Bidders request) (ch_biddersAvailable c) (rq_Cooperative request);
            (evaluated, chosen) = choose_loop c now request cookie bidders [] [] [] [] in
        \<lparr>rs_BiddersEvaluated = evaluated, rs_Status = StatusOK, rs_SyncersChosen = chosen\<rparr>)"

section \<open>The endpoint of cookie syncs\<close>

definition MaxInt :: int where "MaxInt = 2 ^ 63 - 1"

record CookieSync =
  cs_DefaultLimit :: "int option"
  cs_MaxLimit :: "int option"
  cs_DefaultCoopSync :: "bool option"
  cs_PriorityGroups :: "string list list"

definition getEffectiveLimit :: "int option \<Rightarrow> int option \<Rightarrow> int" where
  "getEffectiveLimit reqLimit defaultLimit =
     (let limit = (case reqLimit of None \<Rightarrow> defaultLimit | Some l \<Rightarrow> Some l) in
      case limit of Some l \<Rightarrow> if l > 0 then l else MaxInt | None \<Rightarrow> MaxInt)"

definition getEffectiveMaxLimit :: "int option \<Rightarrow> int" where
  "getEffectiveMaxLimit maxLimit = (case maxLimit of Some l \<Rightarrow> if l > 0 then l else MaxInt | None \<Rightarrow> MaxInt)"

definition setLimit :: "int option \<Rightarrow> CookieSync \<Rightarrow> int" where
  "setLimit reqLimit cfg =
     (let limit = getEffectiveLimit reqLimit (cs_DefaultLimit cfg); maxLimit = getEffectiveMaxLimit (cs_MaxLimit cfg) in
      if maxLimit < limit then maxLimit else limit)"

definition setCooperativeSync :: "bool option \<Rightarrow> CookieSync \<Rightarrow> bool option" where
  "setCooperativeSync reqCoop cfg =
     (if reqCoop = None \<and> cs_DefaultCoopSync cfg \<noteq> None then cs_DefaultCoopSync cfg else reqCoop)"

definition findPriorityGroups :: "string list list \<Rightarrow> CookieSync \<Rightarrow> string list list" where
  "findPriorityGroups hostGroups cfg = (if cs_DefaultCoopSync cfg \<noteq> None then cs_PriorityGroups cfg else hostGroups)"

text \<open>The decoded \<^verbatim>\<open>bidders\<close> value of a filter: a string, an array (\<open>None\<close>: an element that is no string) or something else.\<close>

datatype filter_bidders = FilterString string | FilterArray "string option list" | FilterOther

record cookieSyncRequestFilter =
  rf_Bidders :: filter_bidders
  rf_Mode :: string

definition cookieSyncBidderFilterAllowAll :: BidderFilter where
  "cookieSyncBidderFilterAllowAll = NewUniformBidderFilter BidderFilterModeInclude"

definition parseBidderFilter :: "cookieSyncRequestFilter option \<Rightarrow> BidderFilter option" where
  "parseBidderFilter flt =
     (case flt of None \<Rightarrow> Some cookieSyncBidderFilterAllowAll
      | Some f \<Rightarrow>
          Option.bind (if rf_Mode f = ''include'' then Some BidderFilterModeInclude
                       else if rf_Mode f = ''exclude'' then Some BidderFilterModeExclude else None)
            (\<lambda>mode. case rf_Bidders f of
               FilterString v \<Rightarrow> if v = ''*'' then Some (NewUniformBidderFilter mode) else None
             | FilterArray vs \<Rightarrow> if None \<in> set vs then None else Some (NewSpecificBidderFilter (map the vs) mode)
             | FilterOther \<Rightarrow> None))"

definition parseTypeFilter :: "(cookieSyncRequestFilter option \<times> cookieSyncRequestFilter option) option \<Rightarrow> SyncTypeFilter option" where
  "parseTypeFilter request =
     (case request of
        None \<Rightarrow> Some \<lparr>stf_IFrame = cookieSyncBidderFilterAllowAll, stf_Redirect = cookieSyncBidderFilterAllowAll\<rparr>
      | Some (iframe, redirect) \<Rightarrow>
          Option.bind (parseBidderFilter iframe) (\<lambda>i. Option.bind (parseBidderFilter redirect) (\<lambda>r.
            Some \<lparr>stf_IFrame = i, stf_Redirect = r\<rparr>)))"

text \<open>The syncs of the response; a syncer that gives an error is logged and left out, \<open>None\<close> is a panic.\<close>

fun handleResponse_syncs :: "(string \<Rightarrow> string + string) \<Rightarrow> SyncTypeFilter \<Rightarrow> SyncerChoice list \<Rightarrow> (string \<times> Sync) list option" where
  "handleResponse_syncs resolveMacros tf [] = Some []"
| "handleResponse_syncs resolveMacros tf (choice # rest) =
     (case GetSync resolveMacros (sc_Syncer choice) (ForBidder tf (sc_Bidder choice)) of
        None \<Rightarrow> None
      | Some (Inl e) \<Rightarrow> handleResponse_syncs resolveMacros tf rest
      | Some (Inr sync) \<Rightarrow> map_option (\<lambda>xs. (sc_Bidder choice, sync) # xs) (handleResponse_syncs resolveMacros tf rest))"

section \<open>The contract of a shuffler\<close>

locale shuffler =
  fixes shuffle :: "string list \<Rightarrow> string list"
  assumes mset_shuffle: "mset (shuffle v) = mset v"
begin

lemma set_shuffle: "set (shuffle v) = set v"
  using mset_shuffle [of v] by (metis set_mset_mset)

lemma set_cooperative: "set (chooseCooperative shuffle requested available groups) = set requested \<union> \<Union> (set ` set groups) \<union> set available"
proof -
  have "set (fold (\<lambda>grp bs. shuffledAppend shuffle bs grp) groups bs) = set bs \<union> \<Union> (set ` set groups)" for bs
    by (induction groups arbitrary: bs) (auto simp: shuffledAppend_def set_shuffle)
  then show ?thesis by (simp add: chooseCooperative_def Let_def shuffledAppend_def set_shuffle)
qed

lemma set_choose_bidders:
  "set (choose_bidders shuffle requested available coop) =
     (if co_Enabled coop then set requested \<union> \<Union> (set ` set (co_PriorityGroups coop)) \<union> set available
      else if requested = [] then set available else set requested)"
  by (simp add: choose_bidders_def shuffledCopy_def set_shuffle set_cooperative)

end

lemma mset_swap_at: "i < length v \<Longrightarrow> j < length v \<Longrightarrow> mset (swap_at i j v) = mset v"
  by (simp add: swap_at_def mset_swap)

lemma mset_rand_Shuffle: "n \<le> length v \<Longrightarrow> mset (rand_Shuffle rnd n v) = mset v"
proof (induction n arbitrary: v)
  case (Suc i)
  have j: "rnd i mod Suc i < length v" using Suc.prems less_le_trans [OF mod_less_divisor [of "Suc i" "rnd i"]] by blast
  have len: "length (swap_at i (rnd i mod Suc i) v) = length v" by (simp add: swap_at_def)
  show ?case using Suc.IH [of "swap_at i (rnd i mod Suc i) v"] Suc.IH [of v] Suc.prems j len by (simp add: mset_swap_at)
qed simp

interpretation random: shuffler "randomShuffler_shuffle rnd" for rnd
  by unfold_locales (simp add: randomShuffler_shuffle_def mset_rand_Shuffle)

section \<open>What is chosen\<close>

definition may_sync :: "standardChooser \<Rightarrow> time \<Rightarrow> Request \<Rightarrow> Cookie option \<Rightarrow> string \<Rightarrow> standardSyncer \<Rightarrow> bool" where
  "may_sync c now request cookie bidder syncer \<longleftrightarrow>
     (\<exists>name. ch_normalizeValidBidderName c bidder = Some name \<and> map_of (ch_bidderSyncerLookup c) name = Some syncer \<and>
        GDPRAllowsBidderSync (rq_Privacy request) name) \<and>
     SupportsType syncer (ForBidder (rq_SyncTypeFilter request) (ToLower bidder)) \<and>
     \<not> HasLiveSync now (sy_key syncer) cookie \<and> ActivityAllowsUserSync (rq_Privacy request) bidder"

lemma evaluate_bidder: "be_Bidder (fst (snd (evaluate c now b seen tf pr cookie gpp))) = b"
  by (simp add: evaluate_def Let_def split: option.split)

lemma evaluate_seen: "set seen \<subseteq> set (snd (snd (evaluate c now b seen tf pr cookie gpp)))"
  by (auto simp: evaluate_def Let_def split: option.split)

lemma evaluate_OK:
  assumes "evaluate c now b seen (rq_SyncTypeFilter request) (rq_Privacy request) cookie gpp = (syncer, ev, seen')"
    and "be_Status ev = StatusOK"
  shows "\<exists>s. syncer = Some s \<and> may_sync c now request cookie b s \<and> sy_key s \<notin> set seen \<and> sy_key s \<in> set seen'"
  using assms by (auto simp: evaluate_def may_sync_def Let_def split: option.splits if_splits)

definition choice_key :: "SyncerChoice \<Rightarrow> string" where
  "choice_key ch = sy_key (sc_Syncer ch)"

definition choices_ok :: "standardChooser \<Rightarrow> time \<Rightarrow> Request \<Rightarrow> Cookie option \<Rightarrow> SyncerChoice list \<Rightarrow> bool" where
  "choices_ok c now request cookie chosen \<longleftrightarrow>
     list_all (\<lambda>ch. may_sync c now request cookie (sc_Bidder ch) (sc_Syncer ch)) chosen \<and>
     distinct (map choice_key chosen) \<and> (rq_Limit request > 0 \<longrightarrow> int (length chosen) \<le> rq_Limit request)"

lemma choose_loop_ok:
  assumes "choices_ok c now request cookie chosen" "set (map choice_key chosen) \<subseteq> set seen"
    and "choose_loop c now request cookie bs seen bseen evaluated chosen = (evaluated', chosen')"
  shows "choices_ok c now request cookie chosen'"
  using assms
proof (induction c now request cookie bs seen bseen evaluated chosen rule: choose_loop.induct)
  case (2 c now request cookie b bs seen bseen evaluated chosen)
  show ?case
  proof (cases "rq_Limit request \<le> 0 \<or> int (length chosen) < rq_Limit request")
    case False
    with "2.prems" show ?thesis by simp
  next
    case lim: True
    show ?thesis
    proof (cases "b \<in> set bseen")
      case True
      with lim "2.IH"(1) "2.prems" show ?thesis by simp
    next
      case False
      obtain syncer ev seen' where e:
        "evaluate c now b seen (rq_SyncTypeFilter request) (rq_Privacy request) cookie (rq_GPPSID request) = (syncer, ev, seen')"
        by (metis prod_cases3)
      let ?ch = "if be_Status ev = StatusOK then chosen @ [\<lparr>sc_Bidder = b, sc_Syncer = the syncer\<rparr>] else chosen"
      have sub: "set seen \<subseteq> set seen'" using evaluate_seen [of seen c now b] by (metis e snd_conv)
      have "choices_ok c now request cookie ?ch \<and> set (map choice_key ?ch) \<subseteq> set seen'"
      proof (cases "be_Status ev = StatusOK")
        case True
        from evaluate_OK [OF e this] True "2.prems"(1,2) sub lim show ?thesis by (auto simp: choices_ok_def choice_key_def)
      next
        case False
        with "2.prems"(1,2) sub show ?thesis by auto
      qed
      moreover have "choose_loop c now request cookie bs seen' (b # bseen) (evaluated @ [ev]) ?ch = (evaluated', chosen')"
        using "2.prems"(3) lim False e by simp
      ultimately show ?thesis using "2.IH"(2) [OF _ False e [symmetric] refl] lim by simp
    qed
  qed
qed simp

lemma choose_loop_evaluated:
  assumes "choose_loop c now request cookie bs seen bseen evaluated chosen = (evaluated', chosen')"
    and "set (map be_Bidder evaluated) = set bseen" "distinct (map be_Bidder evaluated)"
  shows "distinct (map be_Bidder evaluated') \<and> set (map be_Bidder evaluated') \<subseteq> set bseen \<union> set bs \<and>
     (rq_Limit request \<le> 0 \<longrightarrow> set (map be_Bidder evaluated') = set bseen \<union> set bs)"
  using assms
proof (induction c now request cookie bs seen bseen evaluated chosen rule: choose_loop.induct)
  case (2 c now request cookie b bs seen bseen evaluated chosen)
  show ?case
  proof (cases "rq_Limit request \<le> 0 \<or> int (length chosen) < rq_Limit request")
    case False
    with "2.prems" show ?thesis by auto
  next
    case lim: True
    show ?thesis
    proof (cases "b \<in> set bseen")
      case True
      with lim "2.IH"(1) "2.prems" show ?thesis by auto
    next
      case False
      obtain syncer ev seen' where e:
        "evaluate c now b seen (rq_SyncTypeFilter request) (rq_Privacy request) cookie (rq_GPPSID request) = (syncer, ev, seen')"
        by (metis prod_cases3)
      have ev: "be_Bidder ev = b" using evaluate_bidder [of c now b seen] by (metis e fst_conv snd_conv)
      have rec: "choose_loop c now request cookie bs seen' (b # bseen) (evaluated @ [ev])
          (if be_Status ev = StatusOK then chosen @ [\<lparr>sc_Bidder = b, sc_Syncer = the syncer\<rparr>] else chosen) = (evaluated', chosen')"
        using "2.prems"(1) lim False e by simp
      from "2.IH"(2) [OF _ False e [symmetric] refl rec] lim ev False "2.prems"(2,3) show ?thesis by auto
    qed
  qed
qed simp

lemma Choose_choices_ok: "choices_ok c now request cookie (rs_SyncersChosen (Choose c now request cookie))"
proof -
  have empty: "choices_ok c now request cookie []" by (simp add: choices_ok_def)
  then show ?thesis using choose_loop_ok [OF empty, where seen = "[]"] by (simp add: Choose_def Let_def split: prod.split)
qed

text \<open>
  C23. What the chooser gives: a bidder is chosen only if the user has not opted out, the host cookie is allowed, the bidder is
  known and has a syncer of an allowed type, the activity and GDPR checks pass, and the cookie has no live ID for it. No syncer
  is chosen twice, no more are chosen than the limit, every bidder is evaluated at most once, and without a limit every
  candidate is evaluated, whatever the shuffle does.
\<close>

theorem Choose_sound:
  assumes "Choose (NewChooser lookup known infos norm_name rnd) now request cookie = r"
  shows "choices_ok (NewChooser lookup known infos norm_name rnd) now request cookie (rs_SyncersChosen r) \<and>
     distinct (map be_Bidder (rs_BiddersEvaluated r)) \<and>
     (rs_SyncersChosen r \<noteq> [] \<longrightarrow> AllowSyncs cookie \<and> GDPRAllowsHostCookie (rq_Privacy request)) \<and>
     (rs_Status r = StatusOK \<and> rq_Limit request \<le> 0 \<longrightarrow>
       set (map be_Bidder (rs_BiddersEvaluated r)) =
         (if co_Enabled (rq_Cooperative request)
          then set (rq_Bidders request) \<union> \<Union> (set ` set (co_PriorityGroups (rq_Cooperative request))) \<union> fst ` set lookup
          else if rq_Bidders request = [] then fst ` set lookup else set (rq_Bidders request)))"
proof -
  let ?c = "NewChooser lookup known infos norm_name rnd"
  let ?bs = "choose_bidders (randomShuffler_shuffle rnd) (rq_Bidders request) (map fst lookup) (rq_Cooperative request)"
  have ok: "choices_ok ?c now request cookie (rs_SyncersChosen r)" using Choose_choices_ok assms by blast
  show ?thesis
  proof (cases "AllowSyncs cookie \<and> GDPRAllowsHostCookie (rq_Privacy request)")
    case False
    with assms have "rs_BiddersEvaluated r = []" "rs_SyncersChosen r = []" "rs_Status r \<noteq> StatusOK"
      by (auto simp: Choose_def split: if_splits)
    with ok show ?thesis by simp
  next
    case True
    obtain ev ch where run: "choose_loop ?c now request cookie ?bs [] [] [] [] = (ev, ch)" by (cases "choose_loop ?c now request cookie ?bs [] [] [] []")
    with assms True have r: "r = \<lparr>rs_BiddersEvaluated = ev, rs_Status = StatusOK, rs_SyncersChosen = ch\<rparr>"
      by (simp add: Choose_def NewChooser_def)
    from choose_loop_evaluated [OF run]
    have "distinct (map be_Bidder ev) \<and> (rq_Limit request \<le> 0 \<longrightarrow> set (map be_Bidder ev) = set ?bs)" by simp
    then show ?thesis using ok True r random.set_choose_bidders [of rnd] by simp
  qed
qed

definition sample_syncer :: "string \<Rightarrow> standardSyncer" where
  "sample_syncer key = \<lparr>sy_key = key, sy_defaultSyncType = SyncTypeIFrame, sy_iframe = Some ''https://i'', sy_redirect = Some ''https://r'',
     sy_formatOverride = []\<rparr>"

definition open_privacy :: Privacy where
  "open_privacy = \<lparr>GDPRAllowsHostCookie = True, GDPRInScope = False, GDPRAllowsBidderSync = (\<lambda>_. True), CCPAAllowsBidderSync = (\<lambda>_. True),
     ActivityAllowsUserSync = (\<lambda>_. True)\<rparr>"

definition allow_all :: SyncTypeFilter where
  "allow_all = \<lparr>stf_IFrame = cookieSyncBidderFilterAllowAll, stf_Redirect = cookieSyncBidderFilterAllowAll\<rparr>"

definition sync_request :: "string list \<Rightarrow> Request" where
  "sync_request bidders = \<lparr>rq_Bidders = bidders, rq_Cooperative = \<lparr>co_Enabled = False, co_PriorityGroups = []\<rparr>, rq_Limit = 0,
     rq_Privacy = open_privacy, rq_SyncTypeFilter = allow_all, rq_GPPSID = []\<rparr>"

definition sample_lookup :: "(string, standardSyncer) gomap" where
  "sample_lookup = [(''a'', sample_syncer ''k''), (''b'', sample_syncer ''k'')]"

lemmas sync_examples = sample_syncer_def open_privacy_def allow_all_def sync_request_def sample_lookup_def NewChooser_def
  cookieSyncBidderFilterAllowAll_def NewUniformBidderFilter_def SupportsType_def ForBidder_def evaluate_def HasLiveSync_def GetUID_def
  Let_def map_get_def

theorem Choose_sound_witness:
  "\<exists>r. Choose (NewChooser sample_lookup [] [] Some (\<lambda>_. 0)) 0 (sync_request [''a'', ''b'', ''a'']) (Some NewCookie) = r \<and>
     map sc_Bidder (rs_SyncersChosen r) = [''b''] \<and> distinct (map be_Bidder (rs_BiddersEvaluated r))"
proof -
  let ?r = "Choose (NewChooser sample_lookup [] [] Some (\<lambda>_. 0)) 0 (sync_request [''a'', ''b'', ''a'']) (Some NewCookie)"
  have "map sc_Bidder (rs_SyncersChosen ?r) = [''b'']"
    by code_simp
  moreover have "distinct (map be_Bidder (rs_BiddersEvaluated ?r))"
    using Choose_sound [of sample_lookup "[]" "[]" Some "\<lambda>_. 0" 0 "sync_request [''a'', ''b'', ''a'']" "Some NewCookie" ?r, OF refl]
    by (elim conjE)
  ultimately show ?thesis by (intro exI [of _ ?r] conjI refl)
qed

text \<open>
  The choice of bidders does not depend on the CCPA check: whatever a user's CCPA policy forbids, the same bidders are
  chosen and evaluated with the same status.
\<close>

theorem Choose_ignores_CCPA:
  "Choose c now (request\<lparr>rq_Privacy := (rq_Privacy request)\<lparr>CCPAAllowsBidderSync := f\<rparr>\<rparr>) cookie = Choose c now request cookie"
proof -
  let ?r = "request\<lparr>rq_Privacy := (rq_Privacy request)\<lparr>CCPAAllowsBidderSync := f\<rparr>\<rparr>"
  have ev: "evaluate c now b seen tf ((rq_Privacy request)\<lparr>CCPAAllowsBidderSync := f\<rparr>) cookie gpp = evaluate c now b seen tf (rq_Privacy request) cookie gpp" for b seen tf gpp
    by (simp add: evaluate_def Let_def cong: option.case_cong if_cong)
  have "choose_loop c now ?r cookie bs seen bseen evs chosen = choose_loop c now request cookie bs seen bseen evs chosen" for bs seen bseen evs chosen
    by (induction bs arbitrary: seen bseen evs chosen) (simp_all add: ev split: prod.split)
  then show ?thesis by (simp add: Choose_def)
qed

text \<open>
  A bidder whose syncs the host has disabled is chosen all the same when the request spells its name in another case: the
  configuration is looked up under the name of the request, the syncer under the normalised one.
\<close>

theorem disabled_sync_bypassed:
  assumes "ch_normalizeValidBidderName c b = Some n" "ch_normalizeValidBidderName c n = Some n"
    and "map_of (ch_bidderInfo c) n = Some (Some info)" "si_Enabled info = Some False" "map_of (ch_bidderInfo c) b = None"
    and "map_of (ch_bidderSyncerLookup c) n = Some s" "sy_key s \<notin> set seen" "ToLower b = ToLower n" "SupportsType s (ForBidder tf (ToLower n))"
    and "\<not> HasLiveSync now (sy_key s) cookie" "ActivityAllowsUserSync pr b" "ActivityAllowsUserSync pr n" "GDPRAllowsBidderSync pr n"
  shows "be_Status (fst (snd (evaluate c now n seen tf pr cookie gpp))) = StatusBlockedByDisabledUsersync \<and>
     evaluate c now b seen tf pr cookie gpp = (Some s, \<lparr>be_Bidder = b, be_SyncerKey = sy_key s, be_Status = StatusOK\<rparr>, sy_key s # seen)"
  using assms by (simp add: evaluate_def Let_def map_get_def)

lemma lower_A: "ToLower ''A'' = ''a''" "ToLower ''a'' = ''a''"
  by code_simp+

definition lower_name :: "string \<Rightarrow> string option" where
  "lower_name b = (if ToLower b = ''a'' then Some ''a'' else None)"

theorem disabled_sync_bypassed_witness:
  "evaluate (NewChooser sample_lookup [] [(''a'', Some \<lparr>si_Enabled = Some False, si_SkipWhen = None\<rparr>)] lower_name (\<lambda>_. 0))
     0 ''A'' [] allow_all open_privacy (Some NewCookie) [] =
   (Some (sample_syncer ''k''), \<lparr>be_Bidder = ''A'', be_SyncerKey = ''k'', be_Status = StatusOK\<rparr>, [''k''])"
  using disabled_sync_bypassed [of "NewChooser sample_lookup [] [(''a'', Some \<lparr>si_Enabled = Some False, si_SkipWhen = None\<rparr>)] lower_name (\<lambda>_. 0)"
      "''A''" "''a''" "\<lparr>si_Enabled = Some False, si_SkipWhen = None\<rparr>" "sample_syncer ''k''" "[]" allow_all 0 "Some NewCookie" open_privacy]
  by (simp add: sync_examples lower_name_def lower_A NewCookie_def)

text \<open>
  The response can hand out a sync type the filter of the request forbids: the check lower-cases the name of the bidder, the
  response does not, so an exclusion that holds for the check is missed when the URL is made.
\<close>

theorem response_misses_filter:
  assumes "sy_iframe s = Some u" "sy_defaultSyncType s = SyncTypeIFrame" "resolveMacros u = Inr url" "ToLower b \<noteq> b"
    and "tf = \<lparr>stf_IFrame = NewSpecificBidderFilter [b] BidderFilterModeExclude, stf_Redirect = cookieSyncBidderFilterAllowAll\<rparr>"
  shows "ForBidder tf (ToLower b) = [SyncTypeRedirect] \<and>
     handleResponse_syncs resolveMacros tf [\<lparr>sc_Bidder = b, sc_Syncer = s\<rparr>] = Some [(b, \<lparr>sn_URL = url, sn_Type = SyncTypeIFrame\<rparr>)]"
  using assms
  by (simp add: ForBidder_def NewSpecificBidderFilter_def cookieSyncBidderFilterAllowAll_def NewUniformBidderFilter_def GetSync_def
      chooseSyncType_def chooseTemplate_def Let_def)

theorem response_misses_filter_witness:
  "handleResponse_syncs Inr \<lparr>stf_IFrame = NewSpecificBidderFilter [''A''] BidderFilterModeExclude, stf_Redirect = cookieSyncBidderFilterAllowAll\<rparr>
     [\<lparr>sc_Bidder = ''A'', sc_Syncer = sample_syncer ''k''\<rparr>] = Some [(''A'', \<lparr>sn_URL = ''https://i'', sn_Type = SyncTypeIFrame\<rparr>)]"
  using response_misses_filter [of "sample_syncer ''k''" "''https://i''" Inr "''https://i''" "''A''"]
  by (simp add: lower_A sample_syncer_def)

lemma setLimit_bounds:
  "0 < setLimit reqLimit cfg \<and> (\<forall>m. cs_MaxLimit cfg = Some m \<and> 0 < m \<longrightarrow> setLimit reqLimit cfg \<le> m) \<and>
   (\<forall>l. reqLimit = Some l \<and> 0 < l \<longrightarrow> setLimit reqLimit cfg \<le> l)"
  by (auto simp: setLimit_def getEffectiveLimit_def getEffectiveMaxLimit_def Let_def MaxInt_def split: option.splits)



text \<open>For the sync types a filter gives, a supported type is found and has a template: no nil template is executed.\<close>

lemma GetSync_no_panic:
  assumes "sy_defaultSyncType s = resolveDefaultSyncType (sy_iframe s)"
  shows "GetSync resolveMacros s (ForBidder tf bidder) \<noteq> None"
  using assms
  by (auto simp: GetSync_def chooseSyncType_def chooseTemplate_def ForBidder_def resolveDefaultSyncType_def Let_def
      split: sum.splits option.splits SyncType.splits if_splits)

end
