(* ===== verification/Gdpr.thy ===== *)
theory Gdpr
  imports Prelude
begin

text \<open>
  Package \<^verbatim>\<open>gdpr\<close>: whether the host may set cookies, a bidder may sync, and a bidder may get a bid request, the location
  and the IDs of a user, under the host's and the account's configuration, the global vendor list and the user's TCF 2 consent.
  The parser of consent strings and the vendor lists are parameters; a parsed consent is the record of the questions the code
  asks it. Sets of names (Go maps to empty structs) are lists.
\<close>

section \<open>Signals\<close>

datatype Signal = SignalAmbiguous | SignalNo | SignalYes

definition IntSignalParse :: "int \<Rightarrow> Signal option" where
  "IntSignalParse i = (if i = 0 then Some SignalNo else if i = 1 then Some SignalYes else None)"

definition SignalNormalize :: "Signal \<Rightarrow> string \<Rightarrow> Signal" where
  "SignalNormalize signal gdprDefaultValue =
     (if signal \<noteq> SignalAmbiguous then signal else if gdprDefaultValue = ''0'' then SignalNo else SignalYes)"

definition SectionTCFEU2 :: int where "SectionTCFEU2 = 2"

definition IsSIDInList :: "int list \<Rightarrow> int \<Rightarrow> bool" where
  "IsSIDInList gppSIDs sid \<longleftrightarrow> sid \<in> set gppSIDs"

text \<open>The GPP container of the third-party parser: the types of its sections and their values, in the same order.\<close>

record GppContainer =
  gpp_SectionTypes :: "int list"
  gpp_Sections :: "string list"

definition IndexOfSID :: "GppContainer \<Rightarrow> int \<Rightarrow> nat option" where
  "IndexOfSID gpp sid = List.find (\<lambda>i. gpp_SectionTypes gpp ! i = sid) [0..<length (gpp_SectionTypes gpp)]"

text \<open>The parts of a request the package reads: \<^verbatim>\<open>regs.gpp_sid\<close>, \<^verbatim>\<open>regs.gdpr\<close>, \<^verbatim>\<open>user.consent\<close> and the countries.\<close>

record gdpr_request =
  gr_Regs :: "(int list \<times> int option) option"
  gr_UserConsent :: "string option"  \<comment> \<open>\<open>None\<close>: no user\<close>
  gr_UserCountry :: "string option"  \<comment> \<open>\<open>None\<close>: no user or no geo\<close>
  gr_DeviceCountry :: "string option"

text \<open>\<open>None\<close>: the signal is neither 0 nor 1.\<close>

definition GetGDPR :: "gdpr_request \<Rightarrow> Signal option" where
  "GetGDPR req =
     (case gr_Regs req of
        Some (sids, gdpr) \<Rightarrow>
          if sids \<noteq> [] then Some (if IsSIDInList sids SectionTCFEU2 then SignalYes else SignalNo)
          else (case gdpr of Some i \<Rightarrow> IntSignalParse i | None \<Rightarrow> Some SignalAmbiguous)
      | None \<Rightarrow> Some SignalAmbiguous)"

definition GetConsent :: "gdpr_request \<Rightarrow> GppContainer \<Rightarrow> string" where
  "GetConsent req gpp =
     (case IndexOfSID gpp SectionTCFEU2 of
        Some i \<Rightarrow> gpp_Sections gpp ! i
      | None \<Rightarrow> (case gr_UserConsent req of Some c \<Rightarrow> c | None \<Rightarrow> []))"

definition EnforceGDPR :: "Signal \<Rightarrow> Signal \<Rightarrow> bool \<Rightarrow> bool" where
  "EnforceGDPR signal defaultValue channelEnabled \<longleftrightarrow>
     (signal = SignalYes \<or> (signal = SignalAmbiguous \<and> defaultValue = SignalYes)) \<and> channelEnabled"

definition SelectEEACountries :: "string list \<Rightarrow> string list option \<Rightarrow> string list" where
  "SelectEEACountries host account = (case account of Some cs \<Rightarrow> cs | None \<Rightarrow> host)"

definition isEEACountry :: "string \<Rightarrow> string list \<Rightarrow> bool" where
  "isEEACountry country eeaCountries \<longleftrightarrow> list_ex (\<lambda>c. ToUpper c = ToUpper country) eeaCountries"

definition ParseGDPRDefaultValue :: "gdpr_request \<Rightarrow> string \<Rightarrow> string list \<Rightarrow> Signal" where
  "ParseGDPRDefaultValue r cfgDefault eeaCountries =
     (let gdprDefaultValue = (if cfgDefault = ''0'' then SignalNo else SignalYes);
          geo = (case gr_UserCountry r of Some c \<Rightarrow> Some c | None \<Rightarrow> gr_DeviceCountry r) in
      case geo of
        Some country \<Rightarrow>
          if isEEACountry country eeaCountries then SignalYes
          else if length country = 3 then SignalNo else gdprDefaultValue
      | None \<Rightarrow> gdprDefaultValue)"

section \<open>Configuration\<close>

datatype TCF2EnforcementAlgo = TCF2UndefinedEnforcement | TCF2BasicEnforcement | TCF2FullEnforcement

type_synonym purpose = nat

record TCF2Purpose =
  tp_EnforceAlgoID :: TCF2EnforcementAlgo
  tp_EnforcePurpose :: bool
  tp_EnforceVendors :: bool
  tp_VendorExceptionMap :: "string list option"

record TCF2 =
  tcf_Enabled :: bool
  tcf_PurposeConfigs :: "(purpose, TCF2Purpose) gomap"
  tcf_SF1_Enforce :: bool
  tcf_SF1_VendorExceptionMap :: "string list"
  tcf_P1T_Enabled :: bool
  tcf_P1T_AccessAllowed :: bool

definition TCF2_PurposeEnforced :: "TCF2 \<Rightarrow> purpose \<Rightarrow> bool" where
  "TCF2_PurposeEnforced t p = (case map_of (tcf_PurposeConfigs t) p of None \<Rightarrow> False | Some c \<Rightarrow> tp_EnforcePurpose c)"

definition TCF2_PurposeEnforcementAlgo :: "TCF2 \<Rightarrow> purpose \<Rightarrow> TCF2EnforcementAlgo" where
  "TCF2_PurposeEnforcementAlgo t p = (case map_of (tcf_PurposeConfigs t) p of Some c \<Rightarrow> tp_EnforceAlgoID c | None \<Rightarrow> TCF2FullEnforcement)"

definition TCF2_PurposeEnforcingVendors :: "TCF2 \<Rightarrow> purpose \<Rightarrow> bool" where
  "TCF2_PurposeEnforcingVendors t p = (case map_of (tcf_PurposeConfigs t) p of None \<Rightarrow> False | Some c \<Rightarrow> tp_EnforceVendors c)"

definition TCF2_PurposeVendorExceptions :: "TCF2 \<Rightarrow> purpose \<Rightarrow> string list" where
  "TCF2_PurposeVendorExceptions t p =
     (case map_of (tcf_PurposeConfigs t) p of None \<Rightarrow> [] | Some c \<Rightarrow> (case tp_VendorExceptionMap c of Some m \<Rightarrow> m | None \<Rightarrow> []))"

datatype ChannelType = ChannelAMP | ChannelApp | ChannelVideo | ChannelWeb | ChannelDOOH | OtherChannel string

record AccountChannel =
  chan_AMP :: "bool option"
  chan_App :: "bool option"
  chan_Video :: "bool option"
  chan_Web :: "bool option"
  chan_DOOH :: "bool option"

definition GetByChannelType :: "AccountChannel \<Rightarrow> ChannelType \<Rightarrow> bool option" where
  "GetByChannelType a channelType =
     (case channelType of ChannelAMP \<Rightarrow> chan_AMP a | ChannelApp \<Rightarrow> chan_App a | ChannelVideo \<Rightarrow> chan_Video a
      | ChannelWeb \<Rightarrow> chan_Web a | ChannelDOOH \<Rightarrow> chan_DOOH a | OtherChannel _ \<Rightarrow> None)"

record AccountGDPRPurpose =
  ap_EnforceAlgoID :: TCF2EnforcementAlgo
  ap_EnforcePurpose :: "bool option"
  ap_EnforceVendors :: "bool option"
  ap_VendorExceptionMap :: "string list option"

record AccountGDPR =
  ag_Enabled :: "bool option"
  ag_ChannelEnabled :: AccountChannel
  ag_BasicEnforcementVendorsMap :: "string list option"
  ag_PurposeConfigs :: "(purpose, AccountGDPRPurpose) gomap"
  ag_P1T_Enabled :: "bool option"
  ag_P1T_AccessAllowed :: "bool option"
  ag_SF1_Enforce :: "bool option"
  ag_SF1_VendorExceptionMap :: "string list option"

definition EnabledForChannelType :: "bool option \<Rightarrow> AccountChannel \<Rightarrow> ChannelType \<Rightarrow> bool option" where
  "EnabledForChannelType enabled channels channelType =
     (case GetByChannelType channels channelType of Some b \<Rightarrow> Some b | None \<Rightarrow> enabled)"

definition Account_PurposeEnforced :: "AccountGDPR \<Rightarrow> purpose \<Rightarrow> bool option" where
  "Account_PurposeEnforced a p = Option.bind (map_of (ag_PurposeConfigs a) p) ap_EnforcePurpose"

definition Account_PurposeEnforcementAlgo :: "AccountGDPR \<Rightarrow> purpose \<Rightarrow> TCF2EnforcementAlgo option" where
  "Account_PurposeEnforcementAlgo a p =
     (case map_of (ag_PurposeConfigs a) p of
        Some c \<Rightarrow> if ap_EnforceAlgoID c = TCF2BasicEnforcement \<or> ap_EnforceAlgoID c = TCF2FullEnforcement then Some (ap_EnforceAlgoID c) else None
      | None \<Rightarrow> None)"

definition Account_PurposeEnforcingVendors :: "AccountGDPR \<Rightarrow> purpose \<Rightarrow> bool option" where
  "Account_PurposeEnforcingVendors a p = Option.bind (map_of (ag_PurposeConfigs a) p) ap_EnforceVendors"

definition Account_PurposeVendorExceptions :: "AccountGDPR \<Rightarrow> purpose \<Rightarrow> string list option" where
  "Account_PurposeVendorExceptions a p = Option.bind (map_of (ag_PurposeConfigs a) p) ap_VendorExceptionMap"

text \<open>The interface the enforcers read, and its implementation: each setting of the account goes before that of the host.\<close>

record TCF2ConfigReader =
  BasicEnforcementVendors :: "string list"
  FeatureOneEnforced :: bool
  FeatureOneVendorException :: "string \<Rightarrow> bool"
  ChannelEnabled :: "ChannelType \<Rightarrow> bool"
  IsEnabled :: bool
  PurposeEnforced :: "purpose \<Rightarrow> bool"
  PurposeEnforcementAlgo :: "purpose \<Rightarrow> TCF2EnforcementAlgo"
  PurposeEnforcingVendors :: "purpose \<Rightarrow> bool"
  PurposeVendorExceptions :: "purpose \<Rightarrow> string list"
  PurposeOneTreatmentEnabled :: bool
  PurposeOneTreatmentAccessAllowed :: bool

definition NewTCF2Config :: "TCF2 \<Rightarrow> AccountGDPR \<Rightarrow> TCF2ConfigReader" where
  "NewTCF2Config host account =
     \<lparr>BasicEnforcementVendors = (case ag_BasicEnforcementVendorsMap account of Some m \<Rightarrow> m | None \<Rightarrow> []),
      FeatureOneEnforced = (case ag_SF1_Enforce account of Some b \<Rightarrow> b | None \<Rightarrow> tcf_SF1_Enforce host),
      FeatureOneVendorException = (\<lambda>bidder. case ag_SF1_VendorExceptionMap account of
          Some m \<Rightarrow> bidder \<in> set m | None \<Rightarrow> bidder \<in> set (tcf_SF1_VendorExceptionMap host)),
      ChannelEnabled = (\<lambda>ch. case EnabledForChannelType (ag_Enabled account) (ag_ChannelEnabled account) ch of
          Some b \<Rightarrow> b | None \<Rightarrow> tcf_Enabled host),
      IsEnabled = tcf_Enabled host,
      PurposeEnforced = (\<lambda>p. case Account_PurposeEnforced account p of Some b \<Rightarrow> b | None \<Rightarrow> TCF2_PurposeEnforced host p),
      PurposeEnforcementAlgo = (\<lambda>p. case Account_PurposeEnforcementAlgo account p of
          Some a \<Rightarrow> a | None \<Rightarrow> TCF2_PurposeEnforcementAlgo host p),
      PurposeEnforcingVendors = (\<lambda>p. case Account_PurposeEnforcingVendors account p of
          Some b \<Rightarrow> b | None \<Rightarrow> TCF2_PurposeEnforcingVendors host p),
      PurposeVendorExceptions = (\<lambda>p. case Account_PurposeVendorExceptions account p of
          Some m \<Rightarrow> m | None \<Rightarrow> TCF2_PurposeVendorExceptions host p),
      PurposeOneTreatmentEnabled = (case ag_P1T_Enabled account of Some b \<Rightarrow> b | None \<Rightarrow> tcf_P1T_Enabled host),
      PurposeOneTreatmentAccessAllowed = (case ag_P1T_AccessAllowed account of Some b \<Rightarrow> b | None \<Rightarrow> tcf_P1T_AccessAllowed host)\<rparr>"

section \<open>Legal basis\<close>

type_synonym vendor_id = "16 word"

record ConsentMetadata =
  PurposeAllowed :: "purpose \<Rightarrow> bool"
  PurposeLITransparency :: "purpose \<Rightarrow> bool"
  VendorConsent :: "vendor_id \<Rightarrow> bool"
  VendorLegitInterest :: "vendor_id \<Rightarrow> bool"
  CheckPubRestriction :: "purpose \<Rightarrow> nat \<Rightarrow> vendor_id \<Rightarrow> bool"
  SpecialFeatureOptIn :: "nat \<Rightarrow> bool"
  PurposeOneTreatment :: bool

record Vendor =
  Vendor_Purpose :: "purpose \<Rightarrow> bool"
  Vendor_LegitimateInterest :: "purpose \<Rightarrow> bool"
  Vendor_SpecialFeature :: "nat \<Rightarrow> bool"

record VendorInfo =
  vi_vendorID :: vendor_id
  vi_vendor :: "Vendor option"  \<comment> \<open>\<open>None\<close>: not in the list\<close>

record Overrides =
  ov_allowLITransparency :: bool
  ov_blockVendorExceptions :: bool
  ov_enforcePurpose :: bool
  ov_enforceVendors :: bool

definition no_overrides :: Overrides where
  "no_overrides = \<lparr>ov_allowLITransparency = False, ov_blockVendorExceptions = False, ov_enforcePurpose = False, ov_enforceVendors = False\<rparr>"

record purposeConfig =
  pc_PurposeID :: purpose
  pc_EnforceAlgo :: TCF2EnforcementAlgo
  pc_EnforcePurpose :: bool
  pc_EnforceVendors :: bool
  pc_VendorExceptionMap :: "string list"
  pc_BasicEnforcementVendorsMap :: "string list"

definition basicEnforcementVendor :: "purposeConfig \<Rightarrow> string \<Rightarrow> bool" where
  "basicEnforcementVendor pc name \<longleftrightarrow> name \<in> set (pc_BasicEnforcementVendorsMap pc)"

definition vendorException :: "purposeConfig \<Rightarrow> string \<Rightarrow> bool" where
  "vendorException pc name \<longleftrightarrow> name \<in> set (pc_VendorExceptionMap pc)"

definition applyEnforceOverrides :: "purposeConfig \<Rightarrow> Overrides \<Rightarrow> bool \<times> bool" where
  "applyEnforceOverrides pc overrides =
     (if ov_enforcePurpose overrides then True else pc_EnforcePurpose pc,
      if ov_enforceVendors overrides then True else pc_EnforceVendors pc)"

definition pubRestrictNotAllowed :: nat where "pubRestrictNotAllowed = 0"
definition pubRestrictRequireConsent :: nat where "pubRestrictRequireConsent = 1"
definition pubRestrictRequireLegitInterest :: nat where "pubRestrictRequireLegitInterest = 2"

definition consentEstablished :: "purposeConfig \<Rightarrow> ConsentMetadata \<Rightarrow> VendorInfo \<Rightarrow> bool \<Rightarrow> bool \<Rightarrow> bool" where
  "consentEstablished pc consent vi enforcePurpose enforceVendors \<longleftrightarrow>
     (case vi_vendor vi of None \<Rightarrow> False
      | Some v \<Rightarrow>
          if \<not> Vendor_Purpose v (pc_PurposeID pc) then False
          else if enforcePurpose \<and> \<not> PurposeAllowed consent (pc_PurposeID pc) then False
          else if enforceVendors \<and> \<not> VendorConsent consent (vi_vendorID vi) then False
          else True)"

definition legitInterestEstablished :: "purposeConfig \<Rightarrow> ConsentMetadata \<Rightarrow> VendorInfo \<Rightarrow> bool \<Rightarrow> bool \<Rightarrow> bool" where
  "legitInterestEstablished pc consent vi enforcePurpose enforceVendors \<longleftrightarrow>
     (case vi_vendor vi of None \<Rightarrow> False
      | Some v \<Rightarrow>
          if \<not> Vendor_LegitimateInterest v (pc_PurposeID pc) then False
          else if enforcePurpose \<and> \<not> PurposeLITransparency consent (pc_PurposeID pc) then False
          else if enforceVendors \<and> \<not> VendorLegitInterest consent (vi_vendorID vi) then False
          else True)"

definition Full_LegalBasis :: "purposeConfig \<Rightarrow> VendorInfo \<Rightarrow> string \<Rightarrow> ConsentMetadata \<Rightarrow> Overrides \<Rightarrow> bool" where
  "Full_LegalBasis pc vi name consent overrides \<longleftrightarrow>
     (let (enforcePurpose, enforceVendors) = applyEnforceOverrides pc overrides in
      if CheckPubRestriction consent (pc_PurposeID pc) pubRestrictNotAllowed (vi_vendorID vi) then False
      else if \<not> enforcePurpose \<and> \<not> enforceVendors then True
      else if vendorException pc name \<and> \<not> ov_blockVendorExceptions overrides then True
      else
        let purposeAllowed = consentEstablished pc consent vi enforcePurpose enforceVendors;
            legitInterest = legitInterestEstablished pc consent vi enforcePurpose enforceVendors in
        if CheckPubRestriction consent (pc_PurposeID pc) pubRestrictRequireConsent (vi_vendorID vi) then purposeAllowed
        else if CheckPubRestriction consent (pc_PurposeID pc) pubRestrictRequireLegitInterest (vi_vendorID vi) then legitInterest
        else purposeAllowed \<or> legitInterest)"

definition Basic_LegalBasis :: "purposeConfig \<Rightarrow> VendorInfo \<Rightarrow> string \<Rightarrow> ConsentMetadata \<Rightarrow> Overrides \<Rightarrow> bool" where
  "Basic_LegalBasis pc vi name consent overrides \<longleftrightarrow>
     (let (enforcePurpose, enforceVendors) = applyEnforceOverrides pc overrides in
      if \<not> enforcePurpose \<and> \<not> enforceVendors then True
      else if vendorException pc name \<and> \<not> ov_blockVendorExceptions overrides then True
      else if \<not> enforcePurpose \<and> basicEnforcementVendor pc name then True
      else if enforcePurpose \<and> PurposeAllowed consent (pc_PurposeID pc) \<and> basicEnforcementVendor pc name then True
      else if enforcePurpose \<and> PurposeLITransparency consent (pc_PurposeID pc) \<and> ov_allowLITransparency overrides then True
      else if enforcePurpose \<and> \<not> PurposeAllowed consent (pc_PurposeID pc) then False
      else if \<not> enforceVendors then True
      else VendorConsent consent (vi_vendorID vi))"

datatype PurposeEnforcer = FullEnforcement purposeConfig | BasicEnforcement purposeConfig

fun LegalBasis :: "PurposeEnforcer \<Rightarrow> VendorInfo \<Rightarrow> string \<Rightarrow> ConsentMetadata \<Rightarrow> Overrides \<Rightarrow> bool" where
  "LegalBasis (FullEnforcement pc) = Full_LegalBasis pc"
| "LegalBasis (BasicEnforcement pc) = Basic_LegalBasis pc"

fun is_basic :: "PurposeEnforcer \<Rightarrow> bool" where
  "is_basic (BasicEnforcement _) \<longleftrightarrow> True"
| "is_basic (FullEnforcement _) \<longleftrightarrow> False"

section \<open>The cached enforcers\<close>

record PurposeEnforcers =
  pe_Full :: "PurposeEnforcer option"
  pe_Basic :: "PurposeEnforcer option"

definition isDowngraded :: "TCF2EnforcementAlgo \<Rightarrow> bool \<Rightarrow> bool" where
  "isDowngraded enforceAlgo basicVendor \<longleftrightarrow> enforceAlgo = TCF2FullEnforcement \<and> basicVendor"

definition purpose_config :: "TCF2ConfigReader \<Rightarrow> purpose \<Rightarrow> purposeConfig" where
  "purpose_config cfg p =
     \<lparr>pc_PurposeID = p, pc_EnforceAlgo = PurposeEnforcementAlgo cfg p, pc_EnforcePurpose = PurposeEnforced cfg p,
      pc_EnforceVendors = PurposeEnforcingVendors cfg p, pc_VendorExceptionMap = PurposeVendorExceptions cfg p,
      pc_BasicEnforcementVendorsMap = BasicEnforcementVendors cfg\<rparr>"

definition empty_enforcers :: "PurposeEnforcers list" where
  "empty_enforcers = replicate 10 \<lparr>pe_Full = None, pe_Basic = None\<rparr>"

text \<open>One call of the builder with its cache; \<open>None\<close>: the purpose is no index of the cache. The index is a byte.\<close>

definition build_enforcer :: "TCF2ConfigReader \<Rightarrow> PurposeEnforcers list \<Rightarrow> purpose \<Rightarrow> string \<Rightarrow> (PurposeEnforcer \<times> PurposeEnforcers list) option" where
  "build_enforcer cfg cached p name =
     (let basicVendor = (if p = 1 then False else name \<in> set (BasicEnforcementVendors cfg));
          enforceAlgo = PurposeEnforcementAlgo cfg p;
          downgraded = isDowngraded enforceAlgo basicVendor;
          index = p - 1 in
      if p = 0 \<or> index \<ge> length cached then None
      else if enforceAlgo = TCF2BasicEnforcement \<or> downgraded then
        (case pe_Basic (cached ! index) of
           Some e \<Rightarrow> Some (e, cached)
         | None \<Rightarrow>
             let enforcer = BasicEnforcement (purpose_config cfg p) in
             Some (enforcer, cached[index := (cached ! index)\<lparr>pe_Basic := Some enforcer\<rparr>]))
      else
        (case pe_Full (cached ! index) of
           Some e \<Rightarrow> Some (e, cached)
         | None \<Rightarrow>
             let enforcer = FullEnforcement (purpose_config cfg p) in
             Some (enforcer, cached[index := (cached ! index)\<lparr>pe_Full := Some enforcer\<rparr>])))"

text \<open>The enforcer without a cache.\<close>

definition enforcer_for :: "TCF2ConfigReader \<Rightarrow> purpose \<Rightarrow> string \<Rightarrow> PurposeEnforcer" where
  "enforcer_for cfg p name =
     (let basicVendor = (if p = 1 then False else name \<in> set (BasicEnforcementVendors cfg));
          enforceAlgo = PurposeEnforcementAlgo cfg p in
      if enforceAlgo = TCF2BasicEnforcement \<or> isDowngraded enforceAlgo basicVendor
      then BasicEnforcement (purpose_config cfg p) else FullEnforcement (purpose_config cfg p))"

section \<open>Permissions\<close>

text \<open>What the third-party parser gives for a consent string; its metadata is absent if it is no TCF 2 consent.\<close>

record raw_consent =
  rc_Version :: nat
  rc_VendorListVersion :: nat
  rc_TCFPolicyVersion :: nat
  rc_meta :: "ConsentMetadata option"

record parsedConsent =
  pcn_encodingVersion :: nat
  pcn_listVersion :: nat
  pcn_specVersion :: nat
  pcn_consentMeta :: ConsentMetadata

definition getSpecVersion :: "nat \<Rightarrow> nat" where
  "getSpecVersion policyVersion = (if policyVersion \<ge> 4 then 3 else 2)"

definition validateVersions :: "raw_consent \<Rightarrow> bool" where
  "validateVersions pc \<longleftrightarrow> rc_Version pc = 2"

definition parseConsent :: "(string \<Rightarrow> raw_consent option) \<Rightarrow> string \<Rightarrow> parsedConsent option" where
  "parseConsent ParseString consent =
     (case ParseString consent of None \<Rightarrow> None
      | Some pc \<Rightarrow>
          if \<not> validateVersions pc then None
          else (case rc_meta pc of None \<Rightarrow> None
            | Some cm \<Rightarrow> Some \<lparr>pcn_encodingVersion = rc_Version pc, pcn_listVersion = rc_VendorListVersion pc,
                               pcn_specVersion = getSpecVersion (rc_TCFPolicyVersion pc), pcn_consentMeta = cm\<rparr>))"

record AuctionPermissions =
  AllowBidRequest :: bool
  PassGeo :: bool
  PassID :: bool

definition AllowAll :: AuctionPermissions where
  "AllowAll = \<lparr>AllowBidRequest = True, PassGeo = True, PassID = True\<rparr>"

text \<open>
  The live set of vendor IDs of the latest list: an update with no IDs keeps the old set, and an empty set (the list could not be
  fetched) holds every ID.
\<close>

definition Live_Contains :: "vendor_id list \<Rightarrow> vendor_id \<Rightarrow> bool" where
  "Live_Contains live v \<longleftrightarrow> (if live = [] then True else v \<in> set live)"

definition Live_Update :: "vendor_id list \<Rightarrow> vendor_id list \<Rightarrow> vendor_id list" where
  "Live_Update live newIDs = (if newIDs \<noteq> [] then newIDs else live)"

record permissionsImpl =
  pm_ParseString :: "string \<Rightarrow> raw_consent option"
  pm_fetchVendorList :: "nat \<Rightarrow> nat \<Rightarrow> (vendor_id \<Rightarrow> Vendor option) option"
  pm_hostVendorID :: int
  pm_nonStandardPublishers :: "string list"
  pm_purposeEnforcerBuilder :: "purpose \<Rightarrow> string \<Rightarrow> PurposeEnforcer"
  pm_validGVLVendorIDs :: "vendor_id list option"
  pm_vendorIDs :: "(string, vendor_id) gomap"
  pm_aliasGVLIDs :: "(string, vendor_id) gomap"
  pm_cfg :: TCF2ConfigReader
  pm_consent :: string
  pm_gdprSignal :: Signal
  pm_publisherID :: string

definition isValidVendorID :: "permissionsImpl \<Rightarrow> vendor_id \<Rightarrow> bool" where
  "isValidVendorID p v \<longleftrightarrow> (case pm_validGVLVendorIDs p of None \<Rightarrow> True | Some live \<Rightarrow> Live_Contains live v)"

definition resolveVendorID :: "permissionsImpl \<Rightarrow> string \<Rightarrow> string \<Rightarrow> vendor_id \<times> bool" where
  "resolveVendorID p bidderCoreName bidder =
     (case map_of (pm_aliasGVLIDs p) bidder of
        Some v \<Rightarrow> if \<not> isValidVendorID p v then (0, False) else (v, True)
      | None \<Rightarrow>
          (case map_of (pm_vendorIDs p) bidderCoreName of
             Some v \<Rightarrow> if \<not> isValidVendorID p v then (0, False) else (v, True)
           | None \<Rightarrow> (0, False)))"

text \<open>\<open>None\<close>: the list could not be fetched.\<close>

definition getVendor :: "permissionsImpl \<Rightarrow> vendor_id \<Rightarrow> parsedConsent \<Rightarrow> Vendor option option" where
  "getVendor p v pc = map_option (\<lambda>vendorList. vendorList v) (pm_fetchVendorList p (pcn_specVersion pc) (pcn_listVersion pc))"

definition defaultPermissions :: "permissionsImpl \<Rightarrow> AuctionPermissions" where
  "defaultPermissions p =
     \<lparr>AllowBidRequest = (\<not> PurposeEnforced (pm_cfg p) 2), PassGeo = (\<not> FeatureOneEnforced (pm_cfg p)), PassID = False\<rparr>"

text \<open>\<open>None\<close>: an error, the consent is malformed.\<close>

definition allowSync :: "permissionsImpl \<Rightarrow> vendor_id \<Rightarrow> string \<Rightarrow> bool \<Rightarrow> bool option" where
  "allowSync p v bidder isException =
     (if pm_consent p = [] then Some False
      else case parseConsent (pm_ParseString p) (pm_consent p) of
        None \<Rightarrow> None
      | Some pc \<Rightarrow>
          (case getVendor p v pc of
             None \<Rightarrow> Some False
           | Some vendor \<Rightarrow>
               if \<not> PurposeEnforced (pm_cfg p) 1 then Some True
               else if PurposeOneTreatmentEnabled (pm_cfg p) \<and> PurposeOneTreatment (pcn_consentMeta pc)
                 then Some (PurposeOneTreatmentAccessAllowed (pm_cfg p))
               else Some (LegalBasis (pm_purposeEnforcerBuilder p 1 bidder) \<lparr>vi_vendorID = v, vi_vendor = vendor\<rparr> bidder
                      (pcn_consentMeta pc) (no_overrides\<lparr>ov_blockVendorExceptions := \<not> isException\<rparr>))))"

definition HostCookiesAllowed :: "permissionsImpl \<Rightarrow> bool option" where
  "HostCookiesAllowed p =
     (if pm_gdprSignal p \<noteq> SignalYes then Some True else allowSync p (word_of_int (pm_hostVendorID p)) [] False)"

definition BidderSyncAllowed :: "permissionsImpl \<Rightarrow> string \<Rightarrow> bool option" where
  "BidderSyncAllowed p bidder =
     (if pm_gdprSignal p \<noteq> SignalYes then Some True
      else case map_of (pm_vendorIDs p) bidder of
        Some v \<Rightarrow> if isValidVendorID p v then allowSync p v bidder (bidder \<in> set (PurposeVendorExceptions (pm_cfg p) 1)) else Some False
      | None \<Rightarrow> Some False)"

definition allowBidRequest :: "permissionsImpl \<Rightarrow> string \<Rightarrow> ConsentMetadata \<Rightarrow> VendorInfo \<Rightarrow> bool" where
  "allowBidRequest p bidder consentMeta vendorInfo =
     (let enforcer = pm_purposeEnforcerBuilder p 2 bidder in
      LegalBasis enforcer vendorInfo bidder consentMeta (no_overrides\<lparr>ov_allowLITransparency := is_basic enforcer\<rparr>))"

definition allowGeo :: "permissionsImpl \<Rightarrow> string \<Rightarrow> ConsentMetadata \<Rightarrow> Vendor option \<Rightarrow> bool" where
  "allowGeo p bidder consentMeta vendor =
     (if \<not> FeatureOneEnforced (pm_cfg p) then True
      else if FeatureOneVendorException (pm_cfg p) bidder then True
      else SpecialFeatureOptIn consentMeta 1 \<and>
        ((case vendor of Some v \<Rightarrow> Vendor_SpecialFeature v 1 | None \<Rightarrow> False) \<or> bidder \<in> set (BasicEnforcementVendors (pm_cfg p))))"

definition id_basis :: "permissionsImpl \<Rightarrow> string \<Rightarrow> ConsentMetadata \<Rightarrow> VendorInfo \<Rightarrow> purpose \<Rightarrow> bool" where
  "id_basis p bidder consentMeta vendorInfo purpose =
     (let enforcer = pm_purposeEnforcerBuilder p purpose bidder in
      LegalBasis enforcer vendorInfo bidder consentMeta
        \<lparr>ov_allowLITransparency = (is_basic enforcer \<and> purpose = 2), ov_blockVendorExceptions = False, ov_enforcePurpose = True, ov_enforceVendors = True\<rparr>)"

definition allowID :: "permissionsImpl \<Rightarrow> string \<Rightarrow> ConsentMetadata \<Rightarrow> VendorInfo \<Rightarrow> bool" where
  "allowID p bidder consentMeta vendorInfo = list_ex (id_basis p bidder consentMeta vendorInfo) [2..<11]"

definition AuctionActivitiesAllowed :: "permissionsImpl \<Rightarrow> string \<Rightarrow> string \<Rightarrow> AuctionPermissions" where
  "AuctionActivitiesAllowed p bidderCoreName bidder =
     (if pm_publisherID p \<in> set (pm_nonStandardPublishers p) then AllowAll
      else if pm_gdprSignal p \<noteq> SignalYes then AllowAll
      else if pm_consent p = [] then defaultPermissions p
      else case parseConsent (pm_ParseString p) (pm_consent p) of
        None \<Rightarrow> defaultPermissions p
      | Some pc \<Rightarrow>
          let v = fst (resolveVendorID p bidderCoreName bidder) in
          (case getVendor p v pc of
             None \<Rightarrow> defaultPermissions p
           | Some vendor \<Rightarrow>
               let vendorInfo = \<lparr>vi_vendorID = v, vi_vendor = vendor\<rparr>; meta = pcn_consentMeta pc in
               \<lparr>AllowBidRequest = allowBidRequest p bidderCoreName meta vendorInfo, PassGeo = allowGeo p bidderCoreName meta vendor,
                PassID = allowID p bidderCoreName meta vendorInfo\<rparr>))"

text \<open>The permissions a request gets.\<close>

record GDPR =
  g_Enabled :: bool
  g_DefaultValue :: string
  g_HostVendorID :: int
  g_NonStandardPublisherMap :: "string list"

record RequestInfo =
  ri_AliasGVLIDs :: "(string, vendor_id) gomap"
  ri_Consent :: string
  ri_GDPRSignal :: Signal
  ri_PublisherID :: string

datatype Permissions = AlwaysAllow | AllowHostCookies permissionsImpl | Impl permissionsImpl

definition NewPermissions :: "GDPR \<Rightarrow> TCF2ConfigReader \<Rightarrow> (string, vendor_id) gomap \<Rightarrow> vendor_id list option \<Rightarrow>
    (nat \<Rightarrow> nat \<Rightarrow> (vendor_id \<Rightarrow> Vendor option) option) \<Rightarrow> (string \<Rightarrow> raw_consent option) \<Rightarrow> (purpose \<Rightarrow> string \<Rightarrow> PurposeEnforcer) \<Rightarrow>
    RequestInfo \<Rightarrow> Permissions" where
  "NewPermissions cfg tcf2Config vendorIDs validIDs fetcher ParseString builder info =
     (if \<not> g_Enabled cfg then AlwaysAllow
      else
        let p = \<lparr>pm_ParseString = ParseString, pm_fetchVendorList = fetcher, pm_hostVendorID = g_HostVendorID cfg,
                 pm_nonStandardPublishers = g_NonStandardPublisherMap cfg, pm_purposeEnforcerBuilder = builder,
                 pm_validGVLVendorIDs = validIDs, pm_vendorIDs = vendorIDs, pm_aliasGVLIDs = ri_AliasGVLIDs info,
                 pm_cfg = tcf2Config, pm_consent = ri_Consent info,
                 pm_gdprSignal = SignalNormalize (ri_GDPRSignal info) (g_DefaultValue cfg), pm_publisherID = ri_PublisherID info\<rparr> in
        if g_HostVendorID cfg = 0 then AllowHostCookies p else Impl p)"

fun Perm_HostCookiesAllowed :: "Permissions \<Rightarrow> bool option" where
  "Perm_HostCookiesAllowed AlwaysAllow = Some True"
| "Perm_HostCookiesAllowed (AllowHostCookies p) = Some True"
| "Perm_HostCookiesAllowed (Impl p) = HostCookiesAllowed p"

fun Perm_BidderSyncAllowed :: "Permissions \<Rightarrow> string \<Rightarrow> bool option" where
  "Perm_BidderSyncAllowed AlwaysAllow bidder = Some True"
| "Perm_BidderSyncAllowed (AllowHostCookies p) bidder = BidderSyncAllowed p bidder"
| "Perm_BidderSyncAllowed (Impl p) bidder = BidderSyncAllowed p bidder"

fun Perm_AuctionActivitiesAllowed :: "Permissions \<Rightarrow> string \<Rightarrow> string \<Rightarrow> AuctionPermissions" where
  "Perm_AuctionActivitiesAllowed AlwaysAllow coreBidder bidder = AllowAll"
| "Perm_AuctionActivitiesAllowed (AllowHostCookies p) coreBidder bidder = AuctionActivitiesAllowed p coreBidder bidder"
| "Perm_AuctionActivitiesAllowed (Impl p) coreBidder bidder = AuctionActivitiesAllowed p coreBidder bidder"

section \<open>The cache is transparent\<close>

definition slot_ok :: "TCF2ConfigReader \<Rightarrow> purpose \<Rightarrow> PurposeEnforcers \<Rightarrow> bool" where
  "slot_ok cfg p slot \<longleftrightarrow>
     (\<forall>e. pe_Basic slot = Some e \<longrightarrow> e = BasicEnforcement (purpose_config cfg p)) \<and>
     (\<forall>e. pe_Full slot = Some e \<longrightarrow> e = FullEnforcement (purpose_config cfg p))"

definition cache_ok :: "TCF2ConfigReader \<Rightarrow> PurposeEnforcers list \<Rightarrow> bool" where
  "cache_ok cfg cached \<longleftrightarrow> length cached = 10 \<and> (\<forall>i < 10. slot_ok cfg (Suc i) (cached ! i))"

lemma cache_ok_empty: "cache_ok cfg empty_enforcers"
  by (simp add: cache_ok_def empty_enforcers_def slot_ok_def)

lemma cache_ok_update: "cache_ok cfg cached \<Longrightarrow> slot_ok cfg (Suc i) slot \<Longrightarrow> cache_ok cfg (cached[i := slot])"
  by (cases "i < 10") (auto simp: cache_ok_def nth_list_update list_update_beyond)

lemma build_enforcer_ok:
  assumes "cache_ok cfg cached" "1 \<le> p" "p \<le> 10"
  shows "\<exists>cached'. build_enforcer cfg cached p name = Some (enforcer_for cfg p name, cached') \<and> cache_ok cfg cached'"
proof -
  obtain i where p: "p = Suc i" and i: "i < 10" using assms(2,3) by (cases p) auto
  have len: "length cached = 10" and slot: "slot_ok cfg (Suc i) (cached ! i)" using assms(1) i by (simp_all add: cache_ok_def)
  have upd: "cache_ok cfg (cached[i := (cached ! i)\<lparr>pe_Basic := Some (BasicEnforcement (purpose_config cfg (Suc i)))\<rparr>])"
    "cache_ok cfg (cached[i := (cached ! i)\<lparr>pe_Full := Some (FullEnforcement (purpose_config cfg (Suc i)))\<rparr>])"
    using slot by (auto intro!: cache_ok_update [OF assms(1)] simp: slot_ok_def)
  show ?thesis using slot upd assms(1) i len
    by (auto simp: build_enforcer_def enforcer_for_def p Let_def slot_ok_def split: option.split)
qed

fun build_all :: "TCF2ConfigReader \<Rightarrow> PurposeEnforcers list \<Rightarrow> (purpose \<times> string) list \<Rightarrow> PurposeEnforcer list option" where
  "build_all cfg cached [] = Some []"
| "build_all cfg cached ((p, name) # calls) =
     (case build_enforcer cfg cached p name of None \<Rightarrow> None
      | Some (e, cached') \<Rightarrow> map_option ((#) e) (build_all cfg cached' calls))"

text \<open>
  The cache of enforcers of a request is transparent: whatever calls come in whatever order, each gets the enforcer that would be
  built for it without a cache, though the cache has one slot per purpose and algorithm and is shared by all bidders.
\<close>

theorem enforcer_cache_transparent:
  assumes "list_all (\<lambda>(p, name). 1 \<le> p \<and> p \<le> 10) calls"
  shows "build_all cfg empty_enforcers calls = Some (map (\<lambda>(p, name). enforcer_for cfg p name) calls)"
proof -
  have "build_all cfg cached calls = Some (map (\<lambda>(p, name). enforcer_for cfg p name) calls)" if "cache_ok cfg cached" for cached
    using that assms
  proof (induction calls arbitrary: cached)
    case (Cons c calls)
    obtain p name where c: "c = (p, name)" by (cases c)
    from build_enforcer_ok [OF Cons.prems(1), of p name] Cons.prems(2) c obtain cached' where
      "build_enforcer cfg cached p name = Some (enforcer_for cfg p name, cached')" "cache_ok cfg cached'" by auto
    with Cons.IH [of cached'] Cons.prems(2) c show ?case by simp
  qed simp
  then show ?thesis using cache_ok_empty by blast
qed

theorem enforcer_cache_transparent_witness:
  "build_all (NewTCF2Config \<lparr>tcf_Enabled = True, tcf_PurposeConfigs = [], tcf_SF1_Enforce = True, tcf_SF1_VendorExceptionMap = [],
       tcf_P1T_Enabled = False, tcf_P1T_AccessAllowed = False\<rparr>
     \<lparr>ag_Enabled = None, ag_ChannelEnabled = \<lparr>chan_AMP = None, chan_App = None, chan_Video = None, chan_Web = None, chan_DOOH = None\<rparr>,
       ag_BasicEnforcementVendorsMap = Some [''a''], ag_PurposeConfigs = [], ag_P1T_Enabled = None, ag_P1T_AccessAllowed = None,
       ag_SF1_Enforce = None, ag_SF1_VendorExceptionMap = None\<rparr>)
     empty_enforcers [(2, ''a''), (2, ''b''), (2, ''a'')] =
   Some [BasicEnforcement \<lparr>pc_PurposeID = 2, pc_EnforceAlgo = TCF2FullEnforcement, pc_EnforcePurpose = False, pc_EnforceVendors = False,
           pc_VendorExceptionMap = [], pc_BasicEnforcementVendorsMap = [''a'']\<rparr>,
         FullEnforcement \<lparr>pc_PurposeID = 2, pc_EnforceAlgo = TCF2FullEnforcement, pc_EnforcePurpose = False, pc_EnforceVendors = False,
           pc_VendorExceptionMap = [], pc_BasicEnforcementVendorsMap = [''a'']\<rparr>,
         BasicEnforcement \<lparr>pc_PurposeID = 2, pc_EnforceAlgo = TCF2FullEnforcement, pc_EnforcePurpose = False, pc_EnforceVendors = False,
           pc_VendorExceptionMap = [], pc_BasicEnforcementVendorsMap = [''a'']\<rparr>]"
  by (subst enforcer_cache_transparent)
     (simp_all add: enforcer_for_def purpose_config_def NewTCF2Config_def isDowngraded_def Account_PurposeEnforced_def
       Account_PurposeEnforcementAlgo_def Account_PurposeEnforcingVendors_def Account_PurposeVendorExceptions_def TCF2_PurposeEnforced_def
       TCF2_PurposeEnforcementAlgo_def TCF2_PurposeEnforcingVendors_def TCF2_PurposeVendorExceptions_def Let_def)

section \<open>More consent never takes a permission away\<close>

text \<open>The second consent grants whatever the first does; publisher restrictions and the purpose one treatment are the same.\<close>

definition consent_le :: "ConsentMetadata \<Rightarrow> ConsentMetadata \<Rightarrow> bool" where
  "consent_le c c' \<longleftrightarrow>
     (\<forall>p. PurposeAllowed c p \<longrightarrow> PurposeAllowed c' p) \<and> (\<forall>p. PurposeLITransparency c p \<longrightarrow> PurposeLITransparency c' p) \<and>
     (\<forall>v. VendorConsent c v \<longrightarrow> VendorConsent c' v) \<and> (\<forall>v. VendorLegitInterest c v \<longrightarrow> VendorLegitInterest c' v) \<and>
     (\<forall>f. SpecialFeatureOptIn c f \<longrightarrow> SpecialFeatureOptIn c' f) \<and>
     CheckPubRestriction c' = CheckPubRestriction c \<and> PurposeOneTreatment c' = PurposeOneTreatment c"

definition perms_le :: "AuctionPermissions \<Rightarrow> AuctionPermissions \<Rightarrow> bool" where
  "perms_le a b \<longleftrightarrow> (AllowBidRequest a \<longrightarrow> AllowBidRequest b) \<and> (PassGeo a \<longrightarrow> PassGeo b) \<and> (PassID a \<longrightarrow> PassID b)"

lemma perms_le_refl [simp]: "perms_le a a"
  by (simp add: perms_le_def)

lemma consentEstablished_mono: "consent_le c c' \<Longrightarrow> consentEstablished pc c vi ep ev \<Longrightarrow> consentEstablished pc c' vi ep ev"
  by (auto simp: consentEstablished_def consent_le_def split: option.splits if_splits)

lemma legitInterestEstablished_mono: "consent_le c c' \<Longrightarrow> legitInterestEstablished pc c vi ep ev \<Longrightarrow> legitInterestEstablished pc c' vi ep ev"
  by (auto simp: legitInterestEstablished_def consent_le_def split: option.splits if_splits)

lemma Full_mono:
  assumes "consent_le c c'" "Full_LegalBasis pc vi name c ov"
  shows "Full_LegalBasis pc vi name c' ov"
proof -
  have "CheckPubRestriction c' = CheckPubRestriction c" using assms(1) by (simp add: consent_le_def)
  with assms consentEstablished_mono [OF assms(1)] legitInterestEstablished_mono [OF assms(1)] show ?thesis
    by (auto simp: Full_LegalBasis_def Let_def split: if_splits prod.splits)
qed

lemma Basic_mono:
  assumes "consent_le c c'" "Basic_LegalBasis pc vi name c ov"
  shows "Basic_LegalBasis pc vi name c' ov"
proof -
  obtain ep ev where o: "applyEnforceOverrides pc ov = (ep, ev)" by (cases "applyEnforceOverrides pc ov")
  have "PurposeAllowed c (pc_PurposeID pc) \<longrightarrow> PurposeAllowed c' (pc_PurposeID pc)"
    "PurposeLITransparency c (pc_PurposeID pc) \<longrightarrow> PurposeLITransparency c' (pc_PurposeID pc)"
    "VendorConsent c (vi_vendorID vi) \<longrightarrow> VendorConsent c' (vi_vendorID vi)"
    using assms(1) by (simp_all add: consent_le_def)
  with assms(2) show ?thesis by (auto simp: Basic_LegalBasis_def o split: if_splits)
qed

text \<open>
  What every enforcement algorithm of a purpose promises: more consent never turns a yes into a no, and when the purpose has to be
  enforced, a bidder that is no exception gets a yes only if the user consented or was told of the legitimate interest.
\<close>

definition user_basis :: "ConsentMetadata \<Rightarrow> purpose \<Rightarrow> bool" where
  "user_basis c p \<longleftrightarrow> PurposeAllowed c p \<or> PurposeLITransparency c p"

locale purpose_enforcer =
  fixes basis :: "VendorInfo \<Rightarrow> string \<Rightarrow> ConsentMetadata \<Rightarrow> Overrides \<Rightarrow> bool"
    and purposeID :: purpose
    and exceptions :: "string set"
  assumes mono: "consent_le c c' \<Longrightarrow> basis vi name c ov \<Longrightarrow> basis vi name c' ov"
    and justified: "basis vi name c ov \<Longrightarrow> ov_enforcePurpose ov \<Longrightarrow> name \<notin> exceptions \<or> ov_blockVendorExceptions ov \<Longrightarrow>
      user_basis c purposeID"
begin

lemma denied_below: "consent_le c c' \<Longrightarrow> \<not> basis vi name c' ov \<Longrightarrow> \<not> basis vi name c ov"
  using mono by blast

lemma denied_without_basis: "\<not> user_basis c purposeID \<Longrightarrow> ov_enforcePurpose ov \<Longrightarrow> name \<notin> exceptions \<Longrightarrow> \<not> basis vi name c ov"
  using justified by blast

end

interpretation full: purpose_enforcer "Full_LegalBasis pc" "pc_PurposeID pc" "set (pc_VendorExceptionMap pc)" for pc
  by unfold_locales
    (rule Full_mono, auto simp: Full_LegalBasis_def applyEnforceOverrides_def consentEstablished_def legitInterestEstablished_def
      user_basis_def vendorException_def Let_def split: if_splits option.splits)

interpretation basic: purpose_enforcer "Basic_LegalBasis pc" "pc_PurposeID pc" "set (pc_VendorExceptionMap pc)" for pc
  by unfold_locales
    (rule Basic_mono, auto simp: Basic_LegalBasis_def applyEnforceOverrides_def user_basis_def vendorException_def Let_def split: if_splits)

lemma enforcer_for_cases: "enforcer_for cfg p name = FullEnforcement (purpose_config cfg p) \<or> enforcer_for cfg p name = BasicEnforcement (purpose_config cfg p)"
  by (simp add: enforcer_for_def Let_def)

interpretation chosen: purpose_enforcer "LegalBasis (enforcer_for cfg p name')" p "set (PurposeVendorExceptions cfg p)" for cfg p name'
proof
  note cases = enforcer_for_cases [of cfg p name']
  show "consent_le c c' \<Longrightarrow> LegalBasis (enforcer_for cfg p name') vi name c ov \<Longrightarrow> LegalBasis (enforcer_for cfg p name') vi name c' ov"
    for c c' vi name ov
    using cases full.mono [of c c'] basic.mono [of c c'] by auto
  show "LegalBasis (enforcer_for cfg p name') vi name c ov \<Longrightarrow> ov_enforcePurpose ov \<Longrightarrow>
      name \<notin> set (PurposeVendorExceptions cfg p) \<or> ov_blockVendorExceptions ov \<Longrightarrow> user_basis c p" for vi name c ov
    using cases full.justified [of "purpose_config cfg p"] basic.justified [of "purpose_config cfg p"] by (auto simp: purpose_config_def)
qed

lemma LegalBasis_mono: "consent_le c c' \<Longrightarrow> LegalBasis e vi name c ov \<Longrightarrow> LegalBasis e vi name c' ov"
  by (cases e) (auto intro: full.mono basic.mono)

lemma allowID_iff: "allowID p bidder c vi \<longleftrightarrow> (\<exists>q. 2 \<le> q \<and> q \<le> 10 \<and> id_basis p bidder c vi q)"
proof -
  have "set [2..<11] = {q. 2 \<le> q \<and> q \<le> (10 :: nat)}" by (simp only: set_upt) auto
  then show ?thesis unfolding allowID_def list_ex_iff by blast
qed

lemma id_basis_mono: "consent_le c c' \<Longrightarrow> id_basis p bidder c vi q \<Longrightarrow> id_basis p bidder c' vi q"
  unfolding id_basis_def Let_def by (rule LegalBasis_mono)

lemma allowID_mono: "consent_le c c' \<Longrightarrow> allowID p bidder c vi \<Longrightarrow> allowID p bidder c' vi"
  unfolding allowID_iff using id_basis_mono by metis

lemma allowGeo_mono: "consent_le c c' \<Longrightarrow> allowGeo p bidder c v \<Longrightarrow> allowGeo p bidder c' v"
  by (auto simp: allowGeo_def consent_le_def split: if_splits)

lemma allowBidRequest_mono: "consent_le c c' \<Longrightarrow> allowBidRequest p bidder c vi \<Longrightarrow> allowBidRequest p bidder c' vi"
  by (auto simp: allowBidRequest_def Let_def intro: LegalBasis_mono)

lemma id_basis_consent: "id_basis (p\<lparr>pm_consent := s\<rparr>) = id_basis p"
  by (intro ext) (simp add: id_basis_def)

lemma isValidVendorID_consent: "isValidVendorID (p\<lparr>pm_consent := s\<rparr>) = isValidVendorID p"
  by (intro ext) (simp add: isValidVendorID_def)

lemma resolveVendorID_consent: "resolveVendorID (p\<lparr>pm_consent := s\<rparr>) = resolveVendorID p"
  by (intro ext) (simp add: resolveVendorID_def isValidVendorID_consent split: option.split)

lemma allow_consent:
  "allowBidRequest (p\<lparr>pm_consent := s\<rparr>) = allowBidRequest p" "allowGeo (p\<lparr>pm_consent := s\<rparr>) = allowGeo p"
  "allowID (p\<lparr>pm_consent := s\<rparr>) = allowID p" "getVendor (p\<lparr>pm_consent := s\<rparr>) = getVendor p"
  by (intro ext, simp add: allowBidRequest_def allowGeo_def allowID_def id_basis_consent getVendor_def)+

lemma defaultPermissions_consent: "defaultPermissions (p\<lparr>pm_consent := s\<rparr>) = defaultPermissions p"
  by (simp add: defaultPermissions_def)

lemmas perms_depend_on_consent = resolveVendorID_consent allow_consent defaultPermissions_consent

text \<open>
  Granting more consent never loses a permission: of two consent strings for the same vendor list and policy version, with the same
  publisher restrictions, the one that grants whatever the other does gives a bidder every auction permission the other gives.
\<close>

theorem auction_permissions_monotone:
  assumes "s \<noteq> []" "s' \<noteq> []"
    and "parseConsent (pm_ParseString p) s = Some pc" "parseConsent (pm_ParseString p) s' = Some (pc\<lparr>pcn_consentMeta := meta'\<rparr>)"
    and "consent_le (pcn_consentMeta pc) meta'"
  shows "perms_le (AuctionActivitiesAllowed (p\<lparr>pm_consent := s\<rparr>) coreBidder bidder)
     (AuctionActivitiesAllowed (p\<lparr>pm_consent := s'\<rparr>) coreBidder bidder)"
proof -
  have v: "getVendor p v (pc\<lparr>pcn_consentMeta := meta'\<rparr>) = getVendor p v pc" for v by (simp add: getVendor_def)
  show ?thesis
    using assms allowBidRequest_mono [OF assms(5)] allowGeo_mono [OF assms(5)] allowID_mono [OF assms(5)]
    by (auto simp: AuctionActivitiesAllowed_def perms_depend_on_consent v Let_def perms_le_def split: option.split)
qed

section \<open>What a permission rests on\<close>

text \<open>
  No user IDs without a basis: when GDPR applies, IDs go to a bidder only if the publisher is exempt, or the consent string parses
  and, for some purpose from 2 to 10, the user consented to the purpose or was told of the legitimate interest, or the bidder is
  a configured exception for it.
\<close>

lemma no_ids_without_basis:
  assumes "PassID (AuctionActivitiesAllowed p coreBidder bidder)" "pm_gdprSignal p = SignalYes"
    and "pm_purposeEnforcerBuilder p = enforcer_for (pm_cfg p)"
  shows "pm_publisherID p \<in> set (pm_nonStandardPublishers p) \<or>
     (\<exists>pc purpose. parseConsent (pm_ParseString p) (pm_consent p) = Some pc \<and> 2 \<le> purpose \<and> purpose \<le> 10 \<and>
        (user_basis (pcn_consentMeta pc) purpose \<or> coreBidder \<in> set (PurposeVendorExceptions (pm_cfg p) purpose)))"
proof (cases "pm_publisherID p \<in> set (pm_nonStandardPublishers p)")
  case False
  with assms(1,2) obtain pc vi where pc: "parseConsent (pm_ParseString p) (pm_consent p) = Some pc"
    and "allowID p coreBidder (pcn_consentMeta pc) vi"
    by (auto simp: AuctionActivitiesAllowed_def defaultPermissions_def Let_def split: if_splits option.splits)
  then obtain q where q: "2 \<le> q" "q \<le> 10" and basis: "id_basis p coreBidder (pcn_consentMeta pc) vi q"
    by (auto simp: allowID_iff)
  then have "user_basis (pcn_consentMeta pc) q" if "coreBidder \<notin> set (PurposeVendorExceptions (pm_cfg p) q)"
    using chosen.justified [of "pm_cfg p" q coreBidder vi coreBidder] that by (simp add: id_basis_def assms(3) Let_def)
  with pc q show ?thesis by blast
qed simp

text \<open>A host that enforces purpose 2 and special feature 1, and a consent that grants the given purposes to every vendor.\<close>

definition sample_purpose :: TCF2Purpose where
  "sample_purpose = \<lparr>tp_EnforceAlgoID = TCF2FullEnforcement, tp_EnforcePurpose = True, tp_EnforceVendors = True, tp_VendorExceptionMap = None\<rparr>"

definition sample_tcf2 :: TCF2 where
  "sample_tcf2 = \<lparr>tcf_Enabled = True, tcf_PurposeConfigs = [(1, sample_purpose), (2, sample_purpose)], tcf_SF1_Enforce = True,
     tcf_SF1_VendorExceptionMap = [], tcf_P1T_Enabled = False, tcf_P1T_AccessAllowed = False\<rparr>"

definition plain_account :: AccountGDPR where
  "plain_account = \<lparr>ag_Enabled = None, ag_ChannelEnabled = \<lparr>chan_AMP = None, chan_App = None, chan_Video = None, chan_Web = None, chan_DOOH = None\<rparr>,
     ag_BasicEnforcementVendorsMap = None, ag_PurposeConfigs = [], ag_P1T_Enabled = None, ag_P1T_AccessAllowed = None, ag_SF1_Enforce = None,
     ag_SF1_VendorExceptionMap = None\<rparr>"

definition sample_consent :: "purpose list \<Rightarrow> ConsentMetadata" where
  "sample_consent ps = \<lparr>PurposeAllowed = (\<lambda>p. p \<in> set ps), PurposeLITransparency = (\<lambda>_. False), VendorConsent = (\<lambda>_. True),
     VendorLegitInterest = (\<lambda>_. False), CheckPubRestriction = (\<lambda>_ _ _. False), SpecialFeatureOptIn = (\<lambda>_. False), PurposeOneTreatment = False\<rparr>"

definition sample_parse :: "string \<Rightarrow> raw_consent option" where
  "sample_parse s = Some \<lparr>rc_Version = 2, rc_VendorListVersion = 9, rc_TCFPolicyVersion = 4,
     rc_meta = Some (sample_consent (if s = ''all'' then [2, 3] else [3]))\<rparr>"

definition sample_perms :: "string \<Rightarrow> permissionsImpl" where
  "sample_perms consent =
     \<lparr>pm_ParseString = sample_parse,
      pm_fetchVendorList = (\<lambda>_ _. Some (\<lambda>v. Some \<lparr>Vendor_Purpose = (\<lambda>_. True), Vendor_LegitimateInterest = (\<lambda>_. False),
        Vendor_SpecialFeature = (\<lambda>_. False)\<rparr>)),
      pm_hostVendorID = 5, pm_nonStandardPublishers = [], pm_purposeEnforcerBuilder = enforcer_for (NewTCF2Config sample_tcf2 plain_account),
      pm_validGVLVendorIDs = None, pm_vendorIDs = [(''a'', 7)], pm_aliasGVLIDs = [], pm_cfg = NewTCF2Config sample_tcf2 plain_account,
      pm_consent = consent, pm_gdprSignal = SignalYes, pm_publisherID = ''pub''\<rparr>"

lemmas gdpr_examples = sample_purpose_def sample_tcf2_def plain_account_def sample_consent_def sample_parse_def sample_perms_def NewTCF2Config_def
  Account_PurposeEnforced_def Account_PurposeEnforcementAlgo_def Account_PurposeEnforcingVendors_def Account_PurposeVendorExceptions_def
  TCF2_PurposeEnforced_def TCF2_PurposeEnforcementAlgo_def TCF2_PurposeEnforcingVendors_def TCF2_PurposeVendorExceptions_def
  AuctionActivitiesAllowed_def parseConsent_def validateVersions_def getSpecVersion_def getVendor_def resolveVendorID_def isValidVendorID_def
  allowBidRequest_def allowGeo_def id_basis_def enforcer_for_def isDowngraded_def purpose_config_def Full_LegalBasis_def
  applyEnforceOverrides_def consentEstablished_def legitInterestEstablished_def vendorException_def no_overrides_def Let_def

theorem auction_permissions_monotone_witness:
  "perms_le (AuctionActivitiesAllowed ((sample_perms [])\<lparr>pm_consent := ''few''\<rparr>) ''a'' ''a'')
     (AuctionActivitiesAllowed ((sample_perms [])\<lparr>pm_consent := ''all''\<rparr>) ''a'' ''a'') \<and>
   \<not> AllowBidRequest (AuctionActivitiesAllowed ((sample_perms [])\<lparr>pm_consent := ''few''\<rparr>) ''a'' ''a'') \<and>
   AllowBidRequest (AuctionActivitiesAllowed ((sample_perms [])\<lparr>pm_consent := ''all''\<rparr>) ''a'' ''a'')"
  using auction_permissions_monotone [of "''few''" "''all''" "sample_perms []"
      "\<lparr>pcn_encodingVersion = 2, pcn_listVersion = 9, pcn_specVersion = 3, pcn_consentMeta = sample_consent [3]\<rparr>" "sample_consent [2, 3]" "''a''" "''a''"]
  by (simp add: gdpr_examples consent_le_def)

end
