(* ===== verification/Requests.thy ===== *)
theory Requests
  imports Prelude
begin

text \<open>
  The request as the exchange works on it: \<^verbatim>\<open>openrtb_ext/request_wrapper.go\<close> for the parts of a request whose extensions the
  modelled code edits, and the conversions between the OpenRTB 2.5 and 2.6 locations of \<^verbatim>\<open>openrtb_ext/convert_up.go\<close> and
  \<^verbatim>\<open>convert_down.go\<close>.

  A wrapper keeps the request and two caches: the decoded extension of the user, with a flag for changes not yet written back, and
  the impressions once they have been asked for. \<^verbatim>\<open>RebuildRequest\<close> writes the caches back. The extensions of regs, source and
  impressions change only through their cache while it is in use, so they are kept decoded and have no cache here. Extensions
  are decoded objects: the endpoints reject a request with an extension that does not decode. Requests are values; fields no
  operation reads or changes are left out.
\<close>

section \<open>Requests\<close>

datatype ip_field = IP_empty | IP_text "128 word option"  \<comment> \<open>\<open>None\<close>: a text that is no address\<close>

record Geo =
  geo_Lat :: "float64 option"
  geo_Lon :: "float64 option"
  geo_Other :: "(string, string) gomap"  \<comment> \<open>the other fields that are set\<close>

record Device =
  dv_IP :: ip_field
  dv_IPv6 :: ip_field
  dv_IFA :: string
  dv_DIDMD5 :: string
  dv_DIDSHA1 :: string
  dv_DPIDMD5 :: string
  dv_DPIDSHA1 :: string
  dv_MACMD5 :: string
  dv_MACSHA1 :: string
  dv_Geo :: "Geo option"
  dv_Lmt :: "int option"

record EID =
  eid_Source :: string
  eid_UIDs :: "string list"

record SupplyChain =
  sc_Ver :: string
  sc_Complete :: int
  sc_Nodes :: "string list"

text \<open>A value of an extension: one of the typed fields, or the raw JSON of any other field. \<open>XPrebid\<close> is \<^verbatim>\<open>imp.ext.prebid\<close>: the rewarded flag and the other fields.\<close>

datatype ext_value = XRaw string | XText string | XNum int | XEids "EID list" | XSChain SupplyChain | XPrebid "int option" "(string, string) gomap"

type_synonym ext = "(string, ext_value) gomap"

record User =
  us_ID :: string
  us_BuyerUID :: string
  us_Yob :: int
  us_Gender :: string
  us_Keywords :: string
  us_KwArray :: "string list"
  us_Data :: "string list"
  us_EIDs :: "EID list"
  us_Consent :: string
  us_Geo :: "Geo option"
  us_Ext :: ext

record Regs =
  rg_USPrivacy :: string
  rg_GPPSID :: "int list option"
  rg_GDPR :: "int option"
  rg_COPPA :: int
  rg_Ext :: ext

record Source =
  so_TID :: string
  so_SChain :: "SupplyChain option"
  so_Ext :: ext

record ReqImp =
  ri_ID :: string
  ri_BidFloor :: float64
  ri_Rwdd :: int
  ri_Ext :: ext

record RequestWrapper =
  rw_Device :: "Device option"
  rw_User :: "User option"
  rw_Regs :: "Regs option"
  rw_Source :: "Source option"
  rw_Imp :: "ReqImp list"
  rw_Site :: "string option"
  rw_App :: "string option"
  rw_ExtSChain :: "SupplyChain option"  \<comment> \<open>\<^verbatim>\<open>ext.schain\<close>\<close>
  rw_userExt :: "(ext \<times> bool) option"  \<comment> \<open>the cache of the extension of the user, and that it is dirty\<close>
  rw_impWrappers :: "ReqImp list option"  \<comment> \<open>\<open>None\<close>: not accessed\<close>

definition empty_User :: User where
  "empty_User = \<lparr>us_ID = [], us_BuyerUID = [], us_Yob = 0, us_Gender = [], us_Keywords = [], us_KwArray = [], us_Data = [], us_EIDs = [],
     us_Consent = [], us_Geo = None, us_Ext = []\<rparr>"

definition empty_Source :: Source where
  "empty_Source = \<lparr>so_TID = [], so_SChain = None, so_Ext = []\<rparr>"

section \<open>The wrapper\<close>

text \<open>The impressions: their wrappers once accessed. The wrappers point into the list of the request, so a change through them shows in both.\<close>

definition GetImp :: "RequestWrapper \<Rightarrow> ReqImp list" where
  "GetImp r = (case rw_impWrappers r of Some imps \<Rightarrow> imps | None \<Rightarrow> rw_Imp r)"

definition SetImp :: "ReqImp list \<Rightarrow> RequestWrapper \<Rightarrow> RequestWrapper" where
  "SetImp imps r = r\<lparr>rw_impWrappers := Some imps, rw_Imp := imps\<rparr>"

definition GetUserExt :: "RequestWrapper \<Rightarrow> ext \<times> bool" where
  "GetUserExt r =
     (case rw_userExt r of
        Some c \<Rightarrow> c
      | None \<Rightarrow> (case rw_User r of Some u \<Rightarrow> (us_Ext u, False) | None \<Rightarrow> ([], False)))"

definition rebuildImp :: "RequestWrapper \<Rightarrow> RequestWrapper" where
  "rebuildImp r = (case rw_impWrappers r of None \<Rightarrow> r | Some imps \<Rightarrow> r\<lparr>rw_Imp := imps\<rparr>)"

definition rebuildUserExt :: "RequestWrapper \<Rightarrow> RequestWrapper" where
  "rebuildUserExt r =
     (case rw_userExt r of
        Some (e, True) \<Rightarrow>
          r\<lparr>rw_userExt := Some (e, False),
            rw_User := (case rw_User r of None \<Rightarrow> if e = [] then None else Some (empty_User\<lparr>us_Ext := e\<rparr>) | Some u \<Rightarrow> Some (u\<lparr>us_Ext := e\<rparr>))\<rparr>
      | _ \<Rightarrow> r)"

definition RebuildRequest :: "RequestWrapper \<Rightarrow> RequestWrapper" where
  "RebuildRequest r = rebuildUserExt (rebuildImp r)"

definition PreloadExts :: "RequestWrapper \<Rightarrow> RequestWrapper" where
  "PreloadExts r = r\<lparr>rw_userExt := Some (GetUserExt r)\<rparr>"

text \<open>
  The clone for a bidder gets the request and the impressions of the bidder. The user extension is cached, so its clone is the same.
\<close>

definition CloneAndClearImpWrappers :: "RequestWrapper \<Rightarrow> RequestWrapper" where
  "CloneAndClearImpWrappers r = r\<lparr>rw_impWrappers := None\<rparr>"

text \<open>A field of an extension is written when it has a value and removed when it has none.\<close>

definition set_field :: "string \<Rightarrow> ext_value option \<Rightarrow> ext \<Rightarrow> ext" where
  "set_field k v e = (case v of Some x \<Rightarrow> map_put k x e | None \<Rightarrow> map_del k e)"

definition SetUserExtField :: "string \<Rightarrow> ext_value option \<Rightarrow> RequestWrapper \<Rightarrow> RequestWrapper" where
  "SetUserExtField k v r = r\<lparr>rw_userExt := Some (set_field k v (fst (GetUserExt r)), True)\<rparr>"

definition consent_value :: "string \<Rightarrow> ext_value option" where
  "consent_value c = (if c = [] then None else Some (XText c))"

definition eids_value :: "EID list \<Rightarrow> ext_value option" where
  "eids_value e = (if e = [] then None else Some (XEids e))"

definition prebid_value :: "int option \<Rightarrow> (string, string) gomap \<Rightarrow> ext_value option" where
  "prebid_value rewarded others = (if rewarded = None \<and> others = [] then None else Some (XPrebid rewarded others))"

section \<open>From 2.6 to 2.5\<close>

definition moveSupplyChainFrom26To25 :: "RequestWrapper \<Rightarrow> RequestWrapper" where
  "moveSupplyChainFrom26To25 r =
     (case rw_Source r of None \<Rightarrow> r
      | Some s \<Rightarrow>
          (case so_SChain s of None \<Rightarrow> r
           | Some sc \<Rightarrow> r\<lparr>rw_Source := Some (s\<lparr>so_SChain := None, so_Ext := set_field ''schain'' (Some (XSChain sc)) (so_Ext s)\<rparr>)\<rparr>))"

definition moveGDPRFrom26To25 :: "RequestWrapper \<Rightarrow> RequestWrapper" where
  "moveGDPRFrom26To25 r =
     (case rw_Regs r of None \<Rightarrow> r
      | Some g \<Rightarrow>
          (case rg_GDPR g of None \<Rightarrow> r
           | Some x \<Rightarrow> r\<lparr>rw_Regs := Some (g\<lparr>rg_GDPR := None, rg_Ext := set_field ''gdpr'' (Some (XNum x)) (rg_Ext g)\<rparr>)\<rparr>))"

definition moveConsentFrom26To25 :: "RequestWrapper \<Rightarrow> RequestWrapper" where
  "moveConsentFrom26To25 r =
     (case rw_User r of None \<Rightarrow> r
      | Some u \<Rightarrow>
          if us_Consent u = [] then r
          else SetUserExtField ''consent'' (consent_value (us_Consent u)) (r\<lparr>rw_User := Some (u\<lparr>us_Consent := []\<rparr>)\<rparr>))"

definition moveUSPrivacyFrom26To25 :: "RequestWrapper \<Rightarrow> RequestWrapper" where
  "moveUSPrivacyFrom26To25 r =
     (case rw_Regs r of None \<Rightarrow> r
      | Some g \<Rightarrow>
          if rg_USPrivacy g = [] then r
          else r\<lparr>rw_Regs := Some (g\<lparr>rg_USPrivacy := [], rg_Ext := set_field ''us_privacy'' (consent_value (rg_USPrivacy g)) (rg_Ext g)\<rparr>)\<rparr>)"

definition moveEIDFrom26To25 :: "RequestWrapper \<Rightarrow> RequestWrapper" where
  "moveEIDFrom26To25 r =
     (case rw_User r of None \<Rightarrow> r
      | Some u \<Rightarrow>
          if us_EIDs u = [] then r
          else SetUserExtField ''eids'' (eids_value (us_EIDs u)) (r\<lparr>rw_User := Some (u\<lparr>us_EIDs := []\<rparr>)\<rparr>))"

definition imp_prebid :: "ext \<Rightarrow> int option \<times> (string, string) gomap" where
  "imp_prebid e = (case map_of e ''prebid'' of Some (XPrebid rewarded others) \<Rightarrow> (rewarded, others) | _ \<Rightarrow> (None, []))"

definition moveRewardedFrom26ToPrebidExt :: "ReqImp \<Rightarrow> ReqImp" where
  "moveRewardedFrom26ToPrebidExt i =
     (if ri_Rwdd i = 0 then i
      else i\<lparr>ri_Rwdd := 0, ri_Ext := set_field ''prebid'' (prebid_value (Some (ri_Rwdd i)) (snd (imp_prebid (ri_Ext i)))) (ri_Ext i)\<rparr>)"

definition change_imps :: "(ReqImp \<Rightarrow> ReqImp) \<Rightarrow> RequestWrapper \<Rightarrow> RequestWrapper" where
  "change_imps f r = r\<lparr>rw_impWrappers := Some (map f (GetImp r))\<rparr>"

definition ConvertDownTo25 :: "RequestWrapper \<Rightarrow> RequestWrapper" where
  "ConvertDownTo25 r =
     change_imps moveRewardedFrom26ToPrebidExt
       (moveEIDFrom26To25 (moveUSPrivacyFrom26To25 (moveConsentFrom26To25 (moveGDPRFrom26To25 (moveSupplyChainFrom26To25 r)))))"

section \<open>From 2.5 to 2.6\<close>

text \<open>The typed fields of an extension.\<close>

definition text_field :: "string \<Rightarrow> ext \<Rightarrow> string option" where
  "text_field k e = (case map_of e k of Some (XText c) \<Rightarrow> Some c | _ \<Rightarrow> None)"

definition num_field :: "string \<Rightarrow> ext \<Rightarrow> int option" where
  "num_field k e = (case map_of e k of Some (XNum n) \<Rightarrow> Some n | _ \<Rightarrow> None)"

definition eids_field :: "string \<Rightarrow> ext \<Rightarrow> EID list option" where
  "eids_field k e = (case map_of e k of Some (XEids x) \<Rightarrow> Some x | _ \<Rightarrow> None)"

definition schain_field :: "string \<Rightarrow> ext \<Rightarrow> SupplyChain option" where
  "schain_field k e = (case map_of e k of Some (XSChain x) \<Rightarrow> Some x | _ \<Rightarrow> None)"

definition moveSupplyChainFrom24To25 :: "RequestWrapper \<Rightarrow> SupplyChain option \<times> RequestWrapper" where
  "moveSupplyChainFrom24To25 r =
     (let schain24 = rw_ExtSChain r;
          source_ext = (case rw_Source r of Some s \<Rightarrow> so_Ext s | None \<Rightarrow> []) in
      (case schain_field ''schain'' source_ext of Some sc \<Rightarrow> Some sc | None \<Rightarrow> schain24, r\<lparr>rw_ExtSChain := None\<rparr>))"

text \<open>The first argument is the chain at the 2.5 location, which may stand in the cache of a source the request does not have yet.\<close>

definition moveSupplyChainFrom25To26 :: "SupplyChain option \<times> RequestWrapper \<Rightarrow> RequestWrapper" where
  "moveSupplyChainFrom25To26 p =
     (let (schain25, r) = p;
          source = map_option (\<lambda>s. s\<lparr>so_Ext := set_field ''schain'' None (so_Ext s)\<rparr>) (rw_Source r) in
      case schain25 of
        None \<Rightarrow> r\<lparr>rw_Source := source\<rparr>
      | Some sc \<Rightarrow>
          let s = (case source of Some s \<Rightarrow> s | None \<Rightarrow> empty_Source) in
          r\<lparr>rw_Source := Some (if so_SChain s = None then s\<lparr>so_SChain := Some sc\<rparr> else s)\<rparr>)"

definition moveGDPRFrom25To26 :: "RequestWrapper \<Rightarrow> RequestWrapper" where
  "moveGDPRFrom25To26 r = r\<lparr>rw_Regs := map_option (\<lambda>g.
     g\<lparr>rg_Ext := set_field ''gdpr'' None (rg_Ext g),
       rg_GDPR := (case rg_GDPR g of None \<Rightarrow> num_field ''gdpr'' (rg_Ext g) | Some x \<Rightarrow> Some x)\<rparr>) (rw_Regs r)\<rparr>"

text \<open>\<open>None\<close>: a nil user is dereferenced.\<close>

definition moveConsentFrom25To26 :: "RequestWrapper \<Rightarrow> RequestWrapper option" where
  "moveConsentFrom25To26 r =
     (let consent25 = text_field ''consent'' (fst (GetUserExt r));
          r' = SetUserExtField ''consent'' None r in
      case consent25 of
        None \<Rightarrow> Some r'
      | Some c \<Rightarrow> (case rw_User r' of None \<Rightarrow> None | Some u \<Rightarrow> Some (if us_Consent u = [] then r'\<lparr>rw_User := Some (u\<lparr>us_Consent := c\<rparr>)\<rparr> else r')))"

definition moveUSPrivacyFrom25To26 :: "RequestWrapper \<Rightarrow> RequestWrapper" where
  "moveUSPrivacyFrom25To26 r = r\<lparr>rw_Regs := map_option (\<lambda>g.
     g\<lparr>rg_Ext := set_field ''us_privacy'' None (rg_Ext g),
       rg_USPrivacy := (case text_field ''us_privacy'' (rg_Ext g) of Some x \<Rightarrow> if rg_USPrivacy g = [] then x else rg_USPrivacy g | None \<Rightarrow> rg_USPrivacy g)\<rparr>) (rw_Regs r)\<rparr>"

definition moveEIDFrom25To26 :: "RequestWrapper \<Rightarrow> RequestWrapper option" where
  "moveEIDFrom25To26 r =
     (let eid25 = eids_field ''eids'' (fst (GetUserExt r));
          r' = SetUserExtField ''eids'' None r in
      case eid25 of
        None \<Rightarrow> Some r'
      | Some e \<Rightarrow> (case rw_User r' of None \<Rightarrow> None | Some u \<Rightarrow> Some (if us_EIDs u = [] then r'\<lparr>rw_User := Some (u\<lparr>us_EIDs := e\<rparr>)\<rparr> else r')))"

definition moveRewardedFromPrebidExtTo26 :: "ReqImp \<Rightarrow> ReqImp" where
  "moveRewardedFromPrebidExtTo26 i =
     (case map_of (ri_Ext i) ''prebid'' of
        Some (XPrebid (Some n) others) \<Rightarrow>
          i\<lparr>ri_Ext := set_field ''prebid'' (prebid_value None others) (ri_Ext i), ri_Rwdd := (if ri_Rwdd i = 0 then n else ri_Rwdd i)\<rparr>
      | _ \<Rightarrow> i)"

definition ConvertUpTo26 :: "RequestWrapper \<Rightarrow> RequestWrapper option" where
  "ConvertUpTo26 r =
     (let r1 = moveGDPRFrom25To26 (moveSupplyChainFrom25To26 (moveSupplyChainFrom24To25 r)) in
      Option.bind (moveConsentFrom25To26 r1) (\<lambda>r2.
      Option.bind (moveEIDFrom25To26 (moveUSPrivacyFrom25To26 r2)) (\<lambda>r3.
      Some (change_imps moveRewardedFromPrebidExtTo26 r3))))"

text \<open>The request a wrapper stands for once it is rebuilt, in a new wrapper.\<close>

definition sent :: "RequestWrapper \<Rightarrow> RequestWrapper" where
  "sent r = (RebuildRequest r)\<lparr>rw_userExt := None, rw_impWrappers := None\<rparr>"

section \<open>The conversions part by part\<close>

text \<open>The conversions act on the source, the regs, the user and the impressions each on its own.\<close>

definition down_source :: "Source \<Rightarrow> Source" where
  "down_source s = (case so_SChain s of None \<Rightarrow> s | Some sc \<Rightarrow> s\<lparr>so_SChain := None, so_Ext := map_put ''schain'' (XSChain sc) (so_Ext s)\<rparr>)"

definition down_regs :: "Regs \<Rightarrow> Regs" where
  "down_regs g = g\<lparr>rg_GDPR := None, rg_USPrivacy := [],
     rg_Ext := (if rg_USPrivacy g = [] then id else map_put ''us_privacy'' (XText (rg_USPrivacy g)))
                 (case rg_GDPR g of None \<Rightarrow> rg_Ext g | Some x \<Rightarrow> map_put ''gdpr'' (XNum x) (rg_Ext g))\<rparr>"

definition down_user :: "User \<Rightarrow> User" where
  "down_user u = u\<lparr>us_Consent := [], us_EIDs := [],
     us_Ext := (if us_EIDs u = [] then id else map_put ''eids'' (XEids (us_EIDs u)))
                 ((if us_Consent u = [] then id else map_put ''consent'' (XText (us_Consent u))) (us_Ext u))\<rparr>"

lemma down_regs_steps:
  "moveUSPrivacyFrom26To25 (moveConsentFrom26To25 (moveGDPRFrom26To25 r)) = moveConsentFrom26To25 (r\<lparr>rw_Regs := map_option down_regs (rw_Regs r)\<rparr>)"
proof -
  have consent: "moveConsentFrom26To25 (x\<lparr>rw_Regs := g\<rparr>) = (moveConsentFrom26To25 x)\<lparr>rw_Regs := g\<rparr>" for x g
    by (cases x; cases "rw_User x") (simp_all add: moveConsentFrom26To25_def SetUserExtField_def GetUserExt_def split: option.split)
  have gdpr: "moveGDPRFrom26To25 r = r\<lparr>rw_Regs := map_option (\<lambda>g. g\<lparr>rg_GDPR := None,
      rg_Ext := (case rg_GDPR g of None \<Rightarrow> rg_Ext g | Some x \<Rightarrow> map_put ''gdpr'' (XNum x) (rg_Ext g))\<rparr>) (rw_Regs r)\<rparr>"
    by (cases r) (simp add: moveGDPRFrom26To25_def set_field_def split: option.split)
  have usp: "moveUSPrivacyFrom26To25 x = x\<lparr>rw_Regs := map_option (\<lambda>g. g\<lparr>rg_USPrivacy := [],
      rg_Ext := (if rg_USPrivacy g = [] then id else map_put ''us_privacy'' (XText (rg_USPrivacy g))) (rg_Ext g)\<rparr>) (rw_Regs x)\<rparr>" for x
    by (cases x) (simp add: moveUSPrivacyFrom26To25_def set_field_def consent_value_def split: option.split)
  show ?thesis
    by (cases "rw_Regs r") (simp_all add: gdpr usp consent down_regs_def)
qed

lemma down_user_steps:
  assumes "rw_userExt r = None" "rw_impWrappers r = None"
  shows "sent (change_imps f (moveEIDFrom26To25 (moveConsentFrom26To25 r)))
    = r\<lparr>rw_User := map_option down_user (rw_User r), rw_Imp := map f (rw_Imp r)\<rparr>"
proof (cases "rw_User r")
  case None
  with assms show ?thesis
    by (cases r) (simp add: moveConsentFrom26To25_def moveEIDFrom26To25_def sent_def RebuildRequest_def rebuildUserExt_def rebuildImp_def
        change_imps_def GetImp_def)
next
  case (Some u)
  with assms show ?thesis
    by (cases r; cases "us_Consent u = []"; cases "us_EIDs u = []") (simp_all add: moveConsentFrom26To25_def moveEIDFrom26To25_def sent_def
        RebuildRequest_def rebuildUserExt_def rebuildImp_def change_imps_def GetImp_def SetUserExtField_def GetUserExt_def set_field_def
        consent_value_def eids_value_def down_user_def)
qed

lemma sent_ConvertDown:
  assumes "rw_userExt r = None" "rw_impWrappers r = None"
  shows "sent (ConvertDownTo25 r) = r\<lparr>rw_Source := map_option down_source (rw_Source r), rw_Regs := map_option down_regs (rw_Regs r),
     rw_User := map_option down_user (rw_User r), rw_Imp := map moveRewardedFrom26ToPrebidExt (rw_Imp r)\<rparr>"
proof -
  have source: "moveSupplyChainFrom26To25 x = x\<lparr>rw_Source := map_option down_source (rw_Source x)\<rparr>" for x
    by (cases x) (simp add: moveSupplyChainFrom26To25_def down_source_def set_field_def split: option.split)
  show ?thesis
    using assms by (simp add: ConvertDownTo25_def source down_regs_steps down_user_steps)
qed

definition up_source :: "Source \<Rightarrow> Source" where
  "up_source s = s\<lparr>so_Ext := map_del ''schain'' (so_Ext s),
     so_SChain := (case so_SChain s of None \<Rightarrow> schain_field ''schain'' (so_Ext s) | Some sc \<Rightarrow> Some sc)\<rparr>"

definition up_regs :: "Regs \<Rightarrow> Regs" where
  "up_regs g = g\<lparr>rg_Ext := map_del ''us_privacy'' (map_del ''gdpr'' (rg_Ext g)),
     rg_GDPR := (case rg_GDPR g of None \<Rightarrow> num_field ''gdpr'' (rg_Ext g) | Some x \<Rightarrow> Some x),
     rg_USPrivacy := (case text_field ''us_privacy'' (rg_Ext g) of Some x \<Rightarrow> if rg_USPrivacy g = [] then x else rg_USPrivacy g | None \<Rightarrow> rg_USPrivacy g)\<rparr>"

definition up_user :: "User \<Rightarrow> User" where
  "up_user u = u\<lparr>us_Ext := map_del ''eids'' (map_del ''consent'' (us_Ext u)),
     us_Consent := (case text_field ''consent'' (us_Ext u) of Some c \<Rightarrow> if us_Consent u = [] then c else us_Consent u | None \<Rightarrow> us_Consent u),
     us_EIDs := (case eids_field ''eids'' (us_Ext u) of Some e \<Rightarrow> if us_EIDs u = [] then e else us_EIDs u | None \<Rightarrow> us_EIDs u)\<rparr>"

lemma field_del [simp]:
  "k \<noteq> k' \<Longrightarrow> text_field k (map_del k' e) = text_field k e"
  "k \<noteq> k' \<Longrightarrow> eids_field k (map_del k' e) = eids_field k e"
  by (simp_all add: text_field_def eids_field_def)

lemma up_user_steps:
  assumes "rw_userExt r = None" "rw_impWrappers r = None" "rw_User r = Some u"
  shows "map_option sent (Option.bind (moveConsentFrom25To26 r) (\<lambda>r2.
      Option.bind (moveEIDFrom25To26 (r2\<lparr>rw_Regs := g\<rparr>)) (\<lambda>r3. Some (change_imps f r3))))
    = Some (r\<lparr>rw_Regs := g, rw_User := Some (up_user u), rw_Imp := map f (rw_Imp r)\<rparr>)"
proof -
  have "moveConsentFrom25To26 r = Some (r\<lparr>rw_userExt := Some (map_del ''consent'' (us_Ext u), True),
      rw_User := Some (u\<lparr>us_Consent := us_Consent (up_user u)\<rparr>)\<rparr>)"
    using assms by (cases r; cases "text_field ''consent'' (us_Ext u)")
      (simp_all add: moveConsentFrom25To26_def Let_def SetUserExtField_def GetUserExt_def set_field_def up_user_def)
  moreover have "moveEIDFrom25To26 (r\<lparr>rw_userExt := Some (map_del ''consent'' (us_Ext u), True),
      rw_User := Some (u\<lparr>us_Consent := c\<rparr>), rw_Regs := g\<rparr>)
    = Some (r\<lparr>rw_userExt := Some (us_Ext (up_user u), True), rw_User := Some (u\<lparr>us_Consent := c, us_EIDs := us_EIDs (up_user u)\<rparr>), rw_Regs := g\<rparr>)" for c
    using assms by (cases r; cases "eids_field ''eids'' (us_Ext u)")
      (simp_all add: moveEIDFrom25To26_def Let_def SetUserExtField_def GetUserExt_def set_field_def up_user_def)
  ultimately show ?thesis
    using assms by (cases r) (simp add: sent_def RebuildRequest_def rebuildUserExt_def rebuildImp_def change_imps_def GetImp_def up_user_def)
qed

lemma up_no_user:
  assumes "rw_userExt r = None" "rw_impWrappers r = None" "rw_User r = None"
  shows "map_option sent (Option.bind (moveConsentFrom25To26 r) (\<lambda>r2.
      Option.bind (moveEIDFrom25To26 (r2\<lparr>rw_Regs := g\<rparr>)) (\<lambda>r3. Some (change_imps f r3))))
    = Some (r\<lparr>rw_Regs := g, rw_User := None, rw_Imp := map f (rw_Imp r)\<rparr>)"
  using assms by (cases r) (simp add: moveConsentFrom25To26_def moveEIDFrom25To26_def Let_def SetUserExtField_def GetUserExt_def set_field_def
      text_field_def eids_field_def sent_def RebuildRequest_def rebuildUserExt_def rebuildImp_def change_imps_def GetImp_def)

lemma sent_ConvertUp:
  assumes "rw_userExt r = None" "rw_impWrappers r = None" "rw_ExtSChain r = None"
  shows "map_option sent (ConvertUpTo26 r) = Some (r\<lparr>rw_Source := map_option up_source (rw_Source r), rw_Regs := map_option up_regs (rw_Regs r),
     rw_User := map_option up_user (rw_User r), rw_Imp := map moveRewardedFromPrebidExtTo26 (rw_Imp r)\<rparr>)"
proof -
  define x where "x = moveGDPRFrom25To26 (moveSupplyChainFrom25To26 (moveSupplyChainFrom24To25 r))"
  have "\<exists>G. x = r\<lparr>rw_Source := map_option up_source (rw_Source r), rw_Regs := G\<rparr>"
    using assms(3) by (cases r) (auto simp: x_def moveGDPRFrom25To26_def moveSupplyChainFrom25To26_def moveSupplyChainFrom24To25_def up_source_def
        set_field_def schain_field_def Let_def split: option.splits)
  then obtain G where x: "x = r\<lparr>rw_Source := map_option up_source (rw_Source r), rw_Regs := G\<rparr>" by blast
  have "moveUSPrivacyFrom25To26 r2 = r2\<lparr>rw_Regs := map_option up_regs (rw_Regs r)\<rparr>" if "moveConsentFrom25To26 x = Some r2" for r2
  proof -
    have "rw_Regs r2 = rw_Regs x"
      using that by (auto simp: moveConsentFrom25To26_def SetUserExtField_def Let_def split: option.splits if_splits)
    moreover have "rw_Regs x = rw_Regs (moveGDPRFrom25To26 r)"
      by (simp add: x_def moveGDPRFrom25To26_def moveSupplyChainFrom25To26_def moveSupplyChainFrom24To25_def Let_def split: option.split)
    ultimately show ?thesis
      by (cases "rw_Regs r") (simp_all add: moveUSPrivacyFrom25To26_def moveGDPRFrom25To26_def up_regs_def set_field_def text_field_def
          split: option.split)
  qed
  then have "ConvertUpTo26 r = Option.bind (moveConsentFrom25To26 x) (\<lambda>r2.
      Option.bind (moveEIDFrom25To26 (r2\<lparr>rw_Regs := map_option up_regs (rw_Regs r)\<rparr>)) (\<lambda>r3. Some (change_imps moveRewardedFromPrebidExtTo26 r3)))"
    by (simp add: ConvertUpTo26_def x_def Let_def cong: Option.bind_cong)
  moreover have "rw_userExt x = None" "rw_impWrappers x = None" "rw_User x = rw_User r" "rw_Imp x = rw_Imp r"
    using assms by (simp_all add: x)
  ultimately show ?thesis
    using up_no_user [of x] up_user_steps [of x] by (cases "rw_User r") (simp_all, simp_all add: x)
qed

section \<open>The round trip\<close>

definition rewarded_free :: "ReqImp \<Rightarrow> bool" where
  "rewarded_free i \<longleftrightarrow> (case map_of (ri_Ext i) ''prebid'' of None \<Rightarrow> True | Some (XPrebid rewarded others) \<Rightarrow> rewarded = None \<and> others \<noteq> [] | _ \<Rightarrow> False)
     \<and> wf_map (ri_Ext i)"

text \<open>A request of version 2.6, as the endpoints make it: no field stands at its 2.5 location and the caches are empty.\<close>

definition request26 :: "RequestWrapper \<Rightarrow> bool" where
  "request26 r \<longleftrightarrow> rw_userExt r = None \<and> rw_impWrappers r = None \<and> rw_ExtSChain r = None
     \<and> pred_option (\<lambda>s. \<not> map_has (so_Ext s) ''schain'') (rw_Source r)
     \<and> pred_option (\<lambda>g. \<not> map_has (rg_Ext g) ''gdpr'' \<and> \<not> map_has (rg_Ext g) ''us_privacy'') (rw_Regs r)
     \<and> pred_option (\<lambda>u. \<not> map_has (us_Ext u) ''consent'' \<and> \<not> map_has (us_Ext u) ''eids'') (rw_User r)
     \<and> list_all rewarded_free (rw_Imp r)"

lemma put_absent: "map_of e k = None \<Longrightarrow> map_put k v e = e @ [(k, v)]"
  by (induction e) auto

lemma del_put_same: "map_of e k = None \<Longrightarrow> map_del k (map_put k v e) = e"
  using map_del_absent [of e k] by (simp add: put_absent AList.delete_eq)

lemma del_put_other: "k \<noteq> k' \<Longrightarrow> map_of e k' = None \<Longrightarrow> map_del k (map_put k' v e) = map_put k' v (map_del k e)"
  by (simp add: put_absent AList.delete_eq map_of_eq_None_iff image_iff put_absent [unfolded map_of_eq_None_iff])

lemmas absent_fields = del_put_same del_put_other map_del_absent text_field_def num_field_def eids_field_def schain_field_def

lemma up_down_source: "map_of (so_Ext s) ''schain'' = None \<Longrightarrow> up_source (down_source s) = s"
  by (cases s) (simp add: up_source_def down_source_def absent_fields split: option.split)

lemma up_down_regs: "map_of (rg_Ext g) ''gdpr'' = None \<Longrightarrow> map_of (rg_Ext g) ''us_privacy'' = None \<Longrightarrow> up_regs (down_regs g) = g"
  by (cases g) (auto simp: up_regs_def down_regs_def absent_fields split: option.split)

lemma up_down_user: "map_of (us_Ext u) ''consent'' = None \<Longrightarrow> map_of (us_Ext u) ''eids'' = None \<Longrightarrow> up_user (down_user u) = u"
  by (cases u) (auto simp: up_user_def down_user_def absent_fields)

lemma put_put_same: "map_put k v (map_put k w e) = map_put k v e"
  by (induction e) auto

lemma put_present: "map_of e k = Some v \<Longrightarrow> map_put k v e = e"
  by (induction e) auto

lemma up_down_imp: "rewarded_free i \<Longrightarrow> moveRewardedFromPrebidExtTo26 (moveRewardedFrom26ToPrebidExt i) = i"
  by (cases i) (auto simp: moveRewardedFromPrebidExtTo26_def moveRewardedFrom26ToPrebidExt_def rewarded_free_def imp_prebid_def prebid_value_def
      set_field_def del_put_same put_put_same put_present split: option.splits ext_value.splits)

text \<open>
  C15. Round trip. A version 2.6 request converted down to 2.5 for a bidder, sent, and converted up again is the same request.
\<close>
theorem convert_roundtrip:
  assumes "request26 r"
  shows "map_option sent (ConvertUpTo26 (sent (ConvertDownTo25 r))) = Some r"
proof -
  define d where "d = sent (ConvertDownTo25 r)"
  have d: "d = r\<lparr>rw_Source := map_option down_source (rw_Source r), rw_Regs := map_option down_regs (rw_Regs r),
     rw_User := map_option down_user (rw_User r), rw_Imp := map moveRewardedFrom26ToPrebidExt (rw_Imp r)\<rparr>"
    unfolding d_def using assms by (intro sent_ConvertDown) (simp_all add: request26_def)
  have "map_option up_source (rw_Source d) = rw_Source r" "map_option up_regs (rw_Regs d) = rw_Regs r" "map_option up_user (rw_User d) = rw_User r"
    using assms by (auto simp: d request26_def option.map_comp comp_def up_down_source up_down_regs up_down_user intro: option.map_ident_strong
        simp del: not_None_eq)
  moreover have "map moveRewardedFromPrebidExtTo26 (rw_Imp d) = rw_Imp r"
    using assms by (auto simp: d request26_def list_all_iff up_down_imp intro: map_idI)
  ultimately show ?thesis
    using assms sent_ConvertUp [of d] unfolding d_def [symmetric] by (simp add: d request26_def)
qed

definition sample_26 :: RequestWrapper where
  "sample_26 = \<lparr>rw_Device = None, rw_User = Some (empty_User\<lparr>us_Consent := ''C'', us_EIDs := [\<lparr>eid_Source = ''s'', eid_UIDs = [''u'']\<rparr>]\<rparr>),
     rw_Regs = Some \<lparr>rg_USPrivacy = ''1YNN'', rg_GPPSID = None, rg_GDPR = Some 1, rg_COPPA = 0, rg_Ext = []\<rparr>,
     rw_Source = Some (empty_Source\<lparr>so_SChain := Some \<lparr>sc_Ver = ''1.0'', sc_Complete = 1, sc_Nodes = []\<rparr>\<rparr>),
     rw_Imp = [\<lparr>ri_ID = ''1'', ri_BidFloor = 0, ri_Rwdd = 1, ri_Ext = [(''bidder'', XRaw ''{}'')]\<rparr>],
     rw_Site = None, rw_App = None, rw_ExtSChain = None, rw_userExt = None, rw_impWrappers = None\<rparr>"

theorem convert_roundtrip_witness:
  "request26 sample_26 \<and> sent (ConvertDownTo25 sample_26) \<noteq> sample_26
     \<and> map_option sent (ConvertUpTo26 (sent (ConvertDownTo25 sample_26))) = Some sample_26"
proof -
  have "request26 sample_26"
    by (simp add: request26_def sample_26_def empty_User_def empty_Source_def rewarded_free_def wf_map_def)
  moreover have "sent (ConvertDownTo25 sample_26) \<noteq> sample_26"
    by (subst sent_ConvertDown) (simp_all add: sample_26_def empty_User_def down_user_def)
  ultimately show ?thesis using convert_roundtrip [of sample_26] by simp
qed

end
