(* ===== verification/PrivacyScrub.thy ===== *)
theory PrivacyScrub
  imports Gdpr Requests
begin

unbundle bit_operations_syntax

text \<open>
  Package \<^verbatim>\<open>privacy\<close> and the privacy steps of the request splitter of \<^verbatim>\<open>exchange/utils.go\<close>: activity controls, CCPA and LMT
  policies, and the scrubbing of the request a bidder gets. Extensions are decoded JSON objects, from keys to raw values;
  an IP field is empty or a text, given by the address \<^verbatim>\<open>net.ParseIP\<close> reads in it. Requests are values: the copies the code
  makes before it changes a request have no counterpart. Fields no operation reads or changes are left out.
\<close>

section \<open>Activities\<close>

datatype ActivityResult = ActivityAbstain | ActivityAllow | ActivityDeny

datatype Activity = ActivitySyncUser | ActivityFetchBids | ActivityEnrichUserFPD | ActivityReportAnalytics | ActivityTransmitUserFPD
  | ActivityTransmitPreciseGeo | ActivityTransmitUniqueRequestIDs | ActivityTransmitTIDs

record Component =
  cp_Type :: string
  cp_Name :: string

definition MatchesName :: "Component \<Rightarrow> string \<Rightarrow> bool" where
  "MatchesName c v = EqualFold (cp_Name c) v"

definition MatchesType :: "Component \<Rightarrow> string \<Rightarrow> bool" where
  "MatchesType c v = EqualFold (cp_Type c) v"

text \<open>A request by its policies (the GPP section IDs) or by its bid request (the section IDs of its regs, \<open>None\<close>: no regs).\<close>

record ActivityRequest =
  ar_policies :: "int list option"
  ar_bidRequest :: "int list option option"

definition getGPPSID :: "ActivityRequest \<Rightarrow> int list" where
  "getGPPSID r =
     (case ar_policies r of Some sids \<Rightarrow> sids
      | None \<Rightarrow> (case ar_bidRequest r of Some (Some sids) \<Rightarrow> sids | _ \<Rightarrow> []))"

record ConditionRule =
  cr_result :: ActivityResult
  cr_componentName :: "string list"
  cr_componentType :: "string list"
  cr_gppSID :: "int list"

definition evaluateComponentName :: "Component \<Rightarrow> string list \<Rightarrow> bool" where
  "evaluateComponentName target names \<longleftrightarrow> (if names = [] then True else list_ex (MatchesName target) names)"

definition evaluateComponentType :: "Component \<Rightarrow> string list \<Rightarrow> bool" where
  "evaluateComponentType target types \<longleftrightarrow> (if types = [] then True else list_ex (MatchesType target) types)"

definition evaluateGPPSID :: "int list \<Rightarrow> ActivityRequest \<Rightarrow> bool" where
  "evaluateGPPSID sid request \<longleftrightarrow> (if sid = [] then True else list_ex (\<lambda>x. x \<in> set sid) (getGPPSID request))"

definition Rule_Evaluate :: "ConditionRule \<Rightarrow> Component \<Rightarrow> ActivityRequest \<Rightarrow> ActivityResult" where
  "Rule_Evaluate r target request =
     (if \<not> evaluateComponentName target (cr_componentName r) then ActivityAbstain
      else if \<not> evaluateComponentType target (cr_componentType r) then ActivityAbstain
      else if \<not> evaluateGPPSID (cr_gppSID r) request then ActivityAbstain
      else cr_result r)"

record ActivityPlan =
  pl_defaultResult :: bool
  pl_rules :: "ConditionRule list"

fun evaluate_rules :: "ConditionRule list \<Rightarrow> bool \<Rightarrow> Component \<Rightarrow> ActivityRequest \<Rightarrow> bool" where
  "evaluate_rules [] d target request = d"
| "evaluate_rules (r # rs) d target request =
     (let result = Rule_Evaluate r target request in
      if result = ActivityDeny \<or> result = ActivityAllow then result = ActivityAllow else evaluate_rules rs d target request)"

definition Plan_Evaluate :: "ActivityPlan \<Rightarrow> Component \<Rightarrow> ActivityRequest \<Rightarrow> bool" where
  "Plan_Evaluate p target request = evaluate_rules (pl_rules p) (pl_defaultResult p) target request"

record ActivityControl =
  ac_plans :: "(Activity, ActivityPlan) gomap"
  ac_IPv6Config :: int
  ac_IPv4Config :: int

definition Allow :: "ActivityControl \<Rightarrow> Activity \<Rightarrow> Component \<Rightarrow> ActivityRequest \<Rightarrow> bool" where
  "Allow e activity target request =
     (case map_of (ac_plans e) activity of None \<Rightarrow> True | Some plan \<Rightarrow> Plan_Evaluate plan target request)"

record ActivityRule =
  ru_Allow :: bool
  ru_ComponentName :: "string list"
  ru_ComponentType :: "string list"

record activity_config =
  acf_Default :: "bool option"
  acf_Rules :: "ActivityRule list"

record AccountPrivacy =
  apr_AllowActivities :: "(Activity \<Rightarrow> activity_config) option"
  apr_IPv6 :: int
  apr_IPv4 :: int

definition cfgToRules :: "ActivityRule list \<Rightarrow> ConditionRule list" where
  "cfgToRules rules = map (\<lambda>r. \<lparr>cr_result = (if ru_Allow r then ActivityAllow else ActivityDeny), cr_componentName = ru_ComponentName r,
     cr_componentType = ru_ComponentType r, cr_gppSID = []\<rparr>) rules"

definition cfgToDefaultResult :: "bool option \<Rightarrow> bool" where
  "cfgToDefaultResult d = (case d of None \<Rightarrow> True | Some b \<Rightarrow> b)"

definition buildPlan :: "activity_config \<Rightarrow> ActivityPlan" where
  "buildPlan a = \<lparr>pl_defaultResult = cfgToDefaultResult (acf_Default a), pl_rules = cfgToRules (acf_Rules a)\<rparr>"

definition NewActivityControl :: "AccountPrivacy option \<Rightarrow> ActivityControl" where
  "NewActivityControl cfg =
     (case cfg of None \<Rightarrow> \<lparr>ac_plans = [], ac_IPv6Config = 0, ac_IPv4Config = 0\<rparr>
      | Some c \<Rightarrow>
          (case apr_AllowActivities c of None \<Rightarrow> \<lparr>ac_plans = [], ac_IPv6Config = 0, ac_IPv4Config = 0\<rparr>
           | Some acts \<Rightarrow>
               \<lparr>ac_plans = map (\<lambda>a. (a, buildPlan (acts a)))
                  [ActivitySyncUser, ActivityFetchBids, ActivityEnrichUserFPD, ActivityReportAnalytics, ActivityTransmitUserFPD,
                   ActivityTransmitPreciseGeo, ActivityTransmitUniqueRequestIDs, ActivityTransmitTIDs],
                ac_IPv6Config = apr_IPv6 c, ac_IPv4Config = apr_IPv4 c\<rparr>))"

section \<open>CCPA and LMT policies\<close>

datatype ccpa_error = MustContain4 | MustBeVersion1 | BadExplicitNotice | BadOptOutSale | BadLSPA | AllBiddersNotAlone | UnrecognizedBidder string

definition ccpa_flag :: "char \<Rightarrow> bool" where
  "ccpa_flag c \<longleftrightarrow> c = CHR ''N'' \<or> c = CHR ''Y'' \<or> c = CHR ''-''"

definition ccpa_parseConsent :: "string \<Rightarrow> ccpa_error + bool" where
  "ccpa_parseConsent consent =
     (if consent = [] then Inr False
      else if length consent \<noteq> 4 then Inl MustContain4
      else if consent ! 0 \<noteq> CHR ''1'' then Inl MustBeVersion1
      else if \<not> ccpa_flag (consent ! 1) then Inl BadExplicitNotice
      else if \<not> ccpa_flag (consent ! 2) then Inl BadOptOutSale
      else if \<not> ccpa_flag (consent ! 3) then Inl BadLSPA
      else Inr (consent ! 2 = CHR ''Y''))"

definition ValidateConsent :: "string \<Rightarrow> bool" where
  "ValidateConsent consent \<longleftrightarrow> (case ccpa_parseConsent consent of Inr _ \<Rightarrow> True | Inl _ \<Rightarrow> False)"

record ParsedPolicy =
  pp_consentSpecified :: bool
  pp_consentOptOutSale :: bool
  pp_noSaleForAllBidders :: bool
  pp_noSaleSpecificBidders :: "string list"

fun noSale_loop :: "string list \<Rightarrow> string list \<Rightarrow> string list \<Rightarrow> ccpa_error + string list" where
  "noSale_loop [] valid acc = Inr acc"
| "noSale_loop (b # bs) valid acc =
     (if b = ''*'' then Inl AllBiddersNotAlone
      else if b \<in> set valid then noSale_loop bs valid (b # acc)
      else Inl (UnrecognizedBidder b))"

definition parseNoSaleBidders :: "string list \<Rightarrow> string list \<Rightarrow> ccpa_error + (bool \<times> string list)" where
  "parseNoSaleBidders noSaleBidders validBidders =
     (if noSaleBidders = [''*''] then Inr (True, [])
      else case noSale_loop noSaleBidders validBidders [] of Inl e \<Rightarrow> Inl e | Inr bs \<Rightarrow> Inr (False, bs))"

definition Policy_Parse :: "string \<Rightarrow> string list \<Rightarrow> string list \<Rightarrow> ccpa_error + ParsedPolicy" where
  "Policy_Parse consent noSaleBidders validBidders =
     (case ccpa_parseConsent consent of Inl e \<Rightarrow> Inl e
      | Inr optOut \<Rightarrow>
          (case parseNoSaleBidders noSaleBidders validBidders of Inl e \<Rightarrow> Inl e
           | Inr (all, bs) \<Rightarrow> Inr \<lparr>pp_consentSpecified = (consent \<noteq> []), pp_consentOptOutSale = optOut, pp_noSaleForAllBidders = all,
                                  pp_noSaleSpecificBidders = bs\<rparr>))"

definition isNoSaleForBidder :: "ParsedPolicy \<Rightarrow> string \<Rightarrow> bool" where
  "isNoSaleForBidder p bidder \<longleftrightarrow> (if pp_noSaleForAllBidders p then True else bidder \<in> set (pp_noSaleSpecificBidders p))"

definition SectionUSPV1 :: int where "SectionUSPV1 = 6"

text \<open>The second component tells that the two consents differ.\<close>

definition SelectCCPAConsent :: "string \<Rightarrow> GppContainer \<Rightarrow> int list \<Rightarrow> string \<times> bool" where
  "SelectCCPAConsent requestUSPrivacy gpp gppSIDs =
     (let consent = (if gpp_SectionTypes gpp \<noteq> [] \<and> IsSIDInList gppSIDs SectionUSPV1
                     then (case IndexOfSID gpp SectionUSPV1 of Some i \<Rightarrow> gpp_Sections gpp ! i | None \<Rightarrow> []) else []) in
      if requestUSPrivacy \<noteq> [] then
        (if consent = [] then (requestUSPrivacy, False) else (consent, consent \<noteq> requestUSPrivacy))
      else (consent, False))"

record lmt_policy =
  lmt_Signal :: int
  lmt_SignalProvided :: bool

datatype PolicyEnforcer = NilPolicyEnforcer | CCPAEnforcer bool ParsedPolicy | LMTEnforcer bool lmt_policy

text \<open>The enabled enforcers carry their flag, as the decorator \<^verbatim>\<open>EnabledPolicyEnforcer\<close> does.\<close>

fun CanEnforce :: "PolicyEnforcer \<Rightarrow> bool" where
  "CanEnforce NilPolicyEnforcer \<longleftrightarrow> False"
| "CanEnforce (CCPAEnforcer enabled p) \<longleftrightarrow> pp_consentSpecified p"
| "CanEnforce (LMTEnforcer enabled p) \<longleftrightarrow> lmt_SignalProvided p"

fun ShouldEnforce :: "PolicyEnforcer \<Rightarrow> string \<Rightarrow> bool" where
  "ShouldEnforce NilPolicyEnforcer bidder \<longleftrightarrow> False"
| "ShouldEnforce (CCPAEnforcer enabled p) bidder \<longleftrightarrow> (if enabled then \<not> isNoSaleForBidder p bidder \<and> pp_consentOptOutSale p else False)"
| "ShouldEnforce (LMTEnforcer enabled p) bidder \<longleftrightarrow> (if enabled then lmt_SignalProvided p \<and> lmt_Signal p = 1 else False)"

section \<open>Policies of a request\<close>

definition Policy_Read :: "RequestWrapper \<Rightarrow> lmt_policy" where
  "Policy_Read r =
     (case rw_Device r of
        Some d \<Rightarrow> (case dv_Lmt d of Some i \<Rightarrow> \<lparr>lmt_Signal = i, lmt_SignalProvided = True\<rparr> | None \<Rightarrow> \<lparr>lmt_Signal = 0, lmt_SignalProvided = False\<rparr>)
      | None \<Rightarrow> \<lparr>lmt_Signal = 0, lmt_SignalProvided = False\<rparr>)"

definition extractLMT :: "bool \<Rightarrow> RequestWrapper \<Rightarrow> PolicyEnforcer" where
  "extractLMT enforce r = LMTEnforcer enforce (Policy_Read r)"

text \<open>\<open>reqNoSale\<close> is the decoded \<^verbatim>\<open>request.ext.prebid.nosale\<close>, \<open>None\<close> if the extension does not decode.\<close>

datatype extract_error = MismatchedConsent | BadRequestExt | ParseError ccpa_error

definition ccpaEnabled :: "bool option \<Rightarrow> AccountChannel \<Rightarrow> bool \<Rightarrow> ChannelType \<Rightarrow> bool" where
  "ccpaEnabled accountEnabled accountChannels hostEnforce requestType =
     (case EnabledForChannelType accountEnabled accountChannels requestType of Some b \<Rightarrow> b | None \<Rightarrow> hostEnforce)"

text \<open>\<^verbatim>\<open>ReadFromRequestWrapper\<close>: the policy (consent and no-sale bidders) and the error or warning that goes with it.\<close>

definition ReadFromRequestWrapper :: "RequestWrapper \<Rightarrow> string list option \<Rightarrow> GppContainer \<Rightarrow> (string \<times> string list) \<times> extract_error option" where
  "ReadFromRequestWrapper r reqNoSale gpp =
     (let usp = (case rw_Regs r of Some g \<Rightarrow> rg_USPrivacy g | None \<Rightarrow> []);
          sids = (case rw_Regs r of Some g \<Rightarrow> (case rg_GPPSID g of Some s \<Rightarrow> s | None \<Rightarrow> []) | None \<Rightarrow> []);
          (consent0, mismatch) = SelectCCPAConsent usp gpp sids;
          consent = (if consent0 = [] then usp else consent0) in
      case reqNoSale of
        None \<Rightarrow> (([], []), Some BadRequestExt)
      | Some noSale \<Rightarrow> ((consent, noSale), if mismatch then Some MismatchedConsent else None))"

definition extractCCPA :: "RequestWrapper \<Rightarrow> string list option \<Rightarrow> GppContainer \<Rightarrow> string list \<Rightarrow> bool \<Rightarrow> PolicyEnforcer \<times> extract_error option" where
  "extractCCPA r reqNoSale gpp validBidders enabled =
     (let ((consent, noSale), err) = ReadFromRequestWrapper r reqNoSale gpp in
      case err of
        Some e \<Rightarrow> (NilPolicyEnforcer, Some e)
      | None \<Rightarrow>
          (case Policy_Parse consent noSale validBidders of
             Inl e \<Rightarrow> (NilPolicyEnforcer, Some (ParseError e))
           | Inr p \<Rightarrow> (CCPAEnforcer enabled p, None)))"

section \<open>Scrubbing\<close>

definition scrubDeviceIDs :: "RequestWrapper \<Rightarrow> RequestWrapper" where
  "scrubDeviceIDs r = r\<lparr>rw_Device := map_option (\<lambda>d. d\<lparr>dv_DIDMD5 := [], dv_DIDSHA1 := [], dv_DPIDMD5 := [], dv_DPIDSHA1 := [], dv_IFA := [],
     dv_MACMD5 := [], dv_MACSHA1 := []\<rparr>) (rw_Device r)\<rparr>"

definition scrubUserIDs :: "RequestWrapper \<Rightarrow> RequestWrapper" where
  "scrubUserIDs r = r\<lparr>rw_User := map_option (\<lambda>u. u\<lparr>us_Data := [], us_ID := [], us_BuyerUID := [], us_Yob := 0, us_Gender := [],
     us_Keywords := [], us_KwArray := []\<rparr>) (rw_User r)\<rparr>"

definition scrubUserDemographics :: "RequestWrapper \<Rightarrow> RequestWrapper" where
  "scrubUserDemographics r = r\<lparr>rw_User := map_option (\<lambda>u. u\<lparr>us_BuyerUID := [], us_ID := [], us_Yob := 0, us_Gender := []\<rparr>) (rw_User r)\<rparr>"

text \<open>The field is removed from the cached extension, which is then dirty; \<^verbatim>\<open>RebuildRequest\<close> writes it to the user.\<close>

definition scrubUserExt :: "string \<Rightarrow> RequestWrapper \<Rightarrow> RequestWrapper" where
  "scrubUserExt fieldName r =
     (if rw_User r = None then r
      else let (e, dirty) = GetUserExt r in
        r\<lparr>rw_userExt := Some (if map_has e fieldName then (map_del fieldName e, True) else (e, dirty))\<rparr>)"

definition ScrubEIDs :: "RequestWrapper \<Rightarrow> RequestWrapper" where
  "ScrubEIDs r = scrubUserExt ''eids'' (r\<lparr>rw_User := map_option (\<lambda>u. u\<lparr>us_EIDs := []\<rparr>) (rw_User r)\<rparr>)"

definition scrubExtIDs :: "ext \<Rightarrow> string \<Rightarrow> ext" where
  "scrubExtIDs e fieldName = (if map_has e fieldName then map_del fieldName e else e)"

definition ScrubTID :: "RequestWrapper \<Rightarrow> RequestWrapper" where
  "ScrubTID r =
     SetImp (map (\<lambda>imp. imp\<lparr>ri_Ext := scrubExtIDs (ri_Ext imp) ''tid''\<rparr>) (GetImp r))
       (r\<lparr>rw_Source := map_option (\<lambda>s. s\<lparr>so_TID := []\<rparr>) (rw_Source r)\<rparr>)"

text \<open>\<^verbatim>\<open>int\<close> of a float truncates; out of the range of 64 bits the result is the smallest integer, as on amd64.\<close>

definition int_of_float :: "float64 \<Rightarrow> int" where
  "int_of_float x =
     (case x of Fin q \<Rightarrow> (let t = (if q \<ge> 0 then \<lfloor>q\<rfloor> else \<lceil>q\<rceil>) in if - (2 ^ 63) \<le> t \<and> t < 2 ^ 63 then t else - (2 ^ 63)) | _ \<Rightarrow> - (2 ^ 63))"

definition round_coordinate :: "float64 \<Rightarrow> float64" where
  "round_coordinate x = Fin (of_int (int_of_float (x * Fin 100 + Fin (1 / 2)))) / Fin 100"

definition scrubGeoPrecision :: "Geo \<Rightarrow> Geo" where
  "scrubGeoPrecision g = g\<lparr>geo_Lat := map_option round_coordinate (geo_Lat g), geo_Lon := map_option round_coordinate (geo_Lon g)\<rparr>"

definition scrubGEO :: "RequestWrapper \<Rightarrow> RequestWrapper" where
  "scrubGEO r = r\<lparr>rw_User := map_option (\<lambda>u. u\<lparr>us_Geo := map_option scrubGeoPrecision (us_Geo u)\<rparr>) (rw_User r),
     rw_Device := map_option (\<lambda>d. d\<lparr>dv_Geo := map_option scrubGeoPrecision (dv_Geo d)\<rparr>) (rw_Device r)\<rparr>"

definition empty_Geo :: Geo where "empty_Geo = \<lparr>geo_Lat = None, geo_Lon = None, geo_Other = []\<rparr>"

definition scrubGeoFull :: "RequestWrapper \<Rightarrow> RequestWrapper" where
  "scrubGeoFull r = r\<lparr>rw_User := map_option (\<lambda>u. u\<lparr>us_Geo := map_option (\<lambda>_. empty_Geo) (us_Geo u)\<rparr>) (rw_User r),
     rw_Device := map_option (\<lambda>d. d\<lparr>dv_Geo := map_option (\<lambda>_. empty_Geo) (dv_Geo d)\<rparr>) (rw_Device r)\<rparr>"

text \<open>
  \<^verbatim>\<open>net.CIDRMask\<close> and \<^verbatim>\<open>IP.Mask\<close> on the 16-byte form of an address. A 4-byte mask fits an IPv4 address, which has the prefix
  \<^verbatim>\<open>::ffff\<close>, and no other; a mask that does not exist or does not fit gives the nil address, whose text is no address.
\<close>

definition CIDRMask32 :: "int \<Rightarrow> 128 word option" where
  "CIDRMask32 ones = (if 0 \<le> ones \<and> ones \<le> 32 then Some (push_bit (32 - nat ones) (mask (nat ones))) else None)"

definition CIDRMask128 :: "int \<Rightarrow> 128 word option" where
  "CIDRMask128 ones = (if 0 \<le> ones \<and> ones \<le> 128 then Some (push_bit (128 - nat ones) (mask (nat ones))) else None)"

definition v4_prefix :: "128 word" where "v4_prefix = push_bit 32 0xFFFF"

definition is_v4 :: "128 word \<Rightarrow> bool" where
  "is_v4 a \<longleftrightarrow> a AND NOT (mask 32) = v4_prefix"

definition scrubIP4 :: "int \<Rightarrow> ip_field \<Rightarrow> ip_field" where
  "scrubIP4 ones ip =
     (case ip of IP_empty \<Rightarrow> IP_empty
      | IP_text a \<Rightarrow> IP_text (case (a, CIDRMask32 ones) of (Some a, Some m) \<Rightarrow> if is_v4 a then Some (v4_prefix OR (a AND m)) else None | _ \<Rightarrow> None))"

definition scrubIP6 :: "int \<Rightarrow> ip_field \<Rightarrow> ip_field" where
  "scrubIP6 ones ip =
     (case ip of IP_empty \<Rightarrow> IP_empty
      | IP_text a \<Rightarrow> IP_text (case (a, CIDRMask128 ones) of (Some a, Some m) \<Rightarrow> Some (a AND m) | _ \<Rightarrow> None))"

record IPConf =
  ipc_IPV6 :: int
  ipc_IPV4 :: int

definition scrubDeviceIP :: "IPConf \<Rightarrow> RequestWrapper \<Rightarrow> RequestWrapper" where
  "scrubDeviceIP conf r = r\<lparr>rw_Device := map_option (\<lambda>d. d\<lparr>dv_IP := scrubIP4 (ipc_IPV4 conf) (dv_IP d), dv_IPv6 := scrubIP6 (ipc_IPV6 conf) (dv_IPv6 d)\<rparr>) (rw_Device r)\<rparr>"

definition ScrubDeviceIDsIPsUserDemoExt :: "IPConf \<Rightarrow> string \<Rightarrow> bool \<Rightarrow> RequestWrapper \<Rightarrow> RequestWrapper" where
  "ScrubDeviceIDsIPsUserDemoExt conf fieldName scrubFullGeo r =
     (let r = scrubUserExt fieldName (scrubUserDemographics (scrubDeviceIP conf (scrubDeviceIDs r))) in
      if scrubFullGeo then scrubGeoFull r else scrubGEO r)"

text \<open>\<open>None\<close>: the last assignment dereferences a nil user, which panics.\<close>

definition ScrubUserFPD :: "RequestWrapper \<Rightarrow> RequestWrapper option" where
  "ScrubUserFPD r =
     (let r = scrubUserExt ''data'' (scrubUserIDs (scrubDeviceIDs r)) in
      case rw_User r of None \<Rightarrow> None | Some u \<Rightarrow> Some (r\<lparr>rw_User := Some (u\<lparr>us_EIDs := []\<rparr>)\<rparr>))"

definition ScrubGdprID :: "RequestWrapper \<Rightarrow> RequestWrapper" where
  "ScrubGdprID r = scrubUserExt ''eids'' (scrubUserDemographics (scrubDeviceIDs r))"

definition ScrubGeoAndDeviceIP :: "IPConf \<Rightarrow> RequestWrapper \<Rightarrow> RequestWrapper" where
  "ScrubGeoAndDeviceIP conf r = scrubGEO (scrubDeviceIP conf r)"

section \<open>The steps of the request splitter\<close>

definition bidder_scope :: "string \<Rightarrow> Component" where
  "bidder_scope bidder = \<lparr>cp_Type = ''bidder'', cp_Name = bidder\<rparr>"

definition NewRequestFromBidRequest :: "RequestWrapper \<Rightarrow> ActivityRequest" where
  "NewRequestFromBidRequest r = \<lparr>ar_policies = None, ar_bidRequest = Some (case rw_Regs r of None \<Rightarrow> None | Some g \<Rightarrow> Some (case rg_GPPSID g of Some s \<Rightarrow> s | None \<Rightarrow> []))\<rparr>"

definition isBidderBlockedByPrivacy :: "RequestWrapper \<Rightarrow> ActivityControl \<Rightarrow> AuctionPermissions \<Rightarrow> string \<Rightarrow> bool" where
  "isBidderBlockedByPrivacy r activities perms bidder =
     (if \<not> Allow activities ActivityFetchBids (bidder_scope bidder) (NewRequestFromBidRequest r) then True
      else if \<not> AllowBidRequest perms then True else False)"

text \<open>The four steps of \<^verbatim>\<open>applyPrivacy\<close>: identifiers, location, LMT and COPPA, and transaction IDs.\<close>

definition privacy_ids :: "ActivityControl \<Rightarrow> IPConf \<Rightarrow> AuctionPermissions \<Rightarrow> PolicyEnforcer \<Rightarrow> string \<Rightarrow> RequestWrapper \<Rightarrow> RequestWrapper option" where
  "privacy_ids activities conf perms ccpaEnforcer bidder r =
     (if \<not> Allow activities ActivityTransmitUserFPD (bidder_scope bidder) (NewRequestFromBidRequest r) then ScrubUserFPD r
      else
        let r = (if \<not> PassID perms then ScrubGdprID r else r) in
        Some (if ShouldEnforce ccpaEnforcer bidder then ScrubDeviceIDsIPsUserDemoExt conf ''eids'' False r else r))"

definition privacy_geo :: "ActivityControl \<Rightarrow> IPConf \<Rightarrow> AuctionPermissions \<Rightarrow> PolicyEnforcer \<Rightarrow> string \<Rightarrow> RequestWrapper \<Rightarrow> RequestWrapper" where
  "privacy_geo activities conf perms ccpaEnforcer bidder r =
     (if \<not> Allow activities ActivityTransmitPreciseGeo (bidder_scope bidder) (NewRequestFromBidRequest r) then ScrubGeoAndDeviceIP conf r
      else
        let r = (if \<not> PassGeo perms then ScrubGeoAndDeviceIP conf r else r) in
        if ShouldEnforce ccpaEnforcer bidder then ScrubDeviceIDsIPsUserDemoExt conf ''eids'' False r else r)"

definition privacy_flags :: "IPConf \<Rightarrow> bool \<Rightarrow> bool \<Rightarrow> RequestWrapper \<Rightarrow> RequestWrapper" where
  "privacy_flags conf lmt coppa r = (if lmt \<or> coppa then ScrubDeviceIDsIPsUserDemoExt conf ''eids'' coppa r else r)"

definition privacy_tids :: "ActivityControl \<Rightarrow> string \<Rightarrow> RequestWrapper \<Rightarrow> RequestWrapper" where
  "privacy_tids activities bidder r =
     (if \<not> Allow activities ActivityTransmitTIDs (bidder_scope bidder) (NewRequestFromBidRequest r) then ScrubTID r else r)"

definition applyPrivacy :: "ActivityControl \<Rightarrow> IPConf \<Rightarrow> AuctionPermissions \<Rightarrow> PolicyEnforcer \<Rightarrow> bool \<Rightarrow> bool \<Rightarrow> string \<Rightarrow> RequestWrapper \<Rightarrow> RequestWrapper option" where
  "applyPrivacy activities conf perms ccpaEnforcer lmt coppa bidder r =
     Option.bind (privacy_ids activities conf perms ccpaEnforcer bidder r)
       (\<lambda>r. Some (RebuildRequest (privacy_tids activities bidder (privacy_flags conf lmt coppa (privacy_geo activities conf perms ccpaEnforcer bidder r)))))"

definition copyWithBuyerUID :: "User option \<Rightarrow> string \<Rightarrow> User option" where
  "copyWithBuyerUID user buyerUID =
     (case user of
        None \<Rightarrow> Some (empty_User\<lparr>us_BuyerUID := buyerUID\<rparr>)
      | Some u \<Rightarrow> if us_BuyerUID u = [] then Some (u\<lparr>us_BuyerUID := buyerUID\<rparr>) else Some u)"

definition prepareUser :: "string \<Rightarrow> (string, string) gomap \<Rightarrow> string \<times> bool \<Rightarrow> RequestWrapper \<Rightarrow> RequestWrapper \<times> bool" where
  "prepareUser givenBidder explicitBuyerUIDs cookie r =
     (let (cookieId, hadCookie) = cookie in
      (case map_of explicitBuyerUIDs (ToLower givenBidder) of
         Some uid \<Rightarrow> r\<lparr>rw_User := copyWithBuyerUID (rw_User r) uid\<rparr>
       | None \<Rightarrow> if hadCookie then r\<lparr>rw_User := copyWithBuyerUID (rw_User r) cookieId\<rparr> else r,
       hadCookie))"

text \<open>The permissions of an ID source, in the order of the request; a later entry for a source replaces an earlier one.\<close>

definition eid_rules :: "(string \<times> string list) list \<Rightarrow> (string, string list) gomap" where
  "eid_rules perms = fold (\<lambda>(source, bidders) m. map_put source bidders m) perms []"

definition eid_allowed :: "(string, string list) gomap \<Rightarrow> string \<Rightarrow> EID \<Rightarrow> bool" where
  "eid_allowed rules bidder eid =
     (case map_of rules (eid_Source eid) of
        Some rule \<Rightarrow> list_ex (\<lambda>b. b = ''*'' \<or> EqualFold b bidder) rule | None \<Rightarrow> True)"

definition removeUnpermissionedEids :: "(string \<times> string list) list option \<Rightarrow> string \<Rightarrow> RequestWrapper \<Rightarrow> extract_error + RequestWrapper" where
  "removeUnpermissionedEids reqPerms bidder r =
     (case rw_User r of None \<Rightarrow> Inr r
      | Some u \<Rightarrow>
          if us_EIDs u = [] then Inr r
          else (case reqPerms of None \<Rightarrow> Inl BadRequestExt
                | Some perms \<Rightarrow>
                    if perms = [] then Inr r
                    else
                      let eidsAllowed = filter (eid_allowed (eid_rules perms) bidder) (us_EIDs u) in
                      if length (us_EIDs u) = length eidsAllowed then Inr r
                      else Inr (r\<lparr>rw_User := Some (u\<lparr>us_EIDs := eidsAllowed\<rparr>)\<rparr>)))"

section \<open>Activity rules\<close>

text \<open>A configured rule applies to a component when each non-empty list of its condition has the component.\<close>

definition rule_applies :: "ActivityRule \<Rightarrow> Component \<Rightarrow> bool" where
  "rule_applies r c \<longleftrightarrow> (ru_ComponentName r = [] \<or> (\<exists>n\<in>set (ru_ComponentName r). EqualFold (cp_Name c) n))
     \<and> (ru_ComponentType r = [] \<or> (\<exists>t\<in>set (ru_ComponentType r). EqualFold (cp_Type c) t))"

lemma evaluate_cfg_rules:
  "evaluate_rules (cfgToRules rules) d c request = (case List.find (\<lambda>r. rule_applies r c) rules of Some r \<Rightarrow> ru_Allow r | None \<Rightarrow> d)"
  by (induction rules) (auto simp: cfgToRules_def Rule_Evaluate_def evaluateComponentName_def evaluateComponentType_def evaluateGPPSID_def
      MatchesName_def MatchesType_def rule_applies_def list_ex_iff Let_def)

lemma map_of_activities: "map_of (map (\<lambda>x. (x, f x))
     [ActivitySyncUser, ActivityFetchBids, ActivityEnrichUserFPD, ActivityReportAnalytics, ActivityTransmitUserFPD,
      ActivityTransmitPreciseGeo, ActivityTransmitUniqueRequestIDs, ActivityTransmitTIDs]) a = Some (f a)"
  by (cases a) simp_all

text \<open>
  C28. An activity of an account is allowed for a component as the first configured rule that applies to the component says, and
  as the default says (allowed, when there is none) if no rule applies; GPP section IDs in the request never change the result.
\<close>
theorem Allow_first_rule:
  "Allow (NewActivityControl (Some cfg)) activity target request =
     (case apr_AllowActivities cfg of
        None \<Rightarrow> True
      | Some acts \<Rightarrow>
          (case List.find (\<lambda>r. rule_applies r target) (acf_Rules (acts activity)) of
             Some r \<Rightarrow> ru_Allow r
           | None \<Rightarrow> acf_Default (acts activity) \<noteq> Some False))"
  by (auto simp: Allow_def NewActivityControl_def map_of_activities Plan_Evaluate_def buildPlan_def evaluate_cfg_rules cfgToDefaultResult_def
      simp del: list.map split: option.splits)

section \<open>What scrubbing removes\<close>

definition device_ids_gone :: "RequestWrapper \<Rightarrow> bool" where
  "device_ids_gone r \<longleftrightarrow> pred_option (\<lambda>d. dv_IFA d = [] \<and> dv_DIDMD5 d = [] \<and> dv_DIDSHA1 d = [] \<and> dv_DPIDMD5 d = [] \<and> dv_DPIDSHA1 d = []
     \<and> dv_MACMD5 d = [] \<and> dv_MACSHA1 d = []) (rw_Device r)"

definition user_ids_gone :: "RequestWrapper \<Rightarrow> bool" where
  "user_ids_gone r \<longleftrightarrow> pred_option (\<lambda>u. us_ID u = [] \<and> us_BuyerUID u = [] \<and> us_Yob u = 0 \<and> us_Gender u = []) (rw_User r)"

definition user_eids :: "RequestWrapper \<Rightarrow> EID list" where
  "user_eids r = (case rw_User r of Some u \<Rightarrow> us_EIDs u | None \<Rightarrow> [])"

lemma scrubUserExt_fields [simp]:
  "rw_Device (scrubUserExt f r) = rw_Device r"
  "rw_User (scrubUserExt f r) = rw_User r"
  "rw_Regs (scrubUserExt f r) = rw_Regs r"
  "rw_Imp (scrubUserExt f r) = rw_Imp r"
  "rw_impWrappers (scrubUserExt f r) = rw_impWrappers r"
  "rw_Source (scrubUserExt f r) = rw_Source r"
  by (simp_all add: scrubUserExt_def split: prod.split)

lemma SetImp_fields [simp]:
  "rw_Device (SetImp imps r) = rw_Device r"
  "rw_User (SetImp imps r) = rw_User r"
  "rw_Regs (SetImp imps r) = rw_Regs r"
  "rw_userExt (SetImp imps r) = rw_userExt r"
  by (simp_all add: SetImp_def)

lemmas scrub_defs = scrubDeviceIDs_def scrubUserIDs_def scrubUserDemographics_def ScrubTID_def scrubGEO_def scrubGeoFull_def
  scrubDeviceIP_def ScrubDeviceIDsIPsUserDemoExt_def ScrubGdprID_def ScrubGeoAndDeviceIP_def

lemma scrub_regs [simp]:
  "rw_Regs (ScrubDeviceIDsIPsUserDemoExt conf f full r) = rw_Regs r"
  "rw_Regs (ScrubGdprID r) = rw_Regs r"
  "rw_Regs (ScrubGeoAndDeviceIP conf r) = rw_Regs r"
  "rw_Regs (ScrubTID r) = rw_Regs r"
  by (simp_all add: scrub_defs Let_def)

lemma NewRequest_regs: "rw_Regs r = rw_Regs r' \<Longrightarrow> NewRequestFromBidRequest r = NewRequestFromBidRequest r'"
  by (simp add: NewRequestFromBidRequest_def)

lemma ScrubUserFPD_regs: "ScrubUserFPD r = Some r' \<Longrightarrow> rw_Regs r' = rw_Regs r"
  by (auto simp: ScrubUserFPD_def scrub_defs Let_def split: option.splits)

text \<open>The operations on whole requests, and what each removes and keeps.\<close>

lemma ids_removed [simp]:
  "device_ids_gone (ScrubDeviceIDsIPsUserDemoExt conf f full r)"
  "user_ids_gone (ScrubDeviceIDsIPsUserDemoExt conf f full r)"
  "device_ids_gone (ScrubGdprID r)"
  "user_ids_gone (ScrubGdprID r)"
  by (auto simp: device_ids_gone_def user_ids_gone_def scrub_defs Let_def option.pred_map option.pred_True comp_def)

lemma ids_stay_removed [simp]:
  "device_ids_gone (ScrubGeoAndDeviceIP conf r) = device_ids_gone r"
  "user_ids_gone (ScrubGeoAndDeviceIP conf r) = user_ids_gone r"
  "device_ids_gone (ScrubTID r) = device_ids_gone r"
  "user_ids_gone (ScrubTID r) = user_ids_gone r"
  by (auto simp: device_ids_gone_def user_ids_gone_def scrub_defs Let_def option.pred_map comp_def)

lemma ScrubUserFPD_removes:
  assumes "ScrubUserFPD r = Some r'"
  shows "device_ids_gone r'" "user_ids_gone r'" "user_eids r' = []"
  using assms by (auto simp: ScrubUserFPD_def device_ids_gone_def user_ids_gone_def user_eids_def scrub_defs Let_def option.pred_map comp_def
      option.pred_True split: option.splits)

lemma eids_kept [simp]:
  "user_eids (ScrubDeviceIDsIPsUserDemoExt conf f full r) = user_eids r"
  "user_eids (ScrubGdprID r) = user_eids r"
  "user_eids (ScrubGeoAndDeviceIP conf r) = user_eids r"
  "user_eids (ScrubTID r) = user_eids r"
  by (auto simp: user_eids_def scrub_defs Let_def split: option.splits)

lemma rebuild_fields [simp]:
  "rw_Device (RebuildRequest r) = rw_Device r"
  "rw_Regs (RebuildRequest r) = rw_Regs r"
  by (simp_all add: RebuildRequest_def rebuildUserExt_def rebuildImp_def split: option.split bool.split)

lemma rebuild_user:
  "rw_User (RebuildRequest r) =
     (case rw_userExt r of
        Some (e, True) \<Rightarrow> (case rw_User r of None \<Rightarrow> if e = [] then None else Some (empty_User\<lparr>us_Ext := e\<rparr>) | Some u \<Rightarrow> Some (u\<lparr>us_Ext := e\<rparr>))
      | _ \<Rightarrow> rw_User r)"
  by (simp add: RebuildRequest_def rebuildUserExt_def rebuildImp_def split: option.split bool.split)

lemma rebuild_keeps [simp]:
  "device_ids_gone (RebuildRequest r) = device_ids_gone r"
  "user_ids_gone (RebuildRequest r) = user_ids_gone r"
  "user_eids (RebuildRequest r) = user_eids r"
  by (auto simp: device_ids_gone_def user_ids_gone_def user_eids_def rebuild_user empty_User_def split: option.splits bool.splits)

lemma privacy_ids_removes:
  assumes "privacy_ids activities conf perms ccpa bidder r = Some r1"
    and "\<not> Allow activities ActivityTransmitUserFPD (bidder_scope bidder) (NewRequestFromBidRequest r) \<or> \<not> PassID perms \<or> ShouldEnforce ccpa bidder"
  shows "device_ids_gone r1 \<and> user_ids_gone r1"
  using assms by (auto simp: privacy_ids_def Let_def dest: ScrubUserFPD_removes split: if_splits)

lemma privacy_ids_regs: "privacy_ids activities conf perms ccpa bidder r = Some r1 \<Longrightarrow> rw_Regs r1 = rw_Regs r"
  by (auto simp: privacy_ids_def Let_def dest: ScrubUserFPD_regs split: if_splits)

lemma privacy_geo_keeps:
  "device_ids_gone r \<Longrightarrow> device_ids_gone (privacy_geo activities conf perms ccpa bidder r)"
  "user_ids_gone r \<Longrightarrow> user_ids_gone (privacy_geo activities conf perms ccpa bidder r)"
  "user_eids (privacy_geo activities conf perms ccpa bidder r) = user_eids r"
  "rw_Regs (privacy_geo activities conf perms ccpa bidder r) = rw_Regs r"
  by (simp_all add: privacy_geo_def Let_def)

lemma privacy_flags_keeps:
  "device_ids_gone r \<or> lmt \<or> coppa \<Longrightarrow> device_ids_gone (privacy_flags conf lmt coppa r)"
  "user_ids_gone r \<or> lmt \<or> coppa \<Longrightarrow> user_ids_gone (privacy_flags conf lmt coppa r)"
  "user_eids (privacy_flags conf lmt coppa r) = user_eids r"
  by (auto simp: privacy_flags_def)

lemma privacy_tids_keeps:
  "device_ids_gone (privacy_tids activities bidder r) = device_ids_gone r"
  "user_ids_gone (privacy_tids activities bidder r) = user_ids_gone r"
  "user_eids (privacy_tids activities bidder r) = user_eids r"
  by (simp_all add: privacy_tids_def)

lemma applyPrivacyE:
  assumes "applyPrivacy activities conf perms ccpa lmt coppa bidder r = Some r'"
  obtains r1 where "privacy_ids activities conf perms ccpa bidder r = Some r1"
    and "r' = RebuildRequest (privacy_tids activities bidder (privacy_flags conf lmt coppa (privacy_geo activities conf perms ccpa bidder r1)))"
  using assms by (auto simp: applyPrivacy_def Option.bind_eq_Some_conv)

text \<open>
  The identifiers are gone. When the activity to transmit first-party user data is denied, GDPR gives no permission to pass IDs,
  CCPA is enforced for the bidder, or LMT or COPPA applies, the request a bidder gets has no device identifier and no user ID, buyer
  ID, year of birth or gender, whatever else the request and the policies hold.
\<close>
lemma applyPrivacy_strips_ids:
  assumes "applyPrivacy activities conf perms ccpa lmt coppa bidder r = Some r'"
    and "\<not> Allow activities ActivityTransmitUserFPD (bidder_scope bidder) (NewRequestFromBidRequest r) \<or> \<not> PassID perms
      \<or> ShouldEnforce ccpa bidder \<or> lmt \<or> coppa"
  shows "device_ids_gone r' \<and> user_ids_gone r'"
  using assms(1)
proof (cases rule: applyPrivacyE)
  case (1 r1)
  then show ?thesis
    using assms(2) privacy_ids_removes [OF 1(1)] by (auto simp: privacy_tids_keeps intro!: privacy_flags_keeps privacy_geo_keeps)
qed

text \<open>
  The extended IDs of \<^verbatim>\<open>user.eids\<close> reach the bidder unchanged whenever the activity to transmit first-party user data is
  allowed, also where GDPR, CCPA, LMT or COPPA remove every other identifier; when it is denied they are removed.
\<close>
theorem applyPrivacy_eids:
  assumes "applyPrivacy activities conf perms ccpa lmt coppa bidder r = Some r'"
  shows "user_eids r' = (if Allow activities ActivityTransmitUserFPD (bidder_scope bidder) (NewRequestFromBidRequest r) then user_eids r else [])"
  using assms
proof (cases rule: applyPrivacyE)
  case (1 r1)
  then show ?thesis
    by (auto simp: privacy_tids_keeps privacy_flags_keeps privacy_geo_keeps privacy_ids_def Let_def dest: ScrubUserFPD_removes split: if_splits)
qed

text \<open>
  \<^verbatim>\<open>applyPrivacy\<close> gives a request, except for a request without a user when the activity to transmit first-party user data is
  denied: there the scrubber dereferences the missing user and panics.
\<close>
theorem applyPrivacy_panics_iff:
  "applyPrivacy activities conf perms ccpa lmt coppa bidder r = None \<longleftrightarrow>
     \<not> Allow activities ActivityTransmitUserFPD (bidder_scope bidder) (NewRequestFromBidRequest r) \<and> rw_User r = None"
proof -
  have "ScrubUserFPD r = None \<longleftrightarrow> rw_User r = None"
    by (auto simp: ScrubUserFPD_def scrub_defs Let_def split: option.splits)
  then show ?thesis
    by (simp add: applyPrivacy_def privacy_ids_def Let_def Option.bind_eq_None_conv)
qed

section \<open>Locations and addresses\<close>

definition coarse_coordinate :: "float64 \<Rightarrow> bool" where
  "coarse_coordinate x \<longleftrightarrow> (\<exists>k::int. x = Fin (of_int k / 100))"

definition coarse_geo :: "Geo \<Rightarrow> bool" where
  "coarse_geo g \<longleftrightarrow> pred_option coarse_coordinate (geo_Lat g) \<and> pred_option coarse_coordinate (geo_Lon g)"

text \<open>An address field keeps at most \<open>ones\<close> of the \<open>bits\<close> low bits: the others are zero, or the text is no address.\<close>

definition masked_ip :: "nat \<Rightarrow> int \<Rightarrow> ip_field \<Rightarrow> bool" where
  "masked_ip bits ones ip \<longleftrightarrow> (case ip of IP_text (Some a) \<Rightarrow> 0 \<le> ones \<and> ones \<le> int bits \<and> (\<forall>n < bits - nat ones. \<not> bit a n) | _ \<Rightarrow> True)"

definition coarse_location :: "IPConf \<Rightarrow> RequestWrapper \<Rightarrow> bool" where
  "coarse_location conf r \<longleftrightarrow> pred_option (\<lambda>u. pred_option coarse_geo (us_Geo u)) (rw_User r)
     \<and> pred_option (\<lambda>d. pred_option coarse_geo (dv_Geo d) \<and> masked_ip 32 (ipc_IPV4 conf) (dv_IP d) \<and> masked_ip 128 (ipc_IPV6 conf) (dv_IPv6 d)) (rw_Device r)"

lemma coarse_round [simp]: "coarse_coordinate (round_coordinate x)"
  by (auto simp: coarse_coordinate_def round_coordinate_def)

lemma coarse_geo_precision [simp]: "coarse_geo (scrubGeoPrecision g)" "coarse_geo empty_Geo"
  by (simp_all add: coarse_geo_def scrubGeoPrecision_def empty_Geo_def option.pred_map comp_def option.pred_True)

lemma bit_push_mask: "bit (push_bit s (mask k) :: 128 word) n \<Longrightarrow> s \<le> n"
  by (simp add: bit_push_bit_iff)

lemma bit_v4_prefix: "n < 32 \<Longrightarrow> \<not> bit v4_prefix n"
  unfolding v4_prefix_def bit_push_bit_iff by simp

lemma masked_scrubIP4 [simp]: "masked_ip 32 ones (scrubIP4 ones ip)"
  by (auto simp: masked_ip_def scrubIP4_def CIDRMask32_def bit_v4_prefix bit_or_iff bit_and_iff bit_push_bit_iff
      split: ip_field.splits option.splits if_splits)

lemma masked_scrubIP6 [simp]: "masked_ip 128 ones (scrubIP6 ones ip)"
  by (auto simp: masked_ip_def scrubIP6_def CIDRMask128_def bit_and_iff bit_push_bit_iff split: ip_field.splits option.splits if_splits)

lemma coarse_scrubbed [simp]:
  "coarse_location conf (ScrubGeoAndDeviceIP conf r)"
  "coarse_location conf (ScrubDeviceIDsIPsUserDemoExt conf f full r)"
  "coarse_location conf (ScrubTID r) = coarse_location conf r"
  "coarse_location conf (RebuildRequest r) = coarse_location conf r"
  by (auto simp: coarse_location_def scrub_defs Let_def option.pred_map comp_def option.pred_True rebuild_user empty_User_def
      split: option.splits bool.splits)

text \<open>
  The location is coarse. When the activity to transmit a precise location is denied, GDPR gives no permission to pass it, CCPA is
  enforced for the bidder, or LMT or COPPA applies, every coordinate the bidder gets is a multiple of a hundredth of a degree and the
  addresses have no bit set beyond the number of bits the account keeps (of 32 and of 128).
\<close>
lemma applyPrivacy_coarsens_location:
  assumes "applyPrivacy activities conf perms ccpa lmt coppa bidder r = Some r'"
    and "\<not> Allow activities ActivityTransmitPreciseGeo (bidder_scope bidder) (NewRequestFromBidRequest r) \<or> \<not> PassGeo perms
      \<or> ShouldEnforce ccpa bidder \<or> lmt \<or> coppa"
  shows "coarse_location conf r'"
  using assms(1)
proof (cases rule: applyPrivacyE)
  case (1 r1)
  have "NewRequestFromBidRequest r1 = NewRequestFromBidRequest r"
    using privacy_ids_regs [OF 1(1)] by (rule NewRequest_regs)
  then have "coarse_location conf (privacy_geo activities conf perms ccpa bidder r1) \<or> lmt \<or> coppa"
    using assms(2) by (auto simp: privacy_geo_def Let_def)
  then show ?thesis
    using 1(2) by (auto simp: privacy_tids_def privacy_flags_def)
qed

lemma round_coordinate_small:
  assumes "\<bar>q\<bar> \<le> 180"
  shows "round_coordinate (Fin q) = Fin (of_int (if q * 100 + 1 / 2 \<ge> 0 then \<lfloor>q * 100 + 1 / 2\<rfloor> else \<lceil>q * 100 + 1 / 2\<rceil>) / 100)"
proof -
  have "- (2 ^ 63) \<le> \<lfloor>q * 100 + 1 / 2\<rfloor> \<and> \<lfloor>q * 100 + 1 / 2\<rfloor> < 2 ^ 63" "- (2 ^ 63) \<le> \<lceil>q * 100 + 1 / 2\<rceil> \<and> \<lceil>q * 100 + 1 / 2\<rceil> < 2 ^ 63"
    using assms by (simp_all add: le_floor_iff floor_less_iff le_ceiling_iff ceiling_less_iff) linarith+
  then show ?thesis by (simp add: round_coordinate_def int_of_float_def Let_def)
qed

text \<open>
  One scrubbing moves a coordinate by less than fifteen thousandths of a degree, to a multiple of a hundredth; by at most five
  thousandths for coordinates from zero on.
\<close>
lemma round_coordinate_error:
  assumes "\<bar>q\<bar> \<le> 180"
  shows "\<exists>k::int. round_coordinate (Fin q) = Fin (of_int k / 100) \<and> \<bar>of_int k / 100 - q\<bar> < (if 0 \<le> q then 51 / 10000 else 151 / 10000)"
proof -
  define k where "k = (if q * 100 + 1 / 2 \<ge> 0 then \<lfloor>q * 100 + 1 / 2\<rfloor> else \<lceil>q * 100 + 1 / 2\<rceil>)"
  have "of_int k \<le> q * 100 + 3 / 2 \<and> q * 100 - 1 / 2 < of_int k" and "0 \<le> q \<Longrightarrow> of_int k \<le> q * 100 + 1 / 2"
    by (auto simp: k_def) linarith+
  then have "\<bar>of_int k / 100 - q\<bar> < (if 0 \<le> q then 51 / 10000 else 151 / 10000)"
    by (auto simp: abs_less_iff field_simps)
  moreover have "round_coordinate (Fin q) = Fin (of_int k / 100)"
    unfolding k_def by (rule round_coordinate_small [OF assms])
  ultimately show ?thesis by blast
qed

text \<open>
  A coordinate with two decimals is not a fixed point of the scrubbing when it is negative: it moves up by a hundredth of a degree each
  time, up to four times in one request.
\<close>
lemma round_coordinate_drift:
  assumes "\<bar>m\<bar> \<le> 18000"
  shows "round_coordinate (Fin (of_int m / 100)) = Fin (of_int (if 0 \<le> m then m else m + 1) / 100)"
proof -
  have "\<bar>of_int m / 100 :: rat\<bar> \<le> 180" using assms by (auto simp: abs_le_iff field_simps)
  moreover have "\<lfloor>of_int m + 1 / 2 :: rat\<rfloor> = m" "\<lceil>of_int m + 1 / 2 :: rat\<rceil> = m + 1"
    by linarith+
  moreover have "0 \<le> (of_int m + 1 / 2 :: rat) \<longleftrightarrow> 0 \<le> m" by linarith
  ultimately show ?thesis by (simp add: round_coordinate_small)
qed

section \<open>The extension of the user\<close>

text \<open>The cache has what the user has, or is dirty and will replace it.\<close>

definition ext_synced :: "RequestWrapper \<Rightarrow> bool" where
  "ext_synced r \<longleftrightarrow> (case rw_userExt r of Some (e, dirty) \<Rightarrow> dirty \<or> pred_option (\<lambda>u. us_Ext u = e) (rw_User r) | None \<Rightarrow> True)"

definition user_ext :: "RequestWrapper \<Rightarrow> ext" where
  "user_ext r = (case rw_User r of Some u \<Rightarrow> us_Ext u | None \<Rightarrow> [])"

definition cached_ext :: "RequestWrapper \<Rightarrow> ext" where
  "cached_ext r = fst (GetUserExt r)"

lemma user_ext_sent: "ext_synced r \<Longrightarrow> rw_User r \<noteq> None \<Longrightarrow> user_ext (RebuildRequest r) = cached_ext r"
  by (auto simp: ext_synced_def user_ext_def cached_ext_def GetUserExt_def rebuild_user split: option.splits bool.splits)

text \<open>The operations on the fields of the user other than its extension, and on other parts of the request, do not touch the cache.\<close>

definition ext_frame :: "RequestWrapper \<Rightarrow> RequestWrapper \<Rightarrow> bool" where
  "ext_frame r r' \<longleftrightarrow> rw_userExt r' = rw_userExt r \<and> map_option us_Ext (rw_User r') = map_option us_Ext (rw_User r)"

lemma ext_frame_GetUserExt: "ext_frame r r' \<Longrightarrow> GetUserExt r' = GetUserExt r"
  by (cases "rw_User r"; cases "rw_User r'") (auto simp: ext_frame_def GetUserExt_def split: option.split)

lemma ext_frame_facts:
  assumes "ext_frame r r'"
  shows "cached_ext r' = cached_ext r" "ext_synced r' = ext_synced r" "user_ext r' = user_ext r"
    "rw_User r' = None \<longleftrightarrow> rw_User r = None" "cached_ext (scrubUserExt f r') = cached_ext (scrubUserExt f r)"
  using assms ext_frame_GetUserExt [OF assms]
  by (cases "rw_User r"; cases "rw_User r'"; auto simp: ext_frame_def cached_ext_def ext_synced_def user_ext_def scrubUserExt_def GetUserExt_def
      split: option.split prod.split)+

lemma ext_frame_ops [simp]:
  "ext_frame r (scrubDeviceIDs r)" "ext_frame r (scrubUserIDs r)" "ext_frame r (scrubUserDemographics r)" "ext_frame r (scrubDeviceIP conf r)"
  "ext_frame r (scrubGEO r)" "ext_frame r (scrubGeoFull r)" "ext_frame r (ScrubTID r)" "ext_frame r (ScrubGeoAndDeviceIP conf r)"
  by (auto simp: ext_frame_def scrub_defs option.map_comp comp_def)

lemma ext_frame_refl [simp]: "ext_frame r r"
  by (simp add: ext_frame_def)

lemma ext_frame_trans: "ext_frame a b \<Longrightarrow> ext_frame b c \<Longrightarrow> ext_frame a c"
  by (simp add: ext_frame_def)

lemma ext_frame_chains [simp]:
  "ext_frame r (scrubUserDemographics (scrubDeviceIP conf (scrubDeviceIDs r)))"
  "ext_frame r (scrubUserDemographics (scrubDeviceIDs r))"
  "ext_frame r (scrubUserIDs (scrubDeviceIDs r))"
  by (rule ext_frame_trans [OF ext_frame_trans [OF ext_frame_ops(1) ext_frame_ops(4)] ext_frame_ops(3)]
      ext_frame_trans [OF ext_frame_ops(1) ext_frame_ops(3)] ext_frame_trans [OF ext_frame_ops(1) ext_frame_ops(2)])+

lemma scrubUserExt_ext:
  "ext_synced r \<Longrightarrow> ext_synced (scrubUserExt f r)"
  "rw_User r \<noteq> None \<Longrightarrow> cached_ext (scrubUserExt f r) = map_del f (cached_ext r)"
  by (auto simp: ext_synced_def scrubUserExt_def cached_ext_def GetUserExt_def map_del_absent split: option.splits prod.splits)

text \<open>What a step does to the extension: the user stays, the cache stays in step, and no field comes back.\<close>

definition ext_step :: "RequestWrapper \<Rightarrow> RequestWrapper \<Rightarrow> bool" where
  "ext_step r r' \<longleftrightarrow> (rw_User r' = None \<longleftrightarrow> rw_User r = None) \<and> (ext_synced r \<longrightarrow> ext_synced r')
     \<and> (\<forall>k. map_of (cached_ext r) k = None \<longrightarrow> map_of (cached_ext r') k = None)"

lemma ext_step_refl [simp]: "ext_step r r"
  by (simp add: ext_step_def)

lemma ext_step_trans: "ext_step a b \<Longrightarrow> ext_step b c \<Longrightarrow> ext_step a c"
  by (simp add: ext_step_def)

lemma ext_step_frame: "ext_frame r r' \<Longrightarrow> ext_step r r'"
  by (simp add: ext_step_def ext_frame_facts)

lemma ext_step_scrubUserExt: "ext_step r (scrubUserExt f r)"
  by (cases "rw_User r") (auto simp: ext_step_def scrubUserExt_ext, simp add: scrubUserExt_def)

lemma scrub_between:
  assumes "ext_frame r a" "ext_frame (scrubUserExt f a) b"
  shows "ext_step r b" "rw_User r \<noteq> None \<Longrightarrow> map_of (cached_ext b) f = None"
proof -
  show "ext_step r b"
    using ext_step_trans [OF ext_step_frame [OF assms(1)] ext_step_trans [OF ext_step_scrubUserExt ext_step_frame [OF assms(2)]]] .
  show "map_of (cached_ext b) f = None" if "rw_User r \<noteq> None"
    using that ext_frame_facts [OF assms(2)] ext_frame_facts(4) [OF assms(1)] by (simp add: scrubUserExt_ext)
qed

lemma ScrubDeviceIDsIPsUserDemoExt_ext:
  "ext_step r (ScrubDeviceIDsIPsUserDemoExt conf f full r)"
  "rw_User r \<noteq> None \<Longrightarrow> map_of (cached_ext (ScrubDeviceIDsIPsUserDemoExt conf f full r)) f = None"
  using scrub_between [of r "scrubUserDemographics (scrubDeviceIP conf (scrubDeviceIDs r))" f "ScrubDeviceIDsIPsUserDemoExt conf f full r"]
  by (simp_all add: ScrubDeviceIDsIPsUserDemoExt_def Let_def split: if_splits)

lemma ScrubGdprID_ext:
  "ext_step r (ScrubGdprID r)"
  "rw_User r \<noteq> None \<Longrightarrow> map_of (cached_ext (ScrubGdprID r)) ''eids'' = None"
  using scrub_between [of r "scrubUserDemographics (scrubDeviceIDs r)" "''eids''" "ScrubGdprID r"]
  by (simp_all add: ScrubGdprID_def)

lemma ScrubUserFPD_ext:
  assumes "ScrubUserFPD r = Some r'"
  shows "ext_step r r'" "map_of (cached_ext r') ''data'' = None"
proof -
  have frames: "ext_frame r (scrubUserIDs (scrubDeviceIDs r))" "ext_frame (scrubUserExt ''data'' (scrubUserIDs (scrubDeviceIDs r))) r'"
    using assms by (auto simp: ScrubUserFPD_def Let_def ext_frame_def scrub_defs option.map_comp comp_def split: option.splits)
  have "rw_User r \<noteq> None"
    using assms by (auto simp: ScrubUserFPD_def Let_def scrub_defs split: option.splits)
  with scrub_between [OF frames] show "ext_step r r'" "map_of (cached_ext r') ''data'' = None" by auto
qed

lemma privacy_later_ext:
  "ext_step r (privacy_geo activities conf perms ccpa bidder r)"
  "ext_step r (privacy_flags conf lmt coppa r)"
  "ext_step r (privacy_tids activities bidder r)"
  using ext_step_trans [OF ext_step_frame [OF ext_frame_ops(8) [of r conf]] ScrubDeviceIDsIPsUserDemoExt_ext(1)]
  by (auto simp: privacy_geo_def privacy_flags_def privacy_tids_def Let_def intro: ext_step_frame ScrubDeviceIDsIPsUserDemoExt_ext)

text \<open>
  Extension fields are removed from the user a bidder gets: \<^verbatim>\<open>user.ext.data\<close> when the activity to transmit first-party user
  data is denied, and \<^verbatim>\<open>user.ext.eids\<close> when it is allowed and GDPR gives no permission to pass IDs or CCPA is enforced or LMT or
  COPPA applies, provided the cached extension of the wrapper is in step with the user.
\<close>
theorem applyPrivacy_scrubs_user_ext:
  assumes "applyPrivacy activities conf perms ccpa lmt coppa bidder r = Some r'" "ext_synced r" "rw_User r \<noteq> None"
    and "field = (if Allow activities ActivityTransmitUserFPD (bidder_scope bidder) (NewRequestFromBidRequest r) then ''eids'' else ''data'')"
    and "field = ''eids'' \<Longrightarrow> \<not> PassID perms \<or> ShouldEnforce ccpa bidder \<or> lmt \<or> coppa"
  shows "map_of (user_ext r') field = None"
  using assms(1)
proof (cases rule: applyPrivacyE)
  case (1 r1)
  let ?r2 = "privacy_geo activities conf perms ccpa bidder r1"
  let ?r3 = "privacy_flags conf lmt coppa ?r2"
  let ?r4 = "privacy_tids activities bidder ?r3"
  have r1: "ext_step r r1"
    using 1(1) by (auto simp: privacy_ids_def Let_def split: if_splits
        intro: ScrubUserFPD_ext ScrubGdprID_ext ScrubDeviceIDsIPsUserDemoExt_ext ext_step_trans)
  have user2: "rw_User ?r2 \<noteq> None" and step4: "ext_step r ?r4"
    using ext_step_trans [OF r1 privacy_later_ext(1)] assms(3) r1 ext_step_trans privacy_later_ext by (auto simp: ext_step_def)
  have "map_of (cached_ext r1) field = None \<or> field = ''eids'' \<and> (lmt \<or> coppa)"
    using 1(1) assms(3-5) ScrubGdprID_ext(2) [of r] ScrubDeviceIDsIPsUserDemoExt_ext(2) [of _ conf "''eids''" False]
      ext_step_def ScrubGdprID_ext(1) [of r] ScrubUserFPD_ext(2) [of r]
    by (auto simp: privacy_ids_def Let_def split: if_splits)
  then have "map_of (cached_ext ?r2) field = None \<or> field = ''eids'' \<and> (lmt \<or> coppa)"
    using privacy_later_ext(1) [of r1 activities conf perms ccpa bidder] by (auto simp: ext_step_def)
  then have "map_of (cached_ext ?r3) field = None"
    using ScrubDeviceIDsIPsUserDemoExt_ext(2) [OF user2, of conf "''eids''" coppa] privacy_later_ext(2) [of ?r2 conf lmt coppa]
    by (auto simp: privacy_flags_def ext_step_def)
  then have "map_of (cached_ext ?r4) field = None"
    using privacy_later_ext(3) by (auto simp: ext_step_def)
  moreover have "ext_synced ?r4" "rw_User ?r4 \<noteq> None"
    using step4 assms(2,3) by (auto simp: ext_step_def)
  ultimately show ?thesis
    using user_ext_sent [of ?r4] 1(2) by simp
qed

text \<open>
  When the extension of the user is not the cached one, no scrubbing reaches it: a clean cache with neither field leaves the
  extension of the user as it is.
\<close>
lemma stale_cache_not_scrubbed:
  assumes "applyPrivacy activities conf perms ccpa lmt coppa bidder r = Some r'"
    and "rw_userExt r = Some (e, False)" "map_of e ''data'' = None" "map_of e ''eids'' = None"
  shows "user_ext r' = user_ext r"
  using assms(1)
proof (cases rule: applyPrivacyE)
  case (1 r1)
  define ok where "ok x \<longleftrightarrow> rw_userExt x = Some (e, False) \<and> user_ext x = user_ext r" for x
  have frame: "ok b" if "ok a" "ext_frame a b" for a b
    using that ext_frame_facts(3) [OF that(2)] by (simp add: ok_def ext_frame_def)
  have ext: "ok (scrubUserExt f a)" if "ok a" "map_of e f = None" for a f
    using that by (auto simp: ok_def scrubUserExt_def user_ext_def GetUserExt_def)
  have all: "ok (ScrubDeviceIDsIPsUserDemoExt conf ''eids'' full a)" if "ok a" for a full
    unfolding ScrubDeviceIDsIPsUserDemoExt_def Let_def using that assms(4)
    by (auto intro!: frame [OF _ ext_frame_ops(5)] frame [OF _ ext_frame_ops(6)] ext intro: frame [OF _ ext_frame_chains(1)])
  have gdpr: "ok (ScrubGdprID a)" if "ok a" for a
    unfolding ScrubGdprID_def using that assms(4) by (intro ext frame [OF _ ext_frame_ops(3)] frame [OF _ ext_frame_ops(1)])
  have fpd: "ok b" if "ok a" "ScrubUserFPD a = Some b" for a b
  proof -
    have "ok (scrubUserExt ''data'' (scrubUserIDs (scrubDeviceIDs a)))"
      using that(1) assms(3) by (intro ext frame [OF _ ext_frame_ops(2)] frame [OF _ ext_frame_ops(1)])
    then show ?thesis
      using that(2) by (auto simp: ScrubUserFPD_def Let_def ok_def user_ext_def split: option.splits)
  qed
  have "ok r" using assms(2) by (simp add: ok_def)
  then have "ok r1"
    using 1(1) by (auto simp: privacy_ids_def Let_def split: if_splits intro: fpd gdpr all)
  then have "ok (privacy_geo activities conf perms ccpa bidder r1)"
    by (auto simp: privacy_geo_def Let_def intro: all frame [OF _ ext_frame_ops(8)])
  then have "ok (privacy_tids activities bidder (privacy_flags conf lmt coppa (privacy_geo activities conf perms ccpa bidder r1)))"
    by (auto simp: privacy_flags_def privacy_tids_def intro: all frame [OF _ ext_frame_ops(7)])
  then show ?thesis
    using 1(2) by (auto simp: ok_def user_ext_def rebuild_user split: option.splits)
qed

section \<open>When CCPA is enforced\<close>

lemma parse_opt_out4: "ccpa_parseConsent [a, b, c, d] = Inr True \<longleftrightarrow> a = CHR ''1'' \<and> ccpa_flag b \<and> c = CHR ''Y'' \<and> ccpa_flag d"
proof -
  have "ccpa_flag CHR ''Y''" by (simp add: ccpa_flag_def)
  moreover have "[a, b, c, d] ! 1 = b" "[a, b, c, d] ! 2 = c" "[a, b, c, d] ! 3 = d" by simp_all
  ultimately show ?thesis unfolding ccpa_parseConsent_def by (simp del: nth_Cons_numeral One_nat_def) blast
qed

lemma parse_opt_out:
  "ccpa_parseConsent consent = Inr True \<longleftrightarrow> (\<exists>notice lspa. consent = [CHR ''1'', notice, CHR ''Y'', lspa] \<and> ccpa_flag notice \<and> ccpa_flag lspa)"
proof (cases "length consent = 4")
  case True
  then obtain a b c d where "consent = [a, b, c, d]"
    by (cases consent; cases "tl consent"; cases "tl (tl consent)"; cases "tl (tl (tl consent))") auto
  then show ?thesis by (simp add: parse_opt_out4) blast
next
  case False
  then have "ccpa_parseConsent consent \<noteq> Inr True" by (simp add: ccpa_parseConsent_def)
  with False show ?thesis by auto
qed

lemma noSale_loop_iff:
  "noSale_loop bs valid acc = Inr out \<longleftrightarrow> list_all (\<lambda>b. b \<noteq> ''*'' \<and> b \<in> set valid) bs \<and> out = rev bs @ acc"
  by (induction bs arbitrary: acc) auto

lemma noSale_loop_not_listed:
  "(case noSale_loop bs valid [] of Inl e \<Rightarrow> False | Inr out \<Rightarrow> x \<notin> set out) \<longleftrightarrow> list_all (\<lambda>b. b \<noteq> ''*'' \<and> b \<in> set valid) bs \<and> x \<notin> set bs"
proof (cases "noSale_loop bs valid []")
  case (Inl e)
  then show ?thesis using noSale_loop_iff [of bs valid "[]" "rev bs"] by simp
next
  case (Inr out)
  then show ?thesis using noSale_loop_iff [of bs valid "[]" out] by simp
qed

text \<open>
  CCPA is enforced for a bidder exactly when enforcement is on, the request extension decodes, the consents of the request and
  of GPP do not differ, the consent string opts out of sale in a valid form, and the bidder is not exempt: the no-sale list is not
  the wildcard alone, every entry of it is a known bidder, and the bidder is not one of them. A difference between the two
  consents or one unknown entry in the list switches CCPA off for every bidder.
\<close>
theorem ccpa_enforced_iff:
  "ShouldEnforce (fst (extractCCPA r reqNoSale gpp validBidders enabled)) bidder \<longleftrightarrow>
     enabled \<and> (\<exists>notice lspa noSale.
       ReadFromRequestWrapper r reqNoSale gpp = (([CHR ''1'', notice, CHR ''Y'', lspa], noSale), None) \<and> ccpa_flag notice \<and> ccpa_flag lspa
       \<and> noSale \<noteq> [''*''] \<and> list_all (\<lambda>b. b \<noteq> ''*'' \<and> b \<in> set validBidders) noSale \<and> bidder \<notin> set noSale)"
proof -
  obtain consent noSale err where read: "ReadFromRequestWrapper r reqNoSale gpp = ((consent, noSale), err)" by (metis surj_pair)
  have "ShouldEnforce (fst (extractCCPA r reqNoSale gpp validBidders enabled)) bidder \<longleftrightarrow>
     enabled \<and> err = None \<and> ccpa_parseConsent consent = Inr True \<and> noSale \<noteq> [''*'']
     \<and> (case noSale_loop noSale validBidders [] of Inl e \<Rightarrow> False | Inr out \<Rightarrow> bidder \<notin> set out)"
    by (auto simp: extractCCPA_def read Policy_Parse_def parseNoSaleBidders_def isNoSaleForBidder_def split: option.splits sum.splits)
  then show ?thesis
    unfolding noSale_loop_not_listed parse_opt_out by (auto simp: read)
qed

text \<open>
  A bidder gets exactly the extended IDs it may see: those whose source has no permission entry, or whose last entry names the
  bidder (in any case) or the wildcard. Everything else in the request stays.
\<close>
theorem eids_permitted:
  assumes "removeUnpermissionedEids (Some perms) bidder r = Inr r'"
  shows "user_eids r' = filter (\<lambda>eid. case map_of (rev perms) (eid_Source eid) of None \<Rightarrow> True
            | Some bidders \<Rightarrow> list_ex (\<lambda>b. b = ''*'' \<or> EqualFold b bidder) bidders) (user_eids r)
    \<and> r' = r\<lparr>rw_User := map_option (\<lambda>u. u\<lparr>us_EIDs := user_eids r'\<rparr>) (rw_User r)\<rparr>"
proof -
  have rules: "map_of (eid_rules perms) = map_of (rev perms)"
  proof -
    have "map_of (fold (\<lambda>(source, bidders) m. map_put source bidders m) ps m) = map_of m ++ map_of (rev ps)" for ps m
      by (induction ps arbitrary: m) (auto simp: map_add_def fun_eq_iff split: option.split)
    from this [of perms "[]"] show ?thesis by (simp add: eid_rules_def)
  qed
  have all: "filter P xs = xs" if "length xs = length (filter P xs)" for P and xs :: "EID list"
    using that by (metis filter_id_conv length_filter_less order_less_irrefl)
  define P where "P = eid_allowed (eid_rules perms) bidder"
  have P: "P = (\<lambda>eid. case map_of (rev perms) (eid_Source eid) of None \<Rightarrow> True
            | Some bidders \<Rightarrow> list_ex (\<lambda>b. b = ''*'' \<or> EqualFold b bidder) bidders)"
    by (simp add: P_def fun_eq_iff eid_allowed_def rules split: option.split)
  have none: "filter P (xs :: EID list) = xs" if "perms = []" for xs
    using that by (simp add: P)
  have same: "r = r\<lparr>rw_User := map_option (\<lambda>u. u\<lparr>us_EIDs := us_EIDs u\<rparr>) (rw_User r)\<rparr>"
    by (cases "rw_User r") simp_all
  show ?thesis
    unfolding P [symmetric]
  proof (cases "rw_User r")
    case None
    then show "user_eids r' = filter P (user_eids r) \<and> r' = r\<lparr>rw_User := map_option (\<lambda>u. u\<lparr>us_EIDs := user_eids r'\<rparr>) (rw_User r)\<rparr>"
      using assms same by (simp add: removeUnpermissionedEids_def user_eids_def)
  next
    case (Some u)
    have "r' = (if filter P (us_EIDs u) = us_EIDs u then r else r\<lparr>rw_User := Some (u\<lparr>us_EIDs := filter P (us_EIDs u)\<rparr>)\<rparr>)"
      using assms Some all [of "us_EIDs u" P] none by (auto simp: removeUnpermissionedEids_def P_def [symmetric] Let_def split: if_splits)
    then show "user_eids r' = filter P (user_eids r) \<and> r' = r\<lparr>rw_User := map_option (\<lambda>u. u\<lparr>us_EIDs := user_eids r'\<rparr>) (rw_User r)\<rparr>"
      using Some by (simp add: user_eids_def)
  qed
qed

section \<open>Examples\<close>

text \<open>A request with identifiers, a location and extended IDs; an account without activity rules, that keeps 24 and 56 bits of an address.\<close>

definition sample_device :: Device where
  "sample_device = \<lparr>dv_IP = IP_text (Some (v4_prefix OR 0x01020304)), dv_IPv6 = IP_empty, dv_IFA = ''ifa'', dv_DIDMD5 = [], dv_DIDSHA1 = [], dv_DPIDMD5 = [],
     dv_DPIDSHA1 = [], dv_MACMD5 = [], dv_MACSHA1 = [], dv_Geo = Some \<lparr>geo_Lat = Some (Fin (123456 / 1000)), geo_Lon = None, geo_Other = []\<rparr>, dv_Lmt = Some 1\<rparr>"

definition sample_user :: User where
  "sample_user = empty_User\<lparr>us_ID := ''id'', us_BuyerUID := ''b'', us_EIDs := [\<lparr>eid_Source = ''s'', eid_UIDs = [''u'']\<rparr>, \<lparr>eid_Source = ''t'', eid_UIDs = [''v'']\<rparr>],
     us_Ext := [(''eids'', XRaw ''[]''), (''data'', XRaw ''{}'')]\<rparr>"

definition scrub_sample :: RequestWrapper where
  "scrub_sample = \<lparr>rw_Device = Some sample_device, rw_User = Some sample_user, rw_Regs = None, rw_Source = None, rw_Imp = [], rw_Site = None, rw_App = None,
     rw_ExtSChain = None, rw_userExt = None, rw_impWrappers = None\<rparr>"

definition sample_conf :: IPConf where "sample_conf = \<lparr>ipc_IPV6 = 56, ipc_IPV4 = 24\<rparr>"

definition open_activities :: ActivityControl where "open_activities = NewActivityControl None"

lemma open_activities_allow [simp]: "Allow open_activities a c q"
  by (simp add: open_activities_def Allow_def NewActivityControl_def)

abbreviation lmt_scrubbed :: RequestWrapper where
  "lmt_scrubbed \<equiv> RebuildRequest (ScrubDeviceIDsIPsUserDemoExt sample_conf ''eids'' False scrub_sample)"

lemma sample_applyPrivacy: "applyPrivacy open_activities sample_conf AllowAll NilPolicyEnforcer True False ''a'' scrub_sample = Some lmt_scrubbed"
  by (simp add: applyPrivacy_def privacy_ids_def privacy_geo_def privacy_flags_def privacy_tids_def AllowAll_def)

lemma scrub_sample_facts:
  "\<not> device_ids_gone scrub_sample" "\<not> user_ids_gone scrub_sample" "user_eids scrub_sample = us_EIDs sample_user" "us_EIDs sample_user \<noteq> []"
  "ext_synced scrub_sample" "rw_User scrub_sample = Some sample_user" "map_of (user_ext scrub_sample) ''eids'' = Some (XRaw ''[]'')"
  by (simp_all add: device_ids_gone_def user_ids_gone_def user_eids_def ext_synced_def user_ext_def scrub_sample_def sample_device_def sample_user_def)

theorem applyPrivacy_eids_witness: "user_eids lmt_scrubbed = us_EIDs sample_user \<and> us_EIDs sample_user \<noteq> []"
  using applyPrivacy_eids [OF sample_applyPrivacy] by (simp add: scrub_sample_facts)

theorem applyPrivacy_scrubs_user_ext_witness: "map_of (user_ext lmt_scrubbed) ''eids'' = None \<and> map_of (user_ext scrub_sample) ''eids'' = Some (XRaw ''[]'')"
  using applyPrivacy_scrubs_user_ext [OF sample_applyPrivacy, of "''eids''"]
  by (simp add: scrub_sample_facts)

theorem eids_permitted_witness:
  "removeUnpermissionedEids (Some [(''s'', [''b'']), (''s'', [''A''])]) ''a'' scrub_sample = Inr scrub_sample
    \<and> removeUnpermissionedEids (Some [(''s'', [''b''])]) ''a'' scrub_sample
      = Inr (scrub_sample\<lparr>rw_User := Some (sample_user\<lparr>us_EIDs := [\<lparr>eid_Source = ''t'', eid_UIDs = [''v'']\<rparr>]\<rparr>)\<rparr>)"
proof -
  have fold: "EqualFold ''A'' ''a''" "\<not> EqualFold ''b'' ''a''" by code_simp+
  have "removeUnpermissionedEids (Some [(''s'', [''b'']), (''s'', [''A''])]) ''a'' scrub_sample = Inr scrub_sample"
    by (simp add: removeUnpermissionedEids_def scrub_sample_def sample_user_def eid_rules_def eid_allowed_def fold)
  moreover obtain x where x: "removeUnpermissionedEids (Some [(''s'', [''b''])]) ''a'' scrub_sample = Inr x"
    by (simp add: removeUnpermissionedEids_def scrub_sample_def sample_user_def eid_rules_def eid_allowed_def fold)
  ultimately show ?thesis
    using eids_permitted [OF x] by (simp add: scrub_sample_facts) (simp add: sample_user_def fold, metis)
qed

end
