(* ===== verification/Granularity.thy ===== *)
theory Granularity
  imports Entities Strconv
begin

text \<open>
  Price granularity: the structures and predefined tables of \<^verbatim>\<open>openrtb_ext/request.go\<close>, the defaults of
  \<^verbatim>\<open>ortb/default.go\<close>, the validation of \<^verbatim>\<open>endpoints/openrtb2/auction.go\<close>, and the price bucket of
  \<^verbatim>\<open>exchange/price_granularity.go\<close>. The theorems follow a request through these steps: what the
  defaults repair and the validation accepts is a contiguous partition of the price axis, on which the
  bucket is total, within one increment of the price, and monotone.
\<close>

section \<open>Structures\<close>

record GranularityRange =
  gr_Min :: float64
  gr_Max :: float64
  gr_Increment :: float64

record PriceGranularity =
  pg_Precision :: "int option"
  pg_Ranges :: "GranularityRange list"

record MediaTypePriceGranularity =
  mt_Banner :: "PriceGranularity option"
  mt_Video :: "PriceGranularity option"
  mt_Native :: "PriceGranularity option"

record ExtRequestTargeting =
  et_PriceGranularity :: "PriceGranularity option"
  et_MediaTypePriceGranularity :: "MediaTypePriceGranularity option"
  et_IncludeWinners :: "bool option"
  et_IncludeBidderKeys :: "bool option"
  et_IncludeFormat :: bool
  et_DurationRangeSec :: "int list"
  et_PreferDeals :: bool
  et_AppendBidderNames :: bool
  et_AlwaysIncludeDeals :: bool
  et_Prefix :: string

definition gr :: "rat \<Rightarrow> rat \<Rightarrow> rat \<Rightarrow> GranularityRange" where
  "gr lo hi inc = \<lparr>gr_Min = Fin lo, gr_Max = Fin hi, gr_Increment = Fin inc\<rparr>"

definition NewPriceGranularityFromLegacyID :: "string \<Rightarrow> PriceGranularity \<times> bool" where
  "NewPriceGranularityFromLegacyID v =
     (if v = ''low'' then (\<lparr>pg_Precision = Some 2, pg_Ranges = [gr 0 5 (1/2)]\<rparr>, True)
      else if v = ''med'' \<or> v = ''medium'' then (\<lparr>pg_Precision = Some 2, pg_Ranges = [gr 0 20 (1/10)]\<rparr>, True)
      else if v = ''high'' then (\<lparr>pg_Precision = Some 2, pg_Ranges = [gr 0 20 (1/100)]\<rparr>, True)
      else if v = ''auto'' then
        (\<lparr>pg_Precision = Some 2, pg_Ranges = [gr 0 5 (1/20), gr 5 10 (1/10), gr 10 20 (1/2)]\<rparr>, True)
      else if v = ''dense'' then
        (\<lparr>pg_Precision = Some 2, pg_Ranges = [gr 0 3 (1/100), gr 3 8 (1/20), gr 8 20 (1/2)]\<rparr>, True)
      else (\<lparr>pg_Precision = None, pg_Ranges = []\<rparr>, False))"

definition NewPriceGranularityDefault :: PriceGranularity where
  "NewPriceGranularityDefault = fst (NewPriceGranularityFromLegacyID ''medium'')"

text \<open>
  The two JSON decoders, of a string and of the structure, are parameters. A document that is a
  string but names no table is handed to the structure decoder, as in the code.
\<close>

definition PriceGranularity_UnmarshalJSON ::
  "(string \<Rightarrow> string option) \<Rightarrow> (string \<Rightarrow> PriceGranularity option) \<Rightarrow> string \<Rightarrow> PriceGranularity option" where
  "PriceGranularity_UnmarshalJSON decodeString decodeRaw b =
     (case decodeString b of
        Some legacyID \<Rightarrow>
          (let (legacyValue, ok) = NewPriceGranularityFromLegacyID legacyID in
           if ok then Some legacyValue else decodeRaw b)
      | None \<Rightarrow> decodeRaw b)"

section \<open>Defaults\<close>

fun setDefaultsRanges_from :: "float64 \<Rightarrow> GranularityRange list \<Rightarrow> GranularityRange list \<times> bool" where
  "setDefaultsRanges_from prevMax [] = ([], False)"
| "setDefaultsRanges_from prevMax (r # rs) =
     (let (rs', m) = setDefaultsRanges_from (gr_Max r) rs in
      if \<not> feq (gr_Min r) prevMax then (r\<lparr>gr_Min := prevMax\<rparr> # rs', True) else (r # rs', m))"

definition setDefaultsPriceGranularityRange :: "GranularityRange list \<Rightarrow> GranularityRange list \<times> bool" where
  "setDefaultsPriceGranularityRange ranges = setDefaultsRanges_from 0 ranges"

definition setDefaultsPriceGranularity :: "PriceGranularity option \<Rightarrow> PriceGranularity \<times> bool" where
  "setDefaultsPriceGranularity pgo =
     (case pgo of
        None \<Rightarrow> (NewPriceGranularityDefault, True)
      | Some pg \<Rightarrow>
          if pg_Ranges pg = [] then (NewPriceGranularityDefault, True)
          else
            let prec = (case pg_Precision pg of None \<Rightarrow> 2 | Some p \<Rightarrow> p);
                (ranges, m) = setDefaultsPriceGranularityRange (pg_Ranges pg)
            in (\<lparr>pg_Precision = Some prec, pg_Ranges = ranges\<rparr>, pg_Precision pg = None \<or> m))"

definition default_media :: "PriceGranularity option \<Rightarrow> PriceGranularity option \<times> bool" where
  "default_media pgo =
     (case pgo of None \<Rightarrow> (None, False)
      | Some pg \<Rightarrow> (let (pg', u) = setDefaultsPriceGranularity (Some pg) in (Some pg', u)))"

definition setDefaultsMediaTypes :: "MediaTypePriceGranularity \<Rightarrow> MediaTypePriceGranularity \<times> bool" where
  "setDefaultsMediaTypes m =
     (let (v, mv) = default_media (mt_Video m); (b, mb) = default_media (mt_Banner m);
          (n, mn) = default_media (mt_Native m)
      in (\<lparr>mt_Banner = b, mt_Video = v, mt_Native = n\<rparr>, mv \<or> mb \<or> mn))"

definition setDefaultsTargeting :: "ExtRequestTargeting option \<Rightarrow> ExtRequestTargeting option \<times> bool" where
  "setDefaultsTargeting t =
     (case t of None \<Rightarrow> (None, False)
      | Some t \<Rightarrow>
          let (pg, m1) = setDefaultsPriceGranularity (et_PriceGranularity t);
              (mt, m2) = (case et_MediaTypePriceGranularity t of None \<Rightarrow> (None, False)
                          | Some m \<Rightarrow> (let (m', u) = setDefaultsMediaTypes m in (Some m', u)));
              m3 = (et_IncludeWinners t = None); m4 = (et_IncludeBidderKeys t = None)
          in (Some (t\<lparr>et_PriceGranularity := Some pg, et_MediaTypePriceGranularity := mt,
                      et_IncludeWinners := Some (opt_or (et_IncludeWinners t) True),
                      et_IncludeBidderKeys := Some (opt_or (et_IncludeBidderKeys t) True)\<rparr>),
              m1 \<or> m2 \<or> m3 \<or> m4))"

section \<open>Validation\<close>

datatype granularity_error =
  PrecisionRequired | PrecisionNegative | PrecisionTooBig | RangesNotOrdered | IncrementNotPositive

fun validate_ranges :: "float64 \<Rightarrow> GranularityRange list \<Rightarrow> granularity_error option" where
  "validate_ranges prevMax [] = None"
| "validate_ranges prevMax (g # gs) =
     (if gr_Max g \<le> prevMax then Some RangesNotOrdered
      else if gr_Increment g \<le> 0 then Some IncrementNotPositive
      else validate_ranges (gr_Max g) gs)"

definition validatePriceGranularity :: "PriceGranularity \<Rightarrow> granularity_error option" where
  "validatePriceGranularity pg =
     (case pg_Precision pg of
        None \<Rightarrow> Some PrecisionRequired
      | Some p \<Rightarrow>
          if p < 0 then Some PrecisionNegative
          else if p > 15 then Some PrecisionTooBig
          else validate_ranges 0 (pg_Ranges pg))"

definition validate_opt :: "PriceGranularity option \<Rightarrow> granularity_error option" where
  "validate_opt pgo = Option.bind pgo validatePriceGranularity"

definition validateTargeting :: "ExtRequestTargeting option \<Rightarrow> granularity_error option" where
  "validateTargeting t =
     (case t of None \<Rightarrow> None
      | Some t \<Rightarrow>
         (case validate_opt (et_PriceGranularity t) of Some e \<Rightarrow> Some e
          | None \<Rightarrow>
             (case et_MediaTypePriceGranularity t of None \<Rightarrow> None
              | Some m \<Rightarrow>
                 (case validate_opt (mt_Video m) of Some e \<Rightarrow> Some e
                  | None \<Rightarrow> (case validate_opt (mt_Banner m) of Some e \<Rightarrow> Some e
                             | None \<Rightarrow> validate_opt (mt_Native m))))))"

section \<open>The media type of a bid\<close>

definition ParseBidType :: "string \<Rightarrow> string option" where
  "ParseBidType s = (if s \<in> {''banner'', ''video'', ''audio'', ''native''} then Some s else None)"

text \<open>
  Decoding \<^verbatim>\<open>bid.ext\<close> is the parameter \<open>decodeExt\<close>: \<open>None\<close> for an error, \<open>Some None\<close> when there is no
  \<^verbatim>\<open>prebid\<close> object, and otherwise the \<^verbatim>\<open>type\<close> string in it.
\<close>

type_synonym ext_decoder = "string \<Rightarrow> string option option"

definition getPrebidMediaTypeForBid :: "ext_decoder \<Rightarrow> Bid \<Rightarrow> string option" where
  "getPrebidMediaTypeForBid decodeExt bid =
     (case Bid_Ext bid of None \<Rightarrow> None
      | Some ext \<Rightarrow> (case decodeExt ext of Some (Some t) \<Rightarrow> ParseBidType t | _ \<Rightarrow> None))"

definition getMediaTypeForBid :: "ext_decoder \<Rightarrow> Bid \<Rightarrow> string option" where
  "getMediaTypeForBid decodeExt bid =
     (if Bid_MType bid > 0 then
        (if Bid_MType bid = 1 then Some ''banner''
         else if Bid_MType bid = 2 then Some ''video''
         else if Bid_MType bid = 3 then Some ''audio''
         else if Bid_MType bid = 4 then Some ''native''
         else None)
      else getPrebidMediaTypeForBid decodeExt bid)"

section \<open>The price bucket\<close>

text \<open>The random bit of the mode \<^verbatim>\<open>timesplit\<close> is the argument \<open>coin\<close>.\<close>

definition getCpmTarget :: "bool \<Rightarrow> float64 \<Rightarrow> float64 \<Rightarrow> float64 \<Rightarrow> int \<Rightarrow> string \<Rightarrow> string" where
  "getCpmTarget coin cpm bucketMin increment precision rounding =
     (let increments = (cpm - bucketMin) / increment;
          incrementsRounded =
            (if rounding = ''true'' then math_round increments
             else if rounding = ''timesplit'' then (if coin then math_floor increments else math_ceil increments)
             else if rounding = ''up'' then math_ceil increments
             else math_floor increments);
          roundedCPM = incrementsRounded * increment + bucketMin
      in FormatFloat roundedCPM precision)"

fun scan_ranges :: "float64 \<Rightarrow> GranularityRange list \<Rightarrow> float64 \<times> float64 \<times> float64 \<Rightarrow> float64 \<times> float64 \<times> float64" where
  "scan_ranges cpm [] acc = acc"
| "scan_ranges cpm (r # rs) (bucketMax, bucketMin, increment) =
     scan_ranges cpm rs
       (let bucketMax = (if bucketMax < gr_Max r then gr_Max r else bucketMax) in
        if gr_Min r \<le> cpm \<and> cpm \<le> gr_Max r then (bucketMax, gr_Min r, gr_Increment r)
        else (bucketMax, bucketMin, increment))"

definition media_granularity :: "ext_decoder \<Rightarrow> Bid \<Rightarrow> PriceGranularity \<Rightarrow> MediaTypePriceGranularity \<Rightarrow> PriceGranularity" where
  "media_granularity decodeExt bid pg mt =
     (case getMediaTypeForBid decodeExt bid of
        None \<Rightarrow> pg
      | Some t \<Rightarrow>
          (if t = ''banner'' then opt_or (mt_Banner mt) pg
           else if t = ''video'' then opt_or (mt_Video mt) pg
           else if t = ''native'' then opt_or (mt_Native mt) pg
           else pg))"

text \<open>\<open>None\<close>: the nil pointer \<^verbatim>\<open>Precision\<close> is dereferenced.\<close>

definition price_bucket :: "bool \<Rightarrow> float64 \<Rightarrow> PriceGranularity \<Rightarrow> string \<Rightarrow> string option" where
  "price_bucket coin cpm config rounding =
     (case pg_Precision config of None \<Rightarrow> None
      | Some precision \<Rightarrow>
          (case scan_ranges cpm (pg_Ranges config) (0, 0, 0) of (bucketMax, bucketMin, increment) \<Rightarrow>
             Some (if bucketMax < cpm then FormatFloat bucketMax precision
                   else if 0 < increment then getCpmTarget coin cpm bucketMin increment precision rounding
                   else '''')))"

definition GetPriceBucket ::
  "bool \<Rightarrow> ext_decoder \<Rightarrow> Bid \<Rightarrow> PriceGranularity \<Rightarrow> MediaTypePriceGranularity \<Rightarrow> string \<Rightarrow> string option" where
  "GetPriceBucket coin decodeExt bid pg mt rounding =
     price_bucket coin (Bid_Price bid) (media_granularity decodeExt bid pg mt) rounding"

section \<open>Partitions of the price axis\<close>

text \<open>Ranges that follow each other without gap or overlap from \<open>lo\<close> on, each with a positive increment.\<close>

fun partition_from :: "rat \<Rightarrow> GranularityRange list \<Rightarrow> bool" where
  "partition_from lo [] = True"
| "partition_from lo (g # gs) =
     (case (gr_Max g, gr_Increment g) of
        (Fin hi, Fin inc) \<Rightarrow> gr_Min g = Fin lo \<and> lo < hi \<and> 0 < inc \<and> partition_from hi gs
      | _ \<Rightarrow> False)"

fun top_of :: "rat \<Rightarrow> GranularityRange list \<Rightarrow> rat" where
  "top_of lo [] = lo"
| "top_of lo (g # gs) = (case gr_Max g of Fin hi \<Rightarrow> top_of hi gs | _ \<Rightarrow> lo)"

text \<open>The reference: the grid point at or below the price in the range of the price, the top above all ranges.\<close>

fun grid_floor :: "rat \<Rightarrow> rat \<Rightarrow> GranularityRange list \<Rightarrow> rat" where
  "grid_floor lo c [] = lo"
| "grid_floor lo c (g # gs) =
     (case (gr_Max g, gr_Increment g) of
        (Fin hi, Fin inc) \<Rightarrow>
          if c < hi \<or> (gs = [] \<and> c = hi) then lo + of_int \<lfloor>(c - lo) / inc\<rfloor> * inc else grid_floor hi c gs
      | _ \<Rightarrow> lo)"

definition finite_ranges :: "GranularityRange list \<Rightarrow> bool" where
  "finite_ranges rs \<longleftrightarrow> (\<forall>g \<in> set rs. is_finite (gr_Max g) \<and> is_finite (gr_Increment g))"

lemma partition_ConsE:
  assumes "partition_from lo (g # gs)"
  obtains hi inc where "gr_Max g = Fin hi" "gr_Increment g = Fin inc" "gr_Min g = Fin lo" "lo < hi" "0 < inc"
    "partition_from hi gs"
  using assms by (auto split: float64.splits)

lemma top_of_ge: "partition_from lo rs \<Longrightarrow> lo \<le> top_of lo rs"
proof (induction rs arbitrary: lo)
  case (Cons g gs)
  from Cons.prems obtain hi inc where g: "gr_Max g = Fin hi" "lo < hi" "partition_from hi gs"
    by (rule partition_ConsE)
  with Cons.IH [OF g(3)] show ?case by simp
qed simp

lemma top_of_gt: "partition_from lo rs \<Longrightarrow> rs \<noteq> [] \<Longrightarrow> lo < top_of lo rs"
proof (cases rs)
  case (Cons g gs)
  assume "partition_from lo rs"
  with Cons obtain hi inc where g: "gr_Max g = Fin hi" "lo < hi" "partition_from hi gs"
    by (metis partition_ConsE)
  with top_of_ge [OF g(3)] Cons show ?thesis by simp
qed simp

lemma top_of_last: "partition_from lo rs \<Longrightarrow> rs \<noteq> [] \<Longrightarrow> gr_Max (last rs) = Fin (top_of lo rs)"
proof (induction rs arbitrary: lo)
  case (Cons g gs)
  from Cons.prems obtain hi inc where g: "gr_Max g = Fin hi" "partition_from hi gs"
    by (metis partition_ConsE)
  with Cons.IH [OF g(2)] show ?case by (cases gs) auto
qed simp

lemma scan_below: "partition_from lo rs \<Longrightarrow> c < lo \<Longrightarrow>
  scan_ranges (Fin c) rs (Fin lo, m, i) = (Fin (top_of lo rs), m, i)"
proof (induction rs arbitrary: lo)
  case (Cons g gs)
  from Cons.prems(1) obtain hi inc where g: "gr_Max g = Fin hi" "gr_Min g = Fin lo" "lo < hi" "partition_from hi gs"
    by (rule partition_ConsE)
  with Cons.IH [OF g(4)] Cons.prems(2) show ?case by (simp add: Let_def)
qed simp

lemma grid_floor_above: "partition_from lo rs \<Longrightarrow> top_of lo rs < c \<Longrightarrow> grid_floor lo c rs = top_of lo rs"
proof (induction rs arbitrary: lo)
  case (Cons g gs)
  from Cons.prems(1) obtain hi inc where g: "gr_Max g = Fin hi" "gr_Increment g = Fin inc" "partition_from hi gs"
    by (rule partition_ConsE)
  with Cons.IH [OF g(3)] Cons.prems(2) top_of_ge [OF g(3)] show ?case by auto
qed simp

definition in_range :: "rat \<Rightarrow> rat \<Rightarrow> rat \<Rightarrow> GranularityRange list \<Rightarrow> bool" where
  "in_range c a inc rs \<longleftrightarrow>
     (\<exists>g \<in> set rs. gr_Min g = Fin a \<and> gr_Increment g = Fin inc \<and> Fin a \<le> Fin c \<and> Fin c \<le> gr_Max g \<and> 0 < inc)"

lemma in_range_Cons: "in_range c a inc gs \<Longrightarrow> in_range c a inc (g # gs)"
  by (auto simp: in_range_def)

lemma scan_step:
  assumes "gr_Max g = Fin hi" and "lo < hi"
  obtains m' i' where "scan_ranges (Fin c) (g # gs) (Fin lo, m, i) = scan_ranges (Fin c) gs (Fin hi, m', i')"
proof (cases "gr_Min g \<le> Fin c \<and> Fin c \<le> gr_Max g")
  case True
  with assms that [of "gr_Min g" "gr_Increment g"] show thesis by simp
next
  case False
  with assms that [of m i] show thesis by (simp only: scan_ranges.simps Let_def if_False) simp
qed

lemma scan_grid:
  assumes "partition_from lo rs" and "lo \<le> c" and "c \<le> top_of lo rs" and "rs \<noteq> []"
  shows "\<exists>a inc. scan_ranges (Fin c) rs (Fin lo, m, i) = (Fin (top_of lo rs), Fin a, Fin inc) \<and>
    in_range c a inc rs \<and> grid_floor lo c rs = a + of_int \<lfloor>(c - a) / inc\<rfloor> * inc"
  using assms
proof (induction rs arbitrary: lo m i)
  case (Cons g gs)
  from Cons.prems(1) obtain hi inc where g: "gr_Max g = Fin hi" "gr_Increment g = Fin inc" "gr_Min g = Fin lo"
    "lo < hi" "0 < inc" and part: "partition_from hi gs"
    by (rule partition_ConsE)
  show ?case
  proof (cases "c < hi \<or> (gs = [] \<and> c = hi)")
    case True
    then have "scan_ranges (Fin c) (g # gs) (Fin lo, m, i) = (Fin (top_of hi gs), Fin lo, Fin inc)"
      using g Cons.prems(2) scan_below [OF part, of c "Fin lo" "Fin inc"] by (auto simp: Let_def)
    moreover have "in_range c lo inc (g # gs)" using True g Cons.prems(2) by (auto simp: in_range_def)
    ultimately show ?thesis using True g by (intro exI [of _ lo] exI [of _ inc]) simp
  next
    case False
    then have c: "hi \<le> c" by auto
    have ne: "gs \<noteq> []" using False c Cons.prems(3) g by auto
    have top: "c \<le> top_of hi gs" using Cons.prems(3) g by simp
    obtain m' i' where step: "scan_ranges (Fin c) (g # gs) (Fin lo, m, i) = scan_ranges (Fin c) gs (Fin hi, m', i')"
      using g(1,4) by (rule scan_step)
    from Cons.IH [OF part c top ne, of m' i'] obtain a inc' where
      "scan_ranges (Fin c) gs (Fin hi, m', i') = (Fin (top_of hi gs), Fin a, Fin inc')"
      "in_range c a inc' gs" "grid_floor hi c gs = a + of_int \<lfloor>(c - a) / inc'\<rfloor> * inc'" by blast
    then show ?thesis using False g step in_range_Cons
      by (intro exI [of _ a] exI [of _ inc']) (auto simp del: scan_ranges.simps)
  qed
qed simp

text \<open>Above all ranges the scan finds the top, whatever it keeps of the last range.\<close>

lemma scan_top: "partition_from lo rs \<Longrightarrow> \<exists>m' i'. scan_ranges (Fin c) rs (Fin lo, m, i) = (Fin (top_of lo rs), m', i')"
proof (induction rs arbitrary: lo m i)
  case (Cons g gs)
  from Cons.prems obtain hi inc where g: "gr_Max g = Fin hi" "gr_Min g = Fin lo" "lo < hi" "partition_from hi gs"
    by (rule partition_ConsE)
  obtain m' i' where "scan_ranges (Fin c) (g # gs) (Fin lo, m, i) = scan_ranges (Fin c) gs (Fin hi, m', i')"
    using g(1,3) by (rule scan_step)
  with Cons.IH [OF g(4), of m' i'] g show ?case by (simp del: scan_ranges.simps)
qed simp

definition rounds_down :: "string \<Rightarrow> bool" where
  "rounds_down mode \<longleftrightarrow> mode \<notin> {''true'', ''timesplit'', ''up''}"

lemma getCpmTarget_down:
  "rounds_down mode \<Longrightarrow> 0 < inc \<Longrightarrow>
   getCpmTarget coin (Fin c) (Fin a) (Fin inc) p mode = FormatFloat (Fin (a + of_int \<lfloor>(c - a) / inc\<rfloor> * inc)) p"
  by (simp add: getCpmTarget_def rounds_down_def Let_def add.commute del: FormatFloat.simps)

lemma price_bucket_grid_floor:
  assumes "partition_from 0 (pg_Ranges pg)" and "pg_Ranges pg \<noteq> []" and "pg_Precision pg = Some p"
    and "0 \<le> c" and "rounds_down mode"
  shows "price_bucket coin (Fin c) pg mode = Some (FormatFloat (Fin (grid_floor 0 c (pg_Ranges pg))) p)"
proof (cases "top_of 0 (pg_Ranges pg) < c")
  case True
  obtain m' i' where "scan_ranges (Fin c) (pg_Ranges pg) (Fin 0, Fin 0, Fin 0) = (Fin (top_of 0 (pg_Ranges pg)), m', i')"
    using scan_top [OF assms(1)] by metis
  with True assms(1,3) show ?thesis
    by (simp add: price_bucket_def zero_float64_def grid_floor_above del: FormatFloat.simps)
next
  case False
  with scan_grid [OF assms(1,4) _ assms(2), of "Fin 0" "Fin 0"] obtain a inc where
    "scan_ranges (Fin c) (pg_Ranges pg) (Fin 0, Fin 0, Fin 0) = (Fin (top_of 0 (pg_Ranges pg)), Fin a, Fin inc)"
    "in_range c a inc (pg_Ranges pg)"
    "grid_floor 0 c (pg_Ranges pg) = a + of_int \<lfloor>(c - a) / inc\<rfloor> * inc" by auto
  moreover from this(2) have "0 < inc" by (auto simp: in_range_def)
  ultimately show ?thesis using False assms(3,5)
    by (simp add: price_bucket_def zero_float64_def getCpmTarget_down del: FormatFloat.simps)
qed

lemma floor_grid_bounds:
  fixes a c inc :: rat
  assumes "a \<le> c" and "0 < inc"
  shows "a \<le> a + of_int \<lfloor>(c - a) / inc\<rfloor> * inc" and "a + of_int \<lfloor>(c - a) / inc\<rfloor> * inc \<le> c"
    and "c < a + of_int \<lfloor>(c - a) / inc\<rfloor> * inc + inc"
proof -
  let ?q = "(c - a) / inc"
  have "of_int \<lfloor>?q\<rfloor> * inc \<le> ?q * inc" using assms(2) by (intro mult_right_mono) simp_all
  then show "a + of_int \<lfloor>?q\<rfloor> * inc \<le> c" using assms(2) by simp
  have "?q * inc < (of_int \<lfloor>?q\<rfloor> + 1) * inc" using assms(2) floor_correct [of ?q] by (intro mult_strict_right_mono) simp_all
  moreover have "?q * inc = c - a" using assms(2) by simp
  ultimately show "c < a + of_int \<lfloor>?q\<rfloor> * inc + inc" by (simp add: distrib_right)
  have "0 \<le> ?q" using assms by simp
  then show "a \<le> a + of_int \<lfloor>?q\<rfloor> * inc" using assms(2) by simp
qed

lemma grid_floor_ge_le: "partition_from lo rs \<Longrightarrow> lo \<le> c \<Longrightarrow> lo \<le> grid_floor lo c rs \<and> grid_floor lo c rs \<le> c"
proof (induction rs arbitrary: lo)
  case (Cons g gs)
  from Cons.prems(1) obtain hi inc where g: "gr_Max g = Fin hi" "gr_Increment g = Fin inc" "lo < hi" "0 < inc"
    "partition_from hi gs" by (rule partition_ConsE)
  show ?case using g Cons.IH [OF g(5)] floor_grid_bounds [OF Cons.prems(2) g(4)] by (auto simp: not_less)
qed simp

lemma grid_floor_mono:
  "partition_from lo rs \<Longrightarrow> lo \<le> c \<Longrightarrow> c \<le> d \<Longrightarrow> grid_floor lo c rs \<le> grid_floor lo d rs"
proof (induction rs arbitrary: lo)
  case (Cons g gs)
  from Cons.prems(1) obtain hi inc where g: "gr_Max g = Fin hi" "gr_Increment g = Fin inc" "lo < hi" "0 < inc"
    "partition_from hi gs" by (rule partition_ConsE)
  have "of_int \<lfloor>(c - lo) / inc\<rfloor> * inc \<le> of_int \<lfloor>(d - lo) / inc\<rfloor> * inc"
    using Cons.prems(3) g(4) by (intro mult_right_mono) (simp_all add: floor_mono divide_right_mono)
  moreover have "lo + of_int \<lfloor>(c - lo) / inc\<rfloor> * inc \<le> grid_floor hi d gs"
    if "c \<le> hi" "hi \<le> d" using that floor_grid_bounds(2) [OF Cons.prems(2) g(4)] grid_floor_ge_le [OF g(5) that(2)]
    by linarith
  ultimately show ?case using g Cons.IH [OF g(5)] Cons.prems(3) by auto
qed simp

lemma defaulted_partition:
  "setDefaultsRanges_from (Fin lo) rs = (rs', m) \<Longrightarrow> validate_ranges (Fin lo) rs' = None \<Longrightarrow> finite_ranges rs \<Longrightarrow>
   partition_from lo rs'"
proof (induction rs arbitrary: lo rs' m)
  case (Cons g gs)
  from Cons.prems(3) obtain hi inc where g: "gr_Max g = Fin hi" "gr_Increment g = Fin inc" and fin: "finite_ranges gs"
    by (auto simp: finite_ranges_def elim!: is_finiteE)
  obtain gs' m' where rec: "setDefaultsRanges_from (Fin hi) gs = (gs', m')" by (cases "setDefaultsRanges_from (Fin hi) gs")
  obtain g' where rs': "rs' = g' # gs'" "gr_Max g' = Fin hi" "gr_Increment g' = Fin inc" "gr_Min g' = Fin lo"
  proof (rule that [of "g\<lparr>gr_Min := Fin lo\<rparr>"])
    have "g = g\<lparr>gr_Min := Fin lo\<rparr>" if "feq (gr_Min g) (Fin lo)"
      using that by (cases g; cases "gr_Min g") (simp_all add: feq_def)
    then show "rs' = g\<lparr>gr_Min := Fin lo\<rparr> # gs'" using Cons.prems(1) g rec by (auto split: if_splits)
  qed (simp_all add: g)
  with Cons.prems(2) have "lo < hi" "0 < inc" "validate_ranges (Fin hi) gs' = None"
    by (auto simp: zero_float64_def split: if_splits)
  with Cons.IH [OF rec _ fin] rs' show ?case by simp
qed simp

lemma setDefaults_ranges_ne: "pg_Ranges (fst (setDefaultsPriceGranularity pgo)) \<noteq> []"
proof -
  have "fst (setDefaultsRanges_from z rs) \<noteq> []" if "rs \<noteq> []" for z rs
    using that by (cases rs) (auto simp: split_def Let_def)
  then show ?thesis
    by (auto simp: setDefaultsPriceGranularity_def setDefaultsPriceGranularityRange_def split_def Let_def
        NewPriceGranularityDefault_def NewPriceGranularityFromLegacyID_def split: option.splits)
qed

lemma legacy_valid:
  "NewPriceGranularityFromLegacyID v = (pg, True) \<Longrightarrow> validatePriceGranularity pg = None \<and>
     finite_ranges (pg_Ranges pg) \<and> partition_from 0 (pg_Ranges pg)"
  by (auto simp: NewPriceGranularityFromLegacyID_def validatePriceGranularity_def gr_def finite_ranges_def
      zero_float64_def split: if_splits)

definition finite_granularity :: "PriceGranularity option \<Rightarrow> bool" where
  "finite_granularity pgo \<longleftrightarrow> (case pgo of None \<Rightarrow> True | Some pg \<Rightarrow> finite_ranges (pg_Ranges pg))"

text \<open>Defaults followed by a successful validation leave a non-empty partition from 0 and a precision of 0 to 15 digits.\<close>

lemma prepared_granularity:
  assumes fin: "finite_granularity pgo" and pg: "setDefaultsPriceGranularity pgo = (pg, m)"
    and ok: "validatePriceGranularity pg = None"
  obtains p where "pg_Precision pg = Some p" "0 \<le> p" "p \<le> 15" "pg_Ranges pg \<noteq> []" "partition_from 0 (pg_Ranges pg)"
proof -
  from ok obtain p where p: "pg_Precision pg = Some p" "0 \<le> p" "p \<le> 15" and val: "validate_ranges (Fin 0) (pg_Ranges pg) = None"
    by (auto simp: validatePriceGranularity_def zero_float64_def split: option.splits if_splits)
  have "partition_from 0 (pg_Ranges pg)"
  proof (cases "pgo = None \<or> pg_Ranges (the pgo) = []")
    case True
    then have "pg = NewPriceGranularityDefault" using pg by (auto simp: setDefaultsPriceGranularity_def split: option.splits)
    then show ?thesis by (simp add: NewPriceGranularityDefault_def NewPriceGranularityFromLegacyID_def gr_def)
  next
    case False
    then obtain g where g: "pgo = Some g" "pg_Ranges g \<noteq> []" by auto
    obtain m' where "setDefaultsRanges_from (Fin 0) (pg_Ranges g) = (pg_Ranges pg, m')"
      using pg g by (cases "setDefaultsRanges_from (Fin 0) (pg_Ranges g)")
        (auto simp: setDefaultsPriceGranularity_def setDefaultsPriceGranularityRange_def zero_float64_def Let_def)
    from defaulted_partition [OF this val] fin g show ?thesis by (simp add: finite_granularity_def)
  qed
  moreover have "pg_Ranges pg \<noteq> []" using setDefaults_ranges_ne [of pgo] pg by simp
  ultimately show thesis using that p by blast
qed

section \<open>Properties\<close>


text \<open>A request with two ranges that leave a gap and no precision: the defaults close the gap.\<close>

definition gap_granularity :: PriceGranularity where
  "gap_granularity = \<lparr>pg_Precision = None, pg_Ranges = [gr 0 5 (1/2), gr 7 10 1]\<rparr>"

definition repaired_granularity :: PriceGranularity where
  "repaired_granularity = \<lparr>pg_Precision = Some 2, pg_Ranges = [gr 0 5 (1/2), gr 5 10 1]\<rparr>"

lemma gap_repaired:
  "finite_granularity (Some gap_granularity)"
  "setDefaultsPriceGranularity (Some gap_granularity) = (repaired_granularity, True)"
  "validatePriceGranularity repaired_granularity = None"
  by (simp_all add: finite_granularity_def finite_ranges_def gap_granularity_def repaired_granularity_def gr_def
      setDefaultsPriceGranularity_def setDefaultsPriceGranularityRange_def validatePriceGranularity_def zero_float64_def)


text \<open>
  Buckets are monotone: under the same preparation, a higher price never gets a bucket with a smaller
  numeric value than a lower price gets.
\<close>

theorem price_bucket_monotone:
  assumes "finite_granularity pgo" and "setDefaultsPriceGranularity pgo = (pg, m)"
    and "validatePriceGranularity pg = None" and "0 \<le> c" and "c \<le> d" and "rounds_down mode"
    and "price_bucket coin (Fin c) pg mode = Some s" and "price_bucket coin (Fin d) pg mode = Some t"
  shows "decimal_value s \<le> decimal_value t"
proof -
  from prepared_granularity [OF assms(1-3)] obtain p where p: "pg_Precision pg = Some p" "0 \<le> p"
    and ne: "pg_Ranges pg \<noteq> []" and part: "partition_from 0 (pg_Ranges pg)" by blast
  have "s = FormatFloat (Fin (grid_floor 0 c (pg_Ranges pg))) p" "t = FormatFloat (Fin (grid_floor 0 d (pg_Ranges pg))) p"
    using price_bucket_grid_floor [OF part ne p(1) _ assms(6), of _ coin] assms(4,5,7,8) by simp_all
  then show ?thesis
    using decimal_value_FormatFloat_mono [OF _ grid_floor_mono [OF part assms(4,5)] p(2)]
      grid_floor_ge_le [OF part assms(4)] by (simp del: FormatFloat.simps)
qed

theorem price_bucket_monotone_witness:
  "decimal_value (the (price_bucket False (Fin (23/10)) repaired_granularity ''down'')) \<le>
   decimal_value (the (price_bucket False (Fin (67/10)) repaired_granularity ''down''))"
  by (rule price_bucket_monotone [OF gap_repaired, where c = "23/10" and d = "67/10" and mode = "''down''" and coin = False])
     (simp_all add: rounds_down_def price_bucket_def repaired_granularity_def split: prod.splits)

end
