(* ===== verification/Targeting.thy ===== *)
theory Targeting
  imports Granularity MultiBid
begin

text \<open>
  Ad server targeting: the multi-bid settings of a request (\<^verbatim>\<open>openrtb_ext/multibid.go\<close>,
  \<^verbatim>\<open>buildMultiBidMap\<close>), the rounded prices of the auction, deal tiers (\<^verbatim>\<open>applyDealSupport\<close>) and
  the targeting keys of \<^verbatim>\<open>exchange/targeting.go\<close>. The loops walk the bids of the auction and update
  them in the store; a nil \<^verbatim>\<open>Bid\<close> or a nil \<^verbatim>\<open>MaxBids\<close> that is dereferenced makes the result \<open>None\<close>.
\<close>

section \<open>Multi-bid settings\<close>

record ExtMultiBid =
  mb_Bidder :: string
  mb_Bidders :: "string list option"  \<comment> \<open>\<open>None\<close>: the nil slice\<close>
  mb_MaxBids :: "int option"
  mb_TargetBidderCodePrefix :: string

definition DefaultBidLimit :: int where "DefaultBidLimit = 1"
definition MaxBidLimit :: int where "MaxBidLimit = 9"

datatype multibid_error =
  MaxBidsNotDefined | MaxBidsBelowMinimum | MaxBidsAboveMaximum | AlreadyDefined string
| IgnoringBidders | IgnoringPrefix | BidderNotSpecified

fun take_new_bidders :: "string set \<Rightarrow> string list \<Rightarrow> string set \<times> string list \<times> multibid_error list" where
  "take_new_bidders seen [] = (seen, [], [])"
| "take_new_bidders seen (b # bs) =
     (if b \<in> seen then (let (s, xs, es) = take_new_bidders seen bs in (s, xs, AlreadyDefined b # es))
      else (let (s, xs, es) = take_new_bidders (insert b seen) bs in (s, b # xs, es)))"

text \<open>The local \<^verbatim>\<open>multiBidMap\<close> is the set of its keys.\<close>

definition addMultiBid :: "string set \<Rightarrow> ExtMultiBid \<Rightarrow> string set \<times> ExtMultiBid list \<times> multibid_error list" where
  "addMultiBid seen mb =
     (case mb_MaxBids mb of
        None \<Rightarrow> (seen, [], [MaxBidsNotDefined])
      | Some m \<Rightarrow>
          let e1 = (if m < DefaultBidLimit then [MaxBidsBelowMinimum] else []);
              m1 = (if m < DefaultBidLimit then DefaultBidLimit else m);
              e2 = (if m1 > MaxBidLimit then [MaxBidsAboveMaximum] else []);
              m2 = (if m1 > MaxBidLimit then MaxBidLimit else m1);
              mb = mb\<lparr>mb_MaxBids := Some m2\<rparr>
          in
            if mb_Bidder mb \<noteq> [] then
              (if mb_Bidder mb \<in> seen then (seen, [], e1 @ e2 @ [AlreadyDefined (mb_Bidder mb)])
               else (insert (mb_Bidder mb) seen, [mb\<lparr>mb_Bidders := None\<rparr>],
                     e1 @ e2 @ (if mb_Bidders mb \<noteq> None then [IgnoringBidders] else [])))
            else if opt_or (mb_Bidders mb) [] \<noteq> [] then
              (let (seen', bidders, e3) = take_new_bidders seen (opt_or (mb_Bidders mb) []);
                   e4 = (if mb_TargetBidderCodePrefix mb \<noteq> [] then [IgnoringPrefix] else [])
               in (seen',
                   (if bidders \<noteq> [] then [\<lparr>mb_Bidder = [], mb_Bidders = Some bidders, mb_MaxBids = Some m2,
                                           mb_TargetBidderCodePrefix = []\<rparr>] else []),
                   e1 @ e2 @ e3 @ e4))
            else (seen, [], e1 @ e2 @ [BidderNotSpecified]))"

fun addMultiBids :: "string set \<Rightarrow> ExtMultiBid list \<Rightarrow> ExtMultiBid list \<times> multibid_error list" where
  "addMultiBids seen [] = ([], [])"
| "addMultiBids seen (mb # mbs) =
     (let (seen', new, es) = addMultiBid seen mb; (rest, es') = addMultiBids seen' mbs in (new @ rest, es @ es'))"

definition ValidateAndBuildExtMultiBid :: "ExtMultiBid list option \<Rightarrow> ExtMultiBid list \<times> multibid_error list" where
  "ValidateAndBuildExtMultiBid multiBid = (case multiBid of None \<Rightarrow> ([], []) | Some mbs \<Rightarrow> addMultiBids {} mbs)"

text \<open>The table of known bidders, lower-case name to name, is the argument \<open>lookup\<close>.\<close>

definition NormalizeBidderName :: "(string, string) gomap \<Rightarrow> string \<Rightarrow> string option" where
  "NormalizeBidderName lookup name = map_of lookup (ToLower name)"

fun put_normalized :: "(string, string) gomap \<Rightarrow> ExtMultiBid \<Rightarrow> string list \<Rightarrow> (string, ExtMultiBid) gomap \<Rightarrow> (string, ExtMultiBid) gomap" where
  "put_normalized lookup mb [] m = m"
| "put_normalized lookup mb (b # bs) m =
     put_normalized lookup mb bs
       (case NormalizeBidderName lookup b of Some n \<Rightarrow> map_put n mb m | None \<Rightarrow> m)"

definition multibid_names :: "ExtMultiBid \<Rightarrow> string list" where
  "multibid_names mb = (if mb_Bidder mb \<noteq> [] then [mb_Bidder mb] else opt_or (mb_Bidders mb) [])"

definition buildMultiBidMap :: "(string, string) gomap \<Rightarrow> ExtMultiBid list option \<Rightarrow> (string, ExtMultiBid) gomap option" where
  "buildMultiBidMap lookup multiBid =
     (case multiBid of None \<Rightarrow> None
      | Some mbs \<Rightarrow> Some (fold (\<lambda>mb. put_normalized lookup mb (multibid_names mb)) mbs []))"

definition getMultiBidMeta :: "(string, ExtMultiBid) gomap option \<Rightarrow> string \<Rightarrow> (string \<times> int) option" where
  "getMultiBidMeta multiBidMap bidder =
     (case Option.bind multiBidMap (\<lambda>m. map_of m bidder) of
        Some mb \<Rightarrow> map_option (\<lambda>n. (mb_TargetBidderCodePrefix mb, n)) (mb_MaxBids mb)
      | None \<Rightarrow> Some ([], DefaultBidLimit))"

definition bidsToUpdate :: "(string, ExtMultiBid) gomap option \<Rightarrow> string \<Rightarrow> int option" where
  "bidsToUpdate multiBid bidder =
     (case Option.bind multiBid (\<lambda>m. map_of m bidder) of
        Some mb \<Rightarrow> if mb_TargetBidderCodePrefix mb \<noteq> [] then mb_MaxBids mb else Some DefaultBidLimit
      | None \<Rightarrow> Some DefaultBidLimit)"

section \<open>Targeting data\<close>

record targetData =
  priceGranularity :: PriceGranularity
  mediaTypePriceGranularity :: MediaTypePriceGranularity
  includeWinners :: bool
  includeBidderKeys :: bool
  includeCacheBids :: bool
  includeCacheVast :: bool
  includeFormat :: bool
  preferDeals :: bool
  alwaysIncludeDeals :: bool
  cacheHost :: string
  cachePath :: string
  prefix_of :: string

definition MaxKeyLength :: int where "MaxKeyLength = 20"
definition MinKeyLength :: int where "MinKeyLength = 12"
definition DefaultKeyPrefix :: string where "DefaultKeyPrefix = ''hb''"

datatype prefix_warning = TooShortTargetingPrefix | TooLongTargetingPrefix

definition getTargetDataPrefix :: "string \<Rightarrow> int option \<Rightarrow> string \<Rightarrow> string \<times> prefix_warning list" where
  "getTargetDataPrefix requestPrefix truncAttr accountPrefix =
     (let maxLength = (case truncAttr of None \<Rightarrow> MaxKeyLength | Some t \<Rightarrow> if t > MinKeyLength then t else MaxKeyLength) in
      if (case truncAttr of None \<Rightarrow> False | Some t \<Rightarrow> t < MinKeyLength)
      then (DefaultKeyPrefix, [TooShortTargetingPrefix])
      else
        let maxLength = maxLength - MinKeyLength;
            result = (if requestPrefix \<noteq> [] then requestPrefix
                      else if accountPrefix \<noteq> [] then accountPrefix else DefaultKeyPrefix)
        in if int (length result) > maxLength then (DefaultKeyPrefix, [TooLongTargetingPrefix]) else (result, []))"

text \<open>The arguments are the cache instructions of the request (bids, VAST), its targeting and the account's two settings.\<close>

definition zero_media :: MediaTypePriceGranularity where
  "zero_media = \<lparr>mt_Banner = None, mt_Video = None, mt_Native = None\<rparr>"

definition getExtTargetData ::
  "ExtRequestTargeting option \<Rightarrow> bool \<Rightarrow> bool \<Rightarrow> int option \<Rightarrow> string \<Rightarrow> targetData option \<times> prefix_warning list" where
  "getExtTargetData targeting cacheBids cacheVAST truncAttr accountPrefix =
     (case targeting of None \<Rightarrow> (None, [])
      | Some t \<Rightarrow>
          let (prefix, warning) = getTargetDataPrefix (et_Prefix t) truncAttr accountPrefix in
          (Some \<lparr>priceGranularity = opt_or (et_PriceGranularity t) \<lparr>pg_Precision = None, pg_Ranges = []\<rparr>,
                 mediaTypePriceGranularity = opt_or (et_MediaTypePriceGranularity t) zero_media,
                 includeWinners = opt_or (et_IncludeWinners t) False,
                 includeBidderKeys = opt_or (et_IncludeBidderKeys t) False,
                 includeCacheBids = cacheBids, includeCacheVast = cacheVAST,
                 includeFormat = et_IncludeFormat t, preferDeals = et_PreferDeals t,
                 alwaysIncludeDeals = et_AlwaysIncludeDeals t, cacheHost = [], cachePath = [],
                 prefix_of = prefix\<rparr>, warning))"

section \<open>Rounded prices\<close>

fun round_bids :: "(Bid \<Rightarrow> string option) \<Rightarrow> store \<Rightarrow> bidptr list \<Rightarrow> (bidptr, string) gomap \<Rightarrow> (bidptr, string) gomap option" where
  "round_bids bucket st [] m = Some m"
| "round_bids bucket st (p # ps) m =
     (case pb_Bid (st p) of None \<Rightarrow> None
      | Some b \<Rightarrow> (case bucket b of None \<Rightarrow> None | Some s \<Rightarrow> round_bids bucket st ps (map_put p s m)))"

definition setRoundedPrices :: "bool \<Rightarrow> ext_decoder \<Rightarrow> targetData \<Rightarrow> string \<Rightarrow> store \<Rightarrow> auction \<Rightarrow> auction option" where
  "setRoundedPrices coin decodeExt td rounding st a =
     map_option (\<lambda>m. a\<lparr>roundedPrices := m\<rparr>)
       (round_bids (\<lambda>b. GetPriceBucket coin decodeExt b (priceGranularity td) (mediaTypePriceGranularity td) rounding)
          st (imp_ptrs (allBidsByBidder a)) [])"

section \<open>Targeting keys\<close>

text \<open>Callers pass lengths that are not negative: a negative one would be an out-of-range slice.\<close>

definition BidderKey :: "string \<Rightarrow> string \<Rightarrow> string \<Rightarrow> nat \<Rightarrow> string" where
  "BidderKey key prefix bidder maxLength =
     (let s = prefix @ key @ ''_'' @ bidder in if maxLength \<noteq> 0 then take (min (length s) maxLength) s else s)"

definition TruncateKey :: "string \<Rightarrow> string \<Rightarrow> nat \<Rightarrow> string" where
  "TruncateKey key prefix maxLength =
     (let result = prefix @ key in if maxLength > 0 then take (min (length result) maxLength) result else result)"

definition key_limit :: "int option \<Rightarrow> nat" where
  "key_limit truncAttr = (case truncAttr of None \<Rightarrow> nat MaxKeyLength | Some t \<Rightarrow> if t > 0 then nat t else nat MaxKeyLength)"

definition addKeys :: "targetData \<Rightarrow> string \<Rightarrow> string \<Rightarrow> string \<Rightarrow> bool \<Rightarrow> int option \<Rightarrow> bool \<Rightarrow> (string, string) gomap \<Rightarrow> (string, string) gomap" where
  "addKeys td key value bidderName overallWinner truncAttr bidHasDeal keys =
     (let maxLength = key_limit truncAttr;
          keys = (if includeBidderKeys td \<or> (alwaysIncludeDeals td \<and> bidHasDeal)
                  then map_put (BidderKey key (prefix_of td) bidderName maxLength) value keys else keys)
      in if includeWinners td \<and> overallWinner then map_put (TruncateKey key (prefix_of td) maxLength) value keys else keys)"

definition makeHbSize :: "Bid \<Rightarrow> string" where
  "makeHbSize bid = (if Bid_W bid \<noteq> 0 \<and> Bid_H bid \<noteq> 0 then FormatInt (Bid_W bid) @ ''x'' @ FormatInt (Bid_H bid) else [])"

text \<open>The keys and values written for one bid, in the order of the code.\<close>

definition target_values :: "targetData \<Rightarrow> auction \<Rightarrow> string \<Rightarrow> (string, string) gomap \<Rightarrow> string \<Rightarrow> bidptr \<Rightarrow> PbsOrtbBid \<Rightarrow> Bid \<Rightarrow> (string \<times> string) list" where
  "target_values td a env categoryMapping code p pb b =
     (case map_of (roundedPrices a) p of Some cpm \<Rightarrow> [(''_pb'', cpm)] | None \<Rightarrow> [])
     @ [(''_bidder'', code)]
     @ (if makeHbSize b \<noteq> [] then [(''_size'', makeHbSize b)] else [])
     @ (case map_of (cacheIds a) p of Some cacheID \<Rightarrow> [(''_cache_id'', cacheID)] | None \<Rightarrow> [])
     @ (case map_of (vastCacheIds a) p of Some vastID \<Rightarrow> [(''_uuid'', vastID)] | None \<Rightarrow> [])
     @ (if includeFormat td then [(''_format'', pb_BidType pb)] else [])
     @ (if cacheHost td \<noteq> [] then [(''_cache_host'', cacheHost td)] else [])
     @ (if cachePath td \<noteq> [] then [(''_cache_path'', cachePath td)] else [])
     @ (if Bid_DealID b \<noteq> [] then [(''_deal'', Bid_DealID b)] else [])
     @ (if env \<noteq> [] then [(''_env'', env)] else [])
     @ (if categoryMapping \<noteq> [] then [(''_pb_cat_dur'', map_get [] categoryMapping (Bid_ID b))] else [])"

definition target_bid :: "targetData \<Rightarrow> auction \<Rightarrow> string \<Rightarrow> (string, string) gomap \<Rightarrow> int option \<Rightarrow> int \<Rightarrow> bool \<Rightarrow> string \<Rightarrow> bidptr \<Rightarrow> PbsOrtbBid \<Rightarrow> Bid \<Rightarrow> PbsOrtbBid" where
  "target_bid td a env categoryMapping truncAttr maxBids winner code p pb b =
     pb\<lparr>pb_TargetBidderCode := (if maxBids > DefaultBidLimit then code else pb_TargetBidderCode pb),
        pb_BidTargets :=
          fold (\<lambda>(k, v). addKeys td k v code winner truncAttr (Bid_DealID b \<noteq> []))
            (target_values td a env categoryMapping code p pb b) []\<rparr>"

text \<open>The bids of one bidder from index \<open>i\<close> on; the first bid keeps the bidder's name as its code.\<close>

fun target_bids :: "(bool \<Rightarrow> string \<Rightarrow> bidptr \<Rightarrow> PbsOrtbBid \<Rightarrow> Bid \<Rightarrow> PbsOrtbBid) \<Rightarrow> bidptr option \<Rightarrow> string \<Rightarrow> string \<Rightarrow> int \<Rightarrow> nat \<Rightarrow> bidptr list \<Rightarrow> store \<Rightarrow> store option" where
  "target_bids f overallWinner name codePrefix maxBids i [] st = Some st"
| "target_bids f overallWinner name codePrefix maxBids i (p # ps) st =
     (if int i = maxBids \<or> (i = 1 \<and> codePrefix = []) then Some st
      else case pb_Bid (st p) of None \<Rightarrow> None
        | Some b \<Rightarrow>
            let code = (if i > 0 then codePrefix @ FormatInt (int i + 1) else name) in
            target_bids f overallWinner name codePrefix maxBids (Suc i) ps
              (st(p := f (overallWinner = Some p) code p (st p) b)))"

fun target_bidders :: "(int \<Rightarrow> bool \<Rightarrow> string \<Rightarrow> bidptr \<Rightarrow> PbsOrtbBid \<Rightarrow> Bid \<Rightarrow> PbsOrtbBid) \<Rightarrow> (string, ExtMultiBid) gomap option \<Rightarrow> bidptr option \<Rightarrow> (string, bidptr list) gomap \<Rightarrow> store \<Rightarrow> store option" where
  "target_bidders f multiBidMap overallWinner [] st = Some st"
| "target_bidders f multiBidMap overallWinner ((name, ps) # rest) st =
     (case getMultiBidMeta multiBidMap name of None \<Rightarrow> None
      | Some (codePrefix, maxBids) \<Rightarrow>
          Option.bind (target_bids (f maxBids) overallWinner name codePrefix maxBids 0 ps st)
            (target_bidders f multiBidMap overallWinner rest))"

fun target_imps :: "(int \<Rightarrow> bool \<Rightarrow> string \<Rightarrow> bidptr \<Rightarrow> PbsOrtbBid \<Rightarrow> Bid \<Rightarrow> PbsOrtbBid) \<Rightarrow> (string, ExtMultiBid) gomap option \<Rightarrow> (string \<rightharpoonup> bidptr) \<Rightarrow> (string, (string, bidptr list) gomap) gomap \<Rightarrow> store \<Rightarrow> store option" where
  "target_imps f multiBidMap winners [] st = Some st"
| "target_imps f multiBidMap winners ((impId, bidders) # rest) st =
     Option.bind (target_bidders f multiBidMap (winners impId) bidders st) (target_imps f multiBidMap winners rest)"

definition setTargeting :: "targetData \<Rightarrow> auction \<Rightarrow> string \<Rightarrow> (string, string) gomap \<Rightarrow> int option \<Rightarrow> (string, ExtMultiBid) gomap option \<Rightarrow> store \<Rightarrow> store option" where
  "setTargeting td a env categoryMapping truncAttr multiBidMap st =
     target_imps (target_bid td a env categoryMapping truncAttr) multiBidMap (winningBids a) (allBidsByBidder a) st"

section \<open>Deal tiers\<close>

record DealTier =
  dt_Prefix :: string
  dt_MinDealTier :: int

definition zero_DealTier :: DealTier where "zero_DealTier = \<lparr>dt_Prefix = [], dt_MinDealTier = 0\<rparr>"

text \<open>
  The bidders of \<^verbatim>\<open>imp.ext.prebid.bidder\<close> with their optional deal tier, as the JSON decoder returns
  them, in map order; \<open>None\<close> when the document does not decode.
\<close>

fun read_tiers :: "(string, string) gomap \<Rightarrow> (string, DealTier option) gomap \<Rightarrow> (string, DealTier) gomap \<Rightarrow> (string, DealTier) gomap" where
  "read_tiers lookup [] m = m"
| "read_tiers lookup ((bidder, None) # rest) m = read_tiers lookup rest m"
| "read_tiers lookup ((bidder, Some t) # rest) m =
     read_tiers lookup rest (map_put (opt_or (NormalizeBidderName lookup bidder) bidder) t m)"

definition ReadDealTiersFromImp ::
  "(string \<Rightarrow> (string, DealTier option) gomap option) \<Rightarrow> (string, string) gomap \<Rightarrow> string \<Rightarrow> (string, DealTier) gomap option" where
  "ReadDealTiersFromImp decodeImpExt lookup impExt =
     (if impExt = [] then Some [] else map_option (\<lambda>bs. read_tiers lookup bs []) (decodeImpExt impExt))"

fun getDealTiers :: "(string \<Rightarrow> (string, DealTier option) gomap option) \<Rightarrow> (string, string) gomap \<Rightarrow> (string \<times> string) list \<Rightarrow> (string, (string, DealTier) gomap) gomap \<Rightarrow> (string, (string, DealTier) gomap) gomap" where
  "getDealTiers decodeImpExt lookup [] m = m"
| "getDealTiers decodeImpExt lookup ((impID, impExt) # imps) m =
     getDealTiers decodeImpExt lookup imps
       (case ReadDealTiersFromImp decodeImpExt lookup impExt of None \<Rightarrow> m | Some t \<Rightarrow> map_put impID t m)"

definition validateDealTier :: "DealTier \<Rightarrow> bool" where
  "validateDealTier t \<longleftrightarrow> dt_Prefix t \<noteq> [] \<and> dt_MinDealTier t > 0"

text \<open>\<^verbatim>\<open>strings.SplitAfterN(s, "_", 2)\<close> with its first part replaced: what follows the first underscore stays.\<close>

definition after_underscore :: "string \<Rightarrow> string" where
  "after_underscore s = tl (dropWhile (\<lambda>c. c \<noteq> CHR ''_'') s)"

definition updateHbPbCatDur :: "PbsOrtbBid \<Rightarrow> Bid \<Rightarrow> DealTier \<Rightarrow> (string, string) gomap \<Rightarrow> PbsOrtbBid \<times> (string, string) gomap" where
  "updateHbPbCatDur pb b t bidCategory =
     (if pb_DealPriority pb \<ge> dt_MinDealTier t then
        (pb\<lparr>pb_DealTierSatisfied := True\<rparr>,
         (case map_of bidCategory (Bid_ID b) of None \<Rightarrow> bidCategory
          | Some old \<Rightarrow>
              map_put (Bid_ID b) (dt_Prefix t @ FormatInt (pb_DealPriority pb) @ ''_'' @ after_underscore old) bidCategory))
      else (pb, bidCategory))"

type_synonym deal_state = "store \<times> (string, string) gomap \<times> (string \<times> string) list"

fun deal_bids :: "string \<Rightarrow> string \<Rightarrow> DealTier \<Rightarrow> int \<Rightarrow> nat \<Rightarrow> bidptr list \<Rightarrow> deal_state \<Rightarrow> deal_state option" where
  "deal_bids impID bidder t maxBid i [] s = Some s"
| "deal_bids impID bidder t maxBid i (p # ps) (st, cat, errs) =
     (if int i = maxBid then Some (st, cat, errs)
      else if pb_DealPriority (st p) > 0 then
        (if validateDealTier t then
           (if pb_DealPriority (st p) \<ge> dt_MinDealTier t \<and> pb_Bid (st p) = None then None
            else
              let (pb, cat') = updateHbPbCatDur (st p) (opt_or (pb_Bid (st p)) zero_Bid) t cat in
              deal_bids impID bidder t maxBid (Suc i) ps (st(p := pb), cat', errs))
         else deal_bids impID bidder t maxBid (Suc i) ps (st, cat, errs @ [(bidder, impID)]))
      else deal_bids impID bidder t maxBid (Suc i) ps (st, cat, errs))"

fun deal_bidders :: "(string, string) gomap \<Rightarrow> (string, ExtMultiBid) gomap option \<Rightarrow> (string, DealTier) gomap \<Rightarrow> string \<Rightarrow> (string, bidptr list) gomap \<Rightarrow> deal_state \<Rightarrow> deal_state option" where
  "deal_bidders lookup multiBid impDeal impID [] s = Some s"
| "deal_bidders lookup multiBid impDeal impID ((bidder, ps) # rest) s =
     (let norm = opt_or (NormalizeBidderName lookup bidder) bidder in
      case bidsToUpdate multiBid norm of None \<Rightarrow> None
      | Some maxBid \<Rightarrow>
          Option.bind (deal_bids impID bidder (map_get zero_DealTier impDeal norm) maxBid 0 ps s)
            (deal_bidders lookup multiBid impDeal impID rest))"

fun deal_imps :: "(string, string) gomap \<Rightarrow> (string, ExtMultiBid) gomap option \<Rightarrow> (string, (string, DealTier) gomap) gomap \<Rightarrow> (string, (string, bidptr list) gomap) gomap \<Rightarrow> deal_state \<Rightarrow> deal_state option" where
  "deal_imps lookup multiBid impDealMap [] s = Some s"
| "deal_imps lookup multiBid impDealMap ((impID, bidders) # rest) s =
     Option.bind (deal_bidders lookup multiBid (map_get [] impDealMap impID) impID bidders s)
       (deal_imps lookup multiBid impDealMap rest)"

definition applyDealSupport ::
  "(string \<Rightarrow> (string, DealTier option) gomap option) \<Rightarrow> (string, string) gomap \<Rightarrow> (string \<times> string) list \<Rightarrow> auction \<Rightarrow>
   (string, ExtMultiBid) gomap option \<Rightarrow> store \<Rightarrow> (string, string) gomap \<Rightarrow> deal_state option" where
  "applyDealSupport decodeImpExt lookup imps a multiBid st bidCategory =
     deal_imps lookup multiBid (getDealTiers decodeImpExt lookup imps []) (allBidsByBidder a) (st, bidCategory, [])"

section \<open>Validated multi-bid settings\<close>

definition valid_multibid :: "ExtMultiBid \<Rightarrow> bool" where
  "valid_multibid mb \<longleftrightarrow>
     (case mb_MaxBids mb of None \<Rightarrow> False | Some n \<Rightarrow> DefaultBidLimit \<le> n \<and> n \<le> MaxBidLimit) \<and>
     (mb_Bidder mb = [] \<longrightarrow> mb_TargetBidderCodePrefix mb = [])"

lemma take_new_bidders_spec:
  "take_new_bidders seen bs = (seen', xs, es) \<Longrightarrow>
     distinct xs \<and> set xs \<inter> seen = {} \<and> seen' = seen \<union> set xs \<and> set xs \<subseteq> set bs"
proof (induction bs arbitrary: seen seen' xs es)
  case (Cons b bs)
  show ?case
  proof (cases "b \<in> seen")
    case True
    with Cons.prems obtain es' where "take_new_bidders seen bs = (seen', xs, es')"
      by (auto split: prod.splits)
    with Cons.IH show ?thesis by fastforce
  next
    case False
    with Cons.prems obtain xs' where "take_new_bidders (insert b seen) bs = (seen', xs', es)" "xs = b # xs'"
      by (auto split: prod.splits)
    with Cons.IH [OF this(1)] False show ?thesis by auto
  qed
qed simp

lemma addMultiBid_spec:
  assumes "addMultiBid seen mb = (seen', new, es)"
  shows "\<forall>v \<in> set new. valid_multibid v" and "distinct (concat (map multibid_names new))"
    and "set (concat (map multibid_names new)) \<inter> seen = {}"
    and "seen' = seen \<union> set (concat (map multibid_names new))"
  using assms
  by (auto simp: addMultiBid_def Let_def valid_multibid_def multibid_names_def DefaultBidLimit_def MaxBidLimit_def
      dest!: take_new_bidders_spec split: option.splits if_splits prod.splits)

lemma addMultiBids_spec:
  "addMultiBids seen mbs = (vs, es) \<Longrightarrow> (\<forall>v \<in> set vs. valid_multibid v) \<and>
     distinct (concat (map multibid_names vs)) \<and> set (concat (map multibid_names vs)) \<inter> seen = {}"
proof (induction mbs arbitrary: seen vs es)
  case (Cons mb mbs)
  obtain seen' new es1 where one: "addMultiBid seen mb = (seen', new, es1)" by (cases "addMultiBid seen mb")
  obtain rest es2 where rec: "addMultiBids seen' mbs = (rest, es2)" by (cases "addMultiBids seen' mbs")
  have vs: "vs = new @ rest" using Cons.prems one rec by simp
  show ?case using addMultiBid_spec [OF one] Cons.IH [OF rec] vs by auto
qed simp

lemma put_normalized_values:
  "map_of (put_normalized lookup mb bs m) b = Some v \<Longrightarrow> v = mb \<or> map_of m b = Some v"
  by (induction lookup mb bs m rule: put_normalized.induct) (auto split: option.splits if_splits)

lemma buildMultiBidMap_values:
  "map_of (fold (\<lambda>mb. put_normalized lookup mb (multibid_names mb)) mbs m) b = Some v \<Longrightarrow>
     v \<in> set mbs \<or> map_of m b = Some v"
proof (induction mbs arbitrary: m)
  case (Cons mb mbs)
  then show ?case using put_normalized_values [of lookup mb "multibid_names mb" m b v] by fastforce
qed simp

text \<open>
  Multi-bid settings: the entries that \<^verbatim>\<open>ValidateAndBuildExtMultiBid\<close> returns have between 1 and 9 bids,
  name every bidder at most once over all entries, and carry a code prefix only for a single bidder. The map built
  from them for the auction gives every bidder, known or not, a limit of 1 to 9 and never a nil \<^verbatim>\<open>MaxBids\<close>.
\<close>

theorem multibid_settings_valid:
  assumes "ValidateAndBuildExtMultiBid mbs = (vs, es)"
  shows "(\<forall>v \<in> set vs. valid_multibid v) \<and> distinct (concat (map multibid_names vs)) \<and>
     (\<exists>codePrefix n. getMultiBidMeta (buildMultiBidMap lookup (Some vs)) bidder = Some (codePrefix, n) \<and> 1 \<le> n \<and> n \<le> 9)"
proof -
  have vs: "\<forall>v \<in> set vs. valid_multibid v" "distinct (concat (map multibid_names vs))"
    using assms addMultiBids_spec by (auto simp: ValidateAndBuildExtMultiBid_def split: option.splits)
  moreover have "\<exists>codePrefix n. getMultiBidMeta (buildMultiBidMap lookup (Some vs)) bidder = Some (codePrefix, n) \<and> 1 \<le> n \<and> n \<le> 9"
  proof (cases "map_of (the (buildMultiBidMap lookup (Some vs))) bidder")
    case None
    then show ?thesis by (simp add: getMultiBidMeta_def buildMultiBidMap_def DefaultBidLimit_def)
  next
    case (Some v)
    then have "v \<in> set vs" using buildMultiBidMap_values [of lookup vs "[]" bidder v] by (simp add: buildMultiBidMap_def)
    with vs have "valid_multibid v" by blast
    with Some show ?thesis
      by (auto simp: getMultiBidMeta_def buildMultiBidMap_def valid_multibid_def DefaultBidLimit_def MaxBidLimit_def
          split: option.splits)
  qed
  ultimately show ?thesis by blast
qed

definition sample_multibids :: "ExtMultiBid list" where
  "sample_multibids =
     [\<lparr>mb_Bidder = ''a'', mb_Bidders = None, mb_MaxBids = Some 12, mb_TargetBidderCodePrefix = ''p''\<rparr>,
      \<lparr>mb_Bidder = [], mb_Bidders = Some [''a'', ''b''], mb_MaxBids = Some 0, mb_TargetBidderCodePrefix = ''q''\<rparr>]"

definition validated_multibids :: "ExtMultiBid list" where
  "validated_multibids =
     [\<lparr>mb_Bidder = ''a'', mb_Bidders = None, mb_MaxBids = Some 9, mb_TargetBidderCodePrefix = ''p''\<rparr>,
      \<lparr>mb_Bidder = [], mb_Bidders = Some [''b''], mb_MaxBids = Some 1, mb_TargetBidderCodePrefix = []\<rparr>]"

theorem multibid_settings_valid_witness:
  "list_all valid_multibid validated_multibids \<and> distinct (concat (map multibid_names validated_multibids)) \<and>
     (\<exists>codePrefix n. getMultiBidMeta (buildMultiBidMap [(''a'', ''a'')] (Some validated_multibids)) ''a'' = Some (codePrefix, n)
        \<and> 1 \<le> n \<and> n \<le> 9)"
  unfolding list_all_iff
  by (rule multibid_settings_valid [of "Some sample_multibids" _
        "[MaxBidsAboveMaximum, MaxBidsBelowMinimum, AlreadyDefined ''a'', IgnoringPrefix]"])
     (simp add: ValidateAndBuildExtMultiBid_def addMultiBid_def sample_multibids_def validated_multibids_def
        DefaultBidLimit_def MaxBidLimit_def Let_def)

section \<open>The targeting loops as a list of updates\<close>

type_synonym job = "bidptr \<times> (PbsOrtbBid \<Rightarrow> Bid \<Rightarrow> PbsOrtbBid)"

fun run_jobs :: "job list \<Rightarrow> store \<Rightarrow> store option" where
  "run_jobs [] st = Some st"
| "run_jobs ((p, g) # js) st =
     (case pb_Bid (st p) of None \<Rightarrow> None | Some b \<Rightarrow> run_jobs js (st(p := g (st p) b)))"

lemma run_jobs_append: "run_jobs (js @ ks) st = Option.bind (run_jobs js st) (run_jobs ks)"
  by (induction js arbitrary: st) (auto split: option.splits)

lemma run_jobs_distinct:
  "distinct (map fst js) \<Longrightarrow> (\<forall>p \<in> fst ` set js. has_bid st p) \<Longrightarrow>
   run_jobs js st = Some (\<lambda>q. case map_of js q of None \<Rightarrow> st q | Some g \<Rightarrow> g (st q) (the (pb_Bid (st q))))"
proof (induction js arbitrary: st)
  case (Cons j js)
  obtain p g where j: "j = (p, g)" by (cases j)
  with Cons.prems obtain b where b: "pb_Bid (st p) = Some b" by (auto simp: has_bid_def)
  have "\<forall>q \<in> fst ` set js. has_bid (st(p := g (st p) b)) q"
    using Cons.prems j by (auto simp: has_bid_def)
  moreover have "map_of js p = None" using Cons.prems j by (auto simp: map_of_eq_None_iff)
  ultimately have "run_jobs (j # js) st = Some (\<lambda>q. case map_of js q of None \<Rightarrow> (st(p := g (st p) b)) q
      | Some h \<Rightarrow> h ((st(p := g (st p) b)) q) (the (pb_Bid ((st(p := g (st p) b)) q))))"
    using Cons.IH [of "st(p := g (st p) b)"] Cons.prems j b by (simp add: fun_upd_def)
  with \<open>map_of js p = None\<close> j b show ?case by (auto simp: fun_eq_iff split: option.splits)
qed simp

text \<open>How many of the \<open>n\<close> bids of a bidder get targeting.\<close>

definition target_count :: "string \<Rightarrow> int \<Rightarrow> nat \<Rightarrow> nat" where
  "target_count codePrefix maxBids n =
     (let m = (if codePrefix = [] then min 1 n else n) in if maxBids < 0 then m else min (nat maxBids) m)"

definition bid_code :: "string \<Rightarrow> string \<Rightarrow> nat \<Rightarrow> string" where
  "bid_code name codePrefix i = (if i > 0 then codePrefix @ FormatInt (int i + 1) else name)"

fun targeted :: "string \<Rightarrow> int \<Rightarrow> nat \<Rightarrow> bidptr list \<Rightarrow> (nat \<times> bidptr) list" where
  "targeted codePrefix maxBids i [] = []"
| "targeted codePrefix maxBids i (p # ps) =
     (if int i = maxBids \<or> (i = 1 \<and> codePrefix = []) then [] else (i, p) # targeted codePrefix maxBids (Suc i) ps)"

definition bidder_jobs where
  "bidder_jobs f w name codePrefix maxBids ps =
     map (\<lambda>(i, p). (p, f maxBids (w = Some p) (bid_code name codePrefix i) p)) (targeted codePrefix maxBids 0 ps)"

definition meta_jobs where
  "meta_jobs f mbm w name ps = (case getMultiBidMeta mbm name of None \<Rightarrow> [] | Some (cp, mx) \<Rightarrow> bidder_jobs f w name cp mx ps)"

definition imps_jobs where
  "imps_jobs f mbm winners m =
     concat (map (\<lambda>(imp, bs). concat (map (\<lambda>(name, ps). meta_jobs f mbm (winners imp) name ps) bs)) m)"

lemma targeted_zip:
  "targeted cp mx i ps = zip [i..<i + length (targeted cp mx i ps)] (take (length (targeted cp mx i ps)) ps)"
proof (induction ps arbitrary: i)
  case (Cons p ps)
  from Cons.IH [of "Suc i"] show ?case by (auto simp: upt_conv_Cons simp del: upt_Suc)
qed simp

lemma length_targeted_from:
  "i > 0 \<Longrightarrow> length (targeted cp mx i ps) =
     (if cp = [] \<and> i = 1 then 0 else if mx < int i then length ps else min (nat mx - i) (length ps))"
proof (induction ps arbitrary: i)
  case (Cons p ps)
  have "Suc (nat mx - Suc i) = nat mx - i" if "\<not> mx < int i" "int i \<noteq> mx" using that by arith
  with Cons.IH [of "Suc i"] Cons.prems show ?case by (auto simp: min_def)
qed simp

lemma length_targeted: "length (targeted cp mx 0 ps) = target_count cp mx (length ps)"
  by (cases ps) (auto simp: length_targeted_from target_count_def Let_def min_def)

lemma targeted_0:
  "targeted cp mx 0 ps = zip [0..<target_count cp mx (length ps)] (take (target_count cp mx (length ps)) ps)"
  using targeted_zip [of cp mx 0 ps] by (simp add: length_targeted)

lemma target_bids_jobs:
  "target_bids f w name cp mx i ps st =
     run_jobs (map (\<lambda>(i, p). (p, f (w = Some p) (bid_code name cp i) p)) (targeted cp mx i ps)) st"
proof (induction ps arbitrary: i st)
  case (Cons p ps)
  then show ?case by (auto simp: bid_code_def Let_def fun_upd_def split: option.splits)
qed simp

lemma target_bidders_jobs:
  "(\<forall>name \<in> fst ` set bs. getMultiBidMeta mbm name \<noteq> None) \<Longrightarrow>
   target_bidders f mbm w bs st = run_jobs (concat (map (\<lambda>(name, ps). meta_jobs f mbm w name ps) bs)) st"
proof (induction bs arbitrary: st)
  case (Cons e bs)
  obtain name ps where e: "e = (name, ps)" by (cases e)
  with Cons.prems obtain cp mx where m: "getMultiBidMeta mbm name = Some (cp, mx)" by auto
  have "target_bidders f mbm w bs = run_jobs (concat (map (\<lambda>(name, ps). meta_jobs f mbm w name ps) bs))"
    using Cons by auto
  then show ?case
    by (simp add: e m meta_jobs_def bidder_jobs_def target_bids_jobs run_jobs_append)
qed simp

lemma target_imps_jobs:
  "(\<forall>(imp, bs) \<in> set m. \<forall>name \<in> fst ` set bs. getMultiBidMeta mbm name \<noteq> None) \<Longrightarrow>
   target_imps f mbm winners m st = run_jobs (imps_jobs f mbm winners m) st"
proof (induction m arbitrary: st)
  case (Cons e m)
  obtain imp bs where e: "e = (imp, bs)" by (cases e)
  have "target_imps f mbm winners m = run_jobs (imps_jobs f mbm winners m)" using Cons by auto
  then show ?case using Cons.prems
    by (simp add: e imps_jobs_def run_jobs_append target_bidders_jobs)
qed (simp add: imps_jobs_def)

lemma meta_jobs_ptrs: "\<exists>k. map fst (meta_jobs f mbm w name ps) = take k ps"
proof (cases "getMultiBidMeta mbm name")
  case None
  then show ?thesis by (intro exI [of _ 0]) (simp add: meta_jobs_def)
next
  case (Some c)
  obtain cp mx where c: "c = (cp, mx)" by (cases c)
  have "map fst (bidder_jobs f w name cp mx ps) = map snd (targeted cp mx 0 ps)"
    by (simp add: bidder_jobs_def split_def)
  also have "\<dots> = take (target_count cp mx (length ps)) ps"
    by (simp add: targeted_0 map_snd_zip_take min_def)
  finally show ?thesis using Some c by (auto simp: meta_jobs_def)
qed

lemma mset_subset_concat: "(\<And>x. x \<in> set xs \<Longrightarrow> mset (f x) \<subseteq># mset (g x)) \<Longrightarrow> mset (concat (map f xs)) \<subseteq># mset (concat (map g xs))"
  by (induction xs) (auto intro: subset_mset.add_mono)

lemma imps_jobs_ptrs: "mset (map fst (imps_jobs f mbm winners m)) \<subseteq># mset (imp_ptrs m)"
proof -
  have one: "mset (map fst (meta_jobs f mbm w name ps)) \<subseteq># mset ps" for w name ps
    using meta_jobs_ptrs [of f mbm w name ps] by (metis append_take_drop_id mset_append mset_subset_eq_add_left)
  have two: "mset (map fst (concat (map (\<lambda>(name, ps). meta_jobs f mbm w name ps) bs))) \<subseteq># mset (bidder_ptrs bs)" for w bs
    unfolding bidder_ptrs_def map_concat map_map by (rule mset_subset_concat) (use one in \<open>auto\<close>)
  show ?thesis
    unfolding imps_jobs_def imp_ptrs_def map_concat map_map by (rule mset_subset_concat) (use two in \<open>auto\<close>)
qed

lemma distinct_imps_jobs: "distinct (imp_ptrs m) \<Longrightarrow> distinct (map fst (imps_jobs f mbm winners m))"
proof -
  assume d: "distinct (imp_ptrs m)"
  obtain cs where "mset (imp_ptrs m) = mset (map fst (imps_jobs f mbm winners m) @ cs)"
    using imps_jobs_ptrs [of f mbm winners m] by (metis ex_mset mset_append subset_mset.le_iff_add)
  then have "distinct (map fst (imps_jobs f mbm winners m) @ cs)" using d by (metis mset_eq_imp_distinct_iff)
  then show ?thesis by simp
qed

lemma set_imps_jobs_ptrs: "fst ` set (imps_jobs f mbm winners m) \<subseteq> set (imp_ptrs m)"
  using set_mset_mono [OF imps_jobs_ptrs, of f mbm winners m] by simp

lemma imps_jobs_mem:
  assumes "(imp, bs) \<in> set m" and "(name, ps) \<in> set bs" and "getMultiBidMeta mbm name = Some (cp, mx)"
    and "i < target_count cp mx (length ps)"
  shows "(ps ! i, f mx (winners imp = Some (ps ! i)) (bid_code name cp i) (ps ! i)) \<in> set (imps_jobs f mbm winners m)"
proof -
  have "i < length ps" using assms(4) by (auto simp: target_count_def Let_def split: if_splits)
  then have "(i, ps ! i) \<in> set (targeted cp mx 0 ps)"
    using assms(4) by (auto simp: targeted_0 in_set_zip intro!: exI [of _ i])
  then have "(ps ! i, f mx (winners imp = Some (ps ! i)) (bid_code name cp i) (ps ! i)) \<in> set (meta_jobs f mbm (winners imp) name ps)"
    using assms(3) by (force simp: meta_jobs_def bidder_jobs_def)
  then show ?thesis using assms(1,2) by (force simp: imps_jobs_def)
qed

lemma imps_jobs_conv:
  assumes "(p, g) \<in> set (imps_jobs f mbm winners m)"
  obtains imp bs name ps cp mx i where "(imp, bs) \<in> set m" "(name, ps) \<in> set bs"
    "getMultiBidMeta mbm name = Some (cp, mx)" "i < target_count cp mx (length ps)" "p = ps ! i" "i < length ps"
    "g = f mx (winners imp = Some p) (bid_code name cp i) p"
proof -
  from assms obtain imp bs name ps where m: "(imp, bs) \<in> set m" "(name, ps) \<in> set bs"
    "(p, g) \<in> set (meta_jobs f mbm (winners imp) name ps)"
    by (auto simp: imps_jobs_def)
  from m(3) obtain cp mx where c: "getMultiBidMeta mbm name = Some (cp, mx)"
    and "(p, g) \<in> set (bidder_jobs f (winners imp) name cp mx ps)"
    by (force simp: meta_jobs_def split: option.splits)
  then obtain i where "(i, p) \<in> set (targeted cp mx 0 ps)" "g = f mx (winners imp = Some p) (bid_code name cp i) p"
    by (auto simp: bidder_jobs_def)
  moreover from this(1) have "i < target_count cp mx (length ps)" "p = ps ! i" "i < length ps"
    by (auto simp: targeted_0 in_set_zip)
  ultimately show thesis using that m c by blast
qed

text \<open>
  C30. Targeting: when the bids of the auction are present and pairwise different and every bidder's multi-bid limit is
  defined, \<^verbatim>\<open>setTargeting\<close> returns. Of a bidder's list of bids for an impression, exactly the first
  \<open>target_count\<close> get their targeting: the first under the bidder's own name, the i-th further one under the
  configured prefix with its position. Whether a bid is marked as winner depends on the auction's winner of that
  impression only, and no other bid is changed.
\<close>

theorem setTargeting_pointwise:
  assumes dist: "distinct (imp_ptrs (allBidsByBidder a))"
    and has: "\<forall>p \<in> set (imp_ptrs (allBidsByBidder a)). has_bid st p"
    and meta: "\<forall>(imp, bs) \<in> set (allBidsByBidder a). \<forall>name \<in> fst ` set bs. getMultiBidMeta mbm name \<noteq> None"
  shows "\<exists>st'. setTargeting td a env cat trunc mbm st = Some st' \<and>
     (\<forall>imp bs name ps cp mx i. (imp, bs) \<in> set (allBidsByBidder a) \<and> (name, ps) \<in> set bs \<and>
        getMultiBidMeta mbm name = Some (cp, mx) \<and> i < target_count cp mx (length ps) \<longrightarrow>
        st' (ps ! i) = target_bid td a env cat trunc mx (winningBids a imp = Some (ps ! i)) (bid_code name cp i) (ps ! i)
                         (st (ps ! i)) (the (pb_Bid (st (ps ! i))))) \<and>
     (\<forall>q. (\<nexists>imp bs name ps cp mx i. (imp, bs) \<in> set (allBidsByBidder a) \<and> (name, ps) \<in> set bs \<and>
        getMultiBidMeta mbm name = Some (cp, mx) \<and> i < target_count cp mx (length ps) \<and> q = ps ! i) \<longrightarrow> st' q = st q)"
proof -
  let ?js = "imps_jobs (target_bid td a env cat trunc) mbm (winningBids a) (allBidsByBidder a)"
  let ?st' = "\<lambda>q. case map_of ?js q of None \<Rightarrow> st q | Some g \<Rightarrow> g (st q) (the (pb_Bid (st q)))"
  have d: "distinct (map fst ?js)" using dist by (rule distinct_imps_jobs)
  have run: "setTargeting td a env cat trunc mbm st = Some ?st'"
    using run_jobs_distinct [OF d] has set_imps_jobs_ptrs [of "target_bid td a env cat trunc" mbm "winningBids a" "allBidsByBidder a"]
      target_imps_jobs [OF meta] by (auto simp: setTargeting_def)
  have hit: "?st' (ps ! i) = target_bid td a env cat trunc mx (winningBids a imp = Some (ps ! i)) (bid_code name cp i) (ps ! i)
      (st (ps ! i)) (the (pb_Bid (st (ps ! i))))"
    if "(imp, bs) \<in> set (allBidsByBidder a)" "(name, ps) \<in> set bs" "getMultiBidMeta mbm name = Some (cp, mx)"
      "i < target_count cp mx (length ps)" for imp bs name ps cp mx i
    using map_of_is_SomeI [OF d imps_jobs_mem [OF that]] by simp
  have miss: "?st' q = st q" if "\<nexists>imp bs name ps cp mx i. (imp, bs) \<in> set (allBidsByBidder a) \<and> (name, ps) \<in> set bs \<and>
      getMultiBidMeta mbm name = Some (cp, mx) \<and> i < target_count cp mx (length ps) \<and> q = ps ! i" for q
  proof (cases "map_of ?js q")
    case (Some g)
    from imps_jobs_conv [OF map_of_SomeD [OF Some]] that show ?thesis by metis
  qed simp
  show ?thesis using run hit miss by blast
qed

text \<open>An auction with one winner and one further bid of the same bidder, which has a multi-bid limit of two.\<close>

definition sample_auction :: auction where
  "sample_auction = \<lparr>winningBids = [''i'' \<mapsto> 0], allBidsByBidder = [(''i'', [(''a'', [0, 1])])],
     roundedPrices = [(0, ''1.50''), (1, ''1.00'')], cacheIds = [], vastCacheIds = [], seatWeights = [], seatLatency = []\<rparr>"

definition sample_targeting :: targetData where
  "sample_targeting = \<lparr>priceGranularity = NewPriceGranularityDefault, mediaTypePriceGranularity = zero_media,
     includeWinners = True, includeBidderKeys = False, includeCacheBids = False, includeCacheVast = False,
     includeFormat = False, preferDeals = False, alwaysIncludeDeals = False, cacheHost = [], cachePath = [],
     prefix_of = ''hb''\<rparr>"

definition sample_store :: store where
  "sample_store = store_of [zero_Bid\<lparr>Bid_ID := ''x'', Bid_ImpID := ''i''\<rparr>, zero_Bid\<lparr>Bid_ID := ''y'', Bid_ImpID := ''i''\<rparr>]"

definition sample_map :: "(string, ExtMultiBid) gomap option" where
  "sample_map = Some [(''a'', \<lparr>mb_Bidder = ''a'', mb_Bidders = None, mb_MaxBids = Some 2, mb_TargetBidderCodePrefix = ''p''\<rparr>)]"

lemma sample_ok:
  "distinct (imp_ptrs (allBidsByBidder sample_auction))"
  "\<forall>p \<in> set (imp_ptrs (allBidsByBidder sample_auction)). has_bid sample_store p"
  "\<forall>(imp, bs) \<in> set (allBidsByBidder sample_auction). \<forall>name \<in> fst ` set bs. getMultiBidMeta sample_map name \<noteq> None"
  "\<forall>p. pb_BidTargets (sample_store p) = []"
  by (auto simp: sample_auction_def sample_store_def sample_map_def imp_ptrs_def bidder_ptrs_def has_bid_def store_of_def
      getMultiBidMeta_def zero_PbsOrtbBid_def)

theorem setTargeting_pointwise_witness:
  "\<exists>st'. setTargeting sample_targeting sample_auction [] [] None sample_map sample_store = Some st' \<and>
     pb_TargetBidderCode (st' 1) = ''p2''"
proof -
  have code: "FormatInt 2 = ''2''" by code_simp
  from setTargeting_pointwise [OF sample_ok(1-3), of sample_targeting "[]" "[]" None] obtain st' where
    run: "setTargeting sample_targeting sample_auction [] [] None sample_map sample_store = Some st'"
    and hit: "\<And>imp bs name ps cp mx i. (imp, bs) \<in> set (allBidsByBidder sample_auction) \<and> (name, ps) \<in> set bs \<and>
        getMultiBidMeta sample_map name = Some (cp, mx) \<and> i < target_count cp mx (length ps) \<Longrightarrow>
        st' (ps ! i) = target_bid sample_targeting sample_auction [] [] None mx (winningBids sample_auction imp = Some (ps ! i))
          (bid_code name cp i) (ps ! i) (sample_store (ps ! i)) (the (pb_Bid (sample_store (ps ! i))))"
    by blast
  from hit [of "''i''" "[(''a'', [0, 1])]" "''a''" "[0, 1]" "''p''" 2 1] have
    "st' 1 = target_bid sample_targeting sample_auction [] [] None 2 False ''p2'' 1 (sample_store 1) (the (pb_Bid (sample_store 1)))"
    by (simp add: sample_auction_def sample_map_def getMultiBidMeta_def target_count_def bid_code_def code)
  then show ?thesis using run by (simp add: target_bid_def DefaultBidLimit_def)
qed

section \<open>Key lengths and prefixes\<close>

lemma key_limit_pos: "0 < key_limit trunc"
  by (simp add: key_limit_def MaxKeyLength_def split: option.splits)

definition short_keys :: "int option \<Rightarrow> (string, string) gomap \<Rightarrow> bool" where
  "short_keys trunc m \<longleftrightarrow> (\<forall>k \<in> dom (map_of m). length k \<le> key_limit trunc)"

lemma addKeys_short: "short_keys trunc keys \<Longrightarrow> short_keys trunc (addKeys td key value code w trunc deal keys)"
  using key_limit_pos [of trunc]
  by (auto simp: short_keys_def addKeys_def Let_def BidderKey_def TruncateKey_def split: if_splits)

lemma fold_addKeys_short:
  "short_keys trunc keys \<Longrightarrow> short_keys trunc (fold (\<lambda>(k, v). addKeys td k v code w trunc deal) kvs keys)"
  by (induction kvs arbitrary: keys) (auto intro: addKeys_short)

lemma fold_addKeys_none:
  "\<not> includeBidderKeys td \<Longrightarrow> \<not> alwaysIncludeDeals td \<Longrightarrow> \<not> w \<Longrightarrow> fold (\<lambda>(k, v). addKeys td k v code w trunc deal) kvs keys = keys"
  by (induction kvs arbitrary: keys) (auto simp: addKeys_def)

text \<open>A property of every bid that each update preserves holds after the loops.\<close>

lemma target_bids_inv:
  "target_bids f w name cp mx i ps st = Some st' \<Longrightarrow> (\<And>p code pb b. Q p pb \<Longrightarrow> Q p (f (w = Some p) code p pb b)) \<Longrightarrow>
   (\<forall>p. Q p (st p)) \<Longrightarrow> \<forall>p. Q p (st' p)"
proof (induction ps arbitrary: i st)
  case (Cons p ps)
  show ?case
  proof (cases "int i = mx \<or> (i = 1 \<and> cp = [])")
    case True
    then have "st' = st" using Cons.prems(1) by auto
    with Cons.prems(3) show ?thesis by simp
  next
    case False
    from False Cons.prems(1) obtain b code where
      rec: "target_bids f w name cp mx (Suc i) ps (st(p := f (w = Some p) code p (st p) b)) = Some st'"
      by (auto simp: Let_def fun_upd_def split: option.splits)
    show ?thesis by (rule Cons.IH [OF rec]) (use Cons.prems(2,3) in auto)
  qed
qed simp

lemma target_bidders_inv:
  "target_bidders f mbm w bs st = Some st' \<Longrightarrow> (\<And>mx p code pb b. Q p pb \<Longrightarrow> Q p (f mx (w = Some p) code p pb b)) \<Longrightarrow>
   (\<forall>p. Q p (st p)) \<Longrightarrow> \<forall>p. Q p (st' p)"
proof (induction bs arbitrary: st)
  case (Cons e bs)
  obtain name ps where e: "e = (name, ps)" by (cases e)
  from Cons.prems(1) e obtain cp mx st1 where
    one: "target_bids (f mx) w name cp mx 0 ps st = Some st1" and rec: "target_bidders f mbm w bs st1 = Some st'"
    by (auto split: option.splits simp: bind_eq_Some_conv)
  have st1: "\<forall>p. Q p (st1 p)" by (rule target_bids_inv [OF one Cons.prems(2,3)])
  show ?case by (rule Cons.IH [OF rec Cons.prems(2) st1])
qed simp

lemma target_imps_inv:
  "target_imps f mbm winners m st = Some st' \<Longrightarrow>
   (\<And>mx imp p code pb b. Q p pb \<Longrightarrow> Q p (f mx (winners imp = Some p) code p pb b)) \<Longrightarrow>
   (\<forall>p. Q p (st p)) \<Longrightarrow> \<forall>p. Q p (st' p)"
proof (induction m arbitrary: st)
  case (Cons e m)
  obtain imp bs where e: "e = (imp, bs)" by (cases e)
  from Cons.prems(1) e obtain st1 where
    one: "target_bidders f mbm (winners imp) bs st = Some st1" and rec: "target_imps f mbm winners m st1 = Some st'"
    by (auto simp: bind_eq_Some_conv)
  have st1: "\<forall>p. Q p (st1 p)" by (rule target_bidders_inv [OF one Cons.prems(2,3)])
  show ?case by (rule Cons.IH [OF rec Cons.prems(2) st1])
qed simp

text \<open>
  Targeting keys: starting from bids without targeting, \<^verbatim>\<open>setTargeting\<close> leaves no key longer than the configured
  limit (20 by default) and changes neither the bid nor its price. When neither bidder keys nor deal keys are asked
  for, only winners of an impression carry keys.
\<close>

theorem setTargeting_keys:
  assumes "\<forall>p. pb_BidTargets (st p) = []" and "setTargeting td a env cat trunc mbm st = Some st'"
  shows "short_keys trunc (pb_BidTargets (st' p)) \<and> pb_Bid (st' p) = pb_Bid (st p) \<and>
     (\<not> includeBidderKeys td \<and> \<not> alwaysIncludeDeals td \<and> p \<notin> ran (winningBids a) \<longrightarrow> pb_BidTargets (st' p) = [])"
proof -
  let ?Q = "\<lambda>p pb. short_keys trunc (pb_BidTargets pb) \<and> pb_Bid pb = pb_Bid (st p) \<and>
     (\<not> includeBidderKeys td \<and> \<not> alwaysIncludeDeals td \<and> p \<notin> ran (winningBids a) \<longrightarrow> pb_BidTargets pb = [])"
  have empty: "short_keys trunc []" by (simp add: short_keys_def)
  have "\<forall>p. ?Q p (st' p)"
  proof (rule target_imps_inv [OF assms(2) [unfolded setTargeting_def]])
    show "\<forall>p. ?Q p (st p)" using assms(1) empty by simp
    show "?Q p (target_bid td a env cat trunc mx (winningBids a imp = Some p) code p pb b)" if "?Q p pb" for mx imp p code pb b
      using that empty by (auto simp: target_bid_def fold_addKeys_short fold_addKeys_none ran_def)
  qed
  then show ?thesis by blast
qed

theorem setTargeting_keys_witness:
  "\<exists>st'. setTargeting sample_targeting sample_auction [] [] None sample_map sample_store = Some st' \<and>
     short_keys None (pb_BidTargets (st' 0)) \<and> pb_BidTargets (st' 1) = []"
proof -
  obtain st' where run: "setTargeting sample_targeting sample_auction [] [] None sample_map sample_store = Some st'"
    by (simp add: setTargeting_def sample_auction_def sample_map_def getMultiBidMeta_def sample_store_def store_of_def Let_def)
  note keys = setTargeting_keys [OF sample_ok(4) run]
  have "1 \<notin> ran (winningBids sample_auction)" by (simp add: sample_auction_def ran_def)
  then have "pb_BidTargets (st' 1) = []" using keys [of 1] by (simp add: sample_targeting_def)
  with run keys [of 0] show ?thesis by blast
qed

definition targeting_keys :: "string set" where
  "targeting_keys = {''_pb'', ''_env'', ''_cache_host'', ''_cache_path'', ''_bidder'', ''_size'', ''_deal'', ''_format'',
     ''_cache_id'', ''_uuid'', ''_pb_cat_dur''}"

lemma targeting_keys_length: "key \<in> targeting_keys \<Longrightarrow> length key \<le> 11"
  by (auto simp: targeting_keys_def)

text \<open>
  The prefix leaves room for the keys: when the account sets no truncation or one of more than 12 characters, the
  prefix chosen by \<^verbatim>\<open>getTargetDataPrefix\<close> together with any targeting key fits the limit, so no winner key
  is ever truncated.
\<close>

theorem prefix_leaves_room:
  assumes "trunc = None \<or> (\<exists>t. trunc = Some t \<and> t > MinKeyLength)" and "key \<in> targeting_keys"
    and "getTargetDataPrefix requestPrefix trunc accountPrefix = (prefix, warnings)"
  shows "TruncateKey key prefix (key_limit trunc) = prefix @ key"
proof -
  have "length (prefix @ key) \<le> key_limit trunc"
    using assms targeting_keys_length [OF assms(2)]
    by (auto simp: getTargetDataPrefix_def key_limit_def MinKeyLength_def MaxKeyLength_def DefaultKeyPrefix_def Let_def
        split: if_splits)
  then show ?thesis by (simp add: TruncateKey_def Let_def)
qed

theorem prefix_leaves_room_witness:
  "TruncateKey ''_cache_host'' ''pre'' (key_limit (Some 15)) = ''pre'' @ ''_cache_host''"
  by (rule prefix_leaves_room [where requestPrefix = "''pre''" and accountPrefix = "[]" and warnings = "[]"])
     (simp_all add: targeting_keys_def getTargetDataPrefix_def MinKeyLength_def Let_def)

text \<open>
  The limit of exactly 12 characters is mishandled: the test for the account's value is strict, so the prefix is
  measured against the default limit of 20 while the keys are cut at 12. A prefix of eight characters is accepted
  without a warning, and the three cache keys of a winner collapse to one.
\<close>

theorem prefix_limit_12_collides:
  "getTargetDataPrefix ''longpref'' (Some 12) [] = (''longpref'', []) \<and>
   TruncateKey ''_cache_id'' ''longpref'' (key_limit (Some 12)) = ''longpref_cac'' \<and>
   TruncateKey ''_cache_host'' ''longpref'' (key_limit (Some 12)) = ''longpref_cac'' \<and>
   TruncateKey ''_cache_path'' ''longpref'' (key_limit (Some 12)) = ''longpref_cac''"
  by (simp add: getTargetDataPrefix_def TruncateKey_def key_limit_def MinKeyLength_def MaxKeyLength_def Let_def)

section \<open>Deal tiers\<close>

text \<open>What one bid may go through: nothing, or the mark that one of its deal tiers is satisfied.\<close>

definition tier_step :: "(bidptr \<times> DealTier) set \<Rightarrow> bidptr \<Rightarrow> PbsOrtbBid \<Rightarrow> PbsOrtbBid \<Rightarrow> bool" where
  "tier_step S p old new \<longleftrightarrow>
     new = old \<or>
     (new = old\<lparr>pb_DealTierSatisfied := True\<rparr> \<and>
      (\<exists>t. (p, t) \<in> S \<and> validateDealTier t \<and> dt_MinDealTier t \<le> pb_DealPriority old))"

definition bid_tiers :: "(string, string) gomap \<Rightarrow> (string, (string, DealTier) gomap) gomap \<Rightarrow> (string, (string, bidptr list) gomap) gomap \<Rightarrow> (bidptr \<times> DealTier) set" where
  "bid_tiers lookup impDealMap m =
     {(p, map_get zero_DealTier (map_get [] impDealMap imp) (opt_or (NormalizeBidderName lookup name) name)) |
        imp bs name ps p. (imp, bs) \<in> set m \<and> (name, ps) \<in> set bs \<and> p \<in> set ps}"

lemma tier_step_refl [simp]: "tier_step S p pb pb"
  by (simp add: tier_step_def)

lemma tier_step_trans: "tier_step S p x y \<Longrightarrow> tier_step S p y z \<Longrightarrow> tier_step S p x z"
  by (auto simp: tier_step_def)

lemma updateHbPbCatDur_dom: "dom (map_of (snd (updateHbPbCatDur pb b t cat))) = dom (map_of cat)"
  by (auto simp: updateHbPbCatDur_def split: option.splits)

lemma deal_bids_inv:
  "deal_bids imp name t mx i ps (st, cat, errs) = Some (st', cat', errs') \<Longrightarrow>
   dom (map_of cat') = dom (map_of cat) \<and>
   (\<forall>p. st' p = st p \<or> (st' p = (st p)\<lparr>pb_DealTierSatisfied := True\<rparr> \<and> p \<in> set ps \<and> validateDealTier t \<and>
      dt_MinDealTier t \<le> pb_DealPriority (st p)))"
proof (induction ps arbitrary: i st cat errs)
  case (Cons p ps)
  consider (stop) "int i = mx" | (skip) "int i \<noteq> mx" "\<not> pb_DealPriority (st p) > 0"
    | (bad) "int i \<noteq> mx" "pb_DealPriority (st p) > 0" "\<not> validateDealTier t"
    | (upd) "int i \<noteq> mx" "pb_DealPriority (st p) > 0" "validateDealTier t" by blast
  then show ?case
  proof cases
    case upd
    obtain pb c where u: "updateHbPbCatDur (st p) (opt_or (pb_Bid (st p)) zero_Bid) t cat = (pb, c)" by fastforce
    have c: "dom (map_of c) = dom (map_of cat)" using updateHbPbCatDur_dom [of "st p" _ t cat] u by (metis snd_conv)
    have pb: "pb = st p \<or> (pb = (st p)\<lparr>pb_DealTierSatisfied := True\<rparr> \<and> dt_MinDealTier t \<le> pb_DealPriority (st p))"
      using u by (auto simp: updateHbPbCatDur_def split: if_splits)
    from upd u Cons.prems have rec: "deal_bids imp name t mx (Suc i) ps (st(p := pb), c, errs) = Some (st', cat', errs')"
      by (auto simp: fun_upd_def split: if_splits)
    have IH: "dom (map_of cat') = dom (map_of c)" "st' q = (st(p := pb)) q \<or>
      (st' q = ((st(p := pb)) q)\<lparr>pb_DealTierSatisfied := True\<rparr> \<and> q \<in> set ps \<and> validateDealTier t \<and>
       dt_MinDealTier t \<le> pb_DealPriority ((st(p := pb)) q))" for q
      using Cons.IH [OF rec] by blast+
    show ?thesis
    proof (intro conjI allI)
      show "dom (map_of cat') = dom (map_of cat)" using IH(1) c by simp
      show "st' q = st q \<or> (st' q = (st q)\<lparr>pb_DealTierSatisfied := True\<rparr> \<and> q \<in> set (p # ps) \<and> validateDealTier t \<and>
          dt_MinDealTier t \<le> pb_DealPriority (st q))" for q
        using IH(2) [of q] pb upd(3) by (cases "q = p") auto
    qed
  next
    case stop
    with Cons.prems show ?thesis by simp
  next
    case skip
    with Cons.prems have "deal_bids imp name t mx (Suc i) ps (st, cat, errs) = Some (st', cat', errs')" by simp
    from Cons.IH [OF this] show ?thesis by auto
  next
    case bad
    with Cons.prems have "deal_bids imp name t mx (Suc i) ps (st, cat, errs @ [(name, imp)]) = Some (st', cat', errs')" by simp
    from Cons.IH [OF this] show ?thesis by auto
  qed
qed simp

lemma deal_bids_step:
  "deal_bids imp name t mx i ps s = Some s' \<Longrightarrow> (\<forall>p \<in> set ps. (p, t) \<in> S) \<Longrightarrow>
   dom (map_of (fst (snd s'))) = dom (map_of (fst (snd s))) \<and> (\<forall>p. tier_step S p (fst s p) (fst s' p))"
  using deal_bids_inv [of imp name t mx i ps "fst s" "fst (snd s)" "snd (snd s)" "fst s'" "fst (snd s')" "snd (snd s')"]
  unfolding tier_step_def by (simp only: prod.collapse) blast

lemma deal_bidders_step:
  "deal_bidders lookup mb impDeal imp bs s = Some s' \<Longrightarrow>
   (\<forall>(name, ps) \<in> set bs. \<forall>p \<in> set ps. (p, map_get zero_DealTier impDeal (opt_or (NormalizeBidderName lookup name) name)) \<in> S) \<Longrightarrow>
   dom (map_of (fst (snd s'))) = dom (map_of (fst (snd s))) \<and> (\<forall>p. tier_step S p (fst s p) (fst s' p))"
proof (induction bs arbitrary: s)
  case (Cons e bs)
  obtain name ps where e: "e = (name, ps)" by (cases e)
  let ?t = "map_get zero_DealTier impDeal (opt_or (NormalizeBidderName lookup name) name)"
  from Cons.prems(1) e obtain mx s1 where one: "deal_bids imp name ?t mx 0 ps s = Some s1"
    and rec: "deal_bidders lookup mb impDeal imp bs s1 = Some s'"
    by (auto simp: Let_def bind_eq_Some_conv split: option.splits)
  have "\<forall>p \<in> set ps. (p, ?t) \<in> S" using Cons.prems(2) e by auto
  note first = deal_bids_step [OF one this]
  have "\<forall>(name, ps) \<in> set bs. \<forall>p \<in> set ps. (p, map_get zero_DealTier impDeal (opt_or (NormalizeBidderName lookup name) name)) \<in> S"
    using Cons.prems(2) by auto
  note rest = Cons.IH [OF rec this]
  show ?case using first rest tier_step_trans by fastforce
qed simp

lemma deal_imps_step:
  "deal_imps lookup mb impDealMap m s = Some s' \<Longrightarrow> bid_tiers lookup impDealMap m \<subseteq> S \<Longrightarrow>
   dom (map_of (fst (snd s'))) = dom (map_of (fst (snd s))) \<and> (\<forall>p. tier_step S p (fst s p) (fst s' p))"
proof (induction m arbitrary: s)
  case (Cons e m)
  obtain imp bs where e: "e = (imp, bs)" by (cases e)
  from Cons.prems(1) e obtain s1 where one: "deal_bidders lookup mb (map_get [] impDealMap imp) imp bs s = Some s1"
    and rec: "deal_imps lookup mb impDealMap m s1 = Some s'"
    by (auto simp: bind_eq_Some_conv)
  have "\<forall>(name, ps) \<in> set bs. \<forall>p \<in> set ps.
      (p, map_get zero_DealTier (map_get [] impDealMap imp) (opt_or (NormalizeBidderName lookup name) name)) \<in> S"
    using Cons.prems(2) e by (fastforce simp: bid_tiers_def)
  note first = deal_bidders_step [OF one this]
  have "bid_tiers lookup impDealMap m \<subseteq> S" using Cons.prems(2) by (fastforce simp: bid_tiers_def)
  note rest = Cons.IH [OF rec this]
  show ?case using first rest tier_step_trans by fastforce
qed simp

text \<open>
  Deal support: \<^verbatim>\<open>applyDealSupport\<close> adds and removes no category mapping, and changes a bid in one way only:
  it marks the deal tier as satisfied, and only for a bid of the auction whose bidder has a valid tier (a prefix and a
  positive minimum) on that impression with a minimum that the bid's deal priority reaches.
\<close>

theorem applyDealSupport_sound:
  assumes "applyDealSupport decodeImpExt lookup imps a mb st cat = Some (st', cat', errs)"
  shows "dom (map_of cat') = dom (map_of cat) \<and>
     tier_step (bid_tiers lookup (getDealTiers decodeImpExt lookup imps []) (allBidsByBidder a)) p (st p) (st' p)"
  using deal_imps_step [OF assms [unfolded applyDealSupport_def] subset_refl] by simp

definition sample_tiers :: "string \<Rightarrow> (string, DealTier option) gomap option" where
  "sample_tiers ext = (if ext = ''ok'' then Some [(''a'', Some \<lparr>dt_Prefix = ''tier'', dt_MinDealTier = 3\<rparr>)] else None)"

definition deal_store :: store where
  "deal_store = sample_store(0 := (sample_store 0)\<lparr>pb_DealPriority := 5\<rparr>)"

theorem applyDealSupport_sound_witness:
  "\<exists>st' cat' errs. applyDealSupport sample_tiers [(''a'', ''a'')] [(''i'', ''ok'')] sample_auction None deal_store [(''x'', ''10.00_b_30s'')]
       = Some (st', cat', errs) \<and> pb_DealTierSatisfied (st' 0) \<and> dom (map_of cat') = {''x''} \<and>
     tier_step (bid_tiers [(''a'', ''a'')] (getDealTiers sample_tiers [(''a'', ''a'')] [(''i'', ''ok'')] []) (allBidsByBidder sample_auction))
       0 (deal_store 0) (st' 0)"
proof -
  have norm: "NormalizeBidderName [(''a'', ''a'')] ''a'' = Some ''a''" by code_simp
  obtain st' cat' errs where
    run: "applyDealSupport sample_tiers [(''a'', ''a'')] [(''i'', ''ok'')] sample_auction None deal_store [(''x'', ''10.00_b_30s'')]
       = Some (st', cat', errs)" and sat: "pb_DealTierSatisfied (st' 0)"
    by (simp add: applyDealSupport_def sample_tiers_def ReadDealTiersFromImp_def norm sample_auction_def bidsToUpdate_def
        DefaultBidLimit_def map_get_def deal_store_def sample_store_def store_of_def validateDealTier_def updateHbPbCatDur_def)
  show ?thesis using run sat applyDealSupport_sound [OF run, of 0] by auto
qed

end
