(* ===== verification/RequestSplitter.thy ===== *)
theory RequestSplitter
  imports PrivacyScrub UserCookie Targeting
begin

text \<open>
  The request splitter of \<^verbatim>\<open>exchange/utils.go\<close>: from the request of an auction to one request per bidder. It splits the
  impressions, writes the supply chain of the bidder (package \<^verbatim>\<open>schain\<close>), filters the extended IDs and the request extension,
  sets the user ID of the bidder, blocks bidders, applies first-party data and privacy, and converts the request to the
  version of the bidder. Go iterates over maps in any order; here the order is that of the list.
\<close>

section \<open>Supply chains\<close>

type_synonym schain_entry = "string list \<times> SupplyChain"  \<comment> \<open>the bidders of an entry of \<^verbatim>\<open>ext.prebid.schains\<close>, and its chain\<close>

fun schain_bidders :: "SupplyChain \<Rightarrow> string list \<Rightarrow> (string, SupplyChain) gomap \<Rightarrow> string + (string, SupplyChain) gomap" where
  "schain_bidders sc [] m = Inr m"
| "schain_bidders sc (b # bs) m = (if map_has m b then Inl b else schain_bidders sc bs (map_put b sc m))"

fun schain_entries :: "schain_entry list \<Rightarrow> (string, SupplyChain) gomap \<Rightarrow> string + (string, SupplyChain) gomap" where
  "schain_entries [] m = Inr m"
| "schain_entries ((bs, sc) # es) m = (case schain_bidders sc bs m of Inl b \<Rightarrow> Inl b | Inr m' \<Rightarrow> schain_entries es m')"

text \<open>The error is the bidder that has a second chain.\<close>

definition BidderToPrebidSChains :: "schain_entry list \<Rightarrow> string + (string, SupplyChain) gomap" where
  "BidderToPrebidSChains entries = schain_entries entries []"

record SChainWriter =
  scw_sChainsByBidder :: "(string, SupplyChain) gomap"
  scw_hostSChainNode :: "string option"

definition NewSChainWriter :: "schain_entry list option \<Rightarrow> string option \<Rightarrow> string + SChainWriter" where
  "NewSChainWriter schains hostNode =
     (case schains of
        None \<Rightarrow> Inr \<lparr>scw_sChainsByBidder = [], scw_hostSChainNode = hostNode\<rparr>
      | Some entries \<Rightarrow>
          (case BidderToPrebidSChains entries of
             Inl b \<Rightarrow> Inl b
           | Inr m \<Rightarrow> Inr \<lparr>scw_sChainsByBidder = m, scw_hostSChainNode = hostNode\<rparr>))"

definition SChain_Write :: "SChainWriter \<Rightarrow> string \<Rightarrow> RequestWrapper \<Rightarrow> RequestWrapper" where
  "SChain_Write w bidder r =
     (let wildCardSChain = map_of (scw_sChainsByBidder w) ''*'';
          bidderSChain = map_of (scw_sChainsByBidder w) bidder in
      if bidderSChain = None \<and> wildCardSChain = None \<and> scw_hostSChainNode w = None then r
      else
        let selected = (case bidderSChain of Some sc \<Rightarrow> sc
                        | None \<Rightarrow> (case wildCardSChain of Some sc \<Rightarrow> sc | None \<Rightarrow> \<lparr>sc_Ver = ''1.0'', sc_Complete = 0, sc_Nodes = []\<rparr>));
            source = (case rw_Source r of None \<Rightarrow> empty_Source | Some s \<Rightarrow> s);
            chain = (case scw_hostSChainNode w of None \<Rightarrow> selected | Some node \<Rightarrow> selected\<lparr>sc_Nodes := sc_Nodes selected @ [node]\<rparr>) in
        r\<lparr>rw_Source := Some (source\<lparr>so_SChain := Some chain\<rparr>)\<rparr>)"

section \<open>The request extension of a bidder\<close>

record ExtAdapterAlternateBidderCodes =
  aab_Enabled :: bool
  aab_AllowedBidderCodes :: "string list option"

record ExtAlternateBidderCodes =
  abc_Enabled :: bool
  abc_Bidders :: "(string, ExtAdapterAlternateBidderCodes) gomap option"

definition IsBidderInAlternateBidderCodes :: "ExtAlternateBidderCodes option \<Rightarrow> string \<Rightarrow> ExtAdapterAlternateBidderCodes option" where
  "IsBidderInAlternateBidderCodes codes bidder =
     (case codes of None \<Rightarrow> None
      | Some c \<Rightarrow>
          let m = (case abc_Bidders c of Some m \<Rightarrow> m | None \<Rightarrow> []) in
          if bidder = [] \<or> m = [] then None
          else (case map_of m bidder of Some cfg \<Rightarrow> Some cfg
                | None \<Rightarrow> map_option snd (List.find (\<lambda>(name, _). EqualFold bidder name) m)))"

datatype code_error = CodesDisabled | CodesNotDefined | InvalidBidderCode

definition IsValidBidderCode :: "ExtAlternateBidderCodes \<Rightarrow> string \<Rightarrow> string \<Rightarrow> code_error option" where
  "IsValidBidderCode codes bidder alternateBidder =
     (if alternateBidder = [] \<or> EqualFold bidder alternateBidder then None
      else if \<not> abc_Enabled codes then Some CodesDisabled
      else if abc_Bidders codes = None then Some CodesNotDefined
      else (case IsBidderInAlternateBidderCodes (Some codes) bidder of
          None \<Rightarrow> Some CodesNotDefined
        | Some cfg \<Rightarrow>
            if \<not> aab_Enabled cfg then Some CodesDisabled
            else (case aab_AllowedBidderCodes cfg of
                None \<Rightarrow> None
              | Some allowed \<Rightarrow> if allowed = [''*''] then None else if alternateBidder \<in> set allowed then None else Some InvalidBidderCode)))"

definition copyExtAlternateBidderCodes :: "string \<Rightarrow> ExtAlternateBidderCodes option \<Rightarrow> ExtAlternateBidderCodes option" where
  "copyExtAlternateBidderCodes bidder codes =
     (case codes of None \<Rightarrow> None
      | Some c \<Rightarrow> Some \<lparr>abc_Enabled = abc_Enabled c,
                        abc_Bidders = (case IsBidderInAlternateBidderCodes codes bidder of Some cfg \<Rightarrow> Some [(bidder, cfg)] | None \<Rightarrow> None)\<rparr>)"

definition buildRequestExtAlternateBidderCodes ::
    "string \<Rightarrow> ExtAlternateBidderCodes option \<Rightarrow> ExtAlternateBidderCodes option \<Rightarrow> ExtAlternateBidderCodes option" where
  "buildRequestExtAlternateBidderCodes bidder accABC reqABC =
     (case copyExtAlternateBidderCodes bidder reqABC of Some c \<Rightarrow> Some c | None \<Rightarrow> copyExtAlternateBidderCodes bidder accABC)"

definition isBidderInExtAlternateBidderCodes :: "string \<Rightarrow> string \<Rightarrow> ExtAlternateBidderCodes option \<Rightarrow> bool" where
  "isBidderInExtAlternateBidderCodes adapter currentMultiBidBidder adapterABC =
     (case adapterABC of None \<Rightarrow> False
      | Some c \<Rightarrow>
          (case map_of (case abc_Bidders c of Some m \<Rightarrow> m | None \<Rightarrow> []) adapter of
             None \<Rightarrow> False
           | Some cfg \<Rightarrow> list_ex (\<lambda>b. b = ''*'' \<or> b = currentMultiBidBidder) (case aab_AllowedBidderCodes cfg of Some l \<Rightarrow> l | None \<Rightarrow> [])))"

definition multibid_for :: "string \<Rightarrow> ExtAlternateBidderCodes option \<Rightarrow> string \<Rightarrow> bool" where
  "multibid_for adapter adapterABC bidder \<longleftrightarrow> ToLower bidder = adapter \<or> isBidderInExtAlternateBidderCodes adapter (ToLower bidder) adapterABC"

definition buildRequestExtMultiBid :: "string \<Rightarrow> ExtMultiBid list \<Rightarrow> ExtAlternateBidderCodes option \<Rightarrow> ExtMultiBid list" where
  "buildRequestExtMultiBid adapter reqMultiBid adapterABC =
     concat (map (\<lambda>mb.
       if mb_Bidder mb \<noteq> [] then (if multibid_for adapter adapterABC (mb_Bidder mb) then [mb] else [])
       else map (\<lambda>b. \<lparr>mb_Bidder = [], mb_Bidders = Some [b], mb_MaxBids = mb_MaxBids mb, mb_TargetBidderCodePrefix = []\<rparr>)
              (filter (multibid_for adapter adapterABC) (case mb_Bidders mb of Some bs \<Rightarrow> bs | None \<Rightarrow> []))) reqMultiBid)"

text \<open>
  The parts of \<^verbatim>\<open>request.ext.prebid\<close> the splitter reads; raw JSON values as texts. Fields that are copied without being read stand in \<open>rep_Copied\<close>
  (channel, currency, debug, integration, sdk and server) and all others, which bidders do not get, in \<open>rep_Other\<close>.
\<close>

record ExtRequestPrebid =
  rep_Aliases :: "(string, string) gomap"
  rep_AlternateBidderCodes :: "ExtAlternateBidderCodes option"
  rep_BidderParams :: "string option"
  rep_MultiBid :: "ExtMultiBid list"
  rep_IncludeBrandCategory :: "string option"  \<comment> \<open>of the targeting\<close>
  rep_Copied :: "(string, string) gomap"
  rep_Other :: "(string, string) gomap"

text \<open>The brand category is the only field of the targeting that a bidder gets.\<close>

definition buildRequestExtForBidder :: "string \<Rightarrow> ExtRequestPrebid option \<Rightarrow> (string, string) gomap \<Rightarrow> ExtAlternateBidderCodes option \<Rightarrow> ExtRequestPrebid" where
  "buildRequestExtForBidder bidder prebid reqExtBidderParams cfgABC =
     (let abc = buildRequestExtAlternateBidderCodes bidder cfgABC (Option.bind prebid rep_AlternateBidderCodes);
          params = map_of reqExtBidderParams bidder in
      case prebid of
        None \<Rightarrow> \<lparr>rep_Aliases = [], rep_AlternateBidderCodes = abc, rep_BidderParams = params, rep_MultiBid = [], rep_IncludeBrandCategory = None,
                 rep_Copied = [], rep_Other = []\<rparr>
      | Some p \<Rightarrow>
          \<lparr>rep_Aliases = (case map_of (rep_Aliases p) bidder of Some a \<Rightarrow> [(bidder, a)] | None \<Rightarrow> []), rep_AlternateBidderCodes = abc,
           rep_BidderParams = params, rep_MultiBid = buildRequestExtMultiBid bidder (rep_MultiBid p) abc,
           rep_IncludeBrandCategory = rep_IncludeBrandCategory p, rep_Copied = rep_Copied p, rep_Other = []\<rparr>)"

section \<open>Impressions by bidder\<close>

text \<open>
  An impression of the request: its fields, its extension and the decoded \<^verbatim>\<open>ext.prebid.bidder\<close> and \<^verbatim>\<open>ext.prebid.imp\<close>; \<open>None\<close> for an
  extension that does not decode.
\<close>

record SplitImp =
  spl_Imp :: ReqImp
  spl_Ext :: "ext option"
  spl_PrebidBidder :: "(string, string) gomap"
  spl_PrebidImp :: "(string, string) gomap"

datatype split_error = InvalidImpJson nat | InvalidFPD nat | InvalidMergedImp string

definition createSanitizedImpExt :: "ext \<Rightarrow> ext" where
  "createSanitizedImpExt impExt =
     (let (rewarded, others) = imp_prebid impExt;
          e = filter (\<lambda>(k, v). k \<noteq> ''prebid'') impExt in
      case prebid_value rewarded (filter (\<lambda>(k, v). k = ''options'') others) of
        Some v \<Rightarrow> (''prebid'', v) # e
      | None \<Rightarrow> e)"

text \<open>
  \<open>merge\<close> is the JSON merge of the first-party data of an impression, which fails on data that is no object, and \<open>valid\<close> the
  validation of the merged impression.
\<close>

fun split_bidders :: "(ReqImp \<Rightarrow> string \<Rightarrow> ReqImp option) \<Rightarrow> (ReqImp \<Rightarrow> bool) \<Rightarrow> nat \<Rightarrow> SplitImp \<Rightarrow> ext \<Rightarrow> (string, string) gomap \<Rightarrow>
    (string, ReqImp list) gomap \<Rightarrow> split_error + (string, ReqImp list) gomap" where
  "split_bidders merge valid i imp sanitized [] out = Inr out"
| "split_bidders merge valid i imp sanitized ((bidder, bidderExt) # rest) out =
     (let merged = (case map_of (spl_PrebidImp imp) bidder of
            None \<Rightarrow> Inr (spl_Imp imp)
          | Some fpd \<Rightarrow>
              (case merge (spl_Imp imp) fpd of
                 None \<Rightarrow> Inl (InvalidFPD i)
               | Some imp' \<Rightarrow> if valid imp' then Inr imp' else Inl (InvalidMergedImp (ri_ID (spl_Imp imp))))) in
      case merged of
        Inl e \<Rightarrow> Inl e
      | Inr imp' \<Rightarrow>
          let impCopy = imp'\<lparr>ri_Ext := map_put ''bidder'' (XRaw bidderExt) sanitized\<rparr>;
              old = (case map_of out bidder of Some l \<Rightarrow> l | None \<Rightarrow> []) in
          split_bidders merge valid i imp sanitized rest (map_put bidder (old @ [impCopy]) out))"

fun split_loop :: "(ReqImp \<Rightarrow> string \<Rightarrow> ReqImp option) \<Rightarrow> (ReqImp \<Rightarrow> bool) \<Rightarrow> nat \<Rightarrow> SplitImp list \<Rightarrow>
    (string, ReqImp list) gomap \<Rightarrow> split_error + (string, ReqImp list) gomap" where
  "split_loop merge valid i [] out = Inr out"
| "split_loop merge valid i (imp # imps) out =
     (case spl_Ext imp of
        None \<Rightarrow> Inl (InvalidImpJson i)
      | Some e \<Rightarrow>
          (case split_bidders merge valid i imp (createSanitizedImpExt e) (spl_PrebidBidder imp) out of
             Inl err \<Rightarrow> Inl err
           | Inr out' \<Rightarrow> split_loop merge valid (Suc i) imps out'))"

definition splitImps :: "(ReqImp \<Rightarrow> string \<Rightarrow> ReqImp option) \<Rightarrow> (ReqImp \<Rightarrow> bool) \<Rightarrow> SplitImp list \<Rightarrow> split_error + (string, ReqImp list) gomap" where
  "splitImps merge valid imps = split_loop merge valid 0 imps []"

section \<open>Users, first-party data and legacy fields\<close>

text \<open>\<^verbatim>\<open>user.ext.prebid.buyeruids\<close>, decoded, is an argument; it is the only field of \<^verbatim>\<open>user.ext.prebid\<close>, which goes with it.\<close>

definition extractAndCleanBuyerUIDs :: "(string, string) gomap option \<Rightarrow> RequestWrapper \<Rightarrow> (string, string) gomap \<times> RequestWrapper" where
  "extractAndCleanBuyerUIDs buyeruids r =
     (case rw_User r of None \<Rightarrow> ([], r)
      | Some u \<Rightarrow> (case buyeruids of None \<Rightarrow> ([], r) | Some uids \<Rightarrow> (uids, SetUserExtField ''prebid'' None r)))"

definition lowerCaseBuyerUIDs :: "(string, string) gomap \<Rightarrow> (string, string) gomap" where
  "lowerCaseBuyerUIDs uids = fold (\<lambda>(bidder, uid) m. map_put (ToLower bidder) uid m) uids []"

definition resolveBidder :: "(string, string) gomap \<Rightarrow> string \<Rightarrow> (string, string) gomap \<Rightarrow> string \<times> bool" where
  "resolveBidder bidderNameLookup bidder requestAliases =
     (case map_of requestAliases bidder of
        Some coreBidder \<Rightarrow> (coreBidder, True)
      | None \<Rightarrow> (case map_of bidderNameLookup (ToLower bidder) of Some name \<Rightarrow> name | None \<Rightarrow> [], False))"

definition applyBidAdjustmentToFloor :: "string \<Rightarrow> (string, float64) gomap \<Rightarrow> RequestWrapper \<Rightarrow> RequestWrapper" where
  "applyBidAdjustmentToFloor bidder adjustmentFactors r =
     (if adjustmentFactors = [] then r
      else
        let bidAdjustment = (case map_of adjustmentFactors bidder of Some v \<Rightarrow> if feq v 0 then 1 else v | None \<Rightarrow> 1) in
        if feq bidAdjustment 1 then r else r\<lparr>rw_Imp := map (\<lambda>imp. imp\<lparr>ri_BidFloor := ri_BidFloor imp / bidAdjustment\<rparr>) (rw_Imp r)\<rparr>)"

text \<open>
  Resolved first-party data of a bidder. \<open>fpd_SharedEIDs\<close> tells that its extended IDs are the very slice of the request, which the code
  finds by comparing addresses.
\<close>

record ResolvedFirstPartyData =
  fpd_Site :: "string option"
  fpd_App :: "string option"
  fpd_Device :: "Device option"
  fpd_User :: "User option"
  fpd_SharedEIDs :: bool

type_synonym fpd_map = "(string, ResolvedFirstPartyData) gomap"

definition fpdUserEIDExists :: "RequestWrapper \<Rightarrow> fpd_map \<Rightarrow> string \<Rightarrow> bool" where
  "fpdUserEIDExists req fpd bidder =
     (case map_of fpd bidder of None \<Rightarrow> False
      | Some f \<Rightarrow>
          (case fpd_User f of None \<Rightarrow> False
           | Some fu \<Rightarrow>
               if us_EIDs fu = [] then False
               else (case rw_User req of None \<Rightarrow> True
                     | Some u \<Rightarrow> if length (us_EIDs u) \<noteq> length (us_EIDs fu) then True else \<not> fpd_SharedEIDs f)))"

text \<open>The first-party user is changed in place: the map of the auction changes with it.\<close>

definition applyFPD :: "fpd_map \<Rightarrow> string \<Rightarrow> string \<Rightarrow> bool \<Rightarrow> bool \<Rightarrow> RequestWrapper \<Rightarrow> RequestWrapper \<times> fpd_map" where
  "applyFPD fpd coreBidderName bidderName isRequestAlias fpdUserEIDsPresent r =
     (let bidder = (if isRequestAlias then bidderName else coreBidderName) in
      case map_of fpd bidder of
        None \<Rightarrow> (r, fpd)
      | Some f \<Rightarrow>
          let r1 = r\<lparr>rw_Site := (case fpd_Site f of Some x \<Rightarrow> Some x | None \<Rightarrow> rw_Site r),
                     rw_App := (case fpd_App f of Some x \<Rightarrow> Some x | None \<Rightarrow> rw_App r),
                     rw_Device := (case fpd_Device f of Some x \<Rightarrow> Some x | None \<Rightarrow> rw_Device r)\<rparr> in
          (case fpd_User f of
             None \<Rightarrow> (r1, fpd)
           | Some fu \<Rightarrow>
               let fu' = (case rw_User r of None \<Rightarrow> fu
                          | Some u \<Rightarrow>
                              let fu1 = (if us_BuyerUID u \<noteq> [] then fu\<lparr>us_BuyerUID := us_BuyerUID u\<rparr> else fu) in
                              if \<not> fpdUserEIDsPresent then fu1\<lparr>us_EIDs := us_EIDs u\<rparr> else fu1) in
               (r1\<lparr>rw_User := Some fu'\<rparr>, map_put bidder (f\<lparr>fpd_User := Some fu'\<rparr>) fpd)))"

record bidder_info =
  bi_OpenRTB :: bool  \<comment> \<open>it has OpenRTB settings\<close>
  bi_Version :: string
  bi_GPPSupported :: bool

definition shouldSetLegacyPrivacy :: "(string, bidder_info) gomap \<Rightarrow> string \<Rightarrow> bool" where
  "shouldSetLegacyPrivacy info bidder =
     (case map_of info bidder of None \<Rightarrow> True | Some i \<Rightarrow> if \<not> bi_OpenRTB i then True else \<not> bi_GPPSupported i)"

definition gpp_section :: "GppContainer \<Rightarrow> int \<Rightarrow> string option" where
  "gpp_section gpp sid = map_option snd (List.find (\<lambda>(t, v). t = sid) (rev (zip (gpp_SectionTypes gpp) (gpp_Sections gpp))))"

text \<open>A later section of a type replaces an earlier one.\<close>

definition setLegacyGDPRFromGPP :: "GppContainer \<Rightarrow> RequestWrapper \<Rightarrow> RequestWrapper" where
  "setLegacyGDPRFromGPP gpp r =
     (let r1 = (case rw_Regs r of None \<Rightarrow> r
                | Some g \<Rightarrow>
                    (case (rg_GDPR g, rg_GPPSID g) of
                       (None, Some sids) \<Rightarrow> r\<lparr>rw_Regs := Some (g\<lparr>rg_GDPR := Some (if SectionTCFEU2 \<in> set sids then 1 else 0)\<rparr>)\<rparr>
                     | _ \<Rightarrow> r)) in
      if (case rw_User r1 of None \<Rightarrow> True | Some u \<Rightarrow> us_Consent u = []) then
        (case gpp_section gpp SectionTCFEU2 of
           None \<Rightarrow> r1
         | Some v \<Rightarrow> r1\<lparr>rw_User := Some ((case rw_User r1 of None \<Rightarrow> empty_User | Some u \<Rightarrow> u)\<lparr>us_Consent := v\<rparr>)\<rparr>)
      else r1)"

definition setLegacyUSPFromGPP :: "GppContainer \<Rightarrow> RequestWrapper \<Rightarrow> RequestWrapper" where
  "setLegacyUSPFromGPP gpp r =
     (case rw_Regs r of None \<Rightarrow> r
      | Some g \<Rightarrow>
          (case rg_GPPSID g of None \<Rightarrow> r
           | Some sids \<Rightarrow>
               if rg_USPrivacy g \<noteq> [] then r
               else if SectionUSPV1 \<in> set sids then
                 (case gpp_section gpp SectionUSPV1 of None \<Rightarrow> r | Some v \<Rightarrow> r\<lparr>rw_Regs := Some (g\<lparr>rg_USPrivacy := v\<rparr>)\<rparr>)
               else r))"

text \<open>Stored responses by bidder, from those by impression.\<close>

definition buildStoredResp :: "(string, (string, string) gomap) gomap \<Rightarrow> (string, (string, string) gomap) gomap" where
  "buildStoredResp stored =
     fold (\<lambda>(impID, data) out. fold (\<lambda>(bidder, resp) out.
       map_put bidder (map_put impID resp (case map_of out bidder of Some m \<Rightarrow> m | None \<Rightarrow> [])) out) data out) stored []"

text \<open>The list of the request changes; the impression wrappers, when they have been accessed, do not.\<close>

definition removeImpsWithStoredResponses :: "(string, string) gomap \<Rightarrow> RequestWrapper \<Rightarrow> RequestWrapper" where
  "removeImpsWithStoredResponses impBidResponses r =
     (if impBidResponses = [] then r else r\<lparr>rw_Imp := filter (\<lambda>imp. \<not> map_has impBidResponses (ri_ID imp)) (rw_Imp r)\<rparr>)"

section \<open>The loop over the bidders\<close>

record splitter_env =
  en_bidderToSyncerKey :: "(string, string) gomap"
  en_bidderNameLookup :: "(string, string) gomap"
  en_bidderInfo :: "(string, bidder_info) gomap"
  en_conf :: IPConf
  en_activities :: ActivityControl
  en_gdprPerms :: Permissions
  en_ccpa :: PolicyEnforcer
  en_lmt :: bool
  en_coppa :: bool
  en_gpp :: GppContainer
  en_schain :: SChainWriter
  en_eidPermissions :: "(string \<times> string list) list"
  en_prebid :: "ExtRequestPrebid option"
  en_bidderParams :: "(string, string) gomap"
  en_accountABC :: "ExtAlternateBidderCodes option"
  en_adjustFloors :: bool
  en_bidAdjustmentFactors :: "(string, float64) gomap"
  en_buyerUIDs :: "(string, string) gomap"  \<comment> \<open>by lower-case bidder\<close>
  en_cookie :: "Cookie option"
  en_now :: time
  en_stored :: "(string, (string, string) gomap) gomap"  \<comment> \<open>by bidder and impression\<close>

record BidderRequest =
  br_BidderName :: string
  br_BidderCoreName :: string
  br_BidRequest :: RequestWrapper
  br_ExtPrebid :: ExtRequestPrebid
  br_IsRequestAlias :: bool
  br_StoredResponses :: "(string, string) gomap"

datatype bidder_error = EidPermissionError | BlockedByPrivacy string

text \<open>The request of a bidder from the stage of first-party data on: privacy, legacy fields, stored responses, version. \<open>None\<close>: a panic.\<close>

definition finish_request :: "splitter_env \<Rightarrow> string \<Rightarrow> string \<Rightarrow> AuctionPermissions \<Rightarrow> RequestWrapper \<Rightarrow> RequestWrapper option" where
  "finish_request env bidder coreBidder perms r =
     Option.bind (applyPrivacy (en_activities env) (en_conf env) perms (en_ccpa env) (en_lmt env) (en_coppa env) bidder r) (\<lambda>r1.
       let r2 = (if shouldSetLegacyPrivacy (en_bidderInfo env) coreBidder then setLegacyUSPFromGPP (en_gpp env) (setLegacyGDPRFromGPP (en_gpp env) r1) else r1);
           r3 = (case map_of (en_stored env) bidder of Some resp \<Rightarrow> removeImpsWithStoredResponses resp r2 | None \<Rightarrow> r2);
           r4 = (case map_of (en_bidderInfo env) bidder of
                   Some i \<Rightarrow> if \<not> bi_OpenRTB i \<or> bi_Version i \<noteq> ''2.6'' then ConvertDownTo25 r3 else r3
                 | None \<Rightarrow> ConvertDownTo25 r3) in
       Some (RebuildRequest r4))"

definition clean_bidder :: "splitter_env \<Rightarrow> RequestWrapper \<Rightarrow> string \<Rightarrow> ReqImp list \<Rightarrow> fpd_map \<Rightarrow> ((bidder_error + BidderRequest) \<times> fpd_map) option" where
  "clean_bidder env req bidder imps fpd =
     (let fpdUserEIDsPresent = fpdUserEIDExists req fpd bidder;
          r0 = (CloneAndClearImpWrappers req)\<lparr>rw_Imp := imps\<rparr>;
          aliases = (case en_prebid env of Some p \<Rightarrow> rep_Aliases p | None \<Rightarrow> []);
          (coreBidder, isRequestAlias) = resolveBidder (en_bidderNameLookup env) bidder aliases;
          r1 = SChain_Write (en_schain env) bidder r0 in
      case removeUnpermissionedEids (Some (en_eidPermissions env)) bidder r1 of
        Inl e \<Rightarrow> Some (Inl EidPermissionError, fpd)
      | Inr r2 \<Rightarrow>
          let ext = buildRequestExtForBidder bidder (en_prebid env) (en_bidderParams env) (en_accountABC env);
              r3 = (if en_adjustFloors env then applyBidAdjustmentToFloor bidder (en_bidAdjustmentFactors env) r2 else r2);
              syncerKey = (case map_of (en_bidderToSyncerKey env) coreBidder of Some k \<Rightarrow> k | None \<Rightarrow> []);
              (uid, hadCookie, live) = GetUID (en_now env) syncerKey (en_cookie env);
              (r4, hadSync) = prepareUser bidder (en_buyerUIDs env) (uid, hadCookie) r3;
              perms = Perm_AuctionActivitiesAllowed (en_gdprPerms env) coreBidder bidder in
          if isBidderBlockedByPrivacy r4 (en_activities env) perms bidder then Some (Inl (BlockedByPrivacy coreBidder), fpd)
          else
            let (r5, fpd') = applyFPD fpd coreBidder bidder isRequestAlias fpdUserEIDsPresent r4 in
            map_option (\<lambda>r6. (Inr \<lparr>br_BidderName = bidder, br_BidderCoreName = coreBidder, br_BidRequest = r6, br_ExtPrebid = ext,
                                 br_IsRequestAlias = isRequestAlias,
                                 br_StoredResponses = (case map_of (en_stored env) bidder of Some m \<Rightarrow> m | None \<Rightarrow> [])\<rparr>, fpd'))
              (finish_request env bidder coreBidder perms r5))"

fun clean_bidders :: "splitter_env \<Rightarrow> RequestWrapper \<Rightarrow> (string, ReqImp list) gomap \<Rightarrow> fpd_map \<Rightarrow> (BidderRequest list \<times> bidder_error list) option" where
  "clean_bidders env req [] fpd = Some ([], [])"
| "clean_bidders env req ((bidder, imps) # rest) fpd =
     Option.bind (clean_bidder env req bidder imps fpd) (\<lambda>(res, fpd').
     Option.bind (clean_bidders env req rest fpd') (\<lambda>(reqs, errs).
       Some (case res of Inl e \<Rightarrow> (reqs, e # errs) | Inr b \<Rightarrow> (b # reqs, errs))))"

text \<open>What an auction gives the splitter, beyond the request itself.\<close>

record splitter_input =
  in_Imps :: "SplitImp list"
  in_BuyerUIDs :: "(string, string) gomap option"  \<comment> \<open>\<^verbatim>\<open>user.ext.prebid.buyeruids\<close>\<close>
  in_NoSale :: "string list option"
  in_SChains :: "schain_entry list option"
  in_hostNode :: "string option"
  in_StoredBidResponses :: "(string, (string, string) gomap) gomap"  \<comment> \<open>by impression and bidder\<close>
  in_FPD :: fpd_map
  in_CCPAEnabled :: bool
  in_LMTEnforce :: bool
  in_coreBidders :: "string list"
  in_GDPREnforced :: bool
  in_Permissions :: Permissions  \<comment> \<open>of the permissions builder\<close>

datatype clean_error = SplitFailed split_error | DuplicateSChain string

definition GetValidBidders :: "string list \<Rightarrow> (string, string) gomap \<Rightarrow> string list" where
  "GetValidBidders coreBidders requestAliases = coreBidders @ map fst requestAliases"

text \<open>The settings of the loop over the bidders: the policies, the permissions and the supply chains of this request.\<close>

definition env_for :: "splitter_env \<Rightarrow> splitter_input \<Rightarrow> (string, string) gomap \<Rightarrow> SChainWriter \<Rightarrow> RequestWrapper \<Rightarrow> splitter_env" where
  "env_for env inp uids writer req =
     (let aliases = (case en_prebid env of Some p \<Rightarrow> rep_Aliases p | None \<Rightarrow> []) in
      env\<lparr>en_schain := writer,
          en_ccpa := fst (extractCCPA req (in_NoSale inp) (en_gpp env) (GetValidBidders (in_coreBidders inp) aliases) (in_CCPAEnabled inp)),
          en_lmt := ShouldEnforce (extractLMT (in_LMTEnforce inp) req) [],
          en_coppa := (case rw_Regs req of Some g \<Rightarrow> rg_COPPA g = 1 | None \<Rightarrow> False),
          en_gdprPerms := (if in_GDPREnforced inp then in_Permissions inp else AlwaysAllow),
          en_buyerUIDs := lowerCaseBuyerUIDs uids, en_stored := buildStoredResp (in_StoredBidResponses inp)\<rparr>)"

text \<open>
  \<open>env\<close> has the configuration; its policies, permissions, supply chains, buyer IDs and stored responses are filled in here. The result is
  an error that ends the splitting, or the requests and the errors of bidders and of the CCPA policy.
\<close>

definition cleanOpenRTBRequests :: "(ReqImp \<Rightarrow> string \<Rightarrow> ReqImp option) \<Rightarrow> (ReqImp \<Rightarrow> bool) \<Rightarrow> splitter_env \<Rightarrow> splitter_input \<Rightarrow> RequestWrapper \<Rightarrow>
    (clean_error + (BidderRequest list \<times> bidder_error list \<times> extract_error option)) option" where
  "cleanOpenRTBRequests merge valid env inp req0 =
     (let req1 = PreloadExts req0;
          aliases = (case en_prebid env of Some p \<Rightarrow> rep_Aliases p | None \<Rightarrow> []) in
      case splitImps merge valid (in_Imps inp) of
        Inl e \<Rightarrow> Some (Inl (SplitFailed e))
      | Inr impsByBidder \<Rightarrow>
          let (uids, req) = extractAndCleanBuyerUIDs (in_BuyerUIDs inp) req1 in
          (case NewSChainWriter (in_SChains inp) (in_hostNode inp) of
             Inl b \<Rightarrow> Some (Inl (DuplicateSChain b))
           | Inr writer \<Rightarrow>
               let ccpaErr = snd (extractCCPA req (in_NoSale inp) (en_gpp env) (GetValidBidders (in_coreBidders inp) aliases) (in_CCPAEnabled inp)) in
               map_option (\<lambda>(reqs, errs). Inr (reqs, errs, ccpaErr)) (clean_bidders (env_for env inp uids writer req) req impsByBidder (in_FPD inp))))"

section \<open>The impressions of a bidder\<close>

definition merged_imp :: "(ReqImp \<Rightarrow> string \<Rightarrow> ReqImp option) \<Rightarrow> SplitImp \<Rightarrow> string \<Rightarrow> ReqImp" where
  "merged_imp merge imp bidder =
     (case map_of (spl_PrebidImp imp) bidder of None \<Rightarrow> spl_Imp imp
      | Some fpd \<Rightarrow> (case merge (spl_Imp imp) fpd of Some imp' \<Rightarrow> imp' | None \<Rightarrow> spl_Imp imp))"

text \<open>What a bidder should get of an impression: nothing unless it is named there, else the impression with its own data and its own parameters only.\<close>

definition imp_for :: "(ReqImp \<Rightarrow> string \<Rightarrow> ReqImp option) \<Rightarrow> string \<Rightarrow> SplitImp \<Rightarrow> ReqImp list" where
  "imp_for merge bidder imp =
     (case (map_of (spl_PrebidBidder imp) bidder, spl_Ext imp) of
        (Some params, Some e) \<Rightarrow> [(merged_imp merge imp bidder)\<lparr>ri_Ext := map_put ''bidder'' (XRaw params) (createSanitizedImpExt e)\<rparr>]
      | _ \<Rightarrow> [])"

definition imps_of :: "(string, ReqImp list) gomap \<Rightarrow> string \<Rightarrow> ReqImp list" where
  "imps_of m bidder = (case map_of m bidder of Some l \<Rightarrow> l | None \<Rightarrow> [])"

lemma split_bidders_imps:
  assumes "split_bidders merge valid i imp sanitized params out = Inr out'" "distinct (map fst params)"
  shows "imps_of out' b = imps_of out b @ (case map_of params b of Some p \<Rightarrow> [(merged_imp merge imp b)\<lparr>ri_Ext := map_put ''bidder'' (XRaw p) sanitized\<rparr>] | None \<Rightarrow> [])"
  using assms
proof (induction params arbitrary: out)
  case (Cons bp rest)
  obtain c p where bp: "bp = (c, p)" by (cases bp)
  let ?imp = "(merged_imp merge imp c)\<lparr>ri_Ext := map_put ''bidder'' (XRaw p) sanitized\<rparr>"
  have step: "split_bidders merge valid i imp sanitized rest (map_put c (imps_of out c @ [?imp]) out) = Inr out'"
    using Cons.prems(1) by (auto simp: bp merged_imp_def imps_of_def Let_def split: option.splits if_splits)
  have "imps_of (map_put c (imps_of out c @ [?imp]) out) b = imps_of out b @ (if b = c then [?imp] else [])"
    by (auto simp: imps_of_def)
  moreover have "map_of rest c = None"
    using Cons.prems(2) by (simp add: bp map_of_eq_None_iff)
  ultimately show ?case
    using Cons.IH [OF step] Cons.prems(2) by (auto simp: bp)
qed (simp add: imps_of_def)

lemma split_loop_imps:
  assumes "split_loop merge valid i imps out = Inr out'" "list_all (\<lambda>imp. distinct (map fst (spl_PrebidBidder imp))) imps"
  shows "imps_of out' b = imps_of out b @ concat (map (imp_for merge b) imps)"
  using assms
proof (induction imps arbitrary: i out)
  case (Cons imp imps)
  then obtain e out1 where e: "spl_Ext imp = Some e"
    and 1: "split_bidders merge valid i imp (createSanitizedImpExt e) (spl_PrebidBidder imp) out = Inr out1"
    and 2: "split_loop merge valid (Suc i) imps out1 = Inr out'"
    by (auto split: option.splits sum.splits)
  show ?case
    using split_bidders_imps [OF 1] Cons.IH [OF 2] Cons.prems(2) by (auto simp: imp_for_def e split: option.splits)
qed simp


section \<open>The pipeline of a bidder\<close>

lemma ConvertDown_frame [simp]:
  "rw_Device (ConvertDownTo25 r) = rw_Device r"
  by (simp add: ConvertDownTo25_def change_imps_def moveEIDFrom26To25_def moveUSPrivacyFrom26To25_def moveConsentFrom26To25_def
      moveGDPRFrom26To25_def moveSupplyChainFrom26To25_def SetUserExtField_def split: option.split)

lemma ConvertDown_user:
  "rw_User (ConvertDownTo25 r) = map_option (\<lambda>u. u\<lparr>us_Consent := [], us_EIDs := []\<rparr>) (rw_User r)"
proof -
  have "rw_User (moveConsentFrom26To25 x) = map_option (\<lambda>u. u\<lparr>us_Consent := []\<rparr>) (rw_User x)"
    "rw_User (moveEIDFrom26To25 x) = map_option (\<lambda>u. u\<lparr>us_EIDs := []\<rparr>) (rw_User x)" for x
    by (auto simp: moveConsentFrom26To25_def moveEIDFrom26To25_def SetUserExtField_def split: option.split)
  moreover have "rw_User (moveUSPrivacyFrom26To25 x) = rw_User x" "rw_User (moveGDPRFrom26To25 x) = rw_User x"
    "rw_User (moveSupplyChainFrom26To25 x) = rw_User x" "rw_User (change_imps f x) = rw_User x" for x f
    by (simp_all add: moveUSPrivacyFrom26To25_def moveGDPRFrom26To25_def moveSupplyChainFrom26To25_def change_imps_def split: option.split)
  ultimately show ?thesis
    by (simp add: ConvertDownTo25_def option.map_comp comp_def)
qed

lemma later_steps_keep [simp]:
  "device_ids_gone (ConvertDownTo25 r) = device_ids_gone r"
  "user_ids_gone (ConvertDownTo25 r) = user_ids_gone r"
  "coarse_location conf (ConvertDownTo25 r) = coarse_location conf r"
  "device_ids_gone (removeImpsWithStoredResponses resp r) = device_ids_gone r"
  "user_ids_gone (removeImpsWithStoredResponses resp r) = user_ids_gone r"
  "coarse_location conf (removeImpsWithStoredResponses resp r) = coarse_location conf r"
  by (simp_all add: device_ids_gone_def user_ids_gone_def coarse_location_def ConvertDown_user option.pred_map comp_def removeImpsWithStoredResponses_def)

lemma legacy_keeps [simp]:
  "device_ids_gone (setLegacyUSPFromGPP gpp r) = device_ids_gone r"
  "user_ids_gone (setLegacyUSPFromGPP gpp r) = user_ids_gone r"
  "coarse_location conf (setLegacyUSPFromGPP gpp r) = coarse_location conf r"
  "device_ids_gone (setLegacyGDPRFromGPP gpp r) = device_ids_gone r"
  "user_ids_gone (setLegacyGDPRFromGPP gpp r) = user_ids_gone r"
  "coarse_location conf (setLegacyGDPRFromGPP gpp r) = coarse_location conf r"
  by (auto simp: device_ids_gone_def user_ids_gone_def coarse_location_def setLegacyUSPFromGPP_def setLegacyGDPRFromGPP_def Let_def empty_User_def
      split: option.split)

lemma finish_requestE:
  assumes "finish_request env bidder coreBidder perms r = Some r'"
  obtains r1 where "applyPrivacy (en_activities env) (en_conf env) perms (en_ccpa env) (en_lmt env) (en_coppa env) bidder r = Some r1"
    and "device_ids_gone r1 \<Longrightarrow> device_ids_gone r'" "user_ids_gone r1 \<Longrightarrow> user_ids_gone r'"
    and "coarse_location (en_conf env) r1 \<Longrightarrow> coarse_location (en_conf env) r'"
  using assms by (auto simp: finish_request_def Let_def Option.bind_eq_Some_conv split: if_splits option.splits)

text \<open>The policies that apply to the request of a bidder.\<close>

definition bidder_perms :: "splitter_env \<Rightarrow> BidderRequest \<Rightarrow> AuctionPermissions" where
  "bidder_perms env b = Perm_AuctionActivitiesAllowed (en_gdprPerms env) (br_BidderCoreName b) (br_BidderName b)"

definition bidder_allowed :: "splitter_env \<Rightarrow> RequestWrapper \<Rightarrow> Activity \<Rightarrow> BidderRequest \<Rightarrow> bool" where
  "bidder_allowed env req a b = Allow (en_activities env) a (bidder_scope (br_BidderName b)) (NewRequestFromBidRequest req)"

definition request_private :: "splitter_env \<Rightarrow> RequestWrapper \<Rightarrow> BidderRequest \<Rightarrow> bool" where
  "request_private env req b \<longleftrightarrow>
     bidder_allowed env req ActivityFetchBids b \<and> AllowBidRequest (bidder_perms env b) \<and>
     (let strict = ShouldEnforce (en_ccpa env) (br_BidderName b) \<or> en_lmt env \<or> en_coppa env in
      (\<not> bidder_allowed env req ActivityTransmitUserFPD b \<or> \<not> PassID (bidder_perms env b) \<or> strict \<longrightarrow>
        device_ids_gone (br_BidRequest b) \<and> user_ids_gone (br_BidRequest b)) \<and>
      (\<not> bidder_allowed env req ActivityTransmitPreciseGeo b \<or> \<not> PassGeo (bidder_perms env b) \<or> strict \<longrightarrow>
        coarse_location (en_conf env) (br_BidRequest b)))"

lemma regs_kept [simp]:
  "rw_Regs (CloneAndClearImpWrappers r) = rw_Regs r"
  "rw_Regs (SChain_Write w bidder r) = rw_Regs r"
  "rw_Regs (applyBidAdjustmentToFloor bidder fs r) = rw_Regs r"
  "rw_Regs (fst (prepareUser bidder uids c r)) = rw_Regs r"
  "rw_Regs (fst (applyFPD fpd core bidder al present r)) = rw_Regs r"
  by (auto simp: CloneAndClearImpWrappers_def SChain_Write_def applyBidAdjustmentToFloor_def prepareUser_def applyFPD_def Let_def
      split: option.split prod.split)

lemma imps_kept [simp]:
  "rw_impWrappers (CloneAndClearImpWrappers r) = None"
  "rw_impWrappers (SChain_Write w bidder r) = rw_impWrappers r"
  "rw_impWrappers (applyBidAdjustmentToFloor bidder fs r) = rw_impWrappers r"
  "rw_impWrappers (fst (prepareUser bidder uids c r)) = rw_impWrappers r"
  "rw_impWrappers (fst (applyFPD fpd core bidder al present r)) = rw_impWrappers r"
  "rw_Imp (SChain_Write w bidder r) = rw_Imp r"
  "map ri_ID (rw_Imp (applyBidAdjustmentToFloor bidder fs r)) = map ri_ID (rw_Imp r)"
  "rw_Imp (fst (prepareUser bidder uids c r)) = rw_Imp r"
  "rw_Imp (fst (applyFPD fpd core bidder al present r)) = rw_Imp r"
  by (auto simp: CloneAndClearImpWrappers_def SChain_Write_def applyBidAdjustmentToFloor_def prepareUser_def applyFPD_def Let_def
      split: option.split prod.split)

lemma eids_removal_frame: "removeUnpermissionedEids ps bidder r = Inr r' \<Longrightarrow> rw_Regs r' = rw_Regs r \<and> rw_Imp r' = rw_Imp r \<and> rw_impWrappers r' = rw_impWrappers r"
  by (auto simp: removeUnpermissionedEids_def Let_def split: option.splits if_splits)

lemma clean_bidderE:
  assumes "clean_bidder env req bidder imps fpd = Some (Inr b, fpd')"
  obtains r4 r5 where "rw_Regs r4 = rw_Regs req" "rw_Regs r5 = rw_Regs req" "br_BidderName b = bidder"
    and "rw_impWrappers r5 = None" "map ri_ID (rw_Imp r5) = map ri_ID imps"
    and "\<not> isBidderBlockedByPrivacy r4 (en_activities env) (bidder_perms env b) bidder"
    and "finish_request env bidder (br_BidderCoreName b) (bidder_perms env b) r5 = Some (br_BidRequest b)"
proof -
  obtain core al where res: "resolveBidder (en_bidderNameLookup env) bidder (case en_prebid env of Some p \<Rightarrow> rep_Aliases p | None \<Rightarrow> []) = (core, al)"
    by (cases "resolveBidder (en_bidderNameLookup env) bidder (case en_prebid env of Some p \<Rightarrow> rep_Aliases p | None \<Rightarrow> [])")
  define r1 where "r1 = SChain_Write (en_schain env) bidder ((CloneAndClearImpWrappers req)\<lparr>rw_Imp := imps\<rparr>)"
  obtain r2 where r2: "removeUnpermissionedEids (Some (en_eidPermissions env)) bidder r1 = Inr r2"
    using assms by (auto simp: clean_bidder_def res Let_def r1_def split: sum.splits)
  define r3 where "r3 = (if en_adjustFloors env then applyBidAdjustmentToFloor bidder (en_bidAdjustmentFactors env) r2 else r2)"
  define uid where "uid = GetUID (en_now env) (case map_of (en_bidderToSyncerKey env) core of Some k \<Rightarrow> k | None \<Rightarrow> []) (en_cookie env)"
  define r4 where "r4 = fst (prepareUser bidder (en_buyerUIDs env) (fst uid, fst (snd uid)) r3)"
  define r5 where "r5 = fst (applyFPD fpd core bidder al (fpdUserEIDExists req fpd bidder) r4)"
  have regs: "rw_Regs r4 = rw_Regs req" "rw_Regs r5 = rw_Regs req"
    and imps: "rw_impWrappers r5 = None" "map ri_ID (rw_Imp r5) = map ri_ID imps"
    using eids_removal_frame [OF r2] by (simp_all add: r5_def r4_def r3_def r1_def)
  let ?perms = "Perm_AuctionActivitiesAllowed (en_gdprPerms env) core bidder"
  have "\<not> isBidderBlockedByPrivacy r4 (en_activities env) ?perms bidder \<and> br_BidderName b = bidder \<and> br_BidderCoreName b = core
      \<and> finish_request env bidder core ?perms r5 = Some (br_BidRequest b)"
    using assms by (auto simp: clean_bidder_def res Let_def r1_def [symmetric] r2 r3_def [symmetric] uid_def [symmetric] r4_def r5_def
        split: prod.splits if_splits)
  then show thesis
    using regs imps by (intro that [of r4 r5]) (simp_all add: bidder_perms_def)
qed

lemma clean_bidder_private:
  assumes "clean_bidder env req bidder imps fpd = Some (Inr b, fpd')"
  shows "request_private env req b"
  using assms
proof (cases rule: clean_bidderE)
  case (1 r4 r5)
  from 1(7) show ?thesis
  proof (cases rule: finish_requestE)
    case (1 r6)
    note privacy = applyPrivacy_strips_ids [OF 1(1)] applyPrivacy_coarsens_location [OF 1(1)]
    show ?thesis
      using privacy 1 \<open>\<not> isBidderBlockedByPrivacy r4 _ _ _\<close> NewRequest_regs [OF \<open>rw_Regs r4 = rw_Regs req\<close>] NewRequest_regs [OF \<open>rw_Regs r5 = rw_Regs req\<close>]
      by (auto simp: request_private_def bidder_allowed_def isBidderBlockedByPrivacy_def Let_def \<open>br_BidderName b = bidder\<close> split: if_splits)
  qed
qed

lemma clean_bidders_all:
  assumes "clean_bidders env req imps fpd = Some (reqs, errs)"
    and "\<And>bidder l fpd fpd' b. (bidder, l) \<in> set imps \<Longrightarrow> clean_bidder env req bidder l fpd = Some (Inr b, fpd') \<Longrightarrow> P b"
  shows "list_all P reqs"
  using assms
proof (induction imps arbitrary: fpd reqs errs)
  case (Cons bi imps)
  obtain bidder l where bi: "bi = (bidder, l)" by (cases bi)
  with Cons.prems(1) obtain res fpd' reqs' errs' where 1: "clean_bidder env req bidder l fpd = Some (res, fpd')"
    and 2: "clean_bidders env req imps fpd' = Some (reqs', errs')"
    and reqs: "(reqs, errs) = (case res of Inl e \<Rightarrow> (reqs', e # errs') | Inr b \<Rightarrow> (b # reqs', errs'))"
    by (auto simp: Option.bind_eq_Some_conv)
  have "list_all P reqs'"
    using 2 Cons.prems(2) by (rule Cons.IH) auto
  moreover have "P b" if "res = Inr b" for b
    using Cons.prems(2) [of bidder l fpd b fpd'] 1 bi that by simp
  ultimately show ?case
    using reqs by (auto split: sum.splits)
qed simp

lemma cleanE:
  assumes "cleanOpenRTBRequests merge valid env inp req0 = Some (Inr (reqs, errs, ccpaErr))"
  obtains uids req writer imps where "extractAndCleanBuyerUIDs (in_BuyerUIDs inp) (PreloadExts req0) = (uids, req)"
    and "splitImps merge valid (in_Imps inp) = Inr imps"
    and "clean_bidders (env_for env inp uids writer req) req imps (in_FPD inp) = Some (reqs, errs)"
  using assms by (auto simp: cleanOpenRTBRequests_def Let_def split: sum.splits prod.splits)

lemma extract_frame:
  assumes "extractAndCleanBuyerUIDs u (PreloadExts r) = (uids, req)"
  shows "rw_Device req = rw_Device r" "rw_Regs req = rw_Regs r" "rw_User req = rw_User r"
  using assms by (auto simp: extractAndCleanBuyerUIDs_def PreloadExts_def SetUserExtField_def split: option.splits)

section \<open>Stored responses\<close>

lemma rebuild_imp: "rw_Imp (RebuildRequest r) = GetImp r"
  by (simp add: RebuildRequest_def rebuildUserExt_def rebuildImp_def GetImp_def split: option.split bool.split)

lemma ConvertDown_imp_ids: "map ri_ID (GetImp (ConvertDownTo25 r)) = map ri_ID (GetImp r)"
proof -
  have "ri_ID (moveRewardedFrom26ToPrebidExt i) = ri_ID i" for i
    by (simp add: moveRewardedFrom26ToPrebidExt_def)
  moreover have "GetImp (moveEIDFrom26To25 x) = GetImp x" "GetImp (moveConsentFrom26To25 x) = GetImp x" "GetImp (moveUSPrivacyFrom26To25 x) = GetImp x"
    "GetImp (moveGDPRFrom26To25 x) = GetImp x" "GetImp (moveSupplyChainFrom26To25 x) = GetImp x" "GetImp (change_imps f x) = map f (GetImp x)" for x f
    by (simp_all add: moveUSPrivacyFrom26To25_def moveGDPRFrom26To25_def moveSupplyChainFrom26To25_def change_imps_def moveEIDFrom26To25_def
        moveConsentFrom26To25_def SetUserExtField_def GetImp_def split: option.split)
  ultimately show ?thesis by (simp add: ConvertDownTo25_def comp_def)
qed

definition no_wrappers :: "RequestWrapper \<Rightarrow> ReqImp list \<Rightarrow> bool" where
  "no_wrappers r imps \<longleftrightarrow> rw_impWrappers r = None \<and> rw_Imp r = imps"

lemma scrub_no_wrappers [simp]:
  "no_wrappers (ScrubDeviceIDsIPsUserDemoExt conf f full r) imps = no_wrappers r imps"
  "no_wrappers (ScrubGdprID r) imps = no_wrappers r imps"
  "no_wrappers (ScrubGeoAndDeviceIP conf r) imps = no_wrappers r imps"
  by (simp_all add: no_wrappers_def scrub_defs Let_def)

lemma ScrubUserFPD_no_wrappers: "ScrubUserFPD r = Some r' \<Longrightarrow> no_wrappers r' imps = no_wrappers r imps"
  by (auto simp: no_wrappers_def ScrubUserFPD_def scrub_defs Let_def split: option.splits)

lemma privacy_no_wrappers:
  assumes "privacy_ids a conf perms ccpa bidder r = Some r1" "no_wrappers r imps"
  shows "no_wrappers (privacy_flags conf lmt coppa (privacy_geo a conf perms ccpa bidder r1)) imps"
  using assms by (auto simp: privacy_ids_def privacy_geo_def privacy_flags_def Let_def ScrubUserFPD_no_wrappers split: if_splits)

lemma privacy_flags_regs: "sr = privacy_flags conf lmt coppa (privacy_geo a conf perms ccpa bidder r) \<Longrightarrow> rw_Regs sr = rw_Regs r"
  by (simp add: privacy_flags_def privacy_geo_keeps)

text \<open>After privacy the wrappers hold the impressions exactly if the transaction IDs were scrubbed.\<close>

lemma applyPrivacy_imps:
  assumes "applyPrivacy a conf perms ccpa lmt coppa bidder r = Some r'" "rw_impWrappers r = None"
  shows "map ri_ID (rw_Imp r') = map ri_ID (rw_Imp r)"
    and "map_option (map ri_ID) (rw_impWrappers r') =
      (if Allow a ActivityTransmitTIDs (bidder_scope bidder) (NewRequestFromBidRequest r) then None else Some (map ri_ID (rw_Imp r)))"
proof -
  from assms(1) obtain r1 where r1: "privacy_ids a conf perms ccpa bidder r = Some r1"
    and r': "r' = RebuildRequest (privacy_tids a bidder (privacy_flags conf lmt coppa (privacy_geo a conf perms ccpa bidder r1)))"
    by (rule applyPrivacyE)
  define r3 where "r3 = privacy_flags conf lmt coppa (privacy_geo a conf perms ccpa bidder r1)"
  have r3: "rw_impWrappers r3 = None" "rw_Imp r3 = rw_Imp r"
    using privacy_no_wrappers [OF r1, of "rw_Imp r" lmt coppa] assms(2) by (simp_all add: no_wrappers_def r3_def)
  have q: "NewRequestFromBidRequest r3 = NewRequestFromBidRequest r"
    using privacy_flags_regs [OF r3_def] privacy_ids_regs [OF r1] by (intro NewRequest_regs) simp
  show "map ri_ID (rw_Imp r') = map ri_ID (rw_Imp r)"
    using r3 by (simp add: r' r3_def [symmetric] rebuild_imp privacy_tids_def ScrubTID_def GetImp_def SetImp_def comp_def)
  show "map_option (map ri_ID) (rw_impWrappers r') =
      (if Allow a ActivityTransmitTIDs (bidder_scope bidder) (NewRequestFromBidRequest r) then None else Some (map ri_ID (rw_Imp r)))"
    using r3 q by (simp add: r' r3_def [symmetric] RebuildRequest_def rebuildUserExt_def rebuildImp_def privacy_tids_def ScrubTID_def GetImp_def SetImp_def
        comp_def split: option.split bool.split)
qed

definition has_stored :: "splitter_env \<Rightarrow> string \<Rightarrow> string \<Rightarrow> bool" where
  "has_stored env bidder impID \<longleftrightarrow> (case map_of (en_stored env) bidder of Some m \<Rightarrow> map_has m impID | None \<Rightarrow> False)"

lemma legacy_imps [simp]:
  "rw_Imp (setLegacyUSPFromGPP gpp r) = rw_Imp r" "rw_impWrappers (setLegacyUSPFromGPP gpp r) = rw_impWrappers r"
  "rw_Imp (setLegacyGDPRFromGPP gpp r) = rw_Imp r" "rw_impWrappers (setLegacyGDPRFromGPP gpp r) = rw_impWrappers r"
  by (auto simp: setLegacyUSPFromGPP_def setLegacyGDPRFromGPP_def Let_def split: option.split)

lemma stored_removed:
  assumes "rw_impWrappers r = w"
  shows "map ri_ID (GetImp (case map_of (en_stored env) bidder of Some resp \<Rightarrow> removeImpsWithStoredResponses resp r | None \<Rightarrow> r)) =
    (case w of None \<Rightarrow> filter (\<lambda>x. \<not> has_stored env bidder x) (map ri_ID (rw_Imp r)) | Some imps \<Rightarrow> map ri_ID imps)"
  using assms by (auto simp: GetImp_def removeImpsWithStoredResponses_def has_stored_def filter_map comp_def split: option.split)

lemma finish_request_imps:
  assumes "finish_request env bidder core perms r = Some r'" "rw_impWrappers r = None"
  shows "map ri_ID (rw_Imp r') =
    (if Allow (en_activities env) ActivityTransmitTIDs (bidder_scope bidder) (NewRequestFromBidRequest r)
     then filter (\<lambda>x. \<not> has_stored env bidder x) (map ri_ID (rw_Imp r)) else map ri_ID (rw_Imp r))"
proof -
  obtain r1 where r1: "applyPrivacy (en_activities env) (en_conf env) perms (en_ccpa env) (en_lmt env) (en_coppa env) bidder r = Some r1"
    using assms(1) by (auto simp: finish_request_def Option.bind_eq_Some_conv)
  define r2 where "r2 = (if shouldSetLegacyPrivacy (en_bidderInfo env) core then setLegacyUSPFromGPP (en_gpp env) (setLegacyGDPRFromGPP (en_gpp env) r1) else r1)"
  have "map ri_ID (rw_Imp r') = map ri_ID (GetImp (case map_of (en_stored env) bidder of Some resp \<Rightarrow> removeImpsWithStoredResponses resp r2 | None \<Rightarrow> r2))"
    using assms(1) r1 by (auto simp: finish_request_def Let_def r2_def [symmetric] rebuild_imp ConvertDown_imp_ids split: option.splits if_splits)
  moreover have "rw_impWrappers r2 = rw_impWrappers r1" "rw_Imp r2 = rw_Imp r1"
    by (simp_all add: r2_def)
  ultimately show ?thesis
    using applyPrivacy_imps [OF r1 assms(2)] stored_removed [OF refl, of r2 env bidder] by (auto split: option.splits if_splits)
qed

text \<open>
  C20. Impressions with a stored response are not sent to the bidder the response stands for when the bidder may get transaction IDs.
  When the activity to transmit them is denied, all impressions are sent: scrubbing the transaction IDs fills the cache of
  impressions, removing impressions leaves the cache alone, and the rebuilt request takes its impressions from the cache.
\<close>
theorem stored_imps_sent:
  assumes "clean_bidder env req bidder imps fpd = Some (Inr b, fpd')"
  shows "map ri_ID (rw_Imp (br_BidRequest b)) =
    (if Allow (en_activities env) ActivityTransmitTIDs (bidder_scope bidder) (NewRequestFromBidRequest req)
     then filter (\<lambda>x. \<not> has_stored env bidder x) (map ri_ID imps) else map ri_ID imps)"
  using assms
proof (cases rule: clean_bidderE)
  case (1 r4 r5)
  then show ?thesis
    using finish_request_imps [OF 1(7,4)] NewRequest_regs [of r5 req] by simp
qed

section \<open>First-party data and the cached extension\<close>

text \<open>
  The privacy step does not see the extension of a first-party user: with the extension of the request cached and clean, and without the
  scrubbed fields there, the extension of the first-party user reaches the bidder, also when transmitting first-party user data is denied.
\<close>
lemma fpd_user_ext_not_scrubbed:
  assumes "map_of fpd core = Some f" "fpd_User f = Some fu" "rw_userExt r = Some (e, False)" "map_of e ''data'' = None" "map_of e ''eids'' = None"
    and "applyPrivacy activities conf perms ccpa lmt coppa bidder (fst (applyFPD fpd core bidder False present r)) = Some r'"
  shows "user_ext r' = us_Ext fu"
proof -
  define x where "x = fst (applyFPD fpd core bidder False present r)"
  have "rw_userExt x = Some (e, False)" "user_ext x = us_Ext fu"
    using assms(1-3) by (auto simp: x_def applyFPD_def Let_def user_ext_def split: option.split)
  with stale_cache_not_scrubbed [of activities conf perms ccpa lmt coppa bidder x r' e] assms(4-6) show ?thesis
    by (simp add: x_def)
qed

section \<open>Supply chains of a bidder\<close>

text \<open>
  The chain a bidder gets: its own entry of the request, else the wildcard entry, else an empty chain, extended by the node of the host; a
  request keeps the chain it came with only if there is neither an entry for the bidder nor a node of the host.
\<close>
theorem schain_written:
  "map_option so_SChain (rw_Source (SChain_Write w bidder r)) =
     (case (if map_has (scw_sChainsByBidder w) bidder then map_of (scw_sChainsByBidder w) bidder else map_of (scw_sChainsByBidder w) ''*'',
            scw_hostSChainNode w) of
        (None, None) \<Rightarrow> map_option so_SChain (rw_Source r)
      | (Some sc, None) \<Rightarrow> Some (Some sc)
      | (Some sc, Some node) \<Rightarrow> Some (Some (sc\<lparr>sc_Nodes := sc_Nodes sc @ [node]\<rparr>))
      | (None, Some node) \<Rightarrow> Some (Some \<lparr>sc_Ver = ''1.0'', sc_Complete = 0, sc_Nodes = [node]\<rparr>))"
  by (auto simp: SChain_Write_def Let_def split: option.split)

section \<open>Examples\<close>

definition two_imps :: "SplitImp list" where
  "two_imps = map (\<lambda>(i, bs). \<lparr>spl_Imp = \<lparr>ri_ID = i, ri_BidFloor = 0, ri_Rwdd = 0, ri_Ext = []\<rparr>, spl_Ext = Some [(''gpid'', XRaw ''g'')], spl_PrebidBidder = bs, spl_PrebidImp = []\<rparr>)
     [(''1'', [(''a'', ''p''), (''b'', ''q'')]), (''2'', [(''a'', ''r'')])]"


definition plain_env :: "ActivityControl \<Rightarrow> splitter_env" where
  "plain_env acts = \<lparr>en_bidderToSyncerKey = [], en_bidderNameLookup = [(''a'', ''a'')], en_bidderInfo = [], en_conf = sample_conf, en_activities = acts,
     en_gdprPerms = AlwaysAllow, en_ccpa = NilPolicyEnforcer, en_lmt = False, en_coppa = False, en_gpp = \<lparr>gpp_SectionTypes = [], gpp_Sections = []\<rparr>,
     en_schain = \<lparr>scw_sChainsByBidder = [], scw_hostSChainNode = None\<rparr>, en_eidPermissions = [], en_prebid = None, en_bidderParams = [],
     en_accountABC = None, en_adjustFloors = False, en_bidAdjustmentFactors = [], en_buyerUIDs = [], en_cookie = None, en_now = 0,
     en_stored = [(''a'', [(''1'', ''{}'')])]\<rparr>"

definition no_tids :: ActivityControl where
  "no_tids = NewActivityControl (Some \<lparr>apr_AllowActivities = Some (\<lambda>a. \<lparr>acf_Default = Some (a \<noteq> ActivityTransmitTIDs), acf_Rules = []\<rparr>), apr_IPv6 = 56, apr_IPv4 = 24\<rparr>)"

lemma no_tids_allow: "Allow no_tids a c q \<longleftrightarrow> a \<noteq> ActivityTransmitTIDs"
  by (simp add: no_tids_def Allow_def NewActivityControl_def map_of_activities Plan_Evaluate_def buildPlan_def evaluate_cfg_rules cfgToDefaultResult_def
      del: list.map)

abbreviation imps12 :: "ReqImp list" where
  "imps12 \<equiv> map (\<lambda>i. \<lparr>ri_ID = i, ri_BidFloor = 0, ri_Rwdd = 0, ri_Ext = []\<rparr>) [''1'', ''2'']"

lemma plain_env_sends:
  assumes "\<And>c q. Allow acts ActivityFetchBids c q" "\<And>c q. Allow acts ActivityTransmitUserFPD c q"
  shows "\<exists>b. clean_bidder (plain_env acts) scrub_sample ''a'' imps12 [] = Some (Inr b, [])"
  using assms by (simp add: clean_bidder_def plain_env_def resolveBidder_def SChain_Write_def removeUnpermissionedEids_def applyFPD_def
      isBidderBlockedByPrivacy_def AllowAll_def GetUID_def prepareUser_def finish_request_def applyPrivacy_def privacy_ids_def Let_def
      CloneAndClearImpWrappers_def scrub_sample_def split: option.split)

theorem stored_imps_sent_witness:
  "\<exists>b c. clean_bidder (plain_env open_activities) scrub_sample ''a'' imps12 [] = Some (Inr b, []) \<and> map ri_ID (rw_Imp (br_BidRequest b)) = [''2'']
     \<and> clean_bidder (plain_env no_tids) scrub_sample ''a'' imps12 [] = Some (Inr c, []) \<and> map ri_ID (rw_Imp (br_BidRequest c)) = [''1'', ''2'']"
proof -
  obtain b where b: "clean_bidder (plain_env open_activities) scrub_sample ''a'' imps12 [] = Some (Inr b, [])"
    using plain_env_sends [of open_activities] by auto
  obtain c where c: "clean_bidder (plain_env no_tids) scrub_sample ''a'' imps12 [] = Some (Inr c, [])"
    using plain_env_sends [of no_tids] by (auto simp: no_tids_allow)
  show ?thesis
    using b c stored_imps_sent [OF b] stored_imps_sent [OF c] by (auto simp: plain_env_def no_tids_allow has_stored_def)
qed

end
