(* ===== verification/RulesTree.thy ===== *)
theory RulesTree
  imports Gostrings
begin

text \<open>
  \<^verbatim>\<open>rules/tree.go\<close> and \<^verbatim>\<open>rules/result_functions.go\<close>: the decision trees of the rules engine, and \<^verbatim>\<open>modules/prebid/rulesengine/tree_builder.go\<close>, which
  builds them from the rules of an account. Running a built tree is shown to be a search in the list of rules. The types of
  payload and result are arbitrary, as in the code. A tree is a value: builders own it until it is complete.
\<close>

section \<open>Trees\<close>

record ResultFunctionMeta =
  rm_SchemaFunctionResults :: "(string \<times> string) list"
  rm_AnalyticsKey :: string
  rm_RuleFired :: string
  rm_ModelVersion :: string

definition appendToSchemaFunctionResults :: "string \<Rightarrow> string \<Rightarrow> ResultFunctionMeta \<Rightarrow> ResultFunctionMeta" where
  "appendToSchemaFunctionResults name v m = m\<lparr>rm_SchemaFunctionResults := rm_SchemaFunctionResults m @ [(name, v)]\<rparr>"

definition appendToRuleFired :: "string \<Rightarrow> ResultFunctionMeta \<Rightarrow> ResultFunctionMeta" where
  "appendToRuleFired v m = m\<lparr>rm_RuleFired := (if rm_RuleFired m = [] then v else rm_RuleFired m @ ''|'' @ v)\<rparr>"

text \<open>A schema function returns an error or a value; a result function changes the result and may return an error.\<close>

record 'p SchemaFunction =
  sf_Name :: string
  sf_Call :: "'p \<Rightarrow> string + string"

record ('p, 'r) ResultFunction =
  rf_Name :: string
  rf_Call :: "'p \<Rightarrow> 'r \<Rightarrow> ResultFunctionMeta \<Rightarrow> string option \<times> 'r"

datatype ('p, 'r) Node = Node
  (SchemaFunction_of: "'p SchemaFunction option")
  (ResultFunctions: "('p, 'r) ResultFunction list")
  (Children: "(string \<times> ('p, 'r) Node option) list")

record ('p, 'r) Tree =
  tr_Root :: "('p, 'r) Node option"
  tr_DefaultFunctions :: "('p, 'r) ResultFunction list"
  tr_AnalyticsKey :: string
  tr_ModelVersion :: string

datatype rules_error = RootIsNil | SchemaFunctionIsNil | CallError string | Malformed | FactoryError string | BuildPanic

definition empty_node :: "('p, 'r) Node" where
  "empty_node = Node None [] []"

definition isLeaf :: "('p, 'r) Node \<Rightarrow> bool" where
  "isLeaf n \<longleftrightarrow> Children n = []"

text \<open>The exact value first, then the wildcard; a nil child counts as no match for the caller.\<close>

definition matchChild :: "('p, 'r) Node \<Rightarrow> string \<Rightarrow> string \<times> ('p, 'r) Node option" where
  "matchChild n v =
     (case map_of (Children n) v of
        Some c \<Rightarrow> (v, c)
      | None \<Rightarrow> (case map_of (Children n) ''*'' of Some c \<Rightarrow> (''*'', c) | None \<Rightarrow> ([], None)))"

lemma matchChild_size: "matchChild n v = (k, Some c) \<Longrightarrow> size c < size n"
proof -
  assume "matchChild n v = (k, Some c)"
  then have "(k, Some c) \<in> set (Children n)"
    by (auto simp: matchChild_def split: option.splits dest: map_of_SomeD)
  then have "size c \<le> size_list (size_prod (\<lambda>_. 0) (size_option size)) (Children n)"
    by (induction "Children n" arbitrary: n) (force elim!: size_list_estimation')+
  then show "size c < size n" by (cases n) simp
qed

text \<open>The walk of \<^verbatim>\<open>Run\<close>: the node it ends at, \<open>None\<close> where no child matched.\<close>

function walk :: "'p \<Rightarrow> ('p, 'r) Node \<Rightarrow> ResultFunctionMeta \<Rightarrow> rules_error + ('p, 'r) Node option \<times> ResultFunctionMeta" where
  "walk payload n m =
     (if isLeaf n then Inr (Some n, m)
      else
        (case SchemaFunction_of n of
           None \<Rightarrow> Inl SchemaFunctionIsNil
         | Some f \<Rightarrow>
             (case sf_Call f payload of
                Inl e \<Rightarrow> Inl (CallError e)
              | Inr res \<Rightarrow>
                  let m = appendToSchemaFunctionResults (sf_Name f) res m
                  in (case matchChild n res of
                        (_, None) \<Rightarrow> Inr (None, m\<lparr>rm_RuleFired := ''default''\<rparr>)
                      | (key, Some c) \<Rightarrow> walk payload c (appendToRuleFired key m)))))"
  by pat_completeness auto
termination
  by (relation "measure (\<lambda>(_, n, _). size n)") (auto dest: matchChild_size [OF sym])

declare walk.simps [simp del]

fun run_results :: "('p, 'r) ResultFunction list \<Rightarrow> 'p \<Rightarrow> 'r \<Rightarrow> ResultFunctionMeta \<Rightarrow> rules_error option \<times> 'r" where
  "run_results [] payload result m = (None, result)"
| "run_results (rf # rfs) payload result m =
    (case rf_Call rf payload result m of
       (Some e, r) \<Rightarrow> (Some (CallError e), r)
     | (None, r) \<Rightarrow> run_results rfs payload r m)"

definition start_meta :: "('p, 'r) Tree \<Rightarrow> ResultFunctionMeta" where
  "start_meta t = \<lparr>rm_SchemaFunctionResults = [], rm_AnalyticsKey = tr_AnalyticsKey t, rm_RuleFired = [], rm_ModelVersion = tr_ModelVersion t\<rparr>"

definition Run :: "('p, 'r) Tree \<Rightarrow> 'p \<Rightarrow> 'r \<Rightarrow> rules_error option \<times> 'r" where
  "Run t payload result =
     (case tr_Root t of
        None \<Rightarrow> (Some RootIsNil, result)
      | Some rt \<Rightarrow>
          (case walk payload rt (start_meta t) of
             Inl e \<Rightarrow> (Some e, result)
           | Inr (n, m) \<Rightarrow> run_results (case n of None \<Rightarrow> tr_DefaultFunctions t | Some n \<Rightarrow> ResultFunctions n) payload result m))"

section \<open>Validation\<close>

text \<open>\<open>first\<close> is the depth of the first leaf, \<open>-1\<close> before there is one.\<close>

fun validateNode :: "('p, 'r) Node option \<Rightarrow> int \<Rightarrow> int \<Rightarrow> bool \<times> int"
  and validate_children :: "(string \<times> ('p, 'r) Node option) list \<Rightarrow> int \<Rightarrow> int \<Rightarrow> bool \<times> int" where
  "validateNode None depth first = (True, first)"
| "validateNode (Some (Node s r ch)) depth first =
    (if ch = [] then (if first = -1 then (True, depth) else (depth = first, first)) else validate_children ch (depth + 1) first)"
| "validate_children [] depth first = (True, first)"
| "validate_children ((k, c) # cs) depth first =
    (case validateNode c depth first of (False, f) \<Rightarrow> (False, f) | (True, f) \<Rightarrow> validate_children cs depth f)"

definition validate :: "('p, 'r) Tree \<Rightarrow> rules_error option" where
  "validate t =
     (case tr_Root t of
        None \<Rightarrow> None
      | Some rt \<Rightarrow> if fst (validateNode (Some rt) 0 (-1)) then None else Some Malformed)"

fun leaf_depths :: "('p, 'r) Node option \<Rightarrow> int \<Rightarrow> int list"
  and child_depths :: "(string \<times> ('p, 'r) Node option) list \<Rightarrow> int \<Rightarrow> int list" where
  "leaf_depths None d = []"
| "leaf_depths (Some (Node s r ch)) d = (if ch = [] then [d] else child_depths ch (d + 1))"
| "child_depths [] d = []"
| "child_depths ((k, c) # cs) d = leaf_depths c d @ child_depths cs d"

lemma depths_nonneg:
  fixes n :: "('p, 'r) Node option" and cs :: "(string \<times> ('p, 'r) Node option) list"
  shows "0 \<le> d \<Longrightarrow> x \<in> set (leaf_depths n d) \<Longrightarrow> 0 \<le> x" and "0 \<le> d \<Longrightarrow> x \<in> set (child_depths cs d) \<Longrightarrow> 0 \<le> x"
  by (induction n d and cs d rule: leaf_depths_child_depths.induct) (auto split: if_splits)

definition first_leaf :: "int \<Rightarrow> int list \<Rightarrow> int" where
  "first_leaf f ds = (if f = -1 \<and> ds \<noteq> [] then hd ds else f)"

lemma first_leaf_append: "-1 \<notin> set ds \<Longrightarrow> first_leaf f (ds @ es) = first_leaf (first_leaf f ds) es"
  by (cases ds) (auto simp: first_leaf_def)

lemma first_leaf_stable: "-1 \<notin> set ds \<Longrightarrow> set ds \<subseteq> {first_leaf f ds} \<Longrightarrow> set (ds @ es) \<subseteq> {first_leaf (first_leaf f ds) es} \<longleftrightarrow> set es \<subseteq> {first_leaf (first_leaf f ds) es}"
  by (cases ds) (auto simp: first_leaf_def split: if_splits)

lemma validate_sound:
  fixes n :: "('p, 'r) Node option" and cs :: "(string \<times> ('p, 'r) Node option) list"
  shows "0 \<le> d \<Longrightarrow> if set (leaf_depths n d) \<subseteq> {first_leaf f (leaf_depths n d)} then validateNode n d f = (True, first_leaf f (leaf_depths n d)) else \<not> fst (validateNode n d f)"
    and "0 \<le> d \<Longrightarrow> if set (child_depths cs d) \<subseteq> {first_leaf f (child_depths cs d)} then validate_children cs d f = (True, first_leaf f (child_depths cs d)) else \<not> fst (validate_children cs d f)"
proof (induction n d f and cs d f rule: validateNode_validate_children.induct)
  case (4 k c cs d f)
  have pos: "-1 \<notin> set (leaf_depths c d)" using depths_nonneg(1) [OF "4.prems", of "-1" c] by auto
  show ?case
  proof (cases "set (leaf_depths c d) \<subseteq> {first_leaf f (leaf_depths c d)}")
    case True
    with 4 have v: "validateNode c d f = (True, first_leaf f (leaf_depths c d))" by simp
    with "4.IH"(2) [OF v [symmetric] refl "4.prems"] show ?thesis
      unfolding child_depths.simps first_leaf_append [OF pos] first_leaf_stable [OF pos True] by simp
  next
    case False
    with 4 have "\<not> fst (validateNode c d f)" by simp
    then have v: "\<not> fst (validate_children ((k, c) # cs) d f)" by (cases "validateNode c d f") auto
    have "\<not> set (leaf_depths c d @ child_depths cs d) \<subseteq> {first_leaf f (leaf_depths c d @ child_depths cs d)}"
      using False by (cases "leaf_depths c d") (auto simp: first_leaf_def split: if_splits)
    then show ?thesis using v by (simp only: child_depths.simps if_False not_False_eq_True)
  qed
next
  case (2 s r ch d f)
  show ?case
  proof (cases "ch = []")
    case True
    then show ?thesis by (simp add: first_leaf_def)
  next
    case False
    then show ?thesis using "2.IH" "2.prems" by simp
  qed
qed (simp_all add: first_leaf_def)

text \<open>
  Validation accepts exactly the trees whose leaves all have the same depth, in whatever order it visits the children.
\<close>
theorem validate_uniform:
  "validate t = None \<longleftrightarrow> (case tr_Root t of None \<Rightarrow> True | Some rt \<Rightarrow> \<exists>d. set (leaf_depths (Some rt) 0) \<subseteq> {d})"
proof (cases "tr_Root t")
  case (Some rt)
  have "set ds \<subseteq> {first_leaf (-1) ds} \<longleftrightarrow> (\<exists>d. set ds \<subseteq> {d})" for ds
    by (cases ds) (auto simp: first_leaf_def)
  then show ?thesis
    using validate_sound(1) [of 0 "Some rt" "-1"] Some by (auto simp: validate_def split: if_splits)
qed (simp add: validate_def)

section \<open>Building a tree from rules\<close>

record ('s, 'a) ModelGroup =
  mg_Schema :: "'s list"
  mg_Rules :: "(string list \<times> 'a list) list"
  mg_Default :: "'a list"

text \<open>
  The factories turn the configuration of a function into the function. A node gets its schema function with its first child; a
  rule with more conditions than there are schema functions panics. Results are built after the path.
\<close>

fun build_results :: "('a \<Rightarrow> string + ('p, 'r) ResultFunction) \<Rightarrow> 'a list \<Rightarrow> rules_error + ('p, 'r) ResultFunction list" where
  "build_results mkr [] = Inr []"
| "build_results mkr (a # as) =
    (case mkr a of Inl e \<Rightarrow> Inl (FactoryError e) | Inr f \<Rightarrow> (case build_results mkr as of Inl e \<Rightarrow> Inl e | Inr fs \<Rightarrow> Inr (f # fs)))"

definition level_function :: "('s \<Rightarrow> string + 'p SchemaFunction) \<Rightarrow> 's list \<Rightarrow> nat \<Rightarrow> rules_error + 'p SchemaFunction" where
  "level_function mks schema ci =
     (if ci < length schema then (case mks (schema ! ci) of Inl e \<Rightarrow> Inl (FactoryError e) | Inr f \<Rightarrow> Inr f) else Inl BuildPanic)"

fun add_rule :: "(nat \<Rightarrow> rules_error + 'p SchemaFunction) \<Rightarrow> nat \<Rightarrow> string list \<Rightarrow> (rules_error + ('p, 'r) ResultFunction list) \<Rightarrow> ('p, 'r) Node \<Rightarrow> rules_error + ('p, 'r) Node" where
  "add_rule level ci [] rfs (Node s r ch) = (case rfs of Inl e \<Rightarrow> Inl e | Inr fs \<Rightarrow> Inr (Node s (r @ fs) ch))"
| "add_rule level ci (condition # cs) rfs (Node s r ch) =
    (case (if ch = [] then map_sum id Some (level ci) else Inr s) of
       Inl e \<Rightarrow> Inl e
     | Inr s' \<Rightarrow>
         (case (case map_of ch condition of None \<Rightarrow> Some empty_node | Some c \<Rightarrow> c) of
            None \<Rightarrow> Inl BuildPanic
          | Some c \<Rightarrow>
              (case add_rule level (Suc ci) cs rfs c of
                 Inl e \<Rightarrow> Inl e
               | Inr c' \<Rightarrow> Inr (Node s' r (map_put condition (Some c') ch)))))"

fun add_rules :: "(nat \<Rightarrow> rules_error + 'p SchemaFunction) \<Rightarrow> ('a \<Rightarrow> string + ('p, 'r) ResultFunction) \<Rightarrow> (string list \<times> 'a list) list \<Rightarrow> ('p, 'r) Node \<Rightarrow> rules_error + ('p, 'r) Node" where
  "add_rules level mkr [] n = Inr n"
| "add_rules level mkr ((cs, as) # rules) n =
    (case add_rule level 0 cs (build_results mkr as) n of Inl e \<Rightarrow> Inl e | Inr n' \<Rightarrow> add_rules level mkr rules n')"

definition Build :: "('s \<Rightarrow> string + 'p SchemaFunction) \<Rightarrow> ('a \<Rightarrow> string + ('p, 'r) ResultFunction) \<Rightarrow> ('s, 'a) ModelGroup \<Rightarrow> ('p, 'r) Tree \<Rightarrow> rules_error + ('p, 'r) Tree" where
  "Build mks mkr cfg t =
     (case build_results mkr (mg_Default cfg) of
        Inl e \<Rightarrow> Inl e
      | Inr ds \<Rightarrow>
          (case tr_Root t of
             None \<Rightarrow> if mg_Rules cfg = [] then Inr (t\<lparr>tr_DefaultFunctions := ds\<rparr>) else Inl BuildPanic
           | Some rt \<Rightarrow>
               (case add_rules (level_function mks (mg_Schema cfg)) mkr (mg_Rules cfg) rt of
                  Inl e \<Rightarrow> Inl e
                | Inr n \<Rightarrow> Inr (t\<lparr>tr_DefaultFunctions := ds, tr_Root := Some n\<rparr>))))"

definition new_tree :: "('p, 'r) Tree" where
  "new_tree = \<lparr>tr_Root = Some empty_node, tr_DefaultFunctions = [], tr_AnalyticsKey = [], tr_ModelVersion = []\<rparr>"

definition NewTree :: "(('p, 'r) Tree \<Rightarrow> rules_error + ('p, 'r) Tree) \<Rightarrow> rules_error + ('p, 'r) Tree" where
  "NewTree build =
     (case build new_tree of
        Inl e \<Rightarrow> Inl e
      | Inr t \<Rightarrow> (case validate t of Some e \<Rightarrow> Inl e | None \<Rightarrow> Inr t))"

section \<open>Running it is a search in the rules\<close>

text \<open>
  The reference works on the list of rules alone. For each schema value it keeps the rules that name the value, or, if there are none,
  those with the wildcard; it fails when nothing is left. It yields the keys it used and the results of what is left.
\<close>

definition with_first :: "string \<Rightarrow> (string list \<times> 'b) list \<Rightarrow> (string list \<times> 'b) list" where
  "with_first k rules = map (\<lambda>(cs, r). (tl cs, r)) (filter (\<lambda>(cs, r). cs \<noteq> [] \<and> hd cs = k) rules)"

fun search :: "string list \<Rightarrow> (string list \<times> 'b list) list \<Rightarrow> string list \<times> 'b list option" where
  "search [] rules = ([], Some (concat (map snd rules)))"
| "search (v # vs) rules =
    (let k = (if with_first v rules \<noteq> [] then v else ''*'')
     in if with_first k rules = [] then ([], None) else (let (ks, r) = search vs (with_first k rules) in (k # ks, r)))"

text \<open>The node for a list of rules with \<open>n\<close> conditions each, from level \<open>ci\<close> on.\<close>

fun represents :: "(nat \<Rightarrow> 'p SchemaFunction) \<Rightarrow> nat \<Rightarrow> nat \<Rightarrow> (string list \<times> ('p, 'r) ResultFunction list) list \<Rightarrow> ('p, 'r) Node \<Rightarrow> bool" where
  "represents f 0 ci rules nd \<longleftrightarrow> Children nd = [] \<and> ResultFunctions nd = concat (map snd rules)"
| "represents f (Suc n) ci rules nd \<longleftrightarrow>
     ResultFunctions nd = [] \<and> (Children nd = [] \<longleftrightarrow> rules = []) \<and> (rules \<noteq> [] \<longrightarrow> SchemaFunction_of nd = Some (f ci))
     \<and> (\<forall>k. case map_of (Children nd) k of
            None \<Rightarrow> with_first k rules = []
          | Some None \<Rightarrow> False
          | Some (Some c) \<Rightarrow> with_first k rules \<noteq> [] \<and> represents f n (Suc ci) (with_first k rules) c)"

lemma with_first_Nil [simp]: "with_first k [] = []"
  by (simp add: with_first_def)

lemma with_first_append: "with_first k (rs @ [(cs, r)]) = with_first k rs @ (if cs \<noteq> [] \<and> hd cs = k then [(tl cs, r)] else [])"
  by (simp add: with_first_def)

lemma represents_empty: "represents f n ci [] empty_node"
  by (cases n) (simp_all add: empty_node_def)

lemma add_rule_represents:
  assumes "represents f (length cs) ci rules nd" "\<And>i. i < ci + length cs \<Longrightarrow> level i = Inr (f i)"
  shows "\<exists>nd'. add_rule level ci cs (Inr fs) nd = Inr nd' \<and> represents f (length cs) ci (rules @ [(cs, fs)]) nd'"
  using assms
proof (induction cs arbitrary: ci rules nd)
  case Nil
  then show ?case by (cases nd) simp
next
  case (Cons c cs)
  obtain s r ch where nd: "nd = Node s r ch" by (cases nd)
  let ?s = "if ch = [] then Some (f ci) else s"
  have rep: "r = []" "ch = [] \<longleftrightarrow> rules = []" "rules \<noteq> [] \<longrightarrow> s = Some (f ci)"
    "\<And>k. case map_of ch k of None \<Rightarrow> with_first k rules = [] | Some None \<Rightarrow> False
       | Some (Some x) \<Rightarrow> with_first k rules \<noteq> [] \<and> represents f (length cs) (Suc ci) (with_first k rules) x"
    using Cons.prems(1) by (simp_all add: nd)
  obtain x where x: "(case map_of ch c of None \<Rightarrow> Some empty_node | Some x \<Rightarrow> x) = Some x" "represents f (length cs) (Suc ci) (with_first c rules) x"
    using rep(4) [of c] by (cases "map_of ch c") (auto simp: represents_empty split: option.splits)
  obtain x' where x': "add_rule level (Suc ci) cs (Inr fs) x = Inr x'" "represents f (length cs) (Suc ci) (with_first c rules @ [(cs, fs)]) x'"
    using Cons.IH [OF x(2)] Cons.prems(2) by auto
  let ?nd = "Node ?s r (map_put c (Some x') ch)"
  have "add_rule level ci (c # cs) (Inr fs) nd = Inr ?nd"
  proof -
    have "(if ch = [] then map_sum id Some (level ci) else Inr s) = Inr ?s" by (simp add: Cons.prems(2))
    then show ?thesis by (simp only: nd add_rule.simps sum.case option.case x(1) x'(1))
  qed
  moreover have "represents f (length (c # cs)) ci (rules @ [(c # cs, fs)]) ?nd"
  proof -
    have w: "with_first k (rules @ [(c # cs, fs)]) = with_first k rules @ (if k = c then [(cs, fs)] else [])" for k
      by (simp add: with_first_append)
    have "case map_of (map_put c (Some x') ch) k of None \<Rightarrow> with_first k (rules @ [(c # cs, fs)]) = [] | Some None \<Rightarrow> False
        | Some (Some x) \<Rightarrow> with_first k (rules @ [(c # cs, fs)]) \<noteq> [] \<and> represents f (length cs) (Suc ci) (with_first k (rules @ [(c # cs, fs)])) x" for k
      unfolding w using rep(4) [of k] x'(2) by (cases "k = c"; cases "map_of ch k") (auto split: option.splits)
    moreover have "map_put c (Some x') ch \<noteq> []" by (cases ch) auto
    ultimately show ?thesis using rep(1-3) by simp
  qed
  ultimately show ?case by blast
qed

text \<open>What a tree says about the search, for payloads on which no schema function fails.\<close>

definition search_meta :: "(nat \<Rightarrow> 'p SchemaFunction) \<Rightarrow> nat \<Rightarrow> string list \<Rightarrow> string list \<times> 'b option \<Rightarrow> ResultFunctionMeta \<Rightarrow> ResultFunctionMeta" where
  "search_meta f ci vs res m =
     (let called = (case snd res of None \<Rightarrow> Suc (length (fst res)) | Some _ \<Rightarrow> length (fst res));
          m = m\<lparr>rm_SchemaFunctionResults := rm_SchemaFunctionResults m @ map (\<lambda>i. (sf_Name (f (ci + i)), vs ! i)) [0..<called]\<rparr>;
          m = fold appendToRuleFired (fst res) m
      in (case snd res of None \<Rightarrow> m\<lparr>rm_RuleFired := ''default''\<rparr> | Some _ \<Rightarrow> m))"

lemma appendToRuleFired_frame:
  "appendToRuleFired k (m\<lparr>rm_SchemaFunctionResults := x\<rparr>) = (appendToRuleFired k m)\<lparr>rm_SchemaFunctionResults := x\<rparr>"
  "rm_SchemaFunctionResults (appendToRuleFired k m) = rm_SchemaFunctionResults m"
  by (simp_all add: appendToRuleFired_def)

lemma search_meta_Cons:
  "search_meta f ci (v # vs) (k # ks, r) m =
     search_meta f (Suc ci) vs (ks, r) (appendToRuleFired k (appendToSchemaFunctionResults (sf_Name (f ci)) v m))"
proof -
  have shift: "map (\<lambda>i. (sf_Name (f (ci + i)), (v # vs) ! i)) [0..<Suc c] = (sf_Name (f ci), v) # map (\<lambda>i. (sf_Name (f (Suc ci + i)), vs ! i)) [0..<c]" for c
    by (subst upt_conv_Cons) (simp_all add: map_Suc_upt [symmetric] del: map_Suc_upt upt_Suc)
  have "fold appendToRuleFired ks (m\<lparr>rm_SchemaFunctionResults := x\<rparr>) = (fold appendToRuleFired ks m)\<lparr>rm_SchemaFunctionResults := x\<rparr>" for ks m x
    by (induction ks arbitrary: m) (simp_all add: appendToRuleFired_frame)
  then show ?thesis
    by (cases r) (simp_all add: search_meta_def Let_def shift appendToSchemaFunctionResults_def appendToRuleFired_frame del: upt_Suc)
qed

lemma walk_represents:
  assumes "represents f n ci rules nd" "rules \<noteq> [] \<or> n = 0" "length vs = n"
    and "\<And>i. i < n \<Longrightarrow> sf_Call (f (ci + i)) payload = Inr (vs ! i)"
  shows "\<exists>res. walk payload nd m = Inr (res, search_meta f ci vs (search vs rules) m)
    \<and> map_option ResultFunctions res = snd (search vs rules)"
  using assms
proof (induction n arbitrary: ci rules nd vs m)
  case 0
  then show ?case by (simp add: walk.simps isLeaf_def search_meta_def)
next
  case (Suc n)
  obtain v vs' where vs: "vs = v # vs'" "length vs' = n" using Suc.prems(3) by (cases vs) auto
  have nd: "Children nd \<noteq> []" "SchemaFunction_of nd = Some (f ci)"
    "\<And>k. case map_of (Children nd) k of None \<Rightarrow> with_first k rules = [] | Some None \<Rightarrow> False
       | Some (Some c) \<Rightarrow> with_first k rules \<noteq> [] \<and> represents f n (Suc ci) (with_first k rules) c"
    using Suc.prems(1,2) by simp_all
  have call: "sf_Call (f ci) payload = Inr v" using Suc.prems(4) [of 0] vs by simp
  have calls: "sf_Call (f (Suc ci + i)) payload = Inr (vs' ! i)" if "i < n" for i
    using Suc.prems(4) [of "Suc i"] vs that by simp
  let ?k = "if with_first v rules \<noteq> [] then v else ''*''" and ?m = "appendToSchemaFunctionResults (sf_Name (f ci)) v m"
  have step: "walk payload nd m = (case matchChild nd v of (_, None) \<Rightarrow> Inr (None, ?m\<lparr>rm_RuleFired := ''default''\<rparr>)
      | (key, Some c) \<Rightarrow> walk payload c (appendToRuleFired key ?m))"
    by (subst walk.simps) (simp add: isLeaf_def nd(1,2) call Let_def)
  show ?case
  proof (cases "with_first ?k rules = []")
    case True
    then have "matchChild nd v = ([], None)"
      using nd(3) [of v] nd(3) [of "''*''"] by (auto simp: matchChild_def split: option.splits if_splits)
    then show ?thesis
      using True by (simp add: step vs Let_def search_meta_def appendToSchemaFunctionResults_def)
  next
    case False
    then obtain c where c: "matchChild nd v = (?k, Some c)" "represents f n (Suc ci) (with_first ?k rules) c"
      using nd(3) [of v] nd(3) [of "''*''"] by (auto simp: matchChild_def split: option.splits if_splits)
    obtain ks r where kr: "search vs' (with_first ?k rules) = (ks, r)" by (cases "search vs' (with_first ?k rules)")
    have s: "search (v # vs') rules = (?k # ks, r)"
      using False kr by (simp add: Let_def split: if_splits)
    obtain res where "walk payload c (appendToRuleFired ?k ?m) = Inr (res, search_meta f (Suc ci) vs' (search vs' (with_first ?k rules)) (appendToRuleFired ?k ?m))"
      "map_option ResultFunctions res = snd (search vs' (with_first ?k rules))"
      using Suc.IH [OF c(2) _ vs(2) calls, of "appendToRuleFired ?k ?m"] False by blast
    then show ?thesis
      by (intro exI [of _ res]) (simp only: s kr step c(1) prod.case option.case vs(1) search_meta_Cons snd_conv)
  qed
qed

text \<open>All leaves below a node that represents rules are at the depth of the conditions.\<close>

fun keys_distinct :: "nat \<Rightarrow> ('p, 'r) Node \<Rightarrow> bool" where
  "keys_distinct 0 nd = True"
| "keys_distinct (Suc n) nd \<longleftrightarrow> wf_map (Children nd) \<and> (\<forall>(k, c)\<in>set (Children nd). case c of None \<Rightarrow> True | Some c \<Rightarrow> keys_distinct n c)"

lemma keys_distinct_empty [simp]: "keys_distinct n empty_node"
  by (cases n) (simp_all add: empty_node_def)

lemma set_map_put: "(k, v) \<in> set (map_put c x ch) \<Longrightarrow> (k, v) = (c, x) \<or> (k, v) \<in> set ch"
  by (induction ch) (auto split: if_splits)

lemma add_rule_distinct: "add_rule level ci cs rfs nd = Inr nd' \<Longrightarrow> keys_distinct (length cs) nd \<Longrightarrow> keys_distinct (length cs) nd'"
proof (induction level ci cs rfs nd arbitrary: nd' rule: add_rule.induct)
  case (2 level ci condition cs rfs s r ch)
  obtain s' x where x: "(case map_of ch condition of None \<Rightarrow> Some empty_node | Some c \<Rightarrow> c) = Some x"
    "(if ch = [] then map_sum id Some (level ci) else Inr s) = Inr s'"
    using "2.prems"(1) by (auto split: sum.splits option.splits)
  obtain x' where x': "add_rule level (Suc ci) cs rfs x = Inr x'" "nd' = Node s' r (map_put condition (Some x') ch)"
    using "2.prems"(1) x by (auto split: sum.splits)
  have "keys_distinct (length cs) x"
    using "2.prems"(2) x(1) by (fastforce split: option.splits dest: map_of_SomeD)
  then have "keys_distinct (length cs) x'" using "2.IH" [OF x(2) x(1) x'(1)] by simp
  then show ?case
    using "2.prems"(2) by (fastforce simp: x'(2) dest: set_map_put split: option.splits)
qed (simp split: sum.splits)

lemma child_depths_set: "set (child_depths cs d) = (\<Union>(k, c)\<in>set cs. set (leaf_depths c d))"
  by (induction cs) auto

lemma depths_represents:
  "represents f n ci rules nd \<Longrightarrow> keys_distinct n nd \<Longrightarrow> rules \<noteq> [] \<or> n = 0 \<Longrightarrow> set (leaf_depths (Some nd) d) \<subseteq> {d + int n}"
proof (induction n arbitrary: ci rules nd d)
  case 0
  then show ?case by (cases nd) simp
next
  case (Suc n)
  obtain s r ch where nd: "nd = Node s r ch" by (cases nd)
  have "set (leaf_depths c (d + 1)) \<subseteq> {d + 1 + int n}" if "(k, c) \<in> set ch" for k c
  proof (cases c)
    case (Some x)
    have k: "map_of ch k = Some (Some x)"
      using that Some Suc.prems(2) by (simp add: nd wf_map_def)
    then have "with_first k rules \<noteq> []" "represents f n (Suc ci) (with_first k rules) x"
      using Suc.prems(1) by (auto simp: nd dest: spec [of _ k])
    moreover have "keys_distinct n x" using Suc.prems(2) that Some by (auto simp: nd)
    ultimately show ?thesis using Suc.IH [of "Suc ci" "with_first k rules" x "d + 1"] Some by simp
  qed simp
  then have "set (child_depths ch (d + 1)) \<subseteq> {d + 1 + int n}" by (auto simp: child_depths_set)
  moreover have "ch \<noteq> []" using Suc.prems(1,3) by (auto simp: nd)
  ultimately show ?case by (simp add: nd add.commute add.left_commute)
qed

lemma add_rules_represents:
  assumes "represents f n 0 done nd" "keys_distinct n nd" "\<And>i. i < n \<Longrightarrow> level i = Inr (f i)"
    and "list_all (\<lambda>(cs, as). length cs = n \<and> (\<exists>fs. build_results mkr as = Inr fs)) rules"
  shows "\<exists>nd'. add_rules level mkr rules nd = Inr nd' \<and> keys_distinct n nd'
    \<and> represents f n 0 (done @ map (\<lambda>(cs, as). (cs, projr (build_results mkr as))) rules) nd'"
  using assms(1,2,4)
proof (induction rules arbitrary: "done" nd)
  case (Cons x rules)
  obtain cs as fs where x: "x = (cs, as)" "length cs = n" "build_results mkr as = Inr fs"
    using Cons.prems(3) by (cases x) auto
  obtain nd1 where nd1: "add_rule level 0 cs (Inr fs) nd = Inr nd1" "represents f n 0 (done @ [(cs, fs)]) nd1"
    using add_rule_represents [of f cs 0 "done" nd level fs] Cons.prems(1) assms(3) x(2) by fastforce
  have "keys_distinct n nd1" using add_rule_distinct [OF nd1(1)] Cons.prems(2) x(2) by simp
  from Cons.IH [OF nd1(2) this] Cons.prems(3) show ?case by (simp add: x nd1(1))
qed simp

section \<open>The interface of tree builders\<close>

text \<open>
  \<^verbatim>\<open>treeBuilder\<close> of \<^verbatim>\<open>rules/tree.go\<close>: a builder of configurations promises, for valid ones, a tree of uniform depth and what running it does. \<open>plan\<close> is
  the promise: the result functions to run and what they are told, for payloads on which no schema function fails.
\<close>

locale tree_builder =
  fixes build :: "'c \<Rightarrow> ('p, 'r) Tree \<Rightarrow> rules_error + ('p, 'r) Tree"
    and valid :: "'c \<Rightarrow> bool"
    and plan :: "'c \<Rightarrow> 'p \<Rightarrow> (('p, 'r) ResultFunction list \<times> ResultFunctionMeta) option"
  assumes builds: "valid c \<Longrightarrow> \<exists>t rt d. build c new_tree = Inr t \<and> tr_Root t = Some rt \<and> set (leaf_depths (Some rt) 0) \<subseteq> {d}"
    and runs: "valid c \<Longrightarrow> build c new_tree = Inr t \<Longrightarrow> plan c p = Some (rfs, m) \<Longrightarrow> Run t p r = run_results rfs p r m"
begin

lemma NewTree_runs:
  assumes "valid c"
  shows "\<exists>t. NewTree (build c) = Inr t \<and> (\<forall>p r rfs m. plan c p = Some (rfs, m) \<longrightarrow> Run t p r = run_results rfs p r m)"
proof -
  obtain t rt d where t: "build c new_tree = Inr t" "tr_Root t = Some rt" "set (leaf_depths (Some rt) 0) \<subseteq> {d}"
    using builds [OF assms] by blast
  have "validate t = None"
    using validate_sound(1) [of 0 "Some rt" "-1"] t(2,3) by (cases "leaf_depths (Some rt) 0") (auto simp: validate_def first_leaf_def split: if_splits)
  then show ?thesis using t(1) runs [OF assms t(1)] by (simp add: NewTree_def)
qed

end

text \<open>The builder for the rules of an account: a configuration is the two factories and a model group.\<close>

type_synonym ('s, 'a, 'p, 'r) group_config = "('s \<Rightarrow> string + 'p SchemaFunction) \<times> ('a \<Rightarrow> string + ('p, 'r) ResultFunction) \<times> ('s, 'a) ModelGroup"

definition valid_group :: "('s, 'a, 'p, 'r) group_config \<Rightarrow> bool" where
  "valid_group c = (case c of (mks, mkr, cfg) \<Rightarrow>
     mg_Rules cfg \<noteq> [] \<and> list_all (\<lambda>s. \<exists>f. mks s = Inr f) (mg_Schema cfg) \<and> (\<exists>fs. build_results mkr (mg_Default cfg) = Inr fs)
     \<and> list_all (\<lambda>(cs, as). length cs = length (mg_Schema cfg) \<and> (\<exists>fs. build_results mkr as = Inr fs)) (mg_Rules cfg))"

definition schema_functions :: "('s, 'a, 'p, 'r) group_config \<Rightarrow> nat \<Rightarrow> 'p SchemaFunction" where
  "schema_functions c i = (case c of (mks, mkr, cfg) \<Rightarrow> projr (mks (mg_Schema cfg ! i)))"

definition group_rules :: "('s, 'a, 'p, 'r) group_config \<Rightarrow> (string list \<times> ('p, 'r) ResultFunction list) list" where
  "group_rules c = (case c of (mks, mkr, cfg) \<Rightarrow> map (\<lambda>(cs, as). (cs, projr (build_results mkr as))) (mg_Rules cfg))"

definition schema_values :: "('s, 'a, 'p, 'r) group_config \<Rightarrow> 'p \<Rightarrow> string list option" where
  "schema_values c p = (case c of (mks, mkr, cfg) \<Rightarrow>
     let vs = map (\<lambda>i. sf_Call (schema_functions c i) p) [0..<length (mg_Schema cfg)]
     in if list_all (\<lambda>v. \<not> isl v) vs then Some (map projr vs) else None)"

definition group_plan :: "('s, 'a, 'p, 'r) group_config \<Rightarrow> 'p \<Rightarrow> (('p, 'r) ResultFunction list \<times> ResultFunctionMeta) option" where
  "group_plan c p = (case c of (mks, mkr, cfg) \<Rightarrow>
     map_option (\<lambda>vs.
       let res = search vs (group_rules c)
       in (case snd res of None \<Rightarrow> projr (build_results mkr (mg_Default cfg)) | Some rfs \<Rightarrow> rfs, search_meta (schema_functions c) 0 vs res (start_meta (new_tree :: ('p, 'r) Tree))))
       (schema_values c p))"

definition build_group :: "('s, 'a, 'p, 'r) group_config \<Rightarrow> ('p, 'r) Tree \<Rightarrow> rules_error + ('p, 'r) Tree" where
  "build_group c = (case c of (mks, mkr, cfg) \<Rightarrow> Build mks mkr cfg)"

lemma build_group_represents:
  assumes "valid_group c" and c: "c = (mks, mkr, cfg)"
  shows "\<exists>nd. build_group c new_tree = Inr (new_tree\<lparr>tr_DefaultFunctions := projr (build_results mkr (mg_Default cfg)), tr_Root := Some nd\<rparr>)
    \<and> keys_distinct (length (mg_Schema cfg)) nd \<and> represents (schema_functions c) (length (mg_Schema cfg)) 0 (group_rules c) nd"
proof -
  have v: "list_all (\<lambda>s. \<exists>f. mks s = Inr f) (mg_Schema cfg)" "\<exists>fs. build_results mkr (mg_Default cfg) = Inr fs"
    "list_all (\<lambda>(cs, as). length cs = length (mg_Schema cfg) \<and> (\<exists>fs. build_results mkr as = Inr fs)) (mg_Rules cfg)"
    using assms by (simp_all add: valid_group_def)
  have "level_function mks (mg_Schema cfg) i = Inr (schema_functions c i)" if "i < length (mg_Schema cfg)" for i
    using v(1) that by (auto simp: level_function_def schema_functions_def c list_all_length)
  with add_rules_represents [OF represents_empty keys_distinct_empty _ v(3), of "level_function mks (mg_Schema cfg)" "schema_functions c"]
  obtain nd where "add_rules (level_function mks (mg_Schema cfg)) mkr (mg_Rules cfg) empty_node = Inr nd" "keys_distinct (length (mg_Schema cfg)) nd"
    "represents (schema_functions c) (length (mg_Schema cfg)) 0 (group_rules c) nd"
    by (auto simp: group_rules_def c)
  with v(2) show ?thesis by (auto simp: build_group_def Build_def c new_tree_def)
qed

lemma group_builds:
  assumes v: "valid_group c"
  shows "\<exists>t rt d. build_group c new_tree = Inr t \<and> tr_Root t = Some rt \<and> set (leaf_depths (Some rt) 0) \<subseteq> {d}"
proof -
  obtain mks mkr cfg where c: "c = (mks, mkr, cfg)" by (cases c)
  obtain nd where nd: "build_group c new_tree = Inr (new_tree\<lparr>tr_DefaultFunctions := projr (build_results mkr (mg_Default cfg)), tr_Root := Some nd\<rparr>)"
    "keys_distinct (length (mg_Schema cfg)) nd" "represents (schema_functions c) (length (mg_Schema cfg)) 0 (group_rules c) nd"
    using build_group_represents [OF v c] by blast
  have "group_rules c \<noteq> []" using v by (simp add: valid_group_def group_rules_def c)
  then show ?thesis using nd(1) depths_represents [OF nd(3,2), of 0] by auto
qed

lemma group_runs:
  fixes c :: "('s, 'a, 'p, 'r) group_config"
  assumes v: "valid_group c" and t: "build_group c new_tree = Inr t" and plan: "group_plan c p = Some (rfs, m)"
  shows "Run t p r = run_results rfs p r m"
proof -
  obtain mks mkr cfg where c: "c = (mks, mkr, cfg)" by (cases c)
  let ?n = "length (mg_Schema cfg)" and ?d = "projr (build_results mkr (mg_Default cfg))" and ?m = "start_meta (new_tree :: ('p, 'r) Tree)"
  obtain nd where nd: "build_group c new_tree = Inr (new_tree\<lparr>tr_DefaultFunctions := ?d, tr_Root := Some nd\<rparr>)"
    "keys_distinct ?n nd" "represents (schema_functions c) ?n 0 (group_rules c) nd"
    using build_group_represents [OF v c] by blast
  have rules: "group_rules c \<noteq> []" using v by (simp add: valid_group_def group_rules_def c)
  obtain vs where vs: "schema_values c p = Some vs" using plan by (auto simp: group_plan_def c)
  have len: "length vs = ?n"
    using vs by (auto simp: schema_values_def c Let_def split: if_splits)
  have calls: "sf_Call (schema_functions c (0 + i)) p = Inr (vs ! i)" if "i < ?n" for i
    using vs that by (auto simp: schema_values_def c Let_def list_all_iff split: if_splits)
  obtain res where res: "walk p nd ?m = Inr (res, search_meta (schema_functions c) 0 vs (search vs (group_rules c)) ?m)"
    "map_option ResultFunctions res = snd (search vs (group_rules c))"
    using walk_represents [OF nd(3) disjI1 [OF rules] len calls] by blast
  have "start_meta t = ?m" "tr_Root t = Some nd" "tr_DefaultFunctions t = ?d"
    using t nd(1) by (auto simp: start_meta_def)
  then show "Run t p r = run_results rfs p r m"
    using res(1) res(2) [symmetric] plan vs by (cases res) (auto simp: Run_def group_plan_def c Let_def)
qed

interpretation grp: tree_builder build_group valid_group group_plan
  by unfold_locales (rule group_builds, assumption, rule group_runs)

text \<open>
  C21. A rule tree is a search in its rules: for a model group with rules, whose functions can be made and whose rules have one condition per schema
  function, a valid tree is built, and running it on a payload for which no schema function fails runs exactly the result functions
  the search finds, in the order of the rules, or the default functions if it finds none, and tells them the values and keys of the
  search. A more specific rule wins level by level, an exact value before the wildcard, without backtracking.
\<close>
theorem rules_tree_search:
  assumes "valid_group c"
  shows "\<exists>t. NewTree (build_group c) = Inr t \<and> (\<forall>p r rfs m. group_plan c p = Some (rfs, m) \<longrightarrow> Run t p r = run_results rfs p r m)"
  using assms by (rule grp.NewTree_runs)

text \<open>Without rules the default functions are not run: the root is a leaf.\<close>

lemma no_rules_no_defaults:
  assumes "mg_Rules cfg = []" "build_results mkr (mg_Default cfg) = Inr ds"
  shows "\<exists>t. NewTree (build_group (mks, mkr, cfg)) = Inr t \<and> tr_DefaultFunctions t = ds \<and> Run t p r = (None, r)"
  using assms by (simp add: NewTree_def build_group_def Build_def new_tree_def empty_node_def validate_def Run_def walk.simps isLeaf_def)

definition const_schema :: "string \<Rightarrow> string + string SchemaFunction" where
  "const_schema s = Inr \<lparr>sf_Name = s, sf_Call = Inr\<rparr>"

definition log_result :: "string \<Rightarrow> string + (string, string list) ResultFunction" where
  "log_result s = Inr \<lparr>rf_Name = s, rf_Call = (\<lambda>p r m. (None, r @ [s]))\<rparr>"

definition sample_group :: "(string, string, string, string list) group_config" where
  "sample_group = (const_schema, log_result,
     \<lparr>mg_Schema = [''country''], mg_Rules = [([''USA''], [''a'']), ([''*''], [''b'']), ([''USA''], [''c''])], mg_Default = [''d'']\<rparr>)"

theorem rules_tree_search_witness:
  "\<exists>t. NewTree (build_group sample_group) = Inr t \<and> Run t ''USA'' [] = (None, [''a'', ''c'']) \<and> Run t ''FRA'' [] = (None, [''b''])"
proof -
  have v: "valid_group sample_group"
    by (simp add: sample_group_def valid_group_def const_schema_def log_result_def)
  have pl: "\<exists>m. group_plan sample_group ''USA'' = Some ([projr (log_result ''a''), projr (log_result ''c'')], m)"
    "\<exists>m. group_plan sample_group ''FRA'' = Some ([projr (log_result ''b'')], m)"
    by (simp_all add: group_plan_def schema_values_def schema_functions_def group_rules_def sample_group_def const_schema_def log_result_def with_first_def Let_def)
  obtain t where t: "NewTree (build_group sample_group) = Inr t"
    "\<forall>p r rfs m. group_plan sample_group p = Some (rfs, m) \<longrightarrow> Run t p r = run_results rfs p r m"
    using rules_tree_search [OF v] by blast
  from pl t(2) have "Run t ''USA'' [] = (None, [''a'', ''c'']) \<and> Run t ''FRA'' [] = (None, [''b''])"
    by (auto simp: log_result_def)
  with t(1) show ?thesis by blast
qed

end
