(* ===== verification/RulesEngine.thy ===== *)
theory RulesEngine
  imports RulesTree
begin

text \<open>
  The rules engine module: the schema functions on requests (\<^verbatim>\<open>rules/schema_functions.go\<close>), the functions that include and exclude bidders, the tree
  built from the geographic scopes of bidders (\<^verbatim>\<open>modules/prebid/rulesengine/bidder_config_ruleset_builder.go\<close>), the choice of a model group, the
  hook (\<^verbatim>\<open>hook_processed_auction.go\<close>), the mutations of the bidders of a request (\<^verbatim>\<open>hooks/hookstage\<close>) and the cache of
  trees. Arguments of functions are JSON; its decoding is an argument.
\<close>

section \<open>Schema functions\<close>

text \<open>
  What the functions read of a request. An extension is an error if it does not decode; of the data in extensions only counts whether it is
  an array with elements. \<open>rq_rand\<close> is what \<^verbatim>\<open>Intn(100)\<close> returns in this call.
\<close>

record RuleRequest =
  rq_Geo :: "(string \<times> string) option"  \<comment> \<open>country and region\<close>
  rq_Channel :: "string + string option"
  rq_EIDs :: "string list"
  rq_UserData :: nat
  rq_UserExtData :: "string + bool"
  rq_Site :: "(nat \<times> (string + bool)) option"
  rq_App :: "(nat \<times> (string + bool)) option"
  rq_Regs :: "(int option \<times> int list) option"
  rq_rand :: int

definition bool_text :: "bool \<Rightarrow> string" where
  "bool_text b = (if b then ''true'' else ''false'')"

definition getDeviceGeo :: "RuleRequest \<Rightarrow> (string \<times> string) option" where
  "getDeviceGeo r = rq_Geo r"

definition deviceCountry_Call :: "RuleRequest \<Rightarrow> string + string" where
  "deviceCountry_Call r = Inr (case getDeviceGeo r of Some (c, _) \<Rightarrow> c | None \<Rightarrow> [])"

definition deviceCountryIn_Call :: "string list \<Rightarrow> RuleRequest \<Rightarrow> string + string" where
  "deviceCountryIn_Call countries r =
     (case getDeviceGeo r of None \<Rightarrow> Inr ''false'' | Some (c, _) \<Rightarrow> if c = [] then Inr ''false'' else Inr (bool_text (c \<in> set countries)))"

definition dataCenter_Call :: "RuleRequest \<Rightarrow> string + string" where
  "dataCenter_Call r = Inr (case getDeviceGeo r of Some (_, g) \<Rightarrow> g | None \<Rightarrow> [])"

definition dataCenterIn_Call :: "string list \<Rightarrow> RuleRequest \<Rightarrow> string + string" where
  "dataCenterIn_Call centers r =
     (case getDeviceGeo r of None \<Rightarrow> Inr ''false'' | Some (_, g) \<Rightarrow> if g = [] then Inr ''false'' else Inr (bool_text (g \<in> set centers)))"

definition channel_Call :: "RuleRequest \<Rightarrow> string + string" where
  "channel_Call r =
     (case rq_Channel r of
        Inl e \<Rightarrow> Inl e
      | Inr None \<Rightarrow> Inr []
      | Inr (Some n) \<Rightarrow> if n = [] then Inr [] else if n = ''pbjs'' then Inr ''web'' else Inr n)"

definition eidAvailable_Call :: "RuleRequest \<Rightarrow> string + string" where
  "eidAvailable_Call r = Inr (bool_text (rq_EIDs r \<noteq> []))"

definition eidIn_Call :: "string list \<Rightarrow> RuleRequest \<Rightarrow> string + string" where
  "eidIn_Call sources r = (if sources = [] then Inr ''false'' else Inr (bool_text (list_ex (\<lambda>s. s \<in> set sources) (rq_EIDs r))))"

definition checkUserDataAndUserExtData :: "RuleRequest \<Rightarrow> string + string" where
  "checkUserDataAndUserExtData r =
     (if rq_UserData r > 0 then Inr ''true'' else (case rq_UserExtData r of Inl e \<Rightarrow> Inl e | Inr b \<Rightarrow> Inr (bool_text b)))"

text \<open>Data of the content or of the extension of a site or app; an extension that does not decode counts as none.\<close>

definition has_content_data :: "(nat \<times> (string + bool)) option \<Rightarrow> bool" where
  "has_content_data s = (case s of None \<Rightarrow> False | Some (n, e) \<Rightarrow> n > 0 \<or> e = Inr True)"

definition fpdAvailable_Call :: "RuleRequest \<Rightarrow> string + string" where
  "fpdAvailable_Call r =
     (if has_content_data (rq_Site r) then Inr ''true'' else if has_content_data (rq_App r) then Inr ''true'' else checkUserDataAndUserExtData r)"

definition hasGPPSIDs :: "RuleRequest \<Rightarrow> bool" where
  "hasGPPSIDs r = (case rq_Regs r of None \<Rightarrow> False | Some (_, sids) \<Rightarrow> list_ex (\<lambda>s. s > 0) sids)"

definition gppSidAvailable_Call :: "RuleRequest \<Rightarrow> string + string" where
  "gppSidAvailable_Call r = Inr (bool_text (hasGPPSIDs r))"

definition gppSidIn_Call :: "int list \<Rightarrow> RuleRequest \<Rightarrow> string + string" where
  "gppSidIn_Call sids r =
     (if sids = [] \<or> \<not> hasGPPSIDs r then Inr ''false''
      else Inr (bool_text (case rq_Regs r of None \<Rightarrow> False | Some (_, ss) \<Rightarrow> list_ex (\<lambda>s. s \<in> set sids) ss)))"

definition tcfInScope_Call :: "RuleRequest \<Rightarrow> string + string" where
  "tcfInScope_Call r = Inr (bool_text (case rq_Regs r of Some (Some g, _) \<Rightarrow> g = 1 | _ \<Rightarrow> False))"

definition clamp_percent :: "int option \<Rightarrow> int" where
  "clamp_percent p = (let p = (case p of None \<Rightarrow> 5 | Some p \<Rightarrow> p) in if p < 0 then 0 else if p > 100 then 100 else p)"

definition percent_Call :: "int \<Rightarrow> RuleRequest \<Rightarrow> string + string" where
  "percent_Call pct r = (if pct \<le> 0 then Inr ''false'' else if pct \<ge> 100 then Inr ''true'' else Inr (bool_text (rq_rand r \<le> pct)))"

text \<open>The decoders of arguments: a list of texts or numbers under a key, and the percentage.\<close>

record json_args =
  ja_texts :: "string \<Rightarrow> string \<Rightarrow> string + string list"
  ja_ints :: "string \<Rightarrow> string \<Rightarrow> string + int list"
  ja_pct :: "string \<Rightarrow> string + int option"

definition checkNilArgs :: "string \<Rightarrow> string \<Rightarrow> string option" where
  "checkNilArgs params name = (if params = [] \<or> params = ''null'' \<or> params = ''{}'' then None else Some (name @ '' expects 0 arguments''))"

definition nil_function :: "string \<Rightarrow> string \<Rightarrow> (RuleRequest \<Rightarrow> string + string) \<Rightarrow> string + RuleRequest SchemaFunction" where
  "nil_function params name f = (case checkNilArgs params name of Some e \<Rightarrow> Inl e | None \<Rightarrow> Inr \<lparr>sf_Name = name, sf_Call = f\<rparr>)"

definition list_function :: "string + 'b list \<Rightarrow> string \<Rightarrow> string \<Rightarrow> ('b list \<Rightarrow> RuleRequest \<Rightarrow> string + string) \<Rightarrow> string + RuleRequest SchemaFunction" where
  "list_function args name msg f =
     (case args of Inl e \<Rightarrow> Inl e | Inr xs \<Rightarrow> if xs = [] then Inl msg else Inr \<lparr>sf_Name = name, sf_Call = f xs\<rparr>)"

definition NewRequestSchemaFunction :: "json_args \<Rightarrow> string \<Rightarrow> string \<Rightarrow> string + RuleRequest SchemaFunction" where
  "NewRequestSchemaFunction ja name params =
     (if name = ''deviceCountry'' then nil_function params name deviceCountry_Call
      else if name = ''deviceCountryIn'' then
        list_function (ja_texts ja ''countries'' params) name ''Missing countries argument for deviceCountryIn schema function'' deviceCountryIn_Call
      else if name = ''dataCenter'' then nil_function params name dataCenter_Call
      else if name = ''dataCenterIn'' then
        list_function (ja_texts ja ''datacenters'' params) name ''Empty datacenter argument in dataCenterIn schema function'' dataCenterIn_Call
      else if name = ''channel'' then nil_function params name channel_Call
      else if name = ''eidAvailable'' then nil_function params name eidAvailable_Call
      else if name = ''eidIn'' then list_function (ja_texts ja ''sources'' params) name ''Empty sources argument in eidIn schema function'' eidIn_Call
      else if name = ''userFpdAvailable'' then nil_function params name checkUserDataAndUserExtData
      else if name = ''fpdAvailable'' then nil_function params name fpdAvailable_Call
      else if name = ''gppSidAvailable'' then nil_function params name gppSidAvailable_Call
      else if name = ''gppSidIn'' then
        list_function (ja_ints ja ''sids'' params) name ''Empty GPPSIDs list argument in gppSidIn schema function'' gppSidIn_Call
      else if name = ''tcfInScope'' then nil_function params name tcfInScope_Call
      else if name = ''percent'' then
        (case ja_pct ja params of Inl e \<Rightarrow> Inl e | Inr p \<Rightarrow> Inr \<lparr>sf_Name = name, sf_Call = percent_Call (clamp_percent p)\<rparr>)
      else Inl (''Schema function '' @ name @ '' was not created''))"

text \<open>Of the hundred random numbers one more than the percentage says counts as inside.\<close>

lemma percent_one_too_many:
  assumes "0 < pct" "pct < 100"
  shows "card {n. 0 \<le> n \<and> n < 100 \<and> percent_Call pct (r\<lparr>rq_rand := n\<rparr>) = Inr ''true''} = nat pct + 1"
proof -
  have "{n. 0 \<le> n \<and> n < 100 \<and> percent_Call pct (r\<lparr>rq_rand := n\<rparr>) = Inr ''true''} = {0..pct}"
    using assms by (auto simp: percent_Call_def bool_text_def split: if_splits)
  then show ?thesis using assms by simp
qed

section \<open>Result functions and mutations\<close>

text \<open>
  A mutation to add bidders refers to the map of allowed bidders, which later rule sets still extend; it is read when mutations are
  applied.
\<close>

datatype mutation = DeleteBidders "string list" | AddAllowed

record ProcessedAuctionHookResult =
  hr_Mutations :: "mutation list"
  hr_Errors :: "string list"
  hr_AllowedBidders :: "string list"

type_synonym hook_function = "(RuleRequest, ProcessedAuctionHookResult) ResultFunction"

definition ExcludeBidders :: "string list \<Rightarrow> hook_function" where
  "ExcludeBidders bidders = \<lparr>rf_Name = ''excludeBidders'', rf_Call = (\<lambda>req res m. (None, res\<lparr>hr_Mutations := hr_Mutations res @ [DeleteBidders bidders]\<rparr>))\<rparr>"

definition IncludeBidders :: "string list \<Rightarrow> hook_function" where
  "IncludeBidders bidders = \<lparr>rf_Name = ''includeBidders'', rf_Call = (\<lambda>req res m. (None, res\<lparr>hr_AllowedBidders := hr_AllowedBidders res @ bidders\<rparr>))\<rparr>"

definition NewProcessedAuctionRequestResultFunction :: "json_args \<Rightarrow> string \<Rightarrow> string \<Rightarrow> string + hook_function" where
  "NewProcessedAuctionRequestResultFunction ja name params =
     (if name = ''excludeBidders'' then
        (case ja_texts ja ''bidders'' params of
           Inl e \<Rightarrow> Inl e
         | Inr bs \<Rightarrow> if bs = [] then Inl ''excludeBidders requires at least one bidder to be specified'' else Inr (ExcludeBidders bs))
      else if name = ''includeBidders'' then
        (case ja_texts ja ''bidders'' params of
           Inl e \<Rightarrow> Inl e
         | Inr bs \<Rightarrow> if bs = [] then Inl ''includeBidders requires at least one bidder to be specified'' else Inr (IncludeBidders bs))
      else Inl (''result function '' @ name @ '' was not created''))"

text \<open>
  The bidders of the impressions: \<open>None\<close> where \<^verbatim>\<open>imp.ext.prebid\<close> is absent. Deletion returns at the first impression without it. (An extension
  that does not decode makes both functions panic, since they test the wrong error; the endpoints reject such requests.)
\<close>

type_synonym imp_bidders = "(string, string) gomap option"

fun delete_bidders :: "string list \<Rightarrow> imp_bidders list \<Rightarrow> imp_bidders list" where
  "delete_bidders del [] = []"
| "delete_bidders del (None # imps) = None # imps"
| "delete_bidders del (Some bs # imps) = Some (filter (\<lambda>(b, _). b \<notin> set del) bs) # delete_bidders del imps"

definition add_bidders :: "string list \<Rightarrow> imp_bidders list \<Rightarrow> imp_bidders list" where
  "add_bidders final imps = map (\<lambda>i. Some (filter (\<lambda>(b, _). b \<in> set final) (case i of None \<Rightarrow> [] | Some bs \<Rightarrow> bs))) imps"

fun apply_mutations :: "string list \<Rightarrow> mutation list \<Rightarrow> imp_bidders list \<Rightarrow> imp_bidders list" where
  "apply_mutations allowed [] imps = imps"
| "apply_mutations allowed (DeleteBidders del # ms) imps = apply_mutations allowed ms (delete_bidders del imps)"
| "apply_mutations allowed (AddAllowed # ms) imps = apply_mutations allowed ms (add_bidders allowed imps)"

lemma delete_bidders_all: "list_all (\<lambda>i. i \<noteq> None) imps \<Longrightarrow> delete_bidders del imps = map (map_option (filter (\<lambda>(b, _). b \<notin> set del))) imps"
  by (induction del imps rule: delete_bidders.induct) auto

text \<open>An impression without bidders of its own shields all later ones from the deletion.\<close>

lemma delete_stops: "delete_bidders del (None # imps) = None # imps"
  by simp

section \<open>The tree of geographic scopes\<close>

type_synonym country_groups = "(string, string list) gomap"

definition defaultCountryGroups :: country_groups where
  "defaultCountryGroups = [(''EEA'', [''AUT'', ''BEL'', ''BGR'', ''CYP'', ''CZE'', ''DEU'', ''DNK'', ''EST'', ''ESP'', ''FIN'', ''FRA'', ''GRC'', ''HRV'', ''HUN'',
     ''IRL'', ''ISL'', ''ITA'', ''LIE'', ''LTU'', ''LUX'', ''LVA'', ''MLT'', ''NLD'', ''NOR'', ''POL'', ''PRT'', ''ROU'', ''SWE'', ''SVN'', ''SVK''])]"

definition mergeCountryGroups :: "country_groups \<Rightarrow> country_groups \<Rightarrow> country_groups" where
  "mergeCountryGroups defaults defs = fold (\<lambda>(k, v) m. map_put (ToUpper k) v m) (defaults @ defs) []"

record parsedConfig =
  pc_bidder :: string
  pc_globalIncluded :: bool
  pc_groupsIncluded :: "string list"
  pc_groupsExcluded :: "string list"
  pc_singlesIncluded :: "string list"
  pc_singlesExcluded :: "string list"

definition negated :: "string \<Rightarrow> bool" where
  "negated s \<longleftrightarrow> s \<noteq> [] \<and> hd s = CHR ''!''"

definition trim_negation :: "string \<Rightarrow> string" where
  "trim_negation s = (if negated s then tl s else s)"

definition is_group :: "country_groups \<Rightarrow> string \<Rightarrow> bool" where
  "is_group g s \<longleftrightarrow> map_of g s \<noteq> None"

definition parse_scope :: "country_groups \<Rightarrow> string \<Rightarrow> parsedConfig \<Rightarrow> rules_error + parsedConfig" where
  "parse_scope g s cfg =
     (if s = ''GLOBAL'' then Inr (cfg\<lparr>pc_globalIncluded := True\<rparr>)
      else if is_group g s then Inr (cfg\<lparr>pc_groupsIncluded := pc_groupsIncluded cfg @ [s]\<rparr>)
      else if negated s \<and> is_group g (tl s) then Inr (cfg\<lparr>pc_groupsExcluded := pc_groupsExcluded cfg @ [trim_negation s]\<rparr>)
      else if \<not> negated s \<and> \<not> is_group g s then Inr (cfg\<lparr>pc_singlesIncluded := pc_singlesIncluded cfg @ [s]\<rparr>)
      else if negated s \<and> \<not> is_group g s then Inr (cfg\<lparr>pc_singlesExcluded := pc_singlesExcluded cfg @ [trim_negation s]\<rparr>)
      else Inl (FactoryError (''unknown geoscope type: '' @ s)))"

fun parse_scopes :: "country_groups \<Rightarrow> string list \<Rightarrow> parsedConfig \<Rightarrow> rules_error + parsedConfig" where
  "parse_scopes g [] cfg = Inr cfg"
| "parse_scopes g (s # ss) cfg = (case parse_scope g s cfg of Inl e \<Rightarrow> Inl e | Inr cfg' \<Rightarrow> parse_scopes g ss cfg')"

definition parseBidderGeoscopes :: "country_groups \<Rightarrow> string \<Rightarrow> string list \<Rightarrow> rules_error + parsedConfig" where
  "parseBidderGeoscopes g bidder scopes =
     parse_scopes g scopes \<lparr>pc_bidder = bidder, pc_globalIncluded = False, pc_groupsIncluded = [], pc_groupsExcluded = [], pc_singlesIncluded = [], pc_singlesExcluded = []\<rparr>"

fun add_countries :: "string list \<Rightarrow> (string, string list) gomap \<Rightarrow> (string, string list) gomap" where
  "add_countries [] m = m"
| "add_countries (c # cs) m = add_countries cs (if map_has m c then m else map_put c [] m)"

definition scope_countries :: "country_groups \<Rightarrow> string \<Rightarrow> string list" where
  "scope_countries g s =
     (if s = ''GLOBAL'' then [] else (let s = trim_negation s in case map_of g s of Some cs \<Rightarrow> cs | None \<Rightarrow> [s]))"

text \<open>Groups that were seen are skipped; their countries are in the map already.\<close>

definition initializeCountryExclusions :: "country_groups \<Rightarrow> (string, string list) gomap \<Rightarrow> (string, string list) gomap" where
  "initializeCountryExclusions g geoscopes =
     map_put ''*'' [] (add_countries (concat (map (\<lambda>(_, scopes). concat (map (scope_countries g) scopes)) geoscopes)) [])"

definition countryInAGroup :: "country_groups \<Rightarrow> string \<Rightarrow> string list \<Rightarrow> bool" where
  "countryInAGroup g country names = list_ex (\<lambda>n. case map_of g n of None \<Rightarrow> False | Some cs \<Rightarrow> country \<in> set cs) names"

text \<open>The four ways to mark the countries a bidder is excluded from, chosen by what its scopes contain.\<close>

definition excluded_from :: "country_groups \<Rightarrow> parsedConfig \<Rightarrow> string \<Rightarrow> bool" where
  "excluded_from g cfg country =
     (let inIncluded = countryInAGroup g country (pc_groupsIncluded cfg);
          inExcluded = countryInAGroup g country (pc_groupsExcluded cfg);
          included = country \<in> set (pc_singlesIncluded cfg);
          excluded = country \<in> set (pc_singlesExcluded cfg)
      in if pc_globalIncluded cfg then False
         else if pc_groupsIncluded cfg \<noteq> [] then inIncluded \<and> excluded \<or> \<not> inIncluded \<and> \<not> included
         else if pc_groupsExcluded cfg \<noteq> [] then inExcluded \<and> \<not> included \<or> \<not> inExcluded \<and> excluded
         else if pc_singlesIncluded cfg \<noteq> [] then \<not> included
         else if pc_singlesExcluded cfg \<noteq> [] then excluded
         else False)"

definition mark_exclusions :: "country_groups \<Rightarrow> parsedConfig \<Rightarrow> (string, string list) gomap \<Rightarrow> (string, string list) gomap" where
  "mark_exclusions g cfg m = map (\<lambda>(c, bidders). (c, if excluded_from g cfg c then bidders @ [pc_bidder cfg] else bidders)) m"

fun mark_bidders :: "country_groups \<Rightarrow> (string, string list) gomap \<Rightarrow> (string, string list) gomap \<Rightarrow> rules_error + (string, string list) gomap" where
  "mark_bidders g [] m = Inr m"
| "mark_bidders g ((bidder, scopes) # rest) m =
    (case parseBidderGeoscopes g bidder scopes of
       Inl e \<Rightarrow> Inl e
     | Inr cfg \<Rightarrow> mark_bidders g rest (mark_exclusions g cfg m))"

definition addTreeNodes :: "(string, string list) gomap \<Rightarrow> (RuleRequest, ProcessedAuctionHookResult) Node \<Rightarrow> (RuleRequest, ProcessedAuctionHookResult) Node" where
  "addTreeNodes m rt = Node (SchemaFunction_of rt) (ResultFunctions rt) (map (\<lambda>(c, bidders). (c, Some (Node None [ExcludeBidders bidders] []))) m)"

type_synonym geo_config = "country_groups \<times> (string, string list) gomap"

definition Build_geoscopes :: "geo_config \<Rightarrow> (RuleRequest, ProcessedAuctionHookResult) Tree \<Rightarrow> rules_error + (RuleRequest, ProcessedAuctionHookResult) Tree" where
  "Build_geoscopes c t =
     (let (g, geoscopes) = c in
      case tr_Root t of
        None \<Rightarrow> Inr t
      | Some rt \<Rightarrow>
          if geoscopes = [] then Inr t
          else
            (case mark_bidders g geoscopes (initializeCountryExclusions g geoscopes) of
               Inl e \<Rightarrow> Inl e
             | Inr m \<Rightarrow>
                 Inr (t\<lparr>tr_Root := Some (addTreeNodes m (Node (Some \<lparr>sf_Name = ''deviceCountry'', sf_Call = deviceCountry_Call\<rparr>) (ResultFunctions rt) (Children rt)))\<rparr>)))"

subsection \<open>What it excludes\<close>

lemma parse_scope_total: "\<exists>cfg'. parse_scope g s cfg = Inr cfg' \<and> pc_bidder cfg' = pc_bidder cfg"
  by (auto simp: parse_scope_def)

lemma parse_scopes_total: "\<exists>cfg'. parse_scopes g ss cfg = Inr cfg' \<and> pc_bidder cfg' = pc_bidder cfg"
proof (induction ss arbitrary: cfg)
  case (Cons s ss)
  obtain cfg1 where "parse_scope g s cfg = Inr cfg1" "pc_bidder cfg1 = pc_bidder cfg" using parse_scope_total by blast
  with Cons.IH [of cfg1] show ?case by auto
qed simp

definition bidder_config :: "country_groups \<Rightarrow> string \<Rightarrow> string list \<Rightarrow> parsedConfig" where
  "bidder_config g b scopes = projr (parseBidderGeoscopes g b scopes)"

lemma bidder_config: "parseBidderGeoscopes g b scopes = Inr (bidder_config g b scopes)" "pc_bidder (bidder_config g b scopes) = b"
  using parse_scopes_total [of g scopes "\<lparr>pc_bidder = b, pc_globalIncluded = False, pc_groupsIncluded = [], pc_groupsExcluded = [], pc_singlesIncluded = [], pc_singlesExcluded = []\<rparr>"]
  by (auto simp: bidder_config_def parseBidderGeoscopes_def)

text \<open>The bidders a country excludes, computed for any country.\<close>

definition excluded_bidders :: "geo_config \<Rightarrow> string \<Rightarrow> string list" where
  "excluded_bidders c country = (let (g, geoscopes) = c in map fst (filter (\<lambda>(b, scopes). excluded_from g (bidder_config g b scopes) country) geoscopes))"

lemma mark_bidders_eq:
  "mark_bidders g geoscopes m = Inr (map (\<lambda>(c, bidders). (c, bidders @ excluded_bidders (g, geoscopes) c)) m)"
proof (induction geoscopes arbitrary: m)
  case (Cons x rest)
  obtain b scopes where x: "x = (b, scopes)" by (cases x)
  show ?case by (auto simp: x bidder_config Cons.IH mark_exclusions_def excluded_bidders_def)
qed (simp add: excluded_bidders_def)

definition named :: "geo_config \<Rightarrow> string list" where
  "named c = (let (g, geoscopes) = c in concat (map (\<lambda>(_, scopes). concat (map (scope_countries g) scopes)) geoscopes))"

lemma map_of_add_countries:
  "map_of (add_countries cs m) c = (case map_of m c of Some v \<Rightarrow> Some v | None \<Rightarrow> if c \<in> set cs then Some [] else None)"
proof (induction cs m rule: add_countries.induct)
  case (2 x cs m)
  have "map_has m x \<longleftrightarrow> map_of m x \<noteq> None" by (metis map_of_eq_None_iff)
  with 2 show ?case by (auto split: option.splits)
qed (simp split: option.split)

lemma initial_keys: "map_of (initializeCountryExclusions g geoscopes) c = (if c = ''*'' \<or> c \<in> set (named (g, geoscopes)) then Some [] else None)"
  by (simp add: initializeCountryExclusions_def named_def map_of_add_countries)

text \<open>A country no scope mentions, directly or through a group, is treated as the wildcard is.\<close>

definition mentions :: "country_groups \<Rightarrow> parsedConfig \<Rightarrow> string \<Rightarrow> bool" where
  "mentions g cfg c \<longleftrightarrow> c \<in> set (pc_singlesIncluded cfg) \<or> c \<in> set (pc_singlesExcluded cfg)
     \<or> countryInAGroup g c (pc_groupsIncluded cfg) \<or> countryInAGroup g c (pc_groupsExcluded cfg)"

lemma excluded_from_unmentioned: "\<not> mentions g cfg c \<Longrightarrow> \<not> mentions g cfg d \<Longrightarrow> excluded_from g cfg c = excluded_from g cfg d"
  by (simp add: mentions_def excluded_from_def)

definition plain_groups :: "country_groups \<Rightarrow> bool" where
  "plain_groups g = list_all (\<lambda>(k, _). \<not> negated k) g"

lemma is_group_plain: "plain_groups g \<Longrightarrow> is_group g s \<Longrightarrow> \<not> negated s"
  by (auto simp: plain_groups_def is_group_def list_all_iff dest: map_of_SomeD)

lemma countryInAGroup_append: "countryInAGroup g c (ns @ [n]) \<longleftrightarrow> countryInAGroup g c ns \<or> (\<exists>cs. map_of g n = Some cs \<and> c \<in> set cs)"
  by (auto simp: countryInAGroup_def split: option.splits)

lemma parse_scope_mentions:
  assumes "plain_groups g" "parse_scope g s cfg = Inr cfg'" "mentions g cfg' c"
  shows "mentions g cfg c \<or> c \<in> set (scope_countries g s)"
proof -
  consider "s = ''GLOBAL''" | "s \<noteq> ''GLOBAL''" "is_group g s" "\<not> negated s" | "s \<noteq> ''GLOBAL''" "\<not> is_group g s" "negated s" "is_group g (tl s)"
    | "s \<noteq> ''GLOBAL''" "\<not> is_group g s" "\<not> negated s" | "s \<noteq> ''GLOBAL''" "\<not> is_group g s" "negated s" "\<not> is_group g (tl s)"
    using is_group_plain [OF assms(1)] by blast
  then show ?thesis
    using assms(2,3)
    by cases (auto simp: parse_scope_def mentions_def scope_countries_def trim_negation_def countryInAGroup_append is_group_def Let_def split: option.splits)
qed

lemma parse_scopes_mentions:
  assumes "plain_groups g" "parse_scopes g ss cfg = Inr cfg'" "mentions g cfg' c"
  shows "mentions g cfg c \<or> c \<in> set (concat (map (scope_countries g) ss))"
  using assms(2)
proof (induction ss arbitrary: cfg)
  case Nil
  then show ?case using assms(3) by simp
next
  case (Cons s ss)
  obtain cfg1 where c1: "parse_scope g s cfg = Inr cfg1" using parse_scope_total by blast
  with Cons show ?case using parse_scope_mentions [OF assms(1) c1, of c] by auto
qed

lemma bidder_mentions:
  assumes "plain_groups g" "(b, scopes) \<in> set geoscopes" "mentions g (bidder_config g b scopes) c"
  shows "c \<in> set (named (g, geoscopes))"
proof -
  have "c \<in> set (concat (map (scope_countries g) scopes))"
    using parse_scopes_mentions [OF assms(1) bidder_config(1) [unfolded parseBidderGeoscopes_def] assms(3)]
    by (simp add: mentions_def countryInAGroup_def)
  with assms(2) show ?thesis by (force simp: named_def)
qed

lemma excluded_bidders_unnamed:
  assumes "plain_groups (fst c)" "x \<notin> set (named c)" "y \<notin> set (named c)"
  shows "excluded_bidders c x = excluded_bidders c y"
proof -
  obtain g geoscopes where c: "c = (g, geoscopes)" by (cases c)
  have "excluded_from g (bidder_config g b scopes) x = excluded_from g (bidder_config g b scopes) y" if "(b, scopes) \<in> set geoscopes" for b scopes
    using bidder_mentions that assms by (intro excluded_from_unmentioned) (auto simp: c)
  then show ?thesis
    by (auto simp: excluded_bidders_def c intro!: arg_cong [where f = "map fst"] filter_cong)
qed

subsection \<open>The builder as a provider of trees\<close>

definition valid_geo :: "geo_config \<Rightarrow> bool" where
  "valid_geo c \<longleftrightarrow> snd c \<noteq> [] \<and> plain_groups (fst c) \<and> ''*'' \<notin> set (named c)"

definition country_of :: "RuleRequest \<Rightarrow> string" where
  "country_of r = (case rq_Geo r of Some (c, _) \<Rightarrow> c | None \<Rightarrow> [])"

definition geo_meta :: "geo_config \<Rightarrow> string \<Rightarrow> ResultFunctionMeta" where
  "geo_meta c country =
     \<lparr>rm_SchemaFunctionResults = [(''deviceCountry'', country)], rm_AnalyticsKey = [], rm_RuleFired = (if country \<in> set (named c) then country else ''*''), rm_ModelVersion = []\<rparr>"

definition geo_plan :: "geo_config \<Rightarrow> RuleRequest \<Rightarrow> (hook_function list \<times> ResultFunctionMeta) option" where
  "geo_plan c r = Some ([ExcludeBidders (excluded_bidders c (country_of r))], geo_meta c (country_of r))"

definition geo_node :: "geo_config \<Rightarrow> (RuleRequest, ProcessedAuctionHookResult) Node" where
  "geo_node c = Node (Some \<lparr>sf_Name = ''deviceCountry'', sf_Call = deviceCountry_Call\<rparr>) []
     (map (\<lambda>(x, bidders). (x, Some (Node None [ExcludeBidders (bidders @ excluded_bidders c x)] []))) (initializeCountryExclusions (fst c) (snd c)))"

lemma Build_geoscopes_eq: "valid_geo c \<Longrightarrow> Build_geoscopes c new_tree = Inr (new_tree\<lparr>tr_Root := Some (geo_node c)\<rparr>)"
  by (cases c) (auto simp: valid_geo_def Build_geoscopes_def new_tree_def empty_node_def mark_bidders_eq addTreeNodes_def geo_node_def)

lemma geo_depths: "set (leaf_depths (Some (geo_node c)) 0) \<subseteq> {1}"
proof -
  have "set (child_depths (map (\<lambda>(x, b). (x, Some (Node None (f x b) []))) m) d) \<subseteq> {d}" for f :: "string \<Rightarrow> string list \<Rightarrow> hook_function list" and m d
    by (induction m) auto
  from this [where d = 1] show ?thesis
    by (auto simp: geo_node_def initializeCountryExclusions_def)
qed

lemma geo_match:
  assumes "valid_geo c"
  shows "matchChild (geo_node c) x = (if x \<in> set (named c) then x else ''*'', Some (Node None [ExcludeBidders (excluded_bidders c x)] []))"
proof -
  have m: "map_of (Children (geo_node c)) k = map_option (\<lambda>bidders. Some (Node None [ExcludeBidders (bidders @ excluded_bidders c k)] []))
      (map_of (initializeCountryExclusions (fst c) (snd c)) k)" for k
  proof -
    have "map_of (map (\<lambda>(x, b). (x, f x b)) m) k = map_option (f k) (map_of m k)" for f :: "string \<Rightarrow> string list \<Rightarrow> (RuleRequest, ProcessedAuctionHookResult) Node option" and m
      by (induction m) auto
    then show ?thesis by (simp add: geo_node_def)
  qed
  have "excluded_bidders c x = excluded_bidders c ''*''" if "x \<notin> set (named c)"
    using excluded_bidders_unnamed [OF _ that] assms by (simp add: valid_geo_def)
  then show ?thesis
    using assms initial_keys [of "fst c" "snd c"] by (auto simp: matchChild_def m valid_geo_def)
qed

lemma geo_runs:
  assumes "valid_geo c" "Build_geoscopes c new_tree = Inr t" "geo_plan c p = Some (rfs, m)"
  shows "Run t p r = run_results rfs p r m"
proof -
  have t: "t = new_tree\<lparr>tr_Root := Some (geo_node c)\<rparr>" using assms(1,2) Build_geoscopes_eq by simp
  have leaf: "\<not> isLeaf (geo_node c)" "SchemaFunction_of (geo_node c) = Some \<lparr>sf_Name = ''deviceCountry'', sf_Call = deviceCountry_Call\<rparr>"
    by (auto simp: isLeaf_def geo_node_def initializeCountryExclusions_def dest: arg_cong [where f = length])
  have "deviceCountry_Call p = Inr (country_of p)"
    by (simp add: deviceCountry_Call_def country_of_def getDeviceGeo_def)
  then have "walk p (geo_node c) (start_meta t) = Inr (Some (Node None [ExcludeBidders (excluded_bidders c (country_of p))] []), geo_meta c (country_of p))"
    using leaf by (subst walk.simps)
      (simp add: geo_match [OF assms(1)] walk.simps [of p "Node None _ []"] isLeaf_def [of "Node None _ []"] start_meta_def t new_tree_def geo_meta_def
        appendToSchemaFunctionResults_def appendToRuleFired_def Let_def)
  with assms(3) show ?thesis by (auto simp: Run_def t geo_plan_def)
qed

interpretation geo: tree_builder Build_geoscopes valid_geo geo_plan
proof unfold_locales
  fix c assume "valid_geo c"
  then show "\<exists>t rt d. Build_geoscopes c new_tree = Inr t \<and> tr_Root t = Some rt \<and> set (leaf_depths (Some rt) 0) \<subseteq> {d}"
    using Build_geoscopes_eq geo_depths by fastforce
qed (rule geo_runs)

end
