(* ===== verification/RulesModule.thy ===== *)
theory RulesModule
  imports RulesEngine
begin

text \<open>
  The module around the rule trees: configurations and cache entries (\<^verbatim>\<open>modules/prebid/rulesengine/config/config.go\<close>, \<^verbatim>\<open>cache_entry.go\<close>), the hook
  that runs the rule sets (\<^verbatim>\<open>hook_processed_auction.go\<close>), the cache, the tree manager and the module's entry point. JSON Schema, the decoding
  of a configuration and the hash are arguments, and so are the time and the random numbers. The tree manager handles one
  instruction at a time, and a hook that sends one waits until it is taken, so a hook call with its instruction is one step.
\<close>

section \<open>Choosing a model group\<close>

record cacheModelGroup =
  cg_weight :: int
  cg_version :: string
  cg_analyticsKey :: string
  cg_tree :: "(RuleRequest, ProcessedAuctionHookResult) Tree"

record cacheRuleSet =
  crs_name :: string
  crs_modelGroups :: "cacheModelGroup list"

definition group_weight :: "cacheModelGroup \<Rightarrow> int" where
  "group_weight g = (if cg_weight g > 0 then cg_weight g else 100)"

fun cumulative :: "int \<Rightarrow> int list \<Rightarrow> int list" where
  "cumulative t [] = []"
| "cumulative t (w # ws) = (t + w) # cumulative (t + w) ws"

fun find_threshold :: "int \<Rightarrow> int list \<Rightarrow> nat option" where
  "find_threshold v [] = None"
| "find_threshold v (t # ts) = (if v \<le> t then Some 0 else map_option Suc (find_threshold v ts))"

text \<open>The weights are at most 100 by the schema of configurations, so sums stay far inside 64 bits.\<close>

definition selectModelGroup :: "(int \<Rightarrow> int) \<Rightarrow> cacheModelGroup list \<Rightarrow> string + cacheModelGroup" where
  "selectModelGroup intn groups =
     (if groups = [] then Inl ''no model groups available''
      else if length groups = 1 then Inr (groups ! 0)
      else
        (let weights = map group_weight groups
         in case find_threshold (intn (sum_list weights) + 1) (cumulative 0 weights) of
              Some i \<Rightarrow> Inr (groups ! i)
            | None \<Rightarrow> Inr (groups ! 0)))"

lemma find_cumulative:
  "\<forall>w\<in>set ws. 0 < w \<Longrightarrow> find_threshold v (cumulative t ws) = Some i \<longleftrightarrow>
     i < length ws \<and> v \<le> t + sum_list (take (Suc i) ws) \<and> (i = 0 \<or> t + sum_list (take i ws) < v)"
proof (induction t ws arbitrary: i rule: cumulative.induct)
  case (2 t w ws)
  show ?case
  proof (cases i)
    case (Suc j)
    have "0 \<le> sum_list (take j ws)"
      using "2.prems" by (intro sum_list_nonneg) (meson in_set_takeD less_imp_le list.set_intros(2))
    moreover have "sum_list (take (Suc j) ws) = sum_list (take j ws) + ws ! j" if "j < length ws"
      using that by (simp add: take_Suc_conv_app_nth)
    moreover have "0 < ws ! j" if "j < length ws" using that "2.prems" by simp
    ultimately show ?thesis
      using "2.IH" [of j] "2.prems" by (auto simp: Suc add.assoc)
  qed simp
qed simp

lemma find_cumulative_total:
  assumes "\<forall>w\<in>set ws. 0 < w" "v \<le> t + sum_list ws" "ws \<noteq> []"
  shows "\<exists>i. find_threshold v (cumulative t ws) = Some i"
  using assms
proof (induction t ws rule: cumulative.induct)
  case (2 t w ws)
  then show ?case by (cases ws) (auto simp: add.assoc)
qed simp

definition selected_index :: "int list \<Rightarrow> int \<Rightarrow> nat" where
  "selected_index ws r = (case find_threshold (r + 1) (cumulative 0 ws) of Some i \<Rightarrow> i | None \<Rightarrow> 0)"

lemma selected_index_iff:
  assumes "\<forall>w\<in>set ws. 0 < w" "0 \<le> r" "r < sum_list ws" "i < length ws"
  shows "selected_index ws r = i \<longleftrightarrow> sum_list (take i ws) \<le> r \<and> r < sum_list (take (Suc i) ws)"
proof -
  have "ws \<noteq> []" using assms(4) by auto
  then obtain j where "find_threshold (r + 1) (cumulative 0 ws) = Some j"
    using find_cumulative_total [OF assms(1), of "r + 1" 0] assms(3) by auto
  then have "selected_index ws r = i \<longleftrightarrow> find_threshold (r + 1) (cumulative 0 ws) = Some i" by (simp add: selected_index_def)
  also have "\<dots> \<longleftrightarrow> sum_list (take i ws) \<le> r \<and> r < sum_list (take (Suc i) ws)"
    unfolding find_cumulative [OF assms(1), of "r + 1" 0] using assms(2,4) by (cases i) auto
  finally show ?thesis .
qed

lemma selectModelGroup_index:
  assumes "2 \<le> length groups"
  shows "selectModelGroup intn groups = Inr (groups ! selected_index (map group_weight groups) (intn (sum_list (map group_weight groups))))"
  using assms by (auto simp: selectModelGroup_def selected_index_def Let_def split: option.split)

lemma group_weight_pos: "\<forall>w\<in>set (map group_weight groups). 0 < w"
  by (auto simp: group_weight_def)

text \<open>
  A model group is chosen in proportion to its weight: of the random numbers from zero up to the total weight, exactly as many select the
  group at a position as its weight says, 100 where it has none; and every number selects some group.
\<close>
theorem selectModelGroup_proportional:
  assumes "2 \<le> length groups" "i < length groups"
  shows "let sum = sum_list (map group_weight groups)
    in card {r. 0 \<le> r \<and> r < sum \<and> selected_index (map group_weight groups) r = i} = nat (group_weight (groups ! i))
     \<and> selectModelGroup (\<lambda>_. r) groups = Inr (groups ! selected_index (map group_weight groups) r)"
proof -
  let ?ws = "map group_weight groups"
  have i: "i < length ?ws" using assms(2) by simp
  have suc: "sum_list (take (Suc i) ?ws) = sum_list (take i ?ws) + ?ws ! i"
    using i by (simp add: take_Suc_conv_app_nth)
  have lo: "0 \<le> sum_list (take i ?ws)"
    using group_weight_pos [of groups] by (intro sum_list_nonneg) (meson in_set_takeD less_imp_le)
  have "0 \<le> sum_list (drop (Suc i) ?ws)"
    using group_weight_pos [of groups] by (intro sum_list_nonneg) (meson in_set_dropD less_imp_le)
  moreover have "sum_list ?ws = sum_list (take (Suc i) ?ws) + sum_list (drop (Suc i) ?ws)"
    by (metis append_take_drop_id sum_list_append)
  ultimately have hi: "sum_list (take (Suc i) ?ws) \<le> sum_list ?ws" by simp
  have "{r. 0 \<le> r \<and> r < sum_list ?ws \<and> selected_index ?ws r = i} = {sum_list (take i ?ws)..<sum_list (take (Suc i) ?ws)}"
  proof (intro set_eqI)
    fix r
    show "r \<in> {r. 0 \<le> r \<and> r < sum_list ?ws \<and> selected_index ?ws r = i} \<longleftrightarrow> r \<in> {sum_list (take i ?ws)..<sum_list (take (Suc i) ?ws)}"
      using selected_index_iff [OF group_weight_pos _ _ i, of r] lo hi by (cases "0 \<le> r \<and> r < sum_list ?ws") auto
  qed
  then show ?thesis
    using suc i selectModelGroup_index [OF assms(1)] by (simp add: Let_def)
qed

theorem selectModelGroup_proportional_witness:
  "let g = \<lparr>cg_weight = 30, cg_version = [], cg_analyticsKey = [], cg_tree = new_tree\<rparr>; h = g\<lparr>cg_weight := 70\<rparr>
   in card {r. 0 \<le> r \<and> r < 100 \<and> selected_index [30, 70] r = 1} = 70 \<and> selectModelGroup (\<lambda>_. 30) [g, h] = Inr h"
  using selectModelGroup_proportional [of "[\<lparr>cg_weight = 30, cg_version = [], cg_analyticsKey = [], cg_tree = new_tree\<rparr>, \<lparr>cg_weight = 70, cg_version = [], cg_analyticsKey = [], cg_tree = new_tree\<rparr>]" 1 30]
  by (simp add: Let_def group_weight_def selected_index_def)

section \<open>Configurations\<close>

type_synonym func_config = "string \<times> string"

record ModelGroupConfig =
  mc_Weight :: int
  mc_AnalyticsKey :: string
  mc_Version :: string
  mc_Group :: "(func_config, func_config) ModelGroup"

record RuleSet =
  rs_Stage :: string
  rs_Name :: string
  rs_Version :: string
  rs_ModelGroups :: "ModelGroupConfig list"

record PbRulesEngine =
  pe_Enabled :: bool
  pe_GenerateRulesFromBidderConfig :: bool
  pe_CountryGroups :: country_groups
  pe_Timestamp :: string
  pe_RuleSets :: "RuleSet list"

text \<open>What the module relies on: the schema validator with its errors, the decoder, the hash and the decoders of function arguments.\<close>

record config_env =
  ev_Validate :: "string \<Rightarrow> string + string list"
  ev_Unmarshal :: "string \<Rightarrow> string + PbRulesEngine"
  ev_sha256 :: "string \<Rightarrow> string"
  ev_args :: json_args

definition validateConfig :: "config_env \<Rightarrow> string \<Rightarrow> string option" where
  "validateConfig env raw =
     (case ev_Validate env raw of
        Inl e \<Rightarrow> Some e
      | Inr [] \<Rightarrow> None
      | Inr es \<Rightarrow> Some (concat (map (\<lambda>e. ''['' @ e @ ''] '') es)))"

fun check_conditions :: "nat \<Rightarrow> nat \<Rightarrow> nat \<Rightarrow> (string list \<times> func_config list) list \<Rightarrow> string option" where
  "check_conditions i n j [] = None"
| "check_conditions i n j ((cs, rs) # rules) =
    (if n \<noteq> length cs
     then Some (''ModelGroup '' @ nat_digits i @ '' number of schema functions differ from number of conditions of rule '' @ nat_digits j)
     else check_conditions i n (Suc j) rules)"

fun validate_groups :: "nat \<Rightarrow> ModelGroupConfig list \<Rightarrow> string + ModelGroupConfig list" where
  "validate_groups i [] = Inr []"
| "validate_groups i (g # gs) =
    (let g = (if mc_Weight g = 0 then g\<lparr>mc_Weight := 100\<rparr> else g);
         schema = mg_Schema (mc_Group g); rules = mg_Rules (mc_Group g)
     in if schema \<noteq> [] \<and> rules = [] then Inl (''ModelGroup '' @ nat_digits i @ '' has schema functions but no rules'')
        else if schema = [] \<and> rules \<noteq> [] then Inl (''ModelGroup '' @ nat_digits i @ '' has no schema functions to test its rules against'')
        else
          (case check_conditions i (length schema) 0 rules of
             Some e \<Rightarrow> Inl e
           | None \<Rightarrow> (case validate_groups (Suc i) gs of Inl e \<Rightarrow> Inl e | Inr gs' \<Rightarrow> Inr (g # gs'))))"

definition validateRuleSet :: "RuleSet \<Rightarrow> string + RuleSet" where
  "validateRuleSet r = (case validate_groups 0 (rs_ModelGroups r) of Inl e \<Rightarrow> Inl e | Inr gs \<Rightarrow> Inr (r\<lparr>rs_ModelGroups := gs\<rparr>))"

fun validate_rule_sets :: "nat \<Rightarrow> RuleSet list \<Rightarrow> string + RuleSet list" where
  "validate_rule_sets i [] = Inr []"
| "validate_rule_sets i (r # rs) =
    (case validateRuleSet r of
       Inl e \<Rightarrow> Inl (''Ruleset no '' @ nat_digits i @ '' is invalid: '' @ e)
     | Inr r' \<Rightarrow> (case validate_rule_sets (Suc i) rs of Inl e \<Rightarrow> Inl e | Inr rs' \<Rightarrow> Inr (r' # rs')))"

definition NewConfig :: "config_env \<Rightarrow> string \<Rightarrow> string + PbRulesEngine" where
  "NewConfig env raw =
     (case validateConfig env raw of
        Some e \<Rightarrow> Inl (''JSON schema validation: '' @ e)
      | None \<Rightarrow>
          (case ev_Unmarshal env raw of
             Inl e \<Rightarrow> Inl (''failed to parse config: '' @ e)
           | Inr cfg \<Rightarrow>
               (case validate_rule_sets 0 (pe_RuleSets cfg) of
                  Inl e \<Rightarrow> Inl e
                | Inr rs \<Rightarrow> Inr (cfg\<lparr>pe_RuleSets := rs\<rparr>))))"

text \<open>What validation establishes for every model group.\<close>

lemma Inr_if: "(if b then Inl e else x) = Inr y \<longleftrightarrow> \<not> b \<and> x = Inr y"
  by simp

lemma Inr_case_None: "(case x of Some e \<Rightarrow> Inl e | None \<Rightarrow> y) = Inr z \<longleftrightarrow> x = None \<and> y = Inr z"
  by (simp split: option.split)

lemma Inr_case_Inr: "(case x of Inl e \<Rightarrow> Inl e | Inr y \<Rightarrow> f y) = Inr z \<longleftrightarrow> (\<exists>y. x = Inr y \<and> f y = Inr z)"
  by (simp split: sum.split)

lemmas Inr_unfold = Inr_if Inr_case_None Inr_case_Inr

definition sound_group :: "ModelGroupConfig \<Rightarrow> bool" where
  "sound_group g \<longleftrightarrow> mc_Weight g \<noteq> 0 \<and> (mg_Schema (mc_Group g) = [] \<longleftrightarrow> mg_Rules (mc_Group g) = [])
     \<and> list_all (\<lambda>(cs, _). length cs = length (mg_Schema (mc_Group g))) (mg_Rules (mc_Group g))"

lemma check_conditions_None: "check_conditions i n j rules = None \<longleftrightarrow> list_all (\<lambda>(cs, _). length cs = n) rules"
  by (induction i n j rules rule: check_conditions.induct) auto

lemma validate_groups_sound: "validate_groups i gs = Inr gs' \<Longrightarrow> list_all sound_group gs'"
proof (induction gs arbitrary: i gs')
  case (Cons g gs)
  let ?g = "if mc_Weight g = 0 then g\<lparr>mc_Weight := 100\<rparr> else g"
  obtain gs1 where gs1: "validate_groups (Suc i) gs = Inr gs1" "gs' = ?g # gs1"
    "check_conditions i (length (mg_Schema (mc_Group ?g))) 0 (mg_Rules (mc_Group ?g)) = None"
    "mg_Schema (mc_Group ?g) = [] \<longleftrightarrow> mg_Rules (mc_Group ?g) = []"
    using Cons.prems unfolding validate_groups.simps Let_def Inr_unfold by blast
  from gs1(3,4) have "sound_group ?g" by (auto simp: sound_group_def check_conditions_None)
  then show ?case using Cons.IH [OF gs1(1)] gs1(2) by simp
qed simp

lemma validate_rule_sets_sound: "validate_rule_sets i rs = Inr rs' \<Longrightarrow> list_all (\<lambda>r. list_all sound_group (rs_ModelGroups r)) rs'"
  by (induction i rs arbitrary: rs' rule: validate_rule_sets.induct)
    (auto simp: validateRuleSet_def split: sum.splits dest: validate_groups_sound)

lemma NewConfig_sound: "NewConfig env raw = Inr cfg \<Longrightarrow> list_all (\<lambda>r. list_all sound_group (rs_ModelGroups r)) (pe_RuleSets cfg)"
  by (auto simp: NewConfig_def split: option.splits sum.splits dest!: validate_rule_sets_sound)

section \<open>Cache entries\<close>

fun error_text :: "rules_error \<Rightarrow> string" where
  "error_text RootIsNil = ''tree root is nil''"
| "error_text SchemaFunctionIsNil = ''schema function is nil''"
| "error_text Malformed = ''tree is malformed: leaves found at different depths''"
| "error_text (CallError e) = e"
| "error_text (FactoryError e) = e"
| "error_text BuildPanic = ''runtime error: index out of range''"

record cacheEntry =
  ce_enabled :: bool
  ce_timestamp :: int
  ce_hashedConfig :: string
  ce_ruleSets :: "cacheRuleSet list"

definition group_builder :: "json_args \<Rightarrow> ModelGroupConfig \<Rightarrow> (func_config, func_config, RuleRequest, ProcessedAuctionHookResult) group_config" where
  "group_builder ja g = ((\<lambda>(f, a). NewRequestSchemaFunction ja f a), (\<lambda>(f, a). NewProcessedAuctionRequestResultFunction ja f a), mc_Group g)"

fun cache_groups :: "json_args \<Rightarrow> ModelGroupConfig list \<Rightarrow> rules_error + cacheModelGroup list" where
  "cache_groups ja [] = Inr []"
| "cache_groups ja (g # gs) =
    (case NewTree (build_group (group_builder ja g)) of
       Inl e \<Rightarrow> Inl e
     | Inr t \<Rightarrow>
         (case cache_groups ja gs of
            Inl e \<Rightarrow> Inl e
          | Inr cgs \<Rightarrow> Inr (\<lparr>cg_weight = mc_Weight g, cg_version = mc_Version g, cg_analyticsKey = mc_AnalyticsKey g, cg_tree = t\<rparr> # cgs)))"

definition createCacheRuleSet :: "json_args \<Rightarrow> RuleSet \<Rightarrow> rules_error + cacheRuleSet" where
  "createCacheRuleSet ja r =
     (case cache_groups ja (rs_ModelGroups r) of Inl e \<Rightarrow> Inl e | Inr gs \<Rightarrow> Inr \<lparr>crs_name = rs_Name r, crs_modelGroups = gs\<rparr>)"

definition geo_settings :: "country_groups \<Rightarrow> (string, string list) gomap \<Rightarrow> geo_config" where
  "geo_settings defs geoscopes = (mergeCountryGroups defaultCountryGroups defs, geoscopes)"

definition buildBidderConfigRuleSet :: "(string, string list) gomap \<Rightarrow> country_groups \<Rightarrow> rules_error + cacheRuleSet list" where
  "buildBidderConfigRuleSet geoscopes defs =
     (case NewTree (Build_geoscopes (geo_settings defs geoscopes)) of
        Inl e \<Rightarrow> Inl e
      | Inr t \<Rightarrow>
          Inr [\<lparr>crs_name = ''Dynamic ruleset from geoscopes'',
                crs_modelGroups = [\<lparr>cg_weight = 100, cg_version = ''1.0'', cg_analyticsKey = ''bidderConfig'', cg_tree = t\<rparr>]\<rparr>])"

text \<open>Rule sets of other stages and rule sets that cannot be built are left out.\<close>

fun add_rule_sets :: "json_args \<Rightarrow> RuleSet list \<Rightarrow> cacheRuleSet list \<Rightarrow> cacheRuleSet list" where
  "add_rule_sets ja [] acc = acc"
| "add_rule_sets ja (r # rs) acc =
    (if rs_Stage r \<noteq> ''processed_auction_request'' then add_rule_sets ja rs acc
     else case createCacheRuleSet ja r of Inl _ \<Rightarrow> add_rule_sets ja rs acc | Inr c \<Rightarrow> add_rule_sets ja rs (acc @ [c]))"

definition hashConfig :: "config_env \<Rightarrow> string \<Rightarrow> string" where
  "hashConfig env raw = (if raw = [] then [] else ev_sha256 env raw)"

definition NewCacheEntry :: "config_env \<Rightarrow> PbRulesEngine \<Rightarrow> string \<Rightarrow> (string, string list) gomap \<Rightarrow> int \<Rightarrow> string + cacheEntry" where
  "NewCacheEntry env cfg raw geoscopes now =
     (let h = hashConfig env raw
      in if h = [] then Inl ''Can't create identifier hash from empty raw json configuration''
         else
           (case (if pe_GenerateRulesFromBidderConfig cfg then buildBidderConfigRuleSet geoscopes (pe_CountryGroups cfg) else Inr []) of
              Inl e \<Rightarrow> Inl (error_text e)
            | Inr rs \<Rightarrow>
                Inr \<lparr>ce_enabled = pe_Enabled cfg, ce_timestamp = now, ce_hashedConfig = h,
                      ce_ruleSets = add_rule_sets (ev_args env) (pe_RuleSets cfg) rs\<rparr>))"

subsection \<open>No panic while building\<close>

text \<open>Every result of building that is not a panic.\<close>

definition no_panic :: "rules_error + 'a \<Rightarrow> bool" where
  "no_panic r \<longleftrightarrow> r \<noteq> Inl BuildPanic"

fun real_children :: "nat \<Rightarrow> ('p, 'r) Node \<Rightarrow> bool" where
  "real_children 0 nd = True"
| "real_children (Suc n) nd \<longleftrightarrow> (\<forall>(k, c)\<in>set (Children nd). case c of None \<Rightarrow> False | Some c \<Rightarrow> real_children n c)"

lemma real_children_empty [simp]: "real_children n empty_node"
  by (cases n) (simp_all add: empty_node_def)

lemma add_rule_no_panic:
  assumes "real_children (length cs) nd" "no_panic rfs" "\<And>i. i < ci + length cs \<Longrightarrow> no_panic (level i)"
  shows "no_panic (add_rule level ci cs rfs nd) \<and> (\<forall>nd'. add_rule level ci cs rfs nd = Inr nd' \<longrightarrow> real_children (length cs) nd')"
  using assms
proof (induction level ci cs rfs nd rule: add_rule.induct)
  case (2 level ci condition cs rfs s r ch)
  have lvl: "no_panic (level ci)" using "2.prems"(3) [of ci] by simp
  obtain x where x: "(case map_of ch condition of None \<Rightarrow> Some empty_node | Some c \<Rightarrow> c) = Some x" "real_children (length cs) x"
    using "2.prems"(1) by (cases "map_of ch condition") (fastforce split: option.splits dest: map_of_SomeD)+
  show ?case
  proof (cases "if ch = [] then map_sum id Some (level ci) else Inr s")
    case (Inl e)
    then have "add_rule level ci (condition # cs) rfs (Node s r ch) = Inl e" by (simp only: add_rule.simps sum.case)
    moreover have "e \<noteq> BuildPanic" using Inl lvl by (cases "level ci") (auto simp: no_panic_def split: if_splits)
    ultimately show ?thesis by (simp only: no_panic_def) simp
  next
    case (Inr s')
    have ih: "no_panic (add_rule level (Suc ci) cs rfs x)" "\<And>nd'. add_rule level (Suc ci) cs rfs x = Inr nd' \<Longrightarrow> real_children (length cs) nd'"
      using "2.IH" [OF Inr x] "2.prems"(2,3) by auto
    have eq: "add_rule level ci (condition # cs) rfs (Node s r ch) =
        (case add_rule level (Suc ci) cs rfs x of Inl e \<Rightarrow> Inl e | Inr c' \<Rightarrow> Inr (Node s' r (map_put condition (Some c') ch)))"
      by (simp only: add_rule.simps Inr sum.case x(1) option.case)
    show ?thesis
    proof (cases "add_rule level (Suc ci) cs rfs x")
      case (Inr c')
      have "real_children (length cs) c'" using ih(2) Inr by blast
      then have "real_children (Suc (length cs)) (Node s' r (map_put condition (Some c') ch))"
        using "2.prems"(1) by (auto dest!: set_map_put)
      moreover have "add_rule level ci (condition # cs) rfs (Node s r ch) = Inr (Node s' r (map_put condition (Some c') ch))"
        unfolding eq Inr by simp
      ultimately show ?thesis by (simp only: no_panic_def list.size add_Suc_right add_0_right) simp
    next
      case (Inl e)
      have "add_rule level ci (condition # cs) rfs (Node s r ch) = Inl e" unfolding eq Inl by simp
      then show ?thesis using ih(1) Inl by (simp only: no_panic_def) simp
    qed
  qed
qed (auto simp: no_panic_def split: sum.splits)

lemma build_results_no_panic: "no_panic (build_results mkr as)"
  by (induction as) (auto simp: no_panic_def split: sum.splits)

lemma add_rules_no_panic:
  assumes "real_children n nd" "list_all (\<lambda>(cs, _). length cs = n) rules" "\<And>i. i < n \<Longrightarrow> no_panic (level i)"
  shows "no_panic (add_rules level mkr rules nd)"
  using assms(1,2)
proof (induction rules arbitrary: nd)
  case (Cons x rules)
  obtain cs as where x: "x = (cs, as)" "length cs = n" using Cons.prems(2) by (cases x) auto
  show ?case
    using add_rule_no_panic [of cs nd "build_results mkr as" 0 level] Cons x(2) assms(3) build_results_no_panic [of mkr as]
    by (cases "add_rule level 0 cs (build_results mkr as) nd") (auto simp: x(1) no_panic_def)
qed (simp add: no_panic_def)

lemma sound_group_no_panic:
  assumes "sound_group g"
  shows "no_panic (NewTree (build_group (group_builder ja g)))"
proof -
  let ?mks = "\<lambda>(f, a). NewRequestSchemaFunction ja f a" and ?mkr = "\<lambda>(f, a). NewProcessedAuctionRequestResultFunction ja f a"
  let ?level = "level_function ?mks (mg_Schema (mc_Group g))"
  have "no_panic (?level i)" if "i < length (mg_Schema (mc_Group g))" for i
    using that by (auto simp: level_function_def no_panic_def split: sum.splits)
  then have "no_panic (add_rules ?level ?mkr (mg_Rules (mc_Group g)) empty_node)"
    using assms by (intro add_rules_no_panic) (auto simp: sound_group_def)
  then show ?thesis
    using build_results_no_panic [of ?mkr "mg_Default (mc_Group g)"]
    by (auto simp: NewTree_def build_group_def group_builder_def Build_def new_tree_def no_panic_def validate_def split: sum.splits option.splits if_splits)
qed

lemma cache_groups_no_panic: "list_all sound_group gs \<Longrightarrow> no_panic (cache_groups ja gs)"
proof (induction gs)
  case (Cons g gs)
  then show ?case using sound_group_no_panic [of g ja] by (auto simp: no_panic_def split: sum.splits)
qed (simp add: no_panic_def)

text \<open>
  A configuration that validation accepts can be compiled without a panic: for every raw configuration, every rule set that
  \<^verbatim>\<open>NewConfig\<close> lets through is built into a cache rule set, or is refused with an ordinary error; no schema function is looked up
  beyond the schema. The weight of every accepted model group is set.
\<close>
theorem accepted_config_no_panic:
  assumes "NewConfig env raw = Inr cfg" "r \<in> set (pe_RuleSets cfg)"
  shows "createCacheRuleSet ja r \<noteq> Inl BuildPanic \<and> list_all (\<lambda>g. mc_Weight g \<noteq> 0) (rs_ModelGroups r)"
proof -
  have "list_all sound_group (rs_ModelGroups r)"
    using NewConfig_sound [OF assms(1)] assms(2) by (auto simp: list_all_iff)
  then show ?thesis
    using cache_groups_no_panic [of "rs_ModelGroups r" ja]
    by (auto simp: createCacheRuleSet_def no_panic_def sound_group_def list_all_iff split: sum.splits)
qed

definition sample_config :: PbRulesEngine where
  "sample_config = \<lparr>pe_Enabled = True, pe_GenerateRulesFromBidderConfig = True, pe_CountryGroups = [], pe_Timestamp = [],
     pe_RuleSets = [\<lparr>rs_Stage = ''processed_auction_request'', rs_Name = ''rs'', rs_Version = [],
       rs_ModelGroups = [\<lparr>mc_Weight = 0, mc_AnalyticsKey = [], mc_Version = [],
         mc_Group = \<lparr>mg_Schema = [(''channel'', [])], mg_Rules = [([''web''], [(''includeBidders'', ''x'')])], mg_Default = []\<rparr>\<rparr>]\<rparr>]\<rparr>"

definition sample_env :: config_env where
  "sample_env = \<lparr>ev_Validate = (\<lambda>_. Inr []), ev_Unmarshal = (\<lambda>_. Inr sample_config), ev_sha256 = (\<lambda>s. CHR ''h'' # s),
     ev_args = \<lparr>ja_texts = (\<lambda>_ s. Inr [s]), ja_ints = (\<lambda>_ _. Inr []), ja_pct = (\<lambda>_. Inr None)\<rparr>\<rparr>"

theorem accepted_config_no_panic_witness:
  "\<exists>r. NewConfig sample_env ''{}'' = Inr (sample_config\<lparr>pe_RuleSets := [r]\<rparr>) \<and> createCacheRuleSet (ev_args sample_env) r \<noteq> Inl BuildPanic"
proof -
  have c: "NewConfig sample_env ''{}'' = Inr (sample_config\<lparr>pe_RuleSets := map (\<lambda>r. r\<lparr>rs_ModelGroups := map (\<lambda>g. g\<lparr>mc_Weight := 100\<rparr>) (rs_ModelGroups r)\<rparr>) (pe_RuleSets sample_config)\<rparr>)"
    by (simp add: NewConfig_def validateConfig_def validateRuleSet_def sample_env_def sample_config_def Let_def)
  show ?thesis using accepted_config_no_panic [OF c] c by (simp add: sample_config_def)
qed

section \<open>The hook\<close>

definition run_rule_set :: "(int \<Rightarrow> int) \<Rightarrow> RuleRequest \<Rightarrow> cacheRuleSet \<Rightarrow> ProcessedAuctionHookResult \<Rightarrow> ProcessedAuctionHookResult" where
  "run_rule_set intn req rs result =
     (case selectModelGroup intn (crs_modelGroups rs) of
        Inl e \<Rightarrow> result\<lparr>hr_Errors := hr_Errors result @ [''failed to select model group: '' @ e]\<rparr>
      | Inr g \<Rightarrow>
          let (err, result) = Run (cg_tree g) req result;
              result = (case err of None \<Rightarrow> result | Some e \<Rightarrow> result\<lparr>hr_Errors := hr_Errors result @ [error_text e]\<rparr>)
          in if hr_AllowedBidders result \<noteq> [] then result\<lparr>hr_Mutations := hr_Mutations result @ [AddAllowed]\<rparr> else result)"

text \<open>\<open>intn i\<close> is the generator as the \<open>i\<close>-th rule set uses it.\<close>

fun run_rule_sets :: "(nat \<Rightarrow> int \<Rightarrow> int) \<Rightarrow> RuleRequest \<Rightarrow> cacheRuleSet list \<Rightarrow> ProcessedAuctionHookResult \<Rightarrow> ProcessedAuctionHookResult" where
  "run_rule_sets intn req [] result = result"
| "run_rule_sets intn req (rs # rss) result = run_rule_sets (\<lambda>i. intn (Suc i)) req rss (run_rule_set (intn 0) req rs result)"

definition empty_result :: ProcessedAuctionHookResult where
  "empty_result = \<lparr>hr_Mutations = [], hr_Errors = [], hr_AllowedBidders = []\<rparr>"

definition handleProcessedAuctionHook :: "(nat \<Rightarrow> int \<Rightarrow> int) \<Rightarrow> cacheRuleSet list \<Rightarrow> RuleRequest \<Rightarrow> ProcessedAuctionHookResult" where
  "handleProcessedAuctionHook intn ruleSets req = run_rule_sets intn req ruleSets empty_result"

definition mutated :: "ProcessedAuctionHookResult \<Rightarrow> imp_bidders list \<Rightarrow> imp_bidders list" where
  "mutated result imps = apply_mutations (hr_AllowedBidders result) (hr_Mutations result) imps"

subsection \<open>Result functions only add mutations\<close>

text \<open>The result functions of all nodes of a tree.\<close>

fun node_results :: "('p, 'r) Node option \<Rightarrow> ('p, 'r) ResultFunction list"
  and child_results :: "(string \<times> ('p, 'r) Node option) list \<Rightarrow> ('p, 'r) ResultFunction list" where
  "node_results None = []"
| "node_results (Some (Node s r ch)) = r @ child_results ch"
| "child_results [] = []"
| "child_results ((k, c) # cs) = node_results c @ child_results cs"

lemma child_results_set: "set (child_results cs) = (\<Union>(k, c)\<in>set cs. set (node_results c))"
  by (induction cs) auto

lemma matchChild_results: "matchChild n v = (k, c) \<Longrightarrow> set (node_results c) \<subseteq> set (node_results (Some n))"
  by (cases n) (fastforce simp: matchChild_def child_results_set split: option.splits dest: map_of_SomeD)

lemma walk_results: "walk p n m = Inr (Some n', m') \<Longrightarrow> set (ResultFunctions n') \<subseteq> set (node_results (Some n))"
proof (induction p n m rule: walk.induct)
  case (1 p n m)
  show ?case
  proof (cases "isLeaf n")
    case True
    then show ?thesis using "1.prems" by (cases n) (auto simp: walk.simps)
  next
    case False
    then obtain f res k c where f: "SchemaFunction_of n = Some f" "sf_Call f p = Inr res" "matchChild n res = (k, Some c)"
      "walk p c (appendToRuleFired k (appendToSchemaFunctionResults (sf_Name f) res m)) = Inr (Some n', m')"
      using "1.prems" by (subst (asm) walk.simps) (auto simp: Let_def split: option.splits sum.splits prod.splits)
    then show ?thesis using "1.IH" [OF False f(1,2) refl f(3) [symmetric] refl] matchChild_results [OF f(3)] by auto
  qed
qed

definition adds_mutations :: "hook_function \<Rightarrow> bool" where
  "adds_mutations f \<longleftrightarrow> (\<forall>p r m. prefix (hr_Mutations r) (hr_Mutations (snd (rf_Call f p r m))))"

lemma run_results_adds:
  assumes "list_all adds_mutations rfs"
  shows "prefix (hr_Mutations r) (hr_Mutations (snd (run_results rfs p r m)))"
  using assms
proof (induction rfs arbitrary: r)
  case (Cons f rfs)
  obtain e r1 where c: "rf_Call f p r m = (e, r1)" by (cases "rf_Call f p r m")
  have "prefix (hr_Mutations r) (hr_Mutations r1)"
    using Cons.prems c by (auto simp: adds_mutations_def) (metis snd_conv)
  with Cons.IH [of r1] Cons.prems c show ?case by (cases e) auto
qed simp

definition adding_tree :: "(RuleRequest, ProcessedAuctionHookResult) Tree \<Rightarrow> bool" where
  "adding_tree t \<longleftrightarrow> list_all adds_mutations (node_results (tr_Root t) @ tr_DefaultFunctions t)"

lemma Run_adds:
  assumes "adding_tree t"
  shows "prefix (hr_Mutations r) (hr_Mutations (snd (Run t p r)))"
proof (cases "tr_Root t")
  case (Some rt)
  show ?thesis
  proof (cases "walk p rt (start_meta t)")
    case (Inr nm)
    obtain n m where nm: "nm = (n, m)" by (cases nm)
    have "list_all adds_mutations (case n of None \<Rightarrow> tr_DefaultFunctions t | Some n \<Rightarrow> ResultFunctions n)"
      using assms Inr walk_results [of p rt "start_meta t"] by (cases n) (auto simp: adding_tree_def nm Some list_all_iff)
    then show ?thesis using run_results_adds Inr by (auto simp: Run_def Some nm)
  qed (simp add: Run_def Some)
qed (simp add: Run_def)

lemma add_rule_results:
  "add_rule level ci cs rfs nd = Inr nd' \<Longrightarrow> rfs = Inr fs \<Longrightarrow> set (node_results (Some nd')) \<subseteq> set (node_results (Some nd)) \<union> set fs"
proof (induction level ci cs rfs nd arbitrary: nd' rule: add_rule.induct)
  case (2 level ci condition cs rfs s r ch)
  obtain s' x where x: "(case map_of ch condition of None \<Rightarrow> Some empty_node | Some c \<Rightarrow> c) = Some x"
    "(if ch = [] then map_sum id Some (level ci) else Inr s) = Inr s'"
    using "2.prems"(1) by (auto split: sum.splits option.splits)
  obtain x' where x': "add_rule level (Suc ci) cs rfs x = Inr x'" "nd' = Node s' r (map_put condition (Some x') ch)"
    using "2.prems"(1) x by (auto split: sum.splits)
  have "set (node_results (Some x)) \<subseteq> set (child_results ch)"
    using x(1) by (auto simp: child_results_set empty_node_def split: option.splits dest!: map_of_SomeD)
  moreover have "set (child_results (map_put condition (Some x') ch)) \<subseteq> set (node_results (Some x')) \<union> set (child_results ch)"
    by (auto simp: child_results_set dest!: set_map_put)
  ultimately show ?case using "2.IH" [OF x(2) x(1) x'(1) "2.prems"(2)] by (auto simp: x'(2))
qed auto

lemma add_rule_error: "add_rule level ci cs (Inl e) nd \<noteq> Inr nd'"
proof (induction cs arbitrary: ci nd nd')
  case (Cons c cs)
  then show ?case by (cases nd) (auto split: sum.splits option.splits)
next
  case Nil
  show ?case by (cases nd) simp
qed

lemma build_results_made: "build_results mkr as = Inr fs \<Longrightarrow> f \<in> set fs \<Longrightarrow> \<exists>a. mkr a = Inr f"
  by (induction as arbitrary: fs) (auto split: sum.splits)

lemma add_rules_results:
  "add_rules level mkr rules nd = Inr nd' \<Longrightarrow> f \<in> set (node_results (Some nd')) \<Longrightarrow> f \<in> set (node_results (Some nd)) \<or> (\<exists>a. mkr a = Inr f)"
proof (induction rules arbitrary: nd)
  case (Cons x rules)
  obtain cs as where x: "x = (cs, as)" by (cases x)
  obtain nd1 where nd1: "add_rule level 0 cs (build_results mkr as) nd = Inr nd1" "add_rules level mkr rules nd1 = Inr nd'"
    using Cons.prems(1) by (auto simp: x split: sum.splits)
  have "\<exists>fs. build_results mkr as = Inr fs"
    using nd1(1) by (cases "build_results mkr as") (simp_all add: add_rule_error)
  then obtain fs where fs: "build_results mkr as = Inr fs" ..
  show ?case
    using Cons.IH [OF nd1(2) Cons.prems(2)] add_rule_results [OF nd1(1) fs] build_results_made [OF fs] by blast
qed simp

lemma factory_adds: "NewProcessedAuctionRequestResultFunction ja f a = Inr rf \<Longrightarrow> adds_mutations rf"
  by (auto simp: NewProcessedAuctionRequestResultFunction_def ExcludeBidders_def IncludeBidders_def adds_mutations_def split: if_splits sum.splits)

lemma group_tree_adds:
  assumes "NewTree (build_group (group_builder ja g)) = Inr t"
  shows "adding_tree t"
proof -
  let ?mkr = "\<lambda>(f, a). NewProcessedAuctionRequestResultFunction ja f a"
  obtain ds nd level where b: "build_results ?mkr (mg_Default (mc_Group g)) = Inr ds" "add_rules level ?mkr (mg_Rules (mc_Group g)) empty_node = Inr nd"
    "tr_Root t = Some nd" "tr_DefaultFunctions t = ds"
    using assms by (auto simp: NewTree_def build_group_def group_builder_def Build_def new_tree_def split: sum.splits option.splits)
  have "adds_mutations f" if "f \<in> set (node_results (Some nd)) \<or> f \<in> set ds" for f
    using that add_rules_results [OF b(2)] build_results_made [OF b(1)] by (fastforce simp: empty_node_def intro: factory_adds)
  then show ?thesis by (auto simp: adding_tree_def b(3,4) list_all_iff)
qed

lemma cache_groups_add: "cache_groups ja gs = Inr cgs \<Longrightarrow> list_all (\<lambda>g. adding_tree (cg_tree g)) cgs"
  by (induction gs arbitrary: cgs) (auto split: sum.splits dest: group_tree_adds)

definition adding_set :: "cacheRuleSet \<Rightarrow> bool" where
  "adding_set rs = list_all (\<lambda>g. adding_tree (cg_tree g)) (crs_modelGroups rs)"

lemma add_rule_sets_eq: "\<exists>more. add_rule_sets ja rs acc = acc @ more \<and> list_all adding_set more"
proof (induction ja rs acc rule: add_rule_sets.induct)
  case (2 ja r rs acc)
  show ?case
  proof (cases "rs_Stage r \<noteq> ''processed_auction_request'' \<or> isl (createCacheRuleSet ja r)")
    case True
    then show ?thesis using 2 by (cases "createCacheRuleSet ja r") auto
  next
    case False
    then obtain c where c: "createCacheRuleSet ja r = Inr c" by (cases "createCacheRuleSet ja r") auto
    then have "adding_set c" by (auto simp: createCacheRuleSet_def adding_set_def split: sum.splits dest: cache_groups_add)
    moreover obtain more where "add_rule_sets ja rs (acc @ [c]) = (acc @ [c]) @ more" "list_all adding_set more"
      using "2.IH"(3) False c by auto
    ultimately show ?thesis using False c by auto
  qed
qed simp

lemma selectModelGroup_mem: "selectModelGroup intn gs = Inr g \<Longrightarrow> g \<in> set gs"
proof -
  have len: "find_threshold v (cumulative t ws) = Some i \<Longrightarrow> i < length ws" for v t ws i
    by (induction t ws arbitrary: i rule: cumulative.induct) (auto split: if_splits)
  show "selectModelGroup intn gs = Inr g \<Longrightarrow> g \<in> set gs"
    by (auto simp: selectModelGroup_def Let_def split: if_splits option.splits dest!: len)
qed

lemma run_rule_set_adds:
  assumes "adding_set rs"
  shows "prefix (hr_Mutations r) (hr_Mutations (run_rule_set intn req rs r))"
proof (cases "selectModelGroup intn (crs_modelGroups rs)")
  case (Inr g)
  have "g \<in> set (crs_modelGroups rs)"
    using selectModelGroup_mem [OF Inr] .
  then have "prefix (hr_Mutations r) (hr_Mutations (snd (Run (cg_tree g) req r)))"
    using assms by (intro Run_adds) (simp add: adding_set_def list_all_iff)
  then show ?thesis
    by (auto simp: run_rule_set_def Inr Let_def split: prod.splits option.splits intro: prefix_prefix)
qed (simp add: run_rule_set_def)

lemma run_rule_sets_add:
  "list_all adding_set rss \<Longrightarrow> prefix (hr_Mutations r) (hr_Mutations (run_rule_sets intn req rss r))"
proof (induction intn req rss r rule: run_rule_sets.induct)
  case (2 intn req rs rss r)
  then show ?case using run_rule_set_adds [of rs r "intn 0" req] by (auto intro: prefix_order.trans)
qed simp

subsection \<open>Mutations only take bidders away\<close>

definition has_bidders :: "imp_bidders list \<Rightarrow> bool" where
  "has_bidders imps = list_all (\<lambda>i. i \<noteq> None) imps"

definition bidder_names :: "imp_bidders \<Rightarrow> string set" where
  "bidder_names i = (case i of None \<Rightarrow> {} | Some bs \<Rightarrow> fst ` set bs)"

lemma fewer_trans:
  "list_all2 (\<lambda>i j. bidder_names j \<subseteq> bidder_names i - X) as bs \<Longrightarrow> list_all2 (\<lambda>i j. bidder_names j \<subseteq> bidder_names i) bs cs
    \<Longrightarrow> list_all2 (\<lambda>i j. bidder_names j \<subseteq> bidder_names i - X) as cs"
  by (erule list_all2_trans [rotated], assumption) blast

lemma delete_bidders_fewer:
  assumes "has_bidders imps"
  shows "list_all2 (\<lambda>i j. bidder_names j \<subseteq> bidder_names i - set del) imps (delete_bidders del imps)" "has_bidders (delete_bidders del imps)"
proof -
  have "bidder_names (map_option (filter (\<lambda>(b, _). b \<notin> set del)) i) \<subseteq> bidder_names i - set del" for i
    by (cases i) (force simp: bidder_names_def)+
  then show "list_all2 (\<lambda>i j. bidder_names j \<subseteq> bidder_names i - set del) imps (delete_bidders del imps)"
    using assms by (simp add: delete_bidders_all has_bidders_def list_all2_map2 list_all2_refl)
qed (use assms in \<open>simp add: delete_bidders_all has_bidders_def list_all_iff\<close>)

lemma add_bidders_fewer:
  "list_all2 (\<lambda>i j. bidder_names j \<subseteq> bidder_names i) imps (add_bidders allowed imps)" "has_bidders (add_bidders allowed imps)"
proof -
  have "bidder_names (Some (filter (\<lambda>(b, _). b \<in> set allowed) (case i of None \<Rightarrow> [] | Some bs \<Rightarrow> bs))) \<subseteq> bidder_names i" for i
    by (cases i) (force simp: bidder_names_def)+
  then show "list_all2 (\<lambda>i j. bidder_names j \<subseteq> bidder_names i) imps (add_bidders allowed imps)"
    by (simp add: add_bidders_def list_all2_map2 list_all2_refl)
qed (simp add: add_bidders_def has_bidders_def list_all_iff)

lemma apply_mutations_shrink:
  "has_bidders imps \<Longrightarrow> list_all2 (\<lambda>i j. bidder_names j \<subseteq> bidder_names i) imps (apply_mutations allowed ms imps)"
proof (induction allowed ms imps rule: apply_mutations.induct)
  case (1 allowed imps)
  show ?case by (simp add: list_all2_refl)
next
  case (2 allowed del ms imps)
  have "list_all2 (\<lambda>i j. bidder_names j \<subseteq> bidder_names i - {}) imps (delete_bidders del imps)"
    using delete_bidders_fewer(1) [OF "2.prems", of del] by (rule list_all2_mono) blast
  from fewer_trans [OF this "2.IH" [OF delete_bidders_fewer(2) [OF "2.prems"]]] show ?case by simp
next
  case (3 allowed ms imps)
  from fewer_trans [where X = "{}", OF _ "3.IH" [OF add_bidders_fewer(2)]] add_bidders_fewer(1) show ?case by simp
qed

lemma geo_entry:
  assumes e: "NewCacheEntry env cfg raw geoscopes now = Inr e" and gen: "pe_GenerateRulesFromBidderConfig cfg"
    and valid: "valid_geo (geo_settings (pe_CountryGroups cfg) geoscopes)"
  shows "\<exists>ms. hr_Mutations (handleProcessedAuctionHook intn (ce_ruleSets e) req) =
    DeleteBidders (excluded_bidders (geo_settings (pe_CountryGroups cfg) geoscopes) (country_of req)) # ms"
proof -
  let ?c = "geo_settings (pe_CountryGroups cfg) geoscopes"
  obtain t where t: "NewTree (Build_geoscopes ?c) = Inr t" "\<And>p r rfs m. geo_plan ?c p = Some (rfs, m) \<Longrightarrow> Run t p r = run_results rfs p r m"
    using geo.NewTree_runs [OF valid] by blast
  obtain rs where rs: "buildBidderConfigRuleSet geoscopes (pe_CountryGroups cfg) = Inr [rs]" "crs_modelGroups rs = [\<lparr>cg_weight = 100, cg_version = ''1.0'', cg_analyticsKey = ''bidderConfig'', cg_tree = t\<rparr>]"
    by (simp add: buildBidderConfigRuleSet_def t(1))
  have "ce_ruleSets e = add_rule_sets (ev_args env) (pe_RuleSets cfg) [rs]"
    using e gen rs(1) by (auto simp: NewCacheEntry_def Let_def split: if_splits)
  then obtain more where more: "ce_ruleSets e = rs # more" "list_all adding_set more"
    using add_rule_sets_eq [of "ev_args env" "pe_RuleSets cfg" "[rs]"] by auto
  have "run_rule_set (intn 0) req rs empty_result = empty_result\<lparr>hr_Mutations := [DeleteBidders (excluded_bidders ?c (country_of req))]\<rparr>"
    using t(2) [of req, unfolded geo_plan_def, OF refl]
    by (simp add: run_rule_set_def rs(2) selectModelGroup_def ExcludeBidders_def empty_result_def Let_def)
  then have "prefix [DeleteBidders (excluded_bidders ?c (country_of req))] (hr_Mutations (handleProcessedAuctionHook intn (ce_ruleSets e) req))"
    using run_rule_sets_add [OF more(2), of "empty_result\<lparr>hr_Mutations := [DeleteBidders (excluded_bidders ?c (country_of req))]\<rparr>" "\<lambda>i. intn (Suc i)" req]
    by (simp add: handleProcessedAuctionHook_def more(1))
  then show ?thesis by (cases "hr_Mutations (handleProcessedAuctionHook intn (ce_ruleSets e) req)") auto
qed

text \<open>
  C4. Geographic scopes are enforced: with a cache entry that generates rules from the scopes of bidders, whatever else its rule sets do,
  whatever the random choices and for every device country, named in some scope or not, after the mutations of the hook no
  impression has a bidder whose scope excludes that country, and no impression has a bidder it did not have; each impression has
  its own bidders in the request, no country group is named with a negation, and no scope names the wildcard.
\<close>
theorem geoscope_enforced:
  assumes "NewCacheEntry env cfg raw geoscopes now = Inr e" "pe_GenerateRulesFromBidderConfig cfg"
    and "valid_geo (geo_settings (pe_CountryGroups cfg) geoscopes)" "has_bidders imps"
  shows "list_all2 (\<lambda>i j. bidder_names j \<subseteq> bidder_names i - set (excluded_bidders (geo_settings (pe_CountryGroups cfg) geoscopes) (country_of req)))
    imps (mutated (handleProcessedAuctionHook intn (ce_ruleSets e) req) imps)"
proof -
  let ?x = "excluded_bidders (geo_settings (pe_CountryGroups cfg) geoscopes) (country_of req)" and ?r = "handleProcessedAuctionHook intn (ce_ruleSets e) req"
  obtain ms where ms: "hr_Mutations ?r = DeleteBidders ?x # ms" using geo_entry [OF assms(1-3)] by blast
  show ?thesis
    using fewer_trans [OF delete_bidders_fewer(1) [OF assms(4)] apply_mutations_shrink [OF delete_bidders_fewer(2) [OF assms(4)]]]
    by (simp add: mutated_def ms)
qed

theorem geoscope_enforced_witness:
  "let geoscopes = [(''eu'', [''EEA'']), (''us'', [''USA'']), (''notfr'', [''!FRA''])];
       e = projr (NewCacheEntry sample_env (sample_config\<lparr>pe_RuleSets := []\<rparr>) ''{}'' geoscopes 0);
       req = \<lparr>rq_Geo = Some (''FRA'', []), rq_Channel = Inr None, rq_EIDs = [], rq_UserData = 0, rq_UserExtData = Inr False, rq_Site = None, rq_App = None, rq_Regs = None, rq_rand = 0\<rparr>
   in list_all2 (\<lambda>i j. bidder_names j \<subseteq> bidder_names i - {''us'', ''notfr''})
        [Some [(''eu'', []), (''us'', []), (''notfr'', [])]] (mutated (handleProcessedAuctionHook (\<lambda>_ _. 0) (ce_ruleSets e) req) [Some [(''eu'', []), (''us'', []), (''notfr'', [])]])"
proof -
  let ?gs = "[(''eu'', [''EEA'']), (''us'', [''USA'']), (''notfr'', [''!FRA''])]" and ?cfg = "sample_config\<lparr>pe_RuleSets := []\<rparr>"
  let ?req = "\<lparr>rq_Geo = Some (''FRA'', []), rq_Channel = Inr None, rq_EIDs = [], rq_UserData = 0, rq_UserExtData = Inr False, rq_Site = None, rq_App = None, rq_Regs = None, rq_rand = 0\<rparr>"
  have s: "valid_geo (geo_settings [] ?gs)" by code_simp
  have x: "excluded_bidders (geo_settings [] ?gs) ''FRA'' = [''us'', ''notfr'']" by code_simp
  have "\<exists>e. NewCacheEntry sample_env ?cfg ''{}'' ?gs 0 = Inr e"
    using geo.NewTree_runs [OF s] by (auto simp: NewCacheEntry_def hashConfig_def sample_env_def buildBidderConfigRuleSet_def sample_config_def split: sum.split)
  then obtain e where e: "NewCacheEntry sample_env ?cfg ''{}'' ?gs 0 = Inr e" ..
  have "pe_GenerateRulesFromBidderConfig ?cfg" "pe_CountryGroups ?cfg = []" by (simp_all add: sample_config_def)
  with geoscope_enforced [OF e, of "[Some [(''eu'', []), (''us'', []), (''notfr'', [])]]" ?req "\<lambda>_ _. 0"] s x show ?thesis
    by (simp add: e country_of_def has_bidders_def)
qed

section \<open>The cache and the tree manager\<close>

text \<open>
  Readers see the map that is stored; writers store a changed copy. Times are in nanoseconds (\<^verbatim>\<open>Expired\<close> compares the seconds as floats; here they
  are compared exactly).
\<close>

record cache =
  ca_m :: "(string, cacheEntry) gomap"
  ca_refreshFrequency :: int

definition NewCache :: "int \<Rightarrow> cache" where
  "NewCache refreshRateSeconds = \<lparr>ca_m = [], ca_refreshFrequency = refreshRateSeconds * 1000000000\<rparr>"

definition Expired :: "int \<Rightarrow> cache \<Rightarrow> int \<Rightarrow> bool" where
  "Expired now c timestamp = (if ca_refreshFrequency c \<le> 0 then False else now - timestamp > ca_refreshFrequency c)"

definition cache_Get :: "cache \<Rightarrow> string \<Rightarrow> cacheEntry option" where
  "cache_Get c i = map_of (ca_m c) i"

definition cache_Set :: "string \<Rightarrow> cacheEntry \<Rightarrow> cache \<Rightarrow> cache" where
  "cache_Set i e c = (if i = [] then c else c\<lparr>ca_m := (i, e) # filter (\<lambda>(k, _). k \<noteq> i) (ca_m c)\<rparr>)"

definition cache_Delete :: "string \<Rightarrow> cache \<Rightarrow> cache" where
  "cache_Delete i c =
     (if i = [] then c else if \<not> map_has (ca_m c) i then c else c\<lparr>ca_m := filter (\<lambda>(k, _). k \<noteq> i) (ca_m c)\<rparr>)"

definition configChanged :: "config_env \<Rightarrow> string \<Rightarrow> string \<Rightarrow> bool" where
  "configChanged env oldHash raw = (ev_sha256 env raw \<noteq> oldHash)"

definition rebuildTrees :: "config_env \<Rightarrow> int \<Rightarrow> cacheEntry \<Rightarrow> string \<Rightarrow> cache \<Rightarrow> bool" where
  "rebuildTrees env now co raw c = (if \<not> Expired now c (ce_timestamp co) then False else configChanged env (ce_hashedConfig co) raw)"

type_synonym instruction = "string \<times> string"

text \<open>One round of the loop of the tree manager.\<close>

definition tm_handle :: "config_env \<Rightarrow> (string, string list) gomap \<Rightarrow> int \<Rightarrow> instruction \<Rightarrow> cache \<Rightarrow> cache" where
  "tm_handle env geoscopes now bi c =
     (let (account, raw) = bi in
      if (case cache_Get c account of Some co \<Rightarrow> \<not> rebuildTrees env now co raw c | None \<Rightarrow> False) then c
      else
        (case NewConfig env raw of
           Inl _ \<Rightarrow> c
         | Inr cfg \<Rightarrow>
             if \<not> pe_Enabled cfg then cache_Delete account c
             else (case NewCacheEntry env cfg raw geoscopes now of Inl _ \<Rightarrow> c | Inr e \<Rightarrow> cache_Set account e c)))"

record ModuleResult =
  mr_Message :: string
  mr_Result :: ProcessedAuctionHookResult

definition message :: "string \<Rightarrow> ModuleResult" where
  "message m = \<lparr>mr_Message = m, mr_Result = empty_result\<rparr>"

text \<open>The answer for a request, and the instruction for the tree manager.\<close>

definition HandleProcessedAuctionHook :: "config_env \<Rightarrow> int \<Rightarrow> (nat \<Rightarrow> int \<Rightarrow> int) \<Rightarrow> string \<Rightarrow> string \<Rightarrow> RuleRequest \<Rightarrow> cache \<Rightarrow> ModuleResult \<times> instruction option" where
  "HandleProcessedAuctionHook env now intn account raw req c =
     (if raw = [] then (message [], None)
      else
        (case cache_Get c account of
           None \<Rightarrow> (message ''skipped, loading rules engine account configuration for future requests'', Some (account, raw))
         | Some co \<Rightarrow>
             ((if \<not> ce_enabled co then message ''skipped, rules engine is disabled for this account''
               else \<lparr>mr_Message = [], mr_Result = handleProcessedAuctionHook intn (ce_ruleSets co) req\<rparr>),
              if rebuildTrees env now co raw c then Some (account, raw) else None)))"

definition hook_step :: "config_env \<Rightarrow> (string, string list) gomap \<Rightarrow> int \<Rightarrow> (nat \<Rightarrow> int \<Rightarrow> int) \<Rightarrow> string \<Rightarrow> string \<Rightarrow> RuleRequest \<Rightarrow> cache \<Rightarrow> ModuleResult \<times> cache" where
  "hook_step env geoscopes now intn account raw req c =
     (let (r, bi) = HandleProcessedAuctionHook env now intn account raw req c
      in (r, case bi of None \<Rightarrow> c | Some bi \<Rightarrow> tm_handle env geoscopes now bi c))"

text \<open>The caches that calls of the hook lead to; other senders of instructions are covered as well.\<close>

inductive reach :: "config_env \<Rightarrow> (string, string list) gomap \<Rightarrow> int \<Rightarrow> cache \<Rightarrow> bool" for env geoscopes refresh where
  start: "reach env geoscopes refresh (NewCache refresh)"
| step: "reach env geoscopes refresh c \<Longrightarrow> reach env geoscopes refresh (tm_handle env geoscopes now bi c)"

definition compiled :: "config_env \<Rightarrow> (string, string list) gomap \<Rightarrow> cacheEntry \<Rightarrow> bool" where
  "compiled env geoscopes e \<longleftrightarrow>
     (\<exists>raw cfg now. NewConfig env raw = Inr cfg \<and> pe_Enabled cfg \<and> NewCacheEntry env cfg raw geoscopes now = Inr e)"

lemma map_of_filter_key: "map_of (filter (\<lambda>(k, _). k \<noteq> i) m) = (map_of m)(i := None)"
  by (induction m) auto

lemma cache_Get_Set: "cache_Get (cache_Set i e c) j = (if i = j \<and> i \<noteq> [] then Some e else cache_Get c j)"
  by (simp add: cache_Get_def cache_Set_def map_of_filter_key)

lemma cache_Get_Delete: "cache_Get (cache_Delete i c) j = (if i = j \<and> i \<noteq> [] then None else cache_Get c j)"
  by (auto simp: cache_Get_def cache_Delete_def map_of_filter_key)

lemma tm_handle_Get:
  "cache_Get (tm_handle env geoscopes now bi c) j = cache_Get c j \<or> cache_Get (tm_handle env geoscopes now bi c) j = None
    \<or> j = fst bi \<and> j \<noteq> [] \<and> (\<exists>cfg e. NewConfig env (snd bi) = Inr cfg \<and> pe_Enabled cfg
        \<and> NewCacheEntry env cfg (snd bi) geoscopes now = Inr e \<and> cache_Get (tm_handle env geoscopes now bi c) j = Some e)"
  by (cases bi) (auto simp: tm_handle_def Let_def cache_Get_Set cache_Get_Delete split: if_splits option.splits sum.splits)

lemma refresh_frame [simp]: "ca_refreshFrequency (tm_handle env geoscopes now bi c) = ca_refreshFrequency c"
  by (cases bi) (simp add: tm_handle_def Let_def cache_Set_def cache_Delete_def split: option.split sum.split)

lemma reach_compiled: "reach env geoscopes refresh c \<Longrightarrow> cache_Get c account = Some e \<Longrightarrow> account \<noteq> [] \<and> compiled env geoscopes e"
proof (induction arbitrary: e rule: reach.induct)
  case start
  then show ?case by (simp add: NewCache_def cache_Get_def)
next
  case (step c now bi)
  then show ?case using tm_handle_Get [of env geoscopes now bi c account] by (fastforce simp: compiled_def)
qed

lemma NewCacheEntry_enabled: "NewCacheEntry env cfg raw geoscopes now = Inr e \<Longrightarrow> ce_enabled e = pe_Enabled cfg \<and> ce_timestamp e = now \<and> ce_hashedConfig e = ev_sha256 env raw"
  by (auto simp: NewCacheEntry_def hashConfig_def Let_def split: if_splits sum.splits)

text \<open>
  The cache of the module is coherent: in every state the tree manager can reach, an entry found for an account was compiled, with the scopes of
  bidders the module was given, from a configuration that validation accepts and that enables the module. So the hook never
  answers that the module is disabled; it runs the rule sets of such a configuration or skips the request.
\<close>
theorem module_cache_coherent:
  assumes "reach env geoscopes refresh c" "cache_Get c account = Some e" "raw \<noteq> []"
  shows "compiled env geoscopes e \<and> account \<noteq> []
    \<and> fst (HandleProcessedAuctionHook env now intn account raw req c) = \<lparr>mr_Message = [], mr_Result = handleProcessedAuctionHook intn (ce_ruleSets e) req\<rparr>"
  using reach_compiled [OF assms(1,2)] NewCacheEntry_enabled assms(2,3)
  by (auto simp: HandleProcessedAuctionHook_def compiled_def)

theorem module_cache_coherent_witness:
  "\<exists>e. compiled sample_env [(''b'', [''USA''])] e \<and> ce_timestamp e = 7 \<and> cache_Get (tm_handle sample_env [(''b'', [''USA''])] 7 (''acc'', ''{}'') (NewCache 0)) ''acc'' = Some e"
proof -
  let ?geo = "[(''b'', [''USA''])]" and ?c = "tm_handle sample_env [(''b'', [''USA''])] 7 (''acc'', ''{}'') (NewCache 0)"
  have cfg: "\<exists>cfg. NewConfig sample_env ''{}'' = Inr cfg \<and> pe_Enabled cfg \<and> pe_CountryGroups cfg = []"
    by (simp add: NewConfig_def validateConfig_def validateRuleSet_def sample_env_def sample_config_def Let_def)
  then obtain cfg where cfg: "NewConfig sample_env ''{}'' = Inr cfg" "pe_Enabled cfg" "pe_CountryGroups cfg = []" by blast
  have "valid_geo (geo_settings [] ?geo)" by code_simp
  then have "\<exists>e. NewCacheEntry sample_env cfg ''{}'' ?geo 7 = Inr e"
    using geo.NewTree_runs [of "geo_settings [] ?geo"] by (auto simp: NewCacheEntry_def hashConfig_def sample_env_def buildBidderConfigRuleSet_def cfg(3))
  then obtain e where e: "NewCacheEntry sample_env cfg ''{}'' ?geo 7 = Inr e" ..
  have g: "cache_Get ?c ''acc'' = Some e"
    by (simp add: tm_handle_def cfg e cache_Get_Set) (simp add: NewCache_def cache_Get_def)
  have "compiled sample_env ?geo e"
    using module_cache_coherent [OF reach.step [OF reach.start] g, of "''{}''"] by simp
  then show ?thesis using g NewCacheEntry_enabled [OF e] by blast
qed

text \<open>
  A change of an account's configuration takes effect: after a hook call with a configuration that validation accepts and that enables the module,
  when the account has no entry, or its entry has expired and has another hash, the next call with that configuration runs the
  rule sets compiled from it, and needs no further rebuild.
\<close>
lemma config_takes_effect:
  assumes "NewConfig env raw = Inr cfg" "pe_Enabled cfg" "NewCacheEntry env cfg raw geoscopes now = Inr e" "raw \<noteq> []" "account \<noteq> []"
    and "case cache_Get c account of None \<Rightarrow> True | Some co \<Rightarrow> Expired now c (ce_timestamp co) \<and> ce_hashedConfig co \<noteq> ev_sha256 env raw"
  shows "let c' = snd (hook_step env geoscopes now intn account raw req c)
    in HandleProcessedAuctionHook env now' intn' account raw req' c' = (\<lparr>mr_Message = [], mr_Result = handleProcessedAuctionHook intn' (ce_ruleSets e) req'\<rparr>, None)"
proof -
  have "snd (hook_step env geoscopes now intn account raw req c) = tm_handle env geoscopes now (account, raw) c"
    using assms(4,6) by (auto simp: hook_step_def HandleProcessedAuctionHook_def rebuildTrees_def configChanged_def split: option.splits)
  moreover have "tm_handle env geoscopes now (account, raw) c = cache_Set account e c"
    using assms(1-3,6) by (auto simp: tm_handle_def rebuildTrees_def configChanged_def split: option.splits)
  ultimately show ?thesis
    using assms(2,4,5) NewCacheEntry_enabled [OF assms(3)]
    by (simp add: HandleProcessedAuctionHook_def cache_Get_Set rebuildTrees_def configChanged_def Let_def)
qed

end
