(* ===== verification/RequestValidator.thy ===== *)
theory RequestValidator
  imports Targeting
begin

text \<open>
  \<^verbatim>\<open>ortb/request_validator*.go\<close>: the checks of an impression at the endpoints, of banners, videos, audio, native requests, private
  deals and of the bidders in its extension, with the changes they make: asset ids are assigned, bidders are promoted to their
  place under \<^verbatim>\<open>prebid\<close>, disabled and unknown bidders are dropped. The codes of the native specification, the JSON codec and the schemas of bidder
  parameters are arguments. An error names the field of its message and the indices in it.
\<close>

datatype val_error = VError string "nat list" | VText string | DisabledBidder string | UnknownBidderWarning nat string

section \<open>Banner, video, audio, deals\<close>

record BannerFormat =
  fm_W :: int
  fm_H :: int
  fm_WMin :: int
  fm_WRatio :: int
  fm_HRatio :: int

record BannerObject =
  bo_W :: "int option"
  bo_H :: "int option"
  bo_WMin :: int
  bo_WMax :: int
  bo_HMin :: int
  bo_HMax :: int
  bo_Format :: "BannerFormat list"

definition validateFormat :: "BannerFormat \<Rightarrow> nat \<Rightarrow> nat \<Rightarrow> val_error option" where
  "validateFormat f i j =
     (let usesHW = fm_W f \<noteq> 0 \<or> fm_H f \<noteq> 0;
          usesRatios = fm_WMin f \<noteq> 0 \<or> fm_WRatio f \<noteq> 0 \<or> fm_HRatio f \<noteq> 0
      in if fm_W f < 0 then Some (VError ''banner.format.w'' [i, j])
         else if fm_H f < 0 then Some (VError ''banner.format.h'' [i, j])
         else if fm_WRatio f < 0 then Some (VError ''banner.format.wratio'' [i, j])
         else if fm_HRatio f < 0 then Some (VError ''banner.format.hratio'' [i, j])
         else if fm_WMin f < 0 then Some (VError ''banner.format.wmin'' [i, j])
         else if usesHW \<and> usesRatios then Some (VError ''banner.format both'' [i, j])
         else if \<not> usesHW \<and> \<not> usesRatios then Some (VError ''banner.format none'' [i, j])
         else if usesHW \<and> (fm_W f = 0 \<or> fm_H f = 0) then Some (VError ''banner.format size'' [i, j])
         else if usesRatios \<and> (fm_WMin f = 0 \<or> fm_WRatio f = 0 \<or> fm_HRatio f = 0) then Some (VError ''banner.format ratio'' [i, j])
         else None)"

fun validate_formats :: "nat \<Rightarrow> nat \<Rightarrow> BannerFormat list \<Rightarrow> val_error option" where
  "validate_formats i j [] = None"
| "validate_formats i j (f # fs) = (case validateFormat f i j of Some e \<Rightarrow> Some e | None \<Rightarrow> validate_formats i (Suc j) fs)"

definition validateBanner :: "BannerObject option \<Rightarrow> nat \<Rightarrow> bool \<Rightarrow> val_error option" where
  "validateBanner banner i isInterstitial =
     (case banner of
        None \<Rightarrow> None
      | Some b \<Rightarrow>
          if (case bo_W b of Some w \<Rightarrow> w < 0 | None \<Rightarrow> False) then Some (VError ''banner.w'' [i])
          else if (case bo_H b of Some h \<Rightarrow> h < 0 | None \<Rightarrow> False) then Some (VError ''banner.h'' [i])
          else if bo_WMin b \<noteq> 0 then Some (VError ''banner.wmin'' [i])
          else if bo_WMax b \<noteq> 0 then Some (VError ''banner.wmax'' [i])
          else if bo_HMin b \<noteq> 0 then Some (VError ''banner.hmin'' [i])
          else if bo_HMax b \<noteq> 0 then Some (VError ''banner.hmax'' [i])
          else
            (let hasRootSize = (case (bo_H b, bo_W b) of (Some h, Some w) \<Rightarrow> h > 0 \<and> w > 0 | _ \<Rightarrow> False)
             in if \<not> hasRootSize \<and> bo_Format b = [] \<and> \<not> isInterstitial then Some (VError ''banner has no sizes'' [i])
                else validate_formats i 0 (bo_Format b)))"

record VideoObject =
  vo_MIMEs :: "string list"
  vo_W :: "int option"
  vo_H :: "int option"
  vo_MinBitRate :: int
  vo_MaxBitRate :: int

definition validateVideo :: "VideoObject option \<Rightarrow> nat \<Rightarrow> val_error option" where
  "validateVideo video i =
     (case video of
        None \<Rightarrow> None
      | Some v \<Rightarrow>
          if length (vo_MIMEs v) < 1 then Some (VError ''video.mimes'' [i])
          else if (case vo_W v of Some w \<Rightarrow> w < 0 | None \<Rightarrow> False) then Some (VError ''video.w'' [i])
          else if (case vo_H v of Some h \<Rightarrow> h < 0 | None \<Rightarrow> False) then Some (VError ''video.h'' [i])
          else if vo_MinBitRate v < 0 then Some (VError ''video.minbitrate'' [i])
          else if vo_MaxBitRate v < 0 then Some (VError ''video.maxbitrate'' [i])
          else None)"

record AudioObject =
  ao_MIMEs :: "string list"
  ao_Sequence :: int
  ao_MaxSeq :: int
  ao_MinBitrate :: int
  ao_MaxBitrate :: int

definition validateAudio :: "AudioObject option \<Rightarrow> nat \<Rightarrow> val_error option" where
  "validateAudio audio i =
     (case audio of
        None \<Rightarrow> None
      | Some a \<Rightarrow>
          if length (ao_MIMEs a) < 1 then Some (VError ''audio.mimes'' [i])
          else if ao_Sequence a < 0 then Some (VError ''audio.sequence'' [i])
          else if ao_MaxSeq a < 0 then Some (VError ''audio.maxseq'' [i])
          else if ao_MinBitrate a < 0 then Some (VError ''audio.minbitrate'' [i])
          else if ao_MaxBitrate a < 0 then Some (VError ''audio.maxbitrate'' [i])
          else None)"

text \<open>Of the deals of a private marketplace the ids are read.\<close>

fun validate_deals :: "nat \<Rightarrow> nat \<Rightarrow> string list \<Rightarrow> val_error option" where
  "validate_deals i d [] = None"
| "validate_deals i d (deal # deals) = (if deal = [] then Some (VError ''pmp.deals.id'' [i, d]) else validate_deals i (Suc d) deals)"

definition validatePmp :: "string list option \<Rightarrow> nat \<Rightarrow> val_error option" where
  "validatePmp pmp i = (case pmp of None \<Rightarrow> None | Some deals \<Rightarrow> validate_deals i 0 deals)"

subsection \<open>What is accepted\<close>

definition good_format :: "BannerFormat \<Rightarrow> bool" where
  "good_format f \<longleftrightarrow> fm_W f > 0 \<and> fm_H f > 0 \<and> fm_WMin f = 0 \<and> fm_WRatio f = 0 \<and> fm_HRatio f = 0
     \<or> fm_W f = 0 \<and> fm_H f = 0 \<and> fm_WMin f > 0 \<and> fm_WRatio f > 0 \<and> fm_HRatio f > 0"

lemma validateFormat_None: "validateFormat f i j = None \<longleftrightarrow> good_format f"
  by (auto simp: validateFormat_def good_format_def Let_def)

lemma validate_formats_None: "validate_formats i j fs = None \<longleftrightarrow> list_all good_format fs"
proof (induction i j fs rule: validate_formats.induct)
  case (2 i j f fs)
  then show ?case using validateFormat_None [of f i j] by (cases "validateFormat f i j") auto
qed simp

definition non_negative :: "int option \<Rightarrow> bool" where
  "non_negative x = (case x of None \<Rightarrow> True | Some n \<Rightarrow> 0 \<le> n)"

definition good_banner :: "bool \<Rightarrow> BannerObject \<Rightarrow> bool" where
  "good_banner instl b \<longleftrightarrow> non_negative (bo_W b) \<and> non_negative (bo_H b) \<and> bo_WMin b = 0 \<and> bo_WMax b = 0 \<and> bo_HMin b = 0 \<and> bo_HMax b = 0
     \<and> list_all good_format (bo_Format b) \<and> ((\<exists>w h. bo_W b = Some w \<and> bo_H b = Some h \<and> w > 0 \<and> h > 0) \<or> bo_Format b \<noteq> [] \<or> instl)"

lemma validateBanner_None: "validateBanner banner i instl = None \<longleftrightarrow> (case banner of None \<Rightarrow> True | Some b \<Rightarrow> good_banner instl b)"
proof (cases banner)
  case (Some b)
  show ?thesis
    by (cases "bo_W b"; cases "bo_H b") (auto simp: Some validateBanner_def good_banner_def non_negative_def validate_formats_None Let_def)
qed (simp add: validateBanner_def)

definition good_video :: "VideoObject \<Rightarrow> bool" where
  "good_video v \<longleftrightarrow> vo_MIMEs v \<noteq> [] \<and> non_negative (vo_W v) \<and> non_negative (vo_H v) \<and> 0 \<le> vo_MinBitRate v \<and> 0 \<le> vo_MaxBitRate v"

lemma validateVideo_None: "validateVideo video i = None \<longleftrightarrow> (case video of None \<Rightarrow> True | Some v \<Rightarrow> good_video v)"
  by (auto simp: validateVideo_def good_video_def non_negative_def not_less Suc_le_eq split: option.splits)

definition good_audio :: "AudioObject \<Rightarrow> bool" where
  "good_audio a \<longleftrightarrow> ao_MIMEs a \<noteq> [] \<and> 0 \<le> ao_Sequence a \<and> 0 \<le> ao_MaxSeq a \<and> 0 \<le> ao_MinBitrate a \<and> 0 \<le> ao_MaxBitrate a"

lemma validateAudio_None: "validateAudio audio i = None \<longleftrightarrow> (case audio of None \<Rightarrow> True | Some a \<Rightarrow> good_audio a)"
  by (auto simp: validateAudio_def good_audio_def not_less Suc_le_eq split: option.splits)

lemma validatePmp_None: "validatePmp pmp i = None \<longleftrightarrow> (case pmp of None \<Rightarrow> True | Some deals \<Rightarrow> [] \<notin> set deals)"
proof -
  have "validate_deals i d deals = None \<longleftrightarrow> [] \<notin> set deals" for d deals
    by (induction i d deals rule: validate_deals.induct) auto
  then show ?thesis by (simp add: validatePmp_def split: option.split)
qed

section \<open>Native requests\<close>

text \<open>
  The codes of the native specification that the source takes from the OpenRTB library: the first and last value of each
  enumeration. Codes from 500 on are left to exchanges.
\<close>

record native_enums =
  ne_context :: "int \<times> int"  \<comment> \<open>content and product\<close>
  ne_social :: int
  ne_content_sub :: "int \<times> int"
  ne_social_sub :: "int \<times> int"
  ne_product_sub :: "int \<times> int"
  ne_placement :: "int \<times> int"
  ne_event :: "int \<times> int"
  ne_method :: "int \<times> int"
  ne_data :: "int \<times> int"
  ne_protocol :: "int \<times> int"

definition between :: "int \<times> int \<Rightarrow> int \<Rightarrow> bool" where
  "between r x \<longleftrightarrow> fst r \<le> x \<and> x \<le> snd r"

record NativeImage =
  ni_W :: int
  ni_H :: int
  ni_WMin :: int
  ni_HMin :: int

record NativeVideo =
  nv_MIMEs :: "string list"
  nv_MinDuration :: int
  nv_MaxDuration :: int
  nv_Protocols :: "int list"

record NativeAsset =
  na_ID :: int
  na_Title :: "int option"  \<comment> \<open>its length\<close>
  na_Img :: "NativeImage option"
  na_Video :: "NativeVideo option"
  na_Data :: "int option"  \<comment> \<open>its type\<close>

record NativePayload =
  np_Context :: int
  np_ContextSubType :: int
  np_PlcmtType :: int
  np_Assets :: "NativeAsset list"
  np_EventTrackers :: "(int \<times> int list) list"

definition validateNativeContextTypes :: "native_enums \<Rightarrow> int \<Rightarrow> int \<Rightarrow> nat \<Rightarrow> val_error option" where
  "validateNativeContextTypes ne cType cSubtype i =
     (let bad = Some (VError ''native.request.context/contextsubtype combination'' [i])
      in if cType = 0 then None
         else if cType < fst (ne_context ne) \<or> cType > snd (ne_context ne) \<and> cType < 500 then Some (VError ''native.request.context'' [i])
         else if cSubtype < 0 then Some (VError ''native.request.contextsubtype negative'' [i])
         else if cSubtype = 0 then None
         else if between (ne_content_sub ne) cSubtype then (if cType \<noteq> fst (ne_context ne) \<and> cType < 500 then bad else None)
         else if between (ne_social_sub ne) cSubtype then (if cType \<noteq> ne_social ne \<and> cType < 500 then bad else None)
         else if between (ne_product_sub ne) cSubtype then (if cType \<noteq> snd (ne_context ne) \<and> cType < 500 then bad else None)
         else if cSubtype \<ge> 500 then None
         else Some (VError ''native.request.contextsubtype'' [i]))"

definition validateNativePlacementType :: "native_enums \<Rightarrow> int \<Rightarrow> nat \<Rightarrow> val_error option" where
  "validateNativePlacementType ne pt i =
     (if pt = 0 then None
      else if pt < fst (ne_placement ne) \<or> pt > snd (ne_placement ne) \<and> pt < 500 then Some (VError ''native.request.plcmttype'' [i])
      else None)"

definition validateNativeAssetTitle :: "int \<Rightarrow> nat \<Rightarrow> nat \<Rightarrow> val_error option" where
  "validateNativeAssetTitle len i j = (if len < 1 then Some (VError ''native.request.assets.title.len'' [i, j]) else None)"

definition validateNativeAssetImage :: "NativeImage \<Rightarrow> nat \<Rightarrow> nat \<Rightarrow> val_error option" where
  "validateNativeAssetImage img i j =
     (if ni_W img < 0 then Some (VError ''native.request.assets.img.w'' [i, j])
      else if ni_H img < 0 then Some (VError ''native.request.assets.img.h'' [i, j])
      else if ni_WMin img < 0 then Some (VError ''native.request.assets.img.wmin'' [i, j])
      else if ni_HMin img < 0 then Some (VError ''native.request.assets.img.hmin'' [i, j])
      else None)"

definition validateNativeVideoProtocol :: "native_enums \<Rightarrow> int \<Rightarrow> nat \<Rightarrow> nat \<Rightarrow> nat \<Rightarrow> val_error option" where
  "validateNativeVideoProtocol ne protocol i j k =
     (if protocol < fst (ne_protocol ne) \<or> protocol > snd (ne_protocol ne) then Some (VError ''native.request.assets.video.protocols'' [i, j, k]) else None)"

fun validate_protocols :: "native_enums \<Rightarrow> nat \<Rightarrow> nat \<Rightarrow> nat \<Rightarrow> int list \<Rightarrow> val_error option" where
  "validate_protocols ne i j k [] = None"
| "validate_protocols ne i j k (p # ps) =
    (case validateNativeVideoProtocol ne p i j k of Some e \<Rightarrow> Some e | None \<Rightarrow> validate_protocols ne i j (Suc k) ps)"

definition validateNativeVideoProtocols :: "native_enums \<Rightarrow> int list \<Rightarrow> nat \<Rightarrow> nat \<Rightarrow> val_error option" where
  "validateNativeVideoProtocols ne protocols i j =
     (if length protocols < 1 then Some (VError ''native.request.assets.video.protocols empty'' [i, j]) else validate_protocols ne i j 0 protocols)"

definition validateNativeAssetVideo :: "native_enums \<Rightarrow> NativeVideo \<Rightarrow> nat \<Rightarrow> nat \<Rightarrow> val_error option" where
  "validateNativeAssetVideo ne v i j =
     (if length (nv_MIMEs v) < 1 then Some (VError ''native.request.assets.video.mimes'' [i, j])
      else if nv_MinDuration v < 1 then Some (VError ''native.request.assets.video.minduration'' [i, j])
      else if nv_MaxDuration v < 1 then Some (VError ''native.request.assets.video.maxduration'' [i, j])
      else validateNativeVideoProtocols ne (nv_Protocols v) i j)"

definition validateNativeAssetData :: "native_enums \<Rightarrow> int \<Rightarrow> nat \<Rightarrow> nat \<Rightarrow> val_error option" where
  "validateNativeAssetData ne t i j =
     (if t < fst (ne_data ne) \<or> t > snd (ne_data ne) \<and> t < 500 then Some (VError ''native.request.assets.data.type'' [i, j]) else None)"

text \<open>One kind of asset content: \<open>found\<close> is whether an earlier kind was present. It yields an error or the new \<open>found\<close>.\<close>

definition asset_part :: "'a option \<Rightarrow> ('a \<Rightarrow> val_error option) \<Rightarrow> val_error \<Rightarrow> bool \<Rightarrow> val_error + bool" where
  "asset_part x check err found =
     (case x of
        None \<Rightarrow> Inr found
      | Some a \<Rightarrow> if found then Inl err else (case check a of Some e \<Rightarrow> Inl e | None \<Rightarrow> Inr True))"

definition validateNativeAsset :: "native_enums \<Rightarrow> NativeAsset \<Rightarrow> nat \<Rightarrow> nat \<Rightarrow> val_error option" where
  "validateNativeAsset ne a i j =
     (let err = VError ''native.request.assets exactly one'' [i, j] in
      case asset_part (na_Title a) (\<lambda>t. validateNativeAssetTitle t i j) err False of
        Inl e \<Rightarrow> Some e
      | Inr f1 \<Rightarrow>
      case asset_part (na_Img a) (\<lambda>m. validateNativeAssetImage m i j) err f1 of
        Inl e \<Rightarrow> Some e
      | Inr f2 \<Rightarrow>
      case asset_part (na_Video a) (\<lambda>v. validateNativeAssetVideo ne v i j) err f2 of
        Inl e \<Rightarrow> Some e
      | Inr f3 \<Rightarrow>
      case asset_part (na_Data a) (\<lambda>d. validateNativeAssetData ne d i j) err f3 of
        Inl e \<Rightarrow> Some e
      | Inr f4 \<Rightarrow> if f4 then None else Some err)"

fun fill_assets :: "native_enums \<Rightarrow> bool \<Rightarrow> nat \<Rightarrow> nat \<Rightarrow> int list \<Rightarrow> NativeAsset list \<Rightarrow> val_error + NativeAsset list" where
  "fill_assets ne assign i j ids [] = Inr []"
| "fill_assets ne assign i j ids (a # as) =
    (case validateNativeAsset ne a i j of
       Some e \<Rightarrow> Inl e
     | None \<Rightarrow>
         if assign then map_sum id (Cons (a\<lparr>na_ID := int j\<rparr>)) (fill_assets ne assign i (Suc j) ids as)
         else if na_ID a \<in> set ids then Inl (VError ''native.request.assets.id'' [i, j])
         else map_sum id (Cons a) (fill_assets ne assign i (Suc j) (na_ID a # ids) as))"

definition fillAndValidateNativeAssets :: "native_enums \<Rightarrow> NativeAsset list \<Rightarrow> nat \<Rightarrow> val_error + NativeAsset list" where
  "fillAndValidateNativeAssets ne assets i =
     (if length assets < 1 then Inl (VError ''native.request.assets'' [i])
      else fill_assets ne (list_all (\<lambda>a. na_ID a = 0) assets) i 0 [] assets)"

fun validate_methods :: "native_enums \<Rightarrow> nat \<Rightarrow> nat \<Rightarrow> nat \<Rightarrow> int list \<Rightarrow> val_error option" where
  "validate_methods ne i j k [] = None"
| "validate_methods ne i j k (m # ms) =
    (if m < fst (ne_method ne) \<or> m > snd (ne_method ne) \<and> m < 500 then Some (VError ''native.request.eventtrackers.methods'' [i, j, k])
     else validate_methods ne i j (Suc k) ms)"

definition validateNativeEventTracker :: "native_enums \<Rightarrow> int \<times> int list \<Rightarrow> nat \<Rightarrow> nat \<Rightarrow> val_error option" where
  "validateNativeEventTracker ne t i j =
     (if fst t < fst (ne_event ne) \<or> fst t > snd (ne_event ne) \<and> fst t < 500 then Some (VError ''native.request.eventtrackers.event'' [i, j])
      else if length (snd t) < 1 then Some (VError ''native.request.eventtrackers.method'' [i, j])
      else validate_methods ne i j 0 (snd t))"

fun validateNativeEventTrackers :: "native_enums \<Rightarrow> nat \<Rightarrow> nat \<Rightarrow> (int \<times> int list) list \<Rightarrow> val_error option" where
  "validateNativeEventTrackers ne i j [] = None"
| "validateNativeEventTrackers ne i j (t # ts) =
    (case validateNativeEventTracker ne t i j of Some e \<Rightarrow> Some e | None \<Rightarrow> validateNativeEventTrackers ne i (Suc j) ts)"

record native_codec =
  nc_Unmarshal :: "string \<Rightarrow> string + NativePayload"
  nc_Marshal :: "NativePayload \<Rightarrow> string + string"

definition check_native_payload :: "native_enums \<Rightarrow> NativePayload \<Rightarrow> nat \<Rightarrow> val_error + NativePayload" where
  "check_native_payload ne np i =
     (case validateNativeContextTypes ne (np_Context np) (np_ContextSubType np) i of
        Some e \<Rightarrow> Inl e
      | None \<Rightarrow>
      case validateNativePlacementType ne (np_PlcmtType np) i of
        Some e \<Rightarrow> Inl e
      | None \<Rightarrow>
      case fillAndValidateNativeAssets ne (np_Assets np) i of
        Inl e \<Rightarrow> Inl e
      | Inr as \<Rightarrow>
      case validateNativeEventTrackers ne i 0 (np_EventTrackers np) of
        Some e \<Rightarrow> Inl e
      | None \<Rightarrow> Inr (np\<lparr>np_Assets := as\<rparr>))"

definition fillAndValidateNative :: "native_enums \<Rightarrow> native_codec \<Rightarrow> string option \<Rightarrow> nat \<Rightarrow> val_error + string option" where
  "fillAndValidateNative ne nc n i =
     (case n of
        None \<Rightarrow> Inr None
      | Some request \<Rightarrow>
          if request = [] then Inl (VError ''native.request'' [i])
          else
            (case nc_Unmarshal nc request of
               Inl e \<Rightarrow> Inl (VText e)
             | Inr np \<Rightarrow>
                 (case check_native_payload ne np i of
                    Inl e \<Rightarrow> Inl e
                  | Inr np' \<Rightarrow> (case nc_Marshal nc np' of Inl e \<Rightarrow> Inl (VText e) | Inr s \<Rightarrow> Inr (Some s)))))"

subsection \<open>What is accepted\<close>

definition in_range_or_exchange :: "int \<times> int \<Rightarrow> int \<Rightarrow> bool" where
  "in_range_or_exchange r x \<longleftrightarrow> fst r \<le> x \<and> (x \<le> snd r \<or> x \<ge> 500)"

definition good_asset_video :: "native_enums \<Rightarrow> NativeVideo \<Rightarrow> bool" where
  "good_asset_video ne v \<longleftrightarrow> nv_MIMEs v \<noteq> [] \<and> nv_MinDuration v > 0 \<and> nv_MaxDuration v > 0 \<and> nv_Protocols v \<noteq> [] \<and> list_all (between (ne_protocol ne)) (nv_Protocols v)"

definition good_image :: "NativeImage \<Rightarrow> bool" where
  "good_image m \<longleftrightarrow> 0 \<le> ni_W m \<and> 0 \<le> ni_H m \<and> 0 \<le> ni_WMin m \<and> 0 \<le> ni_HMin m"

text \<open>Exactly one of the four contents, and that one well-formed.\<close>

definition good_asset :: "native_enums \<Rightarrow> NativeAsset \<Rightarrow> bool" where
  "good_asset ne a \<longleftrightarrow>
     (\<exists>n. n > 0 \<and> na_Title a = Some n \<and> na_Img a = None \<and> na_Video a = None \<and> na_Data a = None)
   \<or> (\<exists>m. good_image m \<and> na_Title a = None \<and> na_Img a = Some m \<and> na_Video a = None \<and> na_Data a = None)
   \<or> (\<exists>v. good_asset_video ne v \<and> na_Title a = None \<and> na_Img a = None \<and> na_Video a = Some v \<and> na_Data a = None)
   \<or> (\<exists>t. in_range_or_exchange (ne_data ne) t \<and> na_Title a = None \<and> na_Img a = None \<and> na_Video a = None \<and> na_Data a = Some t)"

lemma validate_protocols_None: "validate_protocols ne i j k ps = None \<longleftrightarrow> list_all (between (ne_protocol ne)) ps"
  by (induction ne i j k ps rule: validate_protocols.induct) (auto simp: validateNativeVideoProtocol_def between_def)

lemma validateNativeAssetVideo_None: "validateNativeAssetVideo ne v i j = None \<longleftrightarrow> good_asset_video ne v"
  by (auto simp: validateNativeAssetVideo_def validateNativeVideoProtocols_def good_asset_video_def validate_protocols_None Suc_le_eq not_less)

lemma validateNativeAsset_None: "validateNativeAsset ne a i j = None \<longleftrightarrow> good_asset ne a"
proof -
  have d: "validateNativeAssetData ne t i j = None \<longleftrightarrow> in_range_or_exchange (ne_data ne) t" for t
    by (auto simp: validateNativeAssetData_def in_range_or_exchange_def)
  have m: "validateNativeAssetImage m i j = None \<longleftrightarrow> good_image m" for m
    by (auto simp: validateNativeAssetImage_def good_image_def)
  have t: "validateNativeAssetTitle n i j = None \<longleftrightarrow> n > 0" for n
    by (auto simp: validateNativeAssetTitle_def)
  show ?thesis
    unfolding validateNativeAsset_def good_asset_def
    by (cases "na_Title a"; cases "na_Img a"; cases "na_Video a"; cases "na_Data a")
      (auto simp: Let_def asset_part_def d [symmetric] m [symmetric] t [symmetric] validateNativeAssetVideo_None [of ne _ i j, symmetric] split: option.splits)
qed

text \<open>The assets after validation: numbered if none had an id, otherwise as they were.\<close>

fun numbered :: "nat \<Rightarrow> NativeAsset list \<Rightarrow> NativeAsset list" where
  "numbered j [] = []"
| "numbered j (a # as) = a\<lparr>na_ID := int j\<rparr> # numbered (Suc j) as"

lemma map_sum_Inr: "map_sum f g x = Inr y \<longleftrightarrow> (\<exists>z. x = Inr z \<and> y = g z)"
  by (cases x) auto

lemma fill_assets_numbered: "fill_assets ne True i j ids as = Inr bs \<longleftrightarrow> list_all (good_asset ne) as \<and> bs = numbered j as"
proof (induction as arbitrary: j bs)
  case (Cons a as)
  show ?case
    using validateNativeAsset_None [of ne a i j] by (cases "validateNativeAsset ne a i j") (auto simp: map_sum_Inr Cons.IH)
qed auto

lemma fill_assets_given:
  "fill_assets ne False i j ids as = Inr bs \<longleftrightarrow> list_all (good_asset ne) as \<and> bs = as \<and> distinct (map na_ID as) \<and> set (map na_ID as) \<inter> set ids = {}"
proof (induction as arbitrary: j ids bs)
  case (Cons a as)
  show ?case
    using validateNativeAsset_None [of ne a i j] by (cases "validateNativeAsset ne a i j") (auto simp: map_sum_Inr Cons.IH)
qed auto

lemma numbered_ids: "map na_ID (numbered j as) = map int [j..<j + length as]"
  by (induction as arbitrary: j) (simp_all add: upt_conv_Cons del: upt_Suc)

lemma numbered_good: "list_all (good_asset ne) (numbered j as) \<longleftrightarrow> list_all (good_asset ne) as"
  by (induction as arbitrary: j) (simp_all add: good_asset_def)

lemma numbered_idem: "numbered j (numbered j as) = numbered j as"
  by (induction as arbitrary: j) simp_all

lemma numbered_length [simp]: "length (numbered j as) = length as"
  by (induction as arbitrary: j) simp_all

lemma numbered_Nil [simp]: "numbered j as = [] \<longleftrightarrow> as = []"
  by (cases as) simp_all

lemma native_assets_accepted:
  "fillAndValidateNativeAssets ne as i = Inr bs \<longleftrightarrow>
     as \<noteq> [] \<and> list_all (good_asset ne) as \<and> (if list_all (\<lambda>a. na_ID a = 0) as then bs = numbered 0 as else bs = as \<and> distinct (map na_ID as))"
  by (auto simp: fillAndValidateNativeAssets_def fill_assets_numbered fill_assets_given)

lemma native_assets_distinct: "fillAndValidateNativeAssets ne as i = Inr bs \<Longrightarrow> distinct (map na_ID bs) \<and> list_all (good_asset ne) bs \<and> bs \<noteq> [] \<and> length bs = length as"
proof -
  assume as: "fillAndValidateNativeAssets ne as i = Inr bs"
  have "distinct (map na_ID (numbered 0 as))" by (simp add: numbered_ids distinct_map)
  then show ?thesis using as by (auto simp: native_assets_accepted numbered_good split: if_splits)
qed

lemma native_assets_stable: "fillAndValidateNativeAssets ne as i = Inr bs \<Longrightarrow> fillAndValidateNativeAssets ne bs k = Inr bs"
  using native_assets_distinct [of ne as i bs] by (auto simp: native_assets_accepted numbered_idem split: if_splits)

definition good_trackers :: "native_enums \<Rightarrow> (int \<times> int list) list \<Rightarrow> bool" where
  "good_trackers ne = list_all (\<lambda>(ev, ms). in_range_or_exchange (ne_event ne) ev \<and> ms \<noteq> [] \<and> list_all (in_range_or_exchange (ne_method ne)) ms)"

lemma validateNativeEventTrackers_None: "validateNativeEventTrackers ne i j ts = None \<longleftrightarrow> good_trackers ne ts"
proof -
  have m: "validate_methods ne i j k ms = None \<longleftrightarrow> list_all (in_range_or_exchange (ne_method ne)) ms" for ne i j k ms
    by (induction ne i j k ms rule: validate_methods.induct) (auto simp: in_range_or_exchange_def)
  have "validateNativeEventTracker ne t i j = None \<longleftrightarrow> in_range_or_exchange (ne_event ne) (fst t) \<and> snd t \<noteq> [] \<and> list_all (in_range_or_exchange (ne_method ne)) (snd t)" for ne i t j
    by (auto simp: validateNativeEventTracker_def m in_range_or_exchange_def Suc_le_eq not_less)
  note t = this
  show ?thesis
  proof (induction ne i j ts rule: validateNativeEventTrackers.induct)
    case (2 ne i j t ts)
    then show ?case using t [of ne t i j] by (cases "validateNativeEventTracker ne t i j") (auto simp: good_trackers_def)
  qed (simp add: good_trackers_def)
qed

text \<open>The context a subtype belongs to; a subtype goes with its own context or with one of an exchange.\<close>

definition subtype_context :: "native_enums \<Rightarrow> int \<Rightarrow> int option" where
  "subtype_context ne sub =
     (if between (ne_content_sub ne) sub then Some (fst (ne_context ne))
      else if between (ne_social_sub ne) sub then Some (ne_social ne)
      else if between (ne_product_sub ne) sub then Some (snd (ne_context ne)) else None)"

definition good_context :: "native_enums \<Rightarrow> int \<Rightarrow> int \<Rightarrow> bool" where
  "good_context ne c sub \<longleftrightarrow> c = 0 \<or> in_range_or_exchange (ne_context ne) c
     \<and> (sub = 0 \<or> sub > 0 \<and> (case subtype_context ne sub of Some k \<Rightarrow> c = k \<or> c \<ge> 500 | None \<Rightarrow> sub \<ge> 500))"

definition good_native :: "native_enums \<Rightarrow> NativePayload \<Rightarrow> bool" where
  "good_native ne np \<longleftrightarrow> good_context ne (np_Context np) (np_ContextSubType np)
     \<and> (np_PlcmtType np = 0 \<or> in_range_or_exchange (ne_placement ne) (np_PlcmtType np))
     \<and> np_Assets np \<noteq> [] \<and> list_all (good_asset ne) (np_Assets np) \<and> distinct (map na_ID (np_Assets np)) \<and> good_trackers ne (np_EventTrackers np)"

lemma check_native_good: "check_native_payload ne np i = Inr np' \<Longrightarrow> good_native ne np'"
proof -
  have c: "validateNativeContextTypes ne c sub i = None \<longleftrightarrow> good_context ne c sub" for c sub
    by (auto simp: good_context_def subtype_context_def in_range_or_exchange_def validateNativeContextTypes_def Let_def)
  assume "check_native_payload ne np i = Inr np'"
  then obtain as where "fillAndValidateNativeAssets ne (np_Assets np) i = Inr as" "np' = np\<lparr>np_Assets := as\<rparr>"
    "good_context ne (np_Context np) (np_ContextSubType np)" "good_trackers ne (np_EventTrackers np)" "validateNativePlacementType ne (np_PlcmtType np) i = None"
    by (auto simp: check_native_payload_def c validateNativeEventTrackers_None split: option.splits sum.splits)
  then show ?thesis
    using native_assets_distinct [of ne "np_Assets np" i as]
    by (auto simp: good_native_def validateNativePlacementType_def in_range_or_exchange_def split: if_splits)
qed

section \<open>The bidders of an impression\<close>

record PrebidExt =
  xp_Bidder :: "(string, string) gomap option"  \<comment> \<open>\<open>None\<close>: the nil map\<close>
  xp_StoredAuctionResponse :: "string option"
  xp_StoredBidResponse :: nat  \<comment> \<open>how many\<close>

record ImpExtension =
  ie_ext :: "(string, string) gomap"
  ie_prebid :: "PrebidExt option"

record ImpObject =
  io_ID :: string
  io_Metric :: nat
  io_Banner :: "BannerObject option"
  io_Video :: "VideoObject option"
  io_Audio :: "AudioObject option"
  io_Native :: "string option"
  io_PMP :: "string list option"
  io_Instl :: int
  io_Ext :: "(string + ImpExtension) option"  \<comment> \<open>\<open>None\<close>: empty; an error if it does not decode\<close>

record validator_env =
  va_bidderMap :: "(string, string) gomap"
  va_disabledBidders :: "(string, string) gomap"
  va_params :: "string \<Rightarrow> string \<Rightarrow> string option"
  va_lookup :: "(string, string) gomap"  \<comment> \<open>core bidder names by lower-case name\<close>
  va_enums :: native_enums
  va_codec :: native_codec

record ValidationConfig =
  vc_SkipBidderParams :: bool
  vc_SkipNative :: bool

definition IsPotentialBidder :: "string \<Rightarrow> bool" where
  "IsPotentialBidder name = (name \<notin> {''context'', ''data'', ''gpid'', ''prebid'', ''skadn'', ''tid'', ''ae'', ''igs''})"

text \<open>Bidders under \<^verbatim>\<open>imp.ext\<close> move to \<^verbatim>\<open>imp.ext.prebid.bidder\<close>.\<close>

definition promote :: "(string, string) gomap \<Rightarrow> (string, string) gomap \<times> (string, string) gomap" where
  "promote ext = (filter (\<lambda>(k, _). IsPotentialBidder k) ext, filter (\<lambda>(k, _). \<not> IsPotentialBidder k) ext)"

fun check_stored_names :: "(string, string) gomap \<Rightarrow> (string, string) gomap \<Rightarrow> string \<Rightarrow> string list \<Rightarrow> val_error option" where
  "check_stored_names lookup bidders impId [] = None"
| "check_stored_names lookup bidders impId (n # ns) =
    (if NormalizeBidderName lookup n = None then Some (VText (''unrecognized bidder '' @ n))
     else if \<not> map_has bidders n then Some (VText (''stored bid responses of imp '' @ impId))
     else check_stored_names lookup bidders impId ns)"

text \<open>The stored bid responses by impression and bidder; \<open>None\<close> is the nil map.\<close>

type_synonym stored_bids = "(string, (string, string) gomap) gomap option"

definition validateStoredBidResponses :: "validator_env \<Rightarrow> PrebidExt \<Rightarrow> (string, string) gomap \<Rightarrow> stored_bids \<Rightarrow> string \<Rightarrow> val_error option" where
  "validateStoredBidResponses va prebid bidders stored impId =
     (case stored of
        None \<Rightarrow> if xp_StoredBidResponse prebid = 0 then None else Some (VText (''stored bid responses of imp '' @ impId))
      | Some m \<Rightarrow>
          (case map_of m impId of
             None \<Rightarrow> None
           | Some responses \<Rightarrow>
               if length responses \<noteq> length bidders then Some (VText (''stored bid responses of imp '' @ impId))
               else check_stored_names (va_lookup va) bidders impId (map fst responses)))"

definition coreBidder :: "validator_env \<Rightarrow> (string, string) gomap \<Rightarrow> string \<Rightarrow> string" where
  "coreBidder va aliases bidder = (case map_of aliases bidder of Some a \<Rightarrow> a | None \<Rightarrow> opt_or (NormalizeBidderName (va_lookup va) bidder) [])"

text \<open>
  The loop over the bidders: what is kept, the extension, the errors collected; or the error that ends it. An impression that is refused
  is returned as it was.
\<close>

fun check_bidders :: "validator_env \<Rightarrow> bool \<Rightarrow> bool \<Rightarrow> (string, string) gomap \<Rightarrow> nat \<Rightarrow> (string, string) gomap
    \<Rightarrow> (string, string) gomap \<times> (string, string) gomap \<times> val_error list
    \<Rightarrow> val_error + (string, string) gomap \<times> (string, string) gomap \<times> val_error list" where
  "check_bidders va skip promoted aliases i [] acc = Inr acc"
| "check_bidders va skip promoted aliases i ((bidder, val) # rest) (kept, ext, errs) =
    (case map_of (va_bidderMap va) (coreBidder va aliases bidder) of
       Some core \<Rightarrow>
         (case (if skip then None else va_params va core val) of
            Some e \<Rightarrow> Inl (VText (''imp.ext.prebid.bidder.'' @ bidder @ '' failed validation. '' @ e))
          | None \<Rightarrow> check_bidders va skip promoted aliases i rest (kept, ext, errs))
     | None \<Rightarrow>
         (case map_of (va_disabledBidders va) bidder of
            Some msg \<Rightarrow> check_bidders va skip promoted aliases i rest (map_del bidder kept, ext, errs @ [DisabledBidder msg])
          | None \<Rightarrow>
              if promoted then check_bidders va skip promoted aliases i rest (map_del bidder kept, map_put bidder val ext, errs @ [UnknownBidderWarning i bidder])
              else Inl (VText (''imp.ext.prebid.bidder contains unknown bidder: '' @ bidder))))"

definition validateImpExt :: "validator_env \<Rightarrow> ImpObject \<Rightarrow> ValidationConfig \<Rightarrow> (string, string) gomap \<Rightarrow> nat \<Rightarrow> bool \<Rightarrow> stored_bids \<Rightarrow> ImpObject \<times> val_error list" where
  "validateImpExt va imp cfg aliases i hasStored stored =
     (case io_Ext imp of
        None \<Rightarrow> (imp, [VError ''ext is required'' [i]])
      | Some (Inl e) \<Rightarrow> (imp, [VText e])
      | Some (Inr ie) \<Rightarrow>
          let prebid = opt_or (ie_prebid ie) \<lparr>xp_Bidder = None, xp_StoredAuctionResponse = None, xp_StoredBidResponse = 0\<rparr>;
              promoted = (xp_Bidder prebid = None);
              be = (case xp_Bidder prebid of Some bs \<Rightarrow> (bs, ie_ext ie) | None \<Rightarrow> promote (ie_ext ie));
              bidders = fst be; ext = snd be
          in if hasStored \<and> xp_StoredAuctionResponse prebid = None then (imp, [VError ''ext.prebid.storedauctionresponse'' [i]])
             else
               (case validateStoredBidResponses va prebid bidders stored (io_ID imp) of
                  Some e \<Rightarrow> (imp, [e])
                | None \<Rightarrow>
                    (case check_bidders va (vc_SkipBidderParams cfg) promoted aliases i bidders (bidders, ext, []) of
                       Inl e \<Rightarrow> (imp, [e])
                     | Inr (kept, ext', errs) \<Rightarrow>
                         if kept = [] then (imp, errs @ [VError ''ext.prebid.bidder must contain at least one bidder'' [i]])
                         else (imp\<lparr>io_Ext := Some (Inr \<lparr>ie_ext = ext', ie_prebid = Some (prebid\<lparr>xp_Bidder := Some kept\<rparr>)\<rparr>)\<rparr>, errs))))"

definition isInterstitial :: "ImpObject \<Rightarrow> bool" where
  "isInterstitial imp \<longleftrightarrow> io_Instl imp = 1"

definition ValidateImp :: "validator_env \<Rightarrow> ImpObject \<Rightarrow> ValidationConfig \<Rightarrow> nat \<Rightarrow> (string, string) gomap \<Rightarrow> bool \<Rightarrow> stored_bids \<Rightarrow> ImpObject \<times> val_error list" where
  "ValidateImp va imp cfg i aliases hasStored stored =
     (if io_ID imp = [] then (imp, [VError ''id'' [i]])
      else if io_Metric imp \<noteq> 0 then (imp, [VError ''metric'' [i]])
      else if io_Banner imp = None \<and> io_Video imp = None \<and> io_Audio imp = None \<and> io_Native imp = None then (imp, [VError ''media type'' [i]])
      else
      case validateBanner (io_Banner imp) i (isInterstitial imp) of Some e \<Rightarrow> (imp, [e]) | None \<Rightarrow>
      case validateVideo (io_Video imp) i of Some e \<Rightarrow> (imp, [e]) | None \<Rightarrow>
      case validateAudio (io_Audio imp) i of Some e \<Rightarrow> (imp, [e]) | None \<Rightarrow>
      case (if vc_SkipNative cfg then Inr (io_Native imp) else fillAndValidateNative (va_enums va) (va_codec va) (io_Native imp) i) of
        Inl e \<Rightarrow> (imp, [e])
      | Inr n \<Rightarrow>
      let imp = imp\<lparr>io_Native := n\<rparr> in
      case validatePmp (io_PMP imp) i of Some e \<Rightarrow> (imp, [e]) | None \<Rightarrow>
      validateImpExt va imp cfg aliases i hasStored stored)"

subsection \<open>What is accepted\<close>

fun fatal :: "val_error \<Rightarrow> bool" where
  "fatal (VError _ _) = True"
| "fatal (VText _) = True"
| "fatal (DisabledBidder _) = False"
| "fatal (UnknownBidderWarning _ _) = False"

definition known_bidder :: "validator_env \<Rightarrow> (string, string) gomap \<Rightarrow> string \<Rightarrow> bool" where
  "known_bidder va aliases b \<longleftrightarrow> map_has (va_bidderMap va) (coreBidder va aliases b)"

definition good_params :: "validator_env \<Rightarrow> bool \<Rightarrow> (string, string) gomap \<Rightarrow> string \<times> string \<Rightarrow> bool" where
  "good_params va skip aliases e \<longleftrightarrow> skip \<or> (\<exists>core. map_of (va_bidderMap va) (coreBidder va aliases (fst e)) = Some core \<and> va_params va core (snd e) = None)"

lemma map_del_filter: "map_del k m = filter (\<lambda>(j, _). j \<noteq> k) m"
  by (auto simp: AList.delete_eq intro!: filter_cong)

lemma check_bidders_Inr:
  assumes "check_bidders va skip promoted aliases i rest (kept, ext, errs) = Inr (kept', ext', errs')"
  shows "kept' = filter (\<lambda>(b, _). known_bidder va aliases b \<or> b \<notin> fst ` set rest) kept
    \<and> (\<exists>more. errs' = errs @ more \<and> list_all (\<lambda>e. \<not> fatal e) more \<and> length more = length (filter (\<lambda>(b, _). \<not> known_bidder va aliases b) rest))
    \<and> list_all (\<lambda>e. known_bidder va aliases (fst e) \<longrightarrow> good_params va skip aliases e) rest"
  using assms
proof (induction rest arbitrary: kept ext errs)
  case (Cons x rest)
  obtain b v where x: "x = (b, v)" by (cases x)
  show ?case
  proof (cases "map_of (va_bidderMap va) (coreBidder va aliases b)")
    case (Some core)
    then have k: "known_bidder va aliases b" by (simp add: known_bidder_def)
    have p: "(if skip then None else va_params va core v) = None"
      using Cons.prems by (auto simp: x Some split: option.splits)
    then have g: "good_params va skip aliases (b, v)" using Some by (auto simp: good_params_def split: if_splits)
    have "check_bidders va skip promoted aliases i rest (kept, ext, errs) = Inr (kept', ext', errs')"
      using Cons.prems by (simp only: x check_bidders.simps Some option.case p)
    from Cons.IH [OF this] k g show ?thesis by (auto simp: x intro!: filter_cong)
  next
    case None
    then have k: "\<not> known_bidder va aliases b" by (simp add: known_bidder_def)
    obtain e ext1 where "check_bidders va skip promoted aliases i rest (map_del b kept, ext1, errs @ [e]) = Inr (kept', ext', errs')" "\<not> fatal e"
      using Cons.prems by (cases "map_of (va_disabledBidders va) b") (fastforce simp: x None split: if_splits)+
    from this(2) Cons.IH [OF this(1)] k show ?thesis
      by (auto simp: x map_del_filter intro!: filter_cong)
  qed
qed simp

lemma check_bidders_fatal: "check_bidders va skip promoted aliases i rest acc = Inl e \<Longrightarrow> fatal e"
  by (induction va skip promoted aliases i rest acc rule: check_bidders.induct) (auto split: option.splits if_splits)

lemma stored_fatal: "validateStoredBidResponses va prebid bidders stored impId = Some e \<Longrightarrow> fatal e"
proof -
  have "check_stored_names lookup bidders impId ns = Some e \<Longrightarrow> fatal e" for lookup ns
    by (induction lookup bidders impId ns rule: check_stored_names.induct) (auto split: if_splits)
  then show "validateStoredBidResponses va prebid bidders stored impId = Some e \<Longrightarrow> fatal e"
    by (auto simp: validateStoredBidResponses_def split: option.splits if_splits)
qed

definition typed_native :: "validator_env \<Rightarrow> string option \<Rightarrow> bool" where
  "typed_native va n = (case n of None \<Rightarrow> True | Some s \<Rightarrow> (\<exists>np. nc_Marshal (va_codec va) np = Inr s \<and> good_native (va_enums va) np))"

text \<open>What the exchange may rely on for an impression.\<close>

definition typed_imp :: "validator_env \<Rightarrow> ValidationConfig \<Rightarrow> (string, string) gomap \<Rightarrow> ImpObject \<Rightarrow> bool" where
  "typed_imp va cfg aliases imp \<longleftrightarrow>
     io_ID imp \<noteq> [] \<and> io_Metric imp = 0 \<and> (io_Banner imp \<noteq> None \<or> io_Video imp \<noteq> None \<or> io_Audio imp \<noteq> None \<or> io_Native imp \<noteq> None)
     \<and> (case io_Banner imp of None \<Rightarrow> True | Some b \<Rightarrow> good_banner (isInterstitial imp) b)
     \<and> (case io_Video imp of None \<Rightarrow> True | Some v \<Rightarrow> good_video v)
     \<and> (case io_Audio imp of None \<Rightarrow> True | Some a \<Rightarrow> good_audio a)
     \<and> (vc_SkipNative cfg \<or> typed_native va (io_Native imp))
     \<and> (case io_PMP imp of None \<Rightarrow> True | Some deals \<Rightarrow> [] \<notin> set deals)
     \<and> (case io_Ext imp of
          Some (Inr ie) \<Rightarrow>
            (case ie_prebid ie of
               Some p \<Rightarrow> (case xp_Bidder p of
                   Some bs \<Rightarrow> bs \<noteq> [] \<and> list_all (\<lambda>e. known_bidder va aliases (fst e) \<and> good_params va (vc_SkipBidderParams cfg) aliases e) bs
                 | None \<Rightarrow> False)
             | None \<Rightarrow> False)
        | _ \<Rightarrow> False)"

text \<open>The bidders an impression comes with, at their old or their new place.\<close>

definition given_bidders :: "ImpExtension \<Rightarrow> (string, string) gomap" where
  "given_bidders ie = (case map_option xp_Bidder (ie_prebid ie) of Some (Some bs) \<Rightarrow> bs | _ \<Rightarrow> fst (promote (ie_ext ie)))"

lemma validateImpExt_accepts:
  assumes "validateImpExt va imp cfg aliases i hasStored stored = (imp', errs)" "list_all (\<lambda>e. \<not> fatal e) errs"
  shows "\<exists>ie p ie'. io_Ext imp = Some (Inr ie) \<and> imp' = imp\<lparr>io_Ext := Some (Inr ie')\<rparr> \<and> ie_prebid ie' = Some p
    \<and> xp_Bidder p = Some (filter (\<lambda>(b, _). known_bidder va aliases b) (given_bidders ie)) \<and> filter (\<lambda>(b, _). known_bidder va aliases b) (given_bidders ie) \<noteq> []
    \<and> list_all (\<lambda>e. known_bidder va aliases (fst e) \<longrightarrow> good_params va (vc_SkipBidderParams cfg) aliases e) (given_bidders ie)
    \<and> length errs = length (filter (\<lambda>(b, _). \<not> known_bidder va aliases b) (given_bidders ie))"
proof -
  obtain ie where ie: "io_Ext imp = Some (Inr ie)"
    using assms by (auto simp: validateImpExt_def split: option.splits sum.splits)
  define prebid where "prebid = opt_or (ie_prebid ie) \<lparr>xp_Bidder = None, xp_StoredAuctionResponse = None, xp_StoredBidResponse = 0\<rparr>"
  define be where "be = (case xp_Bidder prebid of Some bs \<Rightarrow> (bs, ie_ext ie) | None \<Rightarrow> promote (ie_ext ie))"
  have given: "fst be = given_bidders ie"
    by (simp add: be_def prebid_def given_bidders_def opt_or_def split: option.split)
  let ?run = "check_bidders va (vc_SkipBidderParams cfg) (xp_Bidder prebid = None) aliases i (fst be) (fst be, snd be, [])"
  have v: "validateImpExt va imp cfg aliases i hasStored stored =
      (if hasStored \<and> xp_StoredAuctionResponse prebid = None then (imp, [VError ''ext.prebid.storedauctionresponse'' [i]])
       else (case validateStoredBidResponses va prebid (fst be) stored (io_ID imp) of
          Some e \<Rightarrow> (imp, [e])
        | None \<Rightarrow> (case ?run of Inl e \<Rightarrow> (imp, [e])
           | Inr (kept, ext', errs) \<Rightarrow>
               if kept = [] then (imp, errs @ [VError ''ext.prebid.bidder must contain at least one bidder'' [i]])
               else (imp\<lparr>io_Ext := Some (Inr \<lparr>ie_ext = ext', ie_prebid = Some (prebid\<lparr>xp_Bidder := Some kept\<rparr>)\<rparr>)\<rparr>, errs))))"
    unfolding validateImpExt_def ie option.case sum.case Let_def prebid_def [symmetric] be_def [symmetric] ..
  obtain kept ext' where run: "?run = Inr (kept, ext', errs)" "kept \<noteq> []"
    "imp' = imp\<lparr>io_Ext := Some (Inr \<lparr>ie_ext = ext', ie_prebid = Some (prebid\<lparr>xp_Bidder := Some kept\<rparr>)\<rparr>)\<rparr>"
    using assms check_bidders_fatal [of va "vc_SkipBidderParams cfg" "xp_Bidder prebid = None" aliases i "fst be" "(fst be, snd be, [])"]
      stored_fatal [of va prebid "fst be" stored "io_ID imp"]
    unfolding v by (auto split: if_splits option.splits sum.splits prod.splits)
  have "fst ` set (fst be) = fst ` set (given_bidders ie)" by (simp add: given)
  then have kept: "kept = filter (\<lambda>(b, _). known_bidder va aliases b) (given_bidders ie)"
    using check_bidders_Inr [OF run(1)] given by (force intro!: filter_cong)
  have "list_all (\<lambda>e. known_bidder va aliases (fst e) \<longrightarrow> good_params va (vc_SkipBidderParams cfg) aliases e) (given_bidders ie)"
    "length errs = length (filter (\<lambda>(b, _). \<not> known_bidder va aliases b) (given_bidders ie))"
    using check_bidders_Inr [OF run(1)] by (auto simp: given)
  then show ?thesis
    using run(2,3) unfolding kept
    by (intro exI [of _ ie] exI [of _ "prebid\<lparr>xp_Bidder := Some kept\<rparr>"] exI [of _ "\<lparr>ie_ext = ext', ie_prebid = Some (prebid\<lparr>xp_Bidder := Some kept\<rparr>)\<rparr>"] conjI)
      (simp_all add: ie kept)
qed

text \<open>How a step that can refuse is passed when no error is fatal.\<close>

lemma pass_opt:
  assumes "list_all (\<lambda>e. \<not> fatal e) errs" "\<And>e. x = Some e \<Longrightarrow> fatal e"
  shows "(case x of Some e \<Rightarrow> (imp, [e]) | None \<Rightarrow> k) = (imp', errs) \<longleftrightarrow> x = None \<and> k = (imp', errs)"
  using assms by (cases x) auto

lemma pass_if:
  assumes "list_all (\<lambda>e. \<not> fatal e) errs" "fatal e"
  shows "(if b then (imp, [e]) else k) = (imp', errs) \<longleftrightarrow> \<not> b \<and> k = (imp', errs)"
  using assms by auto

lemma pass_sum:
  assumes "list_all (\<lambda>e. \<not> fatal e) errs" "\<And>e. x = Inl e \<Longrightarrow> fatal e"
  shows "(case x of Inl e \<Rightarrow> (imp, [e]) | Inr n \<Rightarrow> k n) = (imp', errs) \<longleftrightarrow> (\<exists>n. x = Inr n \<and> k n = (imp', errs))"
  using assms by (cases x) auto

lemma media_fatal:
  "validateBanner b i instl = Some e \<Longrightarrow> fatal e" "validateVideo v i = Some e \<Longrightarrow> fatal e" "validateAudio a i = Some e \<Longrightarrow> fatal e" "validatePmp p i = Some e \<Longrightarrow> fatal e"
proof -
  have f: "validate_formats i j fs = Some e \<Longrightarrow> fatal e" for j fs
    by (induction i j fs rule: validate_formats.induct) (auto simp: validateFormat_def Let_def split: if_splits option.splits)
  show "validateBanner b i instl = Some e \<Longrightarrow> fatal e"
    by (auto simp: validateBanner_def Let_def f split: option.splits if_splits)
  show "validateVideo v i = Some e \<Longrightarrow> fatal e" by (auto simp: validateVideo_def split: option.splits if_splits)
  show "validateAudio a i = Some e \<Longrightarrow> fatal e" by (auto simp: validateAudio_def split: option.splits if_splits)
  have "validate_deals i d ds = Some e \<Longrightarrow> fatal e" for d ds
    by (induction i d ds rule: validate_deals.induct) (auto split: if_splits)
  then show "validatePmp p i = Some e \<Longrightarrow> fatal e" by (auto simp: validatePmp_def split: option.splits)
qed

lemma native_asset_fatal: "validateNativeAsset ne a i j = Some e \<Longrightarrow> fatal e"
proof -
  have p: "validate_protocols ne i j k ps = Some e \<Longrightarrow> fatal e" for k ps
    by (induction ne i j k ps rule: validate_protocols.induct) (auto simp: validateNativeVideoProtocol_def split: option.splits if_splits)
  have v: "validateNativeAssetVideo ne v i j = Some e \<Longrightarrow> fatal e" for v
    by (auto simp: validateNativeAssetVideo_def validateNativeVideoProtocols_def p split: if_splits)
  show "validateNativeAsset ne a i j = Some e \<Longrightarrow> fatal e"
    by (cases "na_Title a"; cases "na_Img a"; cases "na_Video a"; cases "na_Data a")
      (auto simp: validateNativeAsset_def asset_part_def Let_def v validateNativeAssetTitle_def validateNativeAssetImage_def validateNativeAssetData_def split: option.splits if_splits)
qed

lemma native_fatal: "fillAndValidateNative ne nc n i = Inl e \<Longrightarrow> fatal e"
proof -
  have a: "fill_assets ne assign i j ids as = Inl e \<Longrightarrow> fatal e" for assign j ids as
  proof (induction as arbitrary: j ids)
    case (Cons x as)
    show ?case
      using Cons.prems Cons.IH native_asset_fatal [of ne x i j]
      by (cases "validateNativeAsset ne x i j"; cases "fill_assets ne assign i (Suc j) ids as"; cases "fill_assets ne assign i (Suc j) (na_ID x # ids) as") (auto split: if_splits)
  qed simp
  have m: "validate_methods ne i j k ms = Some e \<Longrightarrow> fatal e" for ne i j k ms
    by (induction ne i j k ms rule: validate_methods.induct) (auto split: if_splits)
  have t: "validateNativeEventTrackers ne i j ts = Some e \<Longrightarrow> fatal e" for j ts
    by (induction ne i j ts rule: validateNativeEventTrackers.induct) (auto simp: validateNativeEventTracker_def m split: option.splits if_splits)
  have c: "validateNativeContextTypes ne c sub i = Some e \<Longrightarrow> fatal e" for c sub
    by (auto simp: validateNativeContextTypes_def Let_def split: if_splits)
  have pl: "validateNativePlacementType ne pt i = Some e \<Longrightarrow> fatal e" for pt
    by (auto simp: validateNativePlacementType_def split: if_splits)
  have "check_native_payload ne np i = Inl e \<Longrightarrow> fatal e" for np
    by (auto simp: check_native_payload_def fillAndValidateNativeAssets_def dest: a t c pl split: option.splits sum.splits if_splits)
  then show "fillAndValidateNative ne nc n i = Inl e \<Longrightarrow> fatal e"
    by (auto simp: fillAndValidateNative_def split: option.splits sum.splits if_splits)
qed

lemma ValidateImp_accepts:
  assumes "ValidateImp va imp cfg i aliases hasStored stored = (imp', errs)" "list_all (\<lambda>e. \<not> fatal e) errs"
  shows "\<exists>n. io_ID imp \<noteq> [] \<and> io_Metric imp = 0 \<and> \<not> (io_Banner imp = None \<and> io_Video imp = None \<and> io_Audio imp = None \<and> io_Native imp = None)
    \<and> validateBanner (io_Banner imp) i (isInterstitial imp) = None \<and> validateVideo (io_Video imp) i = None \<and> validateAudio (io_Audio imp) i = None
    \<and> (if vc_SkipNative cfg then Inr (io_Native imp) else fillAndValidateNative (va_enums va) (va_codec va) (io_Native imp) i) = Inr n
    \<and> validatePmp (io_PMP imp) i = None \<and> validateImpExt va (imp\<lparr>io_Native := n\<rparr>) cfg aliases i hasStored stored = (imp', errs)"
proof -
  let ?nat = "if vc_SkipNative cfg then Inr (io_Native imp) else fillAndValidateNative (va_enums va) (va_codec va) (io_Native imp) i"
  have nat: "?nat = Inl e \<Longrightarrow> fatal e" for e using native_fatal by (auto split: if_splits)
  have opt: "(case validateBanner b i instl of Some e \<Rightarrow> (m, [e]) | None \<Rightarrow> k) = (imp', errs) \<longleftrightarrow> validateBanner b i instl = None \<and> k = (imp', errs)"
    "(case validateVideo v i of Some e \<Rightarrow> (m, [e]) | None \<Rightarrow> k) = (imp', errs) \<longleftrightarrow> validateVideo v i = None \<and> k = (imp', errs)"
    "(case validateAudio a i of Some e \<Rightarrow> (m, [e]) | None \<Rightarrow> k) = (imp', errs) \<longleftrightarrow> validateAudio a i = None \<and> k = (imp', errs)"
    "(case validatePmp p i of Some e \<Rightarrow> (m, [e]) | None \<Rightarrow> k) = (imp', errs) \<longleftrightarrow> validatePmp p i = None \<and> k = (imp', errs)" for b instl v a p m k
    by (rule pass_opt [OF assms(2)], erule media_fatal)+
  have sum: "(case ?nat of Inl e \<Rightarrow> (m, [e]) | Inr n \<Rightarrow> k n) = (imp', errs) \<longleftrightarrow> (\<exists>n. ?nat = Inr n \<and> k n = (imp', errs))" for m k
    by (rule pass_sum [OF assms(2)], erule nat)
  note pass = pass_if [OF assms(2) fatal.simps(1) [THEN iffD2, OF TrueI]] opt sum
  show ?thesis
    using assms(1) unfolding ValidateImp_def Let_def pass by (elim conjE exE) (rule exI, intro conjI; (assumption | simp))
qed

definition sample_validator :: validator_env where
  "sample_validator = \<lparr>va_bidderMap = [(''appnexus'', ''appnexus'')], va_disabledBidders = [(''old'', ''Bidder old is disabled'')], va_params = (\<lambda>_ v. if v = ''{}'' then None else Some ''bad''),
     va_lookup = [(''appnexus'', ''appnexus'')],
     va_enums = \<lparr>ne_context = (1, 3), ne_social = 2, ne_content_sub = (10, 15), ne_social_sub = (20, 22), ne_product_sub = (30, 32), ne_placement = (1, 4),
       ne_event = (1, 4), ne_method = (1, 2), ne_data = (1, 12), ne_protocol = (1, 10)\<rparr>,
     va_codec = \<lparr>nc_Unmarshal = (\<lambda>_. Inl ''no native''), nc_Marshal = (\<lambda>_. Inl ''no native'')\<rparr>\<rparr>"

definition sample_imp :: ImpObject where
  "sample_imp = \<lparr>io_ID = ''1'', io_Metric = 0,
     io_Banner = Some \<lparr>bo_W = None, bo_H = None, bo_WMin = 0, bo_WMax = 0, bo_HMin = 0, bo_HMax = 0, bo_Format = [\<lparr>fm_W = 300, fm_H = 250, fm_WMin = 0, fm_WRatio = 0, fm_HRatio = 0\<rparr>]\<rparr>,
     io_Video = None, io_Audio = None, io_Native = None, io_PMP = None, io_Instl = 0,
     io_Ext = Some (Inr \<lparr>ie_ext = [(''AppNexus'', ''{}''), (''old'', ''{}''), (''tid'', ''t''), (''other'', ''{}'')], ie_prebid = None\<rparr>)\<rparr>"

definition sample_run :: "ImpObject \<times> val_error list" where
  "sample_run = ValidateImp sample_validator sample_imp \<lparr>vc_SkipBidderParams = False, vc_SkipNative = False\<rparr> 0 [] False None"

lemma sample_run_errors: "snd sample_run = [DisabledBidder ''Bidder old is disabled'', UnknownBidderWarning 0 ''other'']"
  by code_simp

text \<open>
  C13. An accepted impression is well-formed: when validation of an impression gives no fatal error, the impression it leaves has an id and a medium; sizes of
  banners are positive and each format has either a size or a ratio; bit rates and sequence numbers are not negative; every native asset has exactly one
  content and its own id; deals have ids; and there is at least one bidder, every bidder is an enabled core bidder or an alias of one, and its parameters
  pass the bidder's schema, unless checks are skipped.
\<close>
theorem accepted_imp_typed:
  assumes "list_all (\<lambda>e. \<not> fatal e) (snd (ValidateImp va imp cfg i aliases hasStored stored))"
  shows "typed_imp va cfg aliases (fst (ValidateImp va imp cfg i aliases hasStored stored))"
proof -
  obtain imp' errs where v: "ValidateImp va imp cfg i aliases hasStored stored = (imp', errs)" by fastforce
  have e: "list_all (\<lambda>e. \<not> fatal e) errs" using assms v by simp
  obtain n where n: "io_ID imp \<noteq> []" "io_Metric imp = 0" "\<not> (io_Banner imp = None \<and> io_Video imp = None \<and> io_Audio imp = None \<and> io_Native imp = None)"
    "validateBanner (io_Banner imp) i (isInterstitial imp) = None" "validateVideo (io_Video imp) i = None" "validateAudio (io_Audio imp) i = None"
    "(if vc_SkipNative cfg then Inr (io_Native imp) else fillAndValidateNative (va_enums va) (va_codec va) (io_Native imp) i) = Inr n"
    "validatePmp (io_PMP imp) i = None" "validateImpExt va (imp\<lparr>io_Native := n\<rparr>) cfg aliases i hasStored stored = (imp', errs)"
    using ValidateImp_accepts [OF v e] by blast
  obtain ie p ie' where x: "imp' = imp\<lparr>io_Native := n\<rparr>\<lparr>io_Ext := Some (Inr ie')\<rparr>" "ie_prebid ie' = Some p"
    "xp_Bidder p = Some (filter (\<lambda>(b, _). known_bidder va aliases b) (given_bidders ie))" "filter (\<lambda>(b, _). known_bidder va aliases b) (given_bidders ie) \<noteq> []"
    "list_all (\<lambda>e. known_bidder va aliases (fst e) \<longrightarrow> good_params va (vc_SkipBidderParams cfg) aliases e) (given_bidders ie)"
    using validateImpExt_accepts [OF n(9) e] by blast
  have native: "vc_SkipNative cfg \<or> typed_native va n"
    using n(7) by (auto simp: typed_native_def fillAndValidateNative_def split: option.splits sum.splits if_splits dest: check_native_good)
  have same: "n = None \<longleftrightarrow> io_Native imp = None"
    using n(7) by (auto simp: fillAndValidateNative_def split: if_splits option.splits sum.splits)
  have "list_all (\<lambda>e. known_bidder va aliases (fst e) \<and> good_params va (vc_SkipBidderParams cfg) aliases e) (filter (\<lambda>(b, _). known_bidder va aliases b) (given_bidders ie))"
    using x(5) by (auto simp: list_all_iff)
  moreover have inst: "isInterstitial imp' = isInterstitial imp" by (simp add: x(1) isInterstitial_def)
  ultimately show ?thesis
    using n(1-6,8) x(2-4) native same
    unfolding typed_imp_def v fst_conv inst validateBanner_None validateVideo_None validateAudio_None validatePmp_None by (simp add: x(1))
qed

theorem accepted_imp_typed_witness:
  "typed_imp sample_validator \<lparr>vc_SkipBidderParams = False, vc_SkipNative = False\<rparr> [] (fst sample_run)"
  using accepted_imp_typed [of sample_validator sample_imp "\<lparr>vc_SkipBidderParams = False, vc_SkipNative = False\<rparr>" 0 "[]" False None] sample_run_errors
  by (simp add: sample_run_def)

text \<open>
  No bidder is lost silently: when an impression is accepted, the bidders it keeps are exactly the known ones of those it came with, under
  \<^verbatim>\<open>imp.ext.prebid.bidder\<close> or, where that is absent, under \<^verbatim>\<open>imp.ext\<close>, with their parameters and in their order, and there is one warning for every bidder
  that was dropped.
\<close>
theorem accepted_imp_bidders:
  assumes "list_all (\<lambda>e. \<not> fatal e) (snd (ValidateImp va imp cfg i aliases hasStored stored))"
  shows "\<exists>ie p ie'. io_Ext imp = Some (Inr ie) \<and> io_Ext (fst (ValidateImp va imp cfg i aliases hasStored stored)) = Some (Inr ie') \<and> ie_prebid ie' = Some p
    \<and> xp_Bidder p = Some (filter (\<lambda>(b, _). known_bidder va aliases b) (given_bidders ie))
    \<and> length (snd (ValidateImp va imp cfg i aliases hasStored stored)) = length (filter (\<lambda>(b, _). \<not> known_bidder va aliases b) (given_bidders ie))"
proof -
  obtain imp' errs where v: "ValidateImp va imp cfg i aliases hasStored stored = (imp', errs)" by fastforce
  have e: "list_all (\<lambda>e. \<not> fatal e) errs" using assms v by simp
  obtain n where n: "validateImpExt va (imp\<lparr>io_Native := n\<rparr>) cfg aliases i hasStored stored = (imp', errs)"
    using ValidateImp_accepts [OF v e] by blast
  show ?thesis using validateImpExt_accepts [OF n e] unfolding v by auto
qed

theorem accepted_imp_bidders_witness:
  "\<exists>p ie'. io_Ext (fst sample_run) = Some (Inr ie') \<and> ie_prebid ie' = Some p \<and> xp_Bidder p = Some [(''AppNexus'', ''{}'')]"
proof -
  have f: "filter (\<lambda>(b, _). known_bidder sample_validator [] b) (given_bidders \<lparr>ie_ext = [(''AppNexus'', ''{}''), (''old'', ''{}''), (''tid'', ''t''), (''other'', ''{}'')], ie_prebid = None\<rparr>) = [(''AppNexus'', ''{}'')]"
    by code_simp
  show ?thesis
    using accepted_imp_bidders [of sample_validator sample_imp "\<lparr>vc_SkipBidderParams = False, vc_SkipNative = False\<rparr>" 0 "[]" False None] sample_run_errors f
    by (auto simp: sample_run_def sample_imp_def)
qed

end
