(* ===== verification/BidValidation.thy ===== *)
theory BidValidation
  imports Entities Gostrings
begin

text \<open>
  The checks on the way from a bidder's response to the answer: \<^verbatim>\<open>exchange/bidder_validate_bids.go\<close> removes invalid bids of a seat, \<^verbatim>\<open>dsa\<close> checks the
  transparency signals and writes the default ones to the request, and \<^verbatim>\<open>makeBid\<close> of \<^verbatim>\<open>exchange/exchange.go\<close> drops bids with bad signals, oversized
  banners or insecure markup and records them as non-bids. The ISO code table, the JSON of extensions and the settings are arguments.
\<close>

section \<open>Transparency signals\<close>

record ExtRegsDSA =
  rd_Required :: "int option"
  rd_PubRender :: "int option"
  rd_rest :: string

record ExtBidDSA =
  bd_Behalf :: string
  bd_Paid :: string
  bd_AdRender :: "int option"

datatype dsa_error = ErrDsaMissing | ErrBehalfTooLong | ErrPaidTooLong | ErrNeitherWillRender | ErrBothWillRender

text \<open>The extension of \<^verbatim>\<open>regs\<close>: an error if it does not decode, otherwise its signals.\<close>

definition getReqDSA :: "string + ExtRegsDSA option \<Rightarrow> ExtRegsDSA option" where
  "getReqDSA regExt = (case regExt of Inl _ \<Rightarrow> None | Inr d \<Rightarrow> d)"

definition getBidDSA :: "(string option \<Rightarrow> ExtBidDSA option) \<Rightarrow> PbsOrtbBid \<Rightarrow> ExtBidDSA option" where
  "getBidDSA decode bid = (case pb_Bid bid of None \<Rightarrow> None | Some b \<Rightarrow> decode (Bid_Ext b))"

definition dsaRequired :: "ExtRegsDSA option \<Rightarrow> bool" where
  "dsaRequired dsa = (case dsa of None \<Rightarrow> False | Some d \<Rightarrow> rd_Required d = Some 2 \<or> rd_Required d = Some 3)"

definition dsa_Validate :: "(string option \<Rightarrow> ExtBidDSA option) \<Rightarrow> string + ExtRegsDSA option \<Rightarrow> PbsOrtbBid \<Rightarrow> dsa_error option" where
  "dsa_Validate decode regExt bid =
     (let reqDSA = getReqDSA regExt; bidDSA = getBidDSA decode bid in
      if dsaRequired reqDSA \<and> bidDSA = None then Some ErrDsaMissing
      else
        (case bidDSA of
           None \<Rightarrow> None
         | Some b \<Rightarrow>
             if length (bd_Behalf b) > 100 then Some ErrBehalfTooLong
             else if length (bd_Paid b) > 100 then Some ErrPaidTooLong
             else
               (case (reqDSA, bd_AdRender b) of
                  (Some r, Some ad) \<Rightarrow>
                    (case rd_PubRender r of
                       None \<Rightarrow> None
                     | Some pub \<Rightarrow>
                         if pub = 0 \<and> ad \<noteq> 1 then Some ErrNeitherWillRender
                         else if pub = 2 \<and> ad = 1 then Some ErrBothWillRender
                         else None)
                | _ \<Rightarrow> None)))"

record AccountDSA =
  ad_DefaultUnpacked :: "ExtRegsDSA option"
  ad_GDPROnly :: bool

definition dsa_Write :: "AccountDSA option \<Rightarrow> bool \<Rightarrow> string + ExtRegsDSA option \<Rightarrow> string option \<times> (string + ExtRegsDSA option)" where
  "dsa_Write config gdprInScope regExt =
     (if getReqDSA regExt \<noteq> None then (None, regExt)
      else
        (case config of
           None \<Rightarrow> (None, regExt)
         | Some c \<Rightarrow>
             (case ad_DefaultUnpacked c of
                None \<Rightarrow> (None, regExt)
              | Some d \<Rightarrow>
                  if ad_GDPROnly c \<and> \<not> gdprInScope then (None, regExt)
                  else (case regExt of Inl e \<Rightarrow> (Some e, regExt) | Inr _ \<Rightarrow> (None, Inr (Some d))))))"

text \<open>What the signals of the publisher and the buyer promise together.\<close>

definition dsa_agrees :: "ExtRegsDSA option \<Rightarrow> ExtBidDSA option \<Rightarrow> bool" where
  "dsa_agrees req bid \<longleftrightarrow>
     (case bid of
        None \<Rightarrow> \<not> dsaRequired req
      | Some b \<Rightarrow> length (bd_Behalf b) \<le> 100 \<and> length (bd_Paid b) \<le> 100
          \<and> (\<forall>r pub ad. req = Some r \<and> rd_PubRender r = Some pub \<and> bd_AdRender b = Some ad \<longrightarrow> (pub = 0 \<longrightarrow> ad = 1) \<and> (pub = 2 \<longrightarrow> ad \<noteq> 1)))"

lemma dsa_Validate_iff: "dsa_Validate decode regExt bid = None \<longleftrightarrow> dsa_agrees (getReqDSA regExt) (getBidDSA decode bid)"
  by (auto simp: dsa_Validate_def dsa_agrees_def Let_def not_less split: option.splits)

text \<open>A default that requires signals makes validation demand them, unless the request brought its own.\<close>

lemma dsa_Write_then_required:
  assumes "dsa_Write (Some \<lparr>ad_DefaultUnpacked = Some d, ad_GDPROnly = only\<rparr>) scope (Inr r) = (None, r')" "dsaRequired (Some d)" "only \<longrightarrow> scope" "r = None"
    and "dsa_Validate decode r' bid = None"
  shows "getBidDSA decode bid \<noteq> None"
  using assms by (auto simp: dsa_Write_def getReqDSA_def dsa_Validate_iff dsa_agrees_def split: option.splits)

section \<open>Invalid bids of a seat\<close>

datatype bid_error = EmptyBid | NoID | NoImpID string | NegativePrice string | NoPrice string | NoCrID string | CurrencyError string | CurrencyNotAllowed string "string list"

definition validateBid :: "PbsOrtbBid \<Rightarrow> bool \<Rightarrow> bool \<times> bid_error option" where
  "validateBid bid debug =
     (case pb_Bid bid of
        None \<Rightarrow> (False, Some EmptyBid)
      | Some b \<Rightarrow>
          if Bid_ID b = [] then (False, Some NoID)
          else if Bid_ImpID b = [] then (False, Some (NoImpID (Bid_ID b)))
          else if Bid_Price b < 0 then (False, if debug then Some (NegativePrice (Bid_ID b)) else None)
          else if feq (Bid_Price b) 0 \<and> Bid_DealID b = [] then (False, if debug then Some (NoPrice (Bid_ID b)) else None)
          else if Bid_CrID b = [] then (False, Some (NoCrID (Bid_ID b)))
          else (True, None))"

text \<open>\<open>parseISO\<close> parses a currency code: an error, or the code in capitals.\<close>

definition validateCurrency :: "(string \<Rightarrow> string + string) \<Rightarrow> string list \<Rightarrow> string \<Rightarrow> bid_error option" where
  "validateCurrency parseISO allowed bidCurrency =
     (let cur = (if bidCurrency = [] then ''USD'' else bidCurrency) in
      case parseISO cur of
        Inl e \<Rightarrow> Some (CurrencyError e)
      | Inr unit \<Rightarrow>
          let allowed = (if allowed = [] then [''USD''] else allowed)
          in if list_ex (\<lambda>a. ToUpper a = unit) allowed then None else Some (CurrencyNotAllowed unit allowed))"

fun sift_bids :: "store \<Rightarrow> bool \<Rightarrow> bidptr list \<Rightarrow> bidptr list \<times> bid_error list" where
  "sift_bids st debug [] = ([], [])"
| "sift_bids st debug (p # ps) =
    (let (bids, errs) = sift_bids st debug ps in
     case validateBid (st p) debug of
       (True, _) \<Rightarrow> (p # bids, errs)
     | (False, Some e) \<Rightarrow> (bids, e # errs)
     | (False, None) \<Rightarrow> (bids, errs))"

definition removeInvalidBids :: "(string \<Rightarrow> string + string) \<Rightarrow> string list \<Rightarrow> store \<Rightarrow> bool \<Rightarrow> PbsOrtbSeatBid \<Rightarrow> PbsOrtbSeatBid \<times> bid_error list" where
  "removeInvalidBids parseISO cur st debug seatBid =
     (if sb_Bids seatBid = [] then (seatBid, [])
      else
        (case validateCurrency parseISO cur (sb_Currency seatBid) of
           Some e \<Rightarrow> (seatBid\<lparr>sb_Bids := []\<rparr>, [e])
         | None \<Rightarrow> (let (bids, errs) = sift_bids st debug (sb_Bids seatBid) in (seatBid\<lparr>sb_Bids := bids\<rparr>, errs))))"

definition good_bid :: "PbsOrtbBid \<Rightarrow> bool" where
  "good_bid bid = (case pb_Bid bid of
      None \<Rightarrow> False
    | Some b \<Rightarrow> Bid_ID b \<noteq> [] \<and> Bid_ImpID b \<noteq> [] \<and> Bid_CrID b \<noteq> [] \<and> \<not> Bid_Price b < 0 \<and> (feq (Bid_Price b) 0 \<longrightarrow> Bid_DealID b \<noteq> []))"

lemma validateBid_good: "fst (validateBid bid debug) \<longleftrightarrow> good_bid bid"
  by (auto simp: validateBid_def good_bid_def split: option.splits)

lemma validateBid_error: "debug \<Longrightarrow> \<not> good_bid bid \<Longrightarrow> \<exists>e. validateBid bid debug = (False, Some e)"
  by (auto simp: validateBid_def good_bid_def split: option.splits)

lemma sift_bids_eq: "fst (sift_bids st debug ps) = filter (\<lambda>p. good_bid (st p)) ps"
proof (induction ps)
  case (Cons p ps)
  then show ?case
    using validateBid_good [of "st p" debug]
    by (cases "sift_bids st debug ps"; cases "validateBid (st p) debug") (auto split: option.split bool.split)
qed simp

lemma sift_bids_errors: "length (snd (sift_bids st True ps)) = length (filter (\<lambda>p. \<not> good_bid (st p)) ps)"
proof (induction ps)
  case (Cons p ps)
  then show ?case
    using validateBid_good [of "st p" True] validateBid_error [of True "st p"]
    by (cases "sift_bids st True ps"; cases "validateBid (st p) True") (auto split: option.split bool.split)
qed simp

text \<open>
  Only valid bids leave a bidder: after \<^verbatim>\<open>removeInvalidBids\<close> the seat has no bids, or its currency is one the request allows and its bids are exactly the valid ones
  it had, in their order: with an id, an impression and a creative, and a price that is positive, or zero for a deal. With debug output
  every bid that was removed for itself is reported.
\<close>
theorem removeInvalidBids_valid:
  "let (seat, errs) = removeInvalidBids parseISO cur st debug seatBid
   in (if sb_Bids seatBid \<noteq> [] \<and> validateCurrency parseISO cur (sb_Currency seatBid) \<noteq> None then sb_Bids seat = [] \<and> length errs = 1
       else sb_Bids seat = filter (\<lambda>p. good_bid (st p)) (sb_Bids seatBid)
         \<and> (if debug then length errs + length (sb_Bids seat) = length (sb_Bids seatBid) else True))
     \<and> sb_Currency seat = sb_Currency seatBid \<and> sb_Seat seat = sb_Seat seatBid"
proof -
  have len: "length (snd (sift_bids st True ps)) + length (filter (\<lambda>p. good_bid (st p)) ps) = length ps" for ps
    using sum_length_filter_compl [of "\<lambda>p. good_bid (st p)" ps] by (simp add: sift_bids_errors)
  show ?thesis
    using len [of "sb_Bids seatBid"] sift_bids_eq [of st debug "sb_Bids seatBid"]
    by (cases "sift_bids st debug (sb_Bids seatBid)") (auto simp: removeInvalidBids_def Let_def split: option.splits)
qed

section \<open>Bids of the answer\<close>

record Validations =
  vl_BannerCreativeMaxSize :: string
  vl_SecureMarkup :: string
  vl_MaxCreativeWidth :: int
  vl_MaxCreativeHeight :: int

definition creative_too_large :: "Validations \<Rightarrow> Bid \<Rightarrow> bool" where
  "creative_too_large vl b \<longleftrightarrow> Bid_W b > vl_MaxCreativeWidth vl \<or> Bid_H b > vl_MaxCreativeHeight vl"

definition insecure_markup :: "Bid \<Rightarrow> bool" where
  "insecure_markup b \<longleftrightarrow> (Contains (Bid_AdM b) ''http:'' \<or> Contains (Bid_AdM b) ''http%3A'') \<and> \<not> Contains (Bid_AdM b) ''https:'' \<and> \<not> Contains (Bid_AdM b) ''https%3A''"

definition setErrorMessageCreativeSize :: "string \<Rightarrow> string" where
  "setErrorMessageCreativeSize validationType =
     (if validationType = ''enforce'' then ''bidResponse rejected: size WxH''
      else if validationType = ''warn'' then ''bidResponse creative size warning: size WxH larger than AdUnit sizes'' else [])"

definition setErrorMessageSecureMarkup :: "string \<Rightarrow> string" where
  "setErrorMessageSecureMarkup validationType =
     (if validationType = ''enforce'' then ''bidResponse rejected: insecure creative in secure context''
      else if validationType = ''warn'' then ''bidResponse secure markup warning: insecure creative in secure contexts'' else [])"

text \<open>The warnings and errors of the seat in the extension of the answer, the non-bids, and what is returned.\<close>

record make_state =
  mk_result :: "Bid list"
  mk_errs :: "string list"
  mk_Warnings :: "dsa_error list"
  mk_Errors :: "string list"
  mk_NonBids :: SeatNonBidBuilder

definition validateBannerCreativeSize :: "Validations \<Rightarrow> Bid \<Rightarrow> make_state \<Rightarrow> bool \<times> make_state" where
  "validateBannerCreativeSize vl b s =
     (if creative_too_large vl b then (False, s\<lparr>mk_Errors := mk_Errors s @ [setErrorMessageCreativeSize (vl_BannerCreativeMaxSize vl)]\<rparr>) else (True, s))"

definition validateBidAdM :: "Validations \<Rightarrow> Bid \<Rightarrow> make_state \<Rightarrow> bool \<times> make_state" where
  "validateBidAdM vl b s =
     (if insecure_markup b then (False, s\<lparr>mk_Errors := mk_Errors s @ [setErrorMessageSecureMarkup (vl_SecureMarkup vl)]\<rparr>) else (True, s))"

text \<open>Checks that are enforced, that only warn, or that are skipped; \<open>False\<close>: the bid is rejected.\<close>

definition run_check :: "string \<Rightarrow> bool \<Rightarrow> (make_state \<Rightarrow> bool \<times> make_state) \<Rightarrow> make_state \<Rightarrow> bool \<times> make_state" where
  "run_check setting applies check s =
     (if setting = ''enforce'' \<and> applies then check s
      else if setting = ''warn'' \<and> applies then (True, snd (check s))
      else (True, s))"

definition banner_or_video :: "PbsOrtbBid \<Rightarrow> bool" where
  "banner_or_video bid \<longleftrightarrow> pb_BidType bid = ''banner'' \<or> pb_BidType bid = ''video''"

record make_env =
  me_dsa :: "string option \<Rightarrow> ExtBidDSA option"
  me_regExt :: "string + ExtRegsDSA option"
  me_vl :: Validations
  me_imps :: "string list"
  me_ext :: "PbsOrtbBid \<Rightarrow> string + string"
  me_returnCreative :: bool

definition reject :: "PbsOrtbBid \<Rightarrow> int \<Rightarrow> string \<Rightarrow> make_state \<Rightarrow> make_state" where
  "reject bid reason seat s = s\<lparr>mk_NonBids := rejectBid (Some bid) reason seat (mk_NonBids s)\<rparr>"

text \<open>One round of the loop; \<open>None\<close> is the panic on a nil bid.\<close>

definition make_one :: "make_env \<Rightarrow> string \<Rightarrow> PbsOrtbBid \<Rightarrow> make_state \<Rightarrow> make_state option" where
  "make_one me adapter bid s =
     (case dsa_Validate (me_dsa me) (me_regExt me) bid of
        Some e \<Rightarrow> Some (reject bid 300 adapter (s\<lparr>mk_Warnings := mk_Warnings s @ [e]\<rparr>))
      | None \<Rightarrow>
      case pb_Bid bid of
        None \<Rightarrow> None
      | Some b \<Rightarrow>
      let (ok, s) = run_check (vl_BannerCreativeMaxSize (me_vl me)) (pb_BidType bid = ''banner'') (validateBannerCreativeSize (me_vl me) b) s in
      if \<not> ok then Some (reject bid 351 adapter s)
      else
      let (ok, s) = (if Bid_ImpID b \<in> set (me_imps me) then run_check (vl_SecureMarkup (me_vl me)) (banner_or_video bid) (validateBidAdM (me_vl me) b) s else (True, s)) in
      if \<not> ok then Some (reject bid 352 adapter s)
      else
      case me_ext me bid of
        Inl e \<Rightarrow> Some (s\<lparr>mk_errs := mk_errs s @ [e]\<rparr>)
      | Inr j \<Rightarrow> Some (s\<lparr>mk_result := mk_result s @ [b\<lparr>Bid_Ext := Some j, Bid_AdM := (if me_returnCreative me then Bid_AdM b else [])\<rparr>]\<rparr>))"

fun make_bids :: "make_env \<Rightarrow> string \<Rightarrow> PbsOrtbBid list \<Rightarrow> make_state \<Rightarrow> make_state option" where
  "make_bids me adapter [] s = Some s"
| "make_bids me adapter (bid # bids) s = (case make_one me adapter bid s of None \<Rightarrow> None | Some s' \<Rightarrow> make_bids me adapter bids s')"

definition makeBid :: "make_env \<Rightarrow> string \<Rightarrow> PbsOrtbBid list \<Rightarrow> SeatNonBidBuilder \<Rightarrow> make_state option" where
  "makeBid me adapter bids nonBids =
     make_bids me adapter bids \<lparr>mk_result = [], mk_errs = [], mk_Warnings = [], mk_Errors = [], mk_NonBids = nonBids\<rparr>"

subsection \<open>Every bid is returned, rejected with its reason, or an error\<close>

datatype outcome = Returned | Rejected int | ExtError

definition outcome_of :: "make_env \<Rightarrow> PbsOrtbBid \<Rightarrow> Bid \<Rightarrow> outcome" where
  "outcome_of me bid b =
     (if \<not> dsa_agrees (getReqDSA (me_regExt me)) (getBidDSA (me_dsa me) bid) then Rejected 300
      else if vl_BannerCreativeMaxSize (me_vl me) = ''enforce'' \<and> pb_BidType bid = ''banner'' \<and> creative_too_large (me_vl me) b then Rejected 351
      else if Bid_ImpID b \<in> set (me_imps me) \<and> vl_SecureMarkup (me_vl me) = ''enforce'' \<and> banner_or_video bid \<and> insecure_markup b then Rejected 352
      else case me_ext me bid of Inl _ \<Rightarrow> ExtError | Inr _ \<Rightarrow> Returned)"

definition returned_bid :: "make_env \<Rightarrow> PbsOrtbBid \<Rightarrow> Bid" where
  "returned_bid me bid = (let b = the (pb_Bid bid) in b\<lparr>Bid_Ext := Some (projr (me_ext me bid)), Bid_AdM := (if me_returnCreative me then Bid_AdM b else [])\<rparr>)"

definition the_outcome :: "make_env \<Rightarrow> PbsOrtbBid \<Rightarrow> outcome" where
  "the_outcome me bid = outcome_of me bid (the (pb_Bid bid))"

lemma make_one_outcome:
  assumes "pb_Bid bid = Some b"
  shows "\<exists>s'. make_one me adapter bid s = Some s'
    \<and> mk_result s' = mk_result s @ (if the_outcome me bid = Returned then [returned_bid me bid] else [])
    \<and> length (mk_errs s') = length (mk_errs s) + (if the_outcome me bid = ExtError then 1 else 0)
    \<and> mk_NonBids s' = (case the_outcome me bid of Rejected r \<Rightarrow> rejectBid (Some bid) r adapter (mk_NonBids s) | _ \<Rightarrow> mk_NonBids s)"
proof -
  have c1: "\<exists>s1. validateBannerCreativeSize vl b s = (\<not> creative_too_large vl b, s1) \<and> mk_result s1 = mk_result s \<and> mk_errs s1 = mk_errs s \<and> mk_NonBids s1 = mk_NonBids s" for vl s
    by (simp add: validateBannerCreativeSize_def)
  have c2: "\<exists>s1. validateBidAdM vl b s = (\<not> insecure_markup b, s1) \<and> mk_result s1 = mk_result s \<and> mk_errs s1 = mk_errs s \<and> mk_NonBids s1 = mk_NonBids s" for vl s
    by (simp add: validateBidAdM_def)
  have r: "\<exists>s1. run_check setting applies check s = (\<not> (setting = ''enforce'' \<and> applies \<and> bad), s1) \<and> mk_result s1 = mk_result s \<and> mk_errs s1 = mk_errs s \<and> mk_NonBids s1 = mk_NonBids s"
    if "\<exists>s1. check s = (\<not> bad, s1) \<and> mk_result s1 = mk_result s \<and> mk_errs s1 = mk_errs s \<and> mk_NonBids s1 = mk_NonBids s" for setting applies check s bad
    using that by (auto simp: run_check_def)
  obtain s1 where s1: "run_check (vl_BannerCreativeMaxSize (me_vl me)) (pb_BidType bid = ''banner'') (validateBannerCreativeSize (me_vl me) b) s
      = (\<not> (vl_BannerCreativeMaxSize (me_vl me) = ''enforce'' \<and> pb_BidType bid = ''banner'' \<and> creative_too_large (me_vl me) b), s1)"
    "mk_result s1 = mk_result s" "mk_errs s1 = mk_errs s" "mk_NonBids s1 = mk_NonBids s"
    using r [where check = "validateBannerCreativeSize (me_vl me) b" and s = s and bad = "creative_too_large (me_vl me) b", OF c1] by blast
  obtain s2 where s2: "(if Bid_ImpID b \<in> set (me_imps me) then run_check (vl_SecureMarkup (me_vl me)) (banner_or_video bid) (validateBidAdM (me_vl me) b) s1 else (True, s1))
      = (\<not> (Bid_ImpID b \<in> set (me_imps me) \<and> vl_SecureMarkup (me_vl me) = ''enforce'' \<and> banner_or_video bid \<and> insecure_markup b), s2)"
    "mk_result s2 = mk_result s1" "mk_errs s2 = mk_errs s1" "mk_NonBids s2 = mk_NonBids s1"
    using r [where check = "validateBidAdM (me_vl me) b" and s = s1 and bad = "insecure_markup b" and setting = "vl_SecureMarkup (me_vl me)" and applies = "banner_or_video bid", OF c2]
    by (cases "Bid_ImpID b \<in> set (me_imps me)") auto
  show ?thesis
  proof (cases "dsa_Validate (me_dsa me) (me_regExt me) bid")
    case (Some e)
    then have "\<not> dsa_agrees (getReqDSA (me_regExt me)) (getBidDSA (me_dsa me) bid)" by (simp add: dsa_Validate_iff [symmetric])
    then show ?thesis by (simp add: make_one_def Some reject_def the_outcome_def outcome_of_def assms)
  next
    case None
    then have a: "dsa_agrees (getReqDSA (me_regExt me)) (getBidDSA (me_dsa me) bid)" by (simp add: dsa_Validate_iff [symmetric])
    show ?thesis
      unfolding make_one_def None option.case assms Let_def s1(1) prod.case s2(1)
      using s1(2-) s2(2-) a
      by (cases "me_ext me bid") (auto simp: the_outcome_def outcome_of_def assms reject_def returned_bid_def)
  qed
qed

definition rejected_bids :: "make_env \<Rightarrow> PbsOrtbBid list \<Rightarrow> (PbsOrtbBid \<times> int) list" where
  "rejected_bids me bids = concat (map (\<lambda>bid. case the_outcome me bid of Rejected r \<Rightarrow> [(bid, r)] | _ \<Rightarrow> []) bids)"

lemma make_bids_outcomes:
  assumes "list_all (\<lambda>bid. pb_Bid bid \<noteq> None) bids"
  shows "\<exists>s'. make_bids me adapter bids s = Some s'
    \<and> mk_result s' = mk_result s @ map (returned_bid me) (filter (\<lambda>bid. the_outcome me bid = Returned) bids)
    \<and> length (mk_errs s') = length (mk_errs s) + length (filter (\<lambda>bid. the_outcome me bid = ExtError) bids)
    \<and> mk_NonBids s' = fold (\<lambda>(bid, r). rejectBid (Some bid) r adapter) (rejected_bids me bids) (mk_NonBids s)"
  using assms
proof (induction bids arbitrary: s)
  case (Cons bid bids)
  obtain b where b: "pb_Bid bid = Some b" using Cons.prems by auto
  obtain s1 where s1: "make_one me adapter bid s = Some s1"
    "mk_result s1 = mk_result s @ (if the_outcome me bid = Returned then [returned_bid me bid] else [])"
    "length (mk_errs s1) = length (mk_errs s) + (if the_outcome me bid = ExtError then 1 else 0)"
    "mk_NonBids s1 = (case the_outcome me bid of Rejected r \<Rightarrow> rejectBid (Some bid) r adapter (mk_NonBids s) | _ \<Rightarrow> mk_NonBids s)"
    using make_one_outcome [OF b] by blast
  obtain s2 where "make_bids me adapter bids s1 = Some s2" "mk_result s2 = mk_result s1 @ map (returned_bid me) (filter (\<lambda>bid. the_outcome me bid = Returned) bids)"
    "length (mk_errs s2) = length (mk_errs s1) + length (filter (\<lambda>bid. the_outcome me bid = ExtError) bids)"
    "mk_NonBids s2 = fold (\<lambda>(bid, r). rejectBid (Some bid) r adapter) (rejected_bids me bids) (mk_NonBids s1)"
    using Cons.IH [of s1] Cons.prems by auto
  with s1 show ?case by (cases "the_outcome me bid") (auto simp: rejected_bids_def)
qed (simp add: rejected_bids_def)

text \<open>Without the non-bids' details: the reasons a seat is given, in order.\<close>

lemma rejectBid_codes:
  assumes "pb_Bid bid \<noteq> None"
  shows "\<exists>m'. rejectBid (Some bid) r seat (Some m) = Some m' \<and> map nb_StatusCode (map_get [] m' seat) = map nb_StatusCode (map_get [] m seat) @ [r]"
  using assms by (auto simp: rejectBid_def map_get_append_non_bids)

lemma fold_reject_codes:
  "list_all (\<lambda>(bid, r). pb_Bid bid \<noteq> None) rs \<Longrightarrow>
   \<exists>m'. fold (\<lambda>(bid, r). rejectBid (Some bid) r seat) rs (Some m) = Some m' \<and> map nb_StatusCode (map_get [] m' seat) = map nb_StatusCode (map_get [] m seat) @ map snd rs"
proof (induction rs arbitrary: m)
  case (Cons x rs)
  obtain bid r where x: "x = (bid, r)" by (cases x)
  obtain m1 where m1: "rejectBid (Some bid) r seat (Some m) = Some m1" "map nb_StatusCode (map_get [] m1 seat) = map nb_StatusCode (map_get [] m seat) @ [r]"
    using rejectBid_codes [of bid r seat m] Cons.prems x by auto
  from Cons.IH [of m1] Cons.prems show ?case by (simp add: x m1)
qed simp

text \<open>
  C16. Every bid of a seat is accounted for in the answer: for bids that are not nil \<^verbatim>\<open>makeBid\<close> does not panic; a bid is returned, with its creative
  only if asked for, exactly if its transparency signals agree with the request, its banner is not larger and its markup not less secure
  than enforced settings allow, and its extension can be written; the others give one non-bid each with code 300, 351 or 352, or one error.
\<close>
theorem makeBid_accounts:
  assumes "list_all (\<lambda>bid. pb_Bid bid \<noteq> None) bids"
  shows "\<exists>s m'. makeBid me adapter bids (Some m) = Some s \<and> mk_NonBids s = Some m'
    \<and> mk_result s = map (returned_bid me) (filter (\<lambda>bid. the_outcome me bid = Returned) bids)
    \<and> map nb_StatusCode (map_get [] m' adapter) = map nb_StatusCode (map_get [] m adapter) @ map snd (rejected_bids me bids)
    \<and> length (mk_result s) + length (mk_errs s) + length (rejected_bids me bids) = length bids"
proof -
  obtain s where s: "makeBid me adapter bids (Some m) = Some s" "mk_result s = map (returned_bid me) (filter (\<lambda>bid. the_outcome me bid = Returned) bids)"
    "length (mk_errs s) = length (filter (\<lambda>bid. the_outcome me bid = ExtError) bids)"
    "mk_NonBids s = fold (\<lambda>(bid, r). rejectBid (Some bid) r adapter) (rejected_bids me bids) (Some m)"
    using make_bids_outcomes [OF assms] unfolding makeBid_def by fastforce
  have "list_all (\<lambda>(bid, r). pb_Bid bid \<noteq> None) (rejected_bids me bids)"
    using assms by (auto simp: rejected_bids_def list_all_iff split: outcome.splits)
  then obtain m' where "mk_NonBids s = Some m'" "map nb_StatusCode (map_get [] m' adapter) = map nb_StatusCode (map_get [] m adapter) @ map snd (rejected_bids me bids)"
    using fold_reject_codes s(4) by metis
  moreover have "length (filter (\<lambda>bid. the_outcome me bid = Returned) bids) + length (filter (\<lambda>bid. the_outcome me bid = ExtError) bids) + length (rejected_bids me bids) = length bids"
    by (induction bids) (auto simp: rejected_bids_def split: outcome.split)
  ultimately show ?thesis using s by auto
qed

definition sample_bid :: Bid where
  "sample_bid = zero_Bid\<lparr>Bid_ID := ''1'', Bid_ImpID := ''i'', Bid_AdM := ''http://a''\<rparr>"

definition sample_bids :: "PbsOrtbBid list" where
  "sample_bids = [zero_PbsOrtbBid\<lparr>pb_Bid := Some sample_bid, pb_BidType := ''banner''\<rparr>, zero_PbsOrtbBid\<lparr>pb_Bid := Some (sample_bid\<lparr>Bid_W := 900\<rparr>), pb_BidType := ''banner''\<rparr>]"

definition sample_make :: make_env where
  "sample_make = \<lparr>me_dsa = (\<lambda>_. None), me_regExt = Inr None,
     me_vl = \<lparr>vl_BannerCreativeMaxSize = ''enforce'', vl_SecureMarkup = ''enforce'', vl_MaxCreativeWidth = 300, vl_MaxCreativeHeight = 250\<rparr>,
     me_imps = [''i''], me_ext = (\<lambda>_. Inr ''{}''), me_returnCreative = True\<rparr>"

theorem makeBid_accounts_witness:
  "\<exists>s m'. makeBid sample_make ''a'' sample_bids (Some []) = Some s \<and> mk_NonBids s = Some m' \<and> map nb_StatusCode (map_get [] m' ''a'') = [352, 351] \<and> mk_result s = []"
proof -
  have i: "insecure_markup sample_bid" by code_simp
  have o: "map (the_outcome sample_make) sample_bids = [Rejected 352, Rejected 351]"
    using i by (simp add: sample_make_def sample_bids_def sample_bid_def the_outcome_def outcome_of_def dsa_agrees_def getBidDSA_def getReqDSA_def dsaRequired_def creative_too_large_def
        banner_or_video_def zero_Bid_def)
  have r: "map snd (rejected_bids sample_make sample_bids) = [352, 351]" "filter (\<lambda>bid. the_outcome sample_make bid = Returned) sample_bids = []"
    using o by (simp_all add: rejected_bids_def sample_bids_def)
  have "list_all (\<lambda>bid. pb_Bid bid \<noteq> None) sample_bids" by (simp add: sample_bids_def)
  from makeBid_accounts [OF this, of sample_make "''a''" "[]"] show ?thesis
    unfolding r by (auto simp: map_get_def)
qed

end
