(* ===== verification/HookExecution.thy ===== *)
theory HookExecution
  imports PrivacyScrub Gostrings "HOL-Library.Multiset"
begin

text \<open>
  Execution of module hooks: plans (\<^verbatim>\<open>hooks/plan.go\<close>), the concurrent run of a group of hooks with timeouts and rejection, the handling of their answers
  and the order of groups (\<^verbatim>\<open>hooks/hookexecution/execution.go\<close>), and the contexts modules keep between stages (\<^verbatim>\<open>context.go\<close>, \<^verbatim>\<open>executor.go\<close>). The goroutines of a group are a
  step relation: any hook may answer, time out or, after a rejection, be abandoned at any time. Metrics and analytics tags are
  left out. A hook is a function of the payload it is shown, a mutation a function of the payload; a mutation that writes through a pointer of the payload is not
  covered.
\<close>

section \<open>Plans\<close>

record 'h HookWrapper =
  hw_Module :: string
  hw_Code :: string
  hw_Hook :: 'h

record 'h Group =
  gr_Timeout :: int
  gr_Hooks :: "'h HookWrapper list"

record HookExecutionGroup =
  hg_Timeout :: int
  hg_HookSequence :: "(string \<times> string) list"

text \<open>Groups by endpoint and stage; \<open>None\<close>: no plan is configured.\<close>

type_synonym HookExecutionPlan = "(string, (string, HookExecutionGroup list) gomap) gomap option"

definition plan_groups :: "HookExecutionPlan \<Rightarrow> string \<Rightarrow> string \<Rightarrow> HookExecutionGroup list" where
  "plan_groups cfg endpoint stage =
     (case cfg of None \<Rightarrow> [] | Some m \<Rightarrow> (case map_of m endpoint of None \<Rightarrow> [] | Some stages \<Rightarrow> (case map_of stages stage of None \<Rightarrow> [] | Some gs \<Rightarrow> gs)))"

definition getGroup :: "(string \<Rightarrow> 'h option) \<Rightarrow> HookExecutionGroup \<Rightarrow> 'h Group" where
  "getGroup getHookFn cfg =
     \<lparr>gr_Timeout = hg_Timeout cfg * 1000000,
      gr_Hooks = concat (map (\<lambda>(m, c). case getHookFn m of Some h \<Rightarrow> [\<lparr>hw_Module = m, hw_Code = c, hw_Hook = h\<rparr>] | None \<Rightarrow> []) (hg_HookSequence cfg))\<rparr>"

definition getPlan :: "(string \<Rightarrow> 'h option) \<Rightarrow> HookExecutionPlan \<Rightarrow> string \<Rightarrow> string \<Rightarrow> 'h Group list" where
  "getPlan getHookFn cfg endpoint stage = filter (\<lambda>g. gr_Hooks g \<noteq> []) (map (getGroup getHookFn) (plan_groups cfg endpoint stage))"

record Hooks =
  hc_HostExecutionPlan :: HookExecutionPlan
  hc_DefaultAccountExecutionPlan :: HookExecutionPlan

text \<open>\<open>account\<close> is the plan of the account, if there is an account.\<close>

definition getMergedPlan :: "Hooks \<Rightarrow> HookExecutionPlan option \<Rightarrow> string \<Rightarrow> string \<Rightarrow> (string \<Rightarrow> 'h option) \<Rightarrow> 'h Group list" where
  "getMergedPlan cfg account endpoint stage getHookFn =
     (let accountPlan = (case account of Some (Some p) \<Rightarrow> Some p | _ \<Rightarrow> hc_DefaultAccountExecutionPlan cfg)
      in getPlan getHookFn (hc_HostExecutionPlan cfg) endpoint stage @ getPlan getHookFn accountPlan endpoint stage)"

definition IsRejectable :: "string \<Rightarrow> bool" where
  "IsRejectable s = (s \<noteq> ''all_processed_bid_responses'' \<and> s \<noteq> ''auction_response'' \<and> s \<noteq> ''exitpoint'')"

section \<open>Answers of hooks\<close>

type_synonym HookID = "string \<times> string"
type_synonym ModuleContext = "(string, string) gomap"

record 'p hook_mutation =
  hm_key :: "string list"
  hm_type :: string
  hm_fn :: "'p \<Rightarrow> string + 'p"

record 'p HookResult =
  hk_Reject :: bool
  hk_NbrCode :: int
  hk_Message :: string
  hk_ChangeSet :: "'p hook_mutation list"
  hk_Errors :: "string list"
  hk_Warnings :: "string list"
  hk_DebugMessages :: "string list"
  hk_ModuleContext :: "ModuleContext option"

datatype hook_err = TimeoutError | FailureError string | OtherError string

record 'p hookResponse =
  hp_Err :: "hook_err option"
  hp_ExecutionTime :: int
  hp_HookID :: HookID
  hp_Result :: "'p HookResult"

datatype hook_status = StatusSuccess | StatusTimeout | StatusFailure | StatusExecutionFailure
datatype hook_action = ActionUnset | ActionUpdate | ActionReject | ActionNone

record HookOutcome =
  ho_ExecutionTime :: int
  ho_HookID :: HookID
  ho_Status :: hook_status
  ho_Action :: hook_action
  ho_Message :: string
  ho_DebugMessages :: "string list"
  ho_Errors :: "string list"
  ho_Warnings :: "string list"

record RejectError =
  re_NBR :: int
  re_Hook :: HookID
  re_Stage :: string

fun hook_err_text :: "hook_err \<Rightarrow> string" where
  "hook_err_text TimeoutError = ''Hook execution timeout''"
| "hook_err_text (FailureError m) = ''hook execution failed: '' @ m"
| "hook_err_text (OtherError m) = m"

definition handleHookError :: "'p hookResponse \<Rightarrow> HookOutcome \<Rightarrow> HookOutcome" where
  "handleHookError hr ho =
     (case hp_Err hr of
        None \<Rightarrow> ho
      | Some e \<Rightarrow>
          ho\<lparr>ho_Errors := ho_Errors ho @ [hook_err_text e],
             ho_Status := (case e of TimeoutError \<Rightarrow> StatusTimeout | FailureError _ \<Rightarrow> StatusFailure | OtherError _ \<Rightarrow> StatusExecutionFailure)\<rparr>)"

definition RejectError_text :: "RejectError \<Rightarrow> string" where
  "RejectError_text e = ''Module '' @ fst (re_Hook e) @ '' (hook: '' @ snd (re_Hook e) @ '') rejected request with code '' @ FormatInt (re_NBR e) @ '' at '' @ re_Stage e @ '' stage''"

definition handleHookReject :: "string \<Rightarrow> 'p hookResponse \<Rightarrow> HookOutcome \<Rightarrow> HookOutcome \<times> RejectError option" where
  "handleHookReject stage hr ho =
     (if \<not> hk_Reject (hp_Result hr) then (ho, None)
      else if \<not> IsRejectable stage then
        (ho\<lparr>ho_Status := StatusExecutionFailure, ho_Errors := ho_Errors ho @ [''Module (name: '' @ fst (hp_HookID hr) @ '', hook code: '' @ snd (hp_HookID hr) @ '') tried to reject request on the '' @ stage @ '' stage that does not support rejection'']\<rparr>, None)
      else
        (let e = \<lparr>re_NBR = hk_NbrCode (hp_Result hr), re_Hook = hp_HookID hr, re_Stage = stage\<rparr>
         in (ho\<lparr>ho_Action := ActionReject, ho_Errors := ho_Errors ho @ [RejectError_text e]\<rparr>, Some e)))"

fun apply_hook_mutations :: "'p hook_mutation list \<Rightarrow> 'p \<Rightarrow> HookOutcome \<Rightarrow> nat \<Rightarrow> 'p \<times> HookOutcome \<times> nat" where
  "apply_hook_mutations [] payload ho n = (payload, ho, n)"
| "apply_hook_mutations (mut # muts) payload ho n =
    (case hm_fn mut payload of
       Inl e \<Rightarrow> apply_hook_mutations muts payload (ho\<lparr>ho_Warnings := ho_Warnings ho @ [''failed to apply hook mutation: '' @ e]\<rparr>) n
     | Inr p \<Rightarrow>
         apply_hook_mutations muts p
           (ho\<lparr>ho_DebugMessages := ho_DebugMessages ho @ [''Hook mutation successfully applied, affected key: '' @ join_with ''.'' (hm_key mut) @ '', mutation type: '' @ hm_type mut]\<rparr>) (Suc n))"

definition handleHookMutations :: "'p \<Rightarrow> 'p hookResponse \<Rightarrow> HookOutcome \<Rightarrow> 'p \<times> HookOutcome" where
  "handleHookMutations payload hr ho =
     (if hk_ChangeSet (hp_Result hr) = [] then (payload, ho\<lparr>ho_Action := ActionNone\<rparr>)
      else
        (let (p, ho, n) = apply_hook_mutations (hk_ChangeSet (hp_Result hr)) payload (ho\<lparr>ho_Action := ActionUpdate\<rparr>) 0
         in (p, if n > 0 then ho else ho\<lparr>ho_Status := StatusExecutionFailure\<rparr>)))"

definition handleHookResponse :: "string \<Rightarrow> 'p \<Rightarrow> 'p hookResponse \<Rightarrow> 'p \<times> HookOutcome \<times> RejectError option" where
  "handleHookResponse stage payload hr =
     (let r = hp_Result hr;
          ho = \<lparr>ho_ExecutionTime = hp_ExecutionTime hr, ho_HookID = hp_HookID hr, ho_Status = StatusSuccess, ho_Action = ActionUnset, ho_Message = hk_Message r,
                ho_DebugMessages = hk_DebugMessages r, ho_Errors = hk_Errors r, ho_Warnings = hk_Warnings r\<rparr>
      in if hp_Err hr \<noteq> None \<or> hk_Reject r
         then (let (ho, re) = handleHookReject stage hr (handleHookError hr ho) in (payload, ho, re))
         else (let (p, ho) = handleHookMutations payload hr ho in (p, ho, None)))"

record GroupOutcome =
  go_ExecutionTime :: int
  go_InvocationResults :: "HookOutcome list"

type_synonym groupModuleContext = "(string, ModuleContext option) gomap"

fun handle_responses :: "string \<Rightarrow> 'p \<Rightarrow> 'p hookResponse list \<Rightarrow> GroupOutcome \<times> groupModuleContext \<Rightarrow> GroupOutcome \<times> 'p \<times> groupModuleContext \<times> RejectError option" where
  "handle_responses stage payload [] (go, ctx) = (go, payload, ctx, None)"
| "handle_responses stage payload (r # rs) (go, ctx) =
    (let ctx = map_put (fst (hp_HookID r)) (hk_ModuleContext (hp_Result r)) ctx;
         go = (if hp_ExecutionTime r > go_ExecutionTime go then go\<lparr>go_ExecutionTime := hp_ExecutionTime r\<rparr> else go);
         (payload, ho, re) = handleHookResponse stage payload r;
         go = go\<lparr>go_InvocationResults := go_InvocationResults go @ [ho]\<rparr>
     in case re of Some e \<Rightarrow> (go, payload, ctx, Some e) | None \<Rightarrow> handle_responses stage payload rs (go, ctx))"

definition handleHookResponses :: "string \<Rightarrow> 'p hookResponse list \<Rightarrow> 'p \<Rightarrow> GroupOutcome \<times> 'p \<times> groupModuleContext \<times> RejectError option" where
  "handleHookResponses stage rs payload = handle_responses stage payload rs (\<lparr>go_ExecutionTime = 0, go_InvocationResults = []\<rparr>, [])"

subsection \<open>What the answers do to the payload\<close>

fun apply_changes :: "'p hook_mutation list \<Rightarrow> 'p \<Rightarrow> 'p" where
  "apply_changes [] p = p"
| "apply_changes (m # ms) p = apply_changes ms (case hm_fn m p of Inl _ \<Rightarrow> p | Inr q \<Rightarrow> q)"

definition accepted :: "'p hookResponse \<Rightarrow> bool" where
  "accepted r \<longleftrightarrow> hp_Err r = None \<and> \<not> hk_Reject (hp_Result r)"

definition changed_by :: "'p hookResponse list \<Rightarrow> 'p \<Rightarrow> 'p" where
  "changed_by rs p = fold (\<lambda>r. apply_changes (hk_ChangeSet (hp_Result r))) (filter accepted rs) p"

lemma apply_hook_mutations_payload: "fst (apply_hook_mutations muts p ho n) = apply_changes muts p"
  by (induction muts p ho n rule: apply_hook_mutations.induct) (auto split: sum.split)

lemma handleHookMutations_payload: "fst (handleHookMutations p hr ho) = apply_changes (hk_ChangeSet (hp_Result hr)) p"
  using apply_hook_mutations_payload [of "hk_ChangeSet (hp_Result hr)" p "ho\<lparr>ho_Action := ActionUpdate\<rparr>" 0]
  by (auto simp: handleHookMutations_def split: prod.split)

lemma handleHookResponse_payload:
  "fst (handleHookResponse stage p r) = (if accepted r then apply_changes (hk_ChangeSet (hp_Result r)) p else p)"
  using handleHookMutations_payload [of p r] by (auto simp: handleHookResponse_def accepted_def Let_def split: prod.split) (metis fst_conv)

lemma handleHookResponse_reject:
  "snd (snd (handleHookResponse stage p r)) =
     (if hk_Reject (hp_Result r) \<and> IsRejectable stage then Some \<lparr>re_NBR = hk_NbrCode (hp_Result r), re_Hook = hp_HookID r, re_Stage = stage\<rparr> else None)"
  by (auto simp: handleHookResponse_def handleHookReject_def Let_def split: prod.split)

lemma handle_responses_quiet:
  assumes "\<not> (IsRejectable stage \<and> list_ex (\<lambda>r. hk_Reject (hp_Result r)) rs)"
  shows "\<exists>go' ctx'. handle_responses stage p rs (go, ctx) = (go', changed_by rs p, ctx', None) \<and> map ho_HookID (go_InvocationResults go') = map ho_HookID (go_InvocationResults go) @ map hp_HookID rs"
  using assms
proof (induction rs arbitrary: p go ctx)
  case Nil
  then show ?case by (simp add: changed_by_def)
next
  case (Cons r rs)
  obtain p1 ho re where h: "handleHookResponse stage p r = (p1, ho, re)" by (metis prod_cases3)
  have re: "re = None" using handleHookResponse_reject [of stage p r] h Cons.prems by auto
  have p1: "p1 = (if accepted r then apply_changes (hk_ChangeSet (hp_Result r)) p else p)" using handleHookResponse_payload [of stage p r] h by simp
  have id: "ho_HookID ho = hp_HookID r"
  proof -
    have m: "ho_HookID (fst (snd (apply_hook_mutations muts p ho n))) = ho_HookID ho" for muts and p :: 'a and ho n
      by (induction muts p ho n rule: apply_hook_mutations.induct) (auto split: sum.split)
    have "ho_HookID (snd (handleHookMutations p hr ho)) = ho_HookID ho" for p :: 'a and hr ho
      using m [of "hk_ChangeSet (hp_Result hr)" p "ho\<lparr>ho_Action := ActionUpdate\<rparr>" 0] by (auto simp: handleHookMutations_def split: prod.split)
    then show ?thesis
      using h by (auto simp: handleHookResponse_def handleHookReject_def handleHookError_def Let_def split: prod.splits if_splits option.splits) (metis HookOutcome.select_convs(2) snd_conv)+
  qed
  define go1 where "go1 = (let go = (if hp_ExecutionTime r > go_ExecutionTime go then go\<lparr>go_ExecutionTime := hp_ExecutionTime r\<rparr> else go) in go\<lparr>go_InvocationResults := go_InvocationResults go @ [ho]\<rparr>)"
  define ctx1 where "ctx1 = map_put (fst (hp_HookID r)) (hk_ModuleContext (hp_Result r)) ctx"
  have step: "handle_responses stage p (r # rs) (go, ctx) = handle_responses stage p1 rs (go1, ctx1)"
    by (simp add: h re go1_def ctx1_def Let_def)
  have "map ho_HookID (go_InvocationResults go1) = map ho_HookID (go_InvocationResults go) @ [hp_HookID r]" by (simp add: go1_def Let_def id)
  moreover have "changed_by rs p1 = changed_by (r # rs) p" by (simp add: changed_by_def p1)
  ultimately show ?case using Cons.IH [of p1 go1 ctx1] Cons.prems unfolding step by auto
qed

lemma changed_by_append: "changed_by (rs @ qs) p = changed_by qs (changed_by rs p)"
  by (simp add: changed_by_def)

lemma handle_responses_append:
  assumes "handle_responses stage p rs acc = (go', p', ctx', None)"
  shows "handle_responses stage p (rs @ qs) acc = handle_responses stage p' qs (go', ctx')"
  using assms
proof (induction rs arbitrary: p acc)
  case (Cons r rs)
  obtain go ctx where acc: "acc = (go, ctx)" by (cases acc)
  obtain p1 ho re where h: "handleHookResponse stage p r = (p1, ho, re)" by (metis prod_cases3)
  then show ?case using Cons by (cases re) (simp_all add: acc Let_def)
next
  case Nil
  then show ?case by (cases acc) simp
qed

text \<open>When the last of the answers rejects, at a stage that can be rejected, and no other does.\<close>

lemma handleHookResponses_rejected:
  assumes "IsRejectable stage" "hk_Reject (hp_Result r)" "\<not> list_ex (\<lambda>r. hk_Reject (hp_Result r)) rs"
  shows "\<exists>go ctx. handleHookResponses stage (rs @ [r]) p = (go, changed_by rs p, ctx, Some \<lparr>re_NBR = hk_NbrCode (hp_Result r), re_Hook = hp_HookID r, re_Stage = stage\<rparr>)"
proof -
  obtain go1 ctx1 where h1: "handle_responses stage p rs (\<lparr>go_ExecutionTime = 0, go_InvocationResults = []\<rparr>, []) = (go1, changed_by rs p, ctx1, None)"
    using handle_responses_quiet [of stage rs p] assms(3) by blast
  obtain p2 ho re where h: "handleHookResponse stage (changed_by rs p) r = (p2, ho, re)" by (metis prod_cases3)
  have "re = Some \<lparr>re_NBR = hk_NbrCode (hp_Result r), re_Hook = hp_HookID r, re_Stage = stage\<rparr>" "p2 = changed_by rs p"
    using handleHookResponse_reject [of stage "changed_by rs p" r] handleHookResponse_payload [of stage "changed_by rs p" r] assms(1,2) h
    by (auto simp: accepted_def)
  then show ?thesis
    unfolding handleHookResponses_def handle_responses_append [OF h1] by (simp add: h Let_def)
qed

section \<open>A group of hooks runs concurrently\<close>

text \<open>What calling a hook does: it answers, or never does so because it hangs or panics.\<close>

datatype 'p hook_run = Answers "hook_err option" "'p HookResult" | Silent

type_synonym 'p hook = "'p \<Rightarrow> 'p hook_run"

definition empty_hook_result :: "'p HookResult" where
  "empty_hook_result = \<lparr>hk_Reject = False, hk_NbrCode = 0, hk_Message = [], hk_ChangeSet = [], hk_Errors = [], hk_Warnings = [], hk_DebugMessages = [], hk_ModuleContext = None\<rparr>"

definition timeout_response :: "HookID \<Rightarrow> int \<Rightarrow> 'p hookResponse" where
  "timeout_response i t = \<lparr>hp_Err = Some TimeoutError, hp_ExecutionTime = t, hp_HookID = i, hp_Result = empty_hook_result\<rparr>"

text \<open>\<^verbatim>\<open>executeHook\<close>: the answer of the hook if it comes first, otherwise a timeout.\<close>

definition executeHook :: "HookID \<times> 'p hook_run \<Rightarrow> 'p hookResponse \<Rightarrow> bool" where
  "executeHook x r \<longleftrightarrow>
     r = timeout_response (fst x) (hp_ExecutionTime r)
     \<or> (\<exists>e res. snd x = Answers e res \<and> r = \<lparr>hp_Err = e, hp_ExecutionTime = hp_ExecutionTime r, hp_HookID = fst x, hp_Result = res\<rparr>)"

record 'p group_state =
  gs_pending :: "(HookID \<times> 'p hook_run) list"
  gs_channel :: "'p hookResponse list"
  gs_collected :: "'p hookResponse list"
  gs_rejected :: bool

definition start_group :: "(HookID \<times> 'p hook_run) list \<Rightarrow> 'p group_state" where
  "start_group runs = \<lparr>gs_pending = runs, gs_channel = [], gs_collected = [], gs_rejected = False\<rparr>"

text \<open>A goroutine sends to the channel, or leaves after a rejection; the collector receives until a rejection.\<close>

inductive group_step :: "'p group_state \<Rightarrow> 'p group_state \<Rightarrow> bool" where
  respond: "gs_pending s = xs @ x # ys \<Longrightarrow> executeHook x r \<Longrightarrow> group_step s (s\<lparr>gs_pending := xs @ ys, gs_channel := gs_channel s @ [r]\<rparr>)"
| abandon: "gs_rejected s \<Longrightarrow> gs_pending s = xs @ x # ys \<Longrightarrow> group_step s (s\<lparr>gs_pending := xs @ ys\<rparr>)"
| collect: "\<not> gs_rejected s \<Longrightarrow> gs_channel s = r # rs \<Longrightarrow>
    group_step s (s\<lparr>gs_channel := rs, gs_collected := gs_collected s @ [r], gs_rejected := hk_Reject (hp_Result r)\<rparr>)"

inductive_cases group_stepE: "group_step s s'"

definition finished :: "'p group_state \<Rightarrow> bool" where
  "finished s \<longleftrightarrow> gs_rejected s \<or> gs_pending s = [] \<and> gs_channel s = []"

definition unfinished_work :: "'p group_state \<Rightarrow> nat" where
  "unfinished_work s = 2 * length (gs_pending s) + length (gs_channel s)"


definition group_inv :: "(HookID \<times> 'p hook_run) list \<Rightarrow> 'p group_state \<Rightarrow> bool" where
  "group_inv runs s \<longleftrightarrow>
     (\<exists>gone. mset (map fst runs) = mset (map fst (gs_pending s)) + mset (map hp_HookID (gs_channel s)) + mset (map hp_HookID (gs_collected s)) + gone \<and> (\<not> gs_rejected s \<longrightarrow> gone = {#}))
     \<and> set (gs_pending s) \<subseteq> set runs
     \<and> (\<forall>r\<in>set (gs_channel s @ gs_collected s). \<exists>x\<in>set runs. executeHook x r)
     \<and> (if gs_rejected s then \<exists>rs r. gs_collected s = rs @ [r] \<and> hk_Reject (hp_Result r) \<and> \<not> list_ex (\<lambda>r. hk_Reject (hp_Result r)) rs
        else \<not> list_ex (\<lambda>r. hk_Reject (hp_Result r)) (gs_collected s))"

lemma executeHook_id: "executeHook x r \<Longrightarrow> hp_HookID r = fst x"
  by (auto simp: executeHook_def timeout_response_def dest: arg_cong [where f = hp_HookID])

lemma group_inv_step:
  assumes "group_step s s'" "group_inv runs s"
  shows "group_inv runs s'"
  using assms
proof (induction rule: group_step.induct)
  case (respond s xs x ys r)
  obtain gone where g: "mset (map fst runs) = mset (map fst (gs_pending s)) + mset (map hp_HookID (gs_channel s)) + mset (map hp_HookID (gs_collected s)) + gone" "\<not> gs_rejected s \<longrightarrow> gone = {#}"
    using respond.prems by (auto simp: group_inv_def)
  have "x \<in> set runs" using respond.prems respond.hyps(1) by (auto simp: group_inv_def)
  then show ?case
    using respond g executeHook_id [OF respond.hyps(2)] unfolding group_inv_def
    by (intro conjI exI [of _ gone]) (auto simp: ac_simps)
next
  case (abandon s xs x ys)
  obtain gone where g: "mset (map fst runs) = mset (map fst (gs_pending s)) + mset (map hp_HookID (gs_channel s)) + mset (map hp_HookID (gs_collected s)) + gone"
    using abandon.prems by (auto simp: group_inv_def)
  then show ?case
    using abandon unfolding group_inv_def by (intro conjI exI [of _ "add_mset (fst x) gone"]) (auto simp: ac_simps)
next
  case (collect s r rs)
  obtain gone where g: "mset (map fst runs) = mset (map fst (gs_pending s)) + mset (map hp_HookID (gs_channel s)) + mset (map hp_HookID (gs_collected s)) + gone" "\<not> gs_rejected s \<longrightarrow> gone = {#}"
    using collect.prems by (auto simp: group_inv_def)
  then show ?case
    using collect unfolding group_inv_def by (intro conjI exI [of _ gone]) (auto simp: ac_simps)
qed

lemma group_inv_reach: "group_step\<^sup>*\<^sup>* (start_group runs) s \<Longrightarrow> group_inv runs s"
proof (induction rule: rtranclp_induct)
  case base
  show ?case by (simp add: group_inv_def start_group_def)
qed (rule group_inv_step)

text \<open>\<^verbatim>\<open>executeGroup\<close>: \<open>view\<close> is what a hook is shown of the payload; \<open>None\<close> is a panic while it is made.\<close>

definition group_runs :: "(string \<Rightarrow> 'p \<Rightarrow> 'p option) \<Rightarrow> 'p hook Group \<Rightarrow> 'p \<Rightarrow> (HookID \<times> 'p hook_run) list option" where
  "group_runs view g payload = those (map (\<lambda>h. map_option (\<lambda>q. ((hw_Module h, hw_Code h), hw_Hook h q)) (view (hw_Code h) payload)) (gr_Hooks g))"

inductive executeGroup :: "(string \<Rightarrow> 'p \<Rightarrow> 'p option) \<Rightarrow> string \<Rightarrow> 'p hook Group \<Rightarrow> 'p \<Rightarrow> 'p hookResponse list \<Rightarrow> GroupOutcome \<times> 'p \<times> groupModuleContext \<times> RejectError option \<Rightarrow> bool"
  for view stage where
  "group_runs view g payload = Some runs \<Longrightarrow> group_step\<^sup>*\<^sup>* (start_group runs) s \<Longrightarrow> finished s \<Longrightarrow>
   executeGroup view stage g payload (gs_collected s) (handleHookResponses stage (gs_collected s) payload)"

inductive_cases executeGroupE: "executeGroup view stage g payload rs res"

record StageOutcome =
  so_ExecutionTime :: int
  so_Groups :: "GroupOutcome list"

definition add_group :: "GroupOutcome \<Rightarrow> StageOutcome \<Rightarrow> StageOutcome" where
  "add_group go so = so\<lparr>so_ExecutionTime := go_ExecutionTime go + so_ExecutionTime so, so_Groups := go # so_Groups so\<rparr>"

inductive executeStage :: "(string \<Rightarrow> 'p \<Rightarrow> 'p option) \<Rightarrow> string \<Rightarrow> 'p hook Group list \<Rightarrow> 'p \<Rightarrow> 'p hookResponse list list \<Rightarrow> StageOutcome \<times> 'p \<times> groupModuleContext list \<times> RejectError option \<Rightarrow> bool"
  for view stage where
  stage_end: "executeStage view stage [] payload [] (\<lparr>so_ExecutionTime = 0, so_Groups = []\<rparr>, payload, [], None)"
| stage_group: "executeGroup view stage g payload rs (go, newPayload, ctx, None) \<Longrightarrow> executeStage view stage gs newPayload rss (so, p', ctxs, re) \<Longrightarrow>
    executeStage view stage (g # gs) payload (rs # rss) (add_group go so, p', ctx # ctxs, re)"
| stage_rejected: "executeGroup view stage g payload rs (go, newPayload, ctx, Some e) \<Longrightarrow>
    executeStage view stage (g # gs) payload [rs] (add_group go \<lparr>so_ExecutionTime = 0, so_Groups = []\<rparr>, payload, [ctx], Some e)"

text \<open>The answers of a group on a payload: from its own hooks, each at most once, all of them unless one rejects.\<close>

definition answers_of :: "(string \<Rightarrow> 'p \<Rightarrow> 'p option) \<Rightarrow> 'p hook Group \<Rightarrow> 'p \<Rightarrow> 'p hookResponse list \<Rightarrow> bool" where
  "answers_of view g payload rs \<longleftrightarrow>
     mset (map hp_HookID rs) \<subseteq># mset (map (\<lambda>h. (hw_Module h, hw_Code h)) (gr_Hooks g))
     \<and> (list_ex (\<lambda>r. hk_Reject (hp_Result r)) rs \<or> mset (map hp_HookID rs) = mset (map (\<lambda>h. (hw_Module h, hw_Code h)) (gr_Hooks g)))
     \<and> (\<forall>r\<in>set rs. \<exists>h\<in>set (gr_Hooks g). \<exists>q. view (hw_Code h) payload = Some q \<and> executeHook ((hw_Module h, hw_Code h), hw_Hook h q) r)"

lemma those_map: "those (map f xs) = Some ys \<longleftrightarrow> list_all (\<lambda>x. f x \<noteq> None) xs \<and> ys = map (\<lambda>x. the (f x)) xs"
  by (induction xs arbitrary: ys) (auto split: option.splits)

lemma group_runs_Some:
  assumes "group_runs view g payload = Some runs"
  shows "map fst runs = map (\<lambda>h. (hw_Module h, hw_Code h)) (gr_Hooks g)"
    and "\<And>x. x \<in> set runs \<Longrightarrow> \<exists>h\<in>set (gr_Hooks g). \<exists>q. view (hw_Code h) payload = Some q \<and> x = ((hw_Module h, hw_Code h), hw_Hook h q)"
proof -
  have r: "list_all (\<lambda>h. view (hw_Code h) payload \<noteq> None) (gr_Hooks g)" "runs = map (\<lambda>h. ((hw_Module h, hw_Code h), hw_Hook h (the (view (hw_Code h) payload)))) (gr_Hooks g)"
    using assms by (auto simp: group_runs_def those_map list_all_iff)
  show "map fst runs = map (\<lambda>h. (hw_Module h, hw_Code h)) (gr_Hooks g)" by (simp add: r(2))
  show "\<exists>h\<in>set (gr_Hooks g). \<exists>q. view (hw_Code h) payload = Some q \<and> x = ((hw_Module h, hw_Code h), hw_Hook h q)" if "x \<in> set runs" for x
    using that r(1) by (auto simp: r(2) list_all_iff intro!: bexI exI)
qed

lemma executeGroup_answers:
  assumes "executeGroup view stage g payload rs (go, p', ctx, re)"
  shows "answers_of view g payload rs"
    and "if IsRejectable stage \<and> list_ex (\<lambda>r. hk_Reject (hp_Result r)) rs
         then \<exists>r. r \<in> set rs \<and> hk_Reject (hp_Result r) \<and> re = Some \<lparr>re_NBR = hk_NbrCode (hp_Result r), re_Hook = hp_HookID r, re_Stage = stage\<rparr>
         else re = None \<and> p' = changed_by rs payload"
proof -
  obtain runs s where s: "group_runs view g payload = Some runs" "group_step\<^sup>*\<^sup>* (start_group runs) s" "finished s" "rs = gs_collected s"
    "(go, p', ctx, re) = handleHookResponses stage (gs_collected s) payload"
    using assms by (auto elim!: executeGroupE)
  have inv: "group_inv runs s" using group_inv_reach [OF s(2)] .
  have ids: "mset (map fst runs) = mset (map (\<lambda>h. (hw_Module h, hw_Code h)) (gr_Hooks g))" by (simp only: group_runs_Some(1) [OF s(1)])
  have from_hook: "\<forall>r\<in>set rs. \<exists>h\<in>set (gr_Hooks g). \<exists>q. view (hw_Code h) payload = Some q \<and> executeHook ((hw_Module h, hw_Code h), hw_Hook h q) r"
    using inv group_runs_Some(2) [OF s(1)] unfolding group_inv_def s(4) by (metis UnCI set_append)
  show "answers_of view g payload rs"
  proof (cases "gs_rejected s")
    case True
    then have "list_ex (\<lambda>r. hk_Reject (hp_Result r)) rs" using inv by (auto simp: group_inv_def s(4))
    then show ?thesis using inv ids from_hook by (auto simp: answers_of_def group_inv_def s(4) union_assoc)
  next
    case False
    then show ?thesis using inv s(3) ids from_hook by (auto simp: answers_of_def group_inv_def finished_def s(4))
  qed
  show "if IsRejectable stage \<and> list_ex (\<lambda>r. hk_Reject (hp_Result r)) rs
         then \<exists>r. r \<in> set rs \<and> hk_Reject (hp_Result r) \<and> re = Some \<lparr>re_NBR = hk_NbrCode (hp_Result r), re_Hook = hp_HookID r, re_Stage = stage\<rparr>
         else re = None \<and> p' = changed_by rs payload"
  proof (cases "IsRejectable stage \<and> list_ex (\<lambda>r. hk_Reject (hp_Result r)) rs")
    case True
    then have "gs_rejected s" using inv unfolding group_inv_def s(4) by metis
    then obtain qs r where qs: "rs = qs @ [r]" "hk_Reject (hp_Result r)" "\<not> list_ex (\<lambda>r. hk_Reject (hp_Result r)) qs"
      using inv by (auto simp: group_inv_def s(4))
    have "re = Some \<lparr>re_NBR = hk_NbrCode (hp_Result r), re_Hook = hp_HookID r, re_Stage = stage\<rparr>"
      using handleHookResponses_rejected [OF conjunct1 [OF True] qs(2,3), of payload] s(5) unfolding s(4) [symmetric] qs(1) by auto
    moreover have "r \<in> set rs" by (simp add: qs(1))
    ultimately show ?thesis using True qs(2) by auto
  next
    case False
    then show ?thesis
      using handle_responses_quiet [OF False, of payload "\<lparr>go_ExecutionTime = 0, go_InvocationResults = []\<rparr>" "[]"] s(4,5) by (auto simp: handleHookResponses_def)
  qed
qed


text \<open>One group of one hook that appends to the payload, which is shown as it is.\<close>

definition appending_result :: "nat list HookResult" where
  "appending_result = empty_hook_result\<lparr>hk_ChangeSet := [\<lparr>hm_key = [''k''], hm_type = ''add'', hm_fn = (\<lambda>p. Inr (p @ [1]))\<rparr>]\<rparr>"

definition appending_group :: "nat list hook Group" where
  "appending_group = \<lparr>gr_Timeout = 5, gr_Hooks = [\<lparr>hw_Module = ''m'', hw_Code = ''c'', hw_Hook = (\<lambda>p. Answers None appending_result)\<rparr>]\<rparr>"

definition appending_answer :: "nat list hookResponse" where
  "appending_answer = \<lparr>hp_Err = None, hp_ExecutionTime = 2, hp_HookID = (''m'', ''c''), hp_Result = appending_result\<rparr>"

lemma appending_stage_runs: "\<exists>so ctxs. executeStage (\<lambda>_. Some) ''entrypoint'' [appending_group] [0] [[appending_answer]] (so, [0, 1], ctxs, None)"
proof -
  define runs where "runs = [((''m'', ''c''), Answers None appending_result)]"
  have runs: "group_runs (\<lambda>_. Some) appending_group [0] = Some runs" by (simp add: group_runs_def appending_group_def runs_def)
  define s1 where "s1 = (start_group runs)\<lparr>gs_pending := [], gs_channel := [appending_answer]\<rparr>"
  define s2 where "s2 = s1\<lparr>gs_channel := [], gs_collected := [appending_answer], gs_rejected := False\<rparr>"
  have "executeHook ((''m'', ''c''), Answers None appending_result) appending_answer" by (simp add: executeHook_def appending_answer_def)
  then have "group_step (start_group runs) s1"
    using group_step.respond [of "start_group runs" "[]" "((''m'', ''c''), Answers None appending_result)" "[]" appending_answer]
    by (simp add: start_group_def runs_def s1_def)
  moreover have "group_step s1 s2"
    using group_step.collect [of s1 appending_answer "[]"] by (simp add: start_group_def s1_def s2_def appending_answer_def appending_result_def empty_hook_result_def)
  ultimately have reach: "group_step\<^sup>*\<^sup>* (start_group runs) s2" by (meson converse_rtranclp_into_rtranclp r_into_rtranclp)
  have col: "gs_collected s2 = [appending_answer]" and fin: "finished s2" by (simp_all add: s2_def s1_def start_group_def finished_def)
  have "\<not> hk_Reject (hp_Result appending_answer)" by (simp add: appending_answer_def appending_result_def empty_hook_result_def)
  then obtain go ctx where "handleHookResponses ''entrypoint'' [appending_answer] [0] = (go, changed_by [appending_answer] [0], ctx, None)"
    unfolding handleHookResponses_def
    using handle_responses_quiet [of "''entrypoint''" "[appending_answer]" "[0]" "\<lparr>go_ExecutionTime = 0, go_InvocationResults = []\<rparr>" "[]"] by auto
  moreover have "changed_by [appending_answer] [0] = [0, 1]"
    by (simp add: changed_by_def accepted_def appending_answer_def appending_result_def empty_hook_result_def)
  ultimately have "executeGroup (\<lambda>_. Some) ''entrypoint'' appending_group [0] [appending_answer] (go, [0, 1], ctx, None)"
    using executeGroup.intros [OF runs reach fin, of "''entrypoint''"] col by simp
  from executeStage.stage_group [OF this executeStage.stage_end] show ?thesis by blast
qed


section \<open>Contexts of modules\<close>

text \<open>The contexts of modules across stages; a module may have stored no context, \<open>None\<close>.\<close>

definition moduleContexts_put :: "string \<Rightarrow> ModuleContext option \<Rightarrow> groupModuleContext \<Rightarrow> groupModuleContext" where
  "moduleContexts_put m mCtx ctxs =
     (case map_of ctxs m of
        Some (Some existing) \<Rightarrow> map_put m (Some (fold (\<lambda>(k, v). map_put k v) (case mCtx of Some c \<Rightarrow> c | None \<Rightarrow> []) existing)) ctxs
      | _ \<Rightarrow> map_put m mCtx ctxs)"

definition moduleContexts_get :: "string \<Rightarrow> groupModuleContext \<Rightarrow> ModuleContext option option" where
  "moduleContexts_get m ctxs = map_of ctxs m"

definition saveModuleContexts :: "groupModuleContext list \<Rightarrow> groupModuleContext \<Rightarrow> groupModuleContext" where
  "saveModuleContexts gs ctxs = fold (\<lambda>g. fold (\<lambda>(m, c). moduleContexts_put m c) g) gs ctxs"

definition context_value :: "groupModuleContext \<Rightarrow> string \<Rightarrow> string \<Rightarrow> string option" where
  "context_value ctxs m k = (case moduleContexts_get m ctxs of Some (Some c) \<Rightarrow> map_of c k | _ \<Rightarrow> None)"

lemma map_of_fold_put: "distinct (map fst kvs) \<Longrightarrow> map_of (fold (\<lambda>(k, v). map_put k v) kvs m) k = (case map_of kvs k of Some v \<Rightarrow> Some v | None \<Rightarrow> map_of m k)"
proof (induction kvs arbitrary: m)
  case (Cons kv kvs)
  then show ?case by (cases kv) (auto simp: image_iff dest!: map_of_SomeD split: option.split)
qed simp

lemma context_value_put:
  assumes "\<And>c. mCtx = Some c \<Longrightarrow> distinct (map fst c)"
  shows "context_value (moduleContexts_put m mCtx ctxs) m' k =
    (if m' = m then (case mCtx of Some c \<Rightarrow> (case map_of c k of Some v \<Rightarrow> Some v | None \<Rightarrow> context_value ctxs m k) | None \<Rightarrow> context_value ctxs m k)
     else context_value ctxs m' k)"
  using assms by (auto simp: context_value_def moduleContexts_get_def moduleContexts_put_def map_of_fold_put split: option.split)

text \<open>A value a module has stored stays until the same module stores another one under its key.\<close>

definition leaves_value :: "string \<Rightarrow> string \<Rightarrow> string \<times> ModuleContext option \<Rightarrow> bool" where
  "leaves_value m k e \<longleftrightarrow> (case snd e of Some c \<Rightarrow> distinct (map fst c) \<and> (fst e \<noteq> m \<or> k \<notin> fst ` set c) | None \<Rightarrow> True)"

lemma leaves_value_put: "leaves_value m k (m', c) \<Longrightarrow> context_value ctxs m k = Some v \<Longrightarrow> context_value (moduleContexts_put m' c ctxs) m k = Some v"
  by (subst context_value_put) (auto simp: leaves_value_def image_iff dest!: map_of_SomeD split: option.splits)

lemma context_value_kept:
  "list_all (list_all (leaves_value m k)) gs \<Longrightarrow> context_value ctxs m k = Some v \<Longrightarrow> context_value (saveModuleContexts gs ctxs) m k = Some v"
proof (induction gs arbitrary: ctxs)
  case (Cons g gs)
  have "list_all (leaves_value m k) g \<Longrightarrow> context_value ctxs m k = Some v \<Longrightarrow> context_value (fold (\<lambda>(m, c). moduleContexts_put m c) g ctxs) m k = Some v" for g ctxs
    by (induction g arbitrary: ctxs) (auto simp: leaves_value_put)
  with Cons show ?case by (simp add: saveModuleContexts_def)
qed (simp add: saveModuleContexts_def)

text \<open>
  In a group only the last answer of a module counts for its context: an earlier hook of the same module in the group loses what it stored.
\<close>

lemma earlier_context_lost:
  assumes "fst (hp_HookID r1) = fst (hp_HookID r2)" "\<not> hk_Reject (hp_Result r1)" "\<not> hk_Reject (hp_Result r2)"
  shows "\<exists>go p'. handleHookResponses stage [r1, r2] p = (go, p', [(fst (hp_HookID r2), hk_ModuleContext (hp_Result r2))], None)"
proof -
  obtain p1 ho1 re1 where h1: "handleHookResponse stage p r1 = (p1, ho1, re1)" by (metis prod_cases3)
  obtain p2 ho2 re2 where h2: "handleHookResponse stage p1 r2 = (p2, ho2, re2)" by (metis prod_cases3)
  have "re1 = None" "re2 = None" using handleHookResponse_reject [of stage p r1] handleHookResponse_reject [of stage p1 r2] h1 h2 assms(2,3) by auto
  then show ?thesis using h1 h2 assms(1) by (simp add: handleHookResponses_def Let_def)
qed

text \<open>
  At a stage that cannot be rejected, an answer that asks for a rejection still ends the collection: the answers that come after it are dropped
  although the stage goes on.
\<close>

lemma rejection_drops_answers:
  assumes "gs_channel s = r # r2 # rs" "\<not> gs_rejected s" "hk_Reject (hp_Result r)"
  shows "\<exists>s'. group_step s s' \<and> finished s' \<and> gs_collected s' = gs_collected s @ [r] \<and> gs_channel s' = r2 # rs"
  using group_step.collect [OF assms(2,1)] assms(3) by (fastforce simp: finished_def)

section \<open>What a hook is shown of a request\<close>

text \<open>
  \<^verbatim>\<open>handleModuleActivities\<close> for payloads with a request: the \<open>view\<close> of the bidder request and auction request stages. The caches of the wrapper are not
  copied. \<open>account\<close> is the address settings of the account, if there is one; \<open>None\<close> is a panic.
\<close>

definition module_scope :: "string \<Rightarrow> Component" where
  "module_scope hookCode = \<lparr>cp_Type = ''general'', cp_Name = hookCode\<rparr>"

definition module_allows :: "ActivityControl \<Rightarrow> Activity \<Rightarrow> string \<Rightarrow> bool" where
  "module_allows activityControl a hookCode = Allow activityControl a (module_scope hookCode) \<lparr>ar_policies = None, ar_bidRequest = None\<rparr>"

definition module_conf :: "IPConf option \<Rightarrow> IPConf" where
  "module_conf account = (case account of Some c \<Rightarrow> c | None \<Rightarrow> \<lparr>ipc_IPV6 = 56, ipc_IPV4 = 24\<rparr>)"

definition handleModuleActivities :: "ActivityControl \<Rightarrow> IPConf option \<Rightarrow> string \<Rightarrow> RequestWrapper \<Rightarrow> RequestWrapper option" where
  "handleModuleActivities activityControl account hookCode payload =
     (let fpd = module_allows activityControl ActivityTransmitUserFPD hookCode;
          geo = module_allows activityControl ActivityTransmitPreciseGeo hookCode
      in if fpd \<and> geo then Some payload
         else
           (let copy = payload\<lparr>rw_userExt := None, rw_impWrappers := None\<rparr>
            in map_option (\<lambda>r. if geo then r else ScrubGeoAndDeviceIP (module_conf account) r) (if fpd then Some copy else ScrubUserFPD copy)))"

lemma ScrubUserFPD_None: "ScrubUserFPD r = None \<longleftrightarrow> rw_User r = None"
  by (auto simp: ScrubUserFPD_def scrub_defs Let_def split: option.splits)


text \<open>
  The scrubbed extension is only in the cache of the wrapper, which is not written back: a hook that reads the extension of the user from the request itself is shown
  the data that were to be removed.
\<close>

lemma module_sees_ext_data:
  assumes "rw_User r = Some u" "\<not> module_allows activityControl ActivityTransmitUserFPD hookCode"
  shows "\<exists>r' u'. handleModuleActivities activityControl account hookCode r = Some r' \<and> rw_User r' = Some u' \<and> us_Ext u' = us_Ext u"
  using assms by (auto simp: handleModuleActivities_def ScrubUserFPD_def scrub_defs Let_def)

end
