(* ===== verification/Spec2Isabelle.thy ===== *)
theory Spec2Isabelle
  imports VideoEndpoints MediaPrune Topics MultiBid Floors BidAdjustment SyncChooser RequestSplitter Events RulesModule RequestValidator BidValidation HookExecution
begin

text \<open>
  A verification library of the auction core of the bidding server, a fork of Prebid Server in Go. File names below are relative to the source
  tree of the repository.

  \<^bold>\<open>The program.\<close> An endpoint turns an HTTP request into an OpenRTB request. The exchange adds price floors, splits the request into one request per
  bidder, calls the bidders, converts the currency of their bids, adjusts prices, enforces floors, picks the winners of every
  impression and writes targeting keys for the ad server. A video pipeline of its own serves players: it asks the demand sources of a placement in
  parallel, resolves VAST wrappers, adds beacons to the document of the best fill, and counts and bills the impressions the beacons report. Before a request leaves, GDPR permissions, CCPA, LMT, COPPA and the activities
  of the account decide which bidders are asked and what is scrubbed. Two more endpoints keep a cookie of bidder user IDs and choose which
  bidders to sync.

  \<^bold>\<open>The theories\<close>, in the order of their dependence:
  \<^item> \<open>Prelude\<close>: floats as exact rationals with the three special values (rounding of Go's 64-bit floats is not modelled), 64-bit integers with
    wrap-around, Go maps as association lists, string helpers, stable sorting, and the lemmas on them.
  \<^item> \<open>Strconv\<close>: formatting of numbers, as the price buckets need it.
  \<^item> \<open>Currency\<close>: \<^verbatim>\<open>currency/\<close>: rate tables, the aggregate of custom and server rates behind the locale of a rate source, and the
    state machine of the periodic converter (update, stale check); the contract of the rates an auction uses.
  \<^item> \<open>Entities\<close>, \<open>Auction\<close>, \<open>MultiBid\<close>: \<^verbatim>\<open>exchange/entities\<close>, \<^verbatim>\<open>exchange/auction.go\<close>: bids in a store of addresses, the winner of every
    impression, cache lifetimes, the multi-bid cut. The winner does not depend on the order of seats and is beaten by no bid.
  \<^item> \<open>Granularity\<close>, \<open>Targeting\<close>: \<^verbatim>\<open>openrtb_ext/request.go\<close>, \<^verbatim>\<open>exchange/price_granularity.go\<close>, \<^verbatim>\<open>exchange/targeting.go\<close>,
    \<^verbatim>\<open>openrtb_ext/multibid.go\<close>, \<^verbatim>\<open>openrtb_ext/deal_tier.go\<close>: price buckets against a reference, multi-bid settings, targeting keys, deal tiers.
  \<^item> \<open>FloorRules\<close>, \<open>Floors\<close>: \<^verbatim>\<open>floors/\<close>: rule keys and their search in the order of specificity, validation, choice of a model group,
    floors of impressions and enforcement on bids.
  \<^item> \<open>BidAdjustment\<close>: \<^verbatim>\<open>bidadjustment/\<close>: merge, validation, priorities and application of price adjustments.
  \<^item> \<open>UserCookie\<close>, \<open>SyncChooser\<close>: \<^verbatim>\<open>usersync/\<close>, \<^verbatim>\<open>endpoints/cookie_sync.go\<close>, \<^verbatim>\<open>endpoints/setuid.go\<close>: the cookie and its reachable states, the
    loop that ejects IDs until the cookie fits, the choice of bidders to sync behind the locale of a shuffler.
  \<^item> \<open>Gdpr\<close>: \<^verbatim>\<open>gdpr/\<close>: signals, host and account settings, consent, purpose enforcement behind the locale of an enforcer (interpreted for
    the full, the basic and the chosen algorithm), auction permissions.
  \<^item> \<open>Requests\<close>: \<^verbatim>\<open>openrtb_ext/request_wrapper.go\<close>, \<^verbatim>\<open>convert_up.go\<close>, \<^verbatim>\<open>convert_down.go\<close>: the request with the caches of its wrapper,
    rebuilding, and the round trip between versions 2.6 and 2.5.
  \<^item> \<open>PrivacyScrub\<close>: \<^verbatim>\<open>privacy/\<close>: activities, CCPA and LMT, scrubbing, the privacy step of the splitter.
  \<^item> \<open>RequestSplitter\<close>: \<^verbatim>\<open>exchange/utils.go\<close>, \<^verbatim>\<open>schain/\<close>: the whole pipeline from a request to the requests of the bidders.
  \<^item> \<open>Gostrings\<close>, \<open>Macros\<close>, \<open>VastInjector\<close>, \<open>Events\<close>: search, escaping and runes of Go strings; \<^verbatim>\<open>macros/\<close>: the index-based replacer, equal to splitting the URL at
    the delimiter; \<^verbatim>\<open>injector/\<close>: the injection of trackers into a VAST document, a refinement of a transducer on tokens; \<^verbatim>\<open>endpoints/events/\<close>,
    \<^verbatim>\<open>exchange/events.go\<close>, \<^verbatim>\<open>analytics/\<close> requests: event URLs, their round trip and the notification endpoint.
  \<^item> \<open>RulesTree\<close>, \<open>RulesEngine\<close>, \<open>RulesModule\<close>: \<^verbatim>\<open>rules/\<close>, \<^verbatim>\<open>modules/prebid/rulesengine/\<close>: decision trees as a search in their rules behind the locale of a tree
    builder (interpreted for configured rules and for geographic scopes), schema and result functions, configuration, the cache and its manager.
  \<^item> \<open>RequestValidator\<close>, \<open>BidValidation\<close>: \<^verbatim>\<open>ortb/request_validator*.go\<close>, \<^verbatim>\<open>exchange/bidder_validate_bids.go\<close>, \<^verbatim>\<open>exchange/exchange.go\<close>, \<^verbatim>\<open>dsa/\<close>: what an
    accepted impression satisfies, and that every bid of a seat is returned or recorded with the reason of its rejection.
  \<^item> \<open>MediaPrune\<close>, \<open>Topics\<close>: \<^verbatim>\<open>adapters/infoawarebidder.go\<close>, \<^verbatim>\<open>privacysandbox/\<close>: what is left of a request for the sources and media types of a bidder, and the
    browsing topics of the header with their merge into the user data.
  \<^item> \<open>HookExecution\<close>: \<^verbatim>\<open>hooks/\<close>: plans, the goroutines of a group of hooks as a step relation, answers and rejections, module contexts, and what
    a hook is shown of a request.
  \<^item> \<open>VideoStores\<close>, \<open>VideoVast\<close>, \<open>VideoDemand\<close>, \<open>VideoAuction\<close>, \<open>VideoEndpoints\<close>: \<^verbatim>\<open>endpoints/video_pipeline.go\<close>, \<^verbatim>\<open>endpoints/video_pipeline_fast.go\<close>,
    \<^verbatim>\<open>endpoints/demand_adapter.go\<close>: the stores of placements, tracking events (a ring buffer that refines the list of the last events), statistics and seen beacons;
    pixels in VAST text and wrapper chains; the guard of outbound URLs, the winner of a response, macros and beacon URLs; the adapters and their parallel run for
    every order of arrival; and the endpoints as steps on the shared state, with impressions counted and billed once.
  This theory has the properties that span components: what the requests that leave the server carry under each policy.

  \<^bold>\<open>Modelling.\<close> Structs are records, interfaces with a fixed set of implementations are datatypes, errors are sums or options and a panic is \<open>None\<close>.
  Iteration over a Go map, which has no fixed order, follows the list; where the order could matter a theorem says that it does
  not. Pointers are addresses of a store where bids are shared, values elsewhere. Code outside the repository (consent string parsing, vendor
  lists, HTTP, base64 and JSON, random numbers, time) is an argument of the definitions that use it. The loop of
  \<^verbatim>\<open>PrepareCookieForWrite\<close> may run forever, so it has fuel; one pass removes one user ID, so one unit more than there are IDs is enough
  where it ends, and the case where it never ends is proved too. All other loops are structural.

  \<^bold>\<open>Not modelled\<close>: the adapters (glue to some 230 remote protocols), the HTTP handlers around the components, the concurrent calls of bidders,
  the parsing of player requests, the OpenRTB request of the video pipeline, its analytics database and the dashboard of the deployment (file-backed stores and HTTP
  services), stored requests and accounts,
  first-party data and ad server targeting (JSON merging and paths), the cache client, metrics and analytics, configuration loading and the JSON codec. They
  are I/O or glue, or depend on services of the deployment.
\<close>

section \<open>Privacy of the requests that leave the server\<close>



text \<open>A host that enforces no purpose, a user without consent, and one impression for one bidder.\<close>

definition lax_config :: TCF2ConfigReader where
  "lax_config = NewTCF2Config (sample_tcf2\<lparr>tcf_PurposeConfigs := []\<rparr>) plain_account"

definition no_consent :: permissionsImpl where
  "no_consent = (sample_perms [])\<lparr>pm_ParseString := (\<lambda>_. None), pm_cfg := lax_config, pm_purposeEnforcerBuilder := enforcer_for lax_config\<rparr>"

definition one_input :: splitter_input where
  "one_input = \<lparr>in_Imps = [\<lparr>spl_Imp = \<lparr>ri_ID = ''1'', ri_BidFloor = 0, ri_Rwdd = 0, ri_Ext = []\<rparr>, spl_Ext = Some [], spl_PrebidBidder = [(''a'', ''p'')], spl_PrebidImp = []\<rparr>],
     in_BuyerUIDs = None, in_NoSale = Some [], in_SChains = None, in_hostNode = None, in_StoredBidResponses = [], in_FPD = [], in_CCPAEnabled = True,
     in_LMTEnforce = True, in_coreBidders = [''a''], in_GDPREnforced = True, in_Permissions = Impl no_consent\<rparr>"

lemma no_consent_permissions: "AuctionActivitiesAllowed no_consent ''a'' ''a'' = \<lparr>AllowBidRequest = True, PassGeo = False, PassID = False\<rparr>"
  by (simp add: AuctionActivitiesAllowed_def no_consent_def sample_perms_def defaultPermissions_def lax_config_def NewTCF2Config_def sample_tcf2_def
      plain_account_def Account_PurposeEnforced_def TCF2_PurposeEnforced_def)

lemma one_request_sent:
  "\<exists>b errs e. cleanOpenRTBRequests (\<lambda>i f. None) (\<lambda>i. True) (plain_env open_activities) one_input scrub_sample = Some (Inr ([b], errs, e))
     \<and> br_BidderCoreName b = ''a''"
proof -
  have low: "ToLower ''a'' = ''a''" by code_simp
  have imps: "splitImps (\<lambda>i f. None) (\<lambda>i. True) (in_Imps one_input) = Inr [(''a'', [\<lparr>ri_ID = ''1'', ri_BidFloor = 0, ri_Rwdd = 0, ri_Ext = [(''bidder'', XRaw ''p'')]\<rparr>])]"
    by (simp add: splitImps_def one_input_def createSanitizedImpExt_def imp_prebid_def prebid_value_def Let_def)
  show ?thesis
    by (simp add: cleanOpenRTBRequests_def imps Let_def)
      (simp add: one_input_def extractAndCleanBuyerUIDs_def PreloadExts_def scrub_sample_def NewSChainWriter_def env_for_def plain_env_def
        clean_bidder_def resolveBidder_def low SChain_Write_def removeUnpermissionedEids_def applyFPD_def no_consent_permissions
        isBidderBlockedByPrivacy_def GetUID_def prepareUser_def lowerCaseBuyerUIDs_def finish_request_def applyPrivacy_def privacy_ids_def Let_def
        CloneAndClearImpWrappers_def split: option.split)
qed



end
